(* ===== verification/Go_Prelude.thy ===== *)
theory Go_Prelude
  imports Main "HOL-Library.Char_ord" "HOL-Library.List_Lexorder" "HOL-Library.Multiset"
begin

text \<open>
  What the component theories share: the parts of Go's \<^verbatim>\<open>strings\<close> and \<^verbatim>\<open>sort\<close> packages the
  sources call, as total functions on byte strings, the result type of fallible Go functions,
  and generic facts on lists.

  A Go string is a \<^typ>\<open>string\<close>, a list of bytes. Case folding and white space are those of
  ASCII: the Kubernetes names, verbs and command words these functions are applied to are
  ASCII. Strings are ordered as Go orders them, lexicographically by byte, by the order
  of \<^verbatim>\<open>List_Lexorder\<close> over \<^verbatim>\<open>Char_ord\<close>. A function that returns \<^verbatim>\<open>(T, error)\<close> is a function
  into \<open>'e + 'a\<close> whose \<open>Inl\<close> holds the error.
\<close>

named_theorems go_simps \<open>evaluation and characterisation of the Go library functions\<close>
named_theorems go_intros \<open>introduction rules shared by the components\<close>

type_synonym ('e, 'a) result = "'e + 'a"

section \<open>Strings\<close>

definition has_prefix :: "string \<Rightarrow> string \<Rightarrow> bool" where
  "has_prefix s p \<longleftrightarrow> take (length p) s = p"

definition has_suffix :: "string \<Rightarrow> string \<Rightarrow> bool" where
  "has_suffix s p \<longleftrightarrow> length p \<le> length s \<and> drop (length s - length p) s = p"

fun str_contains :: "string \<Rightarrow> string \<Rightarrow> bool" where
  "str_contains [] sub = (sub = [])"
| "str_contains (c # s) sub = (has_prefix (c # s) sub \<or> str_contains s sub)"

definition trim_prefix :: "string \<Rightarrow> string \<Rightarrow> string" where
  "trim_prefix s p = (if has_prefix s p then drop (length p) s else s)"

definition trim_suffix :: "string \<Rightarrow> string \<Rightarrow> string" where
  "trim_suffix s p = (if has_suffix s p then take (length s - length p) s else s)"

definition is_space :: "char \<Rightarrow> bool" where
  "is_space c \<longleftrightarrow> c \<in> set [CHR '' '', CHR 0x09, CHR 0x0A, CHR 0x0B, CHR 0x0C, CHR 0x0D]"

definition trim_space :: "string \<Rightarrow> string" where
  "trim_space s = rev (dropWhile is_space (rev (dropWhile is_space s)))"

definition lower_char :: "char \<Rightarrow> char" where
  "lower_char c = (let n = (of_char c :: nat) in if 65 \<le> n \<and> n \<le> 90 then char_of (n + 32) else c)"

definition upper_char :: "char \<Rightarrow> char" where
  "upper_char c = (let n = (of_char c :: nat) in if 97 \<le> n \<and> n \<le> 122 then char_of (n - 32) else c)"

definition to_lower :: "string \<Rightarrow> string" where
  "to_lower s = map lower_char s"

definition to_upper :: "string \<Rightarrow> string" where
  "to_upper s = map upper_char s"

definition equal_fold :: "string \<Rightarrow> string \<Rightarrow> bool" where
  "equal_fold s t \<longleftrightarrow> to_lower s = to_lower t"

text \<open>\<^verbatim>\<open>strings.Cut\<close>, \<^verbatim>\<open>strings.Split\<close> for a one-byte separator, and \<^verbatim>\<open>strings.Cut\<close> for any.\<close>

fun cut_at :: "char \<Rightarrow> string \<Rightarrow> string \<times> string \<times> bool" where
  "cut_at c [] = ([], [], False)"
| "cut_at c (x # s) =
     (if x = c then ([], s, True)
      else (case cut_at c s of (a, b, ok) \<Rightarrow> (x # a, b, ok)))"

fun cut_str :: "string \<Rightarrow> string \<Rightarrow> string \<times> string \<times> bool" where
  "cut_str [] sep = (if sep = [] then ([], [], True) else ([], [], False))"
| "cut_str (x # s) sep =
     (if has_prefix (x # s) sep then ([], drop (length sep) (x # s), True)
      else (case cut_str s sep of (a, b, ok) \<Rightarrow> (x # a, b, ok)))"

fun split_at :: "char \<Rightarrow> string \<Rightarrow> string list" where
  "split_at c [] = [[]]"
| "split_at c (x # s) =
     (if x = c then [] # split_at c s
      else (case split_at c s of [] \<Rightarrow> [[x]] | w # ws \<Rightarrow> (x # w) # ws))"

text \<open>\<^verbatim>\<open>strings.Fields\<close>: the maximal runs of bytes that are not white space.\<close>

fun fields_aux :: "string \<Rightarrow> string \<Rightarrow> string list" where
  "fields_aux cur [] = (if cur = [] then [] else [rev cur])"
| "fields_aux cur (x # s) =
     (if is_space x then (if cur = [] then fields_aux [] s else rev cur # fields_aux [] s)
      else fields_aux (x # cur) s)"

definition fields :: "string \<Rightarrow> string list" where
  "fields s = fields_aux [] s"

fun join :: "string list \<Rightarrow> string \<Rightarrow> string" where
  "join [] sep = []"
| "join [x] sep = x"
| "join (x # xs) sep = x @ sep @ join xs sep"

text \<open>\<^verbatim>\<open>strings.ReplaceAll\<close> for a pattern of two bytes, which is what RFC 6901 unescaping needs.\<close>

fun replace2 :: "char \<Rightarrow> char \<Rightarrow> string \<Rightarrow> string \<Rightarrow> string" where
  "replace2 a b new (x # y # s) =
     (if x = a \<and> y = b then new @ replace2 a b new s else x # replace2 a b new (y # s))"
| "replace2 a b new s = s"

text \<open>Decimal text of integers, as \<^verbatim>\<open>%d\<close> and \<^verbatim>\<open>strconv.Itoa\<close> print it.\<close>

definition digit_char :: "nat \<Rightarrow> char" where
  "digit_char d = char_of (48 + d)"

fun nat_text :: "nat \<Rightarrow> string" where
  "nat_text n = (if n < 10 then [digit_char n] else nat_text (n div 10) @ [digit_char (n mod 10)])"

declare nat_text.simps [simp del]

definition int_text :: "int \<Rightarrow> string" where
  "int_text i = (if i < 0 then CHR ''-'' # nat_text (nat (- i)) else nat_text (nat i))"

definition bool_text :: "bool \<Rightarrow> string" where
  "bool_text b = (if b then ''true'' else ''false'')"

text \<open>\<^verbatim>\<open>%q\<close> on ASCII text.\<close>

definition hex_digit :: "nat \<Rightarrow> char" where
  "hex_digit d = (if d < 10 then char_of (48 + d) else char_of (87 + d))"

definition quote_char :: "char \<Rightarrow> string" where
  "quote_char c = (let n = (of_char c :: nat) in
     if c = CHR 0x22 \<or> c = CHR 0x5C then [CHR 0x5C, c]
     else if 32 \<le> n \<and> n < 127 then [c]
     else if n = 7 then [CHR 0x5C, CHR ''a'']
     else if n = 8 then [CHR 0x5C, CHR ''b'']
     else if n = 12 then [CHR 0x5C, CHR ''f'']
     else if n = 10 then [CHR 0x5C, CHR ''n'']
     else if n = 13 then [CHR 0x5C, CHR ''r'']
     else if n = 9 then [CHR 0x5C, CHR ''t'']
     else if n = 11 then [CHR 0x5C, CHR ''v'']
     else [CHR 0x5C, CHR ''x'', hex_digit (n div 16), hex_digit (n mod 16)])"

definition quote :: "string \<Rightarrow> string" where
  "quote s = [CHR 0x22] @ concat (map quote_char s) @ [CHR 0x22]"

section \<open>Lists used as sets\<close>

text \<open>
  Several packages carry their own copy of the same loop that keeps the first occurrence of
  each element of a list, with a map of what has been seen.
\<close>

fun dedupe_loop :: "'a list \<Rightarrow> 'a list \<Rightarrow> 'a list" where
  "dedupe_loop seen [] = []"
| "dedupe_loop seen (x # xs) =
     (if x \<in> set seen then dedupe_loop seen xs else x # dedupe_loop (x # seen) xs)"

definition dedupe :: "'a list \<Rightarrow> 'a list" where
  "dedupe xs = dedupe_loop [] xs"

text \<open>Indexing a Go map of slices: a missing key reads as the empty slice.\<close>

definition slice_at :: "('k \<rightharpoonup> 'v list) \<Rightarrow> 'k \<Rightarrow> 'v list" where
  "slice_at m k = (case m k of None \<Rightarrow> [] | Some l \<Rightarrow> l)"

section \<open>Validation\<close>

text \<open>
  A validator returns the first error it meets; \<^verbatim>\<open>nil\<close> is \<open>None\<close>. A block of checks in
  sequence is \<open>first_of\<close> over their results, a loop that returns at the first error is
  \<open>first_error\<close> over the list it ranges over, with the index in \<open>first_error_ix\<close>.
\<close>

fun first_of :: "'e option list \<Rightarrow> 'e option" where
  "first_of [] = None"
| "first_of (x # xs) = (case x of None \<Rightarrow> first_of xs | Some e \<Rightarrow> Some e)"

definition first_error :: "('a \<Rightarrow> 'e option) \<Rightarrow> 'a list \<Rightarrow> 'e option" where
  "first_error f xs = first_of (map f xs)"

definition first_error_ix :: "(nat \<Rightarrow> 'a \<Rightarrow> 'e option) \<Rightarrow> 'a list \<Rightarrow> 'e option" where
  "first_error_ix f xs = first_of (map (\<lambda>(i, x). f i x) (List.enumerate 0 xs))"

definition err_if :: "bool \<Rightarrow> 'e \<Rightarrow> 'e option" where
  "err_if b e = (if b then Some e else None)"

section \<open>Facts\<close>

lemma first_of_None_iff [simp]: "first_of es = None \<longleftrightarrow> (\<forall>e\<in>set es. e = None)"
  by (induction es) (auto split: option.splits)

declare first_of.simps(2) [simp del]

lemma first_of_None [simp]: "first_of (None # es) = first_of es"
  and first_of_Some [simp]: "first_of (Some e # es) = Some e"
  by (simp_all add: first_of.simps(2))

lemma err_if_None_iff [simp]: "err_if b e = None \<longleftrightarrow> \<not> b"
  by (simp add: err_if_def)

lemma first_error_None_iff [simp]: "first_error f xs = None \<longleftrightarrow> (\<forall>x\<in>set xs. f x = None)"
  by (auto simp: first_error_def)

lemma first_error_ix_None_iff:
  "first_error_ix f xs = None \<longleftrightarrow> (\<forall>i<length xs. f i (xs ! i) = None)"
proof -
  have "first_error_ix f xs = None \<longleftrightarrow> (\<forall>p\<in>set (List.enumerate 0 xs). f (fst p) (snd p) = None)"
    by (simp add: first_error_ix_def case_prod_beta)
  then show ?thesis by (force simp: enumerate_eq_zip set_zip)
qed

lemma slice_at_empty [simp]: "slice_at Map.empty k = []"
  by (simp add: slice_at_def)

lemma slice_at_upd [simp]: "slice_at (m(k \<mapsto> v)) k' = (if k' = k then v else slice_at m k')"
  by (simp add: slice_at_def)

lemma set_dedupe_loop: "set (dedupe_loop seen xs) = set xs - set seen"
  by (induction seen xs rule: dedupe_loop.induct) auto

lemma distinct_dedupe_loop: "distinct (dedupe_loop seen xs)"
  by (induction seen xs rule: dedupe_loop.induct) (auto simp: set_dedupe_loop)

lemma set_dedupe [simp, go_simps]: "set (dedupe xs) = set xs"
  by (simp add: dedupe_def set_dedupe_loop)

lemma distinct_dedupe [simp, go_simps]: "distinct (dedupe xs)"
  by (simp add: dedupe_def distinct_dedupe_loop)

lemma dedupe_loop_id:
  "distinct xs \<Longrightarrow> set xs \<inter> set seen = {} \<Longrightarrow> dedupe_loop seen xs = xs"
  by (induction seen xs rule: dedupe_loop.induct) auto

lemma dedupe_distinct_id: "distinct xs \<Longrightarrow> dedupe xs = xs"
  by (simp add: dedupe_def dedupe_loop_id)

lemma dedupe_idem [simp]: "dedupe (dedupe xs) = dedupe xs"
  by (simp add: dedupe_distinct_id)

lemma dedupe_eq_Nil [simp]: "dedupe xs = [] \<longleftrightarrow> xs = []"
  by (metis set_dedupe set_empty)

lemma has_prefix_self_append [simp]: "has_prefix (p @ s) p"
  by (simp add: has_prefix_def)

lemma has_prefix_Nil [simp]: "has_prefix s []"
  by (simp add: has_prefix_def)

lemma has_prefix_iff: "has_prefix s p \<longleftrightarrow> (\<exists>t. s = p @ t)"
  by (metis append_take_drop_id has_prefix_def has_prefix_self_append)

lemma has_suffix_iff: "has_suffix s p \<longleftrightarrow> (\<exists>t. s = t @ p)"
proof
  assume h: "has_suffix s p"
  have "s = take (length s - length p) s @ p"
    using h append_take_drop_id [of "length s - length p" s]
    by (simp add: has_suffix_def)
  then show "\<exists>t. s = t @ p" ..
qed (auto simp: has_suffix_def)

lemma str_contains_iff: "str_contains s sub \<longleftrightarrow> (\<exists>a b. s = a @ sub @ b)"
proof (induction s)
  case Nil
  then show ?case by auto
next
  case (Cons c s)
  show ?case
  proof
    assume "str_contains (c # s) sub"
    then consider "has_prefix (c # s) sub" | "str_contains s sub" by auto
    then show "\<exists>a b. c # s = a @ sub @ b"
    proof cases
      case 1
      then show ?thesis by (metis append_Nil has_prefix_iff)
    next
      case 2
      then show ?thesis using Cons.IH by (metis append_Cons)
    qed
  next
    assume "\<exists>a b. c # s = a @ sub @ b"
    then obtain a b where ab: "c # s = a @ sub @ b" by blast
    show "str_contains (c # s) sub"
    proof (cases a)
      case Nil
      with ab have "has_prefix (c # s) sub" by (auto simp: has_prefix_iff)
      then show ?thesis by simp
    next
      case (Cons x a')
      with ab have "s = a' @ sub @ b" by simp
      then have "str_contains s sub" using Cons.IH by blast
      then show ?thesis by simp
    qed
  qed
qed

lemma lower_char_idem [simp]: "lower_char (lower_char c) = lower_char c"
proof (cases "65 \<le> (of_char c :: nat) \<and> (of_char c :: nat) \<le> 90")
  case True
  then show ?thesis by (simp add: lower_char_def Let_def)
next
  case False
  then have "lower_char c = c" by (auto simp: lower_char_def Let_def)
  then show ?thesis by simp
qed

lemma to_lower_idem [simp]: "to_lower (to_lower s) = to_lower s"
  by (simp add: to_lower_def)

lemma to_lower_append [simp]: "to_lower (s @ t) = to_lower s @ to_lower t"
  by (simp add: to_lower_def)

lemma equal_fold_refl [simp]: "equal_fold s s"
  by (simp add: equal_fold_def)

lemma equal_fold_sym: "equal_fold s t \<longleftrightarrow> equal_fold t s"
  by (auto simp: equal_fold_def)

lemma cut_at_absent: "c \<notin> set s \<Longrightarrow> cut_at c s = (s, [], False)"
  by (induction s) auto

lemma cut_at_append: "c \<notin> set s \<Longrightarrow> cut_at c (s @ c # t) = (s, t, True)"
  by (induction s) auto

lemma fst_cut_at: "fst (cut_at c s) = takeWhile (\<lambda>x. x \<noteq> c) s"
  by (induction s) (auto split: prod.splits)

lemma cut_at_found: "snd (snd (cut_at c s)) \<longleftrightarrow> c \<in> set s"
  by (induction s) (auto split: prod.splits)

lemma split_at_not_Nil [simp]: "split_at c s \<noteq> []"
  by (cases s) (auto split: list.splits)

lemma split_at_absent: "c \<notin> set s \<Longrightarrow> split_at c s = [s]"
  by (induction s) auto

lemma split_at_append:
  "c \<notin> set s \<Longrightarrow> split_at c (s @ c # t) = s # split_at c t"
  by (induction s) auto

lemma str_contains_char: "str_contains s [c] \<longleftrightarrow> c \<in> set s"
  unfolding str_contains_iff by (metis append_Cons append_Nil in_set_conv_decomp)

end
