(* ===== verification/Go_Steps.thy ===== *)
theory Go_Steps
  imports Go_Prelude
begin

text \<open>
  Concurrent parts of the program as transition systems. A server handles requests in several
  goroutines; each holds a lock, or sends one statement to the database, while it changes the
  shared state, so an execution is a sequence of such atomic steps in any order. The states
  that occur are the \<open>reachable\<close> ones, and a locale packages the rule that carries an invariant
  from the initial states over every step to all of them.
\<close>

inductive reachable :: "('s \<Rightarrow> bool) \<Rightarrow> ('s \<Rightarrow> 's \<Rightarrow> bool) \<Rightarrow> 's \<Rightarrow> bool"
  for init :: "'s \<Rightarrow> bool" and step :: "'s \<Rightarrow> 's \<Rightarrow> bool"
where
  reachable_init: "init s \<Longrightarrow> reachable init step s"
| reachable_step: "reachable init step s \<Longrightarrow> step s t \<Longrightarrow> reachable init step t"

locale invariant_system =
  fixes init :: "'s \<Rightarrow> bool" and step :: "'s \<Rightarrow> 's \<Rightarrow> bool" and inv :: "'s \<Rightarrow> bool"
  assumes init_inv: "init s \<Longrightarrow> inv s"
    and step_inv: "inv s \<Longrightarrow> step s t \<Longrightarrow> inv t"
begin

lemma holds: "reachable init step s \<Longrightarrow> inv s"
  by (induction rule: reachable.induct) (auto intro: init_inv step_inv)

lemma holds_after: "inv s \<Longrightarrow> step\<^sup>*\<^sup>* s t \<Longrightarrow> inv t"
  by (rotate_tac 1, induction rule: rtranclp_induct) (auto intro: step_inv)

end

text \<open>
  A loop over a slice whose body may panic: the state after the last element, or \<open>None\<close> as soon
  as one body panics.
\<close>

fun each :: "('c \<Rightarrow> 'h \<Rightarrow> 'h option) \<Rightarrow> 'c list \<Rightarrow> 'h \<Rightarrow> 'h option" where
  "each f [] h = Some h"
| "each f (c # cs) h = (case f c h of None \<Rightarrow> None | Some h' \<Rightarrow> each f cs h')"

lemma each_total:
  assumes "P h" and "\<And>c h. c \<in> set cs \<Longrightarrow> P h \<Longrightarrow> \<exists>h'. f c h = Some h' \<and> P h'"
  shows "\<exists>h'. each f cs h = Some h' \<and> P h'"
  using assms
proof (induction cs arbitrary: h)
  case (Cons c cs)
  then obtain h1 where "f c h = Some h1" "P h1" by (metis list.set_intros(1))
  with Cons show ?case by simp
qed simp

end
