(* ===== verification/Trigger_Store.thy ===== *)
theory Trigger_Store
  imports Go_Steps
begin

text \<open>
  \<^verbatim>\<open>internal/benchsvc/executor.go\<close>: the in-memory store of trigger jobs and its server-sent
  event subscribers. Every operation runs under the mutex of the store, so it is one atomic
  step. A channel is a cell of an explicit heap, because the store and the handler that
  subscribed share it: the heap holds its buffered updates and whether it was closed. Sending
  on a closed channel and closing a channel twice panic in Go; an operation that panics is
  \<open>None\<close>.
\<close>

section \<open>Data\<close>

record ScenarioProgress =
  sp_Scenario :: string
  sp_Status :: string
  sp_RunID :: string

record TriggerJob =
  tj_ID :: string
  tj_Status :: string
  tj_Model :: string
  tj_Provider :: string
  tj_ExecutionMode :: string
  tj_MCPServer :: string
  tj_ToolServer :: string
  tj_ToolServerVersion :: string
  tj_SkillFile :: string
  tj_SkillID :: string
  tj_SkillVersion :: string
  tj_SkillSource :: string
  tj_SkillSHA256 :: string
  tj_Total :: int
  tj_Completed :: int
  tj_Passed :: int
  tj_Failed :: int
  tj_CurrentScenario :: string
  tj_RunIDs :: "string list"
  tj_Progress :: "ScenarioProgress list"
  tj_CreatedAt :: int

record ProgressUpdate =
  pu_ContractVersion :: string
  pu_JobID :: string
  pu_Scenario :: string
  pu_Status :: string
  pu_RunID :: string
  pu_Completed :: int
  pu_Total :: int

record Channel =
  ch_Buf :: "ProgressUpdate list"
  ch_Closed :: bool

type_synonym chan_heap = "nat \<rightharpoonup> Channel"

record TriggerStore =
  ts_Jobs :: "string \<rightharpoonup> TriggerJob"
  ts_Subscribers :: "string \<rightharpoonup> nat list"
  ts_Chans :: chan_heap
  ts_Next :: nat

section \<open>Channels\<close>

definition chanCap :: nat where
  "chanCap = 16"

text \<open>The \<^verbatim>\<open>select\<close> with a default branch: a full buffer drops the update.\<close>

definition send :: "ProgressUpdate \<Rightarrow> nat \<Rightarrow> chan_heap \<Rightarrow> chan_heap option" where
  "send u c h = (case h c of
     None \<Rightarrow> Some h
   | Some ch \<Rightarrow>
       if ch_Closed ch then None
       else if length (ch_Buf ch) < chanCap then Some (h(c \<mapsto> ch\<lparr>ch_Buf := ch_Buf ch @ [u]\<rparr>))
       else Some h)"

definition close :: "nat \<Rightarrow> chan_heap \<Rightarrow> chan_heap option" where
  "close c h = (case h c of
     None \<Rightarrow> None
   | Some ch \<Rightarrow> if ch_Closed ch then None else Some (h(c \<mapsto> ch\<lparr>ch_Closed := True\<rparr>)))"

section \<open>Operations\<close>

definition NewTriggerStore :: TriggerStore where
  "NewTriggerStore = \<lparr>ts_Jobs = Map.empty, ts_Subscribers = Map.empty, ts_Chans = Map.empty, ts_Next = 0\<rparr>"

definition Create :: "TriggerJob \<Rightarrow> TriggerStore \<Rightarrow> TriggerStore" where
  "Create job s = s\<lparr>ts_Jobs := (ts_Jobs s)(tj_ID job \<mapsto> job)\<rparr>"

definition Get :: "string \<Rightarrow> TriggerStore \<Rightarrow> TriggerJob option" where
  "Get i s = ts_Jobs s i"

definition progressStatusCounts :: "string \<Rightarrow> int \<times> int" where
  "progressStatusCounts st =
     (if st = ''passed'' then (1, 0)
      else if st = ''failed'' \<or> st = ''error'' then (0, 1)
      else (0, 0))"

definition stringSliceContains :: "string list \<Rightarrow> string \<Rightarrow> bool" where
  "stringSliceContains vs x \<longleftrightarrow> x \<in> set vs"

text \<open>The loop over \<^verbatim>\<open>job.Progress\<close>: the first entry of the scenario takes the update.\<close>

fun setProgress :: "ProgressUpdate \<Rightarrow> ScenarioProgress list \<Rightarrow> (ScenarioProgress list \<times> string) option" where
  "setProgress u [] = None"
| "setProgress u (p # ps) =
     (if sp_Scenario p = pu_Scenario u
      then Some (p\<lparr>sp_Status := pu_Status u, sp_RunID := pu_RunID u\<rparr> # ps, sp_Status p)
      else (case setProgress u ps of None \<Rightarrow> None | Some (ps', old) \<Rightarrow> Some (p # ps', old)))"

text \<open>
  The scenario part of an update: the progress list, the counts the entry had before, and
  whether a scenario was matched or added.
\<close>

definition matchScenario :: "ProgressUpdate \<Rightarrow> ScenarioProgress list \<Rightarrow> ScenarioProgress list \<times> (int \<times> int) \<times> bool" where
  "matchScenario u ps = (case setProgress u ps of
     Some (ps', old) \<Rightarrow> (ps', progressStatusCounts old, True)
   | None \<Rightarrow>
       if pu_Scenario u \<noteq> []
       then (ps @ [\<lparr>sp_Scenario = pu_Scenario u, sp_Status = pu_Status u, sp_RunID = pu_RunID u\<rparr>], (0, 0), True)
       else (ps, (0, 0), False))"

definition terminal :: "TriggerJob \<Rightarrow> bool" where
  "terminal j \<longleftrightarrow> tj_Status j = ''completed'' \<or> tj_Status j = ''failed''"

definition jobStatus :: "TriggerJob \<Rightarrow> TriggerJob" where
  "jobStatus j =
     (if tj_Completed j \<ge> tj_Total j
      then j\<lparr>tj_Status := (if tj_Failed j > 0 then ''failed'' else ''completed''), tj_CurrentScenario := []\<rparr>
      else j\<lparr>tj_Status := ''running''\<rparr>)"

definition updateJob :: "ProgressUpdate \<Rightarrow> TriggerJob \<Rightarrow> TriggerJob" where
  "updateJob u j = (case matchScenario u (tj_Progress j) of (ps, (oldPassed, oldFailed), matched) \<Rightarrow>
     (case progressStatusCounts (pu_Status u) of (newPassed, newFailed) \<Rightarrow>
       (let j1 = j\<lparr>tj_Progress := ps, tj_Completed := pu_Completed u, tj_Total := pu_Total u,
                  tj_RunIDs := (if pu_RunID u \<noteq> [] \<and> \<not> stringSliceContains (tj_RunIDs j) (pu_RunID u)
                                then tj_RunIDs j @ [pu_RunID u] else tj_RunIDs j)\<rparr>;
            j2 = (if matched
                  then j1\<lparr>tj_Passed := max 0 (tj_Passed j + (newPassed - oldPassed)),
                          tj_Failed := max 0 (tj_Failed j + (newFailed - oldFailed))\<rparr>
                  else if pu_Status u = ''error'' \<and> tj_Failed j = 0 then j1\<lparr>tj_Failed := 1\<rparr>
                  else j1);
            j3 = (if pu_Status u = ''running'' then j2\<lparr>tj_CurrentScenario := pu_Scenario u\<rparr> else j2)
        in jobStatus j3)))"

definition Update :: "ProgressUpdate \<Rightarrow> TriggerStore \<Rightarrow> (TriggerStore \<times> bool) option" where
  "Update u s = (case ts_Jobs s (pu_JobID u) of
     None \<Rightarrow> Some (s, False)
   | Some job \<Rightarrow>
       (let job' = updateJob u job;
            subs = slice_at (ts_Subscribers s) (pu_JobID u);
            s1 = s\<lparr>ts_Jobs := (ts_Jobs s)(pu_JobID u \<mapsto> job')\<rparr> in
        case each (send u) subs (ts_Chans s) of
          None \<Rightarrow> None
        | Some h \<Rightarrow>
            if terminal job' then
              (case each close subs h of
                 None \<Rightarrow> None
               | Some h' \<Rightarrow> Some (s1\<lparr>ts_Chans := h', ts_Subscribers := (ts_Subscribers s)(pu_JobID u := None)\<rparr>, True))
            else Some (s1\<lparr>ts_Chans := h\<rparr>, True)))"

definition completeJob :: "string \<Rightarrow> int \<Rightarrow> int \<Rightarrow> TriggerJob \<Rightarrow> TriggerJob" where
  "completeJob st passed failed j =
     j\<lparr>tj_Status := st, tj_Passed := passed, tj_Failed := failed, tj_Completed := passed + failed,
       tj_CurrentScenario := []\<rparr>"

definition completionUpdate :: "TriggerJob \<Rightarrow> string \<Rightarrow> ProgressUpdate" where
  "completionUpdate j i = \<lparr>pu_ContractVersion = [], pu_JobID = i, pu_Scenario = [], pu_Status = tj_Status j,
     pu_RunID = [], pu_Completed = tj_Completed j, pu_Total = tj_Total j\<rparr>"

definition sendClose :: "ProgressUpdate \<Rightarrow> nat \<Rightarrow> chan_heap \<Rightarrow> chan_heap option" where
  "sendClose u c h = (case send u c h of None \<Rightarrow> None | Some h' \<Rightarrow> close c h')"

definition Complete :: "string \<Rightarrow> string \<Rightarrow> int \<Rightarrow> int \<Rightarrow> TriggerStore \<Rightarrow> (TriggerStore \<times> bool) option" where
  "Complete i st passed failed s = (case ts_Jobs s i of
     None \<Rightarrow> Some (s, False)
   | Some job \<Rightarrow>
       (let job' = completeJob st passed failed job in
        case each (sendClose (completionUpdate job' i)) (slice_at (ts_Subscribers s) i) (ts_Chans s) of
          None \<Rightarrow> None
        | Some h \<Rightarrow> Some (s\<lparr>ts_Jobs := (ts_Jobs s)(i \<mapsto> job'), ts_Chans := h,
                            ts_Subscribers := (ts_Subscribers s)(i := None)\<rparr>, True)))"

definition Subscribe :: "string \<Rightarrow> TriggerStore \<Rightarrow> TriggerStore \<times> nat" where
  "Subscribe i s =
     (let c = ts_Next s in
      (s\<lparr>ts_Chans := (ts_Chans s)(c \<mapsto> \<lparr>ch_Buf = [], ch_Closed = False\<rparr>), ts_Next := Suc c,
         ts_Subscribers := (ts_Subscribers s)(i \<mapsto> slice_at (ts_Subscribers s) i @ [c])\<rparr>, c))"

definition Unsubscribe :: "string \<Rightarrow> nat \<Rightarrow> TriggerStore \<Rightarrow> TriggerStore" where
  "Unsubscribe i c s =
     (let subs = slice_at (ts_Subscribers s) i in
      if c \<in> set subs then s\<lparr>ts_Subscribers := (ts_Subscribers s)(i \<mapsto> remove1 c subs)\<rparr> else s)"

text \<open>The receive of the event stream: the next buffered update, if there is one.\<close>

definition Receive :: "nat \<Rightarrow> TriggerStore \<Rightarrow> TriggerStore" where
  "Receive c s = (case ts_Chans s c of
     None \<Rightarrow> s
   | Some ch \<Rightarrow> s\<lparr>ts_Chans := (ts_Chans s)(c \<mapsto> ch\<lparr>ch_Buf := tl (ch_Buf ch)\<rparr>)\<rparr>)"

section \<open>Interleavings\<close>

inductive trigger_step :: "TriggerStore \<Rightarrow> TriggerStore \<Rightarrow> bool" where
  step_create: "trigger_step s (Create job s)"
| step_update: "Update u s = Some (t, ok) \<Longrightarrow> trigger_step s t"
| step_complete: "Complete i st p f s = Some (t, ok) \<Longrightarrow> trigger_step s t"
| step_subscribe: "Subscribe i s = (t, c) \<Longrightarrow> trigger_step s t"
| step_unsubscribe: "trigger_step s (Unsubscribe i c s)"
| step_receive: "trigger_step s (Receive c s)"

inductive_cases trigger_stepE: "trigger_step s t"

abbreviation trigger_reachable :: "TriggerStore \<Rightarrow> bool" where
  "trigger_reachable \<equiv> reachable (\<lambda>s. s = NewTriggerStore) trigger_step"


section \<open>No operation panics\<close>

definition open_chan :: "chan_heap \<Rightarrow> nat \<Rightarrow> bool" where
  "open_chan h c \<longleftrightarrow> (case h c of None \<Rightarrow> False | Some ch \<Rightarrow> \<not> ch_Closed ch)"

text \<open>
  The invariant of the store: a subscribed channel is open and subscribed once, to one job;
  no channel holds more updates than its capacity; channels are allocated in order; a job is
  stored under its own identifier.
\<close>

definition wf_trigger :: "TriggerStore \<Rightarrow> bool" where
  "wf_trigger s \<longleftrightarrow>
     (\<forall>i. distinct (slice_at (ts_Subscribers s) i)) \<and>
     (\<forall>i. \<forall>c\<in>set (slice_at (ts_Subscribers s) i). open_chan (ts_Chans s) c) \<and>
     (\<forall>i k c. c \<in> set (slice_at (ts_Subscribers s) i) \<longrightarrow> c \<in> set (slice_at (ts_Subscribers s) k) \<longrightarrow> i = k) \<and>
     (\<forall>c ch. ts_Chans s c = Some ch \<longrightarrow> c < ts_Next s \<and> length (ch_Buf ch) \<le> chanCap) \<and>
     (\<forall>i j. ts_Jobs s i = Some j \<longrightarrow> tj_ID j = i)"

definition heap_ok :: "chan_heap \<Rightarrow> nat \<Rightarrow> bool" where
  "heap_ok h n \<longleftrightarrow> (\<forall>c ch. h c = Some ch \<longrightarrow> c < n \<and> length (ch_Buf ch) \<le> chanCap)"

lemma open_chan_upd [simp]:
  "open_chan (h(c \<mapsto> ch)) d \<longleftrightarrow> (if d = c then \<not> ch_Closed ch else open_chan h d)"
  by (simp add: open_chan_def)

lemma slice_at_del [simp]: "slice_at (m(k := None)) k' = (if k' = k then [] else slice_at m k')"
  by (simp add: slice_at_def)

lemma send_ok:
  assumes "open_chan h c" and "heap_ok h n"
  shows "\<exists>h'. send u c h = Some h' \<and> heap_ok h' n \<and> (\<forall>d. open_chan h' d = open_chan h d)"
proof -
  from assms(1) obtain ch where ch: "h c = Some ch" "\<not> ch_Closed ch"
    by (auto simp: open_chan_def split: option.splits)
  show ?thesis
  proof (cases "length (ch_Buf ch) < chanCap")
    case True
    let ?h = "h(c \<mapsto> ch\<lparr>ch_Buf := ch_Buf ch @ [u]\<rparr>)"
    have "send u c h = Some ?h" using ch True by (simp add: send_def)
    moreover have "heap_ok ?h n" using assms(2) ch True by (auto simp: heap_ok_def)
    moreover have "open_chan ?h d = open_chan h d" for d using ch by (auto simp: open_chan_def)
    ultimately show ?thesis by blast
  next
    case False
    then show ?thesis using ch assms(2) by (auto simp: send_def)
  qed
qed

lemma close_ok:
  assumes "open_chan h c" and "heap_ok h n"
  shows "\<exists>h'. close c h = Some h' \<and> heap_ok h' n \<and> (\<forall>d. open_chan h' d \<longleftrightarrow> d \<noteq> c \<and> open_chan h d)"
proof -
  from assms(1) obtain ch where ch: "h c = Some ch" "\<not> ch_Closed ch"
    by (auto simp: open_chan_def split: option.splits)
  then have "close c h = Some (h(c \<mapsto> ch\<lparr>ch_Closed := True\<rparr>))" by (simp add: close_def)
  moreover have "heap_ok (h(c \<mapsto> ch\<lparr>ch_Closed := True\<rparr>)) n" using assms(2) ch by (auto simp: heap_ok_def)
  ultimately show ?thesis by auto
qed

lemma sendClose_ok:
  assumes "open_chan h c" and "heap_ok h n"
  shows "\<exists>h'. sendClose u c h = Some h' \<and> heap_ok h' n \<and> (\<forall>d. open_chan h' d \<longleftrightarrow> d \<noteq> c \<and> open_chan h d)"
proof -
  from send_ok [OF assms] obtain g where g: "send u c h = Some g" "heap_ok g n"
      "\<And>d. open_chan g d = open_chan h d" by blast
  with assms(1) have "open_chan g c" by simp
  from close_ok [OF this g(2)] g show ?thesis by (simp add: sendClose_def)
qed

lemma each_send_ok:
  assumes "\<forall>c\<in>set cs. open_chan h c" and "heap_ok h n"
  shows "\<exists>h'. each (send u) cs h = Some h' \<and> heap_ok h' n \<and> (\<forall>d. open_chan h' d = open_chan h d)"
proof -
  have "\<exists>h'. each (send u) cs h = Some h' \<and> (heap_ok h' n \<and> (\<forall>d. open_chan h' d = open_chan h d))"
  proof (rule each_total)
    show "heap_ok h n \<and> (\<forall>d. open_chan h d = open_chan h d)" using assms(2) by simp
  next
    fix c g assume "c \<in> set cs" and "heap_ok g n \<and> (\<forall>d. open_chan g d = open_chan h d)"
    then show "\<exists>h'. send u c g = Some h' \<and> heap_ok h' n \<and> (\<forall>d. open_chan h' d = open_chan h d)"
      using send_ok [of g c n u] assms(1) by metis
  qed
  then show ?thesis by blast
qed

lemma each_closing_ok:
  assumes f: "\<And>h c. open_chan h c \<Longrightarrow> heap_ok h n \<Longrightarrow>
      \<exists>h'. f c h = Some h' \<and> heap_ok h' n \<and> (\<forall>d. open_chan h' d \<longleftrightarrow> d \<noteq> c \<and> open_chan h d)"
    and "distinct cs" and "\<forall>c\<in>set cs. open_chan h c" and "heap_ok h n"
  shows "\<exists>h'. each f cs h = Some h' \<and> heap_ok h' n \<and>
    (\<forall>d. open_chan h' d \<longleftrightarrow> d \<notin> set cs \<and> open_chan h d)"
  using assms(2-4)
proof (induction cs arbitrary: h)
  case (Cons c cs)
  from Cons.prems f obtain h1 where h1: "f c h = Some h1" "heap_ok h1 n"
      "\<forall>d. open_chan h1 d \<longleftrightarrow> d \<noteq> c \<and> open_chan h d"
    by (metis list.set_intros(1))
  moreover have "\<forall>d\<in>set cs. open_chan h1 d" using Cons.prems h1(3) by auto
  ultimately obtain h2 where "each f cs h1 = Some h2" "heap_ok h2 n"
      "\<forall>d. open_chan h2 d \<longleftrightarrow> d \<notin> set cs \<and> open_chan h1 d"
    using Cons.IH [of h1] Cons.prems(1) by auto
  with h1 show ?case by auto
qed simp

lemma each_close_ok:
  assumes "distinct cs" and "\<forall>c\<in>set cs. open_chan h c" and "heap_ok h n"
  shows "\<exists>h'. each close cs h = Some h' \<and> heap_ok h' n \<and>
    (\<forall>d. open_chan h' d \<longleftrightarrow> d \<notin> set cs \<and> open_chan h d)"
  by (rule each_closing_ok [OF close_ok assms])

lemma each_sendClose_ok:
  assumes "distinct cs" and "\<forall>c\<in>set cs. open_chan h c" and "heap_ok h n"
  shows "\<exists>h'. each (sendClose u) cs h = Some h' \<and> heap_ok h' n \<and>
    (\<forall>d. open_chan h' d \<longleftrightarrow> d \<notin> set cs \<and> open_chan h d)"
  by (rule each_closing_ok [OF sendClose_ok assms])

lemma wf_heap_ok: "wf_trigger s \<Longrightarrow> heap_ok (ts_Chans s) (ts_Next s)"
  by (simp add: wf_trigger_def heap_ok_def)

text \<open>
  What a well-formed store becomes when it keeps its jobs' identifiers and its channel heap
  changes only at the channels of one job, which is how every operation changes it.
\<close>

lemma wf_triggerI:
  assumes "wf_trigger s" and "heap_ok h n" and "\<And>i j. jobs i = Some j \<Longrightarrow> tj_ID j = i"
    and "\<And>i. distinct (slice_at subs i)"
    and "\<And>i c. c \<in> set (slice_at subs i) \<Longrightarrow> open_chan h c"
    and "\<And>i k c. c \<in> set (slice_at subs i) \<Longrightarrow> c \<in> set (slice_at subs k) \<Longrightarrow> i = k"
  shows "wf_trigger (s\<lparr>ts_Jobs := jobs, ts_Chans := h, ts_Subscribers := subs, ts_Next := n\<rparr>)"
  using assms by (simp add: wf_trigger_def heap_ok_def)

lemma updateJob_ID [simp]: "tj_ID (updateJob u j) = tj_ID j"
  by (auto simp: updateJob_def jobStatus_def Let_def split: prod.splits)

lemma completeJob_ID [simp]: "tj_ID (completeJob st p f j) = tj_ID j"
  by (simp add: completeJob_def)


lemma wf_triggerD:
  assumes "wf_trigger s"
  shows "distinct (slice_at (ts_Subscribers s) i)"
    and "c \<in> set (slice_at (ts_Subscribers s) i) \<Longrightarrow> open_chan (ts_Chans s) c"
    and "c \<in> set (slice_at (ts_Subscribers s) i) \<Longrightarrow> c \<in> set (slice_at (ts_Subscribers s) k) \<Longrightarrow> i = k"
    and "ts_Chans s c = Some ch \<Longrightarrow> c < ts_Next s"
    and "ts_Jobs s i = Some j \<Longrightarrow> tj_ID j = i"
  using assms by (auto simp: wf_trigger_def)

text \<open>The channels of a job are closed and forgotten when it ends, all others are untouched.\<close>

definition sealed :: "string \<Rightarrow> TriggerStore \<Rightarrow> TriggerStore \<Rightarrow> bool" where
  "sealed i s t \<longleftrightarrow> slice_at (ts_Subscribers t) i = [] \<and>
     (\<forall>d. open_chan (ts_Chans t) d \<longleftrightarrow>
        d \<notin> set (slice_at (ts_Subscribers s) i) \<and> open_chan (ts_Chans s) d)"

lemma wf_trigger_seal:
  assumes wf: "wf_trigger s" and "heap_ok h (ts_Next s)" and "\<And>i j. jobs i = Some j \<Longrightarrow> tj_ID j = i"
    and h: "\<forall>d. open_chan h d \<longleftrightarrow> d \<notin> set (slice_at (ts_Subscribers s) i) \<and> open_chan (ts_Chans s) d"
  shows "wf_trigger (s\<lparr>ts_Jobs := jobs, ts_Chans := h, ts_Subscribers := (ts_Subscribers s)(i := None), ts_Next := ts_Next s\<rparr>)"
proof (rule wf_triggerI [OF assms(1-3)])
  fix k c assume c: "c \<in> set (slice_at ((ts_Subscribers s)(i := None)) k)"
  then have k: "k \<noteq> i" "c \<in> set (slice_at (ts_Subscribers s) k)" by (auto split: if_splits)
  with wf_triggerD(3) [OF wf] have "c \<notin> set (slice_at (ts_Subscribers s) i)" by blast
  with h k wf_triggerD(2) [OF wf] show "open_chan h c" by blast
  fix l assume "c \<in> set (slice_at ((ts_Subscribers s)(i := None)) l)"
  then have "c \<in> set (slice_at (ts_Subscribers s) l)" by (auto split: if_splits)
  with k wf_triggerD(3) [OF wf] show "k = l" by blast
qed (simp_all add: wf wf_triggerD(1))

lemma Update_ok:
  assumes wf: "wf_trigger s"
  shows "\<exists>t ok. Update u s = Some (t, ok) \<and> wf_trigger t \<and>
    (\<forall>job. ts_Jobs s (pu_JobID u) = Some job \<longrightarrow> ts_Jobs t (pu_JobID u) = Some (updateJob u job) \<and>
       (terminal (updateJob u job) \<longrightarrow> sealed (pu_JobID u) s t))"
proof (cases "ts_Jobs s (pu_JobID u)")
  case None
  then show ?thesis using wf by (auto simp: Update_def)
next
  case (Some job)
  let ?i = "pu_JobID u" and ?job = "updateJob u job"
  let ?subs = "slice_at (ts_Subscribers s) ?i" and ?jobs = "(ts_Jobs s)(?i \<mapsto> ?job)"
  have jobs: "tj_ID j = i" if "?jobs i = Some j" for i j
    using that Some wf by (auto simp: wf_triggerD split: if_splits)
  have subs_open: "\<forall>c\<in>set ?subs. open_chan (ts_Chans s) c" using wf by (simp add: wf_triggerD)
  from each_send_ok [OF subs_open wf_heap_ok [OF wf]] obtain h where
    h: "each (send u) ?subs (ts_Chans s) = Some h" "heap_ok h (ts_Next s)"
       "\<forall>d. open_chan h d = open_chan (ts_Chans s) d" by blast
  show ?thesis
  proof (cases "terminal ?job")
    case True
    have "\<forall>c\<in>set ?subs. open_chan h c" using subs_open h(3) by simp
    from each_close_ok [OF wf_triggerD(1) [OF wf] this h(2)] obtain h' where
      h': "each close ?subs h = Some h'" "heap_ok h' (ts_Next s)"
          "\<forall>d. open_chan h' d \<longleftrightarrow> d \<notin> set ?subs \<and> open_chan h d" by blast
    let ?t = "s\<lparr>ts_Jobs := ?jobs, ts_Chans := h', ts_Subscribers := (ts_Subscribers s)(?i := None), ts_Next := ts_Next s\<rparr>"
    have "wf_trigger ?t"
      using h(3) h'(3) by (intro wf_trigger_seal [OF wf h'(2) jobs]) simp_all
    moreover have "Update u s = Some (?t, True)" using Some h h' True by (simp add: Update_def)
    moreover have "sealed ?i s ?t" using h(3) h'(3) by (simp add: sealed_def)
    ultimately show ?thesis using Some by auto
  next
    case False
    let ?t = "s\<lparr>ts_Jobs := ?jobs, ts_Chans := h, ts_Subscribers := ts_Subscribers s, ts_Next := ts_Next s\<rparr>"
    have "wf_trigger ?t"
      using wf h(3) by (intro wf_triggerI [OF wf h(2) jobs]) (auto simp: wf_triggerD)
    moreover have "Update u s = Some (?t, True)" using Some h False by (simp add: Update_def)
    ultimately show ?thesis using Some False by auto
  qed
qed

lemma Complete_ok:
  assumes wf: "wf_trigger s"
  shows "\<exists>t ok. Complete i st p f s = Some (t, ok) \<and> wf_trigger t \<and>
    (\<forall>job. ts_Jobs s i = Some job \<longrightarrow> ts_Jobs t i = Some (completeJob st p f job) \<and> sealed i s t)"
proof (cases "ts_Jobs s i")
  case None
  then show ?thesis using wf by (auto simp: Complete_def)
next
  case (Some job)
  let ?job = "completeJob st p f job"
  let ?subs = "slice_at (ts_Subscribers s) i" and ?jobs = "(ts_Jobs s)(i \<mapsto> ?job)"
  have jobs: "tj_ID j = k" if "?jobs k = Some j" for k j
    using that Some wf by (auto simp: wf_triggerD split: if_splits)
  have subs_open: "\<forall>c\<in>set ?subs. open_chan (ts_Chans s) c" using wf by (simp add: wf_triggerD)
  from each_sendClose_ok [OF wf_triggerD(1) [OF wf] this wf_heap_ok [OF wf]] obtain h where
    h: "each (sendClose (completionUpdate ?job i)) ?subs (ts_Chans s) = Some h" "heap_ok h (ts_Next s)"
       "\<forall>d. open_chan h d \<longleftrightarrow> d \<notin> set ?subs \<and> open_chan (ts_Chans s) d" by blast
  let ?t = "s\<lparr>ts_Jobs := ?jobs, ts_Chans := h, ts_Subscribers := (ts_Subscribers s)(i := None), ts_Next := ts_Next s\<rparr>"
  have "wf_trigger ?t"
    using h(3) by (intro wf_trigger_seal [OF wf h(2) jobs]) simp_all
  moreover have "Complete i st p f s = Some (?t, True)" using Some h by (simp add: Complete_def)
  moreover have "sealed i s ?t" using h(3) by (simp add: sealed_def)
  ultimately show ?thesis using Some by auto
qed


lemma Create_ok: "wf_trigger s \<Longrightarrow> wf_trigger (Create job s)"
  by (auto simp: wf_trigger_def Create_def)

lemma Subscribe_ok:
  assumes wf: "wf_trigger s" and "Subscribe i s = (t, c)"
  shows "wf_trigger t \<and> open_chan (ts_Chans t) c \<and> c \<in> set (slice_at (ts_Subscribers t) i)"
proof -
  let ?c = "ts_Next s"
  let ?h = "(ts_Chans s)(?c \<mapsto> \<lparr>ch_Buf = [], ch_Closed = False\<rparr>)"
  let ?subs = "(ts_Subscribers s)(i \<mapsto> slice_at (ts_Subscribers s) i @ [?c])"
  have fresh: "\<not> open_chan (ts_Chans s) ?c"
    using wf_triggerD(4) [OF wf, of ?c] by (auto simp: open_chan_def split: option.splits)
  then have unused: "?c \<notin> set (slice_at (ts_Subscribers s) k)" for k
    using wf_triggerD(2) [OF wf] by blast
  have "heap_ok ?h (Suc ?c)"
    using wf_heap_ok [OF wf] by (auto simp: heap_ok_def chanCap_def less_Suc_eq)
  then have "wf_trigger (s\<lparr>ts_Jobs := ts_Jobs s, ts_Chans := ?h, ts_Subscribers := ?subs, ts_Next := Suc ?c\<rparr>)" (is "wf_trigger ?t")
    using wf unused by (intro wf_triggerI [OF wf]) (auto simp: wf_triggerD split: if_splits)
  moreover have "t = ?t" "c = ?c"
    using assms(2) by (auto simp: Subscribe_def Let_def)
  ultimately show ?thesis by simp
qed

lemma Unsubscribe_ok: "wf_trigger s \<Longrightarrow> wf_trigger (Unsubscribe i c s)"
  using notin_set_remove1 by (fastforce simp: wf_trigger_def Unsubscribe_def Let_def split: if_splits)

lemma Receive_ok: "wf_trigger s \<Longrightarrow> wf_trigger (Receive c s)"
proof (cases "ts_Chans s c")
  case (Some ch)
  assume wf: "wf_trigger s"
  let ?h = "(ts_Chans s)(c \<mapsto> ch\<lparr>ch_Buf := tl (ch_Buf ch)\<rparr>)"
  have "heap_ok ?h (ts_Next s)" using wf_heap_ok [OF wf] Some by (auto simp: heap_ok_def le_diff_conv le_SucI)
  moreover have "open_chan ?h d = open_chan (ts_Chans s) d" for d using Some by (simp add: open_chan_def)
  ultimately have "wf_trigger (s\<lparr>ts_Jobs := ts_Jobs s, ts_Chans := ?h, ts_Subscribers := ts_Subscribers s, ts_Next := ts_Next s\<rparr>)"
    using wf by (intro wf_triggerI [OF wf]) (auto simp: wf_triggerD)
  then show ?thesis using Some by (simp add: Receive_def)
qed (simp add: Receive_def)

lemma trigger_step_wf:
  assumes "wf_trigger s" and "trigger_step s t"
  shows "wf_trigger t"
  using assms(2)
proof (cases rule: trigger_step.cases)
  case (step_update u ok)
  then show ?thesis using Update_ok [OF assms(1), of u] by auto
next
  case (step_complete i st p f ok)
  then show ?thesis using Complete_ok [OF assms(1), of i st p f] by auto
next
  case (step_subscribe i c)
  then show ?thesis using Subscribe_ok [OF assms(1)] by blast
qed (simp_all add: assms(1) Create_ok Unsubscribe_ok Receive_ok)

lemma NewTriggerStore_wf: "wf_trigger NewTriggerStore"
  by (simp add: wf_trigger_def NewTriggerStore_def)

interpretation trigger: invariant_system "\<lambda>s. s = NewTriggerStore" trigger_step wf_trigger
  by unfold_locales (simp_all add: NewTriggerStore_wf trigger_step_wf)

section \<open>Counters\<close>

definition passedOf :: "ScenarioProgress list \<Rightarrow> int" where
  "passedOf ps = (\<Sum>p\<leftarrow>ps. fst (progressStatusCounts (sp_Status p)))"

definition failedOf :: "ScenarioProgress list \<Rightarrow> int" where
  "failedOf ps = (\<Sum>p\<leftarrow>ps. snd (progressStatusCounts (sp_Status p)))"

lemma tally_simps [simp]:
  "passedOf [] = 0" "failedOf [] = 0"
  "passedOf (p # ps) = fst (progressStatusCounts (sp_Status p)) + passedOf ps"
  "failedOf (p # ps) = snd (progressStatusCounts (sp_Status p)) + failedOf ps"
  "passedOf (ps @ qs) = passedOf ps + passedOf qs" "failedOf (ps @ qs) = failedOf ps + failedOf qs"
  by (simp_all add: passedOf_def failedOf_def)

lemma counts_nonneg [simp]: "0 \<le> fst (progressStatusCounts st)" "0 \<le> snd (progressStatusCounts st)"
  by (simp_all add: progressStatusCounts_def)

lemma tally_nonneg: "0 \<le> passedOf ps" "0 \<le> failedOf ps"
  by (induction ps) simp_all

lemma setProgress_tally:
  "setProgress u ps = Some (ps', old) \<Longrightarrow>
     passedOf ps' = passedOf ps + (fst (progressStatusCounts (pu_Status u)) - fst (progressStatusCounts old)) \<and>
     failedOf ps' = failedOf ps + (snd (progressStatusCounts (pu_Status u)) - snd (progressStatusCounts old))"
  by (induction ps arbitrary: ps') (auto split: if_splits option.splits)

lemma matchScenario_tally:
  assumes "matchScenario u ps = (ps', (oldP, oldF), m)"
  shows "passedOf ps' = passedOf ps + (if m then fst (progressStatusCounts (pu_Status u)) - oldP else 0)"
    and "failedOf ps' = failedOf ps + (if m then snd (progressStatusCounts (pu_Status u)) - oldF else 0)"
  using assms setProgress_tally [of u ps]
  by (auto simp: matchScenario_def split: option.splits if_splits prod.splits)

lemma setProgress_again:
  "setProgress u ps = Some (ps', old) \<Longrightarrow> setProgress u ps' = Some (ps', pu_Status u)"
  by (induction ps arbitrary: ps') (auto split: if_splits option.splits)

lemma setProgress_added:
  "setProgress u ps = None \<Longrightarrow> sp_Scenario p = pu_Scenario u \<Longrightarrow> sp_Status p = pu_Status u \<Longrightarrow>
     sp_RunID p = pu_RunID u \<Longrightarrow> setProgress u (ps @ [p]) = Some (ps @ [p], pu_Status u)"
  by (induction ps) (auto split: if_splits option.splits)

lemma matchScenario_again:
  assumes "matchScenario u ps = (ps', old, m)"
  shows "matchScenario u ps' = (ps', if m then progressStatusCounts (pu_Status u) else (0, 0), m)"
proof (cases "setProgress u ps")
  case None
  then show ?thesis using assms setProgress_added [OF None]
    by (auto simp: matchScenario_def split: if_splits)
next
  case (Some r)
  then show ?thesis using assms setProgress_again [of u ps]
    by (cases r) (auto simp: matchScenario_def)
qed


text \<open>
  The counters of a job the store tracks by progress updates: the passed count is the number
  of scenarios that passed, the failed count the number that failed or errored, plus one for an
  executor error that names no scenario.
\<close>

definition counted :: "TriggerJob \<Rightarrow> bool" where
  "counted j \<longleftrightarrow> tj_Passed j = passedOf (tj_Progress j) \<and>
     failedOf (tj_Progress j) \<le> tj_Failed j \<and> tj_Failed j \<le> failedOf (tj_Progress j) + 1"

lemma updateJob_form:
  assumes "matchScenario u (tj_Progress j) = (ps, (oldP, oldF), m)"
    and "progressStatusCounts (pu_Status u) = (newP, newF)"
    and "F = (if m then max 0 (tj_Failed j + (newF - oldF))
              else if pu_Status u = ''error'' \<and> tj_Failed j = 0 then 1 else tj_Failed j)"
  shows "updateJob u j = j\<lparr>
    tj_Status := (if pu_Completed u \<ge> pu_Total u then if F > 0 then ''failed'' else ''completed'' else ''running''),
    tj_Total := pu_Total u, tj_Completed := pu_Completed u,
    tj_Passed := (if m then max 0 (tj_Passed j + (newP - oldP)) else tj_Passed j),
    tj_Failed := F,
    tj_CurrentScenario := (if pu_Completed u \<ge> pu_Total u then []
      else if pu_Status u = ''running'' then pu_Scenario u else tj_CurrentScenario j),
    tj_RunIDs := (if pu_RunID u \<noteq> [] \<and> pu_RunID u \<notin> set (tj_RunIDs j)
      then tj_RunIDs j @ [pu_RunID u] else tj_RunIDs j),
    tj_Progress := ps\<rparr>"
  using assms(1,2)
  by (cases j; cases m; cases "pu_Status u = ''running''"; cases "pu_Status u = ''error'' \<and> tj_Failed j = 0";
      cases "pu_Completed u \<ge> pu_Total u")
    (simp_all add: updateJob_def jobStatus_def stringSliceContains_def Let_def assms(3))

lemma updateJob_parts:
  assumes "matchScenario u (tj_Progress j) = (ps, (oldP, oldF), m)"
    and "progressStatusCounts (pu_Status u) = (newP, newF)"
  shows "tj_Progress (updateJob u j) = ps"
    and "tj_Passed (updateJob u j) = (if m then max 0 (tj_Passed j + (newP - oldP)) else tj_Passed j)"
    and "tj_Failed (updateJob u j) = (if m then max 0 (tj_Failed j + (newF - oldF))
       else if pu_Status u = ''error'' \<and> tj_Failed j = 0 then 1 else tj_Failed j)"
    and "tj_Completed (updateJob u j) = pu_Completed u" and "tj_Total (updateJob u j) = pu_Total u"
    and "tj_Status (updateJob u j) = (if pu_Completed u \<ge> pu_Total u
      then if tj_Failed (updateJob u j) > 0 then ''failed'' else ''completed'' else ''running'')"
  by (simp_all add: updateJob_form [OF assms refl])

lemma updateJob_counted:
  assumes "counted j"
  shows "counted (updateJob u j)"
proof -
  obtain ps oldP oldF m where m: "matchScenario u (tj_Progress j) = (ps, (oldP, oldF), m)"
    by (metis prod.exhaust)
  obtain np nf where n: "progressStatusCounts (pu_Status u) = (np, nf)" by fastforce
  note tally = matchScenario_tally [OF m, unfolded n] and parts = updateJob_parts [OF m n]
  from assms tally tally_nonneg [of ps] tally_nonneg(2) [of "tj_Progress j"] show ?thesis
    unfolding counted_def parts by (auto split: if_splits)
qed

lemma fold_updateJob_counted: "counted j \<Longrightarrow> counted (fold updateJob us j)"
  by (induction us arbitrary: j) (auto intro: updateJob_counted)

lemma pending_tally:
  "(\<forall>p\<in>set ps. sp_Status p = ''pending'') \<Longrightarrow> passedOf ps = 0 \<and> failedOf ps = 0"
  by (induction ps) (auto simp: progressStatusCounts_def)

section \<open>Properties\<close>

definition demo_job :: TriggerJob where
  "demo_job = \<lparr>tj_ID = ''j1'', tj_Status = ''pending'', tj_Model = ''m'', tj_Provider = [],
     tj_ExecutionMode = ''provider'', tj_MCPServer = [], tj_ToolServer = [], tj_ToolServerVersion = [],
     tj_SkillFile = [], tj_SkillID = [], tj_SkillVersion = [], tj_SkillSource = [], tj_SkillSHA256 = [],
     tj_Total = 1, tj_Completed = 0, tj_Passed = 0, tj_Failed = 0, tj_CurrentScenario = [], tj_RunIDs = [],
     tj_Progress = [\<lparr>sp_Scenario = ''a'', sp_Status = ''pending'', sp_RunID = []\<rparr>], tj_CreatedAt = 0\<rparr>"

definition demo_update :: ProgressUpdate where
  "demo_update = \<lparr>pu_ContractVersion = [], pu_JobID = ''j1'', pu_Scenario = ''a'', pu_Status = ''passed'',
     pu_RunID = ''r1'', pu_Completed = 1, pu_Total = 1\<rparr>"

definition demo_trigger :: TriggerStore where
  "demo_trigger = fst (Subscribe ''j1'' (Create demo_job NewTriggerStore))"

lemma demo_trigger_reachable: "trigger_reachable demo_trigger"
proof -
  have "trigger_reachable (Create demo_job NewTriggerStore)"
    by (rule reachable_step [of _ _ NewTriggerStore]) (simp_all add: reachable_init step_create)
  then show ?thesis unfolding demo_trigger_def
    by (rule reachable_step) (auto intro!: step_subscribe [of "''j1''"] simp: Subscribe_def Let_def)
qed

text \<open>
  C29: No interleaving of requests makes the trigger store panic. In every reachable store an
  update and a completion return: they never send on a closed channel and never close one twice.
  No channel ever holds more updates than its buffer.
\<close>

theorem trigger_store_never_panics:
  assumes "trigger_reachable s"
  shows "Update u s \<noteq> None \<and> Complete i st p f s \<noteq> None \<and>
    (\<forall>c ch. ts_Chans s c = Some ch \<longrightarrow> length (ch_Buf ch) \<le> chanCap)"
proof -
  from assms have wf: "wf_trigger s" by (rule trigger.holds)
  with Update_ok [OF wf, of u] Complete_ok [OF wf, of i st p f] show ?thesis
    by (auto simp: wf_trigger_def)
qed

theorem trigger_store_never_panics_witness:
  "Update demo_update demo_trigger \<noteq> None \<and> Complete ''j1'' ''failed'' 0 1 demo_trigger \<noteq> None"
  using trigger_store_never_panics [OF demo_trigger_reachable, of demo_update "''j1''" "''failed''" 0 1] by simp

text \<open>
  The stream of a finished job ends. An update that makes the job terminal, and every
  completion of a stored job, closes all channels subscribed to the job, leaves the job without
  subscribers, and touches no channel of another job.
\<close>

theorem terminal_update_ends_streams:
  assumes "trigger_reachable s" and "ts_Jobs s i = Some job" and "pu_JobID u = i"
  shows "(\<exists>t. Update u s = Some (t, True) \<and> (terminal (updateJob u job) \<longrightarrow> sealed i s t)) \<and>
    (\<exists>t. Complete i st p f s = Some (t, True) \<and> sealed i s t)"
proof
  from assms(1) have wf: "wf_trigger s" by (rule trigger.holds)
  show "\<exists>t. Update u s = Some (t, True) \<and> (terminal (updateJob u job) \<longrightarrow> sealed i s t)"
    using Update_ok [OF wf, of u] assms(2,3) by (auto simp: Update_def Let_def split: option.splits if_splits)
  show "\<exists>t. Complete i st p f s = Some (t, True) \<and> sealed i s t"
    using Complete_ok [OF wf, of i st p f] assms(2) by (auto simp: Complete_def Let_def split: option.splits)
qed

theorem terminal_update_ends_streams_witness:
  "\<exists>t. Update demo_update demo_trigger = Some (t, True) \<and> sealed ''j1'' demo_trigger t"
proof -
  have "ts_Jobs demo_trigger ''j1'' = Some demo_job" by code_simp
  moreover have "terminal (updateJob demo_update demo_job)" by code_simp
  ultimately show ?thesis
    using terminal_update_ends_streams [OF demo_trigger_reachable, of "''j1''" demo_job demo_update]
    by (auto simp: demo_update_def)
qed

text \<open>
  The counters of a job follow its scenarios. Whatever progress updates arrive, in any order
  and any number of times, for a job created with all scenarios pending, the passed count is the
  number of scenarios whose last status is passed, the failed count is the number that failed or
  errored, plus at most one for an executor error without a scenario; and after the last update
  the job is failed, completed or running as its counters say.
\<close>

theorem trigger_counters_exact:
  assumes "\<forall>p\<in>set (tj_Progress j). sp_Status p = ''pending''" and "tj_Passed j = 0" and "tj_Failed j = 0"
    and "j' = updateJob u (fold updateJob us j)"
  shows "tj_Passed j' = passedOf (tj_Progress j') \<and>
    failedOf (tj_Progress j') \<le> tj_Failed j' \<and> tj_Failed j' \<le> failedOf (tj_Progress j') + 1 \<and>
    tj_Status j' = (if tj_Completed j' \<ge> tj_Total j'
      then if tj_Failed j' > 0 then ''failed'' else ''completed'' else ''running'')"
proof -
  have "counted j" using pending_tally [OF assms(1)] assms(2,3) by (simp add: counted_def)
  then have "counted j'" using assms(4) fold_updateJob_counted updateJob_counted by blast
  moreover obtain ps oldP oldF m where
    "matchScenario u (tj_Progress (fold updateJob us j)) = (ps, (oldP, oldF), m)" by (metis prod.exhaust)
  moreover obtain np nf where "progressStatusCounts (pu_Status u) = (np, nf)" by fastforce
  ultimately show ?thesis
    unfolding counted_def assms(4) by (simp add: updateJob_parts)
qed

theorem trigger_counters_exact_witness:
  "tj_Passed (updateJob demo_update demo_job) = 1 \<and> tj_Status (updateJob demo_update demo_job) = ''completed''"
proof -
  have "passedOf (tj_Progress (updateJob demo_update demo_job)) = 1" by code_simp
  moreover have "tj_Failed (updateJob demo_update demo_job) = 0" by code_simp
  moreover have "tj_Completed (updateJob demo_update demo_job) = 1" "tj_Total (updateJob demo_update demo_job) = 1"
    by code_simp+
  ultimately show ?thesis
    using trigger_counters_exact [of demo_job "updateJob demo_update demo_job" demo_update "[]"]
    by (simp add: demo_job_def)
qed

text \<open>
  A progress update that the executor delivers twice counts once: applying the same update to
  a job again changes nothing.
\<close>

theorem progress_update_idempotent: "updateJob u (updateJob u j) = updateJob u j"
proof -
  obtain ps oldP oldF m where m: "matchScenario u (tj_Progress j) = (ps, (oldP, oldF), m)"
    by (metis prod.exhaust)
  obtain np nf where n: "progressStatusCounts (pu_Status u) = (np, nf)" by fastforce
  from matchScenario_again [OF m] n
  have m': "matchScenario u ps = (ps, (if m then np else 0, if m then nf else 0), m)" by simp
  show ?thesis
    by (simp add: updateJob_form [OF m n refl] updateJob_form [OF _ n refl] m')
qed

section \<open>What the store does not ensure\<close>

text \<open>
  A finished job is reopened by any late update with a smaller count, and a subscriber that
  registers between the status check of the event stream and the end of the job gets a channel
  that the end of the job no longer closes.
\<close>

lemma late_update_reopens_job:
  "tj_Status (updateJob demo_update demo_job) = ''completed'' \<and>
   tj_Status (updateJob (demo_update\<lparr>pu_Completed := 0\<rparr>) (updateJob demo_update demo_job)) = ''running''"
  by code_simp

lemma late_subscriber_waits:
  assumes "wf_trigger s" and "Subscribe i s = (t, c)"
  shows "open_chan (ts_Chans t) c" and "ts_Jobs t = ts_Jobs s"
  using Subscribe_ok [OF assms] assms(2) by (auto simp: Subscribe_def Let_def)

end
