(* ===== verification/Job_Queue.thy ===== *)
theory Job_Queue
  imports Trigger_Store
begin

text \<open>
  \<^verbatim>\<open>internal/benchsvc/queries_runners.go\<close>, \<^verbatim>\<open>runner_janitor.go\<close>, \<^verbatim>\<open>runner_handler.go\<close> and
  \<^verbatim>\<open>trigger_handler.go\<close>: the queue of benchmark jobs that remote runners poll.

  The tables \<^verbatim>\<open>bench_infra\<close> and \<^verbatim>\<open>bench_jobs\<close> are lists of rows in an order the database chooses;
  every method of the store is one SQL statement and so one atomic step. \<^verbatim>\<open>NULL\<close> is \<open>None\<close>. The
  primary keys and the foreign key from a job to its runner are those of
  \<^verbatim>\<open>benchdb/migrations/001_init.up.sql\<close>; a statement that violates one fails and changes nothing.
  The column \<^verbatim>\<open>config_json\<close> is the decoded configuration. Time is in nanoseconds. Identifiers
  (ULIDs) are arguments, as is the set of rows that concurrent transactions hold locked, which
  \<^verbatim>\<open>FOR UPDATE SKIP LOCKED\<close> passes over.
\<close>

section \<open>Rows\<close>

record RunnerConfig =
  rc_Models :: "string list"
  rc_Provider :: string
  rc_MaxParallel :: int
  rc_PollInterval :: int
  rc_Labels :: "(string \<times> string) list"

record Runner =
  rn_ID :: string
  rn_TenantID :: string
  rn_Name :: string
  rn_Region :: string
  rn_Executor :: string
  rn_Status :: string
  rn_Config :: RunnerConfig
  rn_CreatedAt :: int
  rn_UpdatedAt :: int

record RegisterRunnerRequest =
  rq_Name :: string
  rq_Models :: "string list"
  rq_Provider :: string
  rq_Region :: string
  rq_MaxParallel :: int
  rq_Labels :: "(string \<times> string) list"

record JobConfig =
  jc_Scenarios :: "string list"
  jc_Timeout :: int
  jc_RunnerID :: string
  jc_ExecutionMode :: string
  jc_MCPServer :: string
  jc_ToolServer :: string
  jc_ToolServerVersion :: string
  jc_SkillFile :: string
  jc_SkillID :: string
  jc_SkillVersion :: string
  jc_SkillSource :: string
  jc_SkillSHA256 :: string

record BenchJob =
  bj_ID :: string
  bj_TenantID :: string
  bj_InfraID :: "string option"
  bj_Model :: string
  bj_Provider :: string
  bj_Status :: string
  bj_Total :: int
  bj_Completed :: int
  bj_Passed :: int
  bj_Failed :: int
  bj_ToolServer :: string
  bj_ToolServerVersion :: string
  bj_SkillID :: string
  bj_SkillVersion :: string
  bj_ErrorMessage :: string
  bj_Config :: "JobConfig option"
  bj_CreatedAt :: int
  bj_StartedAt :: "int option"
  bj_CompletedAt :: "int option"
  bj_LastProgressAt :: "int option"

record Db =
  db_Infra :: "Runner list"
  db_Jobs :: "BenchJob list"

datatype store_error = ErrNotFound | ErrConstraint

section \<open>Statements\<close>

definition update_where :: "('r \<Rightarrow> bool) \<Rightarrow> ('r \<Rightarrow> 'r) \<Rightarrow> 'r list \<Rightarrow> 'r list" where
  "update_where P f rows = map (\<lambda>r. if P r then f r else r) rows"

definition rows_affected :: "('r \<Rightarrow> bool) \<Rightarrow> 'r list \<Rightarrow> nat" where
  "rows_affected P rows = length (filter P rows)"

definition RegisterRunner ::
  "string \<Rightarrow> int \<Rightarrow> string \<Rightarrow> RegisterRunnerRequest \<Rightarrow> Db \<Rightarrow> (store_error, Db \<times> Runner) result" where
  "RegisterRunner i now tenant req db =
     (let cfg = \<lparr>rc_Models = rq_Models req, rc_Provider = rq_Provider req,
                 rc_MaxParallel = (if rq_MaxParallel req < 1 then 1 else rq_MaxParallel req),
                 rc_PollInterval = 5, rc_Labels = rq_Labels req\<rparr>;
          r = \<lparr>rn_ID = i, rn_TenantID = tenant,
               rn_Name = (if rq_Name req = [] then take 8 i else rq_Name req),
               rn_Region = (if rq_Region req = [] then ''local'' else rq_Region req),
               rn_Executor = ''remote'', rn_Status = ''healthy'', rn_Config = cfg,
               rn_CreatedAt = now, rn_UpdatedAt = now\<rparr> in
      if i \<in> set (map rn_ID (db_Infra db)) then Inl ErrConstraint
      else Inr (db\<lparr>db_Infra := db_Infra db @ [r]\<rparr>, r))"

definition ListRunners :: "string \<Rightarrow> Db \<Rightarrow> Runner list" where
  "ListRunners tenant db =
     sort_key (\<lambda>r. - rn_CreatedAt r)
       (filter (\<lambda>r. rn_TenantID r = tenant \<and> rn_Executor r = ''remote'') (db_Infra db))"

definition DeleteRunner :: "string \<Rightarrow> string \<Rightarrow> Db \<Rightarrow> (store_error, Db) result" where
  "DeleteRunner tenant i db =
     (let hit = (\<lambda>r. rn_ID r = i \<and> rn_TenantID r = tenant) in
      if rows_affected hit (db_Infra db) = 0 then Inl ErrNotFound
      else if list_ex (\<lambda>j. bj_InfraID j = Some i) (db_Jobs db) then Inl ErrConstraint
      else Inr (db\<lparr>db_Infra := filter (\<lambda>r. \<not> hit r) (db_Infra db)\<rparr>))"

definition TouchRunner :: "int \<Rightarrow> string \<Rightarrow> string \<Rightarrow> Db \<Rightarrow> (store_error, Db) result" where
  "TouchRunner now tenant i db =
     (let hit = (\<lambda>r. rn_ID r = i \<and> rn_TenantID r = tenant \<and> rn_Status r = ''healthy'') in
      if rows_affected hit (db_Infra db) = 0 then Inl ErrNotFound
      else Inr (db\<lparr>db_Infra := update_where hit (\<lambda>r. r\<lparr>rn_UpdatedAt := now\<rparr>) (db_Infra db)\<rparr>))"

definition EnqueueJob ::
  "string \<Rightarrow> int \<Rightarrow> string \<Rightarrow> string \<Rightarrow> string \<Rightarrow> JobConfig \<Rightarrow> Db \<Rightarrow> (store_error, Db \<times> BenchJob) result" where
  "EnqueueJob i now tenant model provider cfg db =
     (let j = \<lparr>bj_ID = i, bj_TenantID = tenant, bj_InfraID = None, bj_Model = model, bj_Provider = provider,
               bj_Status = ''queued'', bj_Total = int (length (jc_Scenarios cfg)), bj_Completed = 0,
               bj_Passed = 0, bj_Failed = 0, bj_ToolServer = jc_ToolServer cfg,
               bj_ToolServerVersion = jc_ToolServerVersion cfg, bj_SkillID = jc_SkillID cfg,
               bj_SkillVersion = jc_SkillVersion cfg, bj_ErrorMessage = [], bj_Config = Some cfg,
               bj_CreatedAt = now, bj_StartedAt = None, bj_CompletedAt = None, bj_LastProgressAt = None\<rparr> in
      if i \<in> set (map bj_ID (db_Jobs db)) then Inl ErrConstraint
      else Inr (db\<lparr>db_Jobs := db_Jobs db @ [j]\<rparr>, j))"

definition pinnedTo :: "string \<Rightarrow> BenchJob \<Rightarrow> bool" where
  "pinnedTo runner j \<longleftrightarrow> (case bj_Config j of
     None \<Rightarrow> True
   | Some cfg \<Rightarrow> jc_RunnerID cfg = [] \<or> jc_RunnerID cfg = runner)"

definition claimable :: "string set \<Rightarrow> string \<Rightarrow> string \<Rightarrow> string list \<Rightarrow> BenchJob \<Rightarrow> bool" where
  "claimable locked tenant runner models j \<longleftrightarrow>
     bj_TenantID j = tenant \<and> bj_Status j = ''queued'' \<and> bj_Model j \<in> set models \<and>
     pinnedTo runner j \<and> bj_ID j \<notin> locked"

definition candidates :: "string set \<Rightarrow> string \<Rightarrow> string \<Rightarrow> string list \<Rightarrow> Db \<Rightarrow> BenchJob list" where
  "candidates locked tenant runner models db =
     sort_key bj_CreatedAt (filter (claimable locked tenant runner models) (db_Jobs db))"

definition claimRow :: "string \<Rightarrow> int \<Rightarrow> BenchJob \<Rightarrow> BenchJob" where
  "claimRow runner now j = j\<lparr>bj_Status := ''claimed'', bj_InfraID := Some runner, bj_StartedAt := Some now\<rparr>"

definition ClaimJob ::
  "string set \<Rightarrow> int \<Rightarrow> string \<Rightarrow> string \<Rightarrow> string list \<Rightarrow> Db \<Rightarrow> (store_error, Db \<times> BenchJob option) result" where
  "ClaimJob locked now tenant runner models db =
     (case candidates locked tenant runner models db of
        [] \<Rightarrow> Inr (db, None)
      | j # _ \<Rightarrow>
          if runner \<notin> set (map rn_ID (db_Infra db)) then Inl ErrConstraint
          else Inr (db\<lparr>db_Jobs := update_where (\<lambda>r. bj_ID r = bj_ID j) (claimRow runner now) (db_Jobs db)\<rparr>,
                    Some (claimRow runner now j)))"

definition GetJob :: "string \<Rightarrow> string \<Rightarrow> Db \<Rightarrow> BenchJob option" where
  "GetJob tenant i db = find (\<lambda>j. bj_TenantID j = tenant \<and> bj_ID j = i) (db_Jobs db)"

definition finishRow :: "int \<Rightarrow> string \<Rightarrow> int \<Rightarrow> int \<Rightarrow> string \<Rightarrow> BenchJob \<Rightarrow> BenchJob" where
  "finishRow now st passed failed msg j =
     j\<lparr>bj_Status := st, bj_Completed := passed + failed, bj_Passed := passed, bj_Failed := failed,
       bj_ErrorMessage := msg, bj_CompletedAt := Some now\<rparr>"

definition CompleteJob ::
  "int \<Rightarrow> string \<Rightarrow> string \<Rightarrow> string \<Rightarrow> string \<Rightarrow> int \<Rightarrow> int \<Rightarrow> string \<Rightarrow> Db \<Rightarrow> (store_error, Db) result" where
  "CompleteJob now tenant runner i st passed failed msg db =
     (let hit = (\<lambda>j. bj_ID j = i \<and> bj_TenantID j = tenant \<and> bj_InfraID j = Some runner) in
      if rows_affected hit (db_Jobs db) = 0 then Inl ErrNotFound
      else Inr (db\<lparr>db_Jobs := update_where hit (finishRow now st passed failed msg) (db_Jobs db)\<rparr>))"

definition MarkUnhealthyRunners :: "int \<Rightarrow> int \<Rightarrow> Db \<Rightarrow> Db \<times> nat" where
  "MarkUnhealthyRunners now threshold db =
     (let hit = (\<lambda>r. rn_Executor r = ''remote'' \<and> rn_Status r = ''healthy'' \<and> rn_UpdatedAt r < now - threshold) in
      (db\<lparr>db_Infra := update_where hit (\<lambda>r. r\<lparr>rn_Status := ''unhealthy''\<rparr>) (db_Infra db)\<rparr>,
       rows_affected hit (db_Infra db)))"

definition staleJob :: "int \<Rightarrow> int \<Rightarrow> BenchJob \<Rightarrow> bool" where
  "staleJob now threshold j \<longleftrightarrow> bj_Status j = ''claimed'' \<and>
     (case (case bj_LastProgressAt j of Some t \<Rightarrow> Some t | None \<Rightarrow> bj_StartedAt j) of
        None \<Rightarrow> False | Some t \<Rightarrow> t < now - threshold)"

definition resetRow :: "BenchJob \<Rightarrow> BenchJob" where
  "resetRow j = j\<lparr>bj_Status := ''queued'', bj_InfraID := None, bj_StartedAt := None, bj_LastProgressAt := None\<rparr>"

definition ResetStaleJobs :: "int \<Rightarrow> int \<Rightarrow> Db \<Rightarrow> Db \<times> nat" where
  "ResetStaleJobs now threshold db =
     (db\<lparr>db_Jobs := update_where (staleJob now threshold) resetRow (db_Jobs db)\<rparr>,
      rows_affected (staleJob now threshold) (db_Jobs db))"

definition progressRow :: "int \<Rightarrow> int \<Rightarrow> int \<Rightarrow> int \<Rightarrow> BenchJob \<Rightarrow> BenchJob" where
  "progressRow now completed passed failed j =
     j\<lparr>bj_Status := ''running'', bj_Completed := completed, bj_Passed := passed, bj_Failed := failed,
       bj_LastProgressAt := Some now\<rparr>"

definition UpdateJobProgress :: "int \<Rightarrow> string \<Rightarrow> int \<Rightarrow> int \<Rightarrow> int \<Rightarrow> Db \<Rightarrow> Db" where
  "UpdateJobProgress now i completed passed failed db =
     db\<lparr>db_Jobs := update_where (\<lambda>j. bj_ID j = i \<and> (bj_Status j = ''claimed'' \<or> bj_Status j = ''running''))
       (progressRow now completed passed failed) (db_Jobs db)\<rparr>"

definition FindRunnerForModel :: "string \<Rightarrow> string \<Rightarrow> Db \<Rightarrow> Runner option" where
  "FindRunnerForModel tenant model db =
     (case sort_key (\<lambda>r. - rn_UpdatedAt r)
        (filter (\<lambda>r. rn_TenantID r = tenant \<and> rn_Executor r = ''remote'' \<and> rn_Status r = ''healthy'' \<and>
                     model \<in> set (rc_Models (rn_Config r))) (db_Infra db)) of
        [] \<Rightarrow> None | r # _ \<Rightarrow> Some r)"

text \<open>One tick of the janitor: 15 seconds for runners, 5 minutes for jobs.\<close>

definition unhealthyAfter :: int where
  "unhealthyAfter = 15000000000"

definition staleAfter :: int where
  "staleAfter = 300000000000"

definition janitorTick :: "int \<Rightarrow> Db \<Rightarrow> Db" where
  "janitorTick now db = fst (ResetStaleJobs now staleAfter (fst (MarkUnhealthyRunners now unhealthyAfter db)))"


section \<open>Polling\<close>

text \<open>
  \<^verbatim>\<open>handlePollJob\<close> as one request without interference. The text of an error that comes from a
  library is not part of a reply.
\<close>

definition modelsOf :: "string \<Rightarrow> Runner list \<Rightarrow> string list" where
  "modelsOf i rs = (case find (\<lambda>r. rn_ID r = i) rs of None \<Rightarrow> [] | Some r \<Rightarrow> rc_Models (rn_Config r))"

datatype Reply =
    WriteError nat string
  | NoContent
  | Registered string int
  | JobReply BenchJob JobConfig
  | Accepted string string string
  | Snapshot TriggerJob
  | Done

definition ExecutionModeProvider :: string where
  "ExecutionModeProvider = ''provider''"

definition ExecutionModeA2A :: string where
  "ExecutionModeA2A = ''a2a''"

definition orElse :: "string \<Rightarrow> string \<Rightarrow> string" where
  "orElse x y = (if x = [] then y else x)"

definition jobReply :: "BenchJob \<Rightarrow> Reply" where
  "jobReply j = (case bj_Config j of
     None \<Rightarrow> WriteError 400 ''job config_json is required''
   | Some cfg \<Rightarrow> JobReply j (cfg\<lparr>
       jc_ExecutionMode := orElse (jc_ExecutionMode cfg) ExecutionModeProvider,
       jc_ToolServer := orElse (jc_ToolServer cfg) (bj_ToolServer j),
       jc_ToolServerVersion := orElse (jc_ToolServerVersion cfg) (bj_ToolServerVersion j),
       jc_SkillID := orElse (jc_SkillID cfg) (bj_SkillID j),
       jc_SkillVersion := orElse (jc_SkillVersion cfg) (bj_SkillVersion j)\<rparr>))"

definition handlePollJob :: "string set \<Rightarrow> int \<Rightarrow> string \<Rightarrow> string \<Rightarrow> Db \<Rightarrow> Db \<times> Reply" where
  "handlePollJob locked now tenant runner db =
     (if runner = [] then (db, WriteError 400 ''runner_id query parameter is required'')
      else (case TouchRunner now tenant runner db of
          Inl ErrNotFound \<Rightarrow> (db, WriteError 404 ''runner not found or draining'')
        | Inl ErrConstraint \<Rightarrow> (db, WriteError 500 [])
        | Inr db1 \<Rightarrow>
            (let models = modelsOf runner (ListRunners tenant db1) in
             if models = [] then (db1, WriteError 404 ''runner not found'')
             else (case ClaimJob locked now tenant runner models db1 of
                 Inl _ \<Rightarrow> (db1, WriteError 500 [])
               | Inr (db2, None) \<Rightarrow> (db2, NoContent)
               | Inr (db2, Some j) \<Rightarrow> (db2, jobReply j)))))"

section \<open>Interleavings\<close>

text \<open>
  The queue as the requests of runners and clients change it. Each step is one statement. A poll
  is two of them with other requests in between: the handler reads the models of its runner
  first and claims with them later, so the polls that have read their models are part of the
  state. Identifiers are never issued twice. The history records who claimed, lost and
  completed which job, newest event first; no statement reads it.
\<close>

datatype qevent =
    Claimed string string
  | Released string
  | Finished string string

record Queue =
  q_Db :: Db
  q_Now :: int
  q_Used :: "string set"
  q_Polls :: "(string \<times> string \<times> string list) set"
  q_Log :: "qevent list"

definition emptyQueue :: Queue where
  "emptyQueue = \<lparr>q_Db = \<lparr>db_Infra = [], db_Jobs = []\<rparr>, q_Now = 0, q_Used = {}, q_Polls = {}, q_Log = []\<rparr>"

definition releasedBy :: "int \<Rightarrow> Db \<Rightarrow> qevent list" where
  "releasedBy now db = map (\<lambda>j. Released (bj_ID j)) (filter (staleJob now staleAfter) (db_Jobs db))"

inductive queue_step :: "Queue \<Rightarrow> Queue \<Rightarrow> bool" where
  q_tick: "0 \<le> d \<Longrightarrow> queue_step q (q\<lparr>q_Now := q_Now q + d\<rparr>)"
| q_register: "i \<notin> q_Used q \<Longrightarrow> RegisterRunner i (q_Now q) tenant req (q_Db q) = Inr (db, r) \<Longrightarrow>
    queue_step q (q\<lparr>q_Db := db, q_Used := insert i (q_Used q)\<rparr>)"
| q_delete: "DeleteRunner tenant i (q_Db q) = Inr db \<Longrightarrow> queue_step q (q\<lparr>q_Db := db\<rparr>)"
| q_touch: "TouchRunner (q_Now q) tenant i (q_Db q) = Inr db \<Longrightarrow> queue_step q (q\<lparr>q_Db := db\<rparr>)"
| q_read: "models = modelsOf i (ListRunners tenant (q_Db q)) \<Longrightarrow> models \<noteq> [] \<Longrightarrow>
    queue_step q (q\<lparr>q_Polls := insert (tenant, i, models) (q_Polls q)\<rparr>)"
| q_enqueue: "i \<notin> q_Used q \<Longrightarrow> EnqueueJob i (q_Now q) tenant model provider cfg (q_Db q) = Inr (db, j) \<Longrightarrow>
    queue_step q (q\<lparr>q_Db := db, q_Used := insert i (q_Used q)\<rparr>)"
| q_claim: "(tenant, i, models) \<in> q_Polls q \<Longrightarrow>
    ClaimJob locked (q_Now q) tenant i models (q_Db q) = Inr (db, Some j) \<Longrightarrow>
    queue_step q (q\<lparr>q_Db := db, q_Log := Claimed (bj_ID j) i # q_Log q\<rparr>)"
| q_complete: "st \<in> {''completed'', ''failed''} \<Longrightarrow>
    CompleteJob (q_Now q) tenant i k st passed failed msg (q_Db q) = Inr db \<Longrightarrow>
    queue_step q (q\<lparr>q_Db := db, q_Log := Finished k i # q_Log q\<rparr>)"
| q_progress: "UpdateJobProgress (q_Now q) k c passed failed (q_Db q) = db \<Longrightarrow> queue_step q (q\<lparr>q_Db := db\<rparr>)"
| q_mark: "MarkUnhealthyRunners (q_Now q) threshold (q_Db q) = (db, n) \<Longrightarrow> queue_step q (q\<lparr>q_Db := db\<rparr>)"
| q_reset: "ResetStaleJobs (q_Now q) staleAfter (q_Db q) = (db, n) \<Longrightarrow>
    queue_step q (q\<lparr>q_Db := db, q_Log := releasedBy (q_Now q) (q_Db q) @ q_Log q\<rparr>)"

abbreviation queue_reachable :: "Queue \<Rightarrow> bool" where
  "queue_reachable \<equiv> reachable (\<lambda>q. q = emptyQueue) queue_step"

section \<open>Ownership\<close>

text \<open>Who owns a job according to the history, and a history in which ownership is exclusive.\<close>

fun owner :: "string \<Rightarrow> qevent list \<Rightarrow> string option" where
  "owner k [] = None"
| "owner k (Claimed k' r # es) = (if k' = k then Some r else owner k es)"
| "owner k (Released k' # es) = (if k' = k then None else owner k es)"
| "owner k (Finished k' r # es) = owner k es"

fun exclusive :: "qevent list \<Rightarrow> bool" where
  "exclusive [] = True"
| "exclusive (Claimed k r # es) = (owner k es = None \<and> exclusive es)"
| "exclusive (Released k # es) = exclusive es"
| "exclusive (Finished k r # es) = (owner k es = Some r \<and> exclusive es)"

definition owned_by :: "BenchJob \<Rightarrow> Runner \<Rightarrow> bool" where
  "owned_by j r \<longleftrightarrow> bj_InfraID j = Some (rn_ID r) \<and> rn_TenantID r = bj_TenantID j \<and>
     bj_Model j \<in> set (rc_Models (rn_Config r)) \<and> pinnedTo (rn_ID r) j"

definition job_ok :: "Db \<Rightarrow> BenchJob \<Rightarrow> bool" where
  "job_ok db j \<longleftrightarrow>
     (if bj_Status j = ''queued'' then bj_InfraID j = None \<and> bj_StartedAt j = None \<and> bj_LastProgressAt j = None
      else bj_Status j \<in> {''claimed'', ''running'', ''completed'', ''failed''} \<and> bj_StartedAt j \<noteq> None \<and>
           (\<exists>r\<in>set (db_Infra db). owned_by j r))"

definition wf_queue :: "Queue \<Rightarrow> bool" where
  "wf_queue q \<longleftrightarrow>
     distinct (map rn_ID (db_Infra (q_Db q))) \<and> distinct (map bj_ID (db_Jobs (q_Db q))) \<and>
     set (map rn_ID (db_Infra (q_Db q))) \<subseteq> q_Used q \<and> set (map bj_ID (db_Jobs (q_Db q))) \<subseteq> q_Used q \<and>
     (\<forall>(t, i, ms)\<in>q_Polls q. i \<in> q_Used q \<and>
        (\<forall>r\<in>set (db_Infra (q_Db q)). rn_ID r = i \<longrightarrow> rn_TenantID r = t \<and> rc_Models (rn_Config r) = ms)) \<and>
     (\<forall>j\<in>set (db_Jobs (q_Db q)). job_ok (q_Db q) j \<and> bj_InfraID j = owner (bj_ID j) (q_Log q)) \<and>
     (\<forall>k. k \<notin> set (map bj_ID (db_Jobs (q_Db q))) \<longrightarrow> owner k (q_Log q) = None) \<and>
     exclusive (q_Log q)"

lemma wf_queueD:
  assumes "wf_queue q"
  shows "distinct (map rn_ID (db_Infra (q_Db q)))" and "distinct (map bj_ID (db_Jobs (q_Db q)))"
    and "r \<in> set (db_Infra (q_Db q)) \<Longrightarrow> rn_ID r \<in> q_Used q"
    and "j \<in> set (db_Jobs (q_Db q)) \<Longrightarrow> bj_ID j \<in> q_Used q"
    and "(t, i, ms) \<in> q_Polls q \<Longrightarrow> i \<in> q_Used q"
    and "(t, i, ms) \<in> q_Polls q \<Longrightarrow> r \<in> set (db_Infra (q_Db q)) \<Longrightarrow> rn_ID r = i \<Longrightarrow>
           rn_TenantID r = t \<and> rc_Models (rn_Config r) = ms"
    and "j \<in> set (db_Jobs (q_Db q)) \<Longrightarrow> job_ok (q_Db q) j"
    and "j \<in> set (db_Jobs (q_Db q)) \<Longrightarrow> bj_InfraID j = owner (bj_ID j) (q_Log q)"
    and "k \<notin> bj_ID ` set (db_Jobs (q_Db q)) \<Longrightarrow> owner k (q_Log q) = None"
    and "exclusive (q_Log q)"
  using assms by (auto simp: wf_queue_def)

lemma set_update_where: "set (update_where P f rows) = (\<lambda>r. if P r then f r else r) ` set rows"
  by (simp add: update_where_def)

lemma map_update_where: "(\<And>r. P r \<Longrightarrow> g (f r) = g r) \<Longrightarrow> map g (update_where P f rows) = map g rows"
  by (simp add: update_where_def)

lemma rows_affected_0: "rows_affected P rows = 0 \<longleftrightarrow> (\<forall>r\<in>set rows. \<not> P r)"
  by (auto simp: rows_affected_def filter_empty_conv)

text \<open>
  Statements on the job table change rows in place: it is enough that each changed row is still
  in order and has the owner the new history gives it.
\<close>

lemma wf_queue_jobs:
  assumes wf: "wf_queue q" and "exclusive log"
    and ids: "\<And>j. P j \<Longrightarrow> bj_ID (f j) = bj_ID j"
    and rows: "\<And>j. j \<in> set (db_Jobs (q_Db q)) \<Longrightarrow> job_ok (q_Db q) (if P j then f j else j) \<and>
      bj_InfraID (if P j then f j else j) = owner (bj_ID j) log"
    and gone: "\<And>k. k \<notin> bj_ID ` set (db_Jobs (q_Db q)) \<Longrightarrow> owner k log = None"
  shows "wf_queue (q\<lparr>q_Db := (q_Db q)\<lparr>db_Jobs := update_where P f (db_Jobs (q_Db q))\<rparr>, q_Log := log\<rparr>)"
proof -
  have "map bj_ID (update_where P f (db_Jobs (q_Db q))) = map bj_ID (db_Jobs (q_Db q))"
    by (rule map_update_where) (rule ids)
  moreover have "job_ok (q_Db q) j \<and> bj_InfraID j = owner (bj_ID j) log"
    if "j \<in> set (update_where P f (db_Jobs (q_Db q)))" for j
  proof -
    from that obtain x where x: "x \<in> set (db_Jobs (q_Db q))" "j = (if P x then f x else x)"
      by (auto simp: set_update_where)
    with ids have "bj_ID j = bj_ID x" by simp
    with rows [OF x(1)] x(2) show ?thesis by simp
  qed
  moreover have "job_ok ((q_Db q)\<lparr>db_Jobs := js\<rparr>) = job_ok (q_Db q)" for js
    by (simp add: job_ok_def fun_eq_iff)
  ultimately show ?thesis
    using wf assms(2) gone by (simp add: wf_queue_def)
qed


lemma job_unique:
  assumes "wf_queue q" and "j \<in> set (db_Jobs (q_Db q))" and "k \<in> set (db_Jobs (q_Db q))" and "bj_ID j = bj_ID k"
  shows "j = k"
  using wf_queueD(2) [OF assms(1)] assms(2-4) by (meson distinct_map inj_onD)

lemma runner_unique:
  assumes "wf_queue q" and "r \<in> set (db_Infra (q_Db q))" and "s \<in> set (db_Infra (q_Db q))" and "rn_ID r = rn_ID s"
  shows "r = s"
  using wf_queueD(1) [OF assms(1)] assms(2-4) by (meson distinct_map inj_onD)

lemma job_ok_queued: "job_ok db j \<Longrightarrow> bj_Status j = ''queued'' \<Longrightarrow> bj_InfraID j = None"
  by (simp add: job_ok_def)

lemma job_ok_owned: "job_ok db j \<Longrightarrow> bj_InfraID j = Some i \<Longrightarrow> bj_Status j \<noteq> ''queued''"
  by (auto simp: job_ok_def)

lemma candidate_row:
  assumes "candidates locked t i ms db = j # js"
  shows "j \<in> set (db_Jobs db)" and "claimable locked t i ms j"
proof -
  have "set (candidates locked t i ms db) = {k \<in> set (db_Jobs db). claimable locked t i ms k}"
    by (auto simp: candidates_def)
  with assms show "j \<in> set (db_Jobs db)" "claimable locked t i ms j"
    by (metis (no_types, lifting) list.set_intros(1) mem_Collect_eq)+
qed

lemma ClaimJob_cases:
  assumes "ClaimJob locked now t i ms db = Inr (db', Some j')"
  obtains j js where "candidates locked t i ms db = j # js" "i \<in> rn_ID ` set (db_Infra db)"
    "j' = claimRow i now j"
    "db' = db\<lparr>db_Jobs := update_where (\<lambda>r. bj_ID r = bj_ID j) (claimRow i now) (db_Jobs db)\<rparr>"
  using assms by (auto simp: ClaimJob_def split: list.splits if_splits)

lemma claim_wf:
  assumes wf: "wf_queue q" and poll: "(t, i, ms) \<in> q_Polls q"
    and claim: "ClaimJob locked now t i ms (q_Db q) = Inr (db, Some j')"
  shows "wf_queue (q\<lparr>q_Db := db, q_Log := Claimed (bj_ID j') i # q_Log q\<rparr>)"
  using claim
proof (rule ClaimJob_cases)
  fix j js assume c: "candidates locked t i ms (q_Db q) = j # js" and i: "i \<in> rn_ID ` set (db_Infra (q_Db q))"
    and j': "j' = claimRow i now j"
    and db: "db = (q_Db q)\<lparr>db_Jobs := update_where (\<lambda>r. bj_ID r = bj_ID j) (claimRow i now) (db_Jobs (q_Db q))\<rparr>"
  note j = candidate_row [OF c]
  from i obtain r where r: "r \<in> set (db_Infra (q_Db q))" "rn_ID r = i" by auto
  with wf_queueD(6) [OF wf poll] have "rn_TenantID r = t" "rc_Models (rn_Config r) = ms" by auto
  with j(2) r have own: "owned_by (claimRow i now j) r"
    by (auto simp: owned_by_def claimRow_def claimable_def pinnedTo_def)
  have free: "owner (bj_ID j) (q_Log q) = None"
    using job_ok_queued [OF wf_queueD(7) [OF wf j(1)]] wf_queueD(8) [OF wf j(1)] j(2) by (simp add: claimable_def)
  have id: "bj_ID j' = bj_ID j" using j' by (simp add: claimRow_def)
  show ?thesis unfolding db id
  proof (rule wf_queue_jobs [OF wf])
    show "exclusive (Claimed (bj_ID j) i # q_Log q)" using free wf_queueD(10) [OF wf] by simp
  next
    fix k assume k: "k \<in> set (db_Jobs (q_Db q))"
    show "job_ok (q_Db q) (if bj_ID k = bj_ID j then claimRow i now k else k) \<and>
      bj_InfraID (if bj_ID k = bj_ID j then claimRow i now k else k) = owner (bj_ID k) (Claimed (bj_ID j) i # q_Log q)"
    proof (cases "bj_ID k = bj_ID j")
      case True
      with job_unique [OF wf k j(1)] have "k = j" by simp
      moreover have "job_ok (q_Db q) (claimRow i now j)"
        using own r(1) by (auto simp: job_ok_def claimRow_def)
      ultimately show ?thesis by (simp add: claimRow_def)
    next
      case False
      then show ?thesis using wf_queueD(7,8) [OF wf k] by auto
    qed
  next
    fix k assume "k \<notin> bj_ID ` set (db_Jobs (q_Db q))"
    then show "owner k (Claimed (bj_ID j) i # q_Log q) = None" using j(1) wf_queueD(9) [OF wf] by auto
  qed (simp add: claimRow_def)
qed

lemma complete_wf:
  assumes wf: "wf_queue q" and st: "st \<in> {''completed'', ''failed''}"
    and fin: "CompleteJob now t i k st passed failed msg (q_Db q) = Inr db"
  shows "wf_queue (q\<lparr>q_Db := db, q_Log := Finished k i # q_Log q\<rparr>)"
proof -
  let ?hit = "\<lambda>j. bj_ID j = k \<and> bj_TenantID j = t \<and> bj_InfraID j = Some i"
  let ?f = "finishRow now st passed failed msg"
  from fin have db: "db = (q_Db q)\<lparr>db_Jobs := update_where ?hit ?f (db_Jobs (q_Db q))\<rparr>"
    and "\<exists>j\<in>set (db_Jobs (q_Db q)). ?hit j"
    by (auto simp: CompleteJob_def Let_def rows_affected_0 split: if_splits)
  then obtain j where j: "j \<in> set (db_Jobs (q_Db q))" "?hit j" by blast
  have own: "owner k (q_Log q) = Some i" using wf_queueD(8) [OF wf j(1)] j(2) by simp
  show ?thesis unfolding db
  proof (rule wf_queue_jobs [OF wf])
    show "exclusive (Finished k i # q_Log q)" using own wf_queueD(10) [OF wf] by simp
  next
    fix x assume x: "x \<in> set (db_Jobs (q_Db q))"
    note ok = wf_queueD(7) [OF wf x] and o = wf_queueD(8) [OF wf x]
    have "job_ok (q_Db q) (?f x) \<and> bj_InfraID (?f x) = bj_InfraID x" if "?hit x"
      using ok that st by (auto simp: job_ok_def owned_by_def pinnedTo_def finishRow_def split: if_splits)
    with ok o show "job_ok (q_Db q) (if ?hit x then ?f x else x) \<and>
      bj_InfraID (if ?hit x then ?f x else x) = owner (bj_ID x) (Finished k i # q_Log q)"
      by (cases "?hit x") auto
  next
    fix x assume "x \<notin> bj_ID ` set (db_Jobs (q_Db q))"
    then show "owner x (Finished k i # q_Log q) = None" using wf_queueD(9) [OF wf] by simp
  qed (simp add: finishRow_def)
qed

lemma progress_wf:
  assumes wf: "wf_queue q"
  shows "wf_queue (q\<lparr>q_Db := UpdateJobProgress now k c passed failed (q_Db q)\<rparr>)"
proof -
  let ?hit = "\<lambda>j. bj_ID j = k \<and> (bj_Status j = ''claimed'' \<or> bj_Status j = ''running'')"
  let ?f = "progressRow now c passed failed"
  have "wf_queue (q\<lparr>q_Db := (q_Db q)\<lparr>db_Jobs := update_where ?hit ?f (db_Jobs (q_Db q))\<rparr>, q_Log := q_Log q\<rparr>)"
  proof (rule wf_queue_jobs [OF wf wf_queueD(10) [OF wf]])
    fix x assume x: "x \<in> set (db_Jobs (q_Db q))"
    note ok = wf_queueD(7) [OF wf x] and o = wf_queueD(8) [OF wf x]
    have "job_ok (q_Db q) (?f x) \<and> bj_InfraID (?f x) = bj_InfraID x" if "?hit x"
      using ok that by (auto simp: job_ok_def owned_by_def pinnedTo_def progressRow_def split: if_splits)
    with ok o show "job_ok (q_Db q) (if ?hit x then ?f x else x) \<and>
      bj_InfraID (if ?hit x then ?f x else x) = owner (bj_ID x) (q_Log q)" by simp
  qed (simp_all add: progressRow_def wf_queueD(9) [OF wf])
  then show ?thesis by (simp add: UpdateJobProgress_def)
qed

lemma owner_released:
  "owner k (map (\<lambda>j. Released (bj_ID j)) js @ es) = (if k \<in> bj_ID ` set js then None else owner k es)"
  by (induction js) auto

lemma exclusive_released: "exclusive (map (\<lambda>j. Released (bj_ID j)) js @ es) = exclusive es"
  by (induction js) auto

lemma reset_wf:
  assumes wf: "wf_queue q"
  shows "wf_queue (q\<lparr>q_Db := fst (ResetStaleJobs now staleAfter (q_Db q)),
                     q_Log := releasedBy now (q_Db q) @ q_Log q\<rparr>)"
proof -
  let ?hit = "staleJob now staleAfter"
  let ?log = "releasedBy now (q_Db q) @ q_Log q"
  have own: "owner k ?log = (if \<exists>j\<in>set (db_Jobs (q_Db q)). ?hit j \<and> bj_ID j = k then None else owner k (q_Log q))" for k
    by (auto simp: releasedBy_def owner_released)
  have "wf_queue (q\<lparr>q_Db := (q_Db q)\<lparr>db_Jobs := update_where ?hit resetRow (db_Jobs (q_Db q))\<rparr>, q_Log := ?log\<rparr>)"
  proof (rule wf_queue_jobs [OF wf])
    show "exclusive ?log" using wf_queueD(10) [OF wf] by (simp add: releasedBy_def exclusive_released)
  next
    fix x assume x: "x \<in> set (db_Jobs (q_Db q))"
    have "\<not> (\<exists>j\<in>set (db_Jobs (q_Db q)). ?hit j \<and> bj_ID j = bj_ID x)" if "\<not> ?hit x"
      using that job_unique [OF wf _ x] by blast
    then show "job_ok (q_Db q) (if ?hit x then resetRow x else x) \<and>
      bj_InfraID (if ?hit x then resetRow x else x) = owner (bj_ID x) ?log"
      using wf_queueD(7,8) [OF wf x] x own [of "bj_ID x"] by (auto simp: job_ok_def resetRow_def)
  next
    fix k assume "k \<notin> bj_ID ` set (db_Jobs (q_Db q))"
    then show "owner k ?log = None" using wf_queueD(9) [OF wf] own [of k] by auto
  qed (simp add: resetRow_def)
  then show ?thesis by (simp add: ResetStaleJobs_def)
qed

lemma job_ok_mono:
  assumes "job_ok db j" and "\<And>r. r \<in> set (db_Infra db) \<Longrightarrow> owned_by j r \<Longrightarrow> \<exists>r'\<in>set (db_Infra db'). owned_by j r'"
  shows "job_ok db' j"
  using assms by (auto simp: job_ok_def split: if_splits)

text \<open>Statements on the runner table that keep identity, tenant and configuration of each row.\<close>

lemma infra_wf:
  assumes wf: "wf_queue q"
    and same: "\<And>r. P r \<Longrightarrow> rn_ID (f r) = rn_ID r \<and> rn_TenantID (f r) = rn_TenantID r \<and> rn_Config (f r) = rn_Config r"
  shows "wf_queue (q\<lparr>q_Db := (q_Db q)\<lparr>db_Infra := update_where P f (db_Infra (q_Db q))\<rparr>\<rparr>)"
proof -
  let ?db = "(q_Db q)\<lparr>db_Infra := update_where P f (db_Infra (q_Db q))\<rparr>"
  let ?g = "\<lambda>r. if P r then f r else r"
  have ids: "map rn_ID (update_where P f (db_Infra (q_Db q))) = map rn_ID (db_Infra (q_Db q))"
    by (rule map_update_where) (simp add: same)
  have "job_ok ?db j" if "job_ok (q_Db q) j" for j
    using that
  proof (rule job_ok_mono)
    fix r assume "r \<in> set (db_Infra (q_Db q))" and "owned_by j r"
    then have "?g r \<in> set (db_Infra ?db)" and "owned_by j (?g r)"
      using same by (simp_all add: set_update_where owned_by_def)
    then show "\<exists>r'\<in>set (db_Infra ?db). owned_by j r'" by blast
  qed
  moreover have "rn_TenantID r = t \<and> rc_Models (rn_Config r) = ms"
    if "(t, i, ms) \<in> q_Polls q" "r \<in> set (db_Infra ?db)" "rn_ID r = i" for t i ms r
  proof -
    from that(2) obtain x where x: "x \<in> set (db_Infra (q_Db q))" "r = ?g x" by (auto simp: set_update_where)
    with that(3) same have "rn_ID x = i" by (metis (full_types))
    from wf_queueD(6) [OF wf that(1) x(1) this] x(2) same show ?thesis by (metis (full_types))
  qed
  ultimately show ?thesis using wf ids by (auto simp: wf_queue_def)
qed


lemma register_wf:
  assumes wf: "wf_queue q" and "i \<notin> q_Used q"
    and "RegisterRunner i now tenant req (q_Db q) = Inr (db, r)"
  shows "wf_queue (q\<lparr>q_Db := db, q_Used := insert i (q_Used q)\<rparr>)"
proof -
  from assms(3) have r: "rn_ID r = i" and db: "db = (q_Db q)\<lparr>db_Infra := db_Infra (q_Db q) @ [r]\<rparr>"
    by (auto simp: RegisterRunner_def Let_def split: if_splits)
  have "job_ok (q_Db q) j \<Longrightarrow> job_ok db j" for j by (erule job_ok_mono) (auto simp: db)
  with wf assms(2) show ?thesis by (auto simp: wf_queue_def db r)
qed

lemma delete_wf:
  assumes wf: "wf_queue q" and "DeleteRunner tenant i (q_Db q) = Inr db"
  shows "wf_queue (q\<lparr>q_Db := db\<rparr>)"
proof -
  from assms(2) have db: "db = (q_Db q)\<lparr>db_Infra := filter (\<lambda>r. \<not> (rn_ID r = i \<and> rn_TenantID r = tenant)) (db_Infra (q_Db q))\<rparr>"
    and free: "\<forall>j\<in>set (db_Jobs (q_Db q)). bj_InfraID j \<noteq> Some i"
    by (auto simp: DeleteRunner_def Let_def list_ex_iff split: if_splits)
  have "job_ok db j" if j: "j \<in> set (db_Jobs (q_Db q))" for j
    using wf_queueD(7) [OF wf j]
  proof (rule job_ok_mono)
    fix r assume "r \<in> set (db_Infra (q_Db q))" and own: "owned_by j r"
    moreover have "rn_ID r \<noteq> i" using own free j by (auto simp: owned_by_def)
    ultimately show "\<exists>r'\<in>set (db_Infra db). owned_by j r'" by (intro bexI [of _ r]) (simp_all add: db)
  qed
  with wf show ?thesis by (auto simp: wf_queue_def db distinct_map_filter)
qed

lemma enqueue_wf:
  assumes wf: "wf_queue q" and "i \<notin> q_Used q"
    and "EnqueueJob i now tenant model provider cfg (q_Db q) = Inr (db, j)"
  shows "wf_queue (q\<lparr>q_Db := db, q_Used := insert i (q_Used q)\<rparr>)"
proof -
  from assms(3) have j: "bj_ID j = i" "bj_InfraID j = None" "job_ok db j"
    and db: "db = (q_Db q)\<lparr>db_Jobs := db_Jobs (q_Db q) @ [j]\<rparr>"
    by (auto simp: EnqueueJob_def Let_def job_ok_def split: if_splits)
  have "i \<notin> bj_ID ` set (db_Jobs (q_Db q))" using wf_queueD(4) [OF wf] assms(2) by auto
  then have "owner i (q_Log q) = None" by (rule wf_queueD(9) [OF wf])
  moreover have "job_ok (q_Db q) k \<Longrightarrow> job_ok db k" for k by (erule job_ok_mono) (auto simp: db)
  ultimately show ?thesis using wf assms(2) j by (auto simp: wf_queue_def db)
qed

lemma read_wf:
  assumes wf: "wf_queue q" and "ms = modelsOf i (ListRunners tenant (q_Db q))" and "ms \<noteq> []"
  shows "wf_queue (q\<lparr>q_Polls := insert (tenant, i, ms) (q_Polls q)\<rparr>)"
proof -
  from assms(2,3) obtain r where r: "find (\<lambda>r. rn_ID r = i) (ListRunners tenant (q_Db q)) = Some r"
    "ms = rc_Models (rn_Config r)" by (auto simp: modelsOf_def split: option.splits)
  then have "r \<in> set (ListRunners tenant (q_Db q))" "rn_ID r = i" by (auto simp: find_Some_iff)
  then have r': "r \<in> set (db_Infra (q_Db q))" "rn_TenantID r = tenant" "rn_ID r = i" by (auto simp: ListRunners_def)
  have uniq: "x = r" if "x \<in> set (db_Infra (q_Db q))" "rn_ID x = i" for x
    by (rule runner_unique [OF wf that(1) r'(1)]) (simp add: that(2) r'(3))
  have "\<forall>x\<in>set (db_Infra (q_Db q)). rn_ID x = i \<longrightarrow> rn_TenantID x = tenant \<and> rc_Models (rn_Config x) = ms"
    using uniq r(2) r'(2) by blast
  moreover have "i \<in> q_Used q" using wf_queueD(3) [OF wf r'(1)] r'(3) by simp
  ultimately show ?thesis using wf by (simp add: wf_queue_def)
qed

lemma queue_step_wf:
  assumes wf: "wf_queue q" and "queue_step q q'"
  shows "wf_queue q'"
  using assms(2)
proof (cases rule: queue_step.cases)
  case (q_tick d)
  then show ?thesis using wf by (simp add: wf_queue_def)
next
  case (q_touch tenant i db)
  then show ?thesis
    using infra_wf [OF wf, of "\<lambda>r. rn_ID r = i \<and> rn_TenantID r = tenant \<and> rn_Status r = ''healthy''"
      "\<lambda>r. r\<lparr>rn_UpdatedAt := q_Now q\<rparr>"] by (auto simp: TouchRunner_def Let_def split: if_splits)
next
  case (q_mark threshold db n)
  then show ?thesis
    using infra_wf [OF wf, of "\<lambda>r. rn_Executor r = ''remote'' \<and> rn_Status r = ''healthy'' \<and> rn_UpdatedAt r < q_Now q - threshold"
      "\<lambda>r. r\<lparr>rn_Status := ''unhealthy''\<rparr>"] by (auto simp: MarkUnhealthyRunners_def Let_def)
next
  case (q_reset db n)
  then show ?thesis using reset_wf [OF wf, of "q_Now q"] by simp
qed (auto intro: register_wf delete_wf enqueue_wf read_wf claim_wf complete_wf progress_wf wf)

lemma emptyQueue_wf: "wf_queue emptyQueue"
  by (simp add: wf_queue_def emptyQueue_def)

interpretation queue: invariant_system "\<lambda>q. q = emptyQueue" queue_step wf_queue
  by unfold_locales (simp_all add: emptyQueue_wf queue_step_wf)


section \<open>Claiming makes progress\<close>

lemma set_candidates: "set (candidates locked t i ms db) = {j \<in> set (db_Jobs db). claimable locked t i ms j}"
  by (auto simp: candidates_def)

lemma filter_update_where:
  assumes "\<And>x. P x \<Longrightarrow> \<not> Q (f x)"
  shows "filter Q (update_where P f xs) = filter (\<lambda>x. \<not> P x) (filter Q xs)"
  unfolding update_where_def by (induction xs) (auto simp: assms)

lemma claim_next:
  assumes c: "candidates locked t i ms db = j # js" and "distinct (map bj_ID (db_Jobs db))"
    and "i \<in> rn_ID ` set (db_Infra db)"
  obtains db' where "ClaimJob locked now t i ms db = Inr (db', Some (claimRow i now j))"
    and "candidates locked t i ms db' = js" and "map bj_ID (db_Jobs db') = map bj_ID (db_Jobs db)"
    and "db_Infra db' = db_Infra db" and "claimRow i now j \<in> set (db_Jobs db')"
    and "\<And>k. k \<in> set (db_Jobs db) \<Longrightarrow> bj_ID k \<noteq> bj_ID j \<Longrightarrow> k \<in> set (db_Jobs db')"
proof -
  let ?same = "\<lambda>r. bj_ID r = bj_ID j"
  let ?db = "db\<lparr>db_Jobs := update_where ?same (claimRow i now) (db_Jobs db)\<rparr>"
  have "inj_on bj_ID (set (db_Jobs db))" "distinct (db_Jobs db)" using assms(2) by (auto simp: distinct_map)
  moreover have sub: "set (j # js) \<subseteq> set (db_Jobs db)" using set_candidates [of locked t i ms db] c by auto
  moreover have "distinct (j # js)"
    using c calculation(2) by (metis candidates_def distinct_filter distinct_sort)
  ultimately have ids: "k \<in> set js \<Longrightarrow> \<not> ?same k" for k by (auto dest: inj_onD)
  have "candidates locked t i ms ?db = filter (\<lambda>r. \<not> ?same r) (candidates locked t i ms db)"
    by (simp add: candidates_def filter_sort filter_update_where claimable_def claimRow_def)
  also have "\<dots> = js" using ids by (simp add: c filter_id_conv)
  finally have "candidates locked t i ms ?db = js" .
  moreover have "ClaimJob locked now t i ms db = Inr (?db, Some (claimRow i now j))"
    using c assms(3) by (simp add: ClaimJob_def)
  moreover have "map bj_ID (db_Jobs ?db) = map bj_ID (db_Jobs db)"
    by (simp, rule map_update_where) (simp add: claimRow_def)
  moreover have "claimRow i now j \<in> set (db_Jobs ?db)" using sub by (auto simp: set_update_where)
  moreover have "k \<in> set (db_Jobs db) \<Longrightarrow> bj_ID k \<noteq> bj_ID j \<Longrightarrow> k \<in> set (db_Jobs ?db)" for k
    by (force simp: set_update_where)
  ultimately show ?thesis by (intro that [of ?db]) simp_all
qed

text \<open>A runner that serves the tenant: registered, healthy and with at least one model.\<close>

definition serving :: "string \<Rightarrow> string \<Rightarrow> string list \<Rightarrow> Db \<Rightarrow> bool" where
  "serving t i ms db \<longleftrightarrow> i \<noteq> [] \<and> ms \<noteq> [] \<and> distinct (map rn_ID (db_Infra db)) \<and>
     (\<exists>r\<in>set (db_Infra db). rn_ID r = i \<and> rn_TenantID r = t \<and> rn_Executor r = ''remote'' \<and>
        rn_Status r = ''healthy'' \<and> rc_Models (rn_Config r) = ms)"

lemma touch_serving:
  assumes "serving t i ms db"
  obtains db1 where "TouchRunner now t i db = Inr db1" "serving t i ms db1" "db_Jobs db1 = db_Jobs db"
    "modelsOf i (ListRunners t db1) = ms"
proof -
  let ?hit = "\<lambda>r. rn_ID r = i \<and> rn_TenantID r = t \<and> rn_Status r = ''healthy''"
  let ?rows = "update_where ?hit (\<lambda>r. r\<lparr>rn_UpdatedAt := now\<rparr>) (db_Infra db)"
  let ?db = "db\<lparr>db_Infra := ?rows\<rparr>"
  from assms obtain r where r: "r \<in> set (db_Infra db)" "?hit r" "rn_Executor r = ''remote''"
    "rc_Models (rn_Config r) = ms" by (auto simp: serving_def)
  have ids: "map rn_ID ?rows = map rn_ID (db_Infra db)" by (rule map_update_where) simp
  have new: "r\<lparr>rn_UpdatedAt := now\<rparr> \<in> set ?rows" using r by (auto simp: set_update_where)
  have dist: "distinct (map rn_ID ?rows)" using assms ids by (simp add: serving_def)
  have "\<exists>x\<in>set ?rows. rn_ID x = i \<and> rn_TenantID x = t \<and> rn_Executor x = ''remote'' \<and>
      rn_Status x = ''healthy'' \<and> rc_Models (rn_Config x) = ms"
    using r by (intro bexI [OF _ new]) simp
  then have "serving t i ms ?db" using assms dist by (simp add: serving_def)
  moreover have "TouchRunner now t i db = Inr ?db"
    using r by (auto simp: TouchRunner_def Let_def rows_affected_0)
  moreover have "modelsOf i (ListRunners t ?db) = ms"
  proof -
    have mem: "r\<lparr>rn_UpdatedAt := now\<rparr> \<in> set (ListRunners t ?db)" using new r by (simp add: ListRunners_def)
    then obtain x where x: "find (\<lambda>r. rn_ID r = i) (ListRunners t ?db) = Some x"
      using r by (cases "find (\<lambda>r. rn_ID r = i) (ListRunners t ?db)") (auto simp: find_None_iff)
    then have "x \<in> set (ListRunners t ?db)" "rn_ID x = i" by (auto simp: find_Some_iff)
    then have "x \<in> set ?rows" "rn_ID x = i" by (simp_all add: ListRunners_def)
    moreover have "inj_on rn_ID (set ?rows)" using dist by (simp only: distinct_map)
    ultimately have "x = r\<lparr>rn_UpdatedAt := now\<rparr>" using new r(2) by (auto elim!: inj_onD)
    with x r show ?thesis by (simp add: modelsOf_def)
  qed
  ultimately show ?thesis using that by simp
qed


primrec polls :: "nat \<Rightarrow> int \<Rightarrow> string \<Rightarrow> string \<Rightarrow> Db \<Rightarrow> Db" where
  "polls 0 now t i db = db"
| "polls (Suc n) now t i db = polls n now t i (fst (handlePollJob {} now t i db))"

lemma poll_claims:
  assumes "serving t i ms db" and "distinct (map bj_ID (db_Jobs db))" and "candidates {} t i ms db = j # js"
  obtains db' where "fst (handlePollJob {} now t i db) = db'" "serving t i ms db'"
    "distinct (map bj_ID (db_Jobs db'))" "candidates {} t i ms db' = js" "claimRow i now j \<in> set (db_Jobs db')"
  using assms(1)
proof (rule touch_serving [where now = now])
  fix db1 assume t: "TouchRunner now t i db = Inr db1" "serving t i ms db1" "db_Jobs db1 = db_Jobs db"
    "modelsOf i (ListRunners t db1) = ms"
  then have c: "candidates {} t i ms db1 = j # js" using assms(3) by (simp add: candidates_def)
  have d: "distinct (map bj_ID (db_Jobs db1))" using assms(2) t(3) by simp
  have i: "i \<in> rn_ID ` set (db_Infra db1)" using t(2) by (auto simp: serving_def)
  from claim_next [OF c d i, of now] obtain db2 where db2:
    "ClaimJob {} now t i ms db1 = Inr (db2, Some (claimRow i now j))" "candidates {} t i ms db2 = js"
    "map bj_ID (db_Jobs db2) = map bj_ID (db_Jobs db1)" "db_Infra db2 = db_Infra db1"
    "claimRow i now j \<in> set (db_Jobs db2)" by metis
  have "i \<noteq> []" "ms \<noteq> []" using assms(1) by (auto simp: serving_def)
  then have "fst (handlePollJob {} now t i db) = db2" using t db2(1) by (simp add: handlePollJob_def)
  moreover have "serving t i ms db2" using t(2) db2(4) by (simp add: serving_def)
  ultimately show ?thesis using that db2 d by simp
qed

lemma polls_reach:
  assumes "serving t i ms db" and "distinct (map bj_ID (db_Jobs db))" and "k < length (candidates {} t i ms db)"
  shows "claimRow i now (candidates {} t i ms db ! k) \<in> set (db_Jobs (polls (Suc k) now t i db))"
  using assms
proof (induction k arbitrary: db)
  case 0
  then obtain j js where "candidates {} t i ms db = j # js" by (cases "candidates {} t i ms db") auto
  with poll_claims [OF "0.prems"(1,2) this, of now] show ?case by fastforce
next
  case (Suc k)
  then obtain j js where c: "candidates {} t i ms db = j # js" by (cases "candidates {} t i ms db") auto
  from poll_claims [OF Suc.prems(1,2) c, of now] obtain db' where db':
    "fst (handlePollJob {} now t i db) = db'" "serving t i ms db'" "distinct (map bj_ID (db_Jobs db'))"
    "candidates {} t i ms db' = js" by metis
  with Suc.IH [OF db'(2,3)] Suc.prems(3) c show ?case by simp
qed

lemma claimable_job_is_claimed:
  assumes "serving t i ms db" and "distinct (map bj_ID (db_Jobs db))"
    and "j \<in> set (db_Jobs db)" and "claimable {} t i ms j"
  shows "\<exists>n\<le>length (db_Jobs db). claimRow i now j \<in> set (db_Jobs (polls n now t i db))"
proof -
  have "j \<in> set (candidates {} t i ms db)" using assms(3,4) by (simp add: set_candidates)
  then obtain k where k: "k < length (candidates {} t i ms db)" "candidates {} t i ms db ! k = j"
    by (auto simp: in_set_conv_nth)
  moreover have "length (candidates {} t i ms db) \<le> length (db_Jobs db)" by (simp add: candidates_def)
  ultimately show ?thesis using polls_reach [OF assms(1,2) k(1), of now] by (intro exI [of _ "Suc k"]) simp
qed

section \<open>Histories\<close>

lemma owner_None_released:
  "owner k (ys @ Claimed k r # zs) = None \<Longrightarrow> Released k \<in> set ys"
proof (induction ys)
  case (Cons e ys)
  then show ?case by (cases e) (auto split: if_splits)
qed simp

lemma owner_Some_claimed:
  assumes "owner k es = Some r"
  shows "\<exists>as bs. es = as @ Claimed k r # bs \<and> (\<forall>r'. Claimed k r' \<notin> set as) \<and> Released k \<notin> set as"
  using assms
proof (induction es)
  case (Cons e es)
  show ?case
  proof (cases "e = Claimed k r")
    case True
    then show ?thesis by (intro exI [of _ "[]"] exI [of _ es]) simp
  next
    case False
    with Cons.prems have "owner k es = Some r" "Released k \<noteq> e" "\<forall>r'. Claimed k r' \<noteq> e"
      by (cases e; auto split: if_splits)+
    with Cons.IH obtain as bs where "es = as @ Claimed k r # bs" "\<forall>r'. Claimed k r' \<notin> set as" "Released k \<notin> set as"
      by blast
    with \<open>Released k \<noteq> e\<close> \<open>\<forall>r'. Claimed k r' \<noteq> e\<close> show ?thesis
      by (intro exI [of _ "e # as"] exI [of _ bs]) auto
  qed
qed simp

lemma exclusive_append: "exclusive (xs @ ys) \<Longrightarrow> exclusive ys"
proof (induction xs)
  case (Cons e xs)
  then show ?case by (cases e) auto
qed simp

section \<open>Executable runs\<close>

text \<open>The steps a scenario of requests takes, for concrete runs.\<close>

datatype qop =
    OTick int
  | ORegister string string RegisterRunnerRequest
  | OEnqueue string string string JobConfig
  | ORead string string
  | OClaim string string "string list"
  | OComplete string string string string
  | OReset

fun exec_op :: "qop \<Rightarrow> Queue \<Rightarrow> Queue option" where
  "exec_op (OTick d) q = (if 0 \<le> d then Some (q\<lparr>q_Now := q_Now q + d\<rparr>) else None)"
| "exec_op (ORegister i t req) q =
     (if i \<in> q_Used q then None
      else (case RegisterRunner i (q_Now q) t req (q_Db q) of Inl _ \<Rightarrow> None
        | Inr (db, r) \<Rightarrow> Some (q\<lparr>q_Db := db, q_Used := insert i (q_Used q)\<rparr>)))"
| "exec_op (OEnqueue i t m cfg) q =
     (if i \<in> q_Used q then None
      else (case EnqueueJob i (q_Now q) t m [] cfg (q_Db q) of Inl _ \<Rightarrow> None
        | Inr (db, j) \<Rightarrow> Some (q\<lparr>q_Db := db, q_Used := insert i (q_Used q)\<rparr>)))"
| "exec_op (ORead t i) q =
     (let ms = modelsOf i (ListRunners t (q_Db q)) in
      if ms = [] then None else Some (q\<lparr>q_Polls := insert (t, i, ms) (q_Polls q)\<rparr>))"
| "exec_op (OClaim t i ms) q =
     (if (t, i, ms) \<notin> q_Polls q then None
      else (case ClaimJob {} (q_Now q) t i ms (q_Db q) of Inl _ \<Rightarrow> None | Inr (db, None) \<Rightarrow> None
        | Inr (db, Some j) \<Rightarrow> Some (q\<lparr>q_Db := db, q_Log := Claimed (bj_ID j) i # q_Log q\<rparr>)))"
| "exec_op (OComplete t i k st) q =
     (if st \<noteq> ''completed'' \<and> st \<noteq> ''failed'' then None
      else (case CompleteJob (q_Now q) t i k st 1 0 [] (q_Db q) of Inl _ \<Rightarrow> None
        | Inr db \<Rightarrow> Some (q\<lparr>q_Db := db, q_Log := Finished k i # q_Log q\<rparr>)))"
| "exec_op OReset q =
     Some (q\<lparr>q_Db := fst (ResetStaleJobs (q_Now q) staleAfter (q_Db q)), q_Log := releasedBy (q_Now q) (q_Db q) @ q_Log q\<rparr>)"

lemma exec_op_step: "exec_op op q = Some q' \<Longrightarrow> queue_step q q'"
  by (cases op)
    (auto split: if_splits sum.splits option.splits prod.splits simp: Let_def prod_eq_iff
      intro: queue_step.intros intro!: q_reset [of _ _ "snd (ResetStaleJobs (q_Now q) staleAfter (q_Db q))"])

lemma exec_reachable: "queue_reachable q \<Longrightarrow> each exec_op ops q = Some q' \<Longrightarrow> queue_reachable q'"
proof (induction ops arbitrary: q)
  case (Cons a ops)
  then obtain q1 where "exec_op a q = Some q1" "each exec_op ops q1 = Some q'" by (auto split: option.splits)
  with Cons show ?case by (metis exec_op_step reachable_step)
qed simp


definition demo_req :: RegisterRunnerRequest where
  "demo_req = \<lparr>rq_Name = [], rq_Models = [''m''], rq_Provider = [], rq_Region = [], rq_MaxParallel = 0, rq_Labels = []\<rparr>"

definition demo_cfg :: JobConfig where
  "demo_cfg = \<lparr>jc_Scenarios = [''a''], jc_Timeout = 0, jc_RunnerID = [], jc_ExecutionMode = [], jc_MCPServer = [],
     jc_ToolServer = [], jc_ToolServerVersion = [], jc_SkillFile = [], jc_SkillID = [], jc_SkillVersion = [],
     jc_SkillSource = [], jc_SkillSHA256 = []\<rparr>"

text \<open>
  Two runners and one job: the first runner claims it and is never heard of again, the job goes
  back to the queue after five minutes, and the second runner claims and completes it.
\<close>

definition demo_abandoned :: Queue where
  "demo_abandoned = the (each exec_op
     [ORegister ''r1'' ''t'' demo_req, ORegister ''r2'' ''t'' demo_req, OEnqueue ''j'' ''t'' ''m'' demo_cfg,
      ORead ''t'' ''r1'', OClaim ''t'' ''r1'' [''m''], OTick 400000000000] emptyQueue)"

text \<open>The same job waiting, with a third runner that registers later.\<close>

definition demo_waiting :: Queue where
  "demo_waiting = the (each exec_op [ORegister ''r3'' ''t'' demo_req] demo_abandoned)"

definition demo_history :: Queue where
  "demo_history = the (each exec_op
     [OReset, ORead ''t'' ''r2'', OClaim ''t'' ''r2'' [''m''], OComplete ''t'' ''r2'' ''j'' ''completed'']
     demo_abandoned)"

lemma exec_the_reachable:
  "queue_reachable q \<Longrightarrow> each exec_op ops q \<noteq> None \<Longrightarrow> queue_reachable (the (each exec_op ops q))"
  by (rule exec_reachable, assumption) simp

lemma emptyQueue_reachable: "queue_reachable emptyQueue"
  by (rule reachable_init) simp

lemma demo_abandoned_reachable: "queue_reachable demo_abandoned"
  unfolding demo_abandoned_def by (rule exec_the_reachable [OF emptyQueue_reachable]) code_simp

lemma demo_waiting_reachable: "queue_reachable demo_waiting"
  unfolding demo_waiting_def by (rule exec_the_reachable [OF demo_abandoned_reachable]) code_simp

lemma demo_history_reachable: "queue_reachable demo_history"
  unfolding demo_history_def by (rule exec_the_reachable [OF demo_abandoned_reachable]) code_simp

section \<open>Properties\<close>

text \<open>
  C24: A job is only ever assigned to a runner that may run it. In every reachable state, a job that
  left the queue belongs to a registered runner of the same tenant, the runner serves the job's
  model, and a job pinned to a runner belongs to that one, however polls, registrations and
  deletions interleave.
\<close>

theorem assignment_is_authorised:
  assumes "queue_reachable q" and "j \<in> set (db_Jobs (q_Db q))" and "bj_Status j \<noteq> ''queued''"
  shows "\<exists>r\<in>set (db_Infra (q_Db q)). bj_InfraID j = Some (rn_ID r) \<and> rn_TenantID r = bj_TenantID j \<and>
    bj_Model j \<in> set (rc_Models (rn_Config r)) \<and> pinnedTo (rn_ID r) j"
  using wf_queueD(7) [OF queue.holds [OF assms(1)] assms(2)] assms(3)
  by (auto simp: job_ok_def owned_by_def)

theorem assignment_is_authorised_witness:
  "\<exists>r\<in>set (db_Infra (q_Db demo_history)). bj_InfraID (hd (db_Jobs (q_Db demo_history))) = Some (rn_ID r)"
proof -
  have "db_Jobs (q_Db demo_history) \<noteq> []" by code_simp
  moreover have "bj_Status (hd (db_Jobs (q_Db demo_history))) \<noteq> ''queued''" by code_simp
  ultimately show ?thesis
    using assignment_is_authorised [OF demo_history_reachable, of "hd (db_Jobs (q_Db demo_history))"]
    by (auto simp del: list.sel)
qed

text \<open>
  C23: Ownership is exclusive over time. Between two claims of one job the janitor released it, and
  every accepted completion comes from the runner that claimed the job last, with no release in
  between: a runner whose job was taken away cannot complete it.
\<close>

theorem claims_are_exclusive:
  assumes "queue_reachable q"
  shows "(\<forall>xs k r ys r' zs. q_Log q = xs @ Claimed k r # ys @ Claimed k r' # zs \<longrightarrow> Released k \<in> set ys) \<and>
    (\<forall>xs k r ys. q_Log q = xs @ Finished k r # ys \<longrightarrow>
       (\<exists>as bs. ys = as @ Claimed k r # bs \<and> (\<forall>r'. Claimed k r' \<notin> set as) \<and> Released k \<notin> set as))"
proof -
  have ex: "exclusive (q_Log q)" using queue.holds [OF assms] by (rule wf_queueD(10))
  have "owner k ys = None" if "q_Log q = xs @ Claimed k r # ys" for xs k r ys
    using exclusive_append [of xs "Claimed k r # ys"] ex that by simp
  moreover have "owner k ys = Some r" if "q_Log q = xs @ Finished k r # ys" for xs k r ys
    using exclusive_append [of xs "Finished k r # ys"] ex that by simp
  ultimately show ?thesis using owner_None_released owner_Some_claimed by (metis append_Cons)
qed

theorem claims_are_exclusive_witness:
  "\<exists>as bs. [Claimed ''j'' ''r2'', Released ''j'', Claimed ''j'' ''r1''] = as @ Claimed ''j'' ''r2'' # bs \<and>
     Released ''j'' \<notin> set as"
proof -
  have "q_Log demo_history = [] @ Finished ''j'' ''r2'' # [Claimed ''j'' ''r2'', Released ''j'', Claimed ''j'' ''r1'']"
    by code_simp
  with claims_are_exclusive [OF demo_history_reachable] show ?thesis by blast
qed

text \<open>
  A claim takes the oldest job the runner may have. It fails to find one exactly when no
  unlocked queued job of the tenant has one of the models and is free for the runner; otherwise
  it claims such a job with the smallest creation time.
\<close>

theorem claim_takes_oldest:
  assumes "runner \<in> set (map rn_ID (db_Infra db))"
  shows "\<exists>db' res. ClaimJob locked now tenant runner models db = Inr (db', res) \<and>
    (case res of
       None \<Rightarrow> db' = db \<and> (\<forall>k\<in>set (db_Jobs db). \<not> claimable locked tenant runner models k)
     | Some j' \<Rightarrow> \<exists>j\<in>set (db_Jobs db). claimable locked tenant runner models j \<and> j' = claimRow runner now j \<and>
         (\<forall>k\<in>set (db_Jobs db). claimable locked tenant runner models k \<longrightarrow> bj_CreatedAt j \<le> bj_CreatedAt k))"
proof (cases "candidates locked tenant runner models db")
  case Nil
  then have "\<forall>k\<in>set (db_Jobs db). \<not> claimable locked tenant runner models k"
    using set_candidates [of locked tenant runner models db] by auto
  with Nil show ?thesis by (simp add: ClaimJob_def)
next
  case (Cons j js)
  have "sorted (map bj_CreatedAt (j # js))"
    using Cons [symmetric] by (simp only: candidates_def sorted_sort_key)
  then have "\<forall>k\<in>set (j # js). bj_CreatedAt j \<le> bj_CreatedAt k" by auto
  then have "\<forall>k\<in>set (db_Jobs db). claimable locked tenant runner models k \<longrightarrow> bj_CreatedAt j \<le> bj_CreatedAt k"
    using set_candidates [of locked tenant runner models db] Cons by auto
  with candidate_row [OF Cons] Cons assms show ?thesis by (auto simp: ClaimJob_def)
qed

theorem claim_takes_oldest_witness:
  "\<exists>db' res. ClaimJob {} 0 ''t'' ''r1'' [''m''] (q_Db demo_abandoned) = Inr (db', res) \<and> res = None"
proof -
  have "''r1'' \<in> set (map rn_ID (db_Infra (q_Db demo_abandoned)))" by code_simp
  from claim_takes_oldest [OF this, of "{}" 0 "''t''" "[''m'']"] obtain db' res where
    c: "ClaimJob {} 0 ''t'' ''r1'' [''m''] (q_Db demo_abandoned) = Inr (db', res)" by blast
  moreover have "snd (projr (ClaimJob {} 0 ''t'' ''r1'' [''m''] (q_Db demo_abandoned))) = None" by code_simp
  ultimately show ?thesis by simp
qed

text \<open>
  C25: An abandoned job is run after all. When a runner claimed a job and then showed no sign of
  progress for five minutes, the next tick of the janitor puts the job back, and a healthy runner
  of the tenant that serves its model owns it after at most as many polls as there are jobs.
\<close>

theorem abandoned_job_is_reassigned:
  assumes "queue_reachable q" and "j \<in> set (db_Jobs (q_Db q))" and "staleJob (q_Now q) staleAfter j"
    and "serving (bj_TenantID j) i ms (janitorTick (q_Now q) (q_Db q))"
    and "bj_Model j \<in> set ms" and "pinnedTo i j"
  shows "\<exists>n\<le>length (db_Jobs (q_Db q)).
    \<exists>j'\<in>set (db_Jobs (polls n now (bj_TenantID j) i (janitorTick (q_Now q) (q_Db q)))).
      bj_ID j' = bj_ID j \<and> bj_Status j' = ''claimed'' \<and> bj_InfraID j' = Some i"
proof -
  let ?db = "janitorTick (q_Now q) (q_Db q)"
  have jobs: "db_Jobs ?db = update_where (staleJob (q_Now q) staleAfter) resetRow (db_Jobs (q_Db q))"
    by (simp add: janitorTick_def ResetStaleJobs_def MarkUnhealthyRunners_def Let_def)
  have mem: "resetRow j \<in> set (db_Jobs ?db)" using assms(2,3) by (auto simp: jobs set_update_where)
  have "map bj_ID (db_Jobs ?db) = map bj_ID (db_Jobs (q_Db q))"
    unfolding jobs by (rule map_update_where) (simp add: resetRow_def)
  then have dist: "distinct (map bj_ID (db_Jobs ?db))" using wf_queueD(2) [OF queue.holds [OF assms(1)]] by simp
  have "claimable {} (bj_TenantID j) i ms (resetRow j)"
    using assms(5,6) by (simp add: claimable_def resetRow_def pinnedTo_def)
  from claimable_job_is_claimed [OF assms(4) dist mem this] obtain n where
    "n \<le> length (db_Jobs ?db)" "claimRow i now (resetRow j) \<in> set (db_Jobs (polls n now (bj_TenantID j) i ?db))" by blast
  moreover have "length (db_Jobs ?db) = length (db_Jobs (q_Db q))" by (simp add: jobs update_where_def)
  ultimately show ?thesis
    by (intro exI [of _ n] conjI bexI [of _ "claimRow i now (resetRow j)"]) (simp_all add: claimRow_def resetRow_def)
qed


theorem abandoned_job_is_reassigned_witness:
  "\<exists>n\<le>1. \<exists>j'\<in>set (db_Jobs (polls n 500000000000 ''t'' ''r3'' (janitorTick (q_Now demo_waiting) (q_Db demo_waiting)))).
     bj_ID j' = ''j'' \<and> bj_InfraID j' = Some ''r3''"
proof -
  let ?q = demo_waiting and ?j = "hd (db_Jobs (q_Db demo_waiting))"
  have "\<exists>n\<le>length (db_Jobs (q_Db ?q)).
    \<exists>j'\<in>set (db_Jobs (polls n 500000000000 (bj_TenantID ?j) ''r3'' (janitorTick (q_Now ?q) (q_Db ?q)))).
      bj_ID j' = bj_ID ?j \<and> bj_Status j' = ''claimed'' \<and> bj_InfraID j' = Some ''r3''"
  proof (rule abandoned_job_is_reassigned [where ms = "[''m'']"])
    show "queue_reachable ?q" by (rule demo_waiting_reachable)
    show "?j \<in> set (db_Jobs (q_Db ?q))" by code_simp
    show "staleJob (q_Now ?q) staleAfter ?j" by code_simp
    show "serving (bj_TenantID ?j) ''r3'' [''m''] (janitorTick (q_Now ?q) (q_Db ?q))" by code_simp
    show "bj_Model ?j \<in> set [''m'']" by code_simp
    show "pinnedTo ''r3'' ?j" by code_simp
  qed
  moreover have "bj_TenantID ?j = ''t''" "bj_ID ?j = ''j''" by code_simp+
  moreover have "length (db_Jobs (q_Db ?q)) = 1" by code_simp
  ultimately show ?thesis by (auto simp del: One_nat_def)
qed

section \<open>What the queue does not ensure\<close>

text \<open>
  The janitor looks at claimed jobs only. A job that reported progress once is running, and if its
  runner then disappears the job stays running for ever: no tick releases it and no poll can
  claim it.
\<close>

lemma running_job_is_never_released:
  assumes "j \<in> set (db_Jobs db)" and "bj_Status j = ''running''"
  shows "j \<in> set (db_Jobs (janitorTick now db))" and "\<not> claimable locked tenant runner models j"
  using assms by (force simp: janitorTick_def ResetStaleJobs_def MarkUnhealthyRunners_def Let_def
      set_update_where staleJob_def claimable_def)+

text \<open>A finished job can be finished again by its runner, with another outcome.\<close>

lemma completion_can_be_overwritten:
  "map bj_Status (db_Jobs (q_Db demo_history)) = [''completed''] \<and>
   map bj_Status (db_Jobs (projr (CompleteJob 0 ''t'' ''r2'' ''j'' ''failed'' 0 1 [] (q_Db demo_history)))) = [''failed'']"
  by code_simp

text \<open>A runner that was marked unhealthy is refused for good: touching it does not restore it.\<close>

lemma touch_refuses_unhealthy:
  assumes "\<forall>r\<in>set (db_Infra db). rn_ID r = i \<longrightarrow> rn_Status r \<noteq> ''healthy''"
  shows "TouchRunner now tenant i db = Inl ErrNotFound"
  using assms by (auto simp: TouchRunner_def Let_def rows_affected_0)

end
