(* ===== verification/Trigger_Api.thy ===== *)
theory Trigger_Api
  imports Job_Queue
begin

text \<open>
  The request handlers of \<^verbatim>\<open>internal/benchsvc/trigger_handler.go\<close> and of \<^verbatim>\<open>runner_handler.go\<close> over
  the job table and the trigger store together. A handler is a function from the state to the
  state and its reply; \<open>None\<close> is a panic. A request body that does not decode is \<open>None\<close>. The
  model catalogue, the environment variables, the clock and fresh identifiers are fields of an
  environment record, and so is whether a dispatcher and an executor are configured; the
  dispatcher of this version does nothing. Authentication has put the tenant into the request.
\<close>

record TriggerRequest =
  tr_Model :: string
  tr_Provider :: string
  tr_RunnerID :: string
  tr_ExecutionMode :: string
  tr_MCPServer :: string
  tr_ToolServer :: string
  tr_ToolServerVersion :: string
  tr_SkillFile :: string
  tr_SkillID :: string
  tr_SkillVersion :: string
  tr_SkillSource :: string
  tr_SkillSHA256 :: string
  tr_Scenarios :: "string list"

record ModelProviderInfo =
  mi_Provider :: string
  mi_APIKeyEnv :: string

record TriggerEnv =
  te_Dispatcher :: bool
  te_Executor :: bool
  te_Resolve :: "string \<Rightarrow> ModelProviderInfo option"
  te_Getenv :: "string \<Rightarrow> string"
  te_NewID :: string
  te_Now :: int

record Bench =
  be_Db :: Db
  be_Triggers :: TriggerStore

record CompleteRequest =
  cq_RunnerID :: string
  cq_Status :: string
  cq_Passed :: int
  cq_Failed :: int
  cq_Message :: string

section \<open>Starting a trigger\<close>

definition ExecutorContractVersion :: string where
  "ExecutorContractVersion = ''v1.0.0''"

definition normalizeTriggerExecutionMode :: "string \<Rightarrow> string option" where
  "normalizeTriggerExecutionMode mode =
     (if mode = [] \<or> mode = ExecutionModeProvider then Some ExecutionModeProvider
      else if mode = ExecutionModeA2A then Some ExecutionModeA2A
      else None)"

definition decodeTriggerRequest :: "TriggerRequest option \<Rightarrow> (Reply, TriggerRequest) result" where
  "decodeTriggerRequest body = (case body of
     None \<Rightarrow> Inl (WriteError 400 ''invalid JSON'')
   | Some req \<Rightarrow>
       if tr_Model req = [] then Inl (WriteError 400 ''model is required'')
       else if tr_Scenarios req = [] then Inl (WriteError 400 ''scenarios is required'')
       else (case normalizeTriggerExecutionMode (tr_ExecutionMode req) of
           None \<Rightarrow> Inl (WriteError 400 ''execution_mode must be provider or a2a'')
         | Some mode \<Rightarrow> Inr (req\<lparr>tr_ExecutionMode := mode\<rparr>)))"

definition resolveDirectTriggerProvider :: "TriggerEnv \<Rightarrow> TriggerRequest \<Rightarrow> (Reply, string) result" where
  "resolveDirectTriggerProvider e req = (case te_Resolve e (tr_Model req) of
     None \<Rightarrow> Inl (WriteError 400 (''unknown model: '' @ tr_Model req))
   | Some info \<Rightarrow>
       if mi_APIKeyEnv info \<noteq> [] \<and> te_Getenv e (mi_APIKeyEnv info) = []
       then Inl (WriteError 400 (''no API key configured for model: '' @ tr_Model req))
       else Inr (orElse (tr_Provider req) (mi_Provider info)))"

definition resolveRunnerTriggerProvider ::
  "TriggerEnv \<Rightarrow> TriggerRequest \<Rightarrow> Runner \<Rightarrow> (Reply, string) result" where
  "resolveRunnerTriggerProvider e req runner =
     (if tr_Provider req \<noteq> [] then Inr (tr_Provider req)
      else if rc_Provider (rn_Config runner) \<noteq> [] then Inr (rc_Provider (rn_Config runner))
      else (case te_Resolve e (tr_Model req) of
          None \<Rightarrow> Inl (WriteError 400 (''unknown model: '' @ tr_Model req))
        | Some info \<Rightarrow> Inr (mi_Provider info)))"

definition findPinnedRunner :: "string \<Rightarrow> string \<Rightarrow> string \<Rightarrow> Db \<Rightarrow> Runner option" where
  "findPinnedRunner tenant runner model db =
     find (\<lambda>r. rn_ID r = runner \<and> rn_Status r = ''healthy'' \<and> model \<in> set (rc_Models (rn_Config r)))
       (ListRunners tenant db)"

definition resolveRunnerForTrigger :: "string \<Rightarrow> TriggerRequest \<Rightarrow> Db \<Rightarrow> (Reply, Runner option) result" where
  "resolveRunnerForTrigger tenant req db =
     (if tr_RunnerID req \<noteq> [] then
        (case findPinnedRunner tenant (tr_RunnerID req) (tr_Model req) db of
           None \<Rightarrow> Inl (WriteError 400 (''pinned runner unavailable: runner '' @ tr_RunnerID req @
                     '' is not available for model '' @ tr_Model req))
         | Some r \<Rightarrow> Inr (Some r))
      else Inr (FindRunnerForModel tenant (tr_Model req) db))"

definition pendingScenarioProgress :: "string list \<Rightarrow> ScenarioProgress list" where
  "pendingScenarioProgress scenarios = map (\<lambda>s. \<lparr>sp_Scenario = s, sp_Status = ''pending'', sp_RunID = []\<rparr>) scenarios"

definition triggerJobOf :: "string \<Rightarrow> int \<Rightarrow> string \<Rightarrow> TriggerRequest \<Rightarrow> TriggerJob" where
  "triggerJobOf i now provider req =
     \<lparr>tj_ID = i, tj_Status = ''pending'', tj_Model = tr_Model req, tj_Provider = provider,
      tj_ExecutionMode = tr_ExecutionMode req, tj_MCPServer = tr_MCPServer req, tj_ToolServer = tr_ToolServer req,
      tj_ToolServerVersion = tr_ToolServerVersion req, tj_SkillFile = tr_SkillFile req, tj_SkillID = tr_SkillID req,
      tj_SkillVersion = tr_SkillVersion req, tj_SkillSource = tr_SkillSource req, tj_SkillSHA256 = tr_SkillSHA256 req,
      tj_Total = int (length (tr_Scenarios req)), tj_Completed = 0, tj_Passed = 0, tj_Failed = 0,
      tj_CurrentScenario = [], tj_RunIDs = [], tj_Progress = pendingScenarioProgress (tr_Scenarios req),
      tj_CreatedAt = now\<rparr>"

definition jobConfigOf :: "TriggerRequest \<Rightarrow> JobConfig" where
  "jobConfigOf req =
     \<lparr>jc_Scenarios = tr_Scenarios req, jc_Timeout = 0, jc_RunnerID = tr_RunnerID req,
      jc_ExecutionMode = tr_ExecutionMode req, jc_MCPServer = tr_MCPServer req, jc_ToolServer = tr_ToolServer req,
      jc_ToolServerVersion = tr_ToolServerVersion req, jc_SkillFile = tr_SkillFile req, jc_SkillID = tr_SkillID req,
      jc_SkillVersion = tr_SkillVersion req, jc_SkillSource = tr_SkillSource req, jc_SkillSHA256 = tr_SkillSHA256 req\<rparr>"

definition enqueueRunnerTrigger ::
  "TriggerEnv \<Rightarrow> string \<Rightarrow> TriggerRequest \<Rightarrow> string \<Rightarrow> Bench \<Rightarrow> (Reply, Bench \<times> string) result" where
  "enqueueRunnerTrigger e tenant req provider b =
     (case EnqueueJob (te_NewID e) (te_Now e) tenant (tr_Model req) provider (jobConfigOf req) (be_Db b) of
        Inl _ \<Rightarrow> Inl (WriteError 500 [])
      | Inr (db, job) \<Rightarrow>
          Inr (b\<lparr>be_Db := db,
                 be_Triggers := Create (triggerJobOf (bj_ID job) (te_Now e) provider req) (be_Triggers b)\<rparr>,
               bj_ID job))"

text \<open>\<open>None\<close> in the second component: the request was not handled, the direct path goes on.\<close>

definition maybeStartRunnerTrigger ::
  "TriggerEnv \<Rightarrow> string \<Rightarrow> TriggerRequest \<Rightarrow> Bench \<Rightarrow> Bench \<times> Reply option" where
  "maybeStartRunnerTrigger e tenant req b =
     (if \<not> te_Dispatcher e then (b, None)
      else (case resolveRunnerForTrigger tenant req (be_Db b) of
          Inl err \<Rightarrow> (b, Some err)
        | Inr None \<Rightarrow> (b, None)
        | Inr (Some runner) \<Rightarrow>
            (case resolveRunnerTriggerProvider e req runner of
               Inl err \<Rightarrow> (b, Some err)
             | Inr provider \<Rightarrow>
                 (case enqueueRunnerTrigger e tenant req provider b of
                    Inl err \<Rightarrow> (b, Some err)
                  | Inr (b', i) \<Rightarrow> (b', Some (Accepted i ''pending'' ''runner''))))))"

definition startTriggerRequest :: "TriggerEnv \<Rightarrow> string \<Rightarrow> TriggerRequest \<Rightarrow> Bench \<Rightarrow> Bench \<times> Reply" where
  "startTriggerRequest e tenant req b = (case maybeStartRunnerTrigger e tenant req b of
     (b', Some reply) \<Rightarrow> (b', reply)
   | (b', None) \<Rightarrow>
       if \<not> te_Executor e then (b', WriteError 501 ''bench trigger not configured: no executor'')
       else (case resolveDirectTriggerProvider e req of
           Inl err \<Rightarrow> (b', err)
         | Inr provider \<Rightarrow>
             (b'\<lparr>be_Triggers := Create (triggerJobOf (te_NewID e) (te_Now e) provider req) (be_Triggers b')\<rparr>,
              Accepted (te_NewID e) ''pending'' [])))"

definition handleTrigger :: "TriggerEnv \<Rightarrow> string \<Rightarrow> TriggerRequest option \<Rightarrow> Bench \<Rightarrow> Bench \<times> Reply" where
  "handleTrigger e tenant body b = (case decodeTriggerRequest body of
     Inl err \<Rightarrow> (b, err)
   | Inr req \<Rightarrow> startTriggerRequest e tenant req b)"

text \<open>The background goroutine of the direct path when the executor reports an error.\<close>

definition executorFailed :: "TriggerJob \<Rightarrow> Bench \<Rightarrow> Bench option" where
  "executorFailed job b =
     map_option (\<lambda>r. b\<lparr>be_Triggers := fst r\<rparr>)
       (Update \<lparr>pu_ContractVersion = [], pu_JobID = tj_ID job, pu_Scenario = [], pu_Status = ''error'', pu_RunID = [],
                pu_Completed = tj_Total job, pu_Total = tj_Total job\<rparr> (be_Triggers b))"

section \<open>Restoring a trigger from the table\<close>

definition triggerStatusFromBenchJobStatus :: "string \<Rightarrow> string" where
  "triggerStatusFromBenchJobStatus st =
     (if st = [] \<or> st = ''queued'' then ''pending''
      else if st = ''claimed'' \<or> st = ''running'' then ''running''
      else st)"

fun markProgress :: "ScenarioProgress list \<Rightarrow> int \<Rightarrow> int \<Rightarrow> ScenarioProgress list" where
  "markProgress [] passed failed = []"
| "markProgress (p # ps) passed failed =
     (if passed > 0 then p\<lparr>sp_Status := ''passed''\<rparr> # markProgress ps (passed - 1) failed
      else if failed > 0 then p\<lparr>sp_Status := ''failed''\<rparr> # markProgress ps passed (failed - 1)
      else p # ps)"

definition scenarioProgressFromBenchJob :: "string list \<Rightarrow> int \<Rightarrow> int \<Rightarrow> ScenarioProgress list" where
  "scenarioProgressFromBenchJob scenarios passed failed = markProgress (pendingScenarioProgress scenarios) passed failed"

definition zeroConfig :: JobConfig where
  "zeroConfig = \<lparr>jc_Scenarios = [], jc_Timeout = 0, jc_RunnerID = [], jc_ExecutionMode = [], jc_MCPServer = [],
     jc_ToolServer = [], jc_ToolServerVersion = [], jc_SkillFile = [], jc_SkillID = [], jc_SkillVersion = [],
     jc_SkillSource = [], jc_SkillSHA256 = []\<rparr>"

definition triggerJobFromBenchJob :: "BenchJob \<Rightarrow> TriggerJob" where
  "triggerJobFromBenchJob job =
     (let cfg = (case bj_Config job of None \<Rightarrow> zeroConfig | Some c \<Rightarrow> c) in
      \<lparr>tj_ID = bj_ID job, tj_Status = triggerStatusFromBenchJobStatus (bj_Status job), tj_Model = bj_Model job,
       tj_Provider = bj_Provider job, tj_ExecutionMode = orElse (jc_ExecutionMode cfg) ExecutionModeProvider,
       tj_MCPServer = jc_MCPServer cfg, tj_ToolServer = orElse (bj_ToolServer job) (jc_ToolServer cfg),
       tj_ToolServerVersion = orElse (bj_ToolServerVersion job) (jc_ToolServerVersion cfg),
       tj_SkillFile = jc_SkillFile cfg, tj_SkillID = orElse (bj_SkillID job) (jc_SkillID cfg),
       tj_SkillVersion = orElse (bj_SkillVersion job) (jc_SkillVersion cfg), tj_SkillSource = jc_SkillSource cfg,
       tj_SkillSHA256 = jc_SkillSHA256 cfg,
       tj_Total = (if bj_Total job = 0 \<and> jc_Scenarios cfg \<noteq> [] then int (length (jc_Scenarios cfg)) else bj_Total job),
       tj_Completed = bj_Completed job, tj_Passed = bj_Passed job, tj_Failed = bj_Failed job,
       tj_CurrentScenario = [], tj_RunIDs = [],
       tj_Progress = scenarioProgressFromBenchJob (jc_Scenarios cfg) (bj_Passed job) (bj_Failed job),
       tj_CreatedAt = bj_CreatedAt job\<rparr>)"

definition restoreTriggerJobFromPersistentJob :: "string \<Rightarrow> string \<Rightarrow> Bench \<Rightarrow> Bench \<times> TriggerJob option" where
  "restoreTriggerJobFromPersistentJob tenant i b = (case GetJob tenant i (be_Db b) of
     None \<Rightarrow> (b, None)
   | Some job \<Rightarrow>
       (let tj = triggerJobFromBenchJob job in (b\<lparr>be_Triggers := Create tj (be_Triggers b)\<rparr>, Some tj)))"

section \<open>Status, progress, completion\<close>

text \<open>The JSON snapshot of \<^verbatim>\<open>handleTriggerStatus\<close>; the event stream repeats it over a channel.\<close>

definition handleTriggerStatus :: "string \<Rightarrow> string \<Rightarrow> Bench \<Rightarrow> Bench \<times> Reply" where
  "handleTriggerStatus tenant i b = (case Get i (be_Triggers b) of
     Some job \<Rightarrow> (b, Snapshot job)
   | None \<Rightarrow> (case restoreTriggerJobFromPersistentJob tenant i b of
         (b', None) \<Rightarrow> (b', WriteError 404 ''job not found'')
       | (b', Some job) \<Rightarrow> (b', Snapshot job)))"

definition persistProgress :: "int \<Rightarrow> ProgressUpdate \<Rightarrow> Bench \<Rightarrow> Bench" where
  "persistProgress now u b =
     (let (passed, failed) = (case Get (pu_JobID u) (be_Triggers b) of
            None \<Rightarrow> (0, 0) | Some job \<Rightarrow> (tj_Passed job, tj_Failed job)) in
      b\<lparr>be_Db := UpdateJobProgress now (pu_JobID u) (pu_Completed u) passed failed (be_Db b)\<rparr>)"

definition handleTriggerProgress ::
  "int \<Rightarrow> string \<Rightarrow> string \<Rightarrow> ProgressUpdate option \<Rightarrow> Bench \<Rightarrow> (Bench \<times> Reply) option" where
  "handleTriggerProgress now tenant i body b = (case body of
     None \<Rightarrow> Some (b, WriteError 400 ''invalid JSON'')
   | Some u0 \<Rightarrow>
       if pu_ContractVersion u0 \<noteq> [] \<and> pu_ContractVersion u0 \<noteq> ExecutorContractVersion
       then Some (b, WriteError 400 ''unsupported contract version'')
       else
         (let u = u0\<lparr>pu_JobID := i\<rparr> in
          case Update u (be_Triggers b) of
            None \<Rightarrow> None
          | Some (ts, True) \<Rightarrow> Some (persistProgress now u (b\<lparr>be_Triggers := ts\<rparr>), Done)
          | Some (ts, False) \<Rightarrow>
              (case restoreTriggerJobFromPersistentJob tenant i (b\<lparr>be_Triggers := ts\<rparr>) of
                 (b', None) \<Rightarrow> Some (b', WriteError 404 ''job not found'')
               | (b', Some _) \<Rightarrow>
                   (case Update u (be_Triggers b') of
                      None \<Rightarrow> None
                    | Some (ts', True) \<Rightarrow> Some (persistProgress now u (b'\<lparr>be_Triggers := ts'\<rparr>), Done)
                    | Some (ts', False) \<Rightarrow> Some (b'\<lparr>be_Triggers := ts'\<rparr>, WriteError 404 ''job not found'')))))"

definition handleCompleteJob ::
  "int \<Rightarrow> string \<Rightarrow> string \<Rightarrow> CompleteRequest option \<Rightarrow> Bench \<Rightarrow> (Bench \<times> Reply) option" where
  "handleCompleteJob now tenant i body b = (case body of
     None \<Rightarrow> Some (b, WriteError 400 ''invalid JSON'')
   | Some req \<Rightarrow>
       if cq_Status req \<noteq> ''completed'' \<and> cq_Status req \<noteq> ''failed''
       then Some (b, WriteError 400 ''status must be completed or failed'')
       else if cq_RunnerID req = [] then Some (b, WriteError 400 ''runner_id is required'')
       else (case CompleteJob now tenant (cq_RunnerID req) i (cq_Status req) (cq_Passed req) (cq_Failed req)
                    (cq_Message req) (be_Db b) of
           Inl ErrNotFound \<Rightarrow> Some (b, WriteError 404 ''job not found or not owned by this runner'')
         | Inl ErrConstraint \<Rightarrow> Some (b, WriteError 500 [])
         | Inr db \<Rightarrow>
             (case Complete i (cq_Status req) (cq_Passed req) (cq_Failed req) (be_Triggers b) of
                None \<Rightarrow> None
              | Some (ts, _) \<Rightarrow> Some (\<lparr>be_Db = db, be_Triggers = ts\<rparr>, NoContent))))"

definition handleRegisterRunner ::
  "string \<Rightarrow> int \<Rightarrow> string \<Rightarrow> RegisterRunnerRequest option \<Rightarrow> Bench \<Rightarrow> Bench \<times> Reply" where
  "handleRegisterRunner i now tenant body b = (case body of
     None \<Rightarrow> (b, WriteError 400 ''invalid JSON'')
   | Some req \<Rightarrow>
       if rq_Models req = [] then (b, WriteError 400 ''models is required'')
       else (case RegisterRunner i now tenant req (be_Db b) of
           Inl _ \<Rightarrow> (b, WriteError 500 [])
         | Inr (db, r) \<Rightarrow> (b\<lparr>be_Db := db\<rparr>, Registered (rn_ID r) (rc_PollInterval (rn_Config r)))))"

definition handleDeleteRunner :: "string \<Rightarrow> string \<Rightarrow> Bench \<Rightarrow> Bench \<times> Reply" where
  "handleDeleteRunner tenant i b = (case DeleteRunner tenant i (be_Db b) of
     Inl ErrNotFound \<Rightarrow> (b, WriteError 404 ''runner not found'')
   | Inl ErrConstraint \<Rightarrow> (b, WriteError 500 [])
   | Inr db \<Rightarrow> (b\<lparr>be_Db := db\<rparr>, NoContent))"


section \<open>Facts\<close>

lemma orElse_same [simp]: "orElse x x = x"
  by (simp add: orElse_def)

lemma EnqueueJob_Inr:
  assumes "EnqueueJob i now tenant model provider cfg db = Inr (db', job)"
  shows "bj_ID job = i" "bj_TenantID job = tenant" "i \<notin> set (map bj_ID (db_Jobs db))"
    "db' = db\<lparr>db_Jobs := db_Jobs db @ [job]\<rparr>"
  using assms by (auto simp: EnqueueJob_def Let_def split: if_splits)

lemma find_fresh: "(\<And>x. x \<in> set xs \<Longrightarrow> \<not> P x) \<Longrightarrow> P y \<Longrightarrow> find P (xs @ [y]) = Some y"
  by (induction xs) auto

lemma decoded_mode:
  assumes "decodeTriggerRequest body = Inr req"
  shows "tr_ExecutionMode req \<noteq> []"
  using assms by (auto simp: decodeTriggerRequest_def normalizeTriggerExecutionMode_def ExecutionModeProvider_def
      ExecutionModeA2A_def split: option.splits if_splits)

lemma markProgress_0 [simp]: "markProgress ps 0 0 = ps"
  by (cases ps) simp_all

text \<open>A row that was just enqueued restores to the trigger job that was created for it.\<close>

lemma restored_trigger:
  assumes "EnqueueJob i now tenant (tr_Model req) provider (jobConfigOf req) db = Inr (db', job)"
    and "tr_ExecutionMode req \<noteq> []"
  shows "triggerJobFromBenchJob job = triggerJobOf i now provider req"
proof -
  from assms(1) have "job = \<lparr>bj_ID = i, bj_TenantID = tenant, bj_InfraID = None, bj_Model = tr_Model req,
      bj_Provider = provider, bj_Status = ''queued'', bj_Total = int (length (tr_Scenarios req)), bj_Completed = 0,
      bj_Passed = 0, bj_Failed = 0, bj_ToolServer = tr_ToolServer req, bj_ToolServerVersion = tr_ToolServerVersion req,
      bj_SkillID = tr_SkillID req, bj_SkillVersion = tr_SkillVersion req, bj_ErrorMessage = [],
      bj_Config = Some (jobConfigOf req), bj_CreatedAt = now, bj_StartedAt = None, bj_CompletedAt = None,
      bj_LastProgressAt = None\<rparr>"
    by (auto simp: EnqueueJob_def Let_def jobConfigOf_def split: if_splits)
  moreover have "orElse (tr_ExecutionMode req) ExecutionModeProvider = tr_ExecutionMode req"
    using assms(2) by (simp add: orElse_def)
  ultimately show ?thesis
    by (simp add: triggerJobFromBenchJob_def triggerJobOf_def jobConfigOf_def triggerStatusFromBenchJobStatus_def
        scenarioProgressFromBenchJob_def)
qed

lemma completed_row:
  assumes "CompleteJob now tenant runner i st passed failed msg db = Inr db'"
  shows "\<exists>row\<in>set (db_Jobs db'). bj_ID row = i \<and> bj_TenantID row = tenant \<and> bj_InfraID row = Some runner \<and>
    bj_Status row = st \<and> bj_Passed row = passed \<and> bj_Failed row = failed"
proof -
  from assms obtain x where x: "x \<in> set (db_Jobs db)" "bj_ID x = i" "bj_TenantID x = tenant" "bj_InfraID x = Some runner"
    and db': "db_Jobs db' = update_where (\<lambda>j. bj_ID j = i \<and> bj_TenantID j = tenant \<and> bj_InfraID j = Some runner)
      (finishRow now st passed failed msg) (db_Jobs db)"
    by (auto simp: CompleteJob_def Let_def rows_affected_0 split: if_splits)
  then have "finishRow now st passed failed msg x \<in> set (db_Jobs db')" by (auto simp: set_update_where)
  with x show ?thesis by (intro bexI [of _ "finishRow now st passed failed msg x"]) (simp_all add: finishRow_def)
qed

lemma completed_store:
  assumes "trigger_reachable s" and "st \<in> {''completed'', ''failed''}"
  shows "\<exists>t k. Complete i st passed failed s = Some (t, k) \<and> (\<forall>job. Get i t = Some job \<longrightarrow>
    tj_Status job = st \<and> tj_Passed job = passed \<and> tj_Failed job = failed \<and> terminal job)"
proof -
  from Complete_ok [OF trigger.holds [OF assms(1)], of i st passed failed] obtain t k where
    t: "Complete i st passed failed s = Some (t, k)"
       "\<forall>job. ts_Jobs s i = Some job \<longrightarrow> ts_Jobs t i = Some (completeJob st passed failed job)" by blast
  have "ts_Jobs s i = None \<Longrightarrow> ts_Jobs t i = None" using t(1) by (simp add: Complete_def)
  then have "\<forall>job. Get i t = Some job \<longrightarrow>
      tj_Status job = st \<and> tj_Passed job = passed \<and> tj_Failed job = failed \<and> terminal job"
    using t(2) assms(2) by (cases "ts_Jobs s i") (auto simp: Get_def completeJob_def terminal_def)
  with t(1) show ?thesis by blast
qed

lemma startTriggerRequest_cases:
  assumes "startTriggerRequest e tenant req b = (b', reply)"
  obtains (runner) provider job where "reply = Accepted (te_NewID e) ''pending'' ''runner''"
      "EnqueueJob (te_NewID e) (te_Now e) tenant (tr_Model req) provider (jobConfigOf req) (be_Db b) = Inr (be_Db b', job)"
      "be_Triggers b' = Create (triggerJobOf (te_NewID e) (te_Now e) provider req) (be_Triggers b)"
    | (direct) provider where "reply = Accepted (te_NewID e) ''pending'' []" "be_Db b' = be_Db b"
      "be_Triggers b' = Create (triggerJobOf (te_NewID e) (te_Now e) provider req) (be_Triggers b)"
    | (refused) code msg where "reply = WriteError code msg" "b' = b"
proof -
  have runner_err: "\<exists>c m. err = WriteError c m" if "resolveRunnerForTrigger tenant req db = Inl err" for err db
    using that by (auto simp: resolveRunnerForTrigger_def split: if_splits option.splits)
  have provider_err: "\<exists>c m. err = WriteError c m" if "resolveRunnerTriggerProvider e req r = Inl err" for err r
    using that by (auto simp: resolveRunnerTriggerProvider_def split: if_splits option.splits)
  have direct_err: "\<exists>c m. err = WriteError c m" if "resolveDirectTriggerProvider e req = Inl err" for err
    using that by (auto simp: resolveDirectTriggerProvider_def split: if_splits option.splits)
  show ?thesis
  proof (cases "snd (maybeStartRunnerTrigger e tenant req b)")
    case None
    then have "maybeStartRunnerTrigger e tenant req b = (b, None)"
      by (auto simp: maybeStartRunnerTrigger_def split: if_splits sum.splits option.splits)
    then have start: "startTriggerRequest e tenant req b =
        (if \<not> te_Executor e then (b, WriteError 501 ''bench trigger not configured: no executor'')
         else case resolveDirectTriggerProvider e req of Inl err \<Rightarrow> (b, err)
           | Inr provider \<Rightarrow> (b\<lparr>be_Triggers := Create (triggerJobOf (te_NewID e) (te_Now e) provider req) (be_Triggers b)\<rparr>,
               Accepted (te_NewID e) ''pending'' []))"
      by (simp add: startTriggerRequest_def)
    show ?thesis
    proof (cases "resolveDirectTriggerProvider e req")
      case (Inl err)
      with direct_err obtain c m where "err = WriteError c m" by blast
      with Inl start assms show ?thesis by (cases "te_Executor e") (auto intro: refused)
    next
      case (Inr provider)
      with start assms show ?thesis by (cases "te_Executor e") (auto intro: refused direct)
    qed
  next
    case (Some r)
    with assms have m: "maybeStartRunnerTrigger e tenant req b = (b', Some reply)"
      by (auto simp: startTriggerRequest_def split: prod.splits)
    from Some have d: "te_Dispatcher e" by (auto simp: maybeStartRunnerTrigger_def split: if_splits)
    show ?thesis
    proof (cases "resolveRunnerForTrigger tenant req (be_Db b)")
      case (Inl err)
      with runner_err obtain c m where "err = WriteError c m" by blast
      with Inl m d show ?thesis by (auto simp: maybeStartRunnerTrigger_def intro: refused)
    next
      case (Inr ro)
      with m d obtain r where ro: "ro = Some r" by (cases ro) (auto simp: maybeStartRunnerTrigger_def)
      show ?thesis
      proof (cases "resolveRunnerTriggerProvider e req r")
        case (Inl err)
        with provider_err obtain c m where "err = WriteError c m" by blast
        with Inl Inr ro m d show ?thesis by (auto simp: maybeStartRunnerTrigger_def intro: refused)
      next
        case (Inr provider)
        let ?enq = "EnqueueJob (te_NewID e) (te_Now e) tenant (tr_Model req) provider (jobConfigOf req) (be_Db b)"
        note step = m [unfolded maybeStartRunnerTrigger_def enqueueRunnerTrigger_def]
        show ?thesis
        proof (cases ?enq)
          case (Inl err)
          with step \<open>resolveRunnerForTrigger tenant req (be_Db b) = Inr ro\<close> Inr ro d show ?thesis
            by (auto intro: refused)
        next
          case (Inr dj)
          then obtain db job where dj: "?enq = Inr (db, job)" by (cases dj) auto
          with step \<open>resolveRunnerForTrigger tenant req (be_Db b) = Inr ro\<close>
            \<open>resolveRunnerTriggerProvider e req r = Inr provider\<close> ro d EnqueueJob_Inr(1) [OF dj]
          show ?thesis by (auto intro: runner)
        qed
      qed
    qed
  qed
qed

section \<open>Properties\<close>

definition demo_request :: TriggerRequest where
  "demo_request = \<lparr>tr_Model = ''m'', tr_Provider = ''p'', tr_RunnerID = [], tr_ExecutionMode = [], tr_MCPServer = [],
     tr_ToolServer = ''k8s'', tr_ToolServerVersion = [], tr_SkillFile = [], tr_SkillID = [], tr_SkillVersion = [],
     tr_SkillSource = [], tr_SkillSHA256 = [], tr_Scenarios = [''a'', ''b'']\<rparr>"

definition demo_env :: TriggerEnv where
  "demo_env = \<lparr>te_Dispatcher = True, te_Executor = False, te_Resolve = (\<lambda>_. None), te_Getenv = (\<lambda>_. []),
     te_NewID = ''new'', te_Now = 7\<rparr>"

definition demo_bench :: Bench where
  "demo_bench = \<lparr>be_Db = q_Db demo_abandoned, be_Triggers = NewTriggerStore\<rparr>"

text \<open>
  C30: A trigger request either is refused and leaves both stores as they were, or it is accepted and
  creates exactly one pending job under the new identifier: in the store always, and in the job
  table exactly when a runner takes it.
\<close>

theorem trigger_is_atomic:
  assumes "handleTrigger e tenant body b = (b', reply)"
  shows "(\<exists>code msg. reply = WriteError code msg \<and> b' = b) \<or>
    (\<exists>req provider. decodeTriggerRequest body = Inr req \<and>
       be_Triggers b' = Create (triggerJobOf (te_NewID e) (te_Now e) provider req) (be_Triggers b) \<and>
       (reply = Accepted (te_NewID e) ''pending'' [] \<and> be_Db b' = be_Db b \<or>
        reply = Accepted (te_NewID e) ''pending'' ''runner'' \<and>
        (\<exists>job. EnqueueJob (te_NewID e) (te_Now e) tenant (tr_Model req) provider (jobConfigOf req) (be_Db b) =
           Inr (be_Db b', job))))"
proof (cases "decodeTriggerRequest body")
  case (Inl err)
  then have "\<exists>c m. err = WriteError c m"
    by (auto simp: decodeTriggerRequest_def split: option.splits if_splits)
  with Inl assms show ?thesis by (auto simp: handleTrigger_def)
next
  case (Inr req)
  with assms have "startTriggerRequest e tenant req b = (b', reply)" by (simp add: handleTrigger_def)
  then show ?thesis using Inr by (cases rule: startTriggerRequest_cases) blast+
qed

theorem trigger_is_atomic_witness:
  "\<exists>b' job. handleTrigger demo_env ''t'' (Some demo_request) demo_bench = (b', Accepted ''new'' ''pending'' ''runner'') \<and>
     Get ''new'' (be_Triggers b') = Some job"
proof -
  obtain b' where h: "handleTrigger demo_env ''t'' (Some demo_request) demo_bench = (b', Accepted ''new'' ''pending'' ''runner'')"
  proof -
    have "snd (handleTrigger demo_env ''t'' (Some demo_request) demo_bench) = Accepted ''new'' ''pending'' ''runner''"
      by code_simp
    then show ?thesis using that by (metis prod.collapse)
  qed
  from trigger_is_atomic [OF h] h show ?thesis
    by (auto simp: Get_def Create_def triggerJobOf_def demo_env_def)
qed

text \<open>
  A restart loses no trigger. After a runner trigger was enqueued, a server that lost its
  in-memory store answers the status request of the tenant from the job table with the very job the
  store held.
\<close>

theorem restart_restores_trigger:
  assumes "decodeTriggerRequest body = Inr req" and "enqueueRunnerTrigger e tenant req provider b = Inr (b', i)"
  shows "\<exists>b'' job. handleTriggerStatus tenant i (b'\<lparr>be_Triggers := NewTriggerStore\<rparr>) = (b'', Snapshot job) \<and>
    Get i (be_Triggers b') = Some job \<and> Get i (be_Triggers b'') = Some job"
proof -
  from assms(2) obtain db job where enq:
    "EnqueueJob (te_NewID e) (te_Now e) tenant (tr_Model req) provider (jobConfigOf req) (be_Db b) = Inr (db, job)"
    and b': "b' = b\<lparr>be_Db := db,
        be_Triggers := Create (triggerJobOf (bj_ID job) (te_Now e) provider req) (be_Triggers b)\<rparr>" "i = bj_ID job"
    by (auto simp: enqueueRunnerTrigger_def split: sum.splits)
  note e = EnqueueJob_Inr [OF enq]
  have "GetJob tenant i db = Some job"
    using e b'(2) unfolding GetJob_def by (auto intro!: find_fresh) (metis imageI)
  moreover have "triggerJobFromBenchJob job = triggerJobOf i (te_Now e) provider req"
    using restored_trigger [OF enq decoded_mode [OF assms(1)]] e(1) b'(2) by simp
  ultimately show ?thesis
    by (simp add: b' handleTriggerStatus_def restoreTriggerJobFromPersistentJob_def Get_def Create_def
        NewTriggerStore_def triggerJobOf_def Let_def)
qed


theorem restart_restores_trigger_witness:
  "\<exists>b' b'' job. enqueueRunnerTrigger demo_env ''t'' (demo_request\<lparr>tr_ExecutionMode := ''provider''\<rparr>) ''p'' demo_bench = Inr (b', ''new'') \<and>
     handleTriggerStatus ''t'' ''new'' (b'\<lparr>be_Triggers := NewTriggerStore\<rparr>) = (b'', Snapshot job) \<and>
     Get ''new'' (be_Triggers b') = Some job"
proof -
  let ?req = "demo_request\<lparr>tr_ExecutionMode := ''provider''\<rparr>"
  have d: "decodeTriggerRequest (Some demo_request) = Inr ?req" by code_simp
  have "''new'' \<notin> set (map bj_ID (db_Jobs (q_Db demo_abandoned)))" by code_simp
  then obtain b' where b': "enqueueRunnerTrigger demo_env ''t'' ?req ''p'' demo_bench = Inr (b', ''new'')"
    by (auto simp: enqueueRunnerTrigger_def EnqueueJob_def demo_env_def demo_bench_def Let_def)
  from restart_restores_trigger [OF d b'] b' show ?thesis by blast
qed

text \<open>
  A completion is accepted only from the runner that owns the job, and then the table and the
  store agree on it. The request never panics in a reachable store; when it is answered with no
  content, the job of the tenant is owned by that runner and has the reported status and counts in
  the table, and the trigger job, if the store has one, shows the same; any other answer leaves both
  stores as they were.
\<close>

theorem completion_agrees:
  assumes "trigger_reachable (be_Triggers b)"
  shows "\<exists>b' reply. handleCompleteJob now tenant i body b = Some (b', reply) \<and>
    (if reply = NoContent then
       \<exists>req. body = Some req \<and> cq_Status req \<in> {''completed'', ''failed''} \<and>
         (\<exists>row\<in>set (db_Jobs (be_Db b')). bj_ID row = i \<and> bj_TenantID row = tenant \<and>
            bj_InfraID row = Some (cq_RunnerID req) \<and> bj_Status row = cq_Status req \<and>
            bj_Passed row = cq_Passed req \<and> bj_Failed row = cq_Failed req) \<and>
         (\<forall>job. Get i (be_Triggers b') = Some job \<longrightarrow> tj_Status job = cq_Status req \<and>
            tj_Passed job = cq_Passed req \<and> tj_Failed job = cq_Failed req \<and> terminal job)
     else b' = b)"
proof (cases body)
  case None
  then show ?thesis by (simp add: handleCompleteJob_def)
next
  case (Some req)
  note h = handleCompleteJob_def [of now tenant i "Some req" b]
  let ?c = "CompleteJob now tenant (cq_RunnerID req) i (cq_Status req) (cq_Passed req) (cq_Failed req) (cq_Message req) (be_Db b)"
  show ?thesis
  proof (cases "cq_Status req \<in> {''completed'', ''failed''} \<and> cq_RunnerID req \<noteq> []")
    case False
    then show ?thesis using Some h by auto
  next
    case ok: True
    show ?thesis
    proof (cases ?c)
      case (Inl err)
      then show ?thesis using Some h ok by (cases err) auto
    next
      case (Inr db)
      from completed_store [OF assms, of "cq_Status req" i "cq_Passed req" "cq_Failed req"] ok obtain ts k where
        ts: "Complete i (cq_Status req) (cq_Passed req) (cq_Failed req) (be_Triggers b) = Some (ts, k)"
          "\<forall>job. Get i ts = Some job \<longrightarrow> tj_Status job = cq_Status req \<and> tj_Passed job = cq_Passed req \<and>
             tj_Failed job = cq_Failed req \<and> terminal job" by blast
      note completed_row [OF Inr]
      moreover have "handleCompleteJob now tenant i body b = Some (\<lparr>be_Db = db, be_Triggers = ts\<rparr>, NoContent)"
        using Some h ok Inr ts(1) by auto
      ultimately show ?thesis using Some ok ts(2) by auto
    qed
  qed
qed


definition demo_complete :: CompleteRequest where
  "demo_complete = \<lparr>cq_RunnerID = ''r2'', cq_Status = ''completed'', cq_Passed = 1, cq_Failed = 0, cq_Message = []\<rparr>"

lemma NewTriggerStore_reachable: "trigger_reachable NewTriggerStore"
  by (rule reachable_init) simp

theorem completion_agrees_witness:
  "\<exists>b'. handleCompleteJob 9 ''t'' ''j'' (Some demo_complete) \<lparr>be_Db = q_Db demo_history, be_Triggers = NewTriggerStore\<rparr> =
      Some (b', NoContent) \<and> (\<exists>row\<in>set (db_Jobs (be_Db b')). bj_Status row = ''completed'')"
proof -
  let ?b = "\<lparr>be_Db = q_Db demo_history, be_Triggers = NewTriggerStore\<rparr>"
  have "map_option snd (handleCompleteJob 9 ''t'' ''j'' (Some demo_complete) ?b) = Some NoContent" by code_simp
  then obtain b' where b': "handleCompleteJob 9 ''t'' ''j'' (Some demo_complete) ?b = Some (b', NoContent)" by auto
  have "trigger_reachable (be_Triggers ?b)" using NewTriggerStore_reachable by simp
  from completion_agrees [OF this, of 9 "''t''" "''j''" "Some demo_complete"] b' show ?thesis
    by (auto simp: demo_complete_def)
qed

section \<open>What the handlers do not ensure\<close>

text \<open>
  The status request reads the store before the table, and the store knows no tenants: whoever
  knows the identifier of a job in the store sees it.
\<close>

lemma status_ignores_tenant:
  assumes "Get i (be_Triggers b) = Some job"
  shows "handleTriggerStatus tenant i b = (b, Snapshot job)"
  using assms by (simp add: handleTriggerStatus_def)

text \<open>
  The table keeps counts, not outcomes per scenario. Restoring a job marks the first scenarios as
  passed; when the second of two passed and the first fails after a restart, the restored job ends
  with no scenario passed.
\<close>

lemma restore_misattributes_outcomes:
  "map sp_Status (scenarioProgressFromBenchJob [''a'', ''b''] 1 0) = [''passed'', ''pending''] \<and>
   tj_Passed (updateJob \<lparr>pu_ContractVersion = [], pu_JobID = ''j'', pu_Scenario = ''a'', pu_Status = ''failed'',
       pu_RunID = [], pu_Completed = 2, pu_Total = 2\<rparr>
     ((triggerJobOf ''j'' 0 [] demo_request)\<lparr>tj_Passed := 1, tj_Completed := 1,
        tj_Progress := scenarioProgressFromBenchJob [''a'', ''b''] 1 0\<rparr>)) = 0"
  by code_simp

text \<open>
  A trigger is enqueued before its job is put into the store. Progress that arrives in between goes
  to a restored job, which the later creation overwrites.
\<close>

lemma late_create_forgets_progress:
  "Get (tj_ID job) (Create job s) = Some job"
  by (simp add: Get_def Create_def)

end
