(* ===== verification/Go_Json.thy ===== *)
theory Go_Json
  imports Complex_Main Go_Prelude
begin

text \<open>
  JSON documents as \<^verbatim>\<open>encoding/json\<close> sees them. A \<^verbatim>\<open>json.RawMessage\<close> that holds valid JSON is
  a \<open>json\<close> tree in text order, so an object keeps the order and the repetitions of its keys;
  bytes that are absent or do not decode are \<open>None\<close> of \<open>json option\<close>. Decoding into
  \<^verbatim>\<open>any\<close> gives Go maps, for which the last occurrence of a key wins: that is \<open>jget\<close>.
  A number is the rational value of the \<^verbatim>\<open>float64\<close> it decodes to.

  \<^verbatim>\<open>json.Marshal\<close> prints a decoded value with the keys of every map sorted. Two values print
  the same text exactly when their canonical trees \<open>jcanon\<close> are equal, so the marshalled
  bytes of a value are represented by its canonical tree.
\<close>

datatype json =
    JNull
  | JBool bool
  | JNum rat
  | JStr string
  | JArr "json list"
  | JObj "(string \<times> json) list"

type_synonym raw = "json option"

definition jget :: "(string \<times> json) list \<Rightarrow> string \<Rightarrow> json option" where
  "jget kvs k = map_of (rev kvs) k"

definition jdel :: "string \<Rightarrow> (string \<times> json) list \<Rightarrow> (string \<times> json) list" where
  "jdel k kvs = filter (\<lambda>kv. fst kv \<noteq> k) kvs"

definition jset :: "string \<Rightarrow> json \<Rightarrow> (string \<times> json) list \<Rightarrow> (string \<times> json) list" where
  "jset k v kvs = jdel k kvs @ [(k, v)]"

definition as_string :: "json option \<Rightarrow> string" where
  "as_string v = (case v of Some (JStr s) \<Rightarrow> s | _ \<Rightarrow> [])"

definition canon_fields :: "(string \<times> json) list \<Rightarrow> (string \<times> json) list" where
  "canon_fields kvs = map (\<lambda>k. (k, the (jget kvs k))) (sort (remdups (map fst kvs)))"

fun jcanon :: "json \<Rightarrow> json" where
  "jcanon (JArr xs) = JArr (map jcanon xs)"
| "jcanon (JObj kvs) = JObj (canon_fields (map (\<lambda>(k, v). (k, jcanon v)) kvs))"
| "jcanon j = j"

text \<open>
  Decoding an object into a struct with a \<^verbatim>\<open>string\<close> field named \<open>f\<close>: keys match the field
  name without regard to case, a later match overwrites an earlier one, \<^verbatim>\<open>null\<close> leaves the
  field unchanged, and any other value is a decode error (\<open>None\<close>).
\<close>

fun field_string :: "string \<Rightarrow> string \<Rightarrow> (string \<times> json) list \<Rightarrow> string option" where
  "field_string f cur [] = Some cur"
| "field_string f cur ((k, v) # kvs) =
     (if equal_fold k f then
        (case v of JStr s \<Rightarrow> field_string f s kvs
                 | JNull \<Rightarrow> field_string f cur kvs
                 | _ \<Rightarrow> None)
      else field_string f cur kvs)"

text \<open>The same for a field of type \<^verbatim>\<open>json.RawMessage\<close>, which takes any value as it is.\<close>

fun field_raw :: "string \<Rightarrow> raw \<Rightarrow> (string \<times> json) list \<Rightarrow> raw" where
  "field_raw f cur [] = cur"
| "field_raw f cur ((k, v) # kvs) = field_raw f (if equal_fold k f then Some v else cur) kvs"

section \<open>Facts\<close>

lemma jget_Nil [simp]: "jget [] k = None"
  by (simp add: jget_def)

lemma jget_append: "jget (xs @ ys) k = (case jget ys k of None \<Rightarrow> jget xs k | Some v \<Rightarrow> Some v)"
  by (simp add: jget_def map_add_def split: option.splits)

lemma jget_Cons: "jget ((k', v) # kvs) k =
    (case jget kvs k of None \<Rightarrow> (if k = k' then Some v else None) | Some w \<Rightarrow> Some w)"
  by (simp add: jget_def map_add_def split: option.splits)

lemma jget_None_iff: "jget kvs k = None \<longleftrightarrow> k \<notin> fst ` set kvs"
  by (simp add: jget_def map_of_eq_None_iff)

lemma jget_SomeD: "jget kvs k = Some v \<Longrightarrow> (k, v) \<in> set kvs"
  by (auto simp: jget_def dest: map_of_SomeD)

lemma jget_size [termination_simp]: "jget kvs k = Some v \<Longrightarrow> size v < size (JObj kvs)"
proof -
  assume "jget kvs k = Some v"
  then have "(k, v) \<in> set kvs" by (rule jget_SomeD)
  then show ?thesis by (induction kvs) (auto simp: less_Suc_eq_le trans_le_add2)
qed

lemma jget_map: "jget (map (\<lambda>(k, v). (k, f v)) kvs) k = map_option f (jget kvs k)"
  by (induction kvs) (auto simp: jget_Cons split: option.splits)

lemma jget_jdel: "jget (jdel k' kvs) k = (if k = k' then None else jget kvs k)"
  by (induction kvs) (auto simp: jdel_def jget_Cons split: option.splits)

lemma jget_jset: "jget (jset k' v kvs) k = (if k = k' then Some v else jget kvs k)"
  by (auto simp: jset_def jget_append jget_Cons jget_jdel split: option.splits)

lemma map_fst_canon_fields: "map fst (canon_fields kvs) = sort (remdups (map fst kvs))"
  by (simp add: canon_fields_def comp_def)

lemma distinct_canon_fields: "distinct (map fst (canon_fields kvs))"
  by (simp add: map_fst_canon_fields)

lemma sorted_canon_fields: "sorted (map fst (canon_fields kvs))"
  by (simp add: map_fst_canon_fields)

lemma jget_graph:
  "jget (map (\<lambda>k. (k, g k)) ks) k = (if k \<in> set ks then Some (g k) else None)"
  by (induction ks) (auto simp: jget_Cons split: option.splits)

lemma jget_canon_fields: "jget (canon_fields kvs) k = jget kvs k"
  using jget_None_iff [of kvs k] by (auto simp: canon_fields_def jget_graph)

text \<open>
  A canonical field list is determined by its lookups: marshalling forgets exactly the order
  in which a Go map was filled.
\<close>

lemma canon_fields_cong:
  assumes "\<And>k. jget xs k = jget ys k"
  shows "canon_fields xs = canon_fields ys"
proof -
  have "set (map fst xs) = set (map fst ys)"
    using assms jget_None_iff by (metis image_set set_eqI)
  then have "sort (remdups (map fst xs)) = sort (remdups (map fst ys))"
    by (metis sorted_list_of_set_sort_remdups)
  with assms show ?thesis by (simp add: canon_fields_def)
qed

lemma canon_fields_idem: "canon_fields (canon_fields kvs) = canon_fields kvs"
  by (rule canon_fields_cong) (simp add: jget_canon_fields)

lemma canon_fields_eq_iff: "canon_fields xs = canon_fields ys \<longleftrightarrow> (\<forall>k. jget xs k = jget ys k)"
  using canon_fields_cong jget_canon_fields by metis

lemma jcanon_JObj_eq_iff:
  "jcanon (JObj xs) = jcanon (JObj ys) \<longleftrightarrow>
     (\<forall>k. map_option jcanon (jget xs k) = map_option jcanon (jget ys k))"
  by (simp add: canon_fields_eq_iff jget_map)

lemma canon_fields_values: "(k, v) \<in> set (canon_fields kvs) \<Longrightarrow> jget kvs k = Some v"
  using jget_None_iff [of kvs k] by (force simp: canon_fields_def)

lemma jcanon_idem [simp]: "jcanon (jcanon j) = jcanon j"
proof (induction j rule: jcanon.induct)
  case (2 kvs)
  let ?c = "map (\<lambda>(k, v). (k, jcanon v)) kvs"
  have "jcanon v = v" if "jget ?c k = Some v" for k v
  proof -
    from that obtain w where w: "jget kvs k = Some w" "v = jcanon w"
      by (auto simp: jget_map)
    with 2 show ?thesis using jget_SomeD by fastforce
  qed
  then have "map_option jcanon (jget ?c k) = jget ?c k" for k
    by (cases "jget ?c k") auto
  then have "canon_fields (map (\<lambda>(k, v). (k, jcanon v)) (canon_fields ?c)) = canon_fields ?c"
    by (subst canon_fields_eq_iff) (simp add: jget_map jget_canon_fields del: map_map)
  then show ?case by simp
qed auto

lemma jcanon_eq_JNull [simp]: "jcanon j = JNull \<longleftrightarrow> j = JNull"
  by (cases j) auto

end
