(* ===== verification/Evidence_Chain.thy ===== *)
theory Evidence_Chain
  imports Go_Json
begin

text \<open>
  \<^verbatim>\<open>pkg/evidrawire\<close>: the signed, hash-chained evidence bundle a run is exported to. The theory has
  digests (\<^verbatim>\<open>entry_builder.go\<close>, \<^verbatim>\<open>digest.go\<close>, \<^verbatim>\<open>canonical.go\<close>), entries and their hashes
  (\<^verbatim>\<open>entry.go\<close>, \<^verbatim>\<open>entry_builder.go\<close>), the writer (\<^verbatim>\<open>writer.go\<close>), the manifest (\<^verbatim>\<open>bundle.go\<close>,
  \<^verbatim>\<open>cohort.go\<close>) and the verifier (\<^verbatim>\<open>verify.go\<close>).

  The cryptographic functions and the JSON and base64 codecs are the fields of a record
  \<open>WireLib\<close>; the bundle directory is a record of its files. A segment file is the list of its
  lines. What the codecs and signatures promise is stated where a theorem needs it.
\<close>

section \<open>Digests\<close>

definition is_hex :: "char \<Rightarrow> bool" where
  "is_hex c \<longleftrightarrow> (let n = (of_char c :: nat) in 48 \<le> n \<and> n \<le> 57 \<or> 65 \<le> n \<and> n \<le> 70 \<or> 97 \<le> n \<and> n \<le> 102)"

text \<open>\<open>Inl\<close> is the error; the message repeats the input.\<close>

definition FormatDigest :: "string \<Rightarrow> (string, string) result" where
  "FormatDigest d =
     (let trimmed = trim_space d; err = ''invalid digest '' @ d @ '': expected sha256:<64 hex>'' in
      if trimmed = [] then Inr []
      else if str_contains trimmed '':'' \<and> \<not> equal_fold (fst (cut_at CHR '':'' trimmed)) ''sha256'' then Inl err
      else
        (let hexPart = (if str_contains trimmed '':'' then fst (snd (cut_at CHR '':'' trimmed)) else trimmed) in
         if length hexPart \<noteq> 64 then Inl err
         else if \<not> list_all is_hex hexPart then Inl err
         else Inr (''sha256:'' @ to_lower hexPart)))"

section \<open>Entries\<close>

datatype EntryType =
    EntryTypePrescribe | EntryTypeReport | EntryTypeFinding | EntryTypeSignal | EntryTypeReceipt
  | EntryTypeCanonFailure | EntryTypeSessionStart | EntryTypeSessionEnd | EntryTypeAnnotation
  | EntryTypeOther string

definition EntryTypeValid :: "EntryType \<Rightarrow> bool" where
  "EntryTypeValid t = (case t of EntryTypeOther _ \<Rightarrow> False | _ \<Rightarrow> True)"

record Actor =
  ac_Type :: string
  ac_ID :: string
  ac_Provenance :: string
  ac_InstanceID :: string
  ac_Version :: string
  ac_SkillVersion :: string

text \<open>The fields that are hashed; \<open>EvidenceEntry\<close> extends them by the hash and the signature.\<close>

record hashableEntry =
  en_EntryID :: string
  en_PreviousHash :: string
  en_Type :: EntryType
  en_TenantID :: string
  en_SessionID :: string
  en_OperationID :: string
  en_Attempt :: int
  en_TraceID :: string
  en_SpanID :: string
  en_ParentSpanID :: string
  en_Actor :: Actor
  en_Timestamp :: int
  en_IntentDigest :: string
  en_ArtifactDigest :: string
  en_Payload :: raw
  en_ScopeDimensions :: "(string \<times> string) list"
  en_SpecVersion :: string
  en_CanonVersion :: string
  en_AdapterVersion :: string
  en_ScoringVersion :: string

record EvidenceEntry =
  ee_Body :: hashableEntry
  ee_Hash :: string
  ee_Signature :: string

record EntryBuildParams =
  ep_EntryID :: string
  ep_Type :: EntryType
  ep_TenantID :: string
  ep_SessionID :: string
  ep_OperationID :: string
  ep_Attempt :: int
  ep_TraceID :: string
  ep_SpanID :: string
  ep_ParentSpanID :: string
  ep_Actor :: Actor
  ep_IntentDigest :: string
  ep_ArtifactDigest :: string
  ep_Payload :: raw
  ep_PreviousHash :: string
  ep_ScopeDimensions :: "(string \<times> string) list"
  ep_SpecVersion :: string
  ep_CanonVersion :: string
  ep_AdapterVersion :: string
  ep_ScoringVersion :: string

record Signer =
  sg_Sign :: "string \<Rightarrow> string"
  sg_PublicKey :: string

record WireLib =
  wl_Marshal :: "hashableEntry \<Rightarrow> string option"
  wl_Sha256 :: "string \<Rightarrow> string"
  wl_Verify :: "string \<Rightarrow> string \<Rightarrow> string \<Rightarrow> bool"
  wl_B64Encode :: "string \<Rightarrow> string"
  wl_B64Decode :: "string \<Rightarrow> string option"
  wl_EncodeEntry :: "EvidenceEntry \<Rightarrow> string"
  wl_DecodeEntry :: "string \<Rightarrow> EvidenceEntry option"
  wl_RFC3339 :: "int \<Rightarrow> string"

datatype build_error =
    SignerRequired | InvalidEntryType | InvalidIntentDigest | InvalidArtifactDigest | HashFailed

definition SHA256Hex :: "WireLib \<Rightarrow> string \<Rightarrow> string" where
  "SHA256Hex L bs = ''sha256:'' @ wl_Sha256 L bs"

definition computeEntryHash :: "WireLib \<Rightarrow> EvidenceEntry \<Rightarrow> string option" where
  "computeEntryHash L e = map_option (SHA256Hex L) (wl_Marshal L (ee_Body e))"

definition BuildEntry ::
  "WireLib \<Rightarrow> string \<Rightarrow> int \<Rightarrow> Signer option \<Rightarrow> EntryBuildParams \<Rightarrow> (build_error, EvidenceEntry) result" where
  "BuildEntry L ulid now signer p = (case signer of
     None \<Rightarrow> Inl SignerRequired
   | Some sg \<Rightarrow>
       if \<not> EntryTypeValid (ep_Type p) then Inl InvalidEntryType
       else (case FormatDigest (ep_IntentDigest p) of
           Inl _ \<Rightarrow> Inl InvalidIntentDigest
         | Inr intentDigest \<Rightarrow> (case FormatDigest (ep_ArtifactDigest p) of
             Inl _ \<Rightarrow> Inl InvalidArtifactDigest
           | Inr artifactDigest \<Rightarrow>
               (let body = \<lparr>en_EntryID = (if ep_EntryID p = [] then ulid else ep_EntryID p),
                      en_PreviousHash = ep_PreviousHash p, en_Type = ep_Type p, en_TenantID = ep_TenantID p,
                      en_SessionID = ep_SessionID p, en_OperationID = ep_OperationID p, en_Attempt = ep_Attempt p,
                      en_TraceID = ep_TraceID p, en_SpanID = ep_SpanID p, en_ParentSpanID = ep_ParentSpanID p,
                      en_Actor = ep_Actor p, en_Timestamp = now, en_IntentDigest = intentDigest,
                      en_ArtifactDigest = artifactDigest, en_Payload = ep_Payload p,
                      en_ScopeDimensions = ep_ScopeDimensions p, en_SpecVersion = ep_SpecVersion p,
                      en_CanonVersion = ep_CanonVersion p, en_AdapterVersion = ep_AdapterVersion p,
                      en_ScoringVersion = ep_ScoringVersion p\<rparr>;
                    entry = \<lparr>ee_Body = body, ee_Hash = [], ee_Signature = []\<rparr> in
                case computeEntryHash L entry of
                  None \<Rightarrow> Inl HashFailed
                | Some hash \<Rightarrow>
                    Inr (entry\<lparr>ee_Hash := hash, ee_Signature := wl_B64Encode L (sg_Sign sg hash)\<rparr>)))))"

section \<open>The bundle directory\<close>

record BundleProducer =
  bp_Name :: string
  bp_Version :: string
  bp_URL :: string

record BundleManifest =
  bm_Spec :: string
  bm_Producer :: BundleProducer
  bm_TrustLevel :: string
  bm_PublicKey :: string
  bm_CreatedAt :: string
  bm_Notes :: string
  bm_SemanticsVersion :: string

record StoreManifest =
  sm_Format :: string
  sm_CreatedAt :: string
  sm_UpdatedAt :: string
  sm_SegmentsDir :: string
  sm_CurrentSegment :: string
  sm_SealedSegments :: "string list"
  sm_SegmentMaxBytes :: int
  sm_RecordsTotal :: nat
  sm_LastHash :: string
  sm_Notes :: string

text \<open>
  The files under the root of a bundle: the segments by file name, \<^verbatim>\<open>manifest.json\<close> and \<^verbatim>\<open>bundle.json\<close>, the last
  of which may be missing or unreadable.
\<close>

datatype 'a disk_file = Missing | Unreadable | Content 'a

record BundleDir =
  bd_Segments :: "(string \<times> string list) list"
  bd_Store :: "StoreManifest option"
  bd_Bundle :: "BundleManifest disk_file"

definition BundleSpecV1 :: string where
  "BundleSpecV1 = ''evidra-external-bundle/v1''"

definition TrustEphemeral :: string where
  "TrustEphemeral = ''ephemeral''"

definition CohortLegacyPreview :: string where
  "CohortLegacyPreview = ''preview-v1''"

definition Cohort :: "BundleManifest \<Rightarrow> string" where
  "Cohort m = (if trim_space (bm_SemanticsVersion m) = [] then CohortLegacyPreview
     else trim_space (bm_SemanticsVersion m))"

definition IsLegacy :: "string \<Rightarrow> bool" where
  "IsLegacy c \<longleftrightarrow> c = CohortLegacyPreview"

definition parseBundlePublicKey :: "WireLib \<Rightarrow> string \<Rightarrow> string option" where
  "parseBundlePublicKey L b64 = (case wl_B64Decode L b64 of
     None \<Rightarrow> None
   | Some key \<Rightarrow> if length key \<noteq> 32 then None else Some key)"

datatype wire_error =
    WireBuild build_error
  | IdsRequired
  | AlreadyExists
  | SegmentTooLarge
  | SpecRequired
  | BadPublicKey
  | NotABundle
  | ManifestUnreadable
  | UnsupportedSpec
  | NoSegments
  | ManySegments
  | LineTooLong
  | ParseEntry
  | EmptyChain
  | FirstHasPrevious nat
  | PreviousMismatch nat
  | HashError nat
  | HashMismatch nat
  | BadSignatureEncoding nat
  | SignatureFailed nat
  | ClosedSegment

definition SaveBundleManifest :: "WireLib \<Rightarrow> int \<Rightarrow> BundleManifest \<Rightarrow> BundleDir \<Rightarrow> (wire_error, BundleDir) result" where
  "SaveBundleManifest L now m dir =
     (if bm_Spec m = [] then Inl SpecRequired
      else
        (let m' = (if bm_CreatedAt m = [] then m\<lparr>bm_CreatedAt := wl_RFC3339 L now\<rparr> else m) in
         case parseBundlePublicKey L (bm_PublicKey m') of
           None \<Rightarrow> Inl BadPublicKey
         | Some _ \<Rightarrow> Inr (dir\<lparr>bd_Bundle := Content m'\<rparr>)))"

section \<open>The writer\<close>

record BundleWriter =
  bw_SessionID :: string
  bw_TraceID :: string
  bw_Adapter :: string
  bw_Signer :: Signer
  bw_Semantics :: string
  bw_Prev :: string
  bw_Count :: nat
  bw_Lines :: "string list"
  bw_Open :: bool
  bw_Created :: int

definition writerSpecVersion :: string where
  "writerSpecVersion = ''v1.1.0''"

definition writerCanonVersion :: string where
  "writerCanonVersion = ''v1''"

definition defaultSegmentMaxBytes :: int where
  "defaultSegmentMaxBytes = 5000000"

definition NewBundleWriter ::
  "int \<Rightarrow> string \<Rightarrow> string \<Rightarrow> string \<Rightarrow> Signer \<Rightarrow> string \<Rightarrow> BundleDir \<Rightarrow> (wire_error, BundleWriter) result" where
  "NewBundleWriter now session trace adapter sg semantics dir =
     (if session = [] \<or> trace = [] then Inl IdsRequired
      else if bd_Bundle dir \<noteq> Missing then Inl AlreadyExists
      else Inr \<lparr>bw_SessionID = session, bw_TraceID = trace, bw_Adapter = adapter, bw_Signer = sg,
                bw_Semantics = trim_space semantics, bw_Prev = [], bw_Count = 0, bw_Lines = [],
                bw_Open = True, bw_Created = now\<rparr>)"

definition orDefault :: "string \<Rightarrow> string \<Rightarrow> string" where
  "orDefault x d = (if x = [] then d else x)"

definition appendParams :: "BundleWriter \<Rightarrow> EntryBuildParams \<Rightarrow> EntryBuildParams" where
  "appendParams w p = p\<lparr>ep_SessionID := orDefault (ep_SessionID p) (bw_SessionID w),
     ep_TraceID := orDefault (ep_TraceID p) (bw_TraceID w),
     ep_SpecVersion := orDefault (ep_SpecVersion p) writerSpecVersion,
     ep_AdapterVersion := orDefault (ep_AdapterVersion p) (bw_Adapter w),
     ep_CanonVersion := orDefault (ep_CanonVersion p) writerCanonVersion,
     ep_PreviousHash := bw_Prev w\<rparr>"

text \<open>Writing to a segment that was closed fails.\<close>

definition Append ::
  "WireLib \<Rightarrow> string \<Rightarrow> int \<Rightarrow> EntryBuildParams \<Rightarrow> BundleWriter \<Rightarrow> (wire_error, BundleWriter \<times> EvidenceEntry) result" where
  "Append L ulid now p w =
     (case BuildEntry L ulid now (Some (bw_Signer w)) (appendParams w p) of
        Inl err \<Rightarrow> Inl (WireBuild err)
      | Inr entry \<Rightarrow>
          if \<not> bw_Open w then Inl ClosedSegment
          else Inr (w\<lparr>bw_Lines := bw_Lines w @ [wl_EncodeEntry L entry], bw_Prev := ee_Hash entry,
                      bw_Count := Suc (bw_Count w)\<rparr>, entry))"

definition segmentSize :: "string list \<Rightarrow> int" where
  "segmentSize ls = int (sum_list (map (\<lambda>l. length l + 1) ls))"

definition defaultSegmentName :: string where
  "defaultSegmentName = ''evidence-000001.jsonl''"

text \<open>Creating the segment replaces a file of that name and leaves the others in the directory.\<close>

definition writeSegment :: "string list \<Rightarrow> (string \<times> string list) list \<Rightarrow> (string \<times> string list) list" where
  "writeSegment ls segs = (defaultSegmentName, ls) # filter (\<lambda>(n, _). n \<noteq> defaultSegmentName) segs"

definition storeManifest :: "WireLib \<Rightarrow> int \<Rightarrow> BundleWriter \<Rightarrow> StoreManifest" where
  "storeManifest L now w = \<lparr>sm_Format = ''evidra-evidence-manifest-v0.1'', sm_CreatedAt = wl_RFC3339 L (bw_Created w),
     sm_UpdatedAt = wl_RFC3339 L now, sm_SegmentsDir = ''segments'', sm_CurrentSegment = defaultSegmentName,
     sm_SealedSegments = [], sm_SegmentMaxBytes = defaultSegmentMaxBytes, sm_RecordsTotal = bw_Count w,
     sm_LastHash = bw_Prev w, sm_Notes = []\<rparr>"

definition bundleManifest :: "WireLib \<Rightarrow> BundleProducer \<Rightarrow> string \<Rightarrow> BundleWriter \<Rightarrow> BundleManifest" where
  "bundleManifest L producer notes w = \<lparr>bm_Spec = BundleSpecV1, bm_Producer = producer, bm_TrustLevel = TrustEphemeral,
     bm_PublicKey = wl_B64Encode L (sg_PublicKey (bw_Signer w)), bm_CreatedAt = wl_RFC3339 L (bw_Created w),
     bm_Notes = notes, bm_SemanticsVersion = bw_Semantics w\<rparr>"

definition Close ::
  "WireLib \<Rightarrow> int \<Rightarrow> BundleProducer \<Rightarrow> string \<Rightarrow> BundleWriter \<Rightarrow> BundleDir \<Rightarrow> (wire_error, BundleDir) result" where
  "Close L now producer notes w dir =
     (if segmentSize (bw_Lines w) > defaultSegmentMaxBytes then Inl SegmentTooLarge
      else SaveBundleManifest L now (bundleManifest L producer notes w)
             (dir\<lparr>bd_Segments := writeSegment (bw_Lines w) (bd_Segments dir), bd_Store := Some (storeManifest L now w)\<rparr>))"

section \<open>The verifier\<close>

definition maxSegmentLine :: nat where
  "maxSegmentLine = 16777216"

fun decodeLines :: "WireLib \<Rightarrow> string list \<Rightarrow> (wire_error, EvidenceEntry list) result" where
  "decodeLines L [] = Inr []"
| "decodeLines L (l # ls) =
     (if length l \<ge> maxSegmentLine then Inl LineTooLong
      else if l = [] then decodeLines L ls
      else (case wl_DecodeEntry L l of
          None \<Rightarrow> Inl ParseEntry
        | Some e \<Rightarrow> (case decodeLines L ls of Inl err \<Rightarrow> Inl err | Inr es \<Rightarrow> Inr (e # es))))"

definition readSegmentEntries :: "WireLib \<Rightarrow> BundleDir \<Rightarrow> (wire_error, EvidenceEntry list) result" where
  "readSegmentEntries L dir = (case bd_Segments dir of
     [] \<Rightarrow> Inl NoSegments
   | [(_, ls)] \<Rightarrow> decodeLines L ls
   | _ \<Rightarrow> Inl ManySegments)"

fun verifyFrom :: "WireLib \<Rightarrow> string \<Rightarrow> nat \<Rightarrow> string \<Rightarrow> EvidenceEntry list \<Rightarrow> wire_error option" where
  "verifyFrom L pub i prev [] = None"
| "verifyFrom L pub i prev (e # es) =
     (if en_PreviousHash (ee_Body e) \<noteq> prev then Some (if i = 0 then FirstHasPrevious i else PreviousMismatch i)
      else (case computeEntryHash L e of
          None \<Rightarrow> Some (HashError i)
        | Some recomputed \<Rightarrow>
            if ee_Hash e \<noteq> recomputed then Some (HashMismatch i)
            else (case wl_B64Decode L (ee_Signature e) of
                None \<Rightarrow> Some (BadSignatureEncoding i)
              | Some sig \<Rightarrow>
                  if \<not> wl_Verify L pub (ee_Hash e) sig then Some (SignatureFailed i)
                  else verifyFrom L pub (Suc i) (ee_Hash e) es)))"

definition verifyEntries :: "WireLib \<Rightarrow> string \<Rightarrow> EvidenceEntry list \<Rightarrow> wire_error option" where
  "verifyEntries L pub es = (if es = [] then Some EmptyChain else verifyFrom L pub 0 [] es)"

definition VerifyBundle :: "WireLib \<Rightarrow> BundleDir \<Rightarrow> (wire_error, BundleManifest) result" where
  "VerifyBundle L dir = (case bd_Bundle dir of
     Missing \<Rightarrow> Inl NotABundle
   | Unreadable \<Rightarrow> Inl ManifestUnreadable
   | Content m \<Rightarrow>
       if bm_Spec m \<noteq> BundleSpecV1 then Inl UnsupportedSpec
       else (case parseBundlePublicKey L (bm_PublicKey m) of
           None \<Rightarrow> Inl BadPublicKey
         | Some pub \<Rightarrow> (case readSegmentEntries L dir of
             Inl err \<Rightarrow> Inl err
           | Inr es \<Rightarrow> (case verifyEntries L pub es of Some err \<Rightarrow> Inl err | None \<Rightarrow> Inr m))))"


section \<open>What the libraries promise\<close>

text \<open>Signatures made by the signer verify under its key, which has 32 bytes, and base64 decodes what it encodes.\<close>

definition sound_signer :: "WireLib \<Rightarrow> Signer \<Rightarrow> bool" where
  "sound_signer L sg \<longleftrightarrow> (\<forall>m. wl_Verify L (sg_PublicKey sg) m (sg_Sign sg m)) \<and>
     length (sg_PublicKey sg) = 32 \<and> (\<forall>x. wl_B64Decode L (wl_B64Encode L x) = Some x)"

text \<open>Encoded entries are not blank and decode to themselves.\<close>

definition sound_codec :: "WireLib \<Rightarrow> EvidenceEntry list \<Rightarrow> bool" where
  "sound_codec L es \<longleftrightarrow> (\<forall>e\<in>set es. wl_EncodeEntry L e \<noteq> [] \<and> wl_DecodeEntry L (wl_EncodeEntry L e) = Some e)"

text \<open>No two different entries of the given bundles have the same hash.\<close>

definition no_collisions :: "WireLib \<Rightarrow> EvidenceEntry set \<Rightarrow> bool" where
  "no_collisions L E \<longleftrightarrow> (\<forall>a\<in>E. \<forall>b\<in>E. \<forall>h. computeEntryHash L a = Some h \<longrightarrow> computeEntryHash L b = Some h \<longrightarrow>
     ee_Body a = ee_Body b)"

lemma distinct_no_collisions:
  "distinct (map (computeEntryHash L) es) \<Longrightarrow> no_collisions L (set es)"
  by (auto simp: no_collisions_def distinct_map inj_on_def)

section \<open>Chains\<close>

fun last_hash :: "string \<Rightarrow> EvidenceEntry list \<Rightarrow> string" where
  "last_hash prev [] = prev"
| "last_hash prev (e # es) = last_hash (ee_Hash e) es"

lemma last_hash_snoc [simp]: "last_hash prev (es @ [e]) = ee_Hash e"
  by (induction es arbitrary: prev) simp_all

text \<open>An entry that the verifier accepts after an entry with hash \<open>prev\<close>.\<close>

definition accepted :: "WireLib \<Rightarrow> string \<Rightarrow> string \<Rightarrow> EvidenceEntry \<Rightarrow> bool" where
  "accepted L pub prev e \<longleftrightarrow> en_PreviousHash (ee_Body e) = prev \<and> computeEntryHash L e = Some (ee_Hash e) \<and>
     (\<exists>sig. wl_B64Decode L (ee_Signature e) = Some sig \<and> wl_Verify L pub (ee_Hash e) sig)"

lemma verifyFrom_Cons:
  "verifyFrom L pub i prev (e # es) = None \<longleftrightarrow>
     accepted L pub prev e \<and> verifyFrom L pub (Suc i) (ee_Hash e) es = None"
  by (auto simp: accepted_def split: option.splits if_splits)

declare verifyFrom.simps(2) [simp del]

lemma verifyFrom_snoc:
  "verifyFrom L pub i prev (es @ [e]) = None \<longleftrightarrow>
     verifyFrom L pub i prev es = None \<and> accepted L pub (last_hash prev es) e"
  by (induction es arbitrary: i prev) (auto simp: verifyFrom_Cons)

lemma verifyEntries_snoc:
  "verifyEntries L pub (es @ [e]) = None \<longleftrightarrow> verifyFrom L pub 0 [] es = None \<and> accepted L pub (last_hash [] es) e"
  by (simp add: verifyEntries_def verifyFrom_snoc)

lemma hash_not_empty: "computeEntryHash L e = Some h \<Longrightarrow> h \<noteq> []"
  by (auto simp: computeEntryHash_def SHA256Hex_def)

text \<open>Chains with the same last hash have the same entries, from the end to the front.\<close>

lemma chain_unique:
  assumes cf: "no_collisions L E"
  shows "set es \<subseteq> E \<Longrightarrow> set fs \<subseteq> E \<Longrightarrow> verifyFrom L pub 0 [] es = None \<Longrightarrow> verifyFrom L pub' 0 [] fs = None \<Longrightarrow>
    last_hash [] es = last_hash [] fs \<Longrightarrow> map ee_Body es = map ee_Body fs"
proof (induction es arbitrary: fs rule: rev_induct)
  case Nil
  show ?case
  proof (cases fs rule: rev_cases)
    case (snoc gs g)
    with Nil.prems have "accepted L pub' (last_hash [] gs) g" "ee_Hash g = []" by (simp_all add: verifyFrom_snoc)
    then show ?thesis using hash_not_empty by (auto simp: accepted_def)
  qed simp
next
  case (snoc e es)
  note e = snoc.prems(3) [unfolded verifyFrom_snoc]
  show ?case
  proof (cases fs rule: rev_cases)
    case Nil
    with snoc.prems(5) have "ee_Hash e = []" by simp
    with e show ?thesis using hash_not_empty by (auto simp: accepted_def)
  next
    case gs: (snoc gs g)
    with snoc.prems(4) have g: "verifyFrom L pub' 0 [] gs = None" "accepted L pub' (last_hash [] gs) g"
      by (simp_all add: verifyFrom_snoc)
    from snoc.prems(5) gs have "ee_Hash e = ee_Hash g" by simp
    with e g(2) have "computeEntryHash L e = Some (ee_Hash g)" "computeEntryHash L g = Some (ee_Hash g)"
      by (simp_all add: accepted_def)
    moreover have "e \<in> E" "g \<in> E" using snoc.prems(1,2) gs by auto
    ultimately have body: "ee_Body e = ee_Body g" using cf unfolding no_collisions_def by blast
    with e g(2) have "last_hash [] es = last_hash [] gs" by (simp add: accepted_def)
    with snoc.IH [of gs] snoc.prems(1,2) gs e g(1) have "map ee_Body es = map ee_Body gs" by simp
    with gs body show ?thesis by simp
  qed
qed

section \<open>The writer builds chains\<close>

definition signed_by :: "WireLib \<Rightarrow> Signer \<Rightarrow> EvidenceEntry \<Rightarrow> bool" where
  "signed_by L sg e \<longleftrightarrow> computeEntryHash L e = Some (ee_Hash e) \<and> ee_Signature e = wl_B64Encode L (sg_Sign sg (ee_Hash e))"

lemma BuildEntry_Inr:
  assumes "BuildEntry L ulid now (Some sg) p = Inr e"
  shows "signed_by L sg e" and "en_PreviousHash (ee_Body e) = ep_PreviousHash p"
  using assms
  by (auto simp: BuildEntry_def signed_by_def computeEntryHash_def Let_def split: if_splits sum.splits option.splits)

lemma Append_Inr:
  assumes "Append L ulid now p w = Inr (w', e)"
  shows "signed_by L (bw_Signer w) e" and "en_PreviousHash (ee_Body e) = bw_Prev w"
    and "w' = w\<lparr>bw_Lines := bw_Lines w @ [wl_EncodeEntry L e], bw_Prev := ee_Hash e, bw_Count := Suc (bw_Count w)\<rparr>"
proof -
  from assms have b: "BuildEntry L ulid now (Some (bw_Signer w)) (appendParams w p) = Inr e"
    and w': "w' = w\<lparr>bw_Lines := bw_Lines w @ [wl_EncodeEntry L e], bw_Prev := ee_Hash e, bw_Count := Suc (bw_Count w)\<rparr>"
    by (auto simp: Append_def split: sum.splits if_splits)
  show "signed_by L (bw_Signer w) e" by (rule BuildEntry_Inr [OF b])
  show "en_PreviousHash (ee_Body e) = bw_Prev w" using BuildEntry_Inr(2) [OF b] by (simp add: appendParams_def)
  show "w' = w\<lparr>bw_Lines := bw_Lines w @ [wl_EncodeEntry L e], bw_Prev := ee_Hash e, bw_Count := Suc (bw_Count w)\<rparr>"
    by (rule w')
qed

lemma signed_accepted:
  "sound_signer L sg \<Longrightarrow> signed_by L sg e \<Longrightarrow> en_PreviousHash (ee_Body e) = prev \<Longrightarrow>
     accepted L (sg_PublicKey sg) prev e"
  by (simp add: accepted_def signed_by_def sound_signer_def)

text \<open>The appends of one export, in order.\<close>

fun writeAll :: "WireLib \<Rightarrow> (string \<times> int \<times> EntryBuildParams) list \<Rightarrow> BundleWriter \<Rightarrow>
    (wire_error, BundleWriter \<times> EvidenceEntry list) result" where
  "writeAll L [] w = Inr (w, [])"
| "writeAll L ((ulid, now, p) # ps) w =
     (case Append L ulid now p w of
        Inl err \<Rightarrow> Inl err
      | Inr (w', e) \<Rightarrow> (case writeAll L ps w' of Inl err \<Rightarrow> Inl err | Inr (w'', es) \<Rightarrow> Inr (w'', e # es)))"

lemma writeAll_chain:
  assumes "sound_signer L (bw_Signer w)" and "writeAll L ps w = Inr (w', es)"
  shows "verifyFrom L (sg_PublicKey (bw_Signer w)) i (bw_Prev w) es = None" and "bw_Prev w' = last_hash (bw_Prev w) es"
    and "bw_Lines w' = bw_Lines w @ map (wl_EncodeEntry L) es" and "bw_Signer w' = bw_Signer w"
    and "bw_Count w' = bw_Count w + length es" and "length es = length ps"
proof -
  have "verifyFrom L (sg_PublicKey (bw_Signer w)) i (bw_Prev w) es = None \<and> bw_Prev w' = last_hash (bw_Prev w) es \<and>
    bw_Lines w' = bw_Lines w @ map (wl_EncodeEntry L) es \<and> bw_Signer w' = bw_Signer w \<and>
    bw_Count w' = bw_Count w + length es \<and> length es = length ps"
    using assms
  proof (induction ps arbitrary: w es i)
    case (Cons q ps)
    obtain ulid now p where q: "q = (ulid, now, p)" by (cases q)
    with Cons.prems(2) obtain w1 e fs where a: "Append L ulid now p w = Inr (w1, e)"
      and r: "writeAll L ps w1 = Inr (w', fs)" "es = e # fs"
      by (auto split: sum.splits)
    note s = Append_Inr [OF a]
    have "sound_signer L (bw_Signer w1)" using Cons.prems(1) s(3) by simp
    from Cons.IH [OF this r(1), of "Suc i"] s signed_accepted [OF Cons.prems(1) s(1,2)] r(2)
    show ?case by (auto simp: verifyFrom_Cons)
  qed simp
  then show "verifyFrom L (sg_PublicKey (bw_Signer w)) i (bw_Prev w) es = None" "bw_Prev w' = last_hash (bw_Prev w) es"
    "bw_Lines w' = bw_Lines w @ map (wl_EncodeEntry L) es" "bw_Signer w' = bw_Signer w"
    "bw_Count w' = bw_Count w + length es" "length es = length ps" by blast+
qed

lemma segment_line_short:
  assumes "segmentSize ls \<le> defaultSegmentMaxBytes" and "l \<in> set ls"
  shows "length l < maxSegmentLine"
proof -
  have "length l + 1 \<le> sum_list (map (\<lambda>l. length l + 1) ls)"
    using assms(2) by (intro member_le_sum_list) auto
  with assms(1) show ?thesis by (simp add: segmentSize_def defaultSegmentMaxBytes_def maxSegmentLine_def)
qed

lemma decodeLines_encoded:
  assumes "sound_codec L es" and "\<forall>l\<in>set (map (wl_EncodeEntry L) es). length l < maxSegmentLine"
  shows "decodeLines L (map (wl_EncodeEntry L) es) = Inr es"
  using assms by (induction es) (auto simp: sound_codec_def)


lemma SaveBundleManifest_ok:
  assumes "bm_Spec m \<noteq> []" and "parseBundlePublicKey L (bm_PublicKey m) = Some key"
  shows "\<exists>m'. SaveBundleManifest L now m dir = Inr (dir\<lparr>bd_Bundle := Content m'\<rparr>) \<and>
    bm_Spec m' = bm_Spec m \<and> bm_PublicKey m' = bm_PublicKey m"
proof (cases "bm_CreatedAt m = []")
  case True
  with assms show ?thesis
    by (intro exI [of _ "m\<lparr>bm_CreatedAt := wl_RFC3339 L now\<rparr>"]) (simp add: SaveBundleManifest_def)
next
  case False
  with assms show ?thesis by (intro exI [of _ m]) (simp add: SaveBundleManifest_def)
qed

section \<open>Canonical digests\<close>

lemma trim_space_id: "s \<noteq> [] \<Longrightarrow> \<not> is_space (hd s) \<Longrightarrow> \<not> is_space (last s) \<Longrightarrow> trim_space s = s"
proof -
  assume s: "s \<noteq> []" "\<not> is_space (hd s)" "\<not> is_space (last s)"
  then have "dropWhile is_space s = s" by (cases s) simp_all
  moreover have "dropWhile is_space (rev s) = rev s" using s by (cases "rev s") (simp_all add: last_rev hd_rev flip: hd_rev)
  ultimately show ?thesis by (simp add: trim_space_def)
qed

lemma is_hex_lower [simp]: "is_hex c \<Longrightarrow> is_hex (lower_char c)"
  by (auto simp: is_hex_def lower_char_def Let_def)

lemma is_hex_not_space: "is_hex c \<Longrightarrow> \<not> is_space c"
  by (auto simp: is_hex_def is_space_def Let_def)

lemma FormatDigest_canonical:
  assumes "length h = 64" and "list_all is_hex h" and "to_lower h = h"
  shows "FormatDigest (''sha256:'' @ h) = Inr (''sha256:'' @ h)"
proof -
  let ?d = "''sha256:'' @ h"
  have "h \<noteq> []" using assms(1) by auto
  then have "\<not> is_space (last ?d)" using assms(2) is_hex_not_space by (auto simp: list_all_iff)
  moreover have "\<not> is_space (hd ?d)" by (simp add: is_space_def)
  ultimately have trim: "trim_space ?d = ?d" by (intro trim_space_id) simp_all
  have colon: "str_contains ?d '':''" unfolding str_contains_char by simp
  have cut: "cut_at CHR '':'' ?d = (''sha256'', h, True)" using cut_at_append [of "CHR '':''" "''sha256''" h] by simp
  have "equal_fold ''sha256'' ''sha256''" by simp
  then show ?thesis
    unfolding FormatDigest_def Let_def trim using assms colon cut by simp
qed

lemma FormatDigest_Inr:
  assumes "FormatDigest d = Inr r"
  shows "r = [] \<or> (\<exists>h. r = ''sha256:'' @ h \<and> length h = 64 \<and> list_all is_hex h \<and> to_lower h = h)"
  using assms
  by (auto simp: FormatDigest_def Let_def to_lower_def list_all_iff split: if_splits)

section \<open>Properties\<close>

text \<open>
  The digests in a bundle are canonical. A digest that is accepted is empty or \<^verbatim>\<open>sha256:\<close> with 64
  lower-case hexadecimal digits, and formatting it again gives the same digest.
\<close>

theorem digests_are_canonical:
  assumes "FormatDigest d = Inr r"
  shows "(r = [] \<or> (\<exists>h. r = ''sha256:'' @ h \<and> length h = 64 \<and> list_all is_hex h \<and> to_lower h = h)) \<and>
    FormatDigest r = Inr r"
  using FormatDigest_Inr [OF assms] FormatDigest_canonical
  by (auto simp: FormatDigest_def trim_space_def)

theorem digests_are_canonical_witness:
  "FormatDigest (''sha256:'' @ replicate 64 CHR ''a'') = Inr (''sha256:'' @ replicate 64 CHR ''a'')"
proof -
  have "FormatDigest (''SHA256:'' @ replicate 64 CHR ''A'') = Inr (''sha256:'' @ replicate 64 CHR ''a'')" by code_simp
  then show ?thesis using digests_are_canonical by blast
qed

lemma bundle_verifies:
  assumes "sound_signer L sg" and "NewBundleWriter now session trace adapter sg semantics dir = Inr w0"
    and "writeAll L ps w0 = Inr (w, es)" and "ps \<noteq> []" and "sound_codec L es"
    and "segmentSize (bw_Lines w) \<le> defaultSegmentMaxBytes"
    and "list_all (\<lambda>(n, _). n = defaultSegmentName) (bd_Segments dir)"
  shows "\<exists>dir' m st. Close L now' producer notes w dir = Inr dir' \<and> VerifyBundle L dir' = Inr m \<and>
    readSegmentEntries L dir' = Inr es \<and> bd_Store dir' = Some st \<and>
    sm_RecordsTotal st = length es \<and> sm_LastHash st = ee_Hash (last es) \<and> length es = length ps"
proof -
  from assms(2) have w0: "bw_Signer w0 = sg" "bw_Prev w0 = []" "bw_Lines w0 = []" "bw_Count w0 = 0"
    by (auto simp: NewBundleWriter_def split: if_splits)
  note c = writeAll_chain [OF _ assms(3), unfolded w0, OF assms(1)]
  let ?dir = "dir\<lparr>bd_Segments := writeSegment (bw_Lines w) (bd_Segments dir), bd_Store := Some (storeManifest L now' w)\<rparr>"
  have key: "parseBundlePublicKey L (wl_B64Encode L (sg_PublicKey sg)) = Some (sg_PublicKey sg)"
    using assms(1) by (simp add: parseBundlePublicKey_def sound_signer_def)
  then obtain m where m: "SaveBundleManifest L now' (bundleManifest L producer notes w) ?dir = Inr (?dir\<lparr>bd_Bundle := Content m\<rparr>)"
    "bm_Spec m = BundleSpecV1" "bm_PublicKey m = wl_B64Encode L (sg_PublicKey sg)"
    using SaveBundleManifest_ok [of "bundleManifest L producer notes w" L "sg_PublicKey sg" now' ?dir] c(4)
    by (auto simp: bundleManifest_def BundleSpecV1_def)
  let ?dir' = "?dir\<lparr>bd_Bundle := Content m\<rparr>"
  have close: "Close L now' producer notes w dir = Inr ?dir'" using m(1) assms(6) by (simp add: Close_def)
  have "bw_Lines w = map (wl_EncodeEntry L) es" using c(3) by simp
  moreover have "filter (\<lambda>(n, _). n \<noteq> defaultSegmentName) (bd_Segments dir) = []"
    using assms(7) by (auto simp: list_all_iff filter_empty_conv)
  then have seg: "writeSegment (bw_Lines w) (bd_Segments dir) = [(defaultSegmentName, bw_Lines w)]"
    by (simp add: writeSegment_def)
  ultimately have read: "readSegmentEntries L ?dir' = Inr es"
    using decodeLines_encoded [OF assms(5)] segment_line_short [OF assms(6)] seg by (simp add: readSegmentEntries_def)
  have ne: "es \<noteq> []" using c(6) assms(4) by auto
  then have "verifyEntries L (sg_PublicKey sg) es = None" using c(1) [of 0] by (simp add: verifyEntries_def)
  then have "VerifyBundle L ?dir' = Inr m" using m(2,3) key read by (simp add: VerifyBundle_def)
  moreover have "last_hash [] es = ee_Hash (last es)" using ne by (metis append_butlast_last_id last_hash_snoc)
  ultimately show ?thesis using close read c(2,5,6) by (intro exI conjI) (auto simp: storeManifest_def)
qed

text \<open>
  C27: What the writer exports, the verifier accepts. For any signer and codec that keep their
  promises, appending any positive number of entries and closing the bundle within the segment limit
  succeeds, the verifier accepts the result, reads back exactly the appended entries, and the store
  manifest counts them and names the hash of the last one.
\<close>

theorem exported_bundle_verifies:
  assumes "sound_signer L sg" and "NewBundleWriter now session trace adapter sg semantics dir = Inr w0"
    and "writeAll L ps w0 = Inr (w, es)" and "ps \<noteq> []" and "sound_codec L es"
    and "segmentSize (bw_Lines w) \<le> defaultSegmentMaxBytes"
    and "list_all (\<lambda>(n, _). n = defaultSegmentName) (bd_Segments dir)"
  shows "\<exists>dir' m st. Close L now' producer notes w dir = Inr dir' \<and> VerifyBundle L dir' = Inr m \<and>
    readSegmentEntries L dir' = Inr es \<and> bd_Store dir' = Some st \<and>
    sm_RecordsTotal st = length es \<and> sm_LastHash st = ee_Hash (last es) \<and> length es = length ps"
  by (rule bundle_verifies [OF assms])

definition demo_key :: string where
  "demo_key = replicate 32 CHR ''k''"

definition demo_signer :: Signer where
  "demo_signer = \<lparr>sg_Sign = (\<lambda>m. CHR ''s'' # m), sg_PublicKey = demo_key\<rparr>"

text \<open>Libraries for concrete runs: a readable encoding, a key of 32 bytes, a recognisable signature.\<close>

definition demo_wire0 :: WireLib where
  "demo_wire0 = \<lparr>wl_Marshal = (\<lambda>e. Some (en_EntryID e @ ''/'' @ en_PreviousHash e)), wl_Sha256 = (\<lambda>s. s),
     wl_Verify = (\<lambda>pub m sig. pub = demo_key \<and> sig = CHR ''s'' # m),
     wl_B64Encode = (\<lambda>x. x), wl_B64Decode = (\<lambda>x. Some x), wl_EncodeEntry = (\<lambda>e. en_EntryID (ee_Body e)),
     wl_DecodeEntry = (\<lambda>_. None), wl_RFC3339 = (\<lambda>_. ''now'')\<rparr>"

definition demo_params :: EntryBuildParams where
  "demo_params = \<lparr>ep_EntryID = [], ep_Type = EntryTypeReport, ep_TenantID = [], ep_SessionID = [], ep_OperationID = [],
     ep_Attempt = 0, ep_TraceID = [], ep_SpanID = [], ep_ParentSpanID = [],
     ep_Actor = \<lparr>ac_Type = ''agent'', ac_ID = ''a'', ac_Provenance = [], ac_InstanceID = [], ac_Version = [], ac_SkillVersion = []\<rparr>,
     ep_IntentDigest = [], ep_ArtifactDigest = [], ep_Payload = None, ep_PreviousHash = [], ep_ScopeDimensions = [],
     ep_SpecVersion = [], ep_CanonVersion = [], ep_AdapterVersion = [], ep_ScoringVersion = []\<rparr>"

definition demo_dir :: BundleDir where
  "demo_dir = \<lparr>bd_Segments = [], bd_Store = None, bd_Bundle = Missing\<rparr>"

definition demo_writer :: BundleWriter where
  "demo_writer = projr (NewBundleWriter 0 ''s'' ''t'' ''bench'' demo_signer [] demo_dir)"

definition demo_appends :: "(string \<times> int \<times> EntryBuildParams) list" where
  "demo_appends = [(''e1'', 1, demo_params), (''e2'', 2, demo_params)]"

definition demo_entries :: "EvidenceEntry list" where
  "demo_entries = snd (projr (writeAll demo_wire0 demo_appends demo_writer))"

definition demo_wire :: WireLib where
  "demo_wire = demo_wire0\<lparr>wl_DecodeEntry := (\<lambda>l. find (\<lambda>e. en_EntryID (ee_Body e) = l) demo_entries)\<rparr>"

theorem exported_bundle_verifies_witness:
  "\<exists>dir' m. Close demo_wire 3 \<lparr>bp_Name = ''b'', bp_Version = [], bp_URL = []\<rparr> []
      (fst (projr (writeAll demo_wire demo_appends demo_writer))) demo_dir = Inr dir' \<and>
    VerifyBundle demo_wire dir' = Inr m \<and> readSegmentEntries demo_wire dir' = Inr demo_entries"
proof -
  have s: "sound_signer demo_wire demo_signer"
    by (simp add: sound_signer_def demo_wire_def demo_wire0_def demo_signer_def demo_key_def)
  have n: "NewBundleWriter 0 ''s'' ''t'' ''bench'' demo_signer [] demo_dir = Inr demo_writer"
    by (simp add: demo_writer_def NewBundleWriter_def demo_dir_def)
  obtain w es where w: "writeAll demo_wire demo_appends demo_writer = Inr (w, es)"
  proof -
    have "isl (writeAll demo_wire demo_appends demo_writer) = False" by code_simp
    then show ?thesis using that by (cases "writeAll demo_wire demo_appends demo_writer") auto
  qed
  have "snd (projr (writeAll demo_wire demo_appends demo_writer)) = demo_entries" by code_simp
  with w have es: "es = demo_entries" by simp
  have c: "sound_codec demo_wire es" unfolding es by code_simp
  have "segmentSize (bw_Lines (fst (projr (writeAll demo_wire demo_appends demo_writer)))) \<le> defaultSegmentMaxBytes"
    by code_simp
  with w have z: "segmentSize (bw_Lines w) \<le> defaultSegmentMaxBytes" by simp
  have d: "list_all (\<lambda>(n, _). n = defaultSegmentName) (bd_Segments demo_dir)" by (simp add: demo_dir_def)
  have "demo_appends \<noteq> []" by (simp add: demo_appends_def)
  note b = exported_bundle_verifies [OF s n w this c z d]
  show ?thesis using b [of 3 "\<lparr>bp_Name = ''b'', bp_Version = [], bp_URL = []\<rparr>" "[]"] w es by auto
qed

text \<open>
  C28: A verified bundle cannot be rewritten under its last hash. If two bundles verify, whatever keys
  they carry, and end with the same hash, then, unless two of their entries collide, they have the
  same entries: none was changed, inserted, removed or moved.
\<close>

theorem chain_is_tamper_evident:
  assumes "verifyEntries L pub es = None" and "verifyEntries L pub' fs = None"
    and "ee_Hash (last es) = ee_Hash (last fs)" and "no_collisions L (set es \<union> set fs)"
  shows "map ee_Body es = map ee_Body fs"
proof -
  from assms(1,2) have ne: "es \<noteq> []" "fs \<noteq> []" by (auto simp: verifyEntries_def)
  then have "last_hash [] es = ee_Hash (last es)" "last_hash [] fs = ee_Hash (last fs)"
    by (metis append_butlast_last_id last_hash_snoc)+
  then show ?thesis
    using chain_unique [OF assms(4), of es fs pub pub'] ne assms(1-3) by (auto simp: verifyEntries_def split: if_splits)
qed

theorem chain_is_tamper_evident_witness:
  "verifyEntries demo_wire demo_key demo_entries = None \<and> length demo_entries = 2 \<and>
   map ee_Body demo_entries = map ee_Body (demo_entries[1 := last demo_entries])"
proof -
  have v: "verifyEntries demo_wire demo_key demo_entries = None" by code_simp
  have v': "verifyEntries demo_wire demo_key (demo_entries[1 := last demo_entries]) = None" by code_simp
  have "distinct (map (computeEntryHash demo_wire) demo_entries)" by code_simp
  then have "no_collisions demo_wire (set demo_entries)" by (rule distinct_no_collisions)
  moreover have "set (demo_entries[1 := last demo_entries]) = set demo_entries" by code_simp
  moreover have "ee_Hash (last demo_entries) = ee_Hash (last (demo_entries[1 := last demo_entries]))" by code_simp
  moreover have "length demo_entries = 2" by code_simp
  ultimately show ?thesis using chain_is_tamper_evident [OF v v'] v by simp
qed

section \<open>What the verifier does not check\<close>

text \<open>
  The verifier reads neither the record count nor the last hash of \<^verbatim>\<open>manifest.json\<close>: dropping
  entries from the end of a bundle leaves a bundle that verifies.
\<close>

lemma truncated_chain_verifies:
  assumes "verifyEntries L pub (es @ fs) = None" and "es \<noteq> []"
  shows "verifyEntries L pub es = None"
proof -
  have "verifyFrom L pub i prev (es @ fs) = None \<Longrightarrow> verifyFrom L pub i prev es = None" for i prev
    by (induction es arbitrary: i prev) (auto simp: verifyFrom_Cons)
  with assms show ?thesis by (auto simp: verifyEntries_def split: if_splits)
qed

end
