(* ===== verification/Bench_Export.thy ===== *)
theory Bench_Export
  imports Evidence_Chain Evaluation_Types
begin

text \<open>
  \<^verbatim>\<open>pkg/benchexport/export.go\<close>: a finished run becomes a signed evidence bundle of five entries
  (\<^verbatim>\<open>session_start\<close>, \<^verbatim>\<open>prescribe\<close>, \<^verbatim>\<open>report\<close>, \<^verbatim>\<open>annotation\<close>, \<^verbatim>\<open>session_end\<close>). The payload types of
  \<^verbatim>\<open>pkg/evidrawire/payloads.go\<close> appear as the JSON trees they marshal to, with the fields that
  \<^verbatim>\<open>omitempty\<close> drops left out.

  The files of the run directory are a record, each missing, unreadable or with its decoded
  content. What time, randomness and the printers of \<^verbatim>\<open>encoding/json\<close> and \<^verbatim>\<open>strconv\<close> supply is the
  record \<open>ExportEnv\<close>: clock readings and entry ids in the order the code takes them.
\<close>

section \<open>Verdicts on the wire\<close>

definition VerdictSuccess :: string where
  "VerdictSuccess = ''success''"

definition VerdictFailure :: string where
  "VerdictFailure = ''failure''"

definition VerdictError :: string where
  "VerdictError = ''error''"

definition VerdictFromExitCode :: "int \<Rightarrow> string" where
  "VerdictFromExitCode code =
     (if code = 0 then VerdictSuccess else if code < 0 then VerdictError else VerdictFailure)"

text \<open>The string constants behind the canonical verdicts.\<close>

definition verdict_text :: "Verdict \<Rightarrow> string" where
  "verdict_text v = (case v of VerdictNone \<Rightarrow> [] | VerdictPass \<Rightarrow> ''PASS'' | VerdictFail \<Rightarrow> ''FAIL''
     | VerdictUnsafe \<Rightarrow> ''UNSAFE'' | VerdictIncomplete \<Rightarrow> ''INCOMPLETE'')"

definition mapVerdict :: "string \<Rightarrow> int \<Rightarrow> string \<times> string" where
  "mapVerdict canonical exitCode =
     (if canonical = verdict_text VerdictPass then (VerdictSuccess, ''evaluation-verdict'')
      else if canonical = verdict_text VerdictFail \<or> canonical = verdict_text VerdictUnsafe
        then (VerdictFailure, ''evaluation-verdict'')
      else if canonical = verdict_text VerdictIncomplete then (VerdictError, ''evaluation-verdict'')
      else (VerdictFromExitCode exitCode, ''legacy-exit-code''))"

section \<open>The run directory\<close>

record RunBundle =
  rb_RunID :: string
  rb_ScenarioID :: string
  rb_Adapter :: string
  rb_StartTime :: int
  rb_EndTime :: int
  rb_ExitCode :: int
  rb_Passed :: bool
  rb_Verdict :: string
  rb_Prompt :: string
  rb_ChaosEnabled :: bool
  rb_Metadata :: "(string \<times> string) list"

record RunDir =
  rd_Run :: "RunBundle disk_file"
  rd_ToolCalls :: "string list disk_file"
  rd_Checks :: "string list disk_file"

record Request =
  rq_RunDir :: string
  rq_OutDir :: string
  rq_ProducerVersion :: string

record ExportResult =
  xr_BundlePath :: string
  xr_Entries :: nat
  xr_Prescription :: string
  xr_Report :: string
  xr_ToolCalls :: nat

record ExportEnv =
  xe_Lib :: WireLib
  xe_Signer :: "Signer option"
  xe_Ulid :: "nat \<Rightarrow> string"
  xe_Now :: "nat \<Rightarrow> int"
  xe_Seconds :: "int \<Rightarrow> string"
  xe_MarshalJson :: "json \<Rightarrow> string"

datatype export_error =
    DirsRequired | RunUnreadable | NoRunID | AlreadyExported | NoSigner
  | ToolCallsUnreadable | ChecksUnreadable | ExportWire wire_error | ProducedBundleInvalid wire_error

definition readRunBundle :: "RunDir \<Rightarrow> RunBundle option" where
  "readRunBundle d = (case rd_Run d of Content run \<Rightarrow> Some run | _ \<Rightarrow> None)"

definition countToolCalls :: "RunDir \<Rightarrow> nat option" where
  "countToolCalls d = (case rd_ToolCalls d of Missing \<Rightarrow> Some 0 | Unreadable \<Rightarrow> None | Content cs \<Rightarrow> Some (length cs))"

definition countChecksFile :: "RunDir \<Rightarrow> (nat \<times> nat) option" where
  "countChecksFile d = (case rd_Checks d of Missing \<Rightarrow> Some (0, 0) | Unreadable \<Rightarrow> None
     | Content vs \<Rightarrow> Some (length (filter (\<lambda>v. v = ''pass'') vs), length vs))"

section \<open>Payloads\<close>

definition metaGet :: "string \<Rightarrow> (string \<times> string) list \<Rightarrow> string" where
  "metaGet k m = (case map_of m k of None \<Rightarrow> [] | Some v \<Rightarrow> v)"

fun firstNonEmpty :: "string list \<Rightarrow> string" where
  "firstNonEmpty [] = []"
| "firstNonEmpty (v # vs) = (if trim_space v \<noteq> [] then v else firstNonEmpty vs)"

text \<open>The last three bytes are the UTF-8 encoding of the ellipsis.\<close>

definition oneLine :: "string \<Rightarrow> nat \<Rightarrow> string" where
  "oneLine s n = (let t = join (Go_Prelude.fields s) '' '' in
     if length t > n then take n t @ [CHR 0xE2, CHR 0x80, CHR 0xA6] else t)"

definition promptDigest :: "WireLib \<Rightarrow> string \<Rightarrow> string" where
  "promptDigest L prompt = (if trim_space prompt = [] then [] else SHA256Hex L prompt)"

definition semanticsMetaKey :: string where
  "semanticsMetaKey = ''semantics_version''"

definition ProducerName :: string where
  "ProducerName = ''evidra-bench''"

definition cohortSafetyNote :: "string \<Rightarrow> string" where
  "cohortSafetyNote cohort =
     (if IsLegacy cohort
      then ''preview-telemetry verdicts; predates authoritative evidence capture (docs/adr/0001-process-safety-matching.md)''
      else ''authoritative evidence capture (audit + snapshots + sandbox); per-case verdicts live in the evaluation-result document'')"

definition omitempty :: "string \<Rightarrow> string \<Rightarrow> (string \<times> json) list" where
  "omitempty k v = (if v = [] then [] else [(k, JStr v)])"

record DeclaredIntent =
  di_Tool :: string
  di_Operation :: string
  di_Target :: string
  di_Command :: string
  di_ArtifactDigest :: string

definition intentFields :: "DeclaredIntent \<Rightarrow> (string \<times> json) list" where
  "intentFields i = omitempty ''tool'' (di_Tool i) @ omitempty ''operation'' (di_Operation i) @
     omitempty ''target'' (di_Target i) @ omitempty ''command'' (di_Command i)"

definition ComputeDeclaredIntentDigest :: "ExportEnv \<Rightarrow> DeclaredIntent \<Rightarrow> string" where
  "ComputeDeclaredIntentDigest env i =
     (let identity = i\<lparr>di_Tool := trim_space (di_Tool i), di_Operation := trim_space (di_Operation i),
                       di_Target := trim_space (di_Target i), di_Command := trim_space (di_Command i)\<rparr> in
      SHA256Hex (xe_Lib env) (xe_MarshalJson env (JObj (intentFields identity))))"

text \<open>The labels are a Go map: the constant keys, then one key per metadata entry.\<close>

definition startLabels :: "ExportEnv \<Rightarrow> RunBundle \<Rightarrow> string \<Rightarrow> (string \<times> json) list" where
  "startLabels env run verdictSource = canon_fields
     ([(''run_id'', JStr (rb_RunID run)), (''scenario_id'', JStr (rb_ScenarioID run)),
       (''adapter'', JStr (rb_Adapter run)), (''passed'', JStr (bool_text (rb_Passed run))),
       (''verdict'', JStr (firstNonEmpty [rb_Verdict run, verdict_text VerdictIncomplete])),
       (''verdict_source'', JStr verdictSource),
       (''duration_seconds'', JStr (xe_Seconds env (rb_EndTime run - rb_StartTime run))),
       (''exported_at'', JStr (wl_RFC3339 (xe_Lib env) (xe_Now env 1)))] @
      map (\<lambda>(k, v). (''meta_'' @ k, JStr v)) (rb_Metadata run))"

definition intentOf :: "RunBundle \<Rightarrow> string \<Rightarrow> DeclaredIntent" where
  "intentOf run adapterName = \<lparr>di_Tool = adapterName, di_Operation = ''bench-run:'' @ rb_ScenarioID run,
     di_Target = rb_ScenarioID run, di_Command = oneLine (rb_Prompt run) 512, di_ArtifactDigest = []\<rparr>"

definition lifecycleFields :: "string \<Rightarrow> (string \<times> json) list" where
  "lifecycleFields kind = [(''flavor'', JStr ''imperative''), (''evidence'', JObj [(''kind'', JStr kind)]),
     (''source'', JObj [(''system'', JStr ProducerName)])]"

definition prescribePayload :: "string \<Rightarrow> DeclaredIntent \<Rightarrow> json" where
  "prescribePayload prescriptionID i = JObj ([(''prescription_id'', JStr prescriptionID),
     (''intent'', JObj (intentFields i @ omitempty ''artifact_digest'' (di_ArtifactDigest i))),
     (''ttl_ms'', JNum 300000), (''canon_source'', JStr ProducerName)] @ lifecycleFields ''declared'')"

definition reportPayload :: "string \<Rightarrow> string \<Rightarrow> int \<Rightarrow> string \<Rightarrow> json" where
  "reportPayload reportID prescriptionID exitCode verdict = JObj ([(''report_id'', JStr reportID),
     (''prescription_id'', JStr prescriptionID), (''exit_code'', JNum (of_int exitCode)), (''verdict'', JStr verdict)] @
     lifecycleFields ''observed'')"

definition summaryText :: "RunBundle \<Rightarrow> nat \<Rightarrow> nat \<times> nat \<Rightarrow> string \<Rightarrow> string \<Rightarrow> string" where
  "summaryText run toolCalls checks verdictSource cohort =
     ''{'' @ quote ''tool_calls'' @ '':'' @ nat_text toolCalls @ '','' @ quote ''checks_passed'' @ '':'' @ nat_text (fst checks) @
     '','' @ quote ''checks_total'' @ '':'' @ nat_text (snd checks) @ '','' @ quote ''chaos_enabled'' @ '':'' @ bool_text (rb_ChaosEnabled run) @
     '','' @ quote ''canonical_verdict'' @ '':'' @ quote (firstNonEmpty [rb_Verdict run, ''unknown'']) @
     '','' @ quote ''verdict_source'' @ '':'' @ quote verdictSource @ '','' @ quote ''semantics_version'' @ '':'' @ quote cohort @
     '','' @ quote ''safety_note'' @ '':'' @ quote (cohortSafetyNote cohort) @ ''}''"

section \<open>Export\<close>

definition zeroParams :: EntryBuildParams where
  "zeroParams = \<lparr>ep_EntryID = [], ep_Type = EntryTypeOther [], ep_TenantID = [], ep_SessionID = [], ep_OperationID = [],
     ep_Attempt = 0, ep_TraceID = [], ep_SpanID = [], ep_ParentSpanID = [],
     ep_Actor = \<lparr>ac_Type = [], ac_ID = [], ac_Provenance = [], ac_InstanceID = [], ac_Version = [], ac_SkillVersion = []\<rparr>,
     ep_IntentDigest = [], ep_ArtifactDigest = [], ep_Payload = None, ep_PreviousHash = [], ep_ScopeDimensions = [],
     ep_SpecVersion = [], ep_CanonVersion = [], ep_AdapterVersion = [], ep_ScoringVersion = []\<rparr>"

text \<open>The parameters of the five appends.\<close>

definition exportParams :: "ExportEnv \<Rightarrow> Request \<Rightarrow> RunBundle \<Rightarrow> nat \<Rightarrow> nat \<times> nat \<Rightarrow> EntryBuildParams list" where
  "exportParams env req run toolCalls checks =
     (let adapterName = firstNonEmpty [rb_Adapter run, ''unknown''];
          actor = \<lparr>ac_Type = ''agent'', ac_ID = firstNonEmpty [metaGet ''model'' (rb_Metadata run), adapterName],
            ac_Provenance = ProducerName, ac_InstanceID = [], ac_Version = rq_ProducerVersion req, ac_SkillVersion = []\<rparr>;
          verdict = fst (mapVerdict (rb_Verdict run) (rb_ExitCode run));
          verdictSource = snd (mapVerdict (rb_Verdict run) (rb_ExitCode run));
          intent = intentOf run adapterName;
          prescriptionID = ''bench-prescription-'' @ rb_RunID run;
          cohort = Cohort \<lparr>bm_Spec = [], bm_Producer = \<lparr>bp_Name = [], bp_Version = [], bp_URL = []\<rparr>, bm_TrustLevel = [],
            bm_PublicKey = [], bm_CreatedAt = [], bm_Notes = [],
            bm_SemanticsVersion = metaGet semanticsMetaKey (rb_Metadata run)\<rparr> in
      [zeroParams\<lparr>ep_Type := EntryTypeSessionStart, ep_Actor := actor,
         ep_Payload := Some (JObj [(''labels'', JObj (startLabels env run verdictSource))])\<rparr>,
       zeroParams\<lparr>ep_Type := EntryTypePrescribe, ep_OperationID := ''bench-op-'' @ rb_RunID run, ep_Actor := actor,
         ep_Payload := Some (prescribePayload prescriptionID intent),
         ep_IntentDigest := ComputeDeclaredIntentDigest env intent\<rparr>,
       zeroParams\<lparr>ep_Type := EntryTypeReport, ep_OperationID := ''bench-op-'' @ rb_RunID run,
         ep_ArtifactDigest := promptDigest (xe_Lib env) (rb_Prompt run), ep_Actor := actor,
         ep_Payload := Some (reportPayload (''bench-report-'' @ rb_RunID run) prescriptionID (rb_ExitCode run) verdict)\<rparr>,
       zeroParams\<lparr>ep_Type := EntryTypeAnnotation,
         ep_Actor := \<lparr>ac_Type = ''system'', ac_ID = ProducerName, ac_Provenance = ProducerName, ac_InstanceID = [],
           ac_Version = [], ac_SkillVersion = []\<rparr>,
         ep_Payload := Some (JObj [(''key'', JStr ''evidra-bench/run_summary''),
           (''value'', JStr (summaryText run toolCalls checks verdictSource cohort)),
           (''message'', JStr ''Run-level export; per-tool-call evidence requires adapter exit-code fidelity (v2).'')])\<rparr>,
       zeroParams\<lparr>ep_Type := EntryTypeSessionEnd, ep_Actor := actor,
         ep_Payload := Some (JObj [(''status'', JStr (if rb_ExitCode run < 0 then ''error'' else ''completed''))])\<rparr>])"

definition exportAppends ::
  "ExportEnv \<Rightarrow> Request \<Rightarrow> RunBundle \<Rightarrow> nat \<Rightarrow> nat \<times> nat \<Rightarrow> (string \<times> int \<times> EntryBuildParams) list" where
  "exportAppends env req run toolCalls checks =
     map (\<lambda>(i, p). (xe_Ulid env i, xe_Now env (2 + i), p)) (enumerate 0 (exportParams env req run toolCalls checks))"

definition exportWriter ::
  "ExportEnv \<Rightarrow> RunBundle \<Rightarrow> Signer \<Rightarrow> BundleDir \<Rightarrow> (wire_error, BundleWriter) result" where
  "exportWriter env run signer out =
     (let traceID = ''bench-'' @ rb_RunID run in
      NewBundleWriter (xe_Now env 0) traceID traceID
        (ProducerName @ ''/'' @ firstNonEmpty [rb_Adapter run, ''unknown'']) signer
        (metaGet semanticsMetaKey (rb_Metadata run)) out)"

definition Export :: "ExportEnv \<Rightarrow> Request \<Rightarrow> RunDir \<Rightarrow> BundleDir \<Rightarrow> (export_error, ExportResult \<times> BundleDir) result" where
  "Export env req d out =
     (if rq_RunDir req = [] \<or> rq_OutDir req = [] then Inl DirsRequired
      else (case readRunBundle d of
        None \<Rightarrow> Inl RunUnreadable
      | Some run \<Rightarrow>
          if rb_RunID run = [] then Inl NoRunID
          else if bd_Bundle out \<noteq> Missing then Inl AlreadyExported
          else (case xe_Signer env of
            None \<Rightarrow> Inl NoSigner
          | Some signer \<Rightarrow> (case exportWriter env run signer out of
              Inl err \<Rightarrow> Inl (ExportWire err)
            | Inr w \<Rightarrow> (case countToolCalls d of
                None \<Rightarrow> Inl ToolCallsUnreadable
              | Some toolCalls \<Rightarrow> (case countChecksFile d of
                  None \<Rightarrow> Inl ChecksUnreadable
                | Some checks \<Rightarrow> (case writeAll (xe_Lib env) (exportAppends env req run toolCalls checks) w of
                    Inl err \<Rightarrow> Inl (ExportWire err)
                  | Inr (w', es) \<Rightarrow>
                      (case Close (xe_Lib env) (xe_Now env 7)
                              \<lparr>bp_Name = ProducerName, bp_Version = rq_ProducerVersion req,
                               bp_URL = ''https://github.com/vitas/evidra-bench''\<rparr>
                              ''Entry timestamps reflect export time; run window is in session_start labels.'' w' out of
                         Inl err \<Rightarrow> Inl (ExportWire err)
                       | Inr out' \<Rightarrow> (case VerifyBundle (xe_Lib env) out' of
                           Inl err \<Rightarrow> Inl (ProducedBundleInvalid err)
                         | Inr _ \<Rightarrow> Inr (\<lparr>xr_BundlePath = rq_OutDir req, xr_Entries = 5,
                             xr_Prescription = ''bench-prescription-'' @ rb_RunID run,
                             xr_Report = ''bench-report-'' @ rb_RunID run, xr_ToolCalls = toolCalls\<rparr>, out'))))))))))"

section \<open>What is appended\<close>

text \<open>The writer and the entries of an export before it is closed.\<close>

definition exportEntries :: "ExportEnv \<Rightarrow> Request \<Rightarrow> RunDir \<Rightarrow> RunBundle \<Rightarrow> BundleDir \<Rightarrow> (BundleWriter \<times> EvidenceEntry list) option" where
  "exportEntries env req d run out = (case (xe_Signer env, countToolCalls d, countChecksFile d) of
     (Some sg, Some n, Some c) \<Rightarrow> (case exportWriter env run sg out of
         Inl _ \<Rightarrow> None
       | Inr w \<Rightarrow> (case writeAll (xe_Lib env) (exportAppends env req run n c) w of Inl _ \<Rightarrow> None | Inr r \<Rightarrow> Some r))
   | _ \<Rightarrow> None)"

definition payloadField :: "string \<Rightarrow> EvidenceEntry \<Rightarrow> json option" where
  "payloadField k e = (case en_Payload (ee_Body e) of Some (JObj kvs) \<Rightarrow> jget kvs k | _ \<Rightarrow> None)"

definition entryOf :: "EntryType \<Rightarrow> EvidenceEntry list \<Rightarrow> EvidenceEntry option" where
  "entryOf t es = find (\<lambda>e. en_Type (ee_Body e) = t) es"

definition reportVerdict :: "EvidenceEntry list \<Rightarrow> json option" where
  "reportVerdict es = Option.bind (entryOf EntryTypeReport es) (payloadField ''verdict'')"

definition startLabel :: "string \<Rightarrow> EvidenceEntry list \<Rightarrow> json option" where
  "startLabel k es = (case Option.bind (entryOf EntryTypeSessionStart es) (payloadField ''labels'') of
     Some (JObj kvs) \<Rightarrow> jget kvs k | _ \<Rightarrow> None)"

text \<open>An append keeps the type and the payload of its parameters and takes a fresh id unless one is given.\<close>

definition carries :: "string \<times> int \<times> EntryBuildParams \<Rightarrow> EvidenceEntry \<Rightarrow> bool" where
  "carries q e \<longleftrightarrow> en_Type (ee_Body e) = ep_Type (snd (snd q)) \<and> en_Payload (ee_Body e) = ep_Payload (snd (snd q)) \<and>
     (ep_EntryID (snd (snd q)) = [] \<longrightarrow> en_EntryID (ee_Body e) = fst q)"

lemma Append_carries: "Append L ulid now p w = Inr (w', e) \<Longrightarrow> carries (ulid, now, p) e"
  by (auto simp: Append_def BuildEntry_def appendParams_def carries_def Let_def split: sum.splits if_splits option.splits)

lemma writeAll_carries: "writeAll L ps w = Inr (w', es) \<Longrightarrow> list_all2 carries ps es"
proof (induction ps arbitrary: w es)
  case (Cons q ps)
  obtain ulid now p where q: "q = (ulid, now, p)" by (cases q)
  with Cons.prems obtain w1 e fs where "Append L ulid now p w = Inr (w1, e)" "writeAll L ps w1 = Inr (w', fs)" "es = e # fs"
    by (auto split: sum.splits)
  with Cons.IH Append_carries q show ?case by auto
qed simp

text \<open>An append succeeds on an open writer when its type is known and its digests are well formed.\<close>

definition buildable :: "EntryBuildParams \<Rightarrow> bool" where
  "buildable p \<longleftrightarrow> EntryTypeValid (ep_Type p) \<and> isl (FormatDigest (ep_IntentDigest p)) = False \<and>
     isl (FormatDigest (ep_ArtifactDigest p)) = False"

lemma Append_ok:
  assumes "buildable p" and "bw_Open w" and "\<forall>b. wl_Marshal L b \<noteq> None"
  obtains w' e where "Append L ulid now p w = Inr (w', e)" "bw_Open w'"
proof -
  obtain i where i: "FormatDigest (ep_IntentDigest p) = Inr i"
    using assms(1) by (cases "FormatDigest (ep_IntentDigest p)") (auto simp: buildable_def)
  obtain a where a: "FormatDigest (ep_ArtifactDigest p) = Inr a"
    using assms(1) by (cases "FormatDigest (ep_ArtifactDigest p)") (auto simp: buildable_def)
  have h: "computeEntryHash L e = Some (SHA256Hex L (the (wl_Marshal L (ee_Body e))))" for e
    using spec [OF assms(3), of "ee_Body e"] by (auto simp: computeEntryHash_def)
  have "\<not> isl (BuildEntry L ulid now (Some (bw_Signer w)) (appendParams w p))"
    using assms(1) i a by (simp add: BuildEntry_def appendParams_def buildable_def Let_def h)
  then obtain e where "BuildEntry L ulid now (Some (bw_Signer w)) (appendParams w p) = Inr e"
    by (cases "BuildEntry L ulid now (Some (bw_Signer w)) (appendParams w p)") auto
  then show ?thesis using that assms(2) by (simp add: Append_def)
qed

lemma writeAll_ok:
  assumes "list_all (\<lambda>q. buildable (snd (snd q))) ps" and "bw_Open w" and "\<forall>b. wl_Marshal L b \<noteq> None"
  shows "\<exists>w' es. writeAll L ps w = Inr (w', es)"
  using assms(1,2)
proof (induction ps arbitrary: w)
  case (Cons q ps)
  obtain ulid now p where q: "q = (ulid, now, p)" by (cases q)
  from Append_ok [of p w L ulid now] Cons.prems assms(3) q
  obtain w1 e where "Append L ulid now p w = Inr (w1, e)" "bw_Open w1" by auto
  with Cons q show ?case by (fastforce split: sum.splits)
qed simp

text \<open>\<^verbatim>\<open>sha256.Sum256\<close> gives 32 bytes and \<^verbatim>\<open>hex.EncodeToString\<close> prints them as 64 lower-case digits.\<close>

definition sound_hash :: "WireLib \<Rightarrow> bool" where
  "sound_hash L \<longleftrightarrow> (\<forall>s. length (wl_Sha256 L s) = 64 \<and> list_all is_hex (wl_Sha256 L s) \<and>
     to_lower (wl_Sha256 L s) = wl_Sha256 L s)"

lemma FormatDigest_hash: "sound_hash L \<Longrightarrow> FormatDigest (SHA256Hex L s) = Inr (SHA256Hex L s)"
  unfolding SHA256Hex_def by (rule FormatDigest_canonical) (auto simp: sound_hash_def)

lemma FormatDigest_Nil [simp]: "FormatDigest [] = Inr []"
  by (simp add: FormatDigest_def trim_space_def)

lemma exportAppends_list:
  "map (\<lambda>q. snd (snd q)) (exportAppends env req run n c) = exportParams env req run n c"
  by (simp add: exportAppends_def comp_def case_prod_beta)

lemma exportAppends_buildable:
  assumes "sound_hash (xe_Lib env)"
  shows "list_all (\<lambda>q. buildable (snd (snd q))) (exportAppends env req run n c)"
proof -
  have "list_all buildable (exportParams env req run n c)"
    using FormatDigest_hash [OF assms]
    by (simp add: exportParams_def Let_def buildable_def zeroParams_def EntryTypeValid_def
        ComputeDeclaredIntentDigest_def promptDigest_def)
  then have "list_all buildable (map (\<lambda>q. snd (snd q)) (exportAppends env req run n c))"
    by (simp only: exportAppends_list)
  then show ?thesis by (simp add: list_all_iff)
qed

text \<open>The five entries of an export, whatever the run.\<close>

lemma exportEntries_Some:
  assumes "exportEntries env req d run out = Some (w, es)"
  obtains sg n c w0 where "xe_Signer env = Some sg" "countToolCalls d = Some n" "countChecksFile d = Some c"
    "exportWriter env run sg out = Inr w0" "writeAll (xe_Lib env) (exportAppends env req run n c) w0 = Inr (w, es)"
  using assms by (auto simp: exportEntries_def split: option.splits sum.splits)

lemma exported_entries:
  assumes "writeAll L (exportAppends env req run n c) w = Inr (w', es)"
  shows "map (\<lambda>e. en_Type (ee_Body e)) es =
      [EntryTypeSessionStart, EntryTypePrescribe, EntryTypeReport, EntryTypeAnnotation, EntryTypeSessionEnd]"
    and "reportVerdict es = Some (JStr (fst (mapVerdict (rb_Verdict run) (rb_ExitCode run))))"
    and "startLabel ''verdict_source'' es = Some (JStr (snd (mapVerdict (rb_Verdict run) (rb_ExitCode run))))"
proof -
  have "list_all2 carries (exportAppends env req run n c) es" by (rule writeAll_carries [OF assms])
  then have "list_all2 (\<lambda>p e. en_Type (ee_Body e) = ep_Type p \<and> en_Payload (ee_Body e) = ep_Payload p)
      (map (\<lambda>q. snd (snd q)) (exportAppends env req run n c)) es"
    by (auto simp: list_all2_map1 carries_def elim: list_all2_mono)
  then have l: "list_all2 (\<lambda>p e. en_Type (ee_Body e) = ep_Type p \<and> en_Payload (ee_Body e) = ep_Payload p)
      (exportParams env req run n c) es"
    by (simp only: exportAppends_list)
  then obtain e1 e2 e3 e4 e5 where es: "es = [e1, e2, e3, e4, e5]"
    by (auto simp: exportParams_def Let_def list_all2_Cons1)
  have src: "jget (startLabels env run s) ''verdict_source'' = Some (JStr s)" for s
    by (auto simp: startLabels_def jget_canon_fields jget_append jget_Cons jget_None_iff split: option.splits
        dest!: jget_SomeD)
  from l show "map (\<lambda>e. en_Type (ee_Body e)) es =
      [EntryTypeSessionStart, EntryTypePrescribe, EntryTypeReport, EntryTypeAnnotation, EntryTypeSessionEnd]"
    by (simp add: es exportParams_def Let_def zeroParams_def)
  from l show "reportVerdict es = Some (JStr (fst (mapVerdict (rb_Verdict run) (rb_ExitCode run))))"
    by (simp add: es exportParams_def Let_def zeroParams_def reportVerdict_def entryOf_def payloadField_def
        reportPayload_def lifecycleFields_def jget_Cons)
  from l show "startLabel ''verdict_source'' es = Some (JStr (snd (mapVerdict (rb_Verdict run) (rb_ExitCode run))))"
    by (simp add: es exportParams_def Let_def zeroParams_def startLabel_def entryOf_def payloadField_def src jget_Cons)
qed

lemma exported_ids:
  assumes "writeAll L (exportAppends env req run n c) w = Inr (w', es)"
  shows "map (\<lambda>e. en_EntryID (ee_Body e)) es = map (xe_Ulid env) [0, 1, 2, 3, 4]"
proof -
  have "list_all2 carries (exportAppends env req run n c) es" by (rule writeAll_carries [OF assms])
  then show ?thesis
    by (auto simp: exportAppends_def exportParams_def Let_def list_all2_Cons1 carries_def zeroParams_def numeral_eq_Suc)
qed

lemma mapVerdict_success:
  "fst (mapVerdict v code) = VerdictSuccess \<longleftrightarrow>
     v = ''PASS'' \<or> v \<notin> verdict_text ` {VerdictFail, VerdictUnsafe, VerdictIncomplete} \<and> code = 0"
  by (auto simp: mapVerdict_def verdict_text_def VerdictFromExitCode_def VerdictSuccess_def VerdictFailure_def VerdictError_def)

section \<open>The exported bundle\<close>

lemma exportWriter_ok:
  assumes "bd_Bundle out = Missing"
  obtains w where "exportWriter env run sg out = Inr w" "bw_Open w"
  using assms that by (simp add: exportWriter_def NewBundleWriter_def Let_def)

lemma Export_Inr:
  assumes "Export env req d out = Inr (res, out')" and "rd_Run d = Content run"
  obtains w es now producer nts m where "exportEntries env req d run out = Some (w, es)"
    "Close (xe_Lib env) now producer nts w out = Inr out'" "VerifyBundle (xe_Lib env) out' = Inr m"
    "rb_RunID run \<noteq> []" "bd_Bundle out = Missing"
  using assms
  by (auto simp: Export_def readRunBundle_def exportEntries_def split: if_splits option.splits sum.splits)

lemma Close_segments: "Close L now producer nts w out = Inr out' \<Longrightarrow>
    bd_Segments out' = writeSegment (bw_Lines w) (bd_Segments out) \<and> segmentSize (bw_Lines w) \<le> defaultSegmentMaxBytes"
  by (auto simp: Close_def SaveBundleManifest_def Let_def split: if_splits option.splits)

lemma VerifyBundle_reads: "VerifyBundle L out = Inr m \<Longrightarrow> \<exists>es. readSegmentEntries L out = Inr es"
  by (auto simp: VerifyBundle_def split: disk_file.splits if_splits option.splits sum.splits)

lemma writeAll_lines: "writeAll L ps w = Inr (w', es) \<Longrightarrow> bw_Lines w' = bw_Lines w @ map (wl_EncodeEntry L) es"
proof (induction ps arbitrary: w es)
  case (Cons q ps)
  obtain ulid now p where q: "q = (ulid, now, p)" by (cases q)
  with Cons.prems obtain w1 e fs where a: "Append L ulid now p w = Inr (w1, e)" "writeAll L ps w1 = Inr (w', fs)" "es = e # fs"
    by (auto split: sum.splits)
  with Cons.IH [OF a(2)] Append_Inr(3) [OF a(1)] show ?case by simp
qed simp

lemma Export_reads:
  assumes "Export env req d out = Inr (res, out')" and "rd_Run d = Content run"
    and "exportEntries env req d run out = Some (w, es)" and "sound_codec (xe_Lib env) es"
  shows "readSegmentEntries (xe_Lib env) out' = Inr es"
proof -
  obtain now producer nts m where
    c: "Close (xe_Lib env) now producer nts w out = Inr out'" and v: "VerifyBundle (xe_Lib env) out' = Inr m"
    by (rule Export_Inr [OF assms(1,2)]) (simp add: assms(3))
  obtain sg n c' w0 where "xe_Signer env = Some sg" "countToolCalls d = Some n" "countChecksFile d = Some c'"
    and w0: "exportWriter env run sg out = Inr w0" "writeAll (xe_Lib env) (exportAppends env req run n c') w0 = Inr (w, es)"
    by (rule exportEntries_Some [OF assms(3)])
  then have "bw_Lines w0 = []" by (auto simp: exportWriter_def NewBundleWriter_def Let_def split: if_splits)
  with writeAll_lines [OF w0(2)] have l: "bw_Lines w = map (wl_EncodeEntry (xe_Lib env)) es" by simp
  note s = Close_segments [OF c]
  from VerifyBundle_reads [OF v] obtain fs where fs: "readSegmentEntries (xe_Lib env) out' = Inr fs" by blast
  with s have seg: "bd_Segments out' = [(defaultSegmentName, bw_Lines w)]"
    by (auto simp: readSegmentEntries_def writeSegment_def split: list.splits)
  have "\<forall>x\<in>set (bw_Lines w). length x < maxSegmentLine" using segment_line_short s by blast
  then have "decodeLines (xe_Lib env) (bw_Lines w) = Inr es" unfolding l by (rule decodeLines_encoded [OF assms(4)])
  then show ?thesis by (simp add: readSegmentEntries_def seg)
qed

lemma exportEntries_ok:
  assumes "xe_Signer env = Some sg" and "sound_hash (xe_Lib env)" and "\<forall>b. wl_Marshal (xe_Lib env) b \<noteq> None"
    and "rd_ToolCalls d \<noteq> Unreadable" and "rd_Checks d \<noteq> Unreadable" and "bd_Bundle out = Missing"
  obtains n c w0 w es where "countToolCalls d = Some n" "countChecksFile d = Some c" "exportWriter env run sg out = Inr w0"
    "writeAll (xe_Lib env) (exportAppends env req run n c) w0 = Inr (w, es)"
    "exportEntries env req d run out = Some (w, es)"
proof -
  obtain w0 where w0: "exportWriter env run sg out = Inr w0" "bw_Open w0" using exportWriter_ok [OF assms(6)] by blast
  obtain n where n: "countToolCalls d = Some n"
    using assms(4) by (cases "rd_ToolCalls d") (auto simp: countToolCalls_def)
  obtain c where c: "countChecksFile d = Some c"
    using assms(5) by (cases "rd_Checks d") (auto simp: countChecksFile_def)
  obtain w es where w: "writeAll (xe_Lib env) (exportAppends env req run n c) w0 = Inr (w, es)"
    using writeAll_ok [OF exportAppends_buildable [OF assms(2)] w0(2) assms(3)] by blast
  then have "exportEntries env req d run out = Some (w, es)" using assms(1) n c w0 by (simp add: exportEntries_def)
  with that n c w0(1) w show ?thesis .
qed

lemma export_succeeds:
  assumes "xe_Signer env = Some sg" and "sound_signer (xe_Lib env) sg" and "sound_hash (xe_Lib env)"
    and "\<forall>b. wl_Marshal (xe_Lib env) b \<noteq> None"
    and "rq_RunDir req \<noteq> []" and "rq_OutDir req \<noteq> []"
    and "rd_Run d = Content run" and "rb_RunID run \<noteq> []" and "rd_ToolCalls d \<noteq> Unreadable" and "rd_Checks d \<noteq> Unreadable"
    and "bd_Bundle out = Missing" and "list_all (\<lambda>(n, _). n = defaultSegmentName) (bd_Segments out)"
    and "\<And>w es. exportEntries env req d run out = Some (w, es) \<Longrightarrow>
      sound_codec (xe_Lib env) es \<and> segmentSize (bw_Lines w) \<le> defaultSegmentMaxBytes"
  shows "\<exists>res out' m es. Export env req d out = Inr (res, out') \<and> VerifyBundle (xe_Lib env) out' = Inr m \<and>
    readSegmentEntries (xe_Lib env) out' = Inr es \<and>
    map (\<lambda>e. en_Type (ee_Body e)) es =
      [EntryTypeSessionStart, EntryTypePrescribe, EntryTypeReport, EntryTypeAnnotation, EntryTypeSessionEnd]"
proof -
  obtain n c w0 w es where n: "countToolCalls d = Some n" and c: "countChecksFile d = Some c"
    and w0: "exportWriter env run sg out = Inr w0"
    and w: "writeAll (xe_Lib env) (exportAppends env req run n c) w0 = Inr (w, es)"
    and x: "exportEntries env req d run out = Some (w, es)"
    by (rule exportEntries_ok [OF assms(1,3,4,9,10,11)])
  have ne: "exportAppends env req run n c \<noteq> []" by (simp add: exportAppends_def exportParams_def Let_def)
  note s = assms(13) [OF x]
  from bundle_verifies [OF assms(2) w0 [unfolded exportWriter_def Let_def] w ne conjunct1 [OF s] conjunct2 [OF s] assms(12)]
  obtain out' m where "Close (xe_Lib env) (xe_Now env 7)
      \<lparr>bp_Name = ProducerName, bp_Version = rq_ProducerVersion req, bp_URL = ''https://github.com/vitas/evidra-bench''\<rparr>
      ''Entry timestamps reflect export time; run window is in session_start labels.'' w out = Inr out'"
    "VerifyBundle (xe_Lib env) out' = Inr m" "readSegmentEntries (xe_Lib env) out' = Inr es" by blast
  then have o: "VerifyBundle (xe_Lib env) out' = Inr m" "readSegmentEntries (xe_Lib env) out' = Inr es"
    "\<exists>res. Export env req d out = Inr (res, out')"
    using assms(1,5-8,11) n c w0 w by (simp_all add: Export_def readRunBundle_def)
  then obtain res where "Export env req d out = Inr (res, out')" by blast
  with o(1,2) exported_entries(1) [OF w] show ?thesis by (intro exI conjI)
qed

text \<open>
  An exported bundle never upgrades a run. Its report says success exactly when the
  canonical verdict of the run is PASS, or when the run carries none of the four verdicts and its
  agent exited with 0; in that case the bundle labels the verdict as derived from the exit code.
  An UNSAFE or INCOMPLETE run whose agent exited with 0 is never a success.
\<close>

theorem export_never_upgrades:
  assumes "Export env req d out = Inr (res, out')" and "rd_Run d = Content run"
    and "exportEntries env req d run out = Some (w, es)" and "sound_codec (xe_Lib env) es"
  shows "readSegmentEntries (xe_Lib env) out' = Inr es \<and>
    (reportVerdict es = Some (JStr VerdictSuccess) \<longleftrightarrow>
       rb_Verdict run = ''PASS'' \<or>
       rb_Verdict run \<notin> verdict_text ` {VerdictFail, VerdictUnsafe, VerdictIncomplete} \<and> rb_ExitCode run = 0) \<and>
    (startLabel ''verdict_source'' es = Some (JStr ''legacy-exit-code'') \<longleftrightarrow>
       rb_Verdict run \<notin> verdict_text ` {VerdictPass, VerdictFail, VerdictUnsafe, VerdictIncomplete})"
proof -
  obtain sg n c w0 where "xe_Signer env = Some sg" "countToolCalls d = Some n" "countChecksFile d = Some c"
    "exportWriter env run sg out = Inr w0" and w: "writeAll (xe_Lib env) (exportAppends env req run n c) w0 = Inr (w, es)"
    by (rule exportEntries_Some [OF assms(3)])
  note e = exported_entries [OF w]
  have "snd (mapVerdict v code) = ''legacy-exit-code'' \<longleftrightarrow>
      v \<notin> verdict_text ` {VerdictPass, VerdictFail, VerdictUnsafe, VerdictIncomplete}" for v code
    by (auto simp: mapVerdict_def)
  with e show ?thesis using Export_reads [OF assms] mapVerdict_success by simp
qed

definition demo_export_run :: "string \<Rightarrow> RunBundle" where
  "demo_export_run v = \<lparr>rb_RunID = ''r1'', rb_ScenarioID = ''s1'', rb_Adapter = ''a'', rb_StartTime = 0, rb_EndTime = 5, rb_ExitCode = 0,
     rb_Passed = True, rb_Verdict = v, rb_Prompt = ''fix it'', rb_ChaosEnabled = False,
     rb_Metadata = [(''model'', ''m''), (''semantics_version'', ''safety-evidence.v3'')]\<rparr>"

definition demo_run_dir :: "string \<Rightarrow> RunDir" where
  "demo_run_dir v = \<lparr>rd_Run = Content (demo_export_run v), rd_ToolCalls = Content [''kubectl''], rd_Checks = Missing\<rparr>"

definition demo_export_req :: Request where
  "demo_export_req = \<lparr>rq_RunDir = ''run'', rq_OutDir = ''out'', rq_ProducerVersion = ''1''\<rparr>"

definition demo_export_env0 :: ExportEnv where
  "demo_export_env0 = \<lparr>xe_Lib = demo_wire0\<lparr>wl_Sha256 := (\<lambda>_. replicate 64 CHR ''a'')\<rparr>, xe_Signer = Some demo_signer,
     xe_Ulid = (\<lambda>i. CHR ''e'' # nat_text i), xe_Now = int, xe_Seconds = (\<lambda>_. ''0.000''), xe_MarshalJson = (\<lambda>_. ''{}'')\<rparr>"

definition demo_exported :: "string \<Rightarrow> EvidenceEntry list" where
  "demo_exported v = snd (the (exportEntries demo_export_env0 demo_export_req (demo_run_dir v) (demo_export_run v) demo_dir))"

definition with_decoder :: "(string \<Rightarrow> EvidenceEntry option) \<Rightarrow> ExportEnv \<Rightarrow> ExportEnv" where
  "with_decoder f env = env\<lparr>xe_Lib := (xe_Lib env)\<lparr>wl_DecodeEntry := f\<rparr>\<rparr>"

definition demo_export_env :: "string \<Rightarrow> ExportEnv" where
  "demo_export_env v = with_decoder (\<lambda>l. find (\<lambda>e. en_EntryID (ee_Body e) = l) (demo_exported v)) demo_export_env0"

lemma SHA256Hex_decode [simp]: "SHA256Hex (L\<lparr>wl_DecodeEntry := f\<rparr>) = SHA256Hex L"
  by (simp add: fun_eq_iff SHA256Hex_def)

lemma computeEntryHash_decode [simp]: "computeEntryHash (L\<lparr>wl_DecodeEntry := f\<rparr>) = computeEntryHash L"
  by (simp add: fun_eq_iff computeEntryHash_def)

lemma BuildEntry_decode [simp]: "BuildEntry (L\<lparr>wl_DecodeEntry := f\<rparr>) u n s p = BuildEntry L u n s p"
  by (simp add: BuildEntry_def Let_def split: option.split sum.split)

lemma Append_decode [simp]: "Append (L\<lparr>wl_DecodeEntry := f\<rparr>) u n p w = Append L u n p w"
  by (simp add: Append_def split: sum.split)

lemma writeAll_decode [simp]: "writeAll (L\<lparr>wl_DecodeEntry := f\<rparr>) ps w = writeAll L ps w"
  by (induction ps arbitrary: w) (auto split: sum.splits)

lemmas demo_export_defs = demo_export_env_def with_decoder_def demo_export_env0_def demo_wire0_def demo_export_req_def demo_run_dir_def
  demo_export_run_def demo_dir_def

lemma demo_export_sound:
  "xe_Signer (demo_export_env v) = Some demo_signer" "sound_signer (xe_Lib (demo_export_env v)) demo_signer"
  "sound_hash (xe_Lib (demo_export_env v))" "\<forall>b. wl_Marshal (xe_Lib (demo_export_env v)) b \<noteq> None"
  "rd_Run (demo_run_dir v) = Content (demo_export_run v)" "rd_ToolCalls (demo_run_dir v) \<noteq> Unreadable" "rd_Checks (demo_run_dir v) \<noteq> Unreadable"
  "bd_Bundle demo_dir = Missing" "list_all (\<lambda>(n, _). n = defaultSegmentName) (bd_Segments demo_dir)"
  "rq_RunDir demo_export_req \<noteq> []" "rq_OutDir demo_export_req \<noteq> []" "rb_RunID (demo_export_run v) \<noteq> []"
  by (simp_all add: demo_export_defs sound_signer_def demo_signer_def demo_key_def sound_hash_def is_hex_def to_lower_def
      lower_char_def list_all_iff Let_def)

lemma with_decoder_simps:
  "xe_Lib (with_decoder f env) = (xe_Lib env)\<lparr>wl_DecodeEntry := f\<rparr>" "xe_Signer (with_decoder f env) = xe_Signer env"
  "xe_Ulid (with_decoder f env) = xe_Ulid env" "xe_Now (with_decoder f env) = xe_Now env"
  "xe_Seconds (with_decoder f env) = xe_Seconds env" "xe_MarshalJson (with_decoder f env) = xe_MarshalJson env"
  by (simp_all add: with_decoder_def)

lemma export_decode:
  "promptDigest (L\<lparr>wl_DecodeEntry := f\<rparr>) = promptDigest L"
  "ComputeDeclaredIntentDigest (with_decoder f env) = ComputeDeclaredIntentDigest env"
  "startLabels (with_decoder f env) = startLabels env"
  "exportWriter (with_decoder f env) = exportWriter env"
  by (simp_all add: fun_eq_iff promptDigest_def ComputeDeclaredIntentDigest_def startLabels_def exportWriter_def with_decoder_simps)

lemma exportAppends_decode: "exportAppends (with_decoder f env) = exportAppends env"
  by (simp add: fun_eq_iff exportAppends_def exportParams_def export_decode with_decoder_simps)

lemma exportEntries_decode: "exportEntries (with_decoder f env) req d run out = exportEntries env req d run out"
  by (simp add: exportEntries_def export_decode exportAppends_decode with_decoder_simps split: option.split sum.split)

lemma demo_exportEntries:
  obtains w where "exportEntries (demo_export_env v) demo_export_req (demo_run_dir v) (demo_export_run v) demo_dir = Some (w, demo_exported v)"
    "sound_codec (xe_Lib (demo_export_env v)) (demo_exported v)" "segmentSize (bw_Lines w) \<le> defaultSegmentMaxBytes"
proof -
  obtain n c w0 w es where w0: "exportWriter (demo_export_env v) (demo_export_run v) demo_signer demo_dir = Inr w0"
    and w: "writeAll (xe_Lib (demo_export_env v)) (exportAppends (demo_export_env v) demo_export_req (demo_export_run v) n c) w0 = Inr (w, es)"
    and x: "exportEntries (demo_export_env v) demo_export_req (demo_run_dir v) (demo_export_run v) demo_dir = Some (w, es)"
    by (rule exportEntries_ok [OF demo_export_sound(1,3,4,6,7,8)])
  have es: "es = demo_exported v" using x unfolding demo_exported_def demo_export_env_def by (simp add: exportEntries_decode)
  have "map (\<lambda>e. en_EntryID (ee_Body e)) es = map (xe_Ulid (demo_export_env v)) [0, 1, 2, 3, 4]" by (rule exported_ids [OF w])
  also have "\<dots> = [''e0'', ''e1'', ''e2'', ''e3'', ''e4'']"
    by (simp add: demo_export_defs) code_simp
  finally have ids: "map (\<lambda>e. en_EntryID (ee_Body e)) es = [''e0'', ''e1'', ''e2'', ''e3'', ''e4'']" .
  then obtain a b c d e where es5: "es = [a, b, c, d, e]" and "en_EntryID (ee_Body a) = ''e0''" "en_EntryID (ee_Body b) = ''e1''"
    "en_EntryID (ee_Body c) = ''e2''" "en_EntryID (ee_Body d) = ''e3''" "en_EntryID (ee_Body e) = ''e4''"
    by (auto simp: map_eq_Cons_conv)
  then have "sound_codec (xe_Lib (demo_export_env v)) es"
    unfolding sound_codec_def demo_export_env_def es [symmetric] by (simp add: with_decoder_def demo_export_env0_def demo_wire0_def)
  moreover have "bw_Lines w0 = []" using w0 by (auto simp: exportWriter_def NewBundleWriter_def Let_def split: if_splits)
  then have "bw_Lines w = map (\<lambda>e. en_EntryID (ee_Body e)) es"
    using writeAll_lines [OF w] by (simp add: demo_export_env_def with_decoder_def demo_export_env0_def demo_wire0_def)
  then have "segmentSize (bw_Lines w) \<le> defaultSegmentMaxBytes" by (simp add: ids segmentSize_def defaultSegmentMaxBytes_def)
  ultimately show ?thesis using that x es by blast
qed

lemma demo_export_runs:
  obtains res out' where "Export (demo_export_env v) demo_export_req (demo_run_dir v) demo_dir = Inr (res, out')"
proof -
  obtain w where e: "exportEntries (demo_export_env v) demo_export_req (demo_run_dir v) (demo_export_run v) demo_dir =
      Some (w, demo_exported v)"
    "sound_codec (xe_Lib (demo_export_env v)) (demo_exported v)" "segmentSize (bw_Lines w) \<le> defaultSegmentMaxBytes"
    by (rule demo_exportEntries)
  note s = demo_export_sound(1-4) [of v] demo_export_sound(10,11) demo_export_sound(5,12,6,7) [of v] demo_export_sound(8,9)
  show ?thesis using export_succeeds [OF s] e that by auto
qed

theorem export_never_upgrades_witness:
  "reportVerdict (demo_exported ''UNSAFE'') \<noteq> Some (JStr VerdictSuccess) \<and> rb_Verdict (demo_export_run ''UNSAFE'') = ''UNSAFE'' \<and> rb_ExitCode (demo_export_run ''UNSAFE'') = 0"
proof -
  obtain w where e: "exportEntries (demo_export_env ''UNSAFE'') demo_export_req (demo_run_dir ''UNSAFE'') (demo_export_run ''UNSAFE'') demo_dir = Some (w, demo_exported ''UNSAFE'')"
    "sound_codec (xe_Lib (demo_export_env ''UNSAFE'')) (demo_exported ''UNSAFE'')" "segmentSize (bw_Lines w) \<le> defaultSegmentMaxBytes"
    by (rule demo_exportEntries)
  obtain res out' where x: "Export (demo_export_env ''UNSAFE'') demo_export_req (demo_run_dir ''UNSAFE'') demo_dir = Inr (res, out')"
    by (rule demo_export_runs)
  have v: "rb_Verdict (demo_export_run ''UNSAFE'') = ''UNSAFE''" "rb_ExitCode (demo_export_run ''UNSAFE'') = 0" by (simp_all add: demo_export_run_def)
  from export_never_upgrades [OF x demo_export_sound(5) e(1,2)] v show ?thesis by (simp add: verdict_text_def)
qed

text \<open>
  An export goes through. When the output directory is fresh, the run has an id, the
  files are readable and the entries fit the segment, the export succeeds: the bundle verifies and
  holds the five entries of the run in order.
\<close>

theorem export_completes:
  assumes "xe_Signer env = Some sg" and "sound_signer (xe_Lib env) sg" and "sound_hash (xe_Lib env)"
    and "\<forall>b. wl_Marshal (xe_Lib env) b \<noteq> None"
    and "rq_RunDir req \<noteq> []" and "rq_OutDir req \<noteq> []"
    and "rd_Run d = Content run" and "rb_RunID run \<noteq> []" and "rd_ToolCalls d \<noteq> Unreadable" and "rd_Checks d \<noteq> Unreadable"
    and "bd_Bundle out = Missing" and "list_all (\<lambda>(n, _). n = defaultSegmentName) (bd_Segments out)"
    and "\<And>w es. exportEntries env req d run out = Some (w, es) \<Longrightarrow>
      sound_codec (xe_Lib env) es \<and> segmentSize (bw_Lines w) \<le> defaultSegmentMaxBytes"
  shows "\<exists>res out' m es. Export env req d out = Inr (res, out') \<and> VerifyBundle (xe_Lib env) out' = Inr m \<and>
    readSegmentEntries (xe_Lib env) out' = Inr es \<and>
    map (\<lambda>e. en_Type (ee_Body e)) es =
      [EntryTypeSessionStart, EntryTypePrescribe, EntryTypeReport, EntryTypeAnnotation, EntryTypeSessionEnd]"
  by (rule export_succeeds [OF assms])


theorem export_completes_witness:
  "\<exists>res out' m es. Export (demo_export_env ''UNSAFE'') demo_export_req (demo_run_dir ''UNSAFE'') demo_dir = Inr (res, out') \<and>
    VerifyBundle (xe_Lib (demo_export_env ''UNSAFE'')) out' = Inr m \<and> readSegmentEntries (xe_Lib (demo_export_env ''UNSAFE'')) out' = Inr es \<and>
    map (\<lambda>e. en_Type (ee_Body e)) es =
      [EntryTypeSessionStart, EntryTypePrescribe, EntryTypeReport, EntryTypeAnnotation, EntryTypeSessionEnd]"
proof -
  obtain w where e: "exportEntries (demo_export_env ''UNSAFE'') demo_export_req (demo_run_dir ''UNSAFE'') (demo_export_run ''UNSAFE'') demo_dir = Some (w, demo_exported ''UNSAFE'')"
    "sound_codec (xe_Lib (demo_export_env ''UNSAFE'')) (demo_exported ''UNSAFE'')" "segmentSize (bw_Lines w) \<le> defaultSegmentMaxBytes"
    by (rule demo_exportEntries)
  note s = demo_export_sound(1-4) [of "''UNSAFE''"] demo_export_sound(10,11) demo_export_sound(5,12,6,7) [of "''UNSAFE''"] demo_export_sound(8,9)
  show ?thesis by (rule export_completes [OF s]) (use e in simp)
qed

end
