(* ===== verification/Go_Path.thy ===== *)
theory Go_Path
  imports Go_Prelude "HOL-Library.Sublist"
begin

text \<open>
  \<^verbatim>\<open>path/filepath\<close> on Unix, as far as the loaders use it: \<^verbatim>\<open>Clean\<close>, \<^verbatim>\<open>Join\<close> of two elements, \<^verbatim>\<open>IsAbs\<close> and
  \<^verbatim>\<open>Rel\<close>, and the confinement test \<^verbatim>\<open>pathWithinRoot\<close> that \<^verbatim>\<open>pkg/scenario/loader.go\<close> and
  \<^verbatim>\<open>pkg/suite/manifest.go\<close> share. A path is its elements: \<open>elems\<close> gives those of the cleaned path. The
  lemmas turn the textual tests of the code into statements about prefixes of element lists.
\<close>

section \<open>Functions\<close>

definition IsAbs :: "string \<Rightarrow> bool" where
  "IsAbs p \<longleftrightarrow> has_prefix p ''/''"

text \<open>The elements kept so far are a stack; \<open>..\<close> takes one off, or stays when there is nothing to take in a relative path.\<close>

fun clean_elems :: "bool \<Rightarrow> string list \<Rightarrow> string list \<Rightarrow> string list" where
  "clean_elems rooted st [] = rev st"
| "clean_elems rooted st (c # cs) =
     (if c = [] \<or> c = ''.'' then clean_elems rooted st cs
      else if c = ''..'' then
        (case st of
           [] \<Rightarrow> clean_elems rooted (if rooted then [] else [''..'']) cs
         | t # ts \<Rightarrow> clean_elems rooted (if t = ''..'' then ''..'' # st else ts) cs)
      else clean_elems rooted (c # st) cs)"

definition elems :: "string \<Rightarrow> string list" where
  "elems p = clean_elems (IsAbs p) [] (split_at CHR ''/'' p)"

definition Clean :: "string \<Rightarrow> string" where
  "Clean p = (if IsAbs p then CHR ''/'' # join (elems p) ''/''
     else if elems p = [] then ''.'' else join (elems p) ''/'')"

definition Join :: "string \<Rightarrow> string \<Rightarrow> string" where
  "Join a b = (if a = [] then (if b = [] then [] else Clean b) else Clean (a @ ''/'' @ b))"

fun common :: "string list \<Rightarrow> string list \<Rightarrow> nat" where
  "common (x # xs) (y # ys) = (if x = y then Suc (common xs ys) else 0)"
| "common _ _ = 0"

definition Rel :: "string \<Rightarrow> string \<Rightarrow> string option" where
  "Rel base targ =
     (let n = common (elems base) (elems targ); b = drop n (elems base); t = drop n (elems targ) in
      if IsAbs base \<noteq> IsAbs targ then None
      else if b \<noteq> [] \<and> hd b = ''..'' then None
      else if b = [] \<and> t = [] then Some ''.''
      else Some (join (replicate (length b) ''..'' @ t) ''/''))"

definition pathWithinRoot :: "string \<Rightarrow> string \<Rightarrow> bool" where
  "pathWithinRoot root candidate = (case Rel root candidate of
     None \<Rightarrow> False
   | Some rel \<Rightarrow> rel \<noteq> ''..'' \<and> \<not> has_prefix rel ''../'' \<and> \<not> IsAbs rel)"

section \<open>Elements\<close>

definition elem_ok :: "string \<Rightarrow> bool" where
  "elem_ok c \<longleftrightarrow> c \<noteq> [] \<and> c \<noteq> ''.'' \<and> CHR ''/'' \<notin> set c"

lemma split_at_no_sep: "w \<in> set (split_at c s) \<Longrightarrow> c \<notin> set w"
  by (induction c s arbitrary: w rule: split_at.induct) (auto split: if_splits list.splits)

lemma clean_elems_all:
  assumes "P ''..''" and "list_all (\<lambda>c. c = [] \<or> c = ''.'' \<or> P c) cs" and "list_all P st"
  shows "list_all P (clean_elems r st cs)"
  using assms(2,3)
proof (induction cs arbitrary: st)
  case (Cons c cs)
  then show ?case using assms(1) by (cases st) auto
qed (simp add: list_all_rev)

lemma elems_ok: "c \<in> set (elems p) \<Longrightarrow> elem_ok c"
proof -
  have "list_all (\<lambda>c. c = [] \<or> c = ''.'' \<or> elem_ok c) (split_at CHR ''/'' p)"
    unfolding list_all_iff elem_ok_def using split_at_no_sep by blast
  moreover have "elem_ok ''..''" by (simp add: elem_ok_def)
  ultimately have "list_all elem_ok (elems p)" unfolding elems_def by (intro clean_elems_all) simp_all
  then show "c \<in> set (elems p) \<Longrightarrow> elem_ok c" by (simp add: list_all_iff)
qed

lemma clean_elems_rooted: "''..'' \<notin> set st \<Longrightarrow> ''..'' \<notin> set (clean_elems True st cs)"
proof (induction cs arbitrary: st)
  case (Cons c cs)
  then show ?case by (cases st) auto
qed simp

lemma elems_abs: "IsAbs p \<Longrightarrow> ''..'' \<notin> set (elems p)"
  by (simp add: elems_def clean_elems_rooted)

lemma clean_elems_append: "clean_elems r st (xs @ ys) = clean_elems r (rev (clean_elems r st xs)) ys"
  by (induction r st xs rule: clean_elems.induct) (auto split: list.splits)

lemma split_at_join2: "split_at c (a @ c # b) = split_at c a @ split_at c b"
  by (induction a) (auto split: list.splits)

text \<open>Once a relative path has left its start, it never comes back.\<close>

lemma clean_elems_escaped: "\<exists>zs. clean_elems False (st @ [''..'']) cs = ''..'' # zs"
proof (induction cs arbitrary: st)
  case (Cons c cs)
  show ?case
  proof (cases "c = ''..''")
    case True
    then show ?thesis
      using Cons.IH [of "''..'' # st"] Cons.IH [of "tl st"] Cons.IH [of "[''..'']"]
      by (cases st) auto
  next
    case False
    then show ?thesis using Cons.IH [of st] Cons.IH [of "c # st"] by auto
  qed
qed simp

text \<open>A relative path that stays inside its start behaves the same below any directory.\<close>

lemma clean_elems_inside:
  assumes "''..'' \<notin> set st" and "''..'' \<notin> set (clean_elems False st cs)"
  shows "clean_elems r (st @ base) cs = rev base @ clean_elems False st cs"
  using assms
proof (induction cs arbitrary: st)
  case (Cons c cs)
  show ?case
  proof (cases "c = ''..''")
    case True
    show ?thesis
    proof (cases st)
      case Nil
      then have "''..'' \<in> set (clean_elems False st (c # cs))"
        using True clean_elems_escaped [of "[]" cs] by auto
      with Cons.prems show ?thesis by blast
    next
      case (Cons t ts)
      with Cons.prems True Cons.IH [of ts] show ?thesis by auto
    qed
  next
    case False
    then show ?thesis using Cons.prems Cons.IH [of st] Cons.IH [of "c # st"] by (auto split: if_splits)
  qed
qed simp

text \<open>
  Joining a relative path that does not climb out of its start to a directory gives a path below the
  directory.
\<close>

lemma elems_Join_inside:
  assumes "dir \<noteq> []" and "\<not> IsAbs p" and "''..'' \<notin> set (elems p)"
  shows "elems (dir @ ''/'' @ p) = elems dir @ elems p"
proof -
  have a: "IsAbs (dir @ ''/'' @ p) = IsAbs dir" using assms(1) by (cases dir) (auto simp: IsAbs_def has_prefix_def)
  have e: "clean_elems False [] (split_at CHR ''/'' p) = elems p" using assms(2) by (simp add: elems_def)
  have "elems (dir @ ''/'' @ p) = clean_elems (IsAbs dir) (rev (elems dir)) (split_at CHR ''/'' p)"
    unfolding elems_def a by (simp add: split_at_join2 clean_elems_append)
  also have "\<dots> = elems dir @ elems p"
    using clean_elems_inside [of "[]" "split_at CHR ''/'' p" "IsAbs dir" "rev (elems dir)"] assms(3) e by simp
  finally show ?thesis .
qed

section \<open>Textual tests\<close>

lemma join_Cons: "join (x # xs) sep = x @ (if xs = [] then [] else sep @ join xs sep)"
  by (cases xs) simp_all

lemma join_dotdot:
  assumes "elem_ok c"
  shows "join (c # cs) ''/'' = ''..'' \<or> has_prefix (join (c # cs) ''/'') ''../'' \<longleftrightarrow> c = ''..''"
proof
  assume "c = ''..''"
  then show "join (c # cs) ''/'' = ''..'' \<or> has_prefix (join (c # cs) ''/'') ''../''"
    by (cases cs) (simp_all add: join_Cons has_prefix_def)
next
  assume a: "join (c # cs) ''/'' = ''..'' \<or> has_prefix (join (c # cs) ''/'') ''../''"
  have c: "c \<noteq> []" "CHR ''/'' \<notin> set c" "c \<noteq> ''.''" using assms by (simp_all add: elem_ok_def)
  from a obtain r where r: "join (c # cs) ''/'' = ''..'' @ r" "r = [] \<or> (\<exists>s. r = CHR ''/'' # s)"
    by (auto simp: has_prefix_iff)
  show "c = ''..''"
  proof (cases cs)
    case Nil
    with r have "c = ''..'' @ r" by simp
    with c(2) r(2) show ?thesis by auto
  next
    case (Cons d ds)
    with r have e: "c @ CHR ''/'' # join cs ''/'' = ''..'' @ r" by (simp add: join_Cons)
    obtain x y zs where "c = [x] \<or> c = x # y # zs" using c(1) by (metis neq_Nil_conv)
    then show ?thesis using e c(2,3) r(2) by (cases zs) auto
  qed
qed

lemma join_IsAbs: "\<forall>c\<in>set cs. elem_ok c \<Longrightarrow> \<not> IsAbs (join cs ''/'')"
proof (cases cs)
  case (Cons c ds)
  assume "\<forall>c\<in>set cs. elem_ok c"
  then have "c \<noteq> []" "CHR ''/'' \<notin> set c" using Cons by (simp_all add: elem_ok_def)
  then show ?thesis by (cases c) (auto simp: Cons join_Cons IsAbs_def has_prefix_def)
qed (simp add: IsAbs_def has_prefix_def)

lemma IsAbs_Clean [simp]: "IsAbs (Clean p) = IsAbs p"
  using join_IsAbs [of "elems p"] elems_ok [of _ p] by (auto simp: Clean_def) (simp_all add: IsAbs_def has_prefix_def)

text \<open>In a cleaned relative path, \<open>..\<close> stands only at the front.\<close>

lemma clean_elems_front:
  assumes "''..'' \<notin> set zs"
  shows "\<exists>m ys. clean_elems False (zs @ replicate n ''..'') cs = replicate m ''..'' @ ys \<and> ''..'' \<notin> set ys"
  using assms
proof (induction cs arbitrary: zs n)
  case Nil
  then show ?case by (intro exI [of _ n] exI [of _ "rev zs"]) simp
next
  case (Cons c cs)
  show ?case
  proof (cases "c = ''..''")
    case True
    show ?thesis
    proof (cases zs)
      case Nil
      then show ?thesis using True Cons.IH [of "[]" "Suc n"] by (cases n) simp_all
    next
      case (Cons t ts)
      then show ?thesis using True Cons.prems Cons.IH [of ts n] by auto
    qed
  next
    case False
    then show ?thesis using Cons.prems Cons.IH [of zs n] Cons.IH [of "c # zs" n] by simp
  qed
qed

lemma Clean_climbs:
  assumes "\<not> IsAbs p"
  shows "Clean p = ''..'' \<or> has_prefix (Clean p) ''../'' \<longleftrightarrow> ''..'' \<in> set (elems p)"
proof (cases "elems p")
  case Nil
  then show ?thesis using assms by (simp add: Clean_def has_prefix_def)
next
  case (Cons c cs)
  obtain m ys where m: "elems p = replicate m ''..'' @ ys" "''..'' \<notin> set ys"
    using clean_elems_front [of "[]" 0 "split_at CHR ''/'' p"] assms by (auto simp: elems_def)
  then have "''..'' \<in> set (elems p) \<longleftrightarrow> c = ''..''" using Cons by (cases m) auto
  moreover have "elem_ok c" using elems_ok [of c p] Cons by simp
  ultimately show ?thesis using join_dotdot [of c cs] assms Cons by (simp add: Clean_def)
qed

lemma drop_common: "drop (common xs ys) xs = [] \<longleftrightarrow> prefix xs ys"
  by (induction xs ys rule: common.induct) auto

lemma common_prefix: "prefix xs ys \<Longrightarrow> common xs ys = length xs"
  by (induction xs ys rule: common.induct) auto

text \<open>The test of the loaders: an absolute path is within an absolute root iff its elements continue those of the root.\<close>

lemma pathWithinRoot_iff:
  assumes "IsAbs root" and "IsAbs p"
  shows "pathWithinRoot root p \<longleftrightarrow> prefix (elems root) (elems p)"
proof -
  let ?n = "common (elems root) (elems p)"
  let ?b = "drop ?n (elems root)" and ?t = "drop ?n (elems p)"
  have nb: "?b \<noteq> [] \<Longrightarrow> hd ?b \<noteq> ''..''"
    using elems_abs [OF assms(1)] by (metis in_set_dropD list.set_sel(1))
  have ok: "\<forall>c\<in>set ?t. elem_ok c" using elems_ok by (metis in_set_dropD)
  show ?thesis
  proof (cases "?b = []")
    case True
    then have pre: "prefix (elems root) (elems p)" using drop_common by blast
    have "pathWithinRoot root p"
    proof (cases ?t)
      case Nil
      then show ?thesis using assms True by (simp add: pathWithinRoot_def Rel_def Let_def has_prefix_def IsAbs_def)
    next
      case (Cons c cs)
      have "c \<in> set (elems p)" using Cons by (metis in_set_dropD list.set_intros(1))
      then have "c \<noteq> ''..''" using elems_abs [OF assms(2)] by auto
      moreover have "elem_ok c" using ok Cons by simp
      ultimately have "join ?t ''/'' \<noteq> ''..''" "\<not> has_prefix (join ?t ''/'') ''../''" "\<not> IsAbs (join ?t ''/'')"
        using join_dotdot [of c cs] join_IsAbs [OF ok] Cons by simp_all
      then show ?thesis using assms True Cons by (simp add: pathWithinRoot_def Rel_def Let_def)
    qed
    with pre show ?thesis by simp
  next
    case False
    then obtain k where k: "length ?b = Suc k" by (cases "length ?b") auto
    have "Rel root p = Some (join (''..'' # replicate k ''..'' @ ?t) ''/'')"
      using assms False nb [OF False] k by (simp add: Rel_def Let_def)
    moreover have "elem_ok ''..''" by (simp add: elem_ok_def)
    ultimately have "\<not> pathWithinRoot root p"
      using join_dotdot [of "''..''" "replicate k ''..'' @ ?t"] by (auto simp: pathWithinRoot_def)
    moreover have "\<not> prefix (elems root) (elems p)" using False drop_common by blast
    ultimately show ?thesis by simp
  qed
qed

end
