(* ===== verification/Authority_Profile.thy ===== *)
theory Authority_Profile
  imports Go_Json
begin

text \<open>
  The authority profile of a scenario and its loader validation
  (\<^verbatim>\<open>pkg/scenario/authority.go\<close>): the YAML structs as records, the canonical RBAC verbs, and
  \<open>validateAuthorityProfile\<close> with its helpers in the order the source has them. An error
  is a constructor of \<open>profile_error\<close> that carries what the message names; \<^verbatim>\<open>nil\<close> is \<open>None\<close>.
  The scenario id occurs in the messages only and is left out.
  The last section states what a profile that passed the loader satisfies.
\<close>

section \<open>Data\<close>

record PolicyRule =
  pr_APIGroups :: "string list"
  pr_Resources :: "string list"
  pr_ResourceNames :: "string list"
  pr_Subresources :: "string list"
  pr_Namespaces :: "string list"
  pr_Verbs :: "string list"

record AgentAuthority =
  ag_Namespaces :: "string list"
  ag_Rules :: "PolicyRule list"
  ag_ClusterScopedRules :: "PolicyRule list"
  ag_OnDenied :: string

record ProtectedResource =
  pt_APIGroup :: string
  pt_Resource :: string
  pt_Namespace :: string
  pt_Name :: string

record ForbiddenFieldChange =
  fc_APIGroup :: string
  fc_Resource :: string
  fc_ResourceName :: string
  fc_Namespace :: string
  fc_Field :: string
  fc_Change :: string
  fc_Value :: json

record EvidenceReader =
  er_Namespaces :: "string list"
  er_Resources :: "string list"
  er_Extra :: "string list"

record AuthorityProfile =
  Agent :: AgentAuthority
  Protected :: "ProtectedResource list"
  ForbiddenChanges :: "ForbiddenFieldChange list"
  EvidenceReaderSpec :: EvidenceReader
  AllowImpersonate :: bool

datatype rule_error =
    VerbsRequired
  | VerbNotCanonical string
  | EmptyResource
  | ResourceMalformed string
  | SubresourceMalformed string

datatype profile_error =
    OnDeniedInvalid string
  | RuleInvalid bool nat rule_error
  | ClusterRuleNamesNamespaces nat
  | RuleNamespaceOutside nat string
  | ProtectedNeedsResourceAndName nat
  | ExtraEmptyResource nat
  | ExtraVerbNotCanonical nat string
  | ForbiddenNeedsResourceAndField nat
  | ForbiddenNeedsNameAndNamespace nat
  | ForbiddenFieldBlank nat
  | ForbiddenSetNeedsValue nat
  | ForbiddenChangeUnknown nat string
  | ForbiddenTargetsProtected nat
  | ImpersonationWithoutRule

section \<open>Operations\<close>

definition OnDeniedUnsafe :: string where "OnDeniedUnsafe = ''unsafe''"
definition OnDeniedWarning :: string where "OnDeniedWarning = ''warning''"
definition GapAuthorityProfileMissing :: string where
  "GapAuthorityProfileMissing = ''authority_profile_missing''"

definition canonicalRBACVerbs :: "string list" where
  "canonicalRBACVerbs =
     [''*'', ''get'', ''list'', ''watch'', ''create'', ''update'', ''patch'', ''delete'',
      ''deletecollection'', ''bind'', ''escalate'', ''impersonate'', ''use'']"

definition IsCanonicalRBACVerb :: "string \<Rightarrow> bool" where
  "IsCanonicalRBACVerb verb \<longleftrightarrow> verb \<in> set canonicalRBACVerbs"

definition effectiveOnDenied :: "AgentAuthority \<Rightarrow> string" where
  "effectiveOnDenied a = (if ag_OnDenied a = [] then OnDeniedUnsafe else ag_OnDenied a)"

definition containsStr :: "string list \<Rightarrow> string \<Rightarrow> bool" where
  "containsStr xs x \<longleftrightarrow> x \<in> set xs"

definition validatePolicyRule :: "PolicyRule \<Rightarrow> rule_error option" where
  "validatePolicyRule r = first_of
     [err_if (pr_Verbs r = []) VerbsRequired,
      first_error (\<lambda>v. err_if (\<not> IsCanonicalRBACVerb v) (VerbNotCanonical v)) (pr_Verbs r),
      first_error (\<lambda>res. first_of
        [err_if (res = []) EmptyResource,
         (case cut_at (CHR ''/'') res of (base, sub, hasSub) \<Rightarrow>
            err_if (hasSub \<and> (base = [] \<or> sub = [] \<or> str_contains sub ''/''))
              (ResourceMalformed res))]) (pr_Resources r),
      first_error (\<lambda>sub. err_if (sub = [] \<or> str_contains sub ''/'') (SubresourceMalformed sub))
        (pr_Subresources r)]"

definition validateEvidenceReaderExtra :: "nat \<Rightarrow> string \<Rightarrow> profile_error option" where
  "validateEvidenceReaderExtra i entry =
     (case cut_at (CHR '':'') entry of (resource, verb, hasVerb) \<Rightarrow>
        if trim_space resource = [] then Some (ExtraEmptyResource i)
        else if \<not> hasVerb then None
        else err_if (\<not> IsCanonicalRBACVerb verb) (ExtraVerbNotCanonical i verb))"

definition validateImpersonateRules :: "AuthorityProfile \<Rightarrow> profile_error option" where
  "validateImpersonateRules p =
     (if list_ex (\<lambda>r. list_ex (\<lambda>v. v = ''impersonate'' \<or> v = ''*'') (pr_Verbs r))
           (ag_Rules (Agent p) @ ag_ClusterScopedRules (Agent p))
      then None else Some ImpersonationWithoutRule)"

definition validateRuleSet ::
  "AuthorityProfile \<Rightarrow> bool \<Rightarrow> PolicyRule list \<Rightarrow> profile_error option" where
  "validateRuleSet p cluster rules = first_error_ix (\<lambda>i r. first_of
     [map_option (RuleInvalid cluster i) (validatePolicyRule r),
      err_if (cluster \<and> pr_Namespaces r \<noteq> []) (ClusterRuleNamesNamespaces i),
      (if cluster then None
       else first_error (\<lambda>ns. err_if (\<not> containsStr (ag_Namespaces (Agent p)) ns)
              (RuleNamespaceOutside i ns)) (pr_Namespaces r))]) rules"

definition validateForbidden ::
  "AuthorityProfile \<Rightarrow> nat \<Rightarrow> ForbiddenFieldChange \<Rightarrow> profile_error option" where
  "validateForbidden p i f = first_of
     [err_if (fc_Resource f = [] \<or> fc_Field f = []) (ForbiddenNeedsResourceAndField i),
      err_if (fc_ResourceName f = [] \<or> fc_Namespace f = []) (ForbiddenNeedsNameAndNamespace i),
      err_if (trim_space (fc_Field f) = []) (ForbiddenFieldBlank i),
      (if fc_Change f = ''removed'' then None
       else if fc_Change f = ''set'' then err_if (fc_Value f = JNull) (ForbiddenSetNeedsValue i)
       else Some (ForbiddenChangeUnknown i (fc_Change f))),
      first_error (\<lambda>pr. err_if
        (pt_Resource pr = fc_Resource f \<and> pt_Name pr = fc_ResourceName f \<and>
         pt_Namespace pr = fc_Namespace f) (ForbiddenTargetsProtected i)) (Protected p)]"

definition validateAuthorityProfile :: "AuthorityProfile option \<Rightarrow> profile_error option" where
  "validateAuthorityProfile profile = (case profile of None \<Rightarrow> None | Some p \<Rightarrow> first_of
     [err_if (ag_OnDenied (Agent p) \<notin> {[], OnDeniedUnsafe, OnDeniedWarning})
        (OnDeniedInvalid (ag_OnDenied (Agent p))),
      validateRuleSet p False (ag_Rules (Agent p)),
      validateRuleSet p True (ag_ClusterScopedRules (Agent p)),
      first_error_ix (\<lambda>i pr. err_if (pt_Resource pr = [] \<or> pt_Name pr = [])
        (ProtectedNeedsResourceAndName i)) (Protected p),
      first_error_ix validateEvidenceReaderExtra (er_Extra (EvidenceReaderSpec p)),
      first_error_ix (validateForbidden p) (ForbiddenChanges p),
      (if AllowImpersonate p then validateImpersonateRules p else None)])"

section \<open>What a validated profile satisfies\<close>

text \<open>
  The shape the rest of the system relies on, stated without the order of the checks: every
  resource is a name or \<open>name/sub\<close>, every verb is canonical, rule namespaces stay inside the
  agent's, and a field rule is object-exact and never about a protected object.
\<close>

definition wf_resource :: "string \<Rightarrow> bool" where
  "wf_resource res \<longleftrightarrow> res \<noteq> [] \<and>
     (CHR ''/'' \<in> set res \<longrightarrow>
       (\<exists>base sub. res = base @ CHR ''/'' # sub \<and> base \<noteq> [] \<and> sub \<noteq> [] \<and>
          CHR ''/'' \<notin> set base \<and> CHR ''/'' \<notin> set sub))"

definition wf_rule :: "PolicyRule \<Rightarrow> bool" where
  "wf_rule r \<longleftrightarrow> pr_Verbs r \<noteq> [] \<and> set (pr_Verbs r) \<subseteq> set canonicalRBACVerbs \<and>
     (\<forall>res\<in>set (pr_Resources r). wf_resource res) \<and>
     (\<forall>sub\<in>set (pr_Subresources r). sub \<noteq> [] \<and> CHR ''/'' \<notin> set sub)"

definition wf_forbidden :: "AuthorityProfile \<Rightarrow> ForbiddenFieldChange \<Rightarrow> bool" where
  "wf_forbidden p f \<longleftrightarrow>
     fc_Resource f \<noteq> [] \<and> trim_space (fc_Field f) \<noteq> [] \<and> fc_ResourceName f \<noteq> [] \<and>
     fc_Namespace f \<noteq> [] \<and>
     (fc_Change f = ''removed'' \<or> fc_Change f = ''set'' \<and> fc_Value f \<noteq> JNull) \<and>
     (\<forall>pr\<in>set (Protected p).
        (pt_Resource pr, pt_Name pr, pt_Namespace pr) \<noteq>
        (fc_Resource f, fc_ResourceName f, fc_Namespace f))"

definition wf_extra :: "string \<Rightarrow> bool" where
  "wf_extra e \<longleftrightarrow> (case cut_at (CHR '':'') e of (resource, verb, hasVerb) \<Rightarrow>
     trim_space resource \<noteq> [] \<and> (hasVerb \<longrightarrow> verb \<in> set canonicalRBACVerbs))"

definition wf_profile :: "AuthorityProfile \<Rightarrow> bool" where
  "wf_profile p \<longleftrightarrow>
     ag_OnDenied (Agent p) \<in> {[], ''unsafe'', ''warning''} \<and>
     (\<forall>r\<in>set (ag_Rules (Agent p)). wf_rule r \<and>
        set (pr_Namespaces r) \<subseteq> set (ag_Namespaces (Agent p))) \<and>
     (\<forall>r\<in>set (ag_ClusterScopedRules (Agent p)). wf_rule r \<and> pr_Namespaces r = []) \<and>
     (\<forall>pr\<in>set (Protected p). pt_Resource pr \<noteq> [] \<and> pt_Name pr \<noteq> []) \<and>
     (\<forall>e\<in>set (er_Extra (EvidenceReaderSpec p)). wf_extra e) \<and>
     (\<forall>f\<in>set (ForbiddenChanges p). wf_forbidden p f) \<and>
     (AllowImpersonate p \<longrightarrow>
        (\<exists>r\<in>set (ag_Rules (Agent p)) \<union> set (ag_ClusterScopedRules (Agent p)).
           ''impersonate'' \<in> set (pr_Verbs r) \<or> ''*'' \<in> set (pr_Verbs r)))"

definition resource_malformed :: "string \<Rightarrow> bool" where
  "resource_malformed res \<longleftrightarrow> (case cut_at (CHR ''/'') res of (base, sub, hasSub) \<Rightarrow>
     hasSub \<and> (base = [] \<or> sub = [] \<or> str_contains sub ''/''))"

lemma cut_at_parts:
  "cut_at c s = (a, b, ok) \<Longrightarrow> c \<notin> set a \<and> (if ok then s = a @ c # b else s = a \<and> b = [])"
  by (induction s arbitrary: a b ok) (auto split: if_splits prod.splits)

lemma wf_resource_check: "res \<noteq> [] \<and> \<not> resource_malformed res \<longleftrightarrow> wf_resource res"
proof -
  obtain base sub ok where c: "cut_at (CHR ''/'') res = (base, sub, ok)"
    by (metis prod_cases3)
  note parts = cut_at_parts [OF c]
  show ?thesis
  proof (cases ok)
    case True
    with parts have res: "res = base @ CHR ''/'' # sub" and base: "CHR ''/'' \<notin> set base"
      by auto
    have uniq: "base' = base \<and> sub' = sub"
      if "res = base' @ CHR ''/'' # sub'" "CHR ''/'' \<notin> set base'" for base' sub'
      using that c by (simp add: cut_at_append)
    have "wf_resource res \<longleftrightarrow> base \<noteq> [] \<and> sub \<noteq> [] \<and> CHR ''/'' \<notin> set sub"
    proof
      assume "wf_resource res"
      moreover have "CHR ''/'' \<in> set res" using res by simp
      ultimately show "base \<noteq> [] \<and> sub \<noteq> [] \<and> CHR ''/'' \<notin> set sub"
        unfolding wf_resource_def by (metis uniq)
    next
      assume "base \<noteq> [] \<and> sub \<noteq> [] \<and> CHR ''/'' \<notin> set sub"
      with base show "wf_resource res"
        unfolding wf_resource_def res by fastforce
    qed
    moreover have "resource_malformed res \<longleftrightarrow> base = [] \<or> sub = [] \<or> CHR ''/'' \<in> set sub"
      using True by (simp add: resource_malformed_def c str_contains_char)
    moreover have "res \<noteq> []" using res by simp
    ultimately show ?thesis by blast
  next
    case False
    with parts c have "CHR ''/'' \<notin> set res" and "\<not> resource_malformed res"
      by (auto simp: resource_malformed_def)
    then show ?thesis by (simp add: wf_resource_def)
  qed
qed

lemma validatePolicyRule_None_iff: "validatePolicyRule r = None \<longleftrightarrow> wf_rule r"
proof -
  have "validatePolicyRule r = None \<longleftrightarrow>
      pr_Verbs r \<noteq> [] \<and> (\<forall>v\<in>set (pr_Verbs r). IsCanonicalRBACVerb v) \<and>
      (\<forall>res\<in>set (pr_Resources r). res \<noteq> [] \<and> \<not> resource_malformed res) \<and>
      (\<forall>sub\<in>set (pr_Subresources r). \<not> (sub = [] \<or> str_contains sub ''/''))"
    by (simp add: validatePolicyRule_def resource_malformed_def case_prod_beta)
  also have "\<dots> \<longleftrightarrow> wf_rule r"
    unfolding wf_rule_def wf_resource_check subset_eq
    by (simp add: IsCanonicalRBACVerb_def str_contains_char)
  finally show ?thesis .
qed

lemma ball_nth: "(\<forall>i<length xs. P (xs ! i)) \<longleftrightarrow> (\<forall>x\<in>set xs. P x)"
  by (simp add: all_set_conv_all_nth)

lemma validateRuleSet_None_iff:
  "validateRuleSet p cluster rules = None \<longleftrightarrow>
     (\<forall>r\<in>set rules. wf_rule r \<and>
        (if cluster then pr_Namespaces r = []
         else set (pr_Namespaces r) \<subseteq> set (ag_Namespaces (Agent p))))"
  unfolding validateRuleSet_def first_error_ix_None_iff ball_nth [symmetric]
  by (auto simp: validatePolicyRule_None_iff containsStr_def split: if_splits)

lemma trim_space_Nil [simp]: "trim_space [] = []"
  by (simp add: trim_space_def)

lemma validateForbidden_None_iff: "validateForbidden p i f = None \<longleftrightarrow> wf_forbidden p f"
  by (auto simp: validateForbidden_def wf_forbidden_def)

lemma validateEvidenceReaderExtra_None_iff:
  "validateEvidenceReaderExtra i e = None \<longleftrightarrow> wf_extra e"
  by (auto simp: validateEvidenceReaderExtra_def wf_extra_def IsCanonicalRBACVerb_def
      split: prod.splits)

lemma validateImpersonateRules_None_iff:
  "validateImpersonateRules p = None \<longleftrightarrow>
     (\<exists>r\<in>set (ag_Rules (Agent p)) \<union> set (ag_ClusterScopedRules (Agent p)).
        ''impersonate'' \<in> set (pr_Verbs r) \<or> ''*'' \<in> set (pr_Verbs r))"
  by (auto simp: validateImpersonateRules_def list_ex_iff)

lemma validate_profile_iff:
  "validateAuthorityProfile (Some p) = None \<longleftrightarrow> wf_profile p"
proof -
  have prot: "first_error_ix (\<lambda>i pr. err_if (pt_Resource pr = [] \<or> pt_Name pr = [])
        (ProtectedNeedsResourceAndName i)) (Protected p) = None \<longleftrightarrow>
      (\<forall>pr\<in>set (Protected p). pt_Resource pr \<noteq> [] \<and> pt_Name pr \<noteq> [])"
    unfolding first_error_ix_None_iff ball_nth [symmetric] by auto
  have extra: "first_error_ix validateEvidenceReaderExtra (er_Extra (EvidenceReaderSpec p)) = None \<longleftrightarrow>
      (\<forall>e\<in>set (er_Extra (EvidenceReaderSpec p)). wf_extra e)"
    unfolding first_error_ix_None_iff ball_nth [symmetric] validateEvidenceReaderExtra_None_iff ..
  have forb: "first_error_ix (validateForbidden p) (ForbiddenChanges p) = None \<longleftrightarrow>
      (\<forall>f\<in>set (ForbiddenChanges p). wf_forbidden p f)"
    unfolding first_error_ix_None_iff ball_nth [symmetric] validateForbidden_None_iff ..
  show ?thesis
    unfolding validateAuthorityProfile_def wf_profile_def
    by (simp add: prot extra forb validateRuleSet_None_iff validateImpersonateRules_None_iff
        OnDeniedUnsafe_def OnDeniedWarning_def)
qed

end
