(* ===== verification/Timeline.thy ===== *)
theory Timeline
  imports Go_Json
begin

text \<open>
  The decision timeline (\<^verbatim>\<open>pkg/bench/timeline_parse.go\<close>, \<^verbatim>\<open>timeline_types.go\<close>): every tool call of
  an agent is classified into a phase by what was seen before it. Tool-call arguments are a
  \<open>raw\<close> JSON value; decoding a YAML manifest into kind, name and namespace is a parameter.
  The phase counters, a Go map, are a function that is 0 where no step was counted.
\<close>

section \<open>Data\<close>

datatype Phase = PhaseDiscover | PhaseDiagnose | PhaseDecide | PhaseAct | PhaseVerify | PhaseExplain

record ToolCall =
  tc_Tool :: string
  tc_Args :: raw
  tc_Result :: string
  tc_Timestamp :: string

record TimelineStep =
  ts_Index :: nat
  ts_Phase :: Phase
  ts_Tool :: string
  ts_Operation :: string
  ts_Command :: string
  ts_Resource :: string
  ts_Namespace :: string
  ts_ExitCode :: int
  ts_Summary :: string

record Timeline =
  tl_Steps :: "TimelineStep list"
  tl_PhaseCount :: "Phase \<Rightarrow> nat"
  tl_MutationCount :: nat
  tl_TotalSteps :: nat
  tl_DiagnosisDepth :: nat

record kubernetesResourceRef =
  kr_Kind :: string
  kr_Name :: string
  kr_Namespace :: string

section \<open>Commands\<close>

definition mutationSubcommands :: "string \<Rightarrow> string list option" where
  "mutationSubcommands tool =
     (if tool = ''kubectl'' then
        Some [''apply'', ''create'', ''patch'', ''replace'', ''delete'', ''set'', ''annotate'', ''label'',
              ''rollout'', ''scale'', ''taint'', ''cordon'', ''uncordon'', ''drain'']
      else if tool = ''helm'' then Some [''install'', ''upgrade'', ''uninstall'', ''rollback'']
      else if tool = ''terraform'' then Some [''apply'', ''destroy'', ''import'']
      else if tool = ''argocd'' then Some [''sync'', ''delete'']
      else None)"

definition diagnosisCommands :: "string list" where
  "diagnosisCommands = [''describe'', ''logs'', ''events'']"

definition readOnlyRollout :: "string list" where
  "readOnlyRollout = [''status'', ''history'']"

definition extractCommand :: "raw \<Rightarrow> string" where
  "extractCommand args = (case args of
     Some (JObj kvs) \<Rightarrow> (case field_string ''command'' [] kvs of Some s \<Rightarrow> s | None \<Rightarrow> [])
   | _ \<Rightarrow> [])"

definition parseCommand :: "string \<Rightarrow> string \<times> string \<times> string" where
  "parseCommand cmd = (case Go_Prelude.fields cmd of
     [] \<Rightarrow> ([], [], [])
   | [t] \<Rightarrow> (t, [], [])
   | t # s # rest \<Rightarrow> (t, s, join rest '' ''))"

definition isMutationCmd :: "string \<Rightarrow> string \<Rightarrow> string \<Rightarrow> bool" where
  "isMutationCmd infraTool subcommand fullCmd = (case mutationSubcommands infraTool of
     None \<Rightarrow> False
   | Some subs \<Rightarrow>
       (if subcommand \<notin> set subs then False
        else if infraTool = ''kubectl'' \<and> subcommand = ''rollout'' then
          (let words = Go_Prelude.fields fullCmd in
           \<not> (length words \<ge> 3 \<and> words ! 2 \<in> set readOnlyRollout))
        else True))"

definition isDiagnosis :: "string \<Rightarrow> string \<Rightarrow> string \<Rightarrow> bool" where
  "isDiagnosis infraTool subcommand fullCmd =
     (if infraTool \<noteq> ''kubectl'' then False
      else if subcommand \<in> set diagnosisCommands then True
      else subcommand = ''get'' \<and>
        (str_contains fullCmd '' -o yaml'' \<or> str_contains fullCmd '' -o json'' \<or>
         str_contains fullCmd '' -oyaml'' \<or> str_contains fullCmd '' -ojson'' \<or>
         str_contains fullCmd '' events''))"

fun namespaceFlag :: "string list \<Rightarrow> string" where
  "namespaceFlag (w # x # ws) =
     (if w = ''-n'' \<or> w = ''--namespace'' then x else namespaceFlag (x # ws))"
| "namespaceFlag _ = []"

definition extractNamespace :: "string \<Rightarrow> string" where
  "extractNamespace cmd = namespaceFlag (Go_Prelude.fields cmd)"

definition extractResource :: "string \<Rightarrow> string" where
  "extractResource rest = (case find (\<lambda>w. \<not> has_prefix w ''-'') (Go_Prelude.fields rest) of Some w \<Rightarrow> w | None \<Rightarrow> [])"

definition extractExitCode :: "string \<Rightarrow> int" where
  "extractExitCode res =
     (if str_contains res ''exit status 1'' \<or> str_contains res ''exit code 1'' then 1
      else if has_prefix res ''error:'' \<or> has_prefix res ''Error'' then 1 else 0)"

section \<open>Summaries\<close>

definition formatSummary :: "string \<Rightarrow> string \<Rightarrow> string \<Rightarrow> string" where
  "formatSummary verb resource ns =
     (if resource = [] \<and> ns = [] then verb
      else if resource = [] then verb @ '' in '' @ ns
      else if ns = [] then verb @ '' '' @ resource
      else verb @ '' '' @ resource @ '' in '' @ ns)"

definition mutationVerbs :: "(string \<times> string) list" where
  "mutationVerbs = [(''apply'', ''Applied''), (''create_or_update'', ''Applied''), (''create'', ''Created''),
     (''patch'', ''Patched''), (''delete'', ''Deleted''), (''replace'', ''Replaced''), (''scale'', ''Scaled''),
     (''rollout'', ''Rolled out''), (''label'', ''Labeled''), (''annotate'', ''Annotated''),
     (''drain'', ''Drained''), (''cordon'', ''Cordoned''), (''uncordon'', ''Uncordoned''),
     (''taint'', ''Tainted''), (''install'', ''Installed''), (''upgrade'', ''Upgraded''),
     (''uninstall'', ''Uninstalled''), (''rollback'', ''Rolled back'')]"

definition buildMutationSummary :: "string \<Rightarrow> string \<Rightarrow> string \<Rightarrow> string" where
  "buildMutationSummary subcommand resource ns =
     formatSummary (case map_of mutationVerbs subcommand of Some v \<Rightarrow> v | None \<Rightarrow> ''Ran '' @ subcommand)
       resource ns"

definition readVerbs :: "(string \<times> string) list" where
  "readVerbs = [(''get'', ''Listed''), (''describe'', ''Described''), (''logs'', ''Checked logs for''),
     (''rollout'', ''Checked rollout of'')]"

definition buildReadSummary :: "string \<Rightarrow> string \<Rightarrow> string \<Rightarrow> string" where
  "buildReadSummary subcommand resource ns =
     formatSummary (case map_of readVerbs subcommand of Some v \<Rightarrow> v | None \<Rightarrow> ''Ran '' @ subcommand @ '' on'')
       resource ns"

section \<open>MCP tool calls\<close>

definition refString :: "kubernetesResourceRef \<Rightarrow> string" where
  "refString r =
     (if kr_Kind r = [] \<and> kr_Name r = [] then []
      else if kr_Kind r = [] then kr_Name r
      else if kr_Name r = [] then kr_Kind r
      else kr_Kind r @ ''/'' @ kr_Name r)"

text \<open>
  A struct decoded with its error ignored: a field keeps the last string given for it, and a
  value of another type leaves it as it is.
\<close>

definition lenient_string :: "string \<Rightarrow> (string \<times> json) list \<Rightarrow> string" where
  "lenient_string f kvs = fold (\<lambda>(k, v) cur. if equal_fold k f then (case v of JStr s \<Rightarrow> s | _ \<Rightarrow> cur) else cur) kvs []"

definition resourceRefFromArgs :: "raw \<Rightarrow> kubernetesResourceRef" where
  "resourceRefFromArgs args =
     (let kvs = (case args of Some (JObj m) \<Rightarrow> m | _ \<Rightarrow> []) in
      \<lparr>kr_Kind = trim_space (lenient_string ''kind'' kvs),
       kr_Name = trim_space (lenient_string ''name'' kvs),
       kr_Namespace = trim_space (lenient_string ''namespace'' kvs)\<rparr>)"

definition resourceRefFromManifestArg ::
  "(string \<Rightarrow> (string \<times> string \<times> string) option) \<Rightarrow> raw \<Rightarrow> kubernetesResourceRef" where
  "resourceRefFromManifestArg yaml args =
     (let empty = \<lparr>kr_Kind = [], kr_Name = [], kr_Namespace = []\<rparr>;
          manifest = (case args of
              Some (JObj kvs) \<Rightarrow> field_string ''resource'' [] kvs
            | Some JNull \<Rightarrow> Some []
            | _ \<Rightarrow> None) in
      case manifest of
        None \<Rightarrow> empty
      | Some m \<Rightarrow> (case yaml m of
            None \<Rightarrow> empty
          | Some (kind, name, ns) \<Rightarrow>
              \<lparr>kr_Kind = trim_space kind, kr_Name = trim_space name, kr_Namespace = trim_space ns\<rparr>))"

definition formatMCPCommand :: "string \<Rightarrow> string \<Rightarrow> string \<Rightarrow> string" where
  "formatMCPCommand tool resource ns =
     join ([tool] @ (if resource \<noteq> [] then [resource] else []) @ (if ns \<noteq> [] then [''in'', ns] else [])) '' ''"

definition mcpReadOperation :: "string \<Rightarrow> string" where
  "mcpReadOperation tool =
     (if tool = ''pods_log'' then ''logs'' else if tool = ''pods_exec'' then ''exec''
      else if tool = ''events_list'' then ''events'' else ''get'')"

definition isMCPDiagnosticTool :: "string \<Rightarrow> bool" where
  "isMCPDiagnosticTool tool \<longleftrightarrow>
     tool \<in> set [''pods_log'', ''pods_exec'', ''events_list'', ''resources_get'', ''pods_get'']"

definition mcpReadTools :: "string list" where
  "mcpReadTools = [''resources_get'', ''resources_list'', ''pods_get'', ''pods_list'',
     ''pods_list_in_namespace'', ''pods_log'', ''pods_exec'', ''events_list'']"

definition mcpStep :: "nat \<Rightarrow> ToolCall \<Rightarrow> string \<Rightarrow> kubernetesResourceRef \<Rightarrow> Phase \<Rightarrow> string \<Rightarrow> TimelineStep" where
  "mcpStep index call op ref phase summary =
     \<lparr>ts_Index = index, ts_Phase = phase, ts_Tool = tc_Tool call, ts_Operation = op,
      ts_Command = formatMCPCommand (tc_Tool call) (refString ref) (kr_Namespace ref),
      ts_Resource = refString ref, ts_Namespace = kr_Namespace ref,
      ts_ExitCode = extractExitCode (tc_Result call), ts_Summary = summary\<rparr>"

definition mcpMutation :: "nat \<Rightarrow> ToolCall \<Rightarrow> string \<Rightarrow> kubernetesResourceRef \<Rightarrow> TimelineStep" where
  "mcpMutation index call op ref =
     mcpStep index call op ref PhaseAct (buildMutationSummary op (refString ref) (kr_Namespace ref))"

definition parseMCPToolCall ::
  "(string \<Rightarrow> (string \<times> string \<times> string) option) \<Rightarrow> nat \<Rightarrow> ToolCall \<Rightarrow> bool \<Rightarrow> nat \<Rightarrow> TimelineStep option" where
  "parseMCPToolCall yaml index call seenMutation readOnlyCount =
     (let tool = tc_Tool call in
      if tool = ''resources_create_or_update'' then
        Some (mcpMutation index call ''create_or_update'' (resourceRefFromManifestArg yaml (tc_Args call)))
      else if tool = ''resources_delete'' then
        Some (mcpMutation index call ''delete'' (resourceRefFromArgs (tc_Args call)))
      else if tool = ''pods_delete'' then
        Some (mcpMutation index call ''delete'' ((resourceRefFromArgs (tc_Args call))\<lparr>kr_Kind := ''Pod''\<rparr>))
      else if tool = ''resources_scale'' then
        Some (mcpMutation index call ''scale'' (resourceRefFromArgs (tc_Args call)))
      else if tool \<in> set mcpReadTools then
        (let ref0 = resourceRefFromArgs (tc_Args call);
             ref = (if tool = ''pods_get'' \<or> tool = ''pods_log'' \<or> tool = ''pods_exec''
                    then ref0\<lparr>kr_Kind := ''Pod''\<rparr> else ref0);
             op = mcpReadOperation tool;
             phase = (if seenMutation then PhaseVerify
                      else if readOnlyCount > 0 \<or> isMCPDiagnosticTool tool then PhaseDiagnose
                      else PhaseDiscover) in
         Some (mcpStep index call op ref phase (buildReadSummary op (refString ref) (kr_Namespace ref))))
      else None)"

section \<open>Classification\<close>

text \<open>The loop's state: the timeline so far, whether a mutation was seen, the number of reads.\<close>

record ParseState =
  ps_Timeline :: Timeline
  ps_SeenMutation :: bool
  ps_ReadOnlyCount :: nat

definition addStep :: "TimelineStep \<Rightarrow> Timeline \<Rightarrow> Timeline" where
  "addStep step tml = tml\<lparr>tl_Steps := tl_Steps tml @ [step],
     tl_PhaseCount := (tl_PhaseCount tml)(ts_Phase step := tl_PhaseCount tml (ts_Phase step) + 1)\<rparr>"

definition commandStep :: "nat \<Rightarrow> ToolCall \<Rightarrow> ParseState \<Rightarrow> TimelineStep" where
  "commandStep i call st =
     (let cmd = extractCommand (tc_Args call) in
      case parseCommand cmd of (infraTool, subcommand, rest) \<Rightarrow>
        (let ns = extractNamespace cmd;
             res = extractResource rest;
             act = isMutationCmd infraTool subcommand cmd in
         \<lparr>ts_Index = i,
          ts_Phase = (if act then PhaseAct
                      else if ps_SeenMutation st then PhaseVerify
                      else if isDiagnosis infraTool subcommand cmd \<or> ps_ReadOnlyCount st > 0
                      then PhaseDiagnose else PhaseDiscover),
          ts_Tool = tc_Tool call, ts_Operation = subcommand, ts_Command = cmd,
          ts_Resource = res, ts_Namespace = ns, ts_ExitCode = extractExitCode (tc_Result call),
          ts_Summary = (if act then buildMutationSummary subcommand res ns
                        else buildReadSummary subcommand res ns)\<rparr>))"

definition record_step :: "bool \<Rightarrow> TimelineStep \<Rightarrow> ParseState \<Rightarrow> ParseState" where
  "record_step countsDepth step st =
     (let tml = ps_Timeline st;
          tml' = (if ts_Phase step = PhaseAct
                 then tml\<lparr>tl_MutationCount := tl_MutationCount tml + 1\<rparr>
                 else if countsDepth \<and> ts_Phase step = PhaseDiagnose
                 then tml\<lparr>tl_DiagnosisDepth := tl_DiagnosisDepth tml + 1\<rparr> else tml) in
      \<lparr>ps_Timeline = addStep step tml',
       ps_SeenMutation = (ps_SeenMutation st \<or> ts_Phase step = PhaseAct),
       ps_ReadOnlyCount = (if ts_Phase step = PhaseAct then ps_ReadOnlyCount st
                           else ps_ReadOnlyCount st + 1)\<rparr>)"

definition parseCall ::
  "(string \<Rightarrow> (string \<times> string \<times> string) option) \<Rightarrow> nat \<times> ToolCall \<Rightarrow> ParseState \<Rightarrow> ParseState" where
  "parseCall yaml ic st = (case ic of (i, call) \<Rightarrow>
     if tc_Tool call = ''run_command'' then record_step True (commandStep i call st) st
     else (case parseMCPToolCall yaml i call (ps_SeenMutation st) (ps_ReadOnlyCount st) of
         None \<Rightarrow> st
       | Some step \<Rightarrow> record_step False step st))"

definition startParse :: ParseState where
  "startParse = \<lparr>ps_Timeline = \<lparr>tl_Steps = [], tl_PhaseCount = (\<lambda>_. 0), tl_MutationCount = 0,
     tl_TotalSteps = 0, tl_DiagnosisDepth = 0\<rparr>, ps_SeenMutation = False, ps_ReadOnlyCount = 0\<rparr>"

definition ParseTimeline ::
  "(string \<Rightarrow> (string \<times> string \<times> string) option) \<Rightarrow> ToolCall list \<Rightarrow> Timeline" where
  "ParseTimeline yaml calls =
     (let tml = ps_Timeline (fold (parseCall yaml) (List.enumerate 0 calls) startParse) in
      tml\<lparr>tl_TotalSteps := length (tl_Steps tml)\<rparr>)"

section \<open>The invariant of the loop\<close>

definition actSteps :: "TimelineStep list \<Rightarrow> TimelineStep list" where
  "actSteps ss = filter (\<lambda>s. ts_Phase s = PhaseAct) ss"

text \<open>
  Phases follow the history: a verification needs an earlier mutation, discovery and diagnosis
  come before every mutation, and no other phase is ever assigned.
\<close>

definition phases_ordered :: "TimelineStep list \<Rightarrow> bool" where
  "phases_ordered ss \<longleftrightarrow> (\<forall>j<length ss.
     let acted = (\<exists>i<j. ts_Phase (ss ! i) = PhaseAct) in
     ts_Phase (ss ! j) = PhaseAct \<or>
     (if acted then ts_Phase (ss ! j) = PhaseVerify
      else ts_Phase (ss ! j) \<in> {PhaseDiscover, PhaseDiagnose}))"

definition parse_inv :: "nat \<Rightarrow> ParseState \<Rightarrow> bool" where
  "parse_inv n st \<longleftrightarrow>
     (let tml = ps_Timeline st; ss = tl_Steps tml in
      phases_ordered ss \<and>
      (ps_SeenMutation st \<longleftrightarrow> actSteps ss \<noteq> []) \<and>
      tl_MutationCount tml = length (actSteps ss) \<and>
      tl_DiagnosisDepth tml =
        length (filter (\<lambda>s. ts_Phase s = PhaseDiagnose \<and> ts_Tool s = ''run_command'') ss) \<and>
      (\<forall>p. tl_PhaseCount tml p = length (filter (\<lambda>s. ts_Phase s = p) ss)) \<and>
      sorted_wrt (<) (map ts_Index ss) \<and> (\<forall>s\<in>set ss. ts_Index s < n))"

definition acted :: "TimelineStep list \<Rightarrow> nat \<Rightarrow> bool" where
  "acted ss j \<longleftrightarrow> (\<exists>i<j. ts_Phase (ss ! i) = PhaseAct)"

lemma acted_snoc: "j \<le> length ss \<Longrightarrow> acted (ss @ [s]) j = acted ss j"
proof -
  assume "j \<le> length ss"
  then have "i < j \<Longrightarrow> (ss @ [s]) ! i = ss ! i" for i by (simp add: nth_append)
  then show ?thesis unfolding acted_def by auto
qed

lemma acted_all: "acted ss (length ss) \<longleftrightarrow> actSteps ss \<noteq> []"
proof -
  have "acted ss (length ss) \<longleftrightarrow> list_ex (\<lambda>s. ts_Phase s = PhaseAct) ss"
    unfolding acted_def by (rule list_ex_length [symmetric])
  then show ?thesis by (simp add: actSteps_def filter_empty_conv list_ex_iff)
qed

lemma phases_ordered_alt:
  "phases_ordered ss \<longleftrightarrow> (\<forall>j<length ss. ts_Phase (ss ! j) = PhaseAct \<or>
     (if acted ss j then ts_Phase (ss ! j) = PhaseVerify
      else ts_Phase (ss ! j) \<in> {PhaseDiscover, PhaseDiagnose}))"
  by (simp add: phases_ordered_def acted_def Let_def)

lemma phases_ordered_snoc:
  assumes "phases_ordered ss"
    and "ts_Phase s = PhaseAct \<or>
     (if actSteps ss \<noteq> [] then ts_Phase s = PhaseVerify
      else ts_Phase s \<in> {PhaseDiscover, PhaseDiagnose})"
  shows "phases_ordered (ss @ [s])"
  unfolding phases_ordered_alt
proof (intro allI impI)
  fix j assume "j < length (ss @ [s])"
  then consider "j < length ss" | "j = length ss" by force
  then show "ts_Phase ((ss @ [s]) ! j) = PhaseAct \<or>
      (if acted (ss @ [s]) j then ts_Phase ((ss @ [s]) ! j) = PhaseVerify
       else ts_Phase ((ss @ [s]) ! j) \<in> {PhaseDiscover, PhaseDiagnose})"
  proof cases
    case 1
    then have same: "(ss @ [s]) ! j = ss ! j" "acted (ss @ [s]) j = acted ss j"
      by (simp_all add: nth_append acted_snoc)
    from 1 assms(1) show ?thesis unfolding phases_ordered_alt same by blast
  next
    case 2
    with assms(2) show ?thesis by (cases "actSteps ss = []") (simp_all add: acted_snoc acted_all)
  qed
qed

text \<open>What every step that may be recorded satisfies in the state it is computed in.\<close>

definition step_ok :: "bool \<Rightarrow> nat \<Rightarrow> TimelineStep \<Rightarrow> ParseState \<Rightarrow> bool" where
  "step_ok counts n s st \<longleftrightarrow> ts_Index s = n \<and> (counts \<longleftrightarrow> ts_Tool s = ''run_command'') \<and>
     (ts_Phase s = PhaseAct \<or>
      (if ps_SeenMutation st then ts_Phase s = PhaseVerify
       else ts_Phase s \<in> {PhaseDiscover, PhaseDiagnose}))"

lemma record_step_inv:
  assumes "parse_inv n st" and "step_ok counts n s st"
  shows "parse_inv (Suc n) (record_step counts s st)"
proof -
  let ?ss = "tl_Steps (ps_Timeline st)"
  note inv = assms(1) [unfolded parse_inv_def Let_def] and ok = assms(2) [unfolded step_ok_def]
  have steps: "tl_Steps (ps_Timeline (record_step counts s st)) = ?ss @ [s]"
    by (simp add: record_step_def addStep_def Let_def)
  have ord: "phases_ordered (?ss @ [s])"
    using phases_ordered_snoc inv ok by auto
  have idx: "sorted_wrt (<) (map ts_Index (?ss @ [s]))" "\<forall>x\<in>set (?ss @ [s]). ts_Index x < Suc n"
    using inv ok by (auto simp: sorted_wrt_append less_Suc_eq)
  have cnt: "tl_PhaseCount (ps_Timeline (record_step counts s st)) p =
      length (filter (\<lambda>x. ts_Phase x = p) (?ss @ [s]))" for p
    using inv by (auto simp: record_step_def addStep_def Let_def)
  have mut: "tl_MutationCount (ps_Timeline (record_step counts s st)) = length (actSteps (?ss @ [s]))"
    using inv by (auto simp: record_step_def addStep_def Let_def actSteps_def)
  have dia: "tl_DiagnosisDepth (ps_Timeline (record_step counts s st)) =
      length (filter (\<lambda>x. ts_Phase x = PhaseDiagnose \<and> ts_Tool x = ''run_command'') (?ss @ [s]))"
    using inv ok by (auto simp: record_step_def addStep_def Let_def)
  have seen: "ps_SeenMutation (record_step counts s st) \<longleftrightarrow> actSteps (?ss @ [s]) \<noteq> []"
    using inv by (auto simp: record_step_def Let_def actSteps_def)
  show ?thesis
    unfolding parse_inv_def Let_def steps using ord seen mut dia cnt idx by blast
qed

lemma parse_inv_mono: "parse_inv n st \<Longrightarrow> parse_inv (Suc n) st"
  by (auto simp: parse_inv_def Let_def less_Suc_eq)

lemma commandStep_ok: "tc_Tool call = ''run_command'' \<Longrightarrow> step_ok True n (commandStep n call st) st"
  by (auto simp: step_ok_def commandStep_def Let_def split: prod.splits)

lemma parseMCPToolCall_ok:
  "parseMCPToolCall yaml n call (ps_SeenMutation st) k = Some s \<Longrightarrow> tc_Tool call \<noteq> ''run_command'' \<Longrightarrow>
     step_ok False n s st"
  by (auto simp: step_ok_def parseMCPToolCall_def mcpMutation_def mcpStep_def Let_def split: if_splits)

lemma parseCall_inv: "parse_inv n st \<Longrightarrow> parse_inv (Suc n) (parseCall yaml (n, call) st)"
  using commandStep_ok parseMCPToolCall_ok
  by (auto simp: parseCall_def parse_inv_mono intro!: record_step_inv split: option.splits)

lemma fold_parseCall_inv:
  "parse_inv n st \<Longrightarrow> parse_inv (n + length calls) (fold (parseCall yaml) (List.enumerate n calls) st)"
proof (induction calls arbitrary: n st)
  case (Cons call calls)
  from Cons.IH [OF parseCall_inv [OF Cons.prems]] show ?case by simp
qed simp

lemma startParse_inv: "parse_inv 0 startParse"
  by (simp add: parse_inv_def startParse_def phases_ordered_def actSteps_def)

lemma ParseTimeline_inv:
  "parse_inv (length calls) (fold (parseCall yaml) (List.enumerate 0 calls) startParse)"
  using fold_parseCall_inv [OF startParse_inv, of calls yaml] by simp

section \<open>Properties\<close>

text \<open>
  The phases of a timeline follow its history. Before the first mutation every step is a
  discovery or a diagnosis, after it every step that does not mutate is a verification; steps
  carry strictly increasing positions of the calls they come from.
\<close>

theorem timeline_phases_follow_history:
  "phases_ordered (tl_Steps (ParseTimeline yaml calls)) \<and>
   sorted_wrt (<) (map ts_Index (tl_Steps (ParseTimeline yaml calls))) \<and>
   set (map ts_Index (tl_Steps (ParseTimeline yaml calls))) \<subseteq> {..<length calls}"
  using ParseTimeline_inv [of calls yaml]
  by (auto simp: ParseTimeline_def parse_inv_def Let_def)

text \<open>
  The counters of a timeline are exact: one count per phase, the mutations, the total, and
  a diagnosis depth that counts the diagnosing commands, not those of MCP tools.
\<close>

theorem timeline_counters_exact:
  "tl_PhaseCount (ParseTimeline yaml calls) p =
     length (filter (\<lambda>s. ts_Phase s = p) (tl_Steps (ParseTimeline yaml calls))) \<and>
   tl_MutationCount (ParseTimeline yaml calls) = tl_PhaseCount (ParseTimeline yaml calls) PhaseAct \<and>
   tl_TotalSteps (ParseTimeline yaml calls) = length (tl_Steps (ParseTimeline yaml calls)) \<and>
   tl_DiagnosisDepth (ParseTimeline yaml calls) =
     length (filter (\<lambda>s. ts_Phase s = PhaseDiagnose \<and> ts_Tool s = ''run_command'')
       (tl_Steps (ParseTimeline yaml calls)))"
  using ParseTimeline_inv [of calls yaml]
  by (auto simp: ParseTimeline_def parse_inv_def Let_def actSteps_def)

text \<open>
  A diagnosis through an MCP tool counts as a diagnose step and not towards the depth.
\<close>

definition demo_mcp_log :: ToolCall where
  "demo_mcp_log = \<lparr>tc_Tool = ''pods_log'', tc_Args = Some (JObj [(''name'', JStr ''web'')]),
     tc_Result = [], tc_Timestamp = []\<rparr>"

lemma mcp_diagnosis_not_counted:
  "map ts_Phase (tl_Steps (ParseTimeline (\<lambda>_. None) [demo_mcp_log])) = [PhaseDiagnose] \<and>
   tl_DiagnosisDepth (ParseTimeline (\<lambda>_. None) [demo_mcp_log]) = 0"
  by code_simp

end
