(* ===== verification/Scenario_Loader.thy ===== *)
theory Scenario_Loader
  imports Go_Path Authority_Profile Autopsy
begin

text \<open>
  \<^verbatim>\<open>pkg/scenario\<close>: the scenario document (\<^verbatim>\<open>types.go\<close>, \<^verbatim>\<open>profile.go\<close>), its loader and its validation
  (\<^verbatim>\<open>loader.go\<close>). The file system and the YAML decoder are a record of functions: what
  \<^verbatim>\<open>scenario.yaml\<close> of a directory decodes to (with the strict decoding of its authority profile), the entries of a directory in the order
  \<^verbatim>\<open>os.ReadDir\<close> lists them, \<^verbatim>\<open>filepath.Abs\<close> and \<^verbatim>\<open>filepath.EvalSymlinks\<close>.
\<close>

section \<open>The scenario document\<close>

record Duration =
  du_Duration :: int
  du_Set :: bool

record ScenarioCheck =
  sk_Type :: string
  sk_Namespace :: string
  sk_Name :: string
  sk_Condition :: string

record Scope =
  sp_Namespaces :: "string list"
  sp_Deny :: "string list"

record BootstrapStep =
  bs_Name :: string
  bs_Type :: string
  bs_Path :: string
  bs_Release :: string
  bs_Namespace :: string
  bs_Duration :: string
  bs_Args :: "string list"

record Break =
  br_Type :: string
  br_Path :: string
  br_Chart :: string
  br_Name :: string
  br_Namespace :: string
  br_Command :: string
  br_Args :: "string list"
  br_AllowFailure :: bool
  br_Memory :: string

record Trap =
  tr_Name :: string
  tr_Detect :: string
  tr_Points :: int

record Stage =
  st_Name :: string
  st_Break :: Break
  st_AfterBreak :: "BootstrapStep list"
  st_Checks :: "ScenarioCheck list"
  st_Trap :: "Trap option"
  st_AgentGoal :: string
  st_OnFail :: string
  st_Timeout :: Duration

record ResourceChangeTrigger =
  rc_APIVersion :: string
  rc_Resource :: string
  rc_Namespace :: string
  rc_Name :: string

record ChaosStep =
  ch_Name :: string
  ch_Type :: string
  ch_At :: Duration
  ch_AfterChange :: "ResourceChangeTrigger option"
  ch_Path :: string
  ch_Release :: string
  ch_Namespace :: string
  ch_Duration :: string
  ch_Args :: "string list"
  ch_AllowFailure :: bool

record ChaosConfig =
  cc_Mode :: string
  cc_StopOnAgentDone :: bool
  cc_Steps :: "ChaosStep list"

record CloudConfig =
  cl_Provider :: string
  cl_Services :: "string list"
  cl_Setup :: string
  cl_Teardown :: string

record RuntimeConfig =
  ru_Name :: string
  ru_Handler :: string

record KubernetesConfig =
  ku_CNI :: string
  ku_Addons :: "string list"
  ku_Runtimes :: "RuntimeConfig list"
  ku_Features :: "string list"

record EnvironmentConfig =
  ec_Profile :: string
  ec_Providers :: "string list"
  ec_Cloud :: CloudConfig
  ec_Kubernetes :: KubernetesConfig

record Scenario =
  s_ID :: string
  s_Title :: string
  s_Category :: string
  s_Categories :: "string list"
  s_Path :: string
  s_Dir :: string
  s_Prompt :: string
  s_Checks :: "ScenarioCheck list"
  s_Scope :: Scope
  s_Bootstrap :: "BootstrapStep list"
  s_AfterBreak :: "BootstrapStep list"
  s_Break :: Break
  s_Stages :: "Stage list"
  s_Chaos :: ChaosConfig
  s_AgentInputs :: "string list"
  s_Environment :: EnvironmentConfig
  s_Autopsy :: AutopsyHints
  s_AuthorityProfile :: "AuthorityProfile option"

definition CheckTypeAssertV2 :: string where
  "CheckTypeAssertV2 = ''assert-v2''"

definition ResolvedCategories :: "Scenario \<Rightarrow> string list" where
  "ResolvedCategories s = (if s_Categories s \<noteq> [] then s_Categories s
     else if s_Category s \<noteq> [] then [s_Category s] else [])"

definition PrimaryCategory :: "Scenario \<Rightarrow> string" where
  "PrimaryCategory s = (case ResolvedCategories s of [] \<Rightarrow> [] | c # _ \<Rightarrow> c)"

definition HasCategory :: "Scenario \<Rightarrow> string \<Rightarrow> bool" where
  "HasCategory s cat = list_ex (\<lambda>c. equal_fold c cat) (ResolvedCategories s)"

definition supportedExecutionProfiles :: "string list" where
  "supportedExecutionProfiles = [''default'', ''argocd'', ''aws-localstack'', ''multi-node'']"

definition IsSupportedExecutionProfile :: "string \<Rightarrow> bool" where
  "IsSupportedExecutionProfile p \<longleftrightarrow> p \<in> set supportedExecutionProfiles"

definition ResolvedProfile :: "Scenario \<Rightarrow> string" where
  "ResolvedProfile s =
     (if ec_Profile (s_Environment s) \<noteq> [] then ec_Profile (s_Environment s)
      else if cl_Provider (ec_Cloud (s_Environment s)) = ''localstack'' then ''aws-localstack''
      else ''default'')"

definition IsProviderCompatible :: "Scenario \<Rightarrow> string \<Rightarrow> bool" where
  "IsProviderCompatible s provider \<longleftrightarrow>
     ec_Providers (s_Environment s) = [] \<or> provider \<in> set (ec_Providers (s_Environment s))"

section \<open>Validation\<close>

datatype scenario_error =
    MissingID | MissingTitle | MissingCategory | MissingPrompt | StagesAndBreak
  | StageMissingName nat | StageNoChecks string | StageMemory string string | StageOnFail string string
  | NoBreakOrStages | NoChecks | UnsupportedProfile string | UnsupportedProvider string | ChaosMode string
  | ChaosMissingType nat | ChaosBothTriggers nat | ChaosTriggerIncomplete nat | ChaosWatchesSecrets nat
  | ChaosClusterScoped nat string | ChaosOutsideScope nat string | ChaosNoTrigger nat
  | HintMissingKind string nat | HintMissingPattern string nat
  | ProfileInvalid profile_error | AgentInputEscapes string
  | FileUnreadable | ProfileKeysUnknown | YamlInvalid
  | OutsideRoot string | RootUnresolved | ResolvesOutside string | NotFound string

definition ValidateAgentInputs :: "Scenario \<Rightarrow> scenario_error option" where
  "ValidateAgentInputs s = first_error (\<lambda>i. err_if
     (IsAbs (Clean i) \<or> Clean i = ''..'' \<or> has_prefix (Clean i) ''../'') (AgentInputEscapes i)) (s_AgentInputs s)"

definition validateExecutionProfile :: "Scenario \<Rightarrow> scenario_error option" where
  "validateExecutionProfile s = err_if (ec_Profile (s_Environment s) \<noteq> [] \<and>
     \<not> IsSupportedExecutionProfile (ec_Profile (s_Environment s))) (UnsupportedProfile (ec_Profile (s_Environment s)))"

definition validateEnvironmentProviders :: "Scenario \<Rightarrow> scenario_error option" where
  "validateEnvironmentProviders s =
     first_error (\<lambda>p. err_if (p \<noteq> ''kind'' \<and> p \<noteq> ''k3d'') (UnsupportedProvider p)) (ec_Providers (s_Environment s))"

definition clusterScopedResources :: "string list" where
  "clusterScopedResources = [''nodes'', ''namespaces'', ''persistentvolumes'', ''clusterroles'', ''clusterrolebindings'',
     ''storageclasses'', ''priorityclasses'', ''customresourcedefinitions'', ''mutatingwebhookconfigurations'',
     ''validatingwebhookconfigurations'', ''apiservices'', ''csidrivers'']"

definition containsNamespace :: "string list \<Rightarrow> string \<Rightarrow> bool" where
  "containsNamespace ns want = list_ex (\<lambda>n. n = want) ns"

definition validateChaosStep :: "Scenario \<Rightarrow> nat \<Rightarrow> ChaosStep \<Rightarrow> scenario_error option" where
  "validateChaosStep s i step =
     (if ch_Type step = [] then Some (ChaosMissingType i)
      else (case ch_AfterChange step of
          Some ac \<Rightarrow>
            if du_Set (ch_At step) then Some (ChaosBothTriggers i)
            else first_of
              [err_if (rc_APIVersion ac = [] \<or> rc_Resource ac = [] \<or> rc_Namespace ac = [] \<or> rc_Name ac = []) (ChaosTriggerIncomplete i),
               err_if (to_lower (rc_Resource ac) = ''secrets'') (ChaosWatchesSecrets i),
               err_if (to_lower (rc_Resource ac) \<in> set clusterScopedResources) (ChaosClusterScoped i (rc_Resource ac)),
               err_if (\<not> containsNamespace (sp_Namespaces (s_Scope s)) (rc_Namespace ac)) (ChaosOutsideScope i (rc_Namespace ac))]
        | None \<Rightarrow> err_if (\<not> du_Set (ch_At step)) (ChaosNoTrigger i)))"

definition validateChaos :: "Scenario \<Rightarrow> scenario_error option" where
  "validateChaos s =
     (if cc_Mode (s_Chaos s) \<notin> {[], ''once'', ''repeat''} then Some (ChaosMode (cc_Mode (s_Chaos s)))
      else first_error_ix (validateChaosStep s) (cc_Steps (s_Chaos s)))"

definition validateHintGroup :: "string \<Rightarrow> Pattern list \<Rightarrow> scenario_error option" where
  "validateHintGroup name ps = first_error_ix (\<lambda>i p. first_of
     [err_if (hp_Kind p = []) (HintMissingKind name i), err_if (hp_Pattern p = []) (HintMissingPattern name i)]) ps"

definition validateAutopsyHints :: "Scenario \<Rightarrow> scenario_error option" where
  "validateAutopsyHints s = first_of
     [validateHintGroup ''expected_diagnostics'' (ah_ExpectedDiagnostics (s_Autopsy s)),
      validateHintGroup ''allowed_mutations'' (ah_AllowedMutations (s_Autopsy s)),
      validateHintGroup ''forbidden_actions'' (ah_ForbiddenActions (s_Autopsy s))]"

definition validateStage :: "nat \<Rightarrow> Stage \<Rightarrow> scenario_error option" where
  "validateStage i st = first_of
     [err_if (st_Name st = []) (StageMissingName i),
      err_if (st_Checks st = []) (StageNoChecks (st_Name st)),
      err_if (br_Memory (st_Break st) \<notin> {[], ''compact'', ''reset''}) (StageMemory (st_Name st) (br_Memory (st_Break st))),
      err_if (st_OnFail st \<notin> {[], ''stop'', ''continue''}) (StageOnFail (st_Name st) (st_OnFail st))]"

definition validate :: "Scenario \<Rightarrow> scenario_error option" where
  "validate s =
     (let hasStages = s_Stages s \<noteq> []; hasBreak = br_Type (s_Break s) \<noteq> []; hasChecks = s_Checks s \<noteq> [] in
      first_of
        [err_if (s_ID s = []) MissingID,
         err_if (s_Title s = []) MissingTitle,
         err_if (s_Category s = [] \<and> s_Categories s = []) MissingCategory,
         err_if (s_Prompt s = []) MissingPrompt,
         err_if (hasStages \<and> (hasBreak \<or> hasChecks)) StagesAndBreak,
         (if hasStages then first_error_ix validateStage (s_Stages s) else err_if (\<not> hasBreak) NoBreakOrStages),
         err_if (\<not> hasStages \<and> \<not> hasChecks) NoChecks,
         validateExecutionProfile s,
         validateEnvironmentProviders s,
         validateChaos s,
         validateAutopsyHints s,
         map_option ProfileInvalid (validateAuthorityProfile (s_AuthorityProfile s)),
         ValidateAgentInputs s])"

section \<open>Loading\<close>

datatype scenario_doc = DocMissing | DocUnreadable | DocBadProfileKeys | DocBadYaml | Doc Scenario

record ScenarioFS =
  fs_Doc :: "string \<Rightarrow> scenario_doc"
  fs_ReadDir :: "string \<Rightarrow> (string \<times> bool) list option"
  fs_Abs :: "string \<Rightarrow> string option"
  fs_EvalSymlinks :: "string \<Rightarrow> string option"

definition isURL :: "string \<Rightarrow> bool" where
  "isURL p \<longleftrightarrow> has_prefix p ''http://'' \<or> has_prefix p ''https://''"

definition resolveFile :: "string \<Rightarrow> string \<Rightarrow> string" where
  "resolveFile dir p = (if p \<noteq> [] \<and> \<not> IsAbs p then Join dir p else p)"

definition resolveFileOrURL :: "string \<Rightarrow> string \<Rightarrow> string" where
  "resolveFileOrURL dir p = (if p \<noteq> [] \<and> \<not> IsAbs p \<and> \<not> isURL p then Join dir p else p)"

definition resolveStepPaths :: "string \<Rightarrow> BootstrapStep list \<Rightarrow> BootstrapStep list" where
  "resolveStepPaths dir steps = map (\<lambda>st. st\<lparr>bs_Path := resolveFileOrURL dir (bs_Path st)\<rparr>) steps"

definition resolveChaosStepPaths :: "string \<Rightarrow> ChaosStep list \<Rightarrow> ChaosStep list" where
  "resolveChaosStepPaths dir steps = map (\<lambda>st. st\<lparr>ch_Path := resolveFileOrURL dir (ch_Path st)\<rparr>) steps"

definition resolveBreak :: "string \<Rightarrow> Break \<Rightarrow> Break" where
  "resolveBreak dir b = b\<lparr>br_Path := resolveFileOrURL dir (br_Path b), br_Chart := resolveFile dir (br_Chart b)\<rparr>"

definition resolveStage :: "string \<Rightarrow> Stage \<Rightarrow> Stage" where
  "resolveStage dir st = st\<lparr>st_Break := resolveBreak dir (st_Break st),
     st_AfterBreak := resolveStepPaths dir (st_AfterBreak st)\<rparr>"

definition resolveCheck :: "string \<Rightarrow> ScenarioCheck \<Rightarrow> ScenarioCheck" where
  "resolveCheck dir c = (if sk_Type c = ''command-succeeds'' \<or> sk_Type c = CheckTypeAssertV2
     then c\<lparr>sk_Condition := resolveFile dir (sk_Condition c)\<rparr> else c)"

definition resolveCloud :: "string \<Rightarrow> CloudConfig \<Rightarrow> CloudConfig" where
  "resolveCloud dir c = c\<lparr>cl_Setup := resolveFile dir (cl_Setup c), cl_Teardown := resolveFile dir (cl_Teardown c)\<rparr>"

definition resolvePaths :: "string \<Rightarrow> Scenario \<Rightarrow> Scenario" where
  "resolvePaths dir s = s\<lparr>s_Prompt := resolveFile dir (s_Prompt s), s_Break := resolveBreak dir (s_Break s),
     s_Bootstrap := resolveStepPaths dir (s_Bootstrap s), s_AfterBreak := resolveStepPaths dir (s_AfterBreak s),
     s_Chaos := (s_Chaos s)\<lparr>cc_Steps := resolveChaosStepPaths dir (cc_Steps (s_Chaos s))\<rparr>,
     s_Stages := map (resolveStage dir) (s_Stages s),
     s_Environment := (s_Environment s)\<lparr>ec_Cloud := resolveCloud dir (ec_Cloud (s_Environment s))\<rparr>,
     s_Checks := map (resolveCheck dir) (s_Checks s)\<rparr>"

definition Load :: "ScenarioFS \<Rightarrow> string \<Rightarrow> (scenario_error, Scenario) result" where
  "Load fs dir = (case fs_Doc fs dir of
     DocMissing \<Rightarrow> Inl FileUnreadable
   | DocUnreadable \<Rightarrow> Inl FileUnreadable
   | DocBadProfileKeys \<Rightarrow> Inl ProfileKeysUnknown
   | DocBadYaml \<Rightarrow> Inl YamlInvalid
   | Doc s0 \<Rightarrow>
       (let s = s0\<lparr>s_Dir := dir\<rparr> in
        case validate s of Some e \<Rightarrow> Inl e | None \<Rightarrow> Inr (resolvePaths dir s)))"

definition hasDoc :: "ScenarioFS \<Rightarrow> string \<Rightarrow> bool" where
  "hasDoc fs dir \<longleftrightarrow> fs_Doc fs dir \<noteq> DocMissing"

fun loadEntries :: "ScenarioFS \<Rightarrow> string \<Rightarrow> string \<Rightarrow> (string \<times> bool) list \<Rightarrow> (scenario_error, Scenario list) result" where
  "loadEntries fs base cat [] = Inr []"
| "loadEntries fs base cat ((name, isDir) # es) =
     (let dir = Join (Join base cat) name in
      if \<not> isDir \<or> \<not> hasDoc fs dir then loadEntries fs base cat es
      else (case Load fs dir of
          Inl e \<Rightarrow> Inl e
        | Inr s \<Rightarrow> (case loadEntries fs base cat es of
            Inl e \<Rightarrow> Inl e
          | Inr ss \<Rightarrow> Inr (s\<lparr>s_Path := Join cat name\<rparr> # ss))))"

fun loadCategories :: "ScenarioFS \<Rightarrow> string \<Rightarrow> (string \<times> bool) list \<Rightarrow> (scenario_error, Scenario list) result" where
  "loadCategories fs base [] = Inr []"
| "loadCategories fs base ((name, isDir) # es) =
     (case (if isDir then fs_ReadDir fs (Join base name) else None) of
        None \<Rightarrow> loadCategories fs base es
      | Some sub \<Rightarrow> (case loadEntries fs base name sub of
          Inl e \<Rightarrow> Inl e
        | Inr ss \<Rightarrow> (case loadCategories fs base es of Inl e \<Rightarrow> Inl e | Inr ts \<Rightarrow> Inr (ss @ ts))))"

definition LoadAll :: "ScenarioFS \<Rightarrow> string \<Rightarrow> (scenario_error, Scenario list) result" where
  "LoadAll fs base = (case fs_ReadDir fs base of None \<Rightarrow> Inl FileUnreadable | Some es \<Rightarrow> loadCategories fs base es)"

definition safeScenarioDir :: "ScenarioFS \<Rightarrow> string \<Rightarrow> string \<Rightarrow> (scenario_error, string) result" where
  "safeScenarioDir fs base ref =
     (if IsAbs ref then Inl (OutsideRoot ref)
      else (case fs_Abs fs base of
        None \<Rightarrow> Inl RootUnresolved
      | Some baseAbs \<Rightarrow>
          (let candidate = Join baseAbs ref in
           if \<not> pathWithinRoot baseAbs candidate then Inl (OutsideRoot ref)
           else (case fs_EvalSymlinks fs candidate of
               None \<Rightarrow> Inr candidate
             | Some realCandidate \<Rightarrow> (case fs_EvalSymlinks fs baseAbs of
                 None \<Rightarrow> Inl RootUnresolved
               | Some realBase \<Rightarrow>
                   if \<not> pathWithinRoot realBase realCandidate then Inl (ResolvesOutside ref) else Inr candidate)))))"

definition Resolve :: "ScenarioFS \<Rightarrow> string \<Rightarrow> string \<Rightarrow> (scenario_error, Scenario) result" where
  "Resolve fs base ref = (case safeScenarioDir fs base ref of
     Inl e \<Rightarrow> Inl e
   | Inr directDir \<Rightarrow>
       if hasDoc fs directDir then
         (case Load fs directDir of Inl e \<Rightarrow> Inl e | Inr s \<Rightarrow> Inr (s\<lparr>s_Path := ref\<rparr>))
       else (case LoadAll fs base of
           Inl e \<Rightarrow> Inl e
         | Inr ss \<Rightarrow> (case find (\<lambda>s. s_ID s = ref \<or> equal_fold (s_ID s) ref \<or> s_Path s = ref) ss of
             None \<Rightarrow> Inl (NotFound ref)
           | Some s \<Rightarrow> Inr s)))"

text \<open>
  \<^verbatim>\<open>pkg/harness/agent_sandbox.go\<close> stages the declared inputs of a scenario; \<open>Inl\<close> names the input that
  could not be read.
\<close>

fun readInputs :: "(string \<Rightarrow> string option) \<Rightarrow> string \<Rightarrow> string list \<Rightarrow> (string, (string \<times> string) list) result" where
  "readInputs readFile dir [] = Inr []"
| "readInputs readFile dir (rel # rels) = (case readFile (Join dir rel) of
     None \<Rightarrow> Inl rel
   | Some data \<Rightarrow> (case readInputs readFile dir rels of Inl e \<Rightarrow> Inl e | Inr out \<Rightarrow> Inr ((rel, data) # out)))"

definition readAgentInputs :: "(string \<Rightarrow> string option) \<Rightarrow> Scenario \<Rightarrow> (string, (string \<times> string) list) result" where
  "readAgentInputs readFile s = readInputs readFile (s_Dir s) (s_AgentInputs s)"

section \<open>What an accepted scenario satisfies\<close>

lemma Load_Inr:
  assumes "Load fs dir = Inr s"
  obtains s0 where "fs_Doc fs dir = Doc s0" "validate (s0\<lparr>s_Dir := dir\<rparr>) = None" "s = resolvePaths dir (s0\<lparr>s_Dir := dir\<rparr>)"
  using assms by (auto simp: Load_def Let_def split: scenario_doc.splits option.splits)

lemma resolvePaths_fields [simp]:
  "s_ID (resolvePaths dir s) = s_ID s" "s_AgentInputs (resolvePaths dir s) = s_AgentInputs s"
  "s_Scope (resolvePaths dir s) = s_Scope s" "s_Dir (resolvePaths dir s) = s_Dir s"
  "s_AuthorityProfile (resolvePaths dir s) = s_AuthorityProfile s"
  "cc_Steps (s_Chaos (resolvePaths dir s)) = resolveChaosStepPaths dir (cc_Steps (s_Chaos s))"
  "cc_Mode (s_Chaos (resolvePaths dir s)) = cc_Mode (s_Chaos s)"
  "s_Stages (resolvePaths dir s) = map (resolveStage dir) (s_Stages s)"
  "ec_Providers (s_Environment (resolvePaths dir s)) = ec_Providers (s_Environment s)"
  "ec_Profile (s_Environment (resolvePaths dir s)) = ec_Profile (s_Environment s)"
  by (simp_all add: resolvePaths_def)

lemma validate_None:
  assumes "validate s = None"
  shows "s_ID s \<noteq> []" and "validateChaos s = None" and "validateAuthorityProfile (s_AuthorityProfile s) = None"
    and "ValidateAgentInputs s = None" and "validateExecutionProfile s = None" and "validateEnvironmentProviders s = None"
    and "s_Stages s \<noteq> [] \<longrightarrow> (\<forall>i<length (s_Stages s). validateStage i (s_Stages s ! i) = None)"
    and "s_Stages s = [] \<longrightarrow> br_Type (s_Break s) \<noteq> [] \<and> s_Checks s \<noteq> []"
  using assms by (auto simp: validate_def Let_def first_error_ix_None_iff split: if_splits)

lemma agent_input_inside:
  assumes "ValidateAgentInputs s = None" and "i \<in> set (s_AgentInputs s)"
  shows "\<not> IsAbs i" and "''..'' \<notin> set (elems i)"
proof -
  have a: "\<not> IsAbs (Clean i)" "\<not> (Clean i = ''..'' \<or> has_prefix (Clean i) ''../'')"
    using assms by (auto simp: ValidateAgentInputs_def)
  then show "\<not> IsAbs i" by simp
  then show "''..'' \<notin> set (elems i)" using a(2) Clean_climbs by blast
qed

text \<open>The elements of a cleaned path are those of the path.\<close>

lemma split_join: "xs \<noteq> [] \<Longrightarrow> \<forall>x\<in>set xs. c \<notin> set x \<Longrightarrow> split_at c (join xs [c]) = xs"
proof (induction xs)
  case (Cons x xs)
  then show ?case by (cases xs) (simp_all add: join_Cons split_at_absent split_at_append)
qed simp

lemma clean_elems_clean:
  assumes "\<forall>c\<in>set cs. elem_ok c" and "''..'' \<notin> set cs"
  shows "clean_elems r st cs = rev st @ cs"
  using assms by (induction cs arbitrary: st) (auto simp: elem_ok_def)

lemma elems_Clean_inside:
  assumes "''..'' \<notin> set (elems p)"
  shows "elems (Clean p) = elems p"
proof (cases "elems p = []")
  case True
  then show ?thesis by (auto simp: Clean_def elems_def IsAbs_def has_prefix_def)
next
  case False
  have ok: "\<forall>c\<in>set (elems p). elem_ok c" using elems_ok by blast
  then have "\<forall>c\<in>set (elems p). CHR ''/'' \<notin> set c" by (simp add: elem_ok_def)
  then have s: "split_at CHR ''/'' (join (elems p) ''/'') = elems p" using False by (rule split_join [rotated])
  show ?thesis
  proof (cases "IsAbs p")
    case True
    then have "elems (Clean p) = clean_elems True [] ([] # elems p)"
      using s by (simp add: elems_def [of "Clean p"]) (simp add: Clean_def s)
    then show ?thesis using clean_elems_clean [OF ok assms] by simp
  next
    case rel: False
    then have "elems (Clean p) = clean_elems False [] (elems p)"
      using s False by (simp add: elems_def [of "Clean p"]) (simp add: Clean_def s)
    then show ?thesis using clean_elems_clean [OF ok assms] by simp
  qed
qed

lemma elems_Join:
  assumes "dir \<noteq> []" and "\<not> IsAbs p" and "''..'' \<notin> set (elems p)" and "''..'' \<notin> set (elems dir)"
  shows "elems (Join dir p) = elems dir @ elems p"
proof -
  have "elems (dir @ ''/'' @ p) = elems dir @ elems p" by (rule elems_Join_inside [OF assms(1-3)])
  moreover from this have "elems (Clean (dir @ ''/'' @ p)) = elems (dir @ ''/'' @ p)"
    by (intro elems_Clean_inside) (use assms(3,4) in auto)
  ultimately show ?thesis using assms(1) by (simp add: Join_def)
qed

lemma IsAbs_Join: "IsAbs dir \<Longrightarrow> IsAbs (Join dir p)"
proof -
  assume a: "IsAbs dir"
  then have "dir \<noteq> []" "IsAbs (dir @ ''/'' @ p)" by (auto simp: IsAbs_def has_prefix_iff)
  then show ?thesis by (simp add: Join_def)
qed

lemma readInputs_reads:
  "readInputs rf dir rels = Inr out \<Longrightarrow> (rel, data) \<in> set out \<Longrightarrow> rel \<in> set rels \<and> rf (Join dir rel) = Some data"
  by (induction rels arbitrary: out) (auto split: option.splits sum.splits)

lemma loaded_input_inside:
  assumes "Load fs dir = Inr s" and "IsAbs dir" and "i \<in> set (s_AgentInputs s)"
  shows "s_Dir s = dir \<and> prefix (elems dir) (elems (Join dir i)) \<and> pathWithinRoot dir (Join dir i)"
proof -
  obtain s0 where s0: "fs_Doc fs dir = Doc s0" "validate (s0\<lparr>s_Dir := dir\<rparr>) = None" "s = resolvePaths dir (s0\<lparr>s_Dir := dir\<rparr>)"
    by (rule Load_Inr [OF assms(1)])
  have i: "\<not> IsAbs i" "''..'' \<notin> set (elems i)"
    using agent_input_inside [OF validate_None(4) [OF s0(2)]] assms(3) s0(3) by simp_all
  have d: "dir \<noteq> []" using assms(2) by (auto simp: IsAbs_def has_prefix_def)
  have e: "elems (Join dir i) = elems dir @ elems i" by (rule elems_Join [OF d i elems_abs [OF assms(2)]])
  have "IsAbs (Join dir i)" using assms(2) by (rule IsAbs_Join)
  then show ?thesis using e s0(3) pathWithinRoot_iff [OF assms(2)] by simp
qed


text \<open>
  A scenario reference never leaves the scenario root. A directory that the resolver
  accepts continues the elements of the absolute root, and if both can be resolved through symbolic
  links, its real path continues those of the real root; a reference with \<open>..\<close> that climbs out is
  refused.
\<close>

theorem scenario_reference_confined:
  assumes "safeScenarioDir fs base ref = Inr dir"
    and "\<And>p a. fs_Abs fs p = Some a \<Longrightarrow> IsAbs a" and "\<And>p r. IsAbs p \<Longrightarrow> fs_EvalSymlinks fs p = Some r \<Longrightarrow> IsAbs r"
  shows "\<exists>root. fs_Abs fs base = Some root \<and> prefix (elems root) (elems dir) \<and>
    (\<forall>real. fs_EvalSymlinks fs dir = Some real \<longrightarrow>
       (\<exists>realRoot. fs_EvalSymlinks fs root = Some realRoot \<and> prefix (elems realRoot) (elems real)))"
proof -
  from assms(1) obtain root where root: "fs_Abs fs base = Some root" and dir: "dir = Join root ref"
    and w: "pathWithinRoot root dir"
    and r: "fs_EvalSymlinks fs dir = Some real \<Longrightarrow>
      \<exists>realRoot. fs_EvalSymlinks fs root = Some realRoot \<and> pathWithinRoot realRoot real" for real
    by (auto simp: safeScenarioDir_def Let_def split: if_splits option.splits)
  have a: "IsAbs root" by (rule assms(2) [OF root])
  then have d: "IsAbs dir" unfolding dir by (rule IsAbs_Join)
  have "prefix (elems realRoot) (elems real)"
    if "fs_EvalSymlinks fs root = Some realRoot" "fs_EvalSymlinks fs dir = Some real" "pathWithinRoot realRoot real" for realRoot real
    using pathWithinRoot_iff assms(3) a d that by blast
  with r have "\<forall>real. fs_EvalSymlinks fs dir = Some real \<longrightarrow>
      (\<exists>realRoot. fs_EvalSymlinks fs root = Some realRoot \<and> prefix (elems realRoot) (elems real))" by blast
  moreover have "prefix (elems root) (elems dir)" using w pathWithinRoot_iff [OF a d] by simp
  ultimately show ?thesis using root by blast
qed


section \<open>Witnesses and gaps\<close>

definition demo_break :: Break where
  "demo_break = \<lparr>br_Type = ''kubectl'', br_Path = ''b.yaml'', br_Chart = [], br_Name = [], br_Namespace = [], br_Command = [],
     br_Args = [], br_AllowFailure = False, br_Memory = []\<rparr>"

definition demo_trigger_of :: "string \<Rightarrow> ResourceChangeTrigger" where
  "demo_trigger_of r = \<lparr>rc_APIVersion = ''v1'', rc_Resource = r, rc_Namespace = ''bench'', rc_Name = ''x''\<rparr>"

definition demo_chaos :: "string \<Rightarrow> ChaosStep" where
  "demo_chaos r = \<lparr>ch_Name = ''c'', ch_Type = ''kubectl-apply'', ch_At = \<lparr>du_Duration = 0, du_Set = False\<rparr>,
     ch_AfterChange = Some (demo_trigger_of r), ch_Path = ''c.yaml'', ch_Release = [], ch_Namespace = [], ch_Duration = [],
     ch_Args = [], ch_AllowFailure = False\<rparr>"

definition demo_scenario :: "string \<Rightarrow> string list \<Rightarrow> Scenario" where
  "demo_scenario r inputs = \<lparr>s_ID = ''s1'', s_Title = ''t'', s_Category = ''kubernetes'', s_Categories = [], s_Path = [], s_Dir = [],
     s_Prompt = ''p.md'', s_Checks = [\<lparr>sk_Type = ''assert-v2'', sk_Namespace = [], sk_Name = ''c'', sk_Condition = ''v.sh''\<rparr>],
     s_Scope = \<lparr>sp_Namespaces = [''bench''], sp_Deny = []\<rparr>, s_Bootstrap = [], s_AfterBreak = [], s_Break = demo_break, s_Stages = [],
     s_Chaos = \<lparr>cc_Mode = ''repeat'', cc_StopOnAgentDone = True, cc_Steps = [demo_chaos r]\<rparr>, s_AgentInputs = inputs,
     s_Environment = \<lparr>ec_Profile = [], ec_Providers = [''kind''],
       ec_Cloud = \<lparr>cl_Provider = [], cl_Services = [], cl_Setup = [], cl_Teardown = []\<rparr>,
       ec_Kubernetes = \<lparr>ku_CNI = [], ku_Addons = [], ku_Runtimes = [], ku_Features = []\<rparr>\<rparr>,
     s_Autopsy = \<lparr>ah_ExpectedDiagnostics = [], ah_AllowedMutations = [], ah_ForbiddenActions = [], ah_RootCauseResources = []\<rparr>,
     s_AuthorityProfile = None\<rparr>"

definition demo_fs :: ScenarioFS where
  "demo_fs = \<lparr>fs_Doc = (\<lambda>d. if d = ''/r/k8s/s1'' then Doc (demo_scenario ''ConfigMaps'' [''a/./../notes.md'']) else DocMissing),
     fs_ReadDir = (\<lambda>d. if d = ''/r'' then Some [(''k8s'', True)] else if d = ''/r/k8s'' then Some [(''s1'', True)] else None),
     fs_Abs = (\<lambda>p. if IsAbs p then Some p else Some (''/'' @ p)), fs_EvalSymlinks = (\<lambda>p. Some p)\<rparr>"

definition demo_loaded :: Scenario where
  "demo_loaded = projr (Load demo_fs ''/r/k8s/s1'')"

lemma demo_Load: "Load demo_fs ''/r/k8s/s1'' = Inr demo_loaded"
proof -
  have "\<not> isl (Load demo_fs ''/r/k8s/s1'')" by code_simp
  then show ?thesis by (simp add: demo_loaded_def)
qed


theorem scenario_reference_confined_witness:
  "prefix (elems ''/r'') (elems ''/r/k8s/s1'') \<and> safeScenarioDir demo_fs ''/r'' ''k8s/../k8s/s1'' = Inr ''/r/k8s/s1'' \<and>
   isl (safeScenarioDir demo_fs ''/r'' ''k8s/../../etc'')"
proof -
  have s: "safeScenarioDir demo_fs ''/r'' ''k8s/../k8s/s1'' = Inr ''/r/k8s/s1''" by code_simp
  have "fs_Abs demo_fs p = Some a \<Longrightarrow> IsAbs a" "IsAbs p \<Longrightarrow> fs_EvalSymlinks demo_fs p = Some a \<Longrightarrow> IsAbs a" for p a
    by (auto simp: demo_fs_def IsAbs_def has_prefix_def split: if_splits)
  from scenario_reference_confined [OF s this] have "prefix (elems ''/r'') (elems ''/r/k8s/s1'')"
    by (auto simp: demo_fs_def IsAbs_def has_prefix_def)
  moreover have "isl (safeScenarioDir demo_fs ''/r'' ''k8s/../../etc'')" by code_simp
  ultimately show ?thesis using s by simp
qed


text \<open>
  The trigger test compares the resource as a whole: a resource with dots and slashes that leads
  the request path to \<^verbatim>\<open>secrets\<close> passes it.
\<close>

lemma secrets_trigger_accepted:
  "validate (demo_scenario ''configmaps/../secrets'' []) = None \<and>
   Clean (''/api/v1/namespaces/bench/'' @ ''configmaps/../secrets'' @ ''/x'') = ''/api/v1/namespaces/bench/secrets/x''"
  by code_simp

text \<open>The loader resolves the scripts of top-level checks against the scenario directory, those of stage checks not.\<close>

lemma stage_checks_unresolved: "map st_Checks (s_Stages (resolvePaths dir s)) = map st_Checks (s_Stages s)"
  by (simp add: resolveStage_def comp_def)

end
