(* ===== verification/Audit_Fields.thy ===== *)
theory Audit_Fields
  imports Go_Json
begin

text \<open>
  Field-level transition matching over audit request bodies (\<^verbatim>\<open>pkg/audit/fields.go\<close>): field
  paths, RFC 6901 pointers, JSON patches, merge bodies and full replacements. A body is a
  \<open>raw\<close>: the decoded tree, or \<open>None\<close> for bytes that are missing or not JSON. The first byte of
  trimmed valid JSON text says whether it is a list or an object, which is what the source
  looks at. A value \<^verbatim>\<open>any\<close> that is \<^verbatim>\<open>nil\<close> is \<open>JNull\<close>.

  The second half relates the matcher to what the API server does with such a body: a JSON
  merge patch (RFC 7386) applied to the live object, and a full replacement of it.
\<close>

section \<open>Field paths and pointers\<close>

record FieldSegment =
  fs_Key :: string
  fs_Pred :: string

definition parseSegment :: "string \<Rightarrow> FieldSegment" where
  "parseSegment part = (case cut_at (CHR ''['') part of (key, rest, found) \<Rightarrow>
     if found \<and> has_suffix part '']'' then
       (case cut_at (CHR ''='') (butlast rest) of (k, v, isKV) \<Rightarrow>
          \<lparr>fs_Key = key, fs_Pred = (if isKV \<and> k = ''name'' then v else [])\<rparr>)
     else \<lparr>fs_Key = part, fs_Pred = []\<rparr>)"

definition ParseFieldPath :: "string \<Rightarrow> FieldSegment list" where
  "ParseFieldPath field = map parseSegment (filter (\<lambda>part. part \<noteq> []) (split_at (CHR ''.'') field))"

definition rulePath :: "FieldSegment list \<Rightarrow> bool \<Rightarrow> string list" where
  "rulePath segs withIndex = concat (map (\<lambda>s.
     if withIndex \<and> fs_Pred s \<noteq> [] then [fs_Key s, ''*''] else [fs_Key s]) segs)"

text \<open>\<^verbatim>\<open>strconv.Atoi\<close> succeeds on an optionally signed run of digits that fits in 64 bits.\<close>

definition is_digit :: "char \<Rightarrow> bool" where
  "is_digit c \<longleftrightarrow> 48 \<le> (of_char c :: int) \<and> (of_char c :: int) \<le> 57"

definition digits_value :: "string \<Rightarrow> int" where
  "digits_value s = fold (\<lambda>c n. n * 10 + (of_char c - 48)) s 0"

definition atoi_ok :: "string \<Rightarrow> bool" where
  "atoi_ok s = (case s of
     [] \<Rightarrow> False
   | c # cs \<Rightarrow>
       (if c = CHR ''-'' then cs \<noteq> [] \<and> list_all is_digit cs \<and> digits_value cs \<le> 9223372036854775808
        else if c = CHR ''+'' then cs \<noteq> [] \<and> list_all is_digit cs \<and> digits_value cs < 9223372036854775808
        else list_all is_digit s \<and> digits_value s < 9223372036854775808))"

definition normalizePointer :: "string \<Rightarrow> string list" where
  "normalizePointer p =
     (let q = trim_prefix p ''/'' in
      if q = [] then []
      else map (\<lambda>seg.
        let seg' = replace2 (CHR ''~'') (CHR ''0'') ''~''
                     (replace2 (CHR ''~'') (CHR ''1'') ''/'' seg) in
        if atoi_ok seg' then ''*'' else seg') (split_at (CHR ''/'') q))"

text \<open>
  \<^verbatim>\<open>equalPrefix\<close> indexes the rule by the positions of the pointer; its callers guard that the
  pointer is not longer than the rule.
\<close>

definition equalPrefix :: "string list \<Rightarrow> string list \<Rightarrow> bool" where
  "equalPrefix rule got =
     list_all (\<lambda>(r, g). r = g \<or> r = ''*'' \<or> g = ''*'') (zip rule got)"

section \<open>Values\<close>

definition jsonDeepEqual :: "json \<Rightarrow> json \<Rightarrow> bool" where
  "jsonDeepEqual a b \<longleftrightarrow> jcanon a = jcanon b"

definition jsonValueEquals :: "raw \<Rightarrow> json \<Rightarrow> bool" where
  "jsonValueEquals r value =
     (if value = JNull then r = Some JNull
      else (case r of None \<Rightarrow> False | Some got \<Rightarrow> jsonDeepEqual got value))"

fun walkJSONValue :: "json \<Rightarrow> string list \<Rightarrow> json option" where
  "walkJSONValue cur [] = Some cur"
| "walkJSONValue cur (k # ks) = (case cur of
     JObj kvs \<Rightarrow> (case jget kvs k of None \<Rightarrow> None | Some v \<Rightarrow> walkJSONValue v ks)
   | JArr es \<Rightarrow>
       (case find (\<lambda>e. case e of JObj kvs \<Rightarrow> jget kvs k \<noteq> None | _ \<Rightarrow> False) es of
          Some (JObj kvs) \<Rightarrow>
            (case jget kvs k of None \<Rightarrow> None | Some v \<Rightarrow> walkJSONValue v ks)
        | _ \<Rightarrow> None)
   | _ \<Rightarrow> None)"

section \<open>JSON patches\<close>

record jsonPatchOp =
  jp_Op :: string
  jp_Path :: string
  jp_Value :: raw

definition decodeOp :: "json \<Rightarrow> jsonPatchOp option" where
  "decodeOp j = (case j of
     JObj kvs \<Rightarrow>
       (case (field_string ''op'' [] kvs, field_string ''path'' [] kvs) of
          (Some o', Some p) \<Rightarrow>
            Some \<lparr>jp_Op = o', jp_Path = p, jp_Value = field_raw ''value'' None kvs\<rparr>
        | _ \<Rightarrow> None)
   | JNull \<Rightarrow> Some \<lparr>jp_Op = [], jp_Path = [], jp_Value = None\<rparr>
   | _ \<Rightarrow> None)"

definition decodeOps :: "json list \<Rightarrow> jsonPatchOp list option" where
  "decodeOps js = (if list_all (\<lambda>j. decodeOp j \<noteq> None) js
                   then Some (map (\<lambda>j. the (decodeOp j)) js) else None)"

definition opMatches :: "string list \<Rightarrow> string \<Rightarrow> json \<Rightarrow> jsonPatchOp \<Rightarrow> bool" where
  "opMatches rp change value o' =
     (let np = normalizePointer (jp_Path o') in
      if np = [] then False
      else if change = ''removed'' then
        jp_Op o' = ''remove'' \<and> length np \<le> length rp \<and> equalPrefix rp np
      else if change = ''set'' then
        (jp_Op o' = ''replace'' \<or> jp_Op o' = ''add'') \<and>
        (length np = length rp \<and> equalPrefix rp np \<and> jsonValueEquals (jp_Value o') value \<or>
         length np < length rp \<and> equalPrefix (take (length np) rp) np \<and>
           (case jp_Value o' of
              None \<Rightarrow> False
            | Some j \<Rightarrow> (case walkJSONValue j (drop (length np) rp) of
                           Some v \<Rightarrow> jsonValueEquals (Some v) value
                         | None \<Rightarrow> False)))
      else False)"

definition jsonPatchMatches ::
  "jsonPatchOp list \<Rightarrow> FieldSegment list \<Rightarrow> string \<Rightarrow> json \<Rightarrow> bool" where
  "jsonPatchMatches ops segs change value =
     list_ex (opMatches (rulePath segs True) change value) ops"

section \<open>Merge bodies and full replacements\<close>

definition nameIs :: "string \<Rightarrow> (string \<times> json) list \<Rightarrow> bool" where
  "nameIs pred em \<longleftrightarrow> as_string (jget em ''name'') = pred"

definition candidates :: "FieldSegment \<Rightarrow> json list \<Rightarrow> json list" where
  "candidates seg es = filter (\<lambda>e. case e of
     JObj em \<Rightarrow> fs_Pred seg = [] \<or> nameIs (fs_Pred seg) em | _ \<Rightarrow> False) es"

definition mergeStep ::
  "(json list \<Rightarrow> bool) \<Rightarrow> FieldSegment \<Rightarrow> bool \<Rightarrow> string \<Rightarrow> json \<Rightarrow> json \<Rightarrow> bool" where
  "mergeStep deeper seg leaf change value n = (case n of
     JObj m \<Rightarrow>
       (case jget m (fs_Key seg) of
          None \<Rightarrow> False
        | Some v \<Rightarrow>
            (if leaf then
               (if change = ''removed'' then v = JNull
                else if change = ''set'' then jsonValueEquals (Some v) value
                else False)
             else (case v of
                 JObj _ \<Rightarrow> deeper [v]
               | JArr es \<Rightarrow> deeper (candidates seg es)
               | _ \<Rightarrow> False)))
   | _ \<Rightarrow> False)"

primrec walkMerge :: "FieldSegment list \<Rightarrow> string \<Rightarrow> json \<Rightarrow> json list \<Rightarrow> bool" where
  "walkMerge [] change value nodes = False"
| "walkMerge (seg # segs) change value nodes =
     list_ex (mergeStep (walkMerge segs change value) seg (segs = []) change value) nodes"

text \<open>
  The loop of \<^verbatim>\<open>absentWalk\<close> over its nodes, with the recursive call as a parameter; a scalar
  child returns at once.
\<close>

fun absentLoop :: "(json list \<Rightarrow> bool) \<Rightarrow> FieldSegment \<Rightarrow> bool \<Rightarrow> bool \<Rightarrow> json list \<Rightarrow> bool" where
  "absentLoop deeper seg leaf anyMap [] = (\<not> anyMap)"
| "absentLoop deeper seg leaf anyMap (n # ns) = (case n of
     JObj m \<Rightarrow>
       (case jget m (fs_Key seg) of
          None \<Rightarrow> True
        | Some v \<Rightarrow>
            (case v of
               JObj _ \<Rightarrow> deeper [v] \<or> absentLoop deeper seg leaf True ns
             | JArr es \<Rightarrow>
                 (let cand = candidates seg es in
                  cand = [] \<or> deeper cand \<or> absentLoop deeper seg leaf True ns)
             | _ \<Rightarrow> \<not> leaf))
   | _ \<Rightarrow> absentLoop deeper seg leaf anyMap ns)"

primrec absentWalk :: "FieldSegment list \<Rightarrow> json list \<Rightarrow> bool" where
  "absentWalk [] nodes = False"
| "absentWalk (seg # segs) nodes = absentLoop (absentWalk segs) seg (segs = []) False nodes"

definition mergeMatches :: "json \<Rightarrow> FieldSegment list \<Rightarrow> string \<Rightarrow> json \<Rightarrow> bool" where
  "mergeMatches doc segs change value = walkMerge segs change value [doc]"

definition mergeAbsent :: "json \<Rightarrow> FieldSegment list \<Rightarrow> bool" where
  "mergeAbsent doc segs = absentWalk segs [doc]"

definition ForbiddenChangeMatches ::
  "raw \<Rightarrow> string \<Rightarrow> string \<Rightarrow> json \<Rightarrow> bool \<Rightarrow> bool \<times> bool" where
  "ForbiddenChangeMatches body field change value fullReplace =
     (let segs = ParseFieldPath field in
      if segs = [] then (False, False)
      else (case body of
          Some (JArr js) \<Rightarrow>
            (case decodeOps js of
               None \<Rightarrow> (False, False)
             | Some ops \<Rightarrow> (jsonPatchMatches ops segs change value, True))
        | Some (JObj kvs) \<Rightarrow>
            (if mergeMatches (JObj kvs) segs change value then (True, True)
             else if fullReplace \<and> change = ''removed'' \<and> mergeAbsent (JObj kvs) segs
               then (True, True)
             else (False, True))
        | _ \<Rightarrow> (False, False)))"

section \<open>What the API server does with such a body\<close>

text \<open>The value a path of keys leads to through objects.\<close>

fun path_get :: "json \<Rightarrow> string list \<Rightarrow> json option" where
  "path_get j [] = Some j"
| "path_get (JObj kvs) (k # ks) = (case jget kvs k of None \<Rightarrow> None | Some v \<Rightarrow> path_get v ks)"
| "path_get _ (k # ks) = None"

text \<open>No list is met on the way to, or at, the end of a path.\<close>

fun no_list :: "json \<Rightarrow> string list \<Rightarrow> bool" where
  "no_list (JArr es) ks = False"
| "no_list (JObj kvs) (k # ks) = (case jget kvs k of None \<Rightarrow> True | Some v \<Rightarrow> no_list v ks)"
| "no_list _ ks = True"

text \<open>On the way to the end of a path only objects are met, or the path stops for lack of a key.\<close>

fun obj_way :: "json \<Rightarrow> string list \<Rightarrow> bool" where
  "obj_way j [] = True"
| "obj_way (JObj kvs) (k # ks) = (case jget kvs k of None \<Rightarrow> True | Some v \<Rightarrow> obj_way v ks)"
| "obj_way _ (k # ks) = False"

fun obj_fields :: "json \<Rightarrow> (string \<times> json) list" where
  "obj_fields (JObj kvs) = kvs"
| "obj_fields _ = []"

text \<open>RFC 7386: null deletes a key, an object is merged recursively, anything else replaces.\<close>

function merge_patch :: "json \<Rightarrow> json \<Rightarrow> json" where
  "merge_patch t (JObj kvs) = JObj (concat (map (\<lambda>k.
     case jget kvs k of
       None \<Rightarrow> (case jget (obj_fields t) k of None \<Rightarrow> [] | Some w \<Rightarrow> [(k, w)])
     | Some v \<Rightarrow>
         (if v = JNull then []
          else [(k, merge_patch (case jget (obj_fields t) k of None \<Rightarrow> JNull | Some w \<Rightarrow> w) v)]))
     (remdups (map fst (obj_fields t) @ map fst kvs))))"
| "merge_patch t JNull = JNull"
| "merge_patch t (JBool b) = JBool b"
| "merge_patch t (JNum n) = JNum n"
| "merge_patch t (JStr s) = JStr s"
| "merge_patch t (JArr es) = JArr es"
  by pat_completeness auto
termination
  by (relation "measure (size \<circ> snd)") (auto dest: jget_size)

section \<open>Facts\<close>

definition plain :: "FieldSegment list \<Rightarrow> bool" where
  "plain segs \<longleftrightarrow> (\<forall>s\<in>set segs. fs_Pred s = [])"

text \<open>Where no list is met, the two walks are lookups.\<close>

lemma walkMerge_lookup:
  "segs \<noteq> [] \<Longrightarrow> no_list (JObj kvs) (map fs_Key segs) \<Longrightarrow>
     walkMerge segs change value [JObj kvs] \<longleftrightarrow>
       (\<exists>v. path_get (JObj kvs) (map fs_Key segs) = Some v \<and>
          (if change = ''removed'' then v = JNull
           else change = ''set'' \<and> jsonValueEquals (Some v) value))"
proof (induction segs arbitrary: kvs)
  case (Cons seg segs)
  show ?case
  proof (cases "jget kvs (fs_Key seg)")
    case (Some v)
    show ?thesis
    proof (cases "segs = []")
      case True
      with Some show ?thesis by (simp add: mergeStep_def)
    next
      case False
      then obtain s' ss where segs: "segs = s' # ss" by (cases segs) auto
      show ?thesis
      proof (cases v)
        case (JObj m)
        have "no_list (JObj m) (map fs_Key segs)" using Cons.prems Some JObj by simp
        from Cons.IH [OF False this] Some JObj False show ?thesis
          by (simp add: mergeStep_def del: walkMerge.simps(2) add: walkMerge.simps(2) [of seg])
      qed (use Some Cons.prems segs in \<open>simp_all add: mergeStep_def\<close>)
    qed
  qed (simp add: mergeStep_def)
qed simp

lemma absentWalk_lookup:
  "no_list (JObj kvs) (map fs_Key segs) \<Longrightarrow>
     absentWalk segs [JObj kvs] \<longleftrightarrow> path_get (JObj kvs) (map fs_Key segs) = None"
proof (induction segs arbitrary: kvs)
  case (Cons seg segs)
  show ?case
  proof (cases "jget kvs (fs_Key seg)")
    case (Some v)
    show ?thesis
    proof (cases v)
      case (JObj m)
      then show ?thesis using Some Cons by simp
    qed (use Some Cons.prems in \<open>cases segs; simp\<close>)+
  qed simp
qed simp

lemma jget_concat_distinct:
  assumes "distinct ks" and "\<And>k. length (f k) \<le> 1" and "\<And>k kv. kv \<in> set (f k) \<Longrightarrow> fst kv = k"
  shows "jget (concat (map f ks)) k =
    (if k \<in> set ks then (case f k of [] \<Rightarrow> None | kv # _ \<Rightarrow> Some (snd kv)) else None)"
  using assms(1)
proof (induction ks)
  case (Cons x ks)
  have one: "jget (f x) k = (if k = x then (case f x of [] \<Rightarrow> None | kv # _ \<Rightarrow> Some (snd kv)) else None)"
    for k
  proof (cases "f x")
    case (Cons kv r)
    with assms(2) [of x] have "f x = [kv]" by simp
    with assms(3) [of kv x] show ?thesis by (cases kv) (auto simp: jget_Cons)
  qed simp
  show ?case
    using Cons by (cases "k = x") (simp_all add: jget_append one split: option.split)
qed simp

lemma jget_merge_patch:
  "jget (obj_fields (merge_patch t (JObj kvs))) k =
     (case jget kvs k of
        None \<Rightarrow> jget (obj_fields t) k
      | Some v \<Rightarrow> (if v = JNull then None else
          Some (merge_patch (case jget (obj_fields t) k of None \<Rightarrow> JNull | Some w \<Rightarrow> w) v)))"
proof -
  define f where "f k = (case jget kvs k of
       None \<Rightarrow> (case jget (obj_fields t) k of None \<Rightarrow> [] | Some w \<Rightarrow> [(k, w)])
     | Some v \<Rightarrow> (if v = JNull then []
          else [(k, merge_patch (case jget (obj_fields t) k of None \<Rightarrow> JNull | Some w \<Rightarrow> w) v)]))" for k
  have "jget (obj_fields (merge_patch t (JObj kvs))) k =
      jget (concat (map f (remdups (map fst (obj_fields t) @ map fst kvs)))) k"
    by (simp add: f_def cong: map_cong)
  also have "\<dots> = (if k \<in> set (map fst (obj_fields t) @ map fst kvs)
      then (case f k of [] \<Rightarrow> None | kv # _ \<Rightarrow> Some (snd kv)) else None)"
    by (subst jget_concat_distinct) (auto simp: f_def split: option.splits if_splits)
  also have "\<dots> = (case jget kvs k of
        None \<Rightarrow> jget (obj_fields t) k
      | Some v \<Rightarrow> (if v = JNull then None else
          Some (merge_patch (case jget (obj_fields t) k of None \<Rightarrow> JNull | Some w \<Rightarrow> w) v)))"
    using jget_None_iff [of kvs k] jget_None_iff [of "obj_fields t" k]
    by (auto simp: f_def split: option.splits)
  finally show ?thesis .
qed

lemma path_get_Cons:
  "path_get j (k # ks) = (case jget (obj_fields j) k of None \<Rightarrow> None | Some v \<Rightarrow> path_get v ks)"
  by (cases j) auto

text \<open>
  A merge patch that reaches the end of a path through objects deletes what is there exactly
  when it has an explicit null there.
\<close>

lemma merge_patch_deletes_iff:
  "path_get t (k # ks) \<noteq> None \<Longrightarrow> obj_way p (k # ks) \<Longrightarrow>
     path_get (merge_patch t p) (k # ks) = None \<longleftrightarrow> path_get p (k # ks) = Some JNull"
proof (induction ks arbitrary: k t p)
  case Nil
  then obtain kvs where p: "p = JObj kvs" by (cases p) auto
  from Nil(1) p show ?case
    by (auto simp: path_get_Cons jget_merge_patch simp del: merge_patch.simps
        split: option.splits if_splits)
next
  case (Cons k' ks)
  then obtain kvs where p: "p = JObj kvs" by (cases p) auto
  obtain w where w: "jget (obj_fields t) k = Some w" "path_get w (k' # ks) \<noteq> None"
    using Cons.prems(1) by (auto simp: path_get_Cons split: option.splits)
  show ?case
  proof (cases "jget kvs k")
    case None
    with w p show ?thesis
      by (simp add: path_get_Cons [of _ k] jget_merge_patch del: merge_patch.simps path_get.simps)
  next
    case (Some v)
    with Cons.prems(2) p have ow: "obj_way v (k' # ks)" by simp
    then have "v \<noteq> JNull" by auto
    with Some w p Cons.IH [OF w(2) ow] show ?thesis
      by (simp add: path_get_Cons [of _ k] jget_merge_patch del: merge_patch.simps path_get.simps)
  qed
qed

lemma no_list_way: "obj_way j ks \<Longrightarrow> path_get j ks = Some v \<Longrightarrow> \<not> (\<exists>es. v = JArr es) \<Longrightarrow> no_list j ks"
proof (induction j ks rule: obj_way.induct)
  case (1 j)
  then show ?case by (cases j) auto
qed (auto split: option.splits)

section \<open>Properties\<close>

text \<open>
  The matcher never guesses. It reports a match only for a body it could interpret, and a
  body counts as interpreted exactly when the rule has a field path and the body is an object
  or a list of decodable patch operations; everything else is reported as unverifiable.
\<close>

theorem forbidden_change_verifiable_iff:
  "(fst (ForbiddenChangeMatches body field change value full),
    snd (ForbiddenChangeMatches body field change value full)) \<noteq> (True, False) \<and>
   (snd (ForbiddenChangeMatches body field change value full) \<longleftrightarrow>
     ParseFieldPath field \<noteq> [] \<and>
     (case body of Some (JObj kvs) \<Rightarrow> True | Some (JArr js) \<Rightarrow> list_all (\<lambda>j. decodeOp j \<noteq> None) js
      | _ \<Rightarrow> False))"
  by (auto simp: ForbiddenChangeMatches_def Let_def decodeOps_def list_all_iff
      split: option.splits json.splits if_splits)


text \<open>
  A full replacement is reported as removing the field exactly when the new object does not
  have it, or has an explicit null there, provided no list is met on the way.
\<close>

theorem replacement_removal_detected:
  assumes "ParseFieldPath field = segs" and "segs \<noteq> []"
    and "no_list (JObj new) (map fs_Key segs)"
  shows "ForbiddenChangeMatches (Some (JObj new)) field ''removed'' value True =
    (path_get (JObj new) (map fs_Key segs) \<in> {None, Some JNull}, True)"
  using walkMerge_lookup [OF assms(2,3), of "''removed''" "value"]
    absentWalk_lookup [OF assms(3)] assms(1,2)
  by (auto simp: ForbiddenChangeMatches_def Let_def mergeMatches_def mergeAbsent_def)

text \<open>
  A body that sets the field is reported exactly when the value it carries there equals the
  forbidden one as JSON, key order apart, for patches and replacements alike.
\<close>

theorem set_value_detected:
  assumes "ParseFieldPath field = segs" and "segs \<noteq> []" and "value \<noteq> JNull"
    and "no_list (JObj body) (map fs_Key segs)"
  shows "ForbiddenChangeMatches (Some (JObj body)) field ''set'' value full =
    (map_option jcanon (path_get (JObj body) (map fs_Key segs)) = Some (jcanon value), True)"
  using walkMerge_lookup [OF assms(2,4), of "''set''" "value"] assms(1,2,3)
  by (auto simp: ForbiddenChangeMatches_def Let_def mergeMatches_def jsonValueEquals_def
      jsonDeepEqual_def)

section \<open>Witnesses\<close>

definition demo_field :: string where "demo_field = ''spec.readinessProbe''"

definition demo_live :: json where
  "demo_live = JObj [(''spec'', JObj [(''readinessProbe'', JObj []), (''image'', JStr ''api'')])]"

definition demo_patch :: "(string \<times> json) list" where
  "demo_patch = [(''spec'', JObj [(''readinessProbe'', JNull)])]"

definition demo_put :: "(string \<times> json) list" where
  "demo_put = [(''spec'', JObj [(''image'', JStr ''api'')])]"


theorem replacement_removal_detected_witness:
  "ForbiddenChangeMatches (Some (JObj demo_put)) demo_field ''removed'' JNull True = (True, True)"
proof -
  have "ParseFieldPath demo_field \<noteq> []"
    "no_list (JObj demo_put) (map fs_Key (ParseFieldPath demo_field))"
    by code_simp+
  from replacement_removal_detected [OF refl this, of JNull]
  have "ForbiddenChangeMatches (Some (JObj demo_put)) demo_field ''removed'' JNull True =
    (path_get (JObj demo_put) (map fs_Key (ParseFieldPath demo_field)) \<in> {None, Some JNull}, True)" .
  moreover have "path_get (JObj demo_put) (map fs_Key (ParseFieldPath demo_field)) = None"
    by code_simp
  ultimately show ?thesis by simp
qed

theorem set_value_detected_witness:
  "ForbiddenChangeMatches (Some (JObj demo_put)) ''spec.image'' ''set'' (JStr ''api'') False =
     (True, True)"
proof -
  have "ParseFieldPath ''spec.image'' \<noteq> []" "JStr ''api'' \<noteq> JNull"
    "no_list (JObj demo_put) (map fs_Key (ParseFieldPath ''spec.image''))"
    by code_simp+
  from set_value_detected [OF refl this, of False]
  have "ForbiddenChangeMatches (Some (JObj demo_put)) ''spec.image'' ''set'' (JStr ''api'') False =
    (map_option jcanon (path_get (JObj demo_put) (map fs_Key (ParseFieldPath ''spec.image''))) =
       Some (jcanon (JStr ''api'')), True)" .
  moreover have "map_option jcanon (path_get (JObj demo_put)
      (map fs_Key (ParseFieldPath ''spec.image''))) = Some (jcanon (JStr ''api''))"
    by code_simp
  ultimately show ?thesis by simp
qed

section \<open>Bodies the guards exclude\<close>

text \<open>
  A merge patch that deletes an ancestor with null removes the field from the live object and
  is reported as harmless; a JSON patch that removes the ancestor is caught.
\<close>

lemma merge_null_ancestor_missed:
  "path_get (merge_patch demo_live (JObj [(''spec'', JNull)])) [''spec'', ''readinessProbe''] = None \<and>
   ForbiddenChangeMatches (Some (JObj [(''spec'', JNull)])) demo_field ''removed'' JNull False =
     (False, True) \<and>
   ForbiddenChangeMatches (Some (JArr [JObj [(''op'', JStr ''remove''), (''path'', JStr ''/spec'')]]))
     demo_field ''removed'' JNull False = (True, True)"
  by code_simp

text \<open>
  A full replacement that keeps a list of scalars at the end of the path is reported as
  removing it.
\<close>

lemma replacement_scalar_list_misreported:
  "ForbiddenChangeMatches (Some (JObj [(''metadata'', JObj [(''finalizers'', JArr [JStr ''keep''])])]))
     ''metadata.finalizers'' ''removed'' JNull True = (True, True)"
  by code_simp

text \<open>
  With several candidates a scalar in the first ends the search, so a later entry that lost
  the field is not reported.
\<close>

lemma replacement_later_entry_missed:
  "ForbiddenChangeMatches (Some (JObj [(''containers'',
       JArr [JObj [(''image'', JStr ''a'')], JObj []])]))
     ''containers.image'' ''removed'' JNull True = (False, True) \<and>
   ForbiddenChangeMatches (Some (JObj [(''containers'',
       JArr [JObj [], JObj [(''image'', JStr ''a'')]])]))
     ''containers.image'' ''removed'' JNull True = (True, True)"
  by code_simp

text \<open>
  A JSON patch that replaces a whole list is not searched for a forbidden value in a named
  entry: the rule's index position is looked up as a key. An unpredicated list step never
  matches the index of a pointer.
\<close>

lemma patch_list_replacement_missed:
  "ForbiddenChangeMatches (Some (JArr [JObj [(''op'', JStr ''replace''), (''path'', JStr ''/containers''),
       (''value'', JArr [JObj [(''name'', JStr ''api''), (''image'', JStr ''evil'')]])]]))
     ''containers[name=api].image'' ''set'' (JStr ''evil'') False = (False, True) \<and>
   ForbiddenChangeMatches (Some (JArr [JObj [(''op'', JStr ''remove''),
       (''path'', JStr ''/containers/0/image'')]]))
     ''containers.image'' ''removed'' JNull False = (False, True)"
  by code_simp

end
