(* ===== verification/Audit_Events.thy ===== *)
theory Audit_Events
  imports Go_Json "HOL-Library.Product_Lexorder"
begin

text \<open>
  Kubernetes audit events (\<^verbatim>\<open>pkg/audit/events.go\<close>, \<^verbatim>\<open>redact.go\<close>, \<^verbatim>\<open>policy.go\<close>): the event record,
  tolerant line parsing, the de-duplicating store, the marker window and redaction.

  A \<^verbatim>\<open>time.Time\<close> is its instant in nanoseconds with the zero time at 0. Decoding one line of
  text into an \<^verbatim>\<open>Event\<close> is \<^verbatim>\<open>json.Unmarshal\<close>, a parameter of the definitions that parse. The
  store's Go map is the list of its entries in the order they were added; Go's iteration order
  is unspecified, and the facts on \<open>All\<close> show that no result depends on it.
\<close>

section \<open>Data\<close>

definition StageRequestReceived :: string where "StageRequestReceived = ''RequestReceived''"
definition StageResponseStarted :: string where "StageResponseStarted = ''ResponseStarted''"
definition StageResponseComplete :: string where "StageResponseComplete = ''ResponseComplete''"
definition StagePanic :: string where "StagePanic = ''Panic''"

definition TerminalStage :: "string \<Rightarrow> bool" where
  "TerminalStage stage \<longleftrightarrow> stage = StageResponseComplete \<or> stage = StagePanic"

record User =
  Username :: string
  UID :: string
  Groups :: "string list"

record ObjectRef =
  or_Resource :: string
  or_Namespace :: string
  or_Name :: string
  or_APIGroup :: string
  or_APIVersion :: string
  or_Subresource :: string

record ResponseStatus =
  Code :: int
  Reason :: string

record Event =
  Level :: string
  AuditID :: string
  Stage :: string
  RequestURI :: string
  Verb :: string
  UserOf :: "User option"
  UserExtra :: raw
  SourceIPs :: "string list"
  UserAgent :: string
  ObjectRefOf :: "ObjectRef option"
  ResponseStatusOf :: "ResponseStatus option"
  StageTimestamps :: "(string \<times> int) list"
  Timestamp :: int
  Annotations :: "(string \<times> string) list"
  RequestObject :: raw
  ResponseObject :: raw

definition emptyEvent :: Event where
  "emptyEvent = \<lparr>Level = [], AuditID = [], Stage = [], RequestURI = [], Verb = [], UserOf = None,
     UserExtra = None, SourceIPs = [], UserAgent = [], ObjectRefOf = None,
     ResponseStatusOf = None, StageTimestamps = [], Timestamp = 0, Annotations = [],
     RequestObject = None, ResponseObject = None\<rparr>"

definition Key :: "Event \<Rightarrow> string" where
  "Key e = AuditID e @ ''|'' @ Stage e"

definition EffectiveTimestamp :: "Event \<Rightarrow> int" where
  "EffectiveTimestamp e = (case map_of (StageTimestamps e) (Stage e) of
     Some ts \<Rightarrow> (if ts \<noteq> 0 then ts else Timestamp e)
   | None \<Rightarrow> Timestamp e)"

section \<open>Parsing\<close>

record ParseStats =
  Lines :: nat
  Bad :: nat
  Events :: "Event list"

text \<open>
  \<^verbatim>\<open>bufio.Scanner\<close> over lines: a line of at least \<open>limit\<close> bytes stops the scan with an error the
  source never reads; data that ends in a newline has no last empty line.
\<close>

definition scan_lines :: "int \<Rightarrow> string \<Rightarrow> string list" where
  "scan_lines limit data =
     (let ls = split_at (CHR 0x0A) data;
          ls' = (if last ls = [] then butlast ls else ls) in
      takeWhile (\<lambda>l. int (length l) < limit) ls')"

definition maxLine :: int where
  "maxLine = 8 * 1024 * 1024"

definition parseLine :: "(string \<Rightarrow> Event option) \<Rightarrow> string \<Rightarrow> ParseStats \<Rightarrow> ParseStats" where
  "parseLine unmarshal text st =
     (let line = trim_space text in
      if line = [] then st
      else (case unmarshal line of
          Some ev \<Rightarrow> (if AuditID ev = [] then st\<lparr>Lines := Lines st + 1, Bad := Bad st + 1\<rparr>
                      else st\<lparr>Lines := Lines st + 1, Events := Events st @ [ev]\<rparr>)
        | None \<Rightarrow> st\<lparr>Lines := Lines st + 1, Bad := Bad st + 1\<rparr>))"

definition Parse :: "(string \<Rightarrow> Event option) \<Rightarrow> string \<Rightarrow> ParseStats" where
  "Parse unmarshal data =
     fold (parseLine unmarshal) (scan_lines maxLine data) \<lparr>Lines = 0, Bad = 0, Events = []\<rparr>"

section \<open>The store\<close>

record Store =
  byKey :: "(string \<times> Event) list"
  opStages :: "(string \<times> string) list"

definition NewStore :: Store where
  "NewStore = \<lparr>byKey = [], opStages = []\<rparr>"

definition addOne :: "Event \<Rightarrow> Store \<times> nat \<Rightarrow> Store \<times> nat" where
  "addOne e sn = (case sn of (s, added) \<Rightarrow>
     if Key e \<in> set (map fst (byKey s)) then (s, added)
     else (s\<lparr>byKey := byKey s @ [(Key e, e)], opStages := opStages s @ [(AuditID e, Stage e)]\<rparr>,
           added + 1))"

definition Add :: "Event list \<Rightarrow> Store \<Rightarrow> Store \<times> nat" where
  "Add events s = fold addOne events (s, 0)"

definition Len :: "Store \<Rightarrow> nat" where
  "Len s = length (byKey s)"

definition HasTerminal :: "Store \<Rightarrow> string \<Rightarrow> bool" where
  "HasTerminal s auditID = list_ex (\<lambda>(i, stage). i = auditID \<and> TerminalStage stage) (opStages s)"

definition All :: "Store \<Rightarrow> Event list" where
  "All s = sort_key (\<lambda>e. (EffectiveTimestamp e, Key e)) (map snd (byKey s))"

definition Ops :: "Store \<Rightarrow> string list" where
  "Ops s = dedupe (map AuditID (All s))"

section \<open>Markers and windows\<close>

definition connectSubresources :: "string list" where
  "connectSubresources = [''exec'', ''attach'', ''portforward'', ''proxy'']"

definition connectSubresource :: "Event list \<Rightarrow> bool" where
  "connectSubresource grp = list_ex (\<lambda>e.
     (case ObjectRefOf e of Some r \<Rightarrow> or_Subresource r \<in> set connectSubresources | None \<Rightarrow> False) \<or>
     list_ex (\<lambda>sub. str_contains (RequestURI e) (''/'' @ sub)) connectSubresources) grp"

definition connectStarted :: "Event list \<Rightarrow> Event option" where
  "connectStarted grp =
     find (\<lambda>e. Stage e = StageResponseStarted \<and> connectSubresource grp) grp"

definition streamingOp :: "Event list \<Rightarrow> bool" where
  "streamingOp grp = list_ex (\<lambda>e.
     equal_fold (Verb e) ''watch'' \<or> str_contains (RequestURI e) ''follow=true'') grp"

definition isMarker :: "string \<Rightarrow> string \<Rightarrow> Event \<Rightarrow> bool" where
  "isMarker username nonce e \<longleftrightarrow>
     str_contains (RequestURI e) nonce \<and>
     (username = [] \<or> (case UserOf e of Some u \<Rightarrow> Username u = username | None \<Rightarrow> False)) \<and>
     (Stage e = [] \<or> TerminalStage (Stage e))"

definition FindMarker :: "Event list \<Rightarrow> string \<Rightarrow> string \<Rightarrow> Event option" where
  "FindMarker events username nonce = find (isMarker username nonce) events"

record WindowResult =
  w_Ops :: "Event list"
  w_Incomplete :: "string list"
  w_DelegatedOps :: "Event list"

definition inWindow :: "int \<Rightarrow> int \<Rightarrow> Event \<Rightarrow> bool" where
  "inWindow lo hi e \<longleftrightarrow> \<not> EffectiveTimestamp e < lo \<and> \<not> EffectiveTimestamp e > hi"

text \<open>
  The loop over one operation's events: the first body seen up to and including the first
  terminal event, and that event.
\<close>

fun scanGroup :: "raw \<Rightarrow> Event list \<Rightarrow> raw \<times> Event option" where
  "scanGroup body [] = (body, None)"
| "scanGroup body (e # es) =
     (let body' = (if body = None \<and> RequestObject e \<noteq> None then RequestObject e else body) in
      if TerminalStage (Stage e) then (body', Some e) else scanGroup body' es)"

definition lendBody :: "raw \<Rightarrow> Event \<Rightarrow> Event" where
  "lendBody body e =
     (if RequestObject e = None \<and> body \<noteq> None then e\<lparr>RequestObject := body\<rparr> else e)"

definition lostOp :: "int \<Rightarrow> int \<Rightarrow> string \<Rightarrow> Event list \<Rightarrow> WindowResult \<Rightarrow> WindowResult" where
  "lostOp lo hi opID grp res = (case grp of
     [] \<Rightarrow> res
   | first # _ \<Rightarrow>
       (if inWindow lo hi first
        then res\<lparr>w_Incomplete := w_Incomplete res @ [opID], w_Ops := w_Ops res @ [first]\<rparr>
        else res))"

definition windowOp :: "int \<Rightarrow> int \<Rightarrow> string \<Rightarrow> Event list \<Rightarrow> WindowResult \<Rightarrow> WindowResult" where
  "windowOp lo hi opID grp res =
     (case scanGroup None grp of
        (body, Some c) \<Rightarrow>
          (let canonical = lendBody body c in
           if \<not> inWindow lo hi canonical then res
           else
             (let res' = res\<lparr>w_Ops := w_Ops res @ [canonical]\<rparr> in
              if connectSubresource grp
              then res'\<lparr>w_DelegatedOps := w_DelegatedOps res' @ [canonical]\<rparr> else res'))
      | (_, None) \<Rightarrow>
          (case connectStarted grp of
             Some cs \<Rightarrow>
               (if inWindow lo hi cs
                then res\<lparr>w_Ops := w_Ops res @ [cs], w_DelegatedOps := w_DelegatedOps res @ [cs]\<rparr>
                else res)
           | None \<Rightarrow>
               (if connectSubresource grp then lostOp lo hi opID grp res
                else if streamingOp grp then res
                else lostOp lo hi opID grp res)))"

definition opGroup :: "Store \<Rightarrow> string \<Rightarrow> Event list" where
  "opGroup s opID = filter (\<lambda>e. AuditID e = opID) (All s)"

definition emptyWindow :: WindowResult where
  "emptyWindow = \<lparr>w_Ops = [], w_Incomplete = [], w_DelegatedOps = []\<rparr>"

definition Window :: "Store \<Rightarrow> Event \<Rightarrow> Event \<Rightarrow> WindowResult" where
  "Window s start end =
     (let lo = EffectiveTimestamp start; hi = EffectiveTimestamp end in
      fold (\<lambda>opID. windowOp lo hi opID (opGroup s opID)) (Ops s) emptyWindow)"

section \<open>Redaction and policy level\<close>

definition redactEvent :: "Event \<Rightarrow> Event" where
  "redactEvent e = e\<lparr>RequestObject := None, ResponseObject := None, Annotations := []\<rparr>"

definition Redacted :: "Event list \<Rightarrow> Event list" where
  "Redacted events = map redactEvent events"

text \<open>
  \<^verbatim>\<open>RedactJSONL\<close> prints the redacted events of a log with \<^verbatim>\<open>json.Marshal\<close>, whose text for a list
  of events is a parameter; marshalling the \<^verbatim>\<open>Event\<close> struct cannot fail on parsed events.
\<close>

definition RedactJSONL ::
  "(string \<Rightarrow> Event option) \<Rightarrow> (Event list \<Rightarrow> (string, string) result) \<Rightarrow> string \<Rightarrow>
   (string, string) result" where
  "RedactJSONL unmarshal marshal data = marshal (Redacted (Events (Parse unmarshal data)))"

record AuditPolicyRule =
  apr_Level :: string
  apr_Verbs :: "string list"

record AuditPolicy =
  ap_Kind :: string
  ap_Rules :: "AuditPolicyRule list"

datatype policy_error = PolicyParse | PolicyKind string

text \<open>The YAML decoding of \<^verbatim>\<open>gopkg.in/yaml.v3\<close> is a parameter.\<close>

definition MutationLevel ::
  "(string \<Rightarrow> AuditPolicy option) \<Rightarrow> string \<Rightarrow> (policy_error, string) result" where
  "MutationLevel yaml policyYAML = (case yaml policyYAML of
     None \<Rightarrow> Inl PolicyParse
   | Some p \<Rightarrow>
       if ap_Kind p \<noteq> ''Policy'' then Inl (PolicyKind (ap_Kind p))
       else (case find (\<lambda>r. let joined = join (apr_Verbs r) '','' in
                 str_contains joined ''create'' \<and> str_contains joined ''delete'') (ap_Rules p) of
           Some r \<Rightarrow> Inr (apr_Level r)
         | None \<Rightarrow> Inr ''None''))"

section \<open>Parsing accounts for every line\<close>

lemma parseLine_accounts:
  "Lines st = Bad st + length (Events st) \<Longrightarrow>
     Lines (parseLine u l st) = Bad (parseLine u l st) + length (Events (parseLine u l st))"
  by (auto simp: parseLine_def Let_def split: option.splits)

lemma fold_parseLine_accounts:
  "Lines st = Bad st + length (Events st) \<Longrightarrow>
     Lines (fold (parseLine u) ls st) =
       Bad (fold (parseLine u) ls st) + length (Events (fold (parseLine u) ls st))"
  by (induction ls arbitrary: st) (auto simp: parseLine_accounts)

lemma fold_parseLine_Lines:
  "Lines (fold (parseLine u) ls st) = Lines st + length (filter (\<lambda>l. trim_space l \<noteq> []) ls)"
  by (induction ls arbitrary: st) (auto simp: parseLine_def Let_def split: option.splits)

lemma fold_parseLine_Events:
  "Events (fold (parseLine u) ls st) = Events st @
     concat (map (\<lambda>l. case u (trim_space l) of
         Some ev \<Rightarrow> (if trim_space l = [] \<or> AuditID ev = [] then [] else [ev])
       | None \<Rightarrow> []) ls)"
  by (induction ls arbitrary: st) (auto simp: parseLine_def Let_def split: option.splits)

lemma scan_lines_stops:
  assumes "CHR 0x0A \<notin> set l" and "limit \<le> int (length l)"
  shows "scan_lines limit (l @ CHR 0x0A # rest) = []"
proof -
  have "split_at (CHR 0x0A) (l @ CHR 0x0A # rest) = l # split_at (CHR 0x0A) rest"
    by (rule split_at_append [OF assms(1)])
  then show ?thesis using assms by (auto simp: scan_lines_def Let_def)
qed

section \<open>The store keeps the first event of every key\<close>

definition wf_store :: "Store \<Rightarrow> bool" where
  "wf_store s \<longleftrightarrow> (\<exists>es. byKey s = map (\<lambda>e. (Key e, e)) es \<and> distinct (map Key es) \<and>
     opStages s = map (\<lambda>e. (AuditID e, Stage e)) es)"

definition stored :: "Store \<Rightarrow> Event set" where
  "stored s = snd ` set (byKey s)"

lemma wf_NewStore [simp]: "wf_store NewStore"
  by (auto simp: wf_store_def NewStore_def)

lemma stored_NewStore [simp]: "stored NewStore = {}"
  by (simp add: stored_def NewStore_def)

lemma set_All [simp]: "set (All s) = stored s"
  by (simp add: All_def stored_def)

lemma wf_store_keys: "wf_store s \<Longrightarrow> set (map fst (byKey s)) = Key ` stored s"
  by (auto simp: wf_store_def stored_def image_image)

lemma addOne_wf: "wf_store s \<Longrightarrow> wf_store (fst (addOne e (s, n)))"
proof -
  assume "wf_store s"
  then obtain es where es: "byKey s = map (\<lambda>e. (Key e, e)) es" "distinct (map Key es)"
      "opStages s = map (\<lambda>e. (AuditID e, Stage e)) es"
    by (auto simp: wf_store_def)
  show ?thesis
  proof (cases "Key e \<in> set (map Key es)")
    case True
    with es \<open>wf_store s\<close> show ?thesis by (simp add: addOne_def image_image)
  next
    case False
    with es show ?thesis
      unfolding wf_store_def by (intro exI [of _ "es @ [e]"]) (simp add: addOne_def image_image)
  qed
qed

lemma addOne_stored:
  "wf_store s \<Longrightarrow> stored (fst (addOne e (s, n))) =
     (if Key e \<in> Key ` stored s then stored s else insert e (stored s))"
  using wf_store_keys [of s] by (auto simp: addOne_def stored_def)

lemma Add_Nil [simp]: "Add [] s = (s, 0)"
  by (simp add: Add_def)

lemma fold_addOne_fst: "fst (fold addOne es (s, n)) = fst (fold addOne es (s, m))"
proof (induction es arbitrary: s n m)
  case (Cons e es)
  have "fst (addOne e (s, n)) = fst (addOne e (s, m))" by (simp add: addOne_def)
  then obtain t k l where "addOne e (s, n) = (t, k)" and "addOne e (s, m) = (t, l)"
    by (metis prod.collapse)
  then show ?case using Cons.IH [of t k l] by simp
qed simp

lemma fst_Add_Cons: "fst (Add (e # es) s) = fst (Add es (fst (addOne e (s, 0))))"
proof -
  obtain t k where "addOne e (s, 0) = (t, k)" by (cases "addOne e (s, 0)")
  then show ?thesis using fold_addOne_fst [of es t k 0] by (simp add: Add_def)
qed

lemma Add_wf: "wf_store s \<Longrightarrow> wf_store (fst (Add es s))"
  by (induction es arbitrary: s) (simp_all add: fst_Add_Cons addOne_wf)

lemma Add_stored:
  "wf_store s \<Longrightarrow> e \<in> stored (fst (Add es s)) \<longleftrightarrow>
     e \<in> stored s \<or> Key e \<notin> Key ` stored s \<and> find (\<lambda>x. Key x = Key e) es = Some e"
proof (induction es arbitrary: s)
  case (Cons x es)
  show ?case
    using Cons.prems Cons.IH [OF addOne_wf [OF Cons.prems]]
    by (auto simp: fst_Add_Cons addOne_stored)
qed simp

lemma Add_keys:
  "wf_store s \<Longrightarrow> Key ` stored (fst (Add es s)) = Key ` stored s \<union> Key ` set es"
proof (induction es arbitrary: s)
  case (Cons x es)
  show ?case
    using Cons.prems Cons.IH [OF addOne_wf [OF Cons.prems]]
    by (auto simp: fst_Add_Cons addOne_stored)
qed simp

lemma wf_store_inj: "wf_store s \<Longrightarrow> inj_on Key (stored s)"
proof -
  assume "wf_store s"
  then obtain es where "byKey s = map (\<lambda>e. (Key e, e)) es" "distinct (map Key es)"
    by (auto simp: wf_store_def)
  then show ?thesis by (simp add: stored_def distinct_map image_image)
qed

lemma wf_store_distinct: "wf_store s \<Longrightarrow> distinct (map Key (map snd (byKey s)))"
  by (auto simp: wf_store_def comp_def)

lemma HasTerminal_iff:
  "wf_store s \<Longrightarrow>
     HasTerminal s i \<longleftrightarrow> (\<exists>e\<in>stored s. AuditID e = i \<and> TerminalStage (Stage e))"
  by (auto simp: wf_store_def HasTerminal_def stored_def list_ex_iff)

text \<open>
  Sorting by a key that separates the elements has one result for every enumeration of them.
\<close>

lemma sort_key_perm:
  assumes "mset xs = mset ys" and "inj_on f (set xs)"
  shows "sort_key f xs = sort_key f ys"
proof (rule map_inj_on)
  have "sort (map f xs) = map f (sort_key f xs)"
    by (rule properties_for_sort) simp_all
  moreover have "sort (map f xs) = map f (sort_key f ys)"
    using assms(1) by (intro properties_for_sort) simp_all
  ultimately show "map f (sort_key f xs) = map f (sort_key f ys)" by simp
  have "set ys = set xs" using assms(1) mset_eq_setD by metis
  with assms(2) show "inj_on f (set (sort_key f xs) \<union> set (sort_key f ys))" by simp
qed

lemma inj_on_sort_key: "wf_store s \<Longrightarrow> inj_on (\<lambda>e. (EffectiveTimestamp e, Key e)) (stored s)"
  using wf_store_inj by (auto simp: inj_on_def)

lemma All_any_order:
  assumes "wf_store s" and "mset xs = mset (map snd (byKey s))"
  shows "sort_key (\<lambda>e. (EffectiveTimestamp e, Key e)) xs = All s"
  unfolding All_def
proof (rule sort_key_perm [OF assms(2)])
  have "set xs = stored s"
    using assms(2) by (metis list.set_map mset_eq_setD stored_def)
  then show "inj_on (\<lambda>e. (EffectiveTimestamp e, Key e)) (set xs)"
    using inj_on_sort_key [OF assms(1)] by simp
qed

lemma sorted_All: "sorted (map EffectiveTimestamp (All s))"
proof -
  have "sorted (map (\<lambda>e. (EffectiveTimestamp e, Key e)) (All s))" by (simp add: All_def)
  then show ?thesis
    by (simp add: sorted_map) (rule sorted_wrt_mono_rel, auto simp: less_eq_prod_def)
qed

section \<open>One operation of a window\<close>

lemma set_opGroup: "set (opGroup s i) = {e \<in> stored s. AuditID e = i}"
  by (auto simp: opGroup_def)

lemma sorted_opGroup: "sorted (map EffectiveTimestamp (opGroup s i))"
proof -
  have "sorted_wrt (\<lambda>x y. EffectiveTimestamp x \<le> EffectiveTimestamp y) (All s)"
    using sorted_All [of s] by (simp add: sorted_wrt_map)
  then show ?thesis by (simp add: opGroup_def sorted_wrt_map sorted_wrt_filter)
qed

lemma opGroup_first_least:
  "e \<in> set (opGroup s i) \<Longrightarrow> EffectiveTimestamp (hd (opGroup s i)) \<le> EffectiveTimestamp e"
  using sorted_opGroup [of s i] by (cases "opGroup s i") auto

lemma set_Ops: "set (Ops s) = AuditID ` stored s"
  by (simp add: Ops_def)

lemma opGroup_not_Nil: "i \<in> set (Ops s) \<Longrightarrow> opGroup s i \<noteq> []"
  using set_opGroup [of s i] by (auto simp: set_Ops)

text \<open>Each operation contributes on its own: the fold appends.\<close>

lemma lostOp_append:
  "lostOp lo hi i g res =
     (let r = lostOp lo hi i g emptyWindow in
      \<lparr>w_Ops = w_Ops res @ w_Ops r, w_Incomplete = w_Incomplete res @ w_Incomplete r,
       w_DelegatedOps = w_DelegatedOps res @ w_DelegatedOps r\<rparr>)"
  by (cases res) (auto simp: lostOp_def emptyWindow_def split: list.splits)

lemma windowOp_append:
  "windowOp lo hi i g res =
     (let r = windowOp lo hi i g emptyWindow in
      \<lparr>w_Ops = w_Ops res @ w_Ops r, w_Incomplete = w_Incomplete res @ w_Incomplete r,
       w_DelegatedOps = w_DelegatedOps res @ w_DelegatedOps r\<rparr>)"
proof -
  obtain ops inc del where res: "res = \<lparr>w_Ops = ops, w_Incomplete = inc, w_DelegatedOps = del\<rparr>"
    by (cases res)
  obtain b c where sg: "scanGroup None g = (b, c)" by fastforce
  show ?thesis
    unfolding windowOp_def sg
    by (cases c; cases "connectStarted g")
      (simp_all add: Let_def res lostOp_append [of lo hi i g res, unfolded res Let_def]
        emptyWindow_def)
qed

lemma fold_windowOp:
  "fold (\<lambda>i. windowOp lo hi i (G i)) ids res =
     \<lparr>w_Ops = w_Ops res @ concat (map (\<lambda>i. w_Ops (windowOp lo hi i (G i) emptyWindow)) ids),
      w_Incomplete = w_Incomplete res @
        concat (map (\<lambda>i. w_Incomplete (windowOp lo hi i (G i) emptyWindow)) ids),
      w_DelegatedOps = w_DelegatedOps res @
        concat (map (\<lambda>i. w_DelegatedOps (windowOp lo hi i (G i) emptyWindow)) ids)\<rparr>"
proof (induction ids arbitrary: res)
  case (Cons i ids)
  show ?case
    using Cons.IH [of "windowOp lo hi i (G i) res"] windowOp_append [of lo hi i "G i" res]
    by (simp add: Let_def)
qed simp

definition opWindow :: "Store \<Rightarrow> Event \<Rightarrow> Event \<Rightarrow> string \<Rightarrow> WindowResult" where
  "opWindow s a b i =
     windowOp (EffectiveTimestamp a) (EffectiveTimestamp b) i (opGroup s i) emptyWindow"

lemma Window_fields:
  "w_Ops (Window s a b) = concat (map (\<lambda>i. w_Ops (opWindow s a b i)) (Ops s))"
  "w_Incomplete (Window s a b) = concat (map (\<lambda>i. w_Incomplete (opWindow s a b i)) (Ops s))"
  "w_DelegatedOps (Window s a b) = concat (map (\<lambda>i. w_DelegatedOps (opWindow s a b i)) (Ops s))"
  by (simp_all add: Window_def Let_def fold_windowOp opWindow_def emptyWindow_def)

lemma scanGroup_Some:
  assumes "scanGroup body g = (b, Some c)"
  shows "c \<in> set g" and "TerminalStage (Stage c)"
    and "b = body \<or> (\<exists>e\<in>set g. b = RequestObject e)"
proof -
  have "c \<in> set g \<and> TerminalStage (Stage c) \<and> (b = body \<or> (\<exists>e\<in>set g. b = RequestObject e))"
    using assms by (induction body g rule: scanGroup.induct) (auto simp: Let_def split: if_splits)
  then show "c \<in> set g" "TerminalStage (Stage c)" "b = body \<or> (\<exists>e\<in>set g. b = RequestObject e)"
    by blast+
qed

lemma scanGroup_None:
  "snd (scanGroup body g) = None \<longleftrightarrow> (\<forall>e\<in>set g. \<not> TerminalStage (Stage e))"
  by (induction body g rule: scanGroup.induct) (auto simp: Let_def)

lemma EffectiveTimestamp_body [simp]:
  "EffectiveTimestamp (e\<lparr>RequestObject := b\<rparr>) = EffectiveTimestamp e"
  by (simp add: EffectiveTimestamp_def split: option.split)

lemma lendBody_fields [simp]:
  "AuditID (lendBody b e) = AuditID e" "Stage (lendBody b e) = Stage e"
  "EffectiveTimestamp (lendBody b e) = EffectiveTimestamp e"
  "inWindow lo hi (lendBody b e) = inWindow lo hi e"
  by (simp_all add: lendBody_def inWindow_def)

text \<open>The five outcomes of one operation, by what its events say.\<close>

lemma windowOp_cases:
  obtains (terminal) b c where "scanGroup None g = (b, Some c)"
      "windowOp lo hi i g emptyWindow =
        (if inWindow lo hi c
         then \<lparr>w_Ops = [lendBody b c], w_Incomplete = [],
               w_DelegatedOps = (if connectSubresource g then [lendBody b c] else [])\<rparr>
         else emptyWindow)"
  | (established) cs where "\<forall>e\<in>set g. \<not> TerminalStage (Stage e)" "connectStarted g = Some cs"
      "windowOp lo hi i g emptyWindow =
        (if inWindow lo hi cs
         then \<lparr>w_Ops = [cs], w_Incomplete = [], w_DelegatedOps = [cs]\<rparr> else emptyWindow)"
  | (streaming) "\<forall>e\<in>set g. \<not> TerminalStage (Stage e)" "connectStarted g = None"
      "\<not> connectSubresource g" "streamingOp g" "windowOp lo hi i g emptyWindow = emptyWindow"
  | (lost) "\<forall>e\<in>set g. \<not> TerminalStage (Stage e)" "connectStarted g = None"
      "windowOp lo hi i g emptyWindow = lostOp lo hi i g emptyWindow"
proof -
  obtain b c where sg: "scanGroup None g = (b, c)" by fastforce
  show thesis
  proof (cases c)
    case (Some c')
    then show thesis
      using terminal [of b c'] sg
      by (auto simp: windowOp_def Let_def emptyWindow_def)
  next
    case None
    with sg have noterm: "\<forall>e\<in>set g. \<not> TerminalStage (Stage e)"
      using scanGroup_None [of None g] by simp
    show thesis
    proof (cases "connectStarted g")
      case (Some cs)
      then show thesis
        using established [of cs] noterm sg None by (auto simp: windowOp_def emptyWindow_def)
    next
      case cs: None
      show thesis
      proof (cases "\<not> connectSubresource g \<and> streamingOp g")
        case True
        with streaming noterm cs sg None show thesis by (simp add: windowOp_def)
      next
        case False
        with lost noterm cs sg None show thesis by (auto simp: windowOp_def)
      qed
    qed
  qed
qed

lemma connectStarted_Some:
  "connectStarted g = Some cs \<Longrightarrow>
     cs \<in> set g \<and> Stage cs = StageResponseStarted \<and> connectSubresource g"
  by (auto simp: connectStarted_def find_Some_iff)

text \<open>The operation an entry of the window comes from.\<close>

lemma opWindow_Ops:
  assumes "w \<in> set (w_Ops (opWindow s a b i))"
  shows "AuditID w = i"
    and "inWindow (EffectiveTimestamp a) (EffectiveTimestamp b) w"
    and "\<exists>e\<in>stored s. AuditID e = i \<and>
      (w = e \<or> RequestObject e = None \<and>
        (\<exists>e'\<in>stored s. AuditID e' = i \<and> w = e\<lparr>RequestObject := RequestObject e'\<rparr>))"
    and "connectSubresource (opGroup s i) \<Longrightarrow>
      w \<in> set (w_DelegatedOps (opWindow s a b i)) \<or> i \<in> set (w_Incomplete (opWindow s a b i))"
proof -
  let ?g = "opGroup s i" and ?lo = "EffectiveTimestamp a" and ?hi = "EffectiveTimestamp b"
  have "AuditID w = i \<and> inWindow ?lo ?hi w \<and>
    (\<exists>e\<in>set ?g. w = e \<or> RequestObject e = None \<and>
        (\<exists>e'\<in>set ?g. w = e\<lparr>RequestObject := RequestObject e'\<rparr>)) \<and>
    (connectSubresource ?g \<longrightarrow>
      w \<in> set (w_DelegatedOps (opWindow s a b i)) \<or> i \<in> set (w_Incomplete (opWindow s a b i)))"
  proof (cases rule: windowOp_cases [where lo = ?lo and hi = ?hi and i = i and g = ?g])
    case (terminal bd c)
    note sg = scanGroup_Some [OF terminal(1)]
    have w: "w = lendBody bd c" "inWindow ?lo ?hi c"
      using assms terminal(2) by (auto simp: opWindow_def emptyWindow_def split: if_splits)
    have "w = c \<or> RequestObject c = None \<and> (\<exists>e'\<in>set ?g. w = c\<lparr>RequestObject := RequestObject e'\<rparr>)"
      using w(1) sg(3) by (auto simp: lendBody_def)
    moreover have "AuditID c = i" using sg(1) by (simp add: set_opGroup)
    ultimately show ?thesis
      using w sg(1) terminal(2) by (auto simp: opWindow_def)
  next
    case (established cs)
    have w: "w = cs" "inWindow ?lo ?hi cs"
      using assms established(3) by (auto simp: opWindow_def emptyWindow_def split: if_splits)
    then show ?thesis
      using connectStarted_Some [OF established(2)] established(3)
      by (auto simp: opWindow_def set_opGroup)
  next
    case streaming
    then show ?thesis using assms by (simp add: opWindow_def emptyWindow_def)
  next
    case lost
    obtain f r where g: "?g = f # r" and w: "w = f" "inWindow ?lo ?hi f"
      using assms lost(3)
      by (auto simp: opWindow_def lostOp_def emptyWindow_def split: list.splits if_splits)
    have "f \<in> set ?g" using g by simp
    then have "AuditID f = i" by (simp add: set_opGroup)
    with g w lost(3) show ?thesis by (auto simp: opWindow_def lostOp_def emptyWindow_def)
  qed
  then show "AuditID w = i" "inWindow ?lo ?hi w"
    "connectSubresource ?g \<Longrightarrow>
      w \<in> set (w_DelegatedOps (opWindow s a b i)) \<or> i \<in> set (w_Incomplete (opWindow s a b i))"
    "\<exists>e\<in>stored s. AuditID e = i \<and> (w = e \<or> RequestObject e = None \<and>
        (\<exists>e'\<in>stored s. AuditID e' = i \<and> w = e\<lparr>RequestObject := RequestObject e'\<rparr>))"
    unfolding set_opGroup by blast+
qed

lemma opWindow_Delegated:
  assumes "w \<in> set (w_DelegatedOps (opWindow s a b i))"
  shows "w \<in> set (w_Ops (opWindow s a b i)) \<and> connectSubresource (opGroup s i)"
proof (cases rule: windowOp_cases [where lo = "EffectiveTimestamp a"
      and hi = "EffectiveTimestamp b" and i = i and g = "opGroup s i"])
  case (established cs)
  then show ?thesis
    using assms connectStarted_Some [OF established(2)]
    by (auto simp: opWindow_def emptyWindow_def split: if_splits)
qed (use assms in \<open>auto simp: opWindow_def emptyWindow_def lostOp_def
      split: if_splits list.splits\<close>)

section \<open>The store contract\<close>

text \<open>
  What the collector relies on when it re-reads a log again and again: an event once stored
  stays and is never replaced, whatever is read later, and every key that was read is stored.
\<close>

lemma find_SomeD: "find P xs = Some x \<Longrightarrow> x \<in> set xs \<and> P x"
  by (auto simp: find_Some_iff)

locale event_store =
  fixes add :: "Event list \<Rightarrow> 's \<Rightarrow> 's"
    and events :: "'s \<Rightarrow> Event set"
    and inv :: "'s \<Rightarrow> bool"
  assumes inv_add: "inv s \<Longrightarrow> inv (add es s)"
    and events_add: "inv s \<Longrightarrow> e \<in> events (add es s) \<longleftrightarrow>
      e \<in> events s \<or> Key e \<notin> Key ` events s \<and> find (\<lambda>x. Key x = Key e) es = Some e"
    and keys_add: "inv s \<Longrightarrow> Key ` events (add es s) = Key ` events s \<union> Key ` set es"
    and keys_inj: "inv s \<Longrightarrow> inj_on Key (events s)"
begin

lemma inv_ingest: "inv s \<Longrightarrow> inv (fold add reads s)"
  by (induction reads arbitrary: s) (simp_all add: inv_add)

lemma ingest_mono: "inv s \<Longrightarrow> events s \<subseteq> events (fold add reads s)"
proof (induction reads arbitrary: s)
  case (Cons es reads)
  have "events s \<subseteq> events (add es s)" using Cons.prems by (auto simp: events_add)
  with Cons.IH [OF inv_add [OF Cons.prems]] show ?case by (auto 4 4)
qed simp

lemma ingest_keys:
  "inv s \<Longrightarrow> Key ` events (fold add reads s) = Key ` events s \<union> Key ` \<Union>(set ` set reads)"
proof (induction reads arbitrary: s)
  case (Cons es reads)
  show ?case
    using Cons.IH [OF inv_add [OF Cons.prems]] keys_add [OF Cons.prems] by auto
qed simp

lemma ingest_from_reads:
  "inv s \<Longrightarrow> e \<in> events (fold add reads s) \<Longrightarrow> e \<in> events s \<or> (\<exists>es\<in>set reads. e \<in> set es)"
proof (induction reads arbitrary: s)
  case (Cons es reads)
  from Cons.prems have "e \<in> events (add es s) \<or> (\<exists>es\<in>set reads. e \<in> set es)"
    using Cons.IH [OF inv_add] by simp
  then show ?case
    using Cons.prems(1) by (auto simp: events_add find_Some_iff)
qed simp

text \<open>Reading again what was read before changes nothing.\<close>

lemma add_again:
  assumes "inv s" and "Key ` set es \<subseteq> Key ` events s"
  shows "events (add es s) = events s"
proof -
  have "Key e \<in> Key ` events s" if "find (\<lambda>x. Key x = Key e) es = Some e" for e
  proof -
    from find_SomeD [OF that] have "Key e \<in> Key ` set es" by (intro imageI) (rule conjunct1)
    with assms(2) show ?thesis by (rule subsetD)
  qed
  then show ?thesis by (intro set_eqI) (simp only: events_add [OF assms(1)], metis)
qed

end

interpretation audit_store: event_store "\<lambda>es s. fst (Add es s)" stored wf_store
  by unfold_locales (auto simp: Add_wf Add_stored Add_keys wf_store_inj)

section \<open>Properties\<close>

text \<open>
  Ingesting events in any number of batches keeps, for every key (audit id and stage), the
  first event seen with it, and listing the store gives the same sequence whatever order the
  Go map is iterated in.
\<close>

theorem store_keeps_first_seen:
  assumes "mset xs = mset (map snd (byKey (fst (Add es NewStore))))"
  shows "sort_key (\<lambda>e. (EffectiveTimestamp e, Key e)) xs = All (fst (Add es NewStore)) \<and>
    (\<forall>e. e \<in> set xs \<longleftrightarrow> find (\<lambda>x. Key x = Key e) es = Some e)"
proof -
  have wf: "wf_store (fst (Add es NewStore))" by (simp add: Add_wf)
  have "set xs = stored (fst (Add es NewStore))"
    using assms by (metis list.set_map mset_eq_setD stored_def)
  then show ?thesis
    using All_any_order [OF wf assms] Add_stored [of NewStore _ es] by simp
qed

text \<open>
  Every operation in a window comes from a stored event of the same operation whose
  timestamp lies between the markers, inclusive; the only field the window may change is a
  missing request body, which it takes from another stage of the same operation.
\<close>

theorem window_sound:
  assumes "w \<in> set (w_Ops (Window s start end))"
  shows "EffectiveTimestamp start \<le> EffectiveTimestamp w \<and>
    EffectiveTimestamp w \<le> EffectiveTimestamp end \<and>
    (\<exists>e\<in>stored s. AuditID e = AuditID w \<and> (w = e \<or> RequestObject e = None \<and>
      (\<exists>e'\<in>stored s. AuditID e' = AuditID w \<and> w = e\<lparr>RequestObject := RequestObject e'\<rparr>)))"
proof -
  from assms obtain i where i: "w \<in> set (w_Ops (opWindow s start end i))"
    by (auto simp: Window_fields)
  from opWindow_Ops(1,2,3) [OF i] show ?thesis by (auto simp: inWindow_def)
qed

lemma Window_covers:
  assumes "w_Incomplete (Window s start end) = []"
    and "i \<in> set (Ops s)"
    and "inWindow (EffectiveTimestamp start) (EffectiveTimestamp end) (hd (opGroup s i))"
  shows "(\<exists>w\<in>set (w_Ops (Window s start end)). AuditID w = i \<and>
      (TerminalStage (Stage w) \<or> w \<in> set (w_DelegatedOps (Window s start end)))) \<or>
    (\<exists>c\<in>set (opGroup s i). (TerminalStage (Stage c) \<or> Stage c = StageResponseStarted) \<and>
      EffectiveTimestamp c > EffectiveTimestamp end) \<or>
    streamingOp (opGroup s i)"
proof -
  let ?g = "opGroup s i" and ?lo = "EffectiveTimestamp start" and ?hi = "EffectiveTimestamp end"
  have inc: "w_Incomplete (opWindow s start end i) = []"
    using assms(1,2) by (simp add: Window_fields)
  have ops: "set (w_Ops (opWindow s start end i)) \<subseteq> set (w_Ops (Window s start end))"
    "set (w_DelegatedOps (opWindow s start end i)) \<subseteq> set (w_DelegatedOps (Window s start end))"
    using assms(2) by (auto simp: Window_fields)
  have late: "\<not> inWindow ?lo ?hi c \<Longrightarrow> c \<in> set ?g \<Longrightarrow> EffectiveTimestamp c > ?hi" for c
    using opGroup_first_least [of c s i] assms(3) by (auto simp: inWindow_def)
  show ?thesis
  proof (cases rule: windowOp_cases [where lo = ?lo and hi = ?hi and i = i and g = ?g])
    case (terminal b c)
    note sg = scanGroup_Some [OF terminal(1)]
    show ?thesis
    proof (cases "inWindow ?lo ?hi c")
      case True
      have "AuditID (lendBody b c) = i" using sg(1) by (simp add: set_opGroup)
      moreover have "lendBody b c \<in> set (w_Ops (Window s start end))"
        using True terminal(2) ops(1) by (simp add: opWindow_def)
      moreover have "TerminalStage (Stage (lendBody b c))" using sg(2) by simp
      ultimately show ?thesis by blast
    qed (use late sg in blast)
  next
    case (established cs)
    note cs = connectStarted_Some [OF established(2)]
    show ?thesis
    proof (cases "inWindow ?lo ?hi cs")
      case True
      have "AuditID cs = i" using cs by (simp add: set_opGroup)
      moreover have "cs \<in> set (w_Ops (Window s start end))"
          "cs \<in> set (w_DelegatedOps (Window s start end))"
        using True established(3) ops by (simp_all add: opWindow_def)
      ultimately show ?thesis by blast
    qed (use late cs in blast)
  next
    case streaming
    then show ?thesis by simp
  next
    case lost
    obtain f r where "?g = f # r" using opGroup_not_Nil [OF assms(2)] by (cases ?g) auto
    with lost(3) inc assms(3) show ?thesis
      by (simp add: opWindow_def lostOp_def emptyWindow_def)
  qed
qed


text \<open>
  No connect channel escapes the delegated-execution gate. The delegated operations of a
  window are operations of the window on a connect subresource, and every operation of the
  window on one is either delegated or reported as an incomplete observation.
\<close>

theorem window_connect_gated:
  assumes "w \<in> set (w_Ops (Window s start end))" and "connectSubresource (opGroup s (AuditID w))"
  shows "w \<in> set (w_DelegatedOps (Window s start end)) \<or>
    AuditID w \<in> set (w_Incomplete (Window s start end))"
proof -
  from assms(1) obtain i where i: "i \<in> set (Ops s)" "w \<in> set (w_Ops (opWindow s start end i))"
    by (auto simp: Window_fields)
  from opWindow_Ops(1,4) [OF i(2)] assms(2) i(1) show ?thesis by (auto simp: Window_fields)
qed

text \<open>
  Tolerant parsing accounts for what it scanned: every scanned line that is not blank is
  either an event with an audit id or counted as bad.
\<close>

theorem parse_accounts_for_lines:
  "Lines (Parse u data) = length (filter (\<lambda>l. trim_space l \<noteq> []) (scan_lines maxLine data)) \<and>
   Lines (Parse u data) = Bad (Parse u data) + length (Events (Parse u data)) \<and>
   [] \<notin> set (map AuditID (Events (Parse u data)))"
  by (auto simp: Parse_def fold_parseLine_Lines fold_parseLine_Events
      intro: fold_parseLine_accounts [of "\<lparr>Lines = 0, Bad = 0, Events = []\<rparr>", simplified]
      split: option.splits if_splits)

text \<open>
  A line longer than the scanner's buffer ends the scan without being counted: nothing after
  it is read and no bad line is reported.
\<close>

lemma oversized_line_drops_rest:
  assumes "CHR 0x0A \<notin> set l" and "maxLine \<le> int (length l)"
  shows "Parse u (l @ CHR 0x0A # rest) = \<lparr>Lines = 0, Bad = 0, Events = []\<rparr>"
  using scan_lines_stops [OF assms] by (simp add: Parse_def)

section \<open>Witnesses\<close>

definition demo_event :: "string \<Rightarrow> string \<Rightarrow> int \<Rightarrow> Event" where
  "demo_event i stage t = emptyEvent\<lparr>AuditID := i, Stage := stage, Timestamp := t,
     Verb := ''patch'', RequestURI := ''/apis/apps/v1/namespaces/bench/deployments/web''\<rparr>"

definition demo_exec :: "string \<Rightarrow> int \<Rightarrow> Event" where
  "demo_exec stage t = (demo_event ''x'' stage t)\<lparr>Verb := ''create'',
     RequestURI := ''/api/v1/namespaces/bench/pods/web/exec''\<rparr>"

definition demo_events :: "Event list" where
  "demo_events =
     [(demo_event ''a'' ''RequestReceived'' 20)\<lparr>RequestObject := Some JNull\<rparr>,
      demo_event ''a'' ''ResponseComplete'' 20, demo_exec ''ResponseStarted'' 25,
      demo_event ''a'' ''ResponseComplete'' 21]"

definition demo_store :: Store where
  "demo_store = fst (Add demo_events NewStore)"

definition demo_start :: Event where "demo_start = demo_event ''s'' ''ResponseComplete'' 10"
definition demo_end :: Event where "demo_end = demo_event ''e'' ''ResponseComplete'' 30"

definition demo_op :: Event where
  "demo_op = (demo_event ''a'' ''ResponseComplete'' 20)\<lparr>RequestObject := Some JNull\<rparr>"

lemma demo_window:
  "w_Ops (Window demo_store demo_start demo_end) = [demo_op, demo_exec ''ResponseStarted'' 25]"
  "w_DelegatedOps (Window demo_store demo_start demo_end) = [demo_exec ''ResponseStarted'' 25]"
  "w_Incomplete (Window demo_store demo_start demo_end) = []"
  by code_simp+

theorem store_keeps_first_seen_witness:
  "sort_key (\<lambda>e. (EffectiveTimestamp e, Key e)) (rev (map snd (byKey demo_store))) =
     All demo_store"
  using store_keeps_first_seen [of "rev (map snd (byKey demo_store))" demo_events]
  by (simp add: demo_store_def)

theorem window_sound_witness:
  "EffectiveTimestamp demo_start \<le> EffectiveTimestamp demo_op \<and>
   (\<exists>e\<in>stored demo_store. AuditID e = AuditID demo_op)"
  using window_sound [of demo_op demo_store demo_start demo_end] demo_window(1) by auto


theorem window_connect_gated_witness:
  "demo_exec ''ResponseStarted'' 25 \<in> set (w_DelegatedOps (Window demo_store demo_start demo_end))"
proof -
  have "connectSubresource (opGroup demo_store (AuditID (demo_exec ''ResponseStarted'' 25)))"
    by code_simp
  then show ?thesis
    using window_connect_gated [of "demo_exec ''ResponseStarted'' 25" demo_store demo_start demo_end]
      demo_window by simp
qed

end
