(* ===== verification/Audit_Collector.thy ===== *)
theory Audit_Collector
  imports Audit_Events Evaluation_Types "HOL-Library.Sublist"
begin

text \<open>
  The audit collector (\<^verbatim>\<open>pkg/audit/collector.go\<close>, \<^verbatim>\<open>health.go\<close>) and the window wrapper of the
  harness (\<^verbatim>\<open>pkg/harness/audit_window.go\<close>).

  The drain loop reads every source, waits and reads again. What it meets in one pass is a
  \<open>round\<close>: the result of each source's \<^verbatim>\<open>Read\<close>, then the clock and the context as the loop sees
  them at the end of the pass. A run of the loop is a list of rounds; the loop returns \<open>None\<close>
  only when the list ends before the loop does. The node probes (\<^verbatim>\<open>docker exec\<close>) and the line
  decoder are parameters.
\<close>

section \<open>Node health\<close>

datatype Probe = ArgsProbe | PolicyFileProbe | LogDirProbe

record Health =
  hl_Node :: string
  hl_ManifestHasFlags :: bool
  hl_PolicyFilePresent :: bool
  hl_LogDirWritable :: bool
  hl_Detail :: string

definition HealthOK :: "Health \<Rightarrow> bool" where
  "HealthOK h \<longleftrightarrow> hl_ManifestHasFlags h \<and> hl_PolicyFilePresent h \<and> hl_LogDirWritable h"

definition trim :: "string \<Rightarrow> string" where
  "trim s = (let t = trim_space s in
     if length t > 300 then take 300 t @ [CHR 0xE2, CHR 0x80, CHR 0xA6] else t)"

text \<open>A probe gives its output and whether the command failed.\<close>

definition VerifyNodeHealth ::
  "(string \<Rightarrow> Probe \<Rightarrow> string \<times> bool) \<Rightarrow> string \<Rightarrow> Health" where
  "VerifyNodeHealth run container =
     (let h = \<lparr>hl_Node = container, hl_ManifestHasFlags = False, hl_PolicyFilePresent = False,
               hl_LogDirWritable = False, hl_Detail = []\<rparr>;
          bad = (\<lambda>pr. snd (run container pr) \<or> \<not> str_contains (fst (run container pr)) ''yes'') in
      if bad ArgsProbe then
        h\<lparr>hl_Detail := ''apiserver lacks audit-policy-file arg (manifest or cmdline): '' @
            trim (fst (run container ArgsProbe))\<rparr>
      else if bad PolicyFileProbe then
        h\<lparr>hl_ManifestHasFlags := True,
          hl_Detail := ''audit policy file missing in node: '' @
            trim (fst (run container PolicyFileProbe))\<rparr>
      else if bad LogDirProbe then
        h\<lparr>hl_ManifestHasFlags := True, hl_PolicyFilePresent := True,
          hl_Detail := ''audit log dir not writable: '' @ trim (fst (run container LogDirProbe))\<rparr>
      else h\<lparr>hl_ManifestHasFlags := True, hl_PolicyFilePresent := True,
             hl_LogDirWritable := True\<rparr>)"

definition ErrUnhealthy :: "Health list \<Rightarrow> string option" where
  "ErrUnhealthy healths =
     (let bad = map (\<lambda>h. hl_Node h @ '': '' @ hl_Detail h) (filter (\<lambda>h. \<not> HealthOK h) healths) in
      if bad \<noteq> [] then Some (''audit health check failed: '' @ join bad ''; '') else None)"

section \<open>Collection\<close>

datatype Coverage = CovComplete | CovIncomplete | CovAbsent

definition ReasonNotProvisioned :: string where
  "ReasonNotProvisioned = ''audit not provisioned on this cluster''"
definition ReasonStartMarker :: string where
  "ReasonStartMarker = ''start marker not observed in audit''"
definition ReasonEndMarker :: string where
  "ReasonEndMarker = ''end marker not observed in audit''"
definition ReasonNonTerminalOps :: string where
  "ReasonNonTerminalOps = ''operations without terminal stage at drain end''"
definition ReasonReaderFailure :: string where
  "ReasonReaderFailure = ''audit log reader failed on one or more nodes''"
definition ReasonUnparseableJSON :: string where
  "ReasonUnparseableJSON = ''audit log lines failed JSON decode''"
definition ReasonLogRotated :: string where
  "ReasonLogRotated = ''log_rotated''"

datatype read_error = LogRotated | ReadFailed string

fun read_error_text :: "read_error \<Rightarrow> string" where
  "read_error_text LogRotated = ''audit log rotated mid-window''"
| "read_error_text (ReadFailed msg) = msg"

record round =
  rd_Reads :: "(read_error, string) result list"
  rd_Now :: int
  rd_Cancelled :: bool

record CollectRequest =
  cr_Sources :: "string list"
  cr_StartNonce :: string
  cr_EndNonce :: string
  cr_MarkerUsername :: string
  cr_HealthCheckNodes :: "string list"
  cr_Deadline :: int

record Result =
  res_Store :: "Store option"
  res_Window :: WindowResult
  res_Coverage :: Coverage
  res_Reasons :: "string list"
  res_StartEvent :: Event
  res_EndEvent :: Event
  res_Lines :: nat
  res_Bad :: nat
  res_NodeFailures :: "string list"

text \<open>The variables of the loop.\<close>

record Drain =
  dr_Store :: Store
  dr_Seen :: "string \<Rightarrow> string"
  dr_Rotated :: "string list"
  dr_Start :: "Event option"
  dr_End :: "Event option"
  dr_Lines :: nat
  dr_Bad :: nat
  dr_NodeFailures :: "string list"
  dr_LastFailures :: nat

definition startDrain :: Drain where
  "startDrain = \<lparr>dr_Store = NewStore, dr_Seen = (\<lambda>_. []), dr_Rotated = [], dr_Start = None,
     dr_End = None, dr_Lines = 0, dr_Bad = 0, dr_NodeFailures = [], dr_LastFailures = 0\<rparr>"

definition markRotated :: "string \<Rightarrow> string list \<Rightarrow> string list" where
  "markRotated n ns = (if n \<in> set ns then ns else ns @ [n])"

definition readSource ::
  "(string \<Rightarrow> Event option) \<Rightarrow> string \<times> (read_error, string) result \<Rightarrow> Drain \<Rightarrow> Drain" where
  "readSource unmarshal src d = (case src of (name, r) \<Rightarrow> (case r of
     Inl err \<Rightarrow>
       d\<lparr>dr_LastFailures := dr_LastFailures d + 1,
         dr_Rotated := (if err = LogRotated then markRotated name (dr_Rotated d) else dr_Rotated d),
         dr_NodeFailures := dr_NodeFailures d @ [name @ '': '' @ read_error_text err]\<rparr>
   | Inr data \<Rightarrow>
       (let prev = dr_Seen d name;
            st = Parse unmarshal data in
        d\<lparr>dr_Rotated :=
            (if prev \<noteq> [] \<and> (length data < length prev \<or> take (length prev) data \<noteq> prev)
             then markRotated name (dr_Rotated d) else dr_Rotated d),
          dr_Seen := (dr_Seen d)(name := data),
          dr_Lines := dr_Lines d + Lines st,
          dr_Bad := dr_Bad d + Bad st,
          dr_Store := fst (Add (Events st) (dr_Store d))\<rparr>)))"

definition findMarkers :: "CollectRequest \<Rightarrow> Drain \<Rightarrow> Drain" where
  "findMarkers req d =
     (let look = (\<lambda>have nonce. case have of
            Some ev \<Rightarrow> Some ev
          | None \<Rightarrow> FindMarker (All (dr_Store d)) (cr_MarkerUsername req) nonce) in
      d\<lparr>dr_Start := look (dr_Start d) (cr_StartNonce req),
        dr_End := look (dr_End d) (cr_EndNonce req)\<rparr>)"

definition drainRound ::
  "(string \<Rightarrow> Event option) \<Rightarrow> CollectRequest \<Rightarrow> round \<Rightarrow> Drain \<Rightarrow> Drain" where
  "drainRound unmarshal req rd d =
     findMarkers req (fold (readSource unmarshal) (zip (cr_Sources req) (rd_Reads rd))
       (d\<lparr>dr_LastFailures := 0\<rparr>))"

definition drainDone :: "int \<Rightarrow> round \<Rightarrow> Drain \<Rightarrow> bool" where
  "drainDone deadline rd d \<longleftrightarrow>
     dr_Start d \<noteq> None \<and> dr_End d \<noteq> None \<or> rd_Now rd > deadline \<or> rd_Cancelled rd"

fun drainLoop ::
  "(string \<Rightarrow> Event option) \<Rightarrow> CollectRequest \<Rightarrow> int \<Rightarrow> round list \<Rightarrow> Drain \<Rightarrow> Drain option" where
  "drainLoop unmarshal req deadline [] d = None"
| "drainLoop unmarshal req deadline (rd # rds) d =
     (let d' = drainRound unmarshal req rd d in
      if drainDone deadline rd d' then Some d' else drainLoop unmarshal req deadline rds d')"

definition emptyResult :: "Store option \<Rightarrow> Coverage \<Rightarrow> string list \<Rightarrow> Result" where
  "emptyResult s cov reasons = \<lparr>res_Store = s, res_Window = emptyWindow, res_Coverage = cov,
     res_Reasons = reasons, res_StartEvent = emptyEvent, res_EndEvent = emptyEvent,
     res_Lines = 0, res_Bad = 0, res_NodeFailures = []\<rparr>"

definition windowCoverage :: "Drain \<Rightarrow> WindowResult \<Rightarrow> Coverage \<times> string list" where
  "windowCoverage d w =
     (if dr_Rotated d \<noteq> [] then
        (CovIncomplete, [ReasonLogRotated @ '': '' @ join (sort (dr_Rotated d)) '',''])
      else if w_Incomplete w \<noteq> [] then
        (CovIncomplete, [ReasonNonTerminalOps @ '': '' @ nat_text (length (w_Incomplete w))])
      else if dr_Bad d > 0 then
        (CovIncomplete, [ReasonUnparseableJSON @ '': '' @ nat_text (dr_Bad d) @ '' of '' @
           nat_text (dr_Lines d) @ '' lines''])
      else if dr_NodeFailures d \<noteq> [] then (CovIncomplete, [ReasonReaderFailure])
      else (CovComplete, []))"

definition finishDrain :: "CollectRequest \<Rightarrow> Drain \<Rightarrow> Result" where
  "finishDrain req d =
     (let res = (emptyResult (Some (dr_Store d)) CovIncomplete [])
                  \<lparr>res_Lines := dr_Lines d, res_Bad := dr_Bad d,
                   res_NodeFailures := dr_NodeFailures d\<rparr>;
          allFailed = (dr_LastFailures d = length (cr_Sources req)) in
      if allFailed \<and> dr_Rotated d = [] then
        res\<lparr>res_Coverage := CovAbsent,
            res_Reasons := ReasonReaderFailure #
              (case dr_NodeFailures d of [] \<Rightarrow> [] | f # _ \<Rightarrow> [''first: '' @ f]),
            res_NodeFailures :=
              (if length (dr_NodeFailures d) > length (cr_Sources req) then []
               else dr_NodeFailures d)\<rparr>
      else if allFailed \<and> dr_Start d = None then res\<lparr>res_Reasons := [ReasonLogRotated]\<rparr>
      else (case dr_Start d of
          None \<Rightarrow> res\<lparr>res_Reasons := [ReasonStartMarker]\<rparr>
        | Some start \<Rightarrow> (case dr_End d of
            None \<Rightarrow> res\<lparr>res_Reasons := [ReasonEndMarker]\<rparr>
          | Some end' \<Rightarrow>
              (let w = Window (dr_Store d) start end'; cov = windowCoverage d w in
               res\<lparr>res_StartEvent := start, res_EndEvent := end', res_Window := w,
                   res_Coverage := fst cov, res_Reasons := snd cov\<rparr>))))"

definition firstUnhealthy ::
  "(string \<Rightarrow> Probe \<Rightarrow> string \<times> bool) \<Rightarrow> string list \<Rightarrow> Health option" where
  "firstUnhealthy run nodes = find (\<lambda>h. \<not> HealthOK h) (map (VerifyNodeHealth run) nodes)"

definition Collect ::
  "(string \<Rightarrow> Event option) \<Rightarrow> (string \<Rightarrow> Probe \<Rightarrow> string \<times> bool) \<Rightarrow> int \<Rightarrow> CollectRequest \<Rightarrow>
   round list \<Rightarrow> Result option" where
  "Collect unmarshal run now req rounds =
     (if cr_Sources req = [] then Some (emptyResult None CovAbsent [ReasonNotProvisioned])
      else (case firstUnhealthy run (cr_HealthCheckNodes req) of
          Some h \<Rightarrow> Some (emptyResult None CovAbsent
                     [''audit health: '' @ hl_Node h @ '': '' @ hl_Detail h])
        | None \<Rightarrow>
            (let deadline = (if cr_Deadline req = 0 then now + 60 * 1000000000
                             else cr_Deadline req) in
             map_option (finishDrain req)
               (drainLoop unmarshal req deadline rounds startDrain))))"

section \<open>The harness view of a window\<close>

record AuditWindowInfo =
  aw_Result :: Result
  aw_JSONL :: string
  aw_Digest :: string
  aw_StartNonce :: string
  aw_EndNonce :: string

definition joinReasons :: "string list \<Rightarrow> string" where
  "joinReasons rs = fold (\<lambda>(i, r) out. (if i > 0 then out @ ''; '' else out) @ r)
     (List.enumerate 0 rs) []"

fun coverageOf :: "Coverage \<Rightarrow> SourceCoverage" where
  "coverageOf CovComplete = CoverageComplete"
| "coverageOf CovIncomplete = CoverageIncomplete"
| "coverageOf CovAbsent = CoverageAbsent"

definition EvaluationSummary :: "AuditWindowInfo option \<Rightarrow> AuditSummary option" where
  "EvaluationSummary info = map_option (\<lambda>a.
     \<lparr>as_Observed = True, as_Coverage = coverageOf (res_Coverage (aw_Result a)),
      as_Reason = joinReasons (res_Reasons (aw_Result a)), as_Path = ''audit.jsonl'',
      as_Digest = aw_Digest a, as_EventCount = length (w_Ops (res_Window (aw_Result a)))\<rparr>) info"

text \<open>
  Sealing a window: the redacted operations as lines of JSON and the digest of their text.
  The printer of one event and the hexadecimal SHA-256 are parameters.
\<close>

definition marshalJSONL :: "(Event \<Rightarrow> string) \<Rightarrow> Event list \<Rightarrow> string" where
  "marshalJSONL marshal events = concat (map (\<lambda>e. marshal e @ [CHR 0x0A]) events)"

definition closeWindow ::
  "(Event \<Rightarrow> string) \<Rightarrow> (string \<Rightarrow> string) \<Rightarrow> Result option \<Rightarrow> (Result \<times> string \<times> string) option" where
  "closeWindow marshal sha res = map_option (\<lambda>r.
     let data = marshalJSONL marshal (Redacted (w_Ops (res_Window r))) in (r, data, sha data)) res"

definition auditWindowInfo ::
  "(Result \<times> string \<times> string) option \<Rightarrow> string \<Rightarrow> string \<Rightarrow> AuditWindowInfo option" where
  "auditWindowInfo sealed startNonce endNonce = map_option (\<lambda>(r, data, digest).
     \<lparr>aw_Result = r, aw_JSONL = data, aw_Digest = digest, aw_StartNonce = startNonce,
      aw_EndNonce = endNonce\<rparr>) sealed"

section \<open>The loop\<close>

lemma drainLoop_Some:
  "drainLoop u req dl rds d = Some d' \<Longrightarrow>
     \<exists>n. 0 < n \<and> n \<le> length rds \<and> d' = fold (drainRound u req) (take n rds) d"
proof (induction rds arbitrary: d)
  case (Cons rd rds)
  show ?case
  proof (cases "drainDone dl rd (drainRound u req rd d)")
    case True
    with Cons.prems have "d' = fold (drainRound u req) (take 1 (rd # rds)) d"
      by (simp add: Let_def)
    then show ?thesis by (intro exI [of _ 1]) simp
  next
    case False
    with Cons.prems Cons.IH obtain n where "n \<le> length rds"
        "d' = fold (drainRound u req) (take n rds) (drainRound u req rd d)"
      by (force simp: Let_def)
    then show ?thesis by (intro exI [of _ "Suc n"]) simp
  qed
qed simp

lemma drainLoop_returns:
  "\<exists>rd\<in>set rds. rd_Now rd > dl \<or> rd_Cancelled rd \<Longrightarrow> \<exists>d'. drainLoop u req dl rds d = Some d'"
  by (induction rds arbitrary: d) (auto simp: Let_def drainDone_def)

section \<open>What a fault-free drain knows\<close>

text \<open>
  The invariant of the loop, relative to the rounds already executed: with no node failure
  recorded every read succeeded; with no rotation recorded every read is a prefix of what the
  loop last read from that node; the store is well formed and holds the markers found.
\<close>

definition drain_inv :: "CollectRequest \<Rightarrow> round list \<Rightarrow> Drain \<Rightarrow> bool" where
  "drain_inv req rds d \<longleftrightarrow>
     wf_store (dr_Store d) \<and>
     (dr_NodeFailures d = [] \<longrightarrow>
       (\<forall>rd\<in>set rds. \<forall>(n, r)\<in>set (zip (cr_Sources req) (rd_Reads rd)). \<not> isl r)) \<and>
     (dr_Rotated d = [] \<longrightarrow>
       (\<forall>rd\<in>set rds. \<forall>(n, r)\<in>set (zip (cr_Sources req) (rd_Reads rd)).
          \<not> isl r \<longrightarrow> prefix (projr r) (dr_Seen d n)))"

definition markers_inv :: "CollectRequest \<Rightarrow> Drain \<Rightarrow> bool" where
  "markers_inv req d \<longleftrightarrow>
     (\<forall>ev. dr_Start d = Some ev \<longrightarrow>
        ev \<in> stored (dr_Store d) \<and> isMarker (cr_MarkerUsername req) (cr_StartNonce req) ev) \<and>
     (\<forall>ev. dr_End d = Some ev \<longrightarrow>
        ev \<in> stored (dr_Store d) \<and> isMarker (cr_MarkerUsername req) (cr_EndNonce req) ev)"

lemma prefix_if_not_rotated:
  "\<not> (prev \<noteq> [] \<and> (length data < length prev \<or> take (length prev) data \<noteq> prev)) \<Longrightarrow> prefix prev data"
  by (metis Nil_prefix take_is_prefix)

lemma markRotated_Nil [simp]: "markRotated n ns \<noteq> []"
  by (auto simp: markRotated_def)

lemma readSource_fields:
  "dr_Start (readSource u src d) = dr_Start d"
  "dr_End (readSource u src d) = dr_End d"
  by (auto simp: readSource_def Let_def split: prod.splits sum.splits)

lemma readSource_store:
  assumes "wf_store (dr_Store d)"
  shows "wf_store (dr_Store (readSource u src d))"
    and "stored (dr_Store d) \<subseteq> stored (dr_Store (readSource u src d))"
  using assms audit_store.inv_add audit_store.ingest_mono [of "dr_Store d" "[es]" for es]
  by (auto simp: readSource_def Let_def split: prod.splits sum.splits)

lemma readSource_NodeFailures:
  "dr_NodeFailures (readSource u (n, r) d) = [] \<longleftrightarrow> dr_NodeFailures d = [] \<and> \<not> isl r"
  by (cases r) (auto simp: readSource_def Let_def)

lemma readSource_Rotated:
  assumes "dr_Rotated (readSource u (n, r) d) = []"
  shows "dr_Rotated d = []"
    and "\<not> isl r \<Longrightarrow> dr_Seen (readSource u (n, r) d) n = projr r"
    and "prefix (dr_Seen d m) (dr_Seen (readSource u (n, r) d) m)"
proof -
  have "dr_Rotated d = [] \<and> (\<not> isl r \<longrightarrow> dr_Seen (readSource u (n, r) d) n = projr r) \<and>
      prefix (dr_Seen d m) (dr_Seen (readSource u (n, r) d) m)"
    using assms
    by (cases r) (auto simp: readSource_def Let_def intro: prefix_if_not_rotated split: if_splits)
  then show "dr_Rotated d = []" "\<not> isl r \<Longrightarrow> dr_Seen (readSource u (n, r) d) n = projr r"
    "prefix (dr_Seen d m) (dr_Seen (readSource u (n, r) d) m)"
    by blast+
qed

lemma fold_readSource:
  assumes "wf_store (dr_Store d)"
  shows "wf_store (dr_Store (fold (readSource u) srcs d))"
    and "stored (dr_Store d) \<subseteq> stored (dr_Store (fold (readSource u) srcs d))"
    and "dr_Start (fold (readSource u) srcs d) = dr_Start d"
    and "dr_End (fold (readSource u) srcs d) = dr_End d"
    and "dr_NodeFailures (fold (readSource u) srcs d) = [] \<longleftrightarrow>
      dr_NodeFailures d = [] \<and> (\<forall>(n, r)\<in>set srcs. \<not> isl r)"
proof -
  have "wf_store (dr_Store (fold (readSource u) srcs d)) \<and>
    stored (dr_Store d) \<subseteq> stored (dr_Store (fold (readSource u) srcs d)) \<and>
    dr_Start (fold (readSource u) srcs d) = dr_Start d \<and>
    dr_End (fold (readSource u) srcs d) = dr_End d \<and>
    (dr_NodeFailures (fold (readSource u) srcs d) = [] \<longleftrightarrow>
      dr_NodeFailures d = [] \<and> (\<forall>(n, r)\<in>set srcs. \<not> isl r))"
    using assms
  proof (induction srcs arbitrary: d)
    case (Cons src srcs)
    obtain n r where src: "src = (n, r)" by (cases src)
    note rs = readSource_store [OF Cons.prems, of u src]
    show ?case
      using Cons.IH [OF rs(1)] rs(2) readSource_fields [of u src d]
        readSource_NodeFailures [of u n r d]
      by (auto simp: src)
  qed simp
  then show "wf_store (dr_Store (fold (readSource u) srcs d))"
    "stored (dr_Store d) \<subseteq> stored (dr_Store (fold (readSource u) srcs d))"
    "dr_Start (fold (readSource u) srcs d) = dr_Start d"
    "dr_End (fold (readSource u) srcs d) = dr_End d"
    "dr_NodeFailures (fold (readSource u) srcs d) = [] \<longleftrightarrow>
      dr_NodeFailures d = [] \<and> (\<forall>(n, r)\<in>set srcs. \<not> isl r)"
    by blast+
qed

lemma fold_readSource_Rotated:
  "dr_Rotated (fold (readSource u) srcs d) = [] \<Longrightarrow>
     dr_Rotated d = [] \<and>
     (\<forall>m. prefix (dr_Seen d m) (dr_Seen (fold (readSource u) srcs d) m)) \<and>
     (\<forall>(n, r)\<in>set srcs. \<not> isl r \<longrightarrow> prefix (projr r) (dr_Seen (fold (readSource u) srcs d) n))"
proof (induction srcs arbitrary: d)
  case (Cons src srcs)
  obtain n r where src: "src = (n, r)" by (cases src)
  from Cons.prems have fin: "dr_Rotated (fold (readSource u) srcs (readSource u src d)) = []"
    by simp
  note ih = Cons.IH [OF fin]
  then have rot: "dr_Rotated (readSource u (n, r) d) = []" by (simp add: src)
  note rs = readSource_Rotated [OF rot]
  have "prefix (dr_Seen d m) (dr_Seen (fold (readSource u) (src # srcs) d) m)" for m
    using ih rs(3) [of m] prefix_order.order_trans by (force simp: src)
  moreover have "\<not> isl r \<Longrightarrow> prefix (projr r) (dr_Seen (fold (readSource u) (src # srcs) d) n)"
    using ih rs(2) by (metis fold_simps(2) src)
  ultimately show ?case using rs(1) ih by (auto simp: src)
qed simp

lemma findMarkers_fields:
  "dr_Store (findMarkers req d) = dr_Store d" "dr_Seen (findMarkers req d) = dr_Seen d"
  "dr_Rotated (findMarkers req d) = dr_Rotated d"
  "dr_NodeFailures (findMarkers req d) = dr_NodeFailures d"
  "dr_LastFailures (findMarkers req d) = dr_LastFailures d"
  by (simp_all add: findMarkers_def Let_def)

lemma FindMarker_Some:
  "FindMarker es user nonce = Some ev \<Longrightarrow> ev \<in> set es \<and> isMarker user nonce ev"
  unfolding FindMarker_def by (rule find_SomeD)

lemma findMarkers_inv: "markers_inv req d \<Longrightarrow> markers_inv req (findMarkers req d)"
  by (auto simp: markers_inv_def findMarkers_def Let_def dest!: FindMarker_Some split: option.splits)

lemma drainRound_inv:
  assumes "drain_inv req rds d"
  shows "drain_inv req (rds @ [rd]) (drainRound u req rd d)"
proof -
  let ?srcs = "zip (cr_Sources req) (rd_Reads rd)" and ?d = "d\<lparr>dr_LastFailures := 0\<rparr>"
  let ?d' = "fold (readSource u) ?srcs ?d"
  have wf: "wf_store (dr_Store ?d)" using assms by (simp add: drain_inv_def)
  note f = fold_readSource [OF wf, of u ?srcs]
  have rot: "prefix (projr r) (dr_Seen ?d' n)"
    if "dr_Rotated ?d' = []" "rd' \<in> set (rds @ [rd])"
      "(n, r) \<in> set (zip (cr_Sources req) (rd_Reads rd'))" "\<not> isl r" for rd' n r
  proof -
    note fr = fold_readSource_Rotated [OF that(1)]
    show ?thesis
    proof (cases "rd' = rd")
      case True
      with fr that show ?thesis by blast
    next
      case False
      with that assms fr have "prefix (projr r) (dr_Seen d n)"
        unfolding drain_inv_def by fastforce
      moreover have "prefix (dr_Seen d n) (dr_Seen ?d' n)" using fr by simp
      ultimately show ?thesis by (rule prefix_order.order_trans)
    qed
  qed
  have ok: "\<not> isl r" if "dr_NodeFailures ?d' = []" "rd' \<in> set (rds @ [rd])"
      "(n, r) \<in> set (zip (cr_Sources req) (rd_Reads rd'))" for rd' n r
    using that f(5) assms unfolding drain_inv_def by fastforce
  show ?thesis
    unfolding drain_inv_def drainRound_def findMarkers_fields using f(1) rot ok by blast
qed

lemma drainRound_markers:
  assumes "wf_store (dr_Store d)" and "markers_inv req d"
  shows "markers_inv req (drainRound u req rd d)"
proof -
  let ?d = "d\<lparr>dr_LastFailures := 0\<rparr>"
  have wf: "wf_store (dr_Store ?d)" using assms(1) by simp
  note f = fold_readSource [OF wf, of u "zip (cr_Sources req) (rd_Reads rd)"]
  have "markers_inv req (fold (readSource u) (zip (cr_Sources req) (rd_Reads rd)) ?d)"
    using assms(2) f(2,3,4) by (auto simp: markers_inv_def)
  then show ?thesis by (simp add: drainRound_def findMarkers_inv)
qed

lemma fold_drainRound_inv:
  "drain_inv req done d \<Longrightarrow> markers_inv req d \<Longrightarrow>
     drain_inv req (done @ rds) (fold (drainRound u req) rds d) \<and>
     markers_inv req (fold (drainRound u req) rds d)"
proof (induction rds arbitrary: "done" d)
  case (Cons rd rds)
  have "wf_store (dr_Store d)" using Cons.prems(1) by (simp add: drain_inv_def)
  from Cons.IH [OF drainRound_inv [OF Cons.prems(1)] drainRound_markers [OF this Cons.prems(2)]]
  show ?case by simp
qed simp

lemma startDrain_inv: "drain_inv req [] startDrain" "markers_inv req startDrain"
  by (simp_all add: drain_inv_def markers_inv_def startDrain_def)

lemma finishDrain_complete:
  assumes "res_Coverage (finishDrain req d) = CovComplete"
  obtains start end' where "dr_Start d = Some start" "dr_End d = Some end'"
    "dr_Rotated d = []" "dr_NodeFailures d = []" "dr_Bad d = 0"
    "w_Incomplete (Window (dr_Store d) start end') = []"
    "res_StartEvent (finishDrain req d) = start" "res_EndEvent (finishDrain req d) = end'"
    "res_Window (finishDrain req d) = Window (dr_Store d) start end'"
    "res_Store (finishDrain req d) = Some (dr_Store d)"
proof -
  have some: "\<not> (dr_LastFailures d = length (cr_Sources req) \<and> dr_Rotated d = [])"
    using assms by (auto simp: finishDrain_def Let_def)
  have "dr_Start d \<noteq> None"
  proof
    assume "dr_Start d = None"
    with assms some show False
      by (auto simp: finishDrain_def Let_def emptyResult_def split: if_splits)
  qed
  then obtain start where start: "dr_Start d = Some start" by blast
  have "dr_End d \<noteq> None"
  proof
    assume "dr_End d = None"
    with assms some start show False
      by (auto simp: finishDrain_def Let_def emptyResult_def)
  qed
  then obtain end' where end': "dr_End d = Some end'" by blast
  let ?w = "Window (dr_Store d) start end'"
  have res: "finishDrain req d = (emptyResult (Some (dr_Store d)) CovIncomplete [])
      \<lparr>res_Lines := dr_Lines d, res_Bad := dr_Bad d, res_NodeFailures := dr_NodeFailures d,
       res_StartEvent := start, res_EndEvent := end', res_Window := ?w,
       res_Coverage := fst (windowCoverage d ?w), res_Reasons := snd (windowCoverage d ?w)\<rparr>"
    using some start end' by (auto simp: finishDrain_def Let_def)
  have "windowCoverage d ?w = (CovComplete, snd (windowCoverage d ?w))"
    using assms unfolding res by (simp add: prod_eq_iff)
  then have "dr_Rotated d = [] \<and> w_Incomplete ?w = [] \<and> dr_Bad d = 0 \<and> dr_NodeFailures d = []"
    by (auto simp: windowCoverage_def split: if_splits)
  with start end' that show thesis by (auto simp: res emptyResult_def)
qed

lemma firstUnhealthy_None:
  "firstUnhealthy run nodes = None \<longleftrightarrow> (\<forall>n\<in>set nodes. HealthOK (VerifyNodeHealth run n))"
  by (auto simp: firstUnhealthy_def find_None_iff)

section \<open>Properties\<close>

lemma Collect_complete:
  assumes "Collect u run now req rounds = Some r" and "res_Coverage r = CovComplete"
  shows "\<exists>n store seen. 0 < n \<and> n \<le> length rounds \<and> res_Store r = Some store \<and>
    list_all (\<lambda>node. HealthOK (VerifyNodeHealth run node)) (cr_HealthCheckNodes req) \<and>
    res_StartEvent r \<in> stored store \<and>
    isMarker (cr_MarkerUsername req) (cr_StartNonce req) (res_StartEvent r) \<and>
    res_EndEvent r \<in> stored store \<and>
    isMarker (cr_MarkerUsername req) (cr_EndNonce req) (res_EndEvent r) \<and>
    res_Window r = Window store (res_StartEvent r) (res_EndEvent r) \<and>
    w_Incomplete (res_Window r) = [] \<and> res_NodeFailures r = [] \<and> res_Bad r = 0 \<and>
    list_all (\<lambda>rd. list_all (\<lambda>(name, rr). \<not> isl rr \<and> prefix (projr rr) (seen name))
      (zip (cr_Sources req) (rd_Reads rd))) (take n rounds)"
proof -
  have nonempty: "cr_Sources req \<noteq> []" and healthy: "firstUnhealthy run (cr_HealthCheckNodes req) = None"
    using assms by (auto simp: Collect_def emptyResult_def split: if_splits option.splits)
  then obtain dl d where d: "drainLoop u req dl rounds startDrain = Some d" "r = finishDrain req d"
    using assms(1) by (auto simp: Collect_def Let_def)
  obtain n where n: "0 < n" "n \<le> length rounds" "d = fold (drainRound u req) (take n rounds) startDrain"
    using drainLoop_Some [OF d(1)] by blast
  have inv: "drain_inv req (take n rounds) d" "markers_inv req d"
    using fold_drainRound_inv [OF startDrain_inv, where rds = "take n rounds" and u = u] n(3) by simp_all
  obtain start end' where c: "dr_Start d = Some start" "dr_End d = Some end'"
    "dr_Rotated d = []" "dr_NodeFailures d = []" "dr_Bad d = 0"
    "w_Incomplete (Window (dr_Store d) start end') = []"
    "res_StartEvent r = start" "res_EndEvent r = end'"
    "res_Window r = Window (dr_Store d) start end'" "res_Store r = Some (dr_Store d)"
    using finishDrain_complete assms(2) d(2) by blast
  have "res_NodeFailures r = []" "res_Bad r = 0"
    using c(4,5) d(2) assms(2)
    by (auto simp: finishDrain_def Let_def emptyResult_def split: if_splits option.splits)
  moreover have "list_all (\<lambda>rd. list_all (\<lambda>(name, rr). \<not> isl rr \<and> prefix (projr rr) (dr_Seen d name))
      (zip (cr_Sources req) (rd_Reads rd))) (take n rounds)"
    using inv(1) c(3,4) unfolding drain_inv_def list_all_iff by blast
  ultimately show ?thesis
    using n(1,2) c healthy inv(2) firstUnhealthy_None [of run]
    by (intro exI [of _ n] exI [of _ "dr_Store d"] exI [of _ "dr_Seen d"])
      (simp add: markers_inv_def list_all_iff)
qed

text \<open>
  C9: Complete coverage is earned. When a collection reports it, every probed node is healthy,
  both markers were observed as terminal events of the marker identity and are stored, the
  window between them has no incomplete operation, no line failed to decode, and in all the
  rounds that were executed every read of every node succeeded and is a prefix of the last
  content read from that node.
\<close>

theorem complete_coverage_is_earned:
  assumes "Collect u run now req rounds = Some r" and "res_Coverage r = CovComplete"
  shows "\<exists>n store seen. 0 < n \<and> n \<le> length rounds \<and> res_Store r = Some store \<and>
    list_all (\<lambda>node. HealthOK (VerifyNodeHealth run node)) (cr_HealthCheckNodes req) \<and>
    res_StartEvent r \<in> stored store \<and>
    isMarker (cr_MarkerUsername req) (cr_StartNonce req) (res_StartEvent r) \<and>
    res_EndEvent r \<in> stored store \<and>
    isMarker (cr_MarkerUsername req) (cr_EndNonce req) (res_EndEvent r) \<and>
    res_Window r = Window store (res_StartEvent r) (res_EndEvent r) \<and>
    w_Incomplete (res_Window r) = [] \<and> res_NodeFailures r = [] \<and> res_Bad r = 0 \<and>
    list_all (\<lambda>rd. list_all (\<lambda>(name, rr). \<not> isl rr \<and> prefix (projr rr) (seen name))
      (zip (cr_Sources req) (rd_Reads rd))) (take n rounds)"
  by (rule Collect_complete [OF assms])

text \<open>
  C16: The drain loop ends. As soon as one round sees the clock past the deadline or the context
  cancelled, the collection has returned a result, whatever the nodes delivered.
\<close>

theorem collection_terminates:
  assumes "rd \<in> set rounds" and "rd_Cancelled rd \<or>
    rd_Now rd > (if cr_Deadline req = 0 then now + 60 * 1000000000 else cr_Deadline req)"
  shows "\<exists>r. Collect u run now req rounds = Some r"
proof -
  let ?dl = "if cr_Deadline req = 0 then now + 60 * 1000000000 else cr_Deadline req"
  obtain d where "drainLoop u req ?dl rounds startDrain = Some d"
    using drainLoop_returns [of rounds ?dl u req startDrain] assms by blast
  then show ?thesis by (auto simp: Collect_def Let_def split: option.splits)
qed

section \<open>Witnesses\<close>

text \<open>
  A line decoder for three lines, a healthy node, and two rounds: the end marker arrives with
  the second.
\<close>

definition demo_unmarshal :: "string \<Rightarrow> Event option" where
  "demo_unmarshal line =
     (if line = ''s'' then Some (demo_start\<lparr>RequestURI := ''/m-s''\<rparr>)
      else if line = ''p'' then Some (demo_event ''a'' ''ResponseComplete'' 20)
      else if line = ''e'' then Some (demo_end\<lparr>RequestURI := ''/m-e''\<rparr>)
      else None)"

definition demo_run :: "string \<Rightarrow> Probe \<Rightarrow> string \<times> bool" where
  "demo_run node probe = (''yes'', False)"

definition demo_req :: CollectRequest where
  "demo_req = \<lparr>cr_Sources = [''node''], cr_StartNonce = ''m-s'', cr_EndNonce = ''m-e'',
     cr_MarkerUsername = [], cr_HealthCheckNodes = [''node''], cr_Deadline = 100\<rparr>"

definition demo_rounds :: "round list" where
  "demo_rounds =
     [\<lparr>rd_Reads = [Inr (''s'' @ [CHR 0x0A])], rd_Now = 40, rd_Cancelled = False\<rparr>,
      \<lparr>rd_Reads = [Inr (''s'' @ [CHR 0x0A] @ ''p'' @ [CHR 0x0A] @ ''e'' @ [CHR 0x0A])],
       rd_Now = 120, rd_Cancelled = False\<rparr>]"

definition demo_result :: Result where
  "demo_result = the (Collect demo_unmarshal demo_run 0 demo_req demo_rounds)"

lemma demo_collect: "Collect demo_unmarshal demo_run 0 demo_req demo_rounds = Some demo_result \<and>
   res_Coverage demo_result = CovComplete \<and> length (w_Ops (res_Window demo_result)) = 3"
  by code_simp

theorem complete_coverage_is_earned_witness:
  "isMarker [] ''m-s'' (res_StartEvent demo_result) \<and> w_Incomplete (res_Window demo_result) = []"
proof -
  have "Collect demo_unmarshal demo_run 0 demo_req demo_rounds = Some demo_result"
    "res_Coverage demo_result = CovComplete"
    using demo_collect by simp_all
  from complete_coverage_is_earned [OF this] show ?thesis by (auto simp: demo_req_def)
qed

theorem collection_terminates_witness:
  "\<exists>r. Collect demo_unmarshal demo_run 0 demo_req demo_rounds = Some r"
  by (rule collection_terminates [of "demo_rounds ! 1"]) (simp_all add: demo_rounds_def demo_req_def)

end
