(* ===== verification/Snapshot_State.thy ===== *)
theory Snapshot_State
  imports Go_Json
begin

text \<open>
  The state-snapshot layer (\<^verbatim>\<open>pkg/snapshot\<close>): targets, normalised objects, checkpoint sets, their
  digest and the preservation diff.

  A decoded object is the field list of a Go map, with one entry per key; the normalised JSON
  bytes of an object are its canonical tree. What \<^verbatim>\<open>kubectl\<close> lists is a parameter. So are the two
  uses of SHA-256: the digest of a Secret payload, a function of its entries in key order,
  and the digest of hashed data, a function of the sequence of what is written to it.
\<close>

section \<open>Data\<close>

record Target =
  tg_Namespace :: string
  tg_Resource :: string
  tg_Kind :: string

record ObjKey =
  k_Kind :: string
  k_Namespace :: string
  k_Name :: string

definition KeyString :: "ObjKey \<Rightarrow> string" where
  "KeyString k = k_Kind k @ ''/'' @ k_Namespace k @ ''/'' @ k_Name k"

record Set =
  set_Name :: string
  set_Objects :: "(ObjKey \<times> json) list"
  set_Unreadable :: "string list"

record Violation =
  v_Source :: string
  v_Object :: string
  v_Kind :: string
  v_From :: string
  v_To :: string

section \<open>Normalisation\<close>

definition volatileTop :: "string list" where
  "volatileTop = [''resourceVersion'', ''uid'', ''creationTimestamp'', ''deletionTimestamp'',
     ''deletionGracePeriodSeconds'', ''managedFields'', ''selfLink'', ''generation'']"

definition volatileAnnotations :: "string list" where
  "volatileAnnotations = [''control-plane.alpha.kubernetes.io/leader'',
     ''kubectl.kubernetes.io/last-applied-configuration'', ''leader.election.kubernetes.io/holder'']"

definition isVolatileKey :: "string \<Rightarrow> bool" where
  "isVolatileKey k \<longleftrightarrow> k \<in> set [''lastTransitionTime'', ''lastProbeTime'', ''lastUpdateTime'',
     ''startTime'', ''finishTime'', ''transitionTime'', ''lastScheduleTime'', ''lastSyncTime'',
     ''initializationTime'', ''lastTimestamp'', ''firstTimestamp'', ''eventTime'']"

definition looksLikeTimestamp :: "string \<Rightarrow> bool" where
  "looksLikeTimestamp v \<longleftrightarrow> 20 \<le> length v \<and> str_contains v ''T'' \<and>
     (has_suffix v ''Z'' \<or> 2 \<le> count_list v (CHR '':''))"

definition dropsString :: "string \<Rightarrow> string \<Rightarrow> bool" where
  "dropsString k val \<longleftrightarrow> isVolatileKey k \<and> looksLikeTimestamp val \<or>
     k = ''resourceVersion'' \<or> k = ''controllerRevisionHash''"

text \<open>
  \<^verbatim>\<open>stripVolatile\<close> on a map: a string field may be dropped, a map is stripped in turn, and so is
  every map that is an element of a list field.
\<close>

fun stripVolatile :: "json \<Rightarrow> json" where
  "stripVolatile (JObj m) =
     JObj (map (\<lambda>(k, v). (k, case v of
         JObj _ \<Rightarrow> stripVolatile v
       | JArr es \<Rightarrow> JArr (map (\<lambda>item. case item of JObj _ \<Rightarrow> stripVolatile item | _ \<Rightarrow> item) es)
       | _ \<Rightarrow> v))
       (filter (\<lambda>(k, v). case v of JStr val \<Rightarrow> \<not> dropsString k val | _ \<Rightarrow> True) m))"
| "stripVolatile j = j"

definition redactField ::
  "((string \<times> json) list \<Rightarrow> string) \<Rightarrow> string \<Rightarrow> (string \<times> json) list \<Rightarrow> (string \<times> json) list" where
  "redactField digest field obj = (case jget obj field of
     Some (JObj val) \<Rightarrow> jset field (JObj [(''evidra:digest'', JStr (digest (canon_fields val)))]) obj
   | _ \<Rightarrow> obj)"

definition secretRedact ::
  "((string \<times> json) list \<Rightarrow> string) \<Rightarrow> string \<Rightarrow> (string \<times> json) list \<Rightarrow> (string \<times> json) list" where
  "secretRedact digest kind obj =
     (if \<not> equal_fold kind ''Secret'' then obj
      else redactField digest ''stringData'' (redactField digest ''data'' obj))"

definition metaOf :: "(string \<times> json) list \<Rightarrow> (string \<times> json) list" where
  "metaOf obj = (case jget obj ''metadata'' of Some (JObj m) \<Rightarrow> m | _ \<Rightarrow> [])"

definition cleanMeta :: "(string \<times> json) list \<Rightarrow> (string \<times> json) list" where
  "cleanMeta m =
     (let meta = fold jdel volatileTop m in
      case jget meta ''annotations'' of
        Some (JObj anns) \<Rightarrow>
          (let anns' = fold jdel volatileAnnotations anns in
           if anns' = [] then jdel ''annotations'' meta else jset ''annotations'' (JObj anns') meta)
      | _ \<Rightarrow> meta)"

definition stripStatus :: "(string \<times> json) list \<Rightarrow> (string \<times> json) list" where
  "stripStatus obj = (case jget obj ''status'' of
     Some (JObj s) \<Rightarrow> jset ''status'' (stripVolatile (JObj s)) obj | _ \<Rightarrow> obj)"

definition NormalizeObject ::
  "((string \<times> json) list \<Rightarrow> string) \<Rightarrow> (string \<times> json) list \<Rightarrow> string \<Rightarrow> string \<Rightarrow> ObjKey \<times> json" where
  "NormalizeObject digest obj fallbackKind fallbackNS =
     (let meta = metaOf obj;
          kind0 = as_string (jget obj ''kind'');
          kind = (if kind0 = [] then fallbackKind else kind0);
          name = as_string (jget meta ''name'');
          ns0 = as_string (jget meta ''namespace'');
          ns = (if ns0 = [] then fallbackNS else ns0);
          obj' = jset ''metadata'' (JObj (cleanMeta meta)) (secretRedact digest kind (stripStatus obj))
      in (\<lparr>k_Kind = kind, k_Namespace = ns, k_Name = name\<rparr>, jcanon (JObj obj')))"

section \<open>Checkpoint sets\<close>

definition setObject :: "ObjKey \<Rightarrow> json \<Rightarrow> (ObjKey \<times> json) list \<Rightarrow> (ObjKey \<times> json) list" where
  "setObject k v objs = filter (\<lambda>(k', _). k' \<noteq> k) objs @ [(k, v)]"

definition addItem ::
  "((string \<times> json) list \<Rightarrow> string) \<Rightarrow> Target \<Rightarrow> json \<Rightarrow> Set \<Rightarrow> Set" where
  "addItem digest t item s = (case item of
     JObj obj \<Rightarrow> (case NormalizeObject digest obj (tg_Kind t) (tg_Namespace t) of
         (key, data) \<Rightarrow> s\<lparr>set_Objects := setObject key data (set_Objects s)\<rparr>)
   | _ \<Rightarrow> s)"

text \<open>Decoding a list document into Go maps is \<open>jcanon\<close>.\<close>

definition addTarget ::
  "((string \<times> json) list \<Rightarrow> string) \<Rightarrow> (Target \<Rightarrow> (string, json) result) \<Rightarrow> Target \<Rightarrow> Set \<Rightarrow> Set" where
  "addTarget digest lister t s = (case lister t of
     Inl err \<Rightarrow> s\<lparr>set_Unreadable := set_Unreadable s @
                    [tg_Namespace t @ ''/'' @ tg_Resource t @ '': '' @ err]\<rparr>
   | Inr doc \<Rightarrow> (case jcanon doc of
         JObj kvs \<Rightarrow> (case jget kvs ''items'' of
             Some (JArr items) \<Rightarrow> fold (addItem digest t) items s
           | _ \<Rightarrow> s)
       | _ \<Rightarrow> s))"

definition NewSet ::
  "((string \<times> json) list \<Rightarrow> string) \<Rightarrow> string \<Rightarrow> Target list \<Rightarrow> (Target \<Rightarrow> (string, json) result) \<Rightarrow> Set" where
  "NewSet digest name targets lister =
     fold (addTarget digest lister) targets
       \<lparr>set_Name = name, set_Objects = [], set_Unreadable = []\<rparr>"

definition object_at :: "Set \<Rightarrow> ObjKey \<Rightarrow> json option" where
  "object_at s k = map_of (set_Objects s) k"

text \<open>The digest of a set hashes its keys and objects in the order of the key strings.\<close>

definition Digest :: "((string \<times> json) list \<Rightarrow> string) \<Rightarrow> Set \<Rightarrow> string" where
  "Digest sha s = sha (map (\<lambda>(k, v). (KeyString k, v)) (sort_key (\<lambda>(k, v). KeyString k) (set_Objects s)))"

definition Empty :: "Set \<Rightarrow> bool" where
  "Empty s \<longleftrightarrow> set_Objects s = []"

section \<open>The preservation diff\<close>

definition trunc :: "string \<Rightarrow> string" where
  "trunc d = (if length d > 12 then take 12 d else if d = [] then ''-'' else d)"

definition Violation_String :: "Violation \<Rightarrow> string" where
  "Violation_String v = v_Kind v @ '' '' @ v_Object v @ '' ('' @ trunc (v_From v) @ '' -> '' @
     trunc (v_To v) @ '')''"

definition comparable :: "json option \<Rightarrow> json option" where
  "comparable data = (case data of
     Some (JObj kvs) \<Rightarrow> Some (jcanon (JObj (jdel ''status'' kvs)))
   | d \<Rightarrow> d)"

definition diffKeys :: "Set \<Rightarrow> Set \<Rightarrow> ObjKey list" where
  "diffKeys before after = sort_key KeyString
     (remdups (map fst (set_Objects before) @ map fst (set_Objects after)))"

definition diffOne ::
  "(json \<Rightarrow> string) \<Rightarrow> Set \<Rightarrow> Set \<Rightarrow> (ObjKey \<Rightarrow> bool) option \<Rightarrow> ObjKey \<Rightarrow>
   Violation list \<times> nat \<Rightarrow> Violation list \<times> nat" where
  "diffOne digestOf before after allowed k acc = (case acc of (violations, allowedChanges) \<Rightarrow>
     (let b = comparable (object_at before k); a = comparable (object_at after k) in
      if b \<noteq> None \<and> a \<noteq> None \<and> b = a then (violations, allowedChanges)
      else if (case allowed of None \<Rightarrow> False | Some ok \<Rightarrow> ok k) then (violations, allowedChanges + 1)
      else (violations @
        [\<lparr>v_Source = ''snapshot'', v_Object = KeyString k,
          v_Kind = (if b = None then ''created'' else if a = None then ''deleted'' else ''modified''),
          v_From = (case b of None \<Rightarrow> [] | Some j \<Rightarrow> digestOf j),
          v_To = (case a of None \<Rightarrow> [] | Some j \<Rightarrow> digestOf j)\<rparr>], allowedChanges)))"

definition Diff ::
  "(json \<Rightarrow> string) \<Rightarrow> Set \<Rightarrow> Set \<Rightarrow> (ObjKey \<Rightarrow> bool) option \<Rightarrow> Violation list \<times> nat" where
  "Diff digestOf before after allowed =
     fold (diffOne digestOf before after allowed) (diffKeys before after) ([], 0)"

section \<open>Facts on normalisation\<close>

lemma fold_jdel: "fold jdel ks m = filter (\<lambda>kv. fst kv \<notin> set ks) m"
  by (induction ks arbitrary: m) (auto simp: jdel_def intro: filter_cong)

lemma fold_jdel_jset: "f \<in> set ks \<Longrightarrow> fold jdel ks (jset f v m) = fold jdel ks m"
  by (auto simp: fold_jdel jset_def jdel_def intro: filter_cong)

lemma cleanMeta_volatile: "f \<in> set volatileTop \<Longrightarrow> cleanMeta (jset f v m) = cleanMeta m"
  by (simp add: cleanMeta_def fold_jdel_jset)

lemma metaOf_jset [simp]: "metaOf (jset ''metadata'' (JObj m) obj) = m"
  by (simp add: metaOf_def jget_jset)

lemma jget_redactField:
  "jget (redactField dg field obj) k =
     (if k = field then
        (case jget obj field of
           Some (JObj val) \<Rightarrow> Some (JObj [(''evidra:digest'', JStr (dg (canon_fields val)))])
         | v \<Rightarrow> v)
      else jget obj k)"
  by (auto simp: redactField_def jget_jset split: option.splits json.splits)

lemma jget_secretRedact:
  "jget (secretRedact dg kind obj) k =
     (if equal_fold kind ''Secret'' \<and> (k = ''data'' \<or> k = ''stringData'') then
        (case jget obj k of
           Some (JObj val) \<Rightarrow> Some (JObj [(''evidra:digest'', JStr (dg (canon_fields val)))])
         | v \<Rightarrow> v)
      else jget obj k)"
  by (simp add: secretRedact_def jget_redactField)

lemma jget_stripStatus:
  "jget (stripStatus obj) k =
     (if k = ''status'' then
        (case jget obj k of Some (JObj s) \<Rightarrow> Some (stripVolatile (JObj s)) | v \<Rightarrow> v)
      else jget obj k)"
  by (auto simp: stripStatus_def jget_jset split: option.splits json.splits)

text \<open>The kind a normalised object is filed under.\<close>

definition effectiveKind :: "(string \<times> json) list \<Rightarrow> string \<Rightarrow> string" where
  "effectiveKind obj fallback =
     (let k = as_string (jget obj ''kind'') in if k = [] then fallback else k)"

text \<open>
  A normalised object is determined by its key fields, its cleaned metadata and the lookups of
  the redacted rest.
\<close>

lemma NormalizeObject_cong:
  assumes "jget obj ''kind'' = jget obj' ''kind''"
    and "jget (metaOf obj) ''name'' = jget (metaOf obj') ''name''"
    and "jget (metaOf obj) ''namespace'' = jget (metaOf obj') ''namespace''"
    and "cleanMeta (metaOf obj) = cleanMeta (metaOf obj')"
    and "\<And>k. k \<noteq> ''metadata'' \<Longrightarrow>
      jget (secretRedact dg (effectiveKind obj K) (stripStatus obj)) k =
      jget (secretRedact dg (effectiveKind obj K) (stripStatus obj')) k"
  shows "NormalizeObject dg obj K N = NormalizeObject dg obj' K N"
proof -
  have kind: "effectiveKind obj' K = effectiveKind obj K"
    by (simp add: effectiveKind_def assms(1))
  have norm: "NormalizeObject dg ob K N =
      (\<lparr>k_Kind = effectiveKind ob K,
        k_Namespace = (let ns = as_string (jget (metaOf ob) ''namespace'') in if ns = [] then N else ns),
        k_Name = as_string (jget (metaOf ob) ''name'')\<rparr>,
       jcanon (JObj (jset ''metadata'' (JObj (cleanMeta (metaOf ob)))
         (secretRedact dg (effectiveKind ob K) (stripStatus ob)))))" for ob
    by (simp add: NormalizeObject_def effectiveKind_def Let_def)
  have "jcanon (JObj (jset ''metadata'' (JObj (cleanMeta (metaOf obj)))
         (secretRedact dg (effectiveKind obj K) (stripStatus obj)))) =
      jcanon (JObj (jset ''metadata'' (JObj (cleanMeta (metaOf obj')))
         (secretRedact dg (effectiveKind obj K) (stripStatus obj'))))"
    unfolding jcanon_JObj_eq_iff using assms(4,5) by (simp add: jget_jset)
  then show ?thesis unfolding norm kind by (simp add: assms(2,3))
qed

section \<open>Facts on the diff\<close>

definition changed :: "Set \<Rightarrow> Set \<Rightarrow> ObjKey \<Rightarrow> bool" where
  "changed before after k \<longleftrightarrow> comparable (object_at before k) \<noteq> comparable (object_at after k)"

lemma comparable_None_iff [simp]: "comparable d = None \<longleftrightarrow> d = None"
  by (auto simp: comparable_def split: option.splits json.splits)

lemma comparable_None [simp]: "comparable None = None"
  by simp

lemma object_at_None_iff: "object_at s k = None \<longleftrightarrow> k \<notin> fst ` set (set_Objects s)"
  by (simp add: object_at_def map_of_eq_None_iff)

lemma changed_in_keys: "changed b a k \<Longrightarrow> k \<in> set (diffKeys b a)"
  using object_at_None_iff [of b k] object_at_None_iff [of a k]
  by (auto simp: changed_def diffKeys_def)

lemma key_present: "k \<in> set (diffKeys b a) \<Longrightarrow> object_at b k \<noteq> None \<or> object_at a k \<noteq> None"
  unfolding object_at_None_iff by (auto simp: diffKeys_def)

definition permitted :: "(ObjKey \<Rightarrow> bool) option \<Rightarrow> ObjKey \<Rightarrow> bool" where
  "permitted allowed k = (case allowed of None \<Rightarrow> False | Some ok \<Rightarrow> ok k)"

definition violationOf :: "(json \<Rightarrow> string) \<Rightarrow> Set \<Rightarrow> Set \<Rightarrow> ObjKey \<Rightarrow> Violation" where
  "violationOf dg before after k =
     \<lparr>v_Source = ''snapshot'', v_Object = KeyString k,
      v_Kind = (if object_at before k = None then ''created''
                else if object_at after k = None then ''deleted'' else ''modified''),
      v_From = (case comparable (object_at before k) of None \<Rightarrow> [] | Some j \<Rightarrow> dg j),
      v_To = (case comparable (object_at after k) of None \<Rightarrow> [] | Some j \<Rightarrow> dg j)\<rparr>"

lemma fold_diffOne:
  assumes "\<And>k. k \<in> set ks \<Longrightarrow> object_at b k \<noteq> None \<or> object_at a k \<noteq> None"
  shows "fold (diffOne dg b a allowed) ks (vs, n) =
    (vs @ map (violationOf dg b a) (filter (\<lambda>k. changed b a k \<and> \<not> permitted allowed k) ks),
     n + length (filter (\<lambda>k. changed b a k \<and> permitted allowed k) ks))"
  using assms
proof (induction ks arbitrary: vs n)
  case (Cons k ks)
  have step: "diffOne dg b a allowed k (vs, n) =
      (if \<not> changed b a k then (vs, n)
       else if permitted allowed k then (vs, n + 1) else (vs @ [violationOf dg b a k], n))"
    using Cons.prems [of k]
    by (auto simp: diffOne_def changed_def permitted_def violationOf_def Let_def)
  show ?case
    using Cons.IH Cons.prems by (simp add: step)
qed simp

lemma Diff_eq:
  "Diff dg b a allowed =
    (map (violationOf dg b a)
       (filter (\<lambda>k. changed b a k \<and> \<not> permitted allowed k) (diffKeys b a)),
     length (filter (\<lambda>k. changed b a k \<and> permitted allowed k) (diffKeys b a)))"
  using fold_diffOne [of "diffKeys b a" b a dg allowed "[]" 0] key_present
  by (simp add: Diff_def)

lemma distinct_diffKeys: "distinct (diffKeys b a)"
  by (simp add: diffKeys_def)

lemma setObject_get: "map_of (setObject k v objs) k' = (if k' = k then Some v else map_of objs k')"
proof -
  have "map_of (filter (\<lambda>(k', _). k' \<noteq> k) objs) k' = (if k' = k then None else map_of objs k')"
    by (induction objs) auto
  then show ?thesis by (simp add: setObject_def map_add_def split: option.splits)
qed

section \<open>Properties\<close>

text \<open>
  Normalised snapshots are stable under what the API server churns: changing or adding any
  volatile metadata field of an object changes neither its key nor its normalised bytes.
\<close>

theorem normalize_ignores_volatile_metadata:
  assumes "f \<in> set volatileTop"
  shows "NormalizeObject dg (jset ''metadata'' (JObj (jset f v m)) obj) K N =
    NormalizeObject dg (jset ''metadata'' (JObj m) obj) K N"
proof (rule NormalizeObject_cong)
  have "f \<noteq> ''name''" "f \<noteq> ''namespace''" using assms by (auto simp: volatileTop_def)
  then show "jget (metaOf (jset ''metadata'' (JObj (jset f v m)) obj)) ''name'' =
      jget (metaOf (jset ''metadata'' (JObj m) obj)) ''name''"
    "jget (metaOf (jset ''metadata'' (JObj (jset f v m)) obj)) ''namespace'' =
      jget (metaOf (jset ''metadata'' (JObj m) obj)) ''namespace''"
    by (simp_all add: jget_jset)
qed (use assms in \<open>auto simp: cleanMeta_volatile jget_jset jget_secretRedact jget_stripStatus\<close>)

text \<open>
  A Secret's payload reaches the evidence only through its digest: two Secrets that differ
  in a payload field alone have the same normalised form whenever the digests agree.
\<close>

theorem secret_payload_only_by_digest:
  assumes "equal_fold (effectiveKind obj K) ''Secret''" and "field = ''data'' \<or> field = ''stringData''"
    and "dg (canon_fields a) = dg (canon_fields b)"
  shows "NormalizeObject dg (jset field (JObj a) obj) K N =
    NormalizeObject dg (jset field (JObj b) obj) K N"
proof (rule NormalizeObject_cong)
  have sec: "equal_fold (effectiveKind (jset field (JObj a) obj) K) ''Secret''"
    using assms(1,2) by (auto simp: effectiveKind_def jget_jset)
  show "jget (secretRedact dg (effectiveKind (jset field (JObj a) obj) K)
        (stripStatus (jset field (JObj a) obj))) k =
      jget (secretRedact dg (effectiveKind (jset field (JObj a) obj) K)
        (stripStatus (jset field (JObj b) obj))) k" for k
    using assms(2,3) sec by (auto simp: jget_secretRedact jget_stripStatus jget_jset)
qed (use assms(2) in \<open>auto simp: jget_jset metaOf_def\<close>)

text \<open>
  C15: The preservation diff is exact. It reports one violation for every object whose
  comparable state differs between the checkpoints and which the grants do not allow to change,
  no other violation, in the order of the keys, and it counts the allowed changes.
\<close>

theorem diff_reports_exactly_the_changes:
  "(v \<in> set (fst (Diff dg before after allowed)) \<longleftrightarrow>
     (\<exists>k. changed before after k \<and> \<not> permitted allowed k \<and> v = violationOf dg before after k)) \<and>
   sorted (map v_Object (fst (Diff dg before after allowed))) \<and>
   snd (Diff dg before after allowed) = card {k. changed before after k \<and> permitted allowed k}"
proof -
  let ?keys = "diffKeys before after" and ?ch = "changed before after" and ?ok = "permitted allowed"
  have "{k. ?ch k \<and> ?ok k} = set (filter (\<lambda>k. ?ch k \<and> ?ok k) ?keys)"
    using changed_in_keys by auto
  then have "snd (Diff dg before after allowed) = card {k. ?ch k \<and> ?ok k}"
    using distinct_card [of "filter (\<lambda>k. ?ch k \<and> ?ok k) ?keys"]
    by (simp add: Diff_eq distinct_diffKeys)
  moreover have "sorted (map v_Object (fst (Diff dg before after allowed)))"
  proof -
    have "sorted (map KeyString (filter (\<lambda>k. ?ch k \<and> \<not> ?ok k) ?keys))"
      unfolding diffKeys_def by (rule sorted_filter) simp
    then show ?thesis by (simp add: Diff_eq violationOf_def comp_def)
  qed
  ultimately show ?thesis
    using changed_in_keys by (auto simp: Diff_eq)
qed

text \<open>
  Controller output is not persistent state: replacing the status of an object, and nothing
  else, is never reported, and neither is a checkpoint compared with itself.
\<close>

theorem status_is_not_persistent_state:
  assumes "set_Objects after = map (\<lambda>(k, j). (k, case j of
     JObj kvs \<Rightarrow> JObj (jset ''status'' (newStatus k) kvs) | _ \<Rightarrow> j)) (set_Objects before)"
  shows "Diff dg before after allowed = ([], 0) \<and> Diff dg before before allowed = ([], 0)"
proof -
  have get: "map_of (map (\<lambda>(k, j). (k, g k j)) xs) k = map_option (g k) (map_of xs k)"
    for g :: "ObjKey \<Rightarrow> json \<Rightarrow> json" and xs k
    by (induction xs) auto
  have del: "jdel ''status'' (jset ''status'' v kvs) = jdel ''status'' kvs" for v kvs
    by (simp add: jset_def jdel_def)
  have "\<not> changed before after k" for k
    by (auto simp: changed_def object_at_def assms get comparable_def del
        split: option.splits json.splits)
  moreover have "\<not> changed before before k" for k by (simp add: changed_def)
  ultimately show ?thesis by (simp add: Diff_eq)
qed

section \<open>Witnesses\<close>

definition demo_obj :: "(string \<times> json) list" where
  "demo_obj = [(''kind'', JStr ''Secret''), (''metadata'', JObj [(''name'', JStr ''db'')])]"

definition demo_key :: ObjKey where
  "demo_key = \<lparr>k_Kind = ''Deployment'', k_Namespace = ''bench'', k_Name = ''web''\<rparr>"

definition demo_set :: "string \<Rightarrow> Set" where
  "demo_set st = \<lparr>set_Name = ''s'', set_Objects =
     [(demo_key, JObj [(''spec'', JNull), (''status'', JStr st)])], set_Unreadable = []\<rparr>"

theorem normalize_ignores_volatile_metadata_witness:
  "NormalizeObject (\<lambda>_. ''d'') (jset ''metadata'' (JObj (jset ''uid'' (JStr ''1'') [])) demo_obj) [] [] =
   NormalizeObject (\<lambda>_. ''d'') (jset ''metadata'' (JObj []) demo_obj) [] []"
  by (rule normalize_ignores_volatile_metadata) (simp add: volatileTop_def)

theorem secret_payload_only_by_digest_witness:
  "NormalizeObject (\<lambda>_. ''d'') (jset ''data'' (JObj [(''p'', JStr ''1'')]) demo_obj) [] [] =
   NormalizeObject (\<lambda>_. ''d'') (jset ''data'' (JObj [(''p'', JStr ''2'')]) demo_obj) [] []"
proof (rule secret_payload_only_by_digest)
  show "equal_fold (effectiveKind demo_obj []) ''Secret''" by code_simp
qed simp_all

theorem status_is_not_persistent_state_witness:
  "Diff (\<lambda>_. ''d'') (demo_set ''a'') (demo_set ''b'') None = ([], 0)"
proof -
  have "set_Objects (demo_set ''b'') = map (\<lambda>(k, j). (k, case j of
     JObj kvs \<Rightarrow> JObj (jset ''status'' ((\<lambda>_. JStr ''b'') k) kvs) | _ \<Rightarrow> j)) (set_Objects (demo_set ''a''))"
    by code_simp
  from status_is_not_persistent_state [OF this] show ?thesis by blast
qed

end
