(* ===== verification/Authority_Plan.thy ===== *)
theory Authority_Plan
  imports Authority_Profile Evaluation_Types
begin

text \<open>
  The authority compiler (\<^verbatim>\<open>pkg/authority/plan.go\<close>): \<open>Compile\<close> turns a profile into the one
  plan its three consumers derive from: the verdict matcher \<open>Classify\<close>, the snapshot scopes
  \<open>WritableKinds\<close>, \<open>WritableScopes\<close> and \<open>ProtectedKinds\<close>, and the RBAC rules
  \<open>RolesByNamespace\<close> and \<open>ClusterRoleRules\<close>. A Go map from strings to true is a set, the map
  of roles is a partial function.
\<close>

section \<open>Data\<close>

record Action =
  a_User :: string
  a_Verb :: string
  a_Resource :: string
  a_Namespace :: string
  a_Name :: string
  a_APIGroup :: string
  a_Subresource :: string

record Rule =
  ru_APIGroups :: "string list"
  ru_Resources :: "string list"
  ru_Subresources :: "string list"
  ru_ResourceNames :: "string list"
  ru_Namespaces :: "string list"
  ru_Verbs :: "string list"
  ru_Cluster :: bool

record ProtectedRef =
  pf_Namespace :: string
  pf_APIGroup :: string
  pf_Resource :: string
  pf_Name :: string

record Plan =
  AgentIdentity :: string
  AgentNamespace :: "string list"
  WriteRules :: "Rule list"
  AllRules :: "Rule list"
  ClusterRules :: "Rule list"
  ProtectedRefs :: "ProtectedRef list"
  OnDenied :: string

datatype compile_error =
    CompileOnDenied string
  | CompileNamespaceOutside string
  | CompileSubresourceWithoutBase string

datatype AuthVerdict = OutOfScope | Granted | ProtectedViolation | Read

record RBACRule =
  rb_APIGroups :: "string list"
  rb_Resources :: "string list"
  rb_ResourceNames :: "string list"
  rb_Verbs :: "string list"

section \<open>Rules\<close>

definition escalationVerbs :: "string list" where
  "escalationVerbs = [''impersonate'', ''escalate'', ''bind'']"

definition safeWildcardVerbs :: "string list" where
  "safeWildcardVerbs =
     [''create'', ''delete'', ''get'', ''list'', ''patch'', ''update'', ''watch'']"

definition verbAllowed :: "Rule \<Rightarrow> string \<Rightarrow> bool" where
  "verbAllowed r v = list_ex (\<lambda>rv.
     if rv = ''*'' then \<not> (v \<in> set escalationVerbs \<or> v = ''deletecollection'')
     else equal_fold rv v) (ru_Verbs r)"

definition contains :: "string list \<Rightarrow> string \<Rightarrow> bool" where
  "contains xs s \<longleftrightarrow> s \<in> set xs"

definition groupAllowed :: "string list \<Rightarrow> string \<Rightarrow> bool" where
  "groupAllowed groups g = list_ex (\<lambda>ag. ag = ''*'' \<or> ag = g) groups"

definition resourceKey :: "Action \<Rightarrow> string" where
  "resourceKey a = (if a_Subresource a \<noteq> [] then a_Resource a @ ''/'' @ a_Subresource a
                    else a_Resource a)"

definition matches :: "Rule \<Rightarrow> Action \<Rightarrow> bool" where
  "matches r a =
     (let base = a_Resource a; sub = a_Subresource a; key = resourceKey a in
      if \<not> contains (ru_Resources r) base \<and> \<not> contains (ru_Resources r) key then False
      else if sub \<noteq> [] \<and> \<not> contains (ru_Resources r) key \<and> \<not> contains (ru_Subresources r) key
        then False
      else if \<not> groupAllowed (ru_APIGroups r) (a_APIGroup a) then False
      else if ru_ResourceNames r \<noteq> [] \<and>
        (a_Name a = [] \<or> \<not> contains (ru_ResourceNames r) (a_Name a)) then False
      else True)"

definition nsIn :: "Rule \<Rightarrow> string \<Rightarrow> string list \<Rightarrow> bool" where
  "nsIn r ns agentDefault =
     (if ru_Cluster r then ns = []
      else contains (if ru_Namespaces r = [] then agentDefault else ru_Namespaces r) ns)"

section \<open>Compilation\<close>

definition normGroups :: "string list \<Rightarrow> string list" where
  "normGroups g = (if g = [] then [[]] else dedupe g)"

definition baseOf :: "string \<Rightarrow> string" where
  "baseOf r = fst (cut_at (CHR ''/'') r)"

definition baseResources :: "string list \<Rightarrow> string list" where
  "baseResources res = dedupe (map baseOf res)"

definition subresourcePairs :: "string list \<Rightarrow> string list \<Rightarrow> string list" where
  "subresourcePairs resources subresources =
     sort (remdups
       (filter (\<lambda>r. str_contains r ''/'') resources @
        concat (map (\<lambda>r. map (\<lambda>sub. r @ ''/'' @ sub) subresources)
          (filter (\<lambda>r. \<not> str_contains r ''/'') resources))))"

definition ruleOf :: "bool \<Rightarrow> PolicyRule \<Rightarrow> Rule" where
  "ruleOf cluster r =
     \<lparr>ru_APIGroups = normGroups (pr_APIGroups r),
      ru_Resources = baseResources (pr_Resources r),
      ru_Subresources = subresourcePairs (pr_Resources r) (pr_Subresources r),
      ru_ResourceNames = dedupe (pr_ResourceNames r),
      ru_Namespaces = (if cluster then [] else dedupe (pr_Namespaces r)),
      ru_Verbs = dedupe (pr_Verbs r),
      ru_Cluster = cluster\<rparr>"

definition compileRule :: "string list \<Rightarrow> bool \<Rightarrow> PolicyRule \<Rightarrow> (compile_error, Rule) result" where
  "compileRule agentNS cluster r =
     (let cr = ruleOf cluster r in
      case first_of
        [(if cluster then None
          else first_error (\<lambda>ns. err_if (\<not> contains agentNS ns) (CompileNamespaceOutside ns))
                 (pr_Namespaces r)),
         first_error (\<lambda>sp. err_if (\<not> contains (ru_Resources cr) (baseOf sp))
           (CompileSubresourceWithoutBase sp)) (ru_Subresources cr)]
      of Some e \<Rightarrow> Inl e | None \<Rightarrow> Inr cr)"

definition writesRule :: "Rule \<Rightarrow> bool" where
  "writesRule cr = list_ex (\<lambda>v. v = ''*'' \<or> v \<in> set MutationVerbs) (ru_Verbs cr)"

definition addRule :: "bool \<Rightarrow> Rule \<Rightarrow> Plan \<Rightarrow> Plan" where
  "addRule cluster cr p =
     p\<lparr>AllRules := AllRules p @ [cr],
       WriteRules := (if writesRule cr then WriteRules p @ [cr] else WriteRules p),
       ClusterRules := (if cluster then ClusterRules p @ [cr] else ClusterRules p)\<rparr>"

fun compileRules ::
  "string list \<Rightarrow> bool \<Rightarrow> PolicyRule list \<Rightarrow> Plan \<Rightarrow> (compile_error, Plan) result" where
  "compileRules agentNS cluster [] p = Inr p"
| "compileRules agentNS cluster (r # rs) p =
     (case compileRule agentNS cluster r of
        Inl e \<Rightarrow> Inl e
      | Inr cr \<Rightarrow> compileRules agentNS cluster rs (addRule cluster cr p))"

definition protectedRefOf :: "ProtectedResource \<Rightarrow> ProtectedRef" where
  "protectedRefOf pr = \<lparr>pf_Namespace = pt_Namespace pr, pf_APIGroup = pt_APIGroup pr,
                        pf_Resource = pt_Resource pr, pf_Name = pt_Name pr\<rparr>"

definition newPlan :: "AuthorityProfile \<Rightarrow> string \<Rightarrow> string \<Rightarrow> Plan" where
  "newPlan pf agentIdentity onDenied =
     \<lparr>AgentIdentity = agentIdentity, AgentNamespace = dedupe (ag_Namespaces (Agent pf)),
      WriteRules = [], AllRules = [], ClusterRules = [],
      ProtectedRefs = map protectedRefOf (Protected pf), OnDenied = onDenied\<rparr>"

definition Compile ::
  "AuthorityProfile option \<Rightarrow> string \<Rightarrow> (compile_error, Plan option) result" where
  "Compile profile agentIdentity = (case profile of None \<Rightarrow> Inr None | Some pf \<Rightarrow>
     (let onDenied = (if ag_OnDenied (Agent pf) = [] then OnDeniedUnsafe
                      else ag_OnDenied (Agent pf));
          agentNS = dedupe (ag_Namespaces (Agent pf)) in
      if onDenied \<noteq> OnDeniedUnsafe \<and> onDenied \<noteq> OnDeniedWarning
      then Inl (CompileOnDenied onDenied)
      else (case compileRules agentNS False (ag_Rules (Agent pf))
                   (newPlan pf agentIdentity onDenied) of
          Inl e \<Rightarrow> Inl e
        | Inr p1 \<Rightarrow> (case compileRules agentNS True (ag_ClusterScopedRules (Agent pf)) p1 of
            Inl e \<Rightarrow> Inl e
          | Inr p2 \<Rightarrow> Inr (Some p2)))))"

section \<open>Consumer 1: verdict matching\<close>

fun AuthVerdict_String :: "AuthVerdict \<Rightarrow> string" where
  "AuthVerdict_String Granted = ''granted''"
| "AuthVerdict_String ProtectedViolation = ''protected-violation''"
| "AuthVerdict_String OutOfScope = ''out-of-scope''"
| "AuthVerdict_String Read = ''read''"

definition DeniedIsWarning :: "Plan option \<Rightarrow> bool" where
  "DeniedIsWarning p = (case p of None \<Rightarrow> False | Some q \<Rightarrow> OnDenied q = OnDeniedWarning)"

definition protectedHit :: "Plan \<Rightarrow> Action \<Rightarrow> bool" where
  "protectedHit p a = list_ex (\<lambda>pr.
     pf_Namespace pr = a_Namespace a \<and>
     (pf_Resource pr = a_Resource a \<or> pf_Resource pr = resourceKey a) \<and>
     (pf_APIGroup pr = [] \<or> pf_APIGroup pr = a_APIGroup a) \<and>
     (pf_Name pr = a_Name a \<or> a_Name a = [])) (ProtectedRefs p)"

definition Classify :: "Plan \<Rightarrow> Action \<Rightarrow> AuthVerdict" where
  "Classify p a =
     (if a_Verb a \<notin> set MutationVerbs \<and> a_Verb a \<noteq> ''*'' then Read
      else if protectedHit p a then ProtectedViolation
      else if list_ex (\<lambda>r. nsIn r (a_Namespace a) (AgentNamespace p) \<and> matches r a \<and>
                           verbAllowed r (a_Verb a)) (WriteRules p) then Granted
      else OutOfScope)"

section \<open>Consumer 2: snapshot scopes\<close>

definition WritableKinds :: "Plan \<Rightarrow> string set" where
  "WritableKinds p = set (concat (map ru_Resources (WriteRules p)))"

definition writeScope :: "Plan \<Rightarrow> Rule \<Rightarrow> string list" where
  "writeScope p r =
     (let scope = (if ru_Cluster r then [[]] else ru_Namespaces r) in
      if scope = [] then AgentNamespace p else scope)"

definition WritableScopes :: "Plan \<Rightarrow> string set" where
  "WritableScopes p = set (concat (map (\<lambda>r.
     concat (map (\<lambda>ns. map (\<lambda>res. ns @ ''/'' @ res) (ru_Resources r)) (writeScope p r)))
     (WriteRules p)))"

definition ProtectedKinds :: "Plan \<Rightarrow> string set" where
  "ProtectedKinds p =
     set (map (\<lambda>pr. pf_Namespace pr @ ''/'' @ pf_Resource pr) (ProtectedRefs p))"

section \<open>Consumer 3: description\<close>

definition describeLine :: "Plan \<Rightarrow> string \<Rightarrow> Rule \<Rightarrow> string" where
  "describeLine p kind r =
     (let scope = (if ru_Cluster r then ''cluster''
                   else if ru_Namespaces r = [] then join (AgentNamespace p) '',''
                   else join (ru_Namespaces r) '','');
          names = (if ru_ResourceNames r \<noteq> [] then join (ru_ResourceNames r) '','' else ''*'');
          res = join (ru_Resources r) '','' @
                (if ru_Subresources r \<noteq> [] then '' + '' @ join (ru_Subresources r) '','' else [])
      in kind @ '': verbs=['' @ join (ru_Verbs r) '','' @ ''] on '' @ res @ '' (groups=['' @
         join (ru_APIGroups r) '','' @ '']) names=['' @ names @ ''] ns=['' @ scope @ '']'')"

text \<open>
  \<^verbatim>\<open>%q\<close> puts the API group in double quotes; group names hold no byte it would escape.
\<close>

definition describeProtected :: "ProtectedRef \<Rightarrow> string" where
  "describeProtected pr =
     ''protected: '' @ pf_Namespace pr @ ''/'' @ pf_Resource pr @ ''/'' @ pf_Name pr @
     '' (group '' @ [CHR 0x22] @ pf_APIGroup pr @ [CHR 0x22] @ '')''"

definition Describe :: "Plan option \<Rightarrow> string list" where
  "Describe plan = (case plan of None \<Rightarrow> [] | Some p \<Rightarrow>
     map (describeLine p ''agent'') (AllRules p) @ map describeProtected (ProtectedRefs p))"

section \<open>Consumer 4: RBAC materialization\<close>

definition render :: "Rule \<Rightarrow> RBACRule" where
  "render r =
     \<lparr>rb_APIGroups = ru_APIGroups r,
      rb_Resources = sort (fold (\<lambda>sp out. if contains out sp then out else out @ [sp])
                             (ru_Subresources r) (ru_Resources r)),
      rb_ResourceNames = ru_ResourceNames r,
      rb_Verbs = (if ''*'' \<in> set (ru_Verbs r) then sort safeWildcardVerbs
                  else filter (\<lambda>v. v \<notin> set escalationVerbs) (ru_Verbs r))\<rparr>"

definition appendRole ::
  "RBACRule \<Rightarrow> string \<Rightarrow> (string \<rightharpoonup> RBACRule list) \<Rightarrow> (string \<rightharpoonup> RBACRule list)" where
  "appendRole rendered ns out =
     out(ns \<mapsto> slice_at out ns @ [rendered])"

definition roleScope :: "Plan \<Rightarrow> Rule \<Rightarrow> string list" where
  "roleScope p r = (if ru_Namespaces r = [] then AgentNamespace p else ru_Namespaces r)"

definition RolesByNamespace :: "Plan \<Rightarrow> string \<rightharpoonup> RBACRule list" where
  "RolesByNamespace p = fold (\<lambda>r out.
     if ru_Cluster r then out else fold (appendRole (render r)) (roleScope p r) out)
     (AllRules p) Map.empty"

definition ClusterRoleRules :: "Plan \<Rightarrow> RBACRule list" where
  "ClusterRoleRules p = map render (filter ru_Cluster (AllRules p))"

section \<open>What the API server lets the agent do\<close>

text \<open>
  The Kubernetes reading of the rendered rules: a rule covers a request when it lists its verb,
  its group, its resource or \<open>resource/subresource\<close>, or a wildcard for one of them, and, if it is
  restricted to names, the name of the request. The rules that apply in a namespace are those of the
  roles there and, since a cluster role is bound by a cluster role binding, all cluster rules.
\<close>

definition rbac_covers :: "RBACRule \<Rightarrow> Action \<Rightarrow> bool" where
  "rbac_covers rb a \<longleftrightarrow>
     (''*'' \<in> set (rb_Verbs rb) \<or> a_Verb a \<in> set (rb_Verbs rb)) \<and>
     (''*'' \<in> set (rb_APIGroups rb) \<or> a_APIGroup a \<in> set (rb_APIGroups rb)) \<and>
     (''*'' \<in> set (rb_Resources rb) \<or> resourceKey a \<in> set (rb_Resources rb) \<or>
      a_Subresource a \<noteq> [] \<and> ''*/'' @ a_Subresource a \<in> set (rb_Resources rb)) \<and>
     (rb_ResourceNames rb = [] \<or> a_Name a \<noteq> [] \<and> a_Name a \<in> set (rb_ResourceNames rb))"

definition rolesAt :: "Plan \<Rightarrow> string \<Rightarrow> RBACRule list" where
  "rolesAt p ns = slice_at (RolesByNamespace p) ns"

definition rbac_rules :: "Plan \<Rightarrow> string \<Rightarrow> RBACRule list" where
  "rbac_rules p ns = rolesAt p ns @ ClusterRoleRules p"

definition rbac_allows :: "Plan \<Rightarrow> Action \<Rightarrow> bool" where
  "rbac_allows p a = list_ex (\<lambda>rb. rbac_covers rb a) (rbac_rules p (a_Namespace a))"

text \<open>A rule that names both the wildcard and \<^verbatim>\<open>deletecollection\<close>.\<close>

definition mixed_wildcard :: "Rule \<Rightarrow> bool" where
  "mixed_wildcard r \<longleftrightarrow> ''*'' \<in> set (ru_Verbs r) \<and> ''deletecollection'' \<in> set (ru_Verbs r)"

text \<open>
  The rules on which matcher and API server read a request alike: without that mixture, without a resource
  wildcard, and at cluster scope only for resources that the request does not name inside a namespace.
\<close>

definition plain_rules :: "Plan \<Rightarrow> Action \<Rightarrow> bool" where
  "plain_rules p a = list_all (\<lambda>r. \<not> mixed_wildcard r \<and> ''*'' \<notin> set (ru_Resources r) \<and>
     \<not> (ru_Cluster r \<and> a_Namespace a \<noteq> [] \<and> a_Resource a \<in> set (ru_Resources r))) (AllRules p)"

section \<open>Facts on compilation\<close>

lemma baseOf_no_slash [simp]: "CHR ''/'' \<notin> set (baseOf r)"
  by (auto simp: baseOf_def fst_cut_at dest: set_takeWhileD)

lemma baseOf_id: "CHR ''/'' \<notin> set r \<Longrightarrow> baseOf r = r"
  by (simp add: baseOf_def cut_at_absent)

lemma baseOf_pair: "CHR ''/'' \<notin> set b \<Longrightarrow> baseOf (b @ CHR ''/'' # sub) = b"
  by (simp add: baseOf_def cut_at_append)

lemma set_baseResources [simp]: "set (baseResources res) = baseOf ` set res"
  by (simp add: baseResources_def)

lemma set_subresourcePairs:
  "set (subresourcePairs res subs) =
     {r \<in> set res. CHR ''/'' \<in> set r} \<union>
     {r @ CHR ''/'' # sub |r sub. r \<in> set res \<and> CHR ''/'' \<notin> set r \<and> sub \<in> set subs}"
  by (auto simp: subresourcePairs_def str_contains_char)

lemma subresourcePairs_slash: "sp \<in> set (subresourcePairs res subs) \<Longrightarrow> CHR ''/'' \<in> set sp"
  by (auto simp: set_subresourcePairs)

text \<open>The check that every pair attaches to a listed base can never fail.\<close>

lemma subresourcePairs_base:
  "sp \<in> set (subresourcePairs res subs) \<Longrightarrow> baseOf sp \<in> set (baseResources res)"
proof -
  assume "sp \<in> set (subresourcePairs res subs)"
  then consider "sp \<in> set res" |
    r sub where "r \<in> set res" "CHR ''/'' \<notin> set r" "sp = r @ CHR ''/'' # sub"
    by (auto simp: set_subresourcePairs)
  then show ?thesis
  proof cases
    case 1
    then show ?thesis by simp
  next
    case (2 r sub)
    then have "baseOf sp = baseOf r" by (simp add: baseOf_pair baseOf_id)
    with 2 show ?thesis by auto
  qed
qed

lemma compileRule_Inr_iff:
  "compileRule ns cluster r = Inr cr \<longleftrightarrow>
     cr = ruleOf cluster r \<and> (cluster \<or> set (pr_Namespaces r) \<subseteq> set ns)"
proof -
  have base: "first_error (\<lambda>sp. err_if (\<not> contains (ru_Resources (ruleOf cluster r)) (baseOf sp))
      (CompileSubresourceWithoutBase sp)) (ru_Subresources (ruleOf cluster r)) = None"
    using subresourcePairs_base by (auto simp: ruleOf_def contains_def)
  show ?thesis
  proof (cases "cluster \<or> set (pr_Namespaces r) \<subseteq> set ns")
    case True
    then have "(if cluster then None
        else first_error (\<lambda>ns'. err_if (\<not> contains ns ns') (CompileNamespaceOutside ns'))
               (pr_Namespaces r)) = None"
      by (auto simp: contains_def)
    with True show ?thesis
      unfolding compileRule_def Let_def base by auto
  next
    case False
    then have "first_error (\<lambda>ns'. err_if (\<not> contains ns ns') (CompileNamespaceOutside ns'))
        (pr_Namespaces r) \<noteq> None"
      by (auto simp: contains_def)
    then obtain e where "first_error (\<lambda>ns'. err_if (\<not> contains ns ns')
        (CompileNamespaceOutside ns')) (pr_Namespaces r) = Some e"
      by (metis option.exhaust)
    with False show ?thesis
      unfolding compileRule_def Let_def base
      by (auto simp: first_of.simps(2) simp del: first_error_None_iff)
  qed
qed

lemma addRule_fields:
  "AllRules (addRule c cr p) = AllRules p @ [cr]"
  "WriteRules (addRule c cr p) = WriteRules p @ filter writesRule [cr]"
  "ClusterRules (addRule c cr p) = ClusterRules p @ (if c then [cr] else [])"
  "AgentNamespace (addRule c cr p) = AgentNamespace p"
  "ProtectedRefs (addRule c cr p) = ProtectedRefs p"
  "OnDenied (addRule c cr p) = OnDenied p"
  "AgentIdentity (addRule c cr p) = AgentIdentity p"
  by (simp_all add: addRule_def)

lemma compileRules_Inr:
  "compileRules ns c rs p = Inr q \<Longrightarrow>
     AllRules q = AllRules p @ map (ruleOf c) rs \<and>
     WriteRules q = WriteRules p @ filter writesRule (map (ruleOf c) rs) \<and>
     ClusterRules q = ClusterRules p @ (if c then map (ruleOf c) rs else []) \<and>
     AgentNamespace q = AgentNamespace p \<and> ProtectedRefs q = ProtectedRefs p \<and>
     OnDenied q = OnDenied p \<and> AgentIdentity q = AgentIdentity p \<and>
     (c \<or> (\<forall>r\<in>set rs. set (pr_Namespaces r) \<subseteq> set ns))"
proof (induction rs arbitrary: p)
  case Nil
  then show ?case by simp
next
  case (Cons r rs)
  from Cons.prems obtain cr where cr: "compileRule ns c r = Inr cr"
    and rest: "compileRules ns c rs (addRule c cr p) = Inr q"
    by (auto split: sum.splits)
  from cr have "cr = ruleOf c r" and "c \<or> set (pr_Namespaces r) \<subseteq> set ns"
    by (auto simp: compileRule_Inr_iff)
  with Cons.IH [OF rest] show ?case by (auto simp: addRule_fields)
qed

lemma compileRules_total:
  "c \<or> (\<forall>r\<in>set rs. set (pr_Namespaces r) \<subseteq> set ns) \<Longrightarrow> \<exists>q. compileRules ns c rs p = Inr q"
proof (induction rs arbitrary: p)
  case (Cons r rs)
  then have "compileRule ns c r = Inr (ruleOf c r)" by (auto simp: compileRule_Inr_iff)
  moreover have "\<exists>q. compileRules ns c rs (addRule c (ruleOf c r) p) = Inr q"
    using Cons by auto
  ultimately show ?case by simp
qed simp

definition compiled_rules :: "AuthorityProfile \<Rightarrow> Rule list" where
  "compiled_rules pf = map (ruleOf False) (ag_Rules (Agent pf)) @
     map (ruleOf True) (ag_ClusterScopedRules (Agent pf))"

text \<open>What a compiled plan holds, field by field.\<close>

lemma Compile_fields:
  assumes "Compile (Some pf) ident = Inr (Some p)"
  shows "AllRules p = compiled_rules pf"
    and "WriteRules p = filter writesRule (compiled_rules pf)"
    and "ClusterRules p = map (ruleOf True) (ag_ClusterScopedRules (Agent pf))"
    and "AgentNamespace p = dedupe (ag_Namespaces (Agent pf))"
    and "ProtectedRefs p = map protectedRefOf (Protected pf)"
    and "OnDenied p = effectiveOnDenied (Agent pf)"
    and "\<forall>r\<in>set (ag_Rules (Agent pf)). set (pr_Namespaces r) \<subseteq> set (ag_Namespaces (Agent pf))"
proof -
  let ?ns = "dedupe (ag_Namespaces (Agent pf))"
  let ?p0 = "newPlan pf ident (effectiveOnDenied (Agent pf))"
  from assms obtain p1 where p1: "compileRules ?ns False (ag_Rules (Agent pf)) ?p0 = Inr p1"
    and p: "compileRules ?ns True (ag_ClusterScopedRules (Agent pf)) p1 = Inr p"
    unfolding Compile_def effectiveOnDenied_def [symmetric]
    by (auto simp: Let_def split: if_splits sum.splits)
  note f1 = compileRules_Inr [OF p1] and f2 = compileRules_Inr [OF p]
  show "AllRules p = compiled_rules pf" and "WriteRules p = filter writesRule (compiled_rules pf)"
    and "ClusterRules p = map (ruleOf True) (ag_ClusterScopedRules (Agent pf))"
    and "AgentNamespace p = ?ns" and "ProtectedRefs p = map protectedRefOf (Protected pf)"
    and "OnDenied p = effectiveOnDenied (Agent pf)"
    and "\<forall>r\<in>set (ag_Rules (Agent pf)). set (pr_Namespaces r) \<subseteq> set (ag_Namespaces (Agent pf))"
    using f1 f2 by (simp_all add: compiled_rules_def newPlan_def)
qed

lemma Compile_total:
  assumes "wf_profile pf"
  shows "\<exists>p. Compile (Some pf) ident = Inr (Some p)"
proof -
  let ?ns = "dedupe (ag_Namespaces (Agent pf))"
  let ?od = "effectiveOnDenied (Agent pf)"
  have rules: "False \<or> (\<forall>r\<in>set (ag_Rules (Agent pf)). set (pr_Namespaces r) \<subseteq> set ?ns)"
    and od: "ag_OnDenied (Agent pf) \<in> {[], ''unsafe'', ''warning''}"
    using assms by (auto simp: wf_profile_def)
  then have od: "?od = OnDeniedUnsafe \<or> ?od = OnDeniedWarning"
    by (auto simp: effectiveOnDenied_def OnDeniedUnsafe_def OnDeniedWarning_def)
  obtain p1 where p1: "compileRules ?ns False (ag_Rules (Agent pf)) (newPlan pf ident ?od) = Inr p1"
    using compileRules_total [OF rules] by blast
  obtain p where "compileRules ?ns True (ag_ClusterScopedRules (Agent pf)) p1 = Inr p"
    using compileRules_total [of True] by blast
  with p1 od show ?thesis
    unfolding Compile_def effectiveOnDenied_def [symmetric] by (auto simp: Let_def)
qed

text \<open>The rules a role in a namespace holds, without the loop that collects them.\<close>

lemma appendRole_get:
  "slice_at (fold (appendRole rb) nss out) ns =
     slice_at out ns @ replicate (count_list nss ns) rb"
  by (induction nss arbitrary: out) (auto simp: appendRole_def replicate_append_same)

lemma set_rolesAt:
  "set (rolesAt p ns) =
     render ` {r \<in> set (AllRules p). \<not> ru_Cluster r \<and> ns \<in> set (roleScope p r)}"
proof -
  have "set (slice_at (fold (\<lambda>r out. if ru_Cluster r then out
          else fold (appendRole (render r)) (roleScope p r) out) rs out) ns) =
      set (slice_at out ns) \<union>
      render ` {r \<in> set rs. \<not> ru_Cluster r \<and> ns \<in> set (roleScope p r)}" for rs out
  proof (induction rs arbitrary: out)
    case (Cons r rs)
    show ?case
      using Cons.IH by (auto simp: appendRole_get set_replicate_conv_if count_list_0_iff)
  qed simp
  then show ?thesis by (simp add: rolesAt_def RolesByNamespace_def)
qed

lemma set_rbac_rules:
  "set (rbac_rules p ns) =
     render ` {r \<in> set (AllRules p). ru_Cluster r \<or> nsIn r ns (AgentNamespace p)}"
  by (auto simp: rbac_rules_def set_rolesAt ClusterRoleRules_def nsIn_def roleScope_def contains_def
      split: if_splits)

lemma set_render_Resources:
  "set (rb_Resources (render r)) = set (ru_Resources r) \<union> set (ru_Subresources r)"
proof -
  have "set (fold (\<lambda>sp out. if contains out sp then out else out @ [sp]) sps out) =
      set out \<union> set sps" for sps out
    by (induction sps arbitrary: out) (auto simp: contains_def)
  then show ?thesis by (simp add: render_def)
qed

lemma render_Verbs_iff:
  "v \<in> set (rb_Verbs (render r)) \<longleftrightarrow>
     (if ''*'' \<in> set (ru_Verbs r) then v \<in> set safeWildcardVerbs
      else v \<in> set (ru_Verbs r) \<and> v \<notin> set escalationVerbs)"
  by (auto simp: render_def)

section \<open>Matching against rendering\<close>

lemma wf_rule_ruleOf:
  assumes "wf_rule r"
  shows "set (ru_Verbs (ruleOf c r)) \<subseteq> set canonicalRBACVerbs"
  using assms by (simp add: ruleOf_def wf_rule_def)

text \<open>
  The fold-insensitive comparison of \<^verbatim>\<open>verbAllowed\<close> is equality on canonical verbs, so only the
  wildcard separates the two readings of a verb list.
\<close>

lemma equal_fold_canonical:
  "rv \<in> set canonicalRBACVerbs \<Longrightarrow> v \<in> set MutationVerbs \<Longrightarrow> equal_fold rv v \<longleftrightarrow> rv = v"
proof -
  have "\<forall>rv\<in>set canonicalRBACVerbs. \<forall>v\<in>set MutationVerbs. equal_fold rv v \<longleftrightarrow> rv = v" by code_simp
  then show "rv \<in> set canonicalRBACVerbs \<Longrightarrow> v \<in> set MutationVerbs \<Longrightarrow> equal_fold rv v \<longleftrightarrow> rv = v" by blast
qed

lemma mutation_not_escalation: "v \<in> set MutationVerbs \<Longrightarrow> v \<notin> set escalationVerbs"
  by (auto simp: MutationVerbs_def escalationVerbs_def)

lemma mutation_safe_wildcard:
  "v \<in> set MutationVerbs \<Longrightarrow> v \<in> set safeWildcardVerbs \<longleftrightarrow> v \<noteq> ''deletecollection''"
  by (auto simp: MutationVerbs_def safeWildcardVerbs_def)

lemma verbAllowed_iff:
  assumes "set (ru_Verbs r) \<subseteq> set canonicalRBACVerbs" and "v \<in> set MutationVerbs"
  shows "verbAllowed r v \<longleftrightarrow> v \<in> set (ru_Verbs r) \<or>
           ''*'' \<in> set (ru_Verbs r) \<and> v \<noteq> ''deletecollection''"
proof -
  have "v \<noteq> ''*''" using assms(2) by (auto simp: MutationVerbs_def)
  then have "(if rv = ''*'' then \<not> (v \<in> set escalationVerbs \<or> v = ''deletecollection'')
              else equal_fold rv v) \<longleftrightarrow> rv = v \<or> rv = ''*'' \<and> v \<noteq> ''deletecollection''"
    if "rv \<in> set (ru_Verbs r)" for rv
    using that assms equal_fold_canonical mutation_not_escalation by (auto split: if_splits)
  then show ?thesis by (auto simp: verbAllowed_def list_ex_iff)
qed

lemma verb_lockstep:
  assumes "set (ru_Verbs r) \<subseteq> set canonicalRBACVerbs" and "v \<in> set MutationVerbs"
    and "\<not> mixed_wildcard r"
  shows "verbAllowed r v \<longleftrightarrow> v \<in> set (rb_Verbs (render r))"
  using assms mutation_not_escalation [of v] mutation_safe_wildcard [of v]
  by (auto simp: verbAllowed_iff render_Verbs_iff mixed_wildcard_def)

definition rule_shape :: "Rule \<Rightarrow> bool" where
  "rule_shape r \<longleftrightarrow> (\<forall>res\<in>set (ru_Resources r). CHR ''/'' \<notin> set res) \<and>
     (\<forall>sp\<in>set (ru_Subresources r). CHR ''/'' \<in> set sp \<and> baseOf sp \<in> set (ru_Resources r))"

lemma rule_shape_ruleOf: "rule_shape (ruleOf c r)"
  using subresourcePairs_slash subresourcePairs_base
  by (force simp: rule_shape_def ruleOf_def)

lemma resourceKey_slash:
  "CHR ''/'' \<notin> set (a_Resource a) \<Longrightarrow>
     CHR ''/'' \<in> set (resourceKey a) \<longleftrightarrow> a_Subresource a \<noteq> []"
  by (simp add: resourceKey_def)

lemma baseOf_resourceKey:
  "CHR ''/'' \<notin> set (a_Resource a) \<Longrightarrow> baseOf (resourceKey a) = a_Resource a"
  by (simp add: resourceKey_def baseOf_pair baseOf_id)

lemma matches_resource:
  assumes "rule_shape r" and "matches r a"
  shows "a_Resource a \<in> set (ru_Resources r)"
  using assms by (force simp: rule_shape_def matches_def contains_def resourceKey_def Let_def
      split: if_splits)

lemma matches_lockstep:
  assumes shape: "rule_shape r" and res: "CHR ''/'' \<notin> set (a_Resource a)" and star: "''*'' \<notin> set (ru_Resources r)"
    and verb: "verbAllowed r (a_Verb a) \<longleftrightarrow> a_Verb a \<in> set (rb_Verbs (render r))"
  shows "matches r a \<and> verbAllowed r (a_Verb a) \<longleftrightarrow> rbac_covers (render r) a"
proof -
  have key: "resourceKey a \<in> set (ru_Resources r) \<union> set (ru_Subresources r) \<longleftrightarrow>
      (a_Resource a \<in> set (ru_Resources r) \<or> resourceKey a \<in> set (ru_Resources r)) \<and>
      (a_Subresource a = [] \<or> resourceKey a \<in> set (ru_Resources r) \<or>
       resourceKey a \<in> set (ru_Subresources r))"
  proof (cases "a_Subresource a = []")
    case True
    then have "resourceKey a = a_Resource a" by (simp add: resourceKey_def)
    with True shape res show ?thesis by (auto simp: rule_shape_def)
  next
    case False
    then show ?thesis
      using shape baseOf_resourceKey [OF res] by (auto simp: rule_shape_def)
  qed
  have grp: "groupAllowed (ru_APIGroups r) (a_APIGroup a) \<longleftrightarrow>
      ''*'' \<in> set (ru_APIGroups r) \<or> a_APIGroup a \<in> set (ru_APIGroups r)"
    by (auto simp: groupAllowed_def list_ex_iff)
  have "matches r a \<longleftrightarrow>
      resourceKey a \<in> set (ru_Resources r) \<union> set (ru_Subresources r) \<and>
      groupAllowed (ru_APIGroups r) (a_APIGroup a) \<and>
      (ru_ResourceNames r = [] \<or> a_Name a \<noteq> [] \<and> a_Name a \<in> set (ru_ResourceNames r))"
    unfolding key by (auto simp: matches_def contains_def Let_def)
  moreover have "''*'' \<notin> set (ru_Resources r) \<union> set (ru_Subresources r)"
    "''*/'' @ sub \<notin> set (ru_Resources r) \<union> set (ru_Subresources r)" for sub
    using shape star baseOf_pair [of "''*''" sub] by (auto simp: rule_shape_def)
  moreover have "''*'' \<notin> set (rb_Verbs (render r))"
    by (auto simp: render_Verbs_iff safeWildcardVerbs_def)
  ultimately show ?thesis
    unfolding rbac_covers_def set_render_Resources verb grp by (auto simp: render_def)
qed

lemma compiled_rules_wf:
  assumes "wf_profile pf" and "r \<in> set (compiled_rules pf)"
  shows "rule_shape r" and "set (ru_Verbs r) \<subseteq> set canonicalRBACVerbs"
proof -
  have "\<forall>r0\<in>set (ag_Rules (Agent pf)) \<union> set (ag_ClusterScopedRules (Agent pf)). wf_rule r0"
    using assms(1) unfolding wf_profile_def by blast
  with assms(2) obtain c r0 where "r = ruleOf c r0" and "wf_rule r0"
    by (auto simp: compiled_rules_def)
  then show "rule_shape r" and "set (ru_Verbs r) \<subseteq> set canonicalRBACVerbs"
    using rule_shape_ruleOf wf_rule_ruleOf by blast+
qed

lemma writesRule_if_allowed:
  assumes "set (ru_Verbs r) \<subseteq> set canonicalRBACVerbs" and "v \<in> set MutationVerbs"
    and "verbAllowed r v"
  shows "writesRule r"
  using assms by (auto simp: verbAllowed_iff writesRule_def list_ex_iff)

text \<open>
  What the clients of a matcher rely on, whatever its rules: reads are never violations, a
  mutation of a protected object always is, and a mutation that is neither protected nor
  granted is outside the scope.
\<close>

locale action_authority =
  fixes classify :: "Action \<Rightarrow> AuthVerdict"
    and prot :: "Action \<Rightarrow> bool"
    and grants :: "Action \<Rightarrow> bool"
  assumes read_law: "\<not> (a_Verb a \<in> set MutationVerbs \<or> a_Verb a = ''*'') \<Longrightarrow> classify a = Read"
    and protected_law: "a_Verb a \<in> set MutationVerbs \<or> a_Verb a = ''*'' \<Longrightarrow> prot a \<Longrightarrow>
      classify a = ProtectedViolation"
    and granted_law: "a_Verb a \<in> set MutationVerbs \<or> a_Verb a = ''*'' \<Longrightarrow> \<not> prot a \<Longrightarrow>
      classify a = (if grants a then Granted else OutOfScope)"
begin

lemma classify_cases:
  "classify a = (if \<not> (a_Verb a \<in> set MutationVerbs \<or> a_Verb a = ''*'') then Read
     else if prot a then ProtectedViolation else if grants a then Granted else OutOfScope)"
  using read_law [of a] protected_law [of a] granted_law [of a] by simp

lemma mutation_never_Read: "a_Verb a \<in> set MutationVerbs \<Longrightarrow> classify a \<noteq> Read"
  by (simp add: classify_cases)

lemma Granted_iff:
  "classify a = Granted \<longleftrightarrow>
     (a_Verb a \<in> set MutationVerbs \<or> a_Verb a = ''*'') \<and> \<not> prot a \<and> grants a"
  by (simp add: classify_cases)

lemma ProtectedViolation_iff:
  "classify a = ProtectedViolation \<longleftrightarrow>
     (a_Verb a \<in> set MutationVerbs \<or> a_Verb a = ''*'') \<and> prot a"
  by (simp add: classify_cases)

lemma violation_iff:
  "classify a \<in> {ProtectedViolation, OutOfScope} \<longleftrightarrow>
     (a_Verb a \<in> set MutationVerbs \<or> a_Verb a = ''*'') \<and> (prot a \<or> \<not> grants a)"
  by (simp add: classify_cases)

end

definition grantedBy :: "Plan \<Rightarrow> Action \<Rightarrow> bool" where
  "grantedBy p a \<longleftrightarrow> (\<exists>r\<in>set (WriteRules p).
     nsIn r (a_Namespace a) (AgentNamespace p) \<and> matches r a \<and> verbAllowed r (a_Verb a))"

interpretation plan: action_authority "Classify p" "protectedHit p" "grantedBy p" for p
  by unfold_locales (auto simp: Classify_def grantedBy_def list_ex_iff)

lemma grantedBy_lockstep:
  assumes wf: "wf_profile pf" and c: "Compile (Some pf) ident = Inr (Some p)"
    and v: "a_Verb a \<in> set MutationVerbs" and res: "CHR ''/'' \<notin> set (a_Resource a)"
    and mix: "plain_rules p a"
  shows "grantedBy p a \<longleftrightarrow> rbac_allows p a"
proof -
  note f = Compile_fields [OF c]
  have rule: "writesRule r \<and> matches r a \<and> verbAllowed r (a_Verb a) \<longleftrightarrow> rbac_covers (render r) a"
    if "r \<in> set (AllRules p)" for r
  proof -
    from that have r: "r \<in> set (compiled_rules pf)" and nm: "\<not> mixed_wildcard r" and st: "''*'' \<notin> set (ru_Resources r)"
      using f(1) mix by (auto simp: plain_rules_def list_all_iff)
    note w = compiled_rules_wf [OF wf r]
    show ?thesis
      using matches_lockstep [OF w(1) res st verb_lockstep [OF w(2) v nm]]
        writesRule_if_allowed [OF w(2) v] by blast
  qed
  have local: "nsIn r (a_Namespace a) (AgentNamespace p)" if "r \<in> set (AllRules p)" "ru_Cluster r" "matches r a" for r
  proof -
    have "rule_shape r" using compiled_rules_wf [OF wf] that(1) f(1) by simp
    then have "a_Resource a \<in> set (ru_Resources r)" using matches_resource that(3) by blast
    then have "a_Namespace a = []" using mix that(1,2) by (auto simp: plain_rules_def list_all_iff)
    then show ?thesis using that(2) by (simp add: nsIn_def)
  qed
  have "grantedBy p a \<longleftrightarrow> (\<exists>r\<in>set (AllRules p). nsIn r (a_Namespace a) (AgentNamespace p) \<and>
      writesRule r \<and> matches r a \<and> verbAllowed r (a_Verb a))"
    unfolding grantedBy_def f(1) f(2) by auto
  also have "\<dots> \<longleftrightarrow> rbac_allows p a"
    unfolding rbac_allows_def list_ex_iff set_rbac_rules using rule local by blast
  finally show ?thesis .
qed

section \<open>Properties\<close>

text \<open>
  The loader's validation accepts a profile exactly when it is well formed: every rule has
  canonical verbs and well-shaped resources, rule namespaces lie inside the agent's, cluster
  rules name none, protected entries and field rules are object-exact, no field rule targets a
  protected object, and impersonation is allowed only with a rule that lists it.
\<close>

theorem loader_accepts_wf_profiles:
  "validateAuthorityProfile (Some pf) = None \<longleftrightarrow> wf_profile pf"
  by (rule validate_profile_iff)

text \<open>
  C14: A profile the loader accepted always compiles, so neither of the compiler's own error
  paths can be reached after loading.
\<close>

theorem validated_profile_compiles:
  assumes "validateAuthorityProfile (Some pf) = None"
  shows "\<exists>p. Compile (Some pf) ident = Inr (Some p)"
  using assms by (simp add: validate_profile_iff Compile_total)


text \<open>
  Whatever the profile lists, a rendered role never carries the wildcard or a privilege
  escalation verb, in any namespace and at cluster scope.
\<close>

theorem rendered_rbac_never_escalates:
  assumes "rb \<in> set (rbac_rules p ns)"
  shows "set (rb_Verbs rb) \<inter> {''*'', ''impersonate'', ''escalate'', ''bind''} = {}"
proof -
  from assms obtain r where "rb = render r" by (auto simp: set_rbac_rules)
  then show ?thesis
    by (auto simp: render_Verbs_iff safeWildcardVerbs_def escalationVerbs_def split: if_splits)
qed

text \<open>
  A granted mutation stays inside the declared blast radius. Its namespace is one of the
  agent's or it is cluster scoped, the profile has a rule on its resource, and the pair of
  namespace and resource is on the surface the preservation diff compares.
\<close>

theorem granted_inside_blast_radius:
  assumes "Compile (Some pf) ident = Inr (Some p)" and "Classify p a = Granted"
  shows "(a_Namespace a \<in> set (ag_Namespaces (Agent pf)) \<or> a_Namespace a = []) \<and>
    a_Namespace a @ ''/'' @ a_Resource a \<in> WritableScopes p \<and> a_Resource a \<in> WritableKinds p"
proof -
  note f = Compile_fields [OF assms(1)]
  from assms(2) obtain r where r: "r \<in> set (WriteRules p)"
      "nsIn r (a_Namespace a) (AgentNamespace p)" "matches r a"
    by (auto simp: plan.Granted_iff grantedBy_def)
  from r(1) f(2) obtain c r0 where r0: "r = ruleOf c r0"
      "c \<or> set (pr_Namespaces r0) \<subseteq> set (ag_Namespaces (Agent pf))"
    using f(7) by (auto simp: compiled_rules_def)
  have res: "a_Resource a \<in> set (ru_Resources r)"
    using matches_resource rule_shape_ruleOf r(3) r0(1) by blast
  have "a_Namespace a \<in> set (ag_Namespaces (Agent pf)) \<or> a_Namespace a = []"
    using r(2) r0 f(4) by (auto simp: nsIn_def contains_def ruleOf_def split: if_splits)
  moreover have "a_Namespace a \<in> set (writeScope p r)"
    using r(2) by (auto simp: nsIn_def contains_def writeScope_def split: if_splits)
  ultimately show ?thesis
    using res r(1) by (auto simp: WritableScopes_def WritableKinds_def)
qed

section \<open>Witnesses\<close>

text \<open>
  A profile of the shape the scenarios use: write access to deployments of one namespace, a
  protected secret in another, read access to nodes.
\<close>

definition demo_rule :: PolicyRule where
  "demo_rule = \<lparr>pr_APIGroups = [''apps''], pr_Resources = [''deployments''],
     pr_ResourceNames = [], pr_Subresources = [''scale''], pr_Namespaces = [],
     pr_Verbs = [''get'', ''patch'']\<rparr>"

definition demo_cluster_rule :: PolicyRule where
  "demo_cluster_rule = demo_rule\<lparr>pr_APIGroups := [], pr_Resources := [''nodes''],
     pr_Subresources := [], pr_Verbs := [''get'']\<rparr>"

definition demo_profile :: AuthorityProfile where
  "demo_profile = \<lparr>
     Agent = \<lparr>ag_Namespaces = [''bench''], ag_Rules = [demo_rule],
              ag_ClusterScopedRules = [demo_cluster_rule], ag_OnDenied = []\<rparr>,
     Protected = [\<lparr>pt_APIGroup = [], pt_Resource = ''secrets'', pt_Namespace = ''bench'',
                   pt_Name = ''db''\<rparr>],
     ForbiddenChanges = [],
     EvidenceReaderSpec = \<lparr>er_Namespaces = [], er_Resources = [], er_Extra = []\<rparr>,
     AllowImpersonate = False\<rparr>"

definition plan_of :: "AuthorityProfile \<Rightarrow> Plan" where
  "plan_of pf = (case Compile (Some pf) ''agent'' of Inr (Some p) \<Rightarrow> p | _ \<Rightarrow> newPlan pf [] [])"

definition demo_plan :: Plan where
  "demo_plan = plan_of demo_profile"

definition demo_action :: Action where
  "demo_action = \<lparr>a_User = ''agent'', a_Verb = ''patch'', a_Resource = ''deployments'',
     a_Namespace = ''bench'', a_Name = ''web'', a_APIGroup = ''apps'', a_Subresource = []\<rparr>"

lemma demo_valid: "validateAuthorityProfile (Some demo_profile) = None"
  by code_simp

lemma demo_compiles: "Compile (Some demo_profile) ''agent'' = Inr (Some demo_plan)"
  by code_simp

theorem validated_profile_compiles_witness:
  "validateAuthorityProfile (Some demo_profile) = None \<and>
   (\<exists>p. Compile (Some demo_profile) ''agent'' = Inr (Some p))"
  using validated_profile_compiles [OF demo_valid] demo_valid by blast


theorem rendered_rbac_never_escalates_witness:
  "set (rb_Verbs (render (ruleOf True demo_cluster_rule))) \<inter>
     {''*'', ''impersonate'', ''escalate'', ''bind''} = {}"
proof (rule rendered_rbac_never_escalates)
  show "render (ruleOf True demo_cluster_rule) \<in> set (rbac_rules demo_plan [])" by code_simp
qed

theorem granted_inside_blast_radius_witness:
  "Classify demo_plan demo_action = Granted \<and>
   a_Namespace demo_action @ ''/'' @ a_Resource demo_action \<in> WritableScopes demo_plan"
proof -
  have "Classify demo_plan demo_action = Granted" by code_simp
  with granted_inside_blast_radius [OF demo_compiles this] show ?thesis by simp
qed

section \<open>Where the two readings differ\<close>

text \<open>
  A rule that lists the wildcard beside an explicit deletecollection is granted it by the
  matcher, while the rendered role drops it: the guard of the lockstep theorem is needed.
\<close>

definition mixed_profile :: AuthorityProfile where
  "mixed_profile = demo_profile\<lparr>Agent := (Agent demo_profile)\<lparr>
     ag_Rules := [demo_rule\<lparr>pr_Verbs := [''*'', ''deletecollection'']\<rparr>]\<rparr>\<rparr>"

lemma mixed_wildcard_breaks_lockstep:
  "validateAuthorityProfile (Some mixed_profile) = None \<and>
   Classify (plan_of mixed_profile)
     (demo_action\<lparr>a_Verb := ''deletecollection'', a_Name := []\<rparr>) = Granted \<and>
   \<not> rbac_allows (plan_of mixed_profile)
     (demo_action\<lparr>a_Verb := ''deletecollection'', a_Name := []\<rparr>)"
  by code_simp

text \<open>
  A rule on a subresource alone grants the base resource as well, to the matcher and to the
  rendered role.
\<close>

definition exec_profile :: AuthorityProfile where
  "exec_profile = demo_profile\<lparr>Agent := (Agent demo_profile)\<lparr>
     ag_Rules := [demo_rule\<lparr>pr_APIGroups := [], pr_Resources := [''pods/exec''],
       pr_Subresources := [], pr_Verbs := [''create'']\<rparr>]\<rparr>\<rparr>"

lemma subresource_rule_grants_base:
  "validateAuthorityProfile (Some exec_profile) = None \<and>
   Classify (plan_of exec_profile) (demo_action\<lparr>a_Verb := ''create'',
     a_Resource := ''pods'', a_APIGroup := []\<rparr>) = Granted \<and>
   rbac_allows (plan_of exec_profile) (demo_action\<lparr>a_Verb := ''create'',
     a_Resource := ''pods'', a_APIGroup := []\<rparr>)"
  by code_simp

text \<open>
  An explicitly listed escalation verb is stripped from the rendered role even when the profile
  sets \<^verbatim>\<open>allow_impersonation\<close>, and the loader accepts it without that flag.
\<close>

definition impersonate_profile :: "bool \<Rightarrow> AuthorityProfile" where
  "impersonate_profile allow = demo_profile\<lparr>Agent := (Agent demo_profile)\<lparr>
     ag_Rules := [demo_rule\<lparr>pr_Verbs := [''impersonate'']\<rparr>]\<rparr>, AllowImpersonate := allow\<rparr>"

lemma impersonate_never_rendered:
  "validateAuthorityProfile (Some (impersonate_profile True)) = None \<and>
   validateAuthorityProfile (Some (impersonate_profile False)) = None \<and>
   map rb_Verbs (rolesAt (plan_of (impersonate_profile True)) ''bench'') = [[]]"
  by code_simp

text \<open>
  The resource wildcard is rendered as the RBAC wildcard, which covers every resource, while
  the matcher compares it literally and finds every mutation out of scope.
\<close>

definition star_profile :: AuthorityProfile where
  "star_profile = demo_profile\<lparr>Agent := (Agent demo_profile)\<lparr>
     ag_Rules := [demo_rule\<lparr>pr_Resources := [''*''], pr_Subresources := []\<rparr>]\<rparr>\<rparr>"

lemma resource_wildcard_is_literal:
  "validateAuthorityProfile (Some star_profile) = None \<and>
   Classify (plan_of star_profile) demo_action = OutOfScope \<and> rbac_allows (plan_of star_profile) demo_action"
  by code_simp

text \<open>
  A rule at cluster scope is not limited to cluster-scoped resources: the loader accepts one that deletes
  secrets, and its cluster role lets the agent delete them in every namespace, the protected one included, while
  the matcher finds the same requests out of scope or protected.
\<close>

definition cluster_secret_profile :: AuthorityProfile where
  "cluster_secret_profile = demo_profile\<lparr>Agent := (Agent demo_profile)\<lparr>
     ag_ClusterScopedRules := [demo_cluster_rule\<lparr>pr_Resources := [''secrets''], pr_Verbs := [''delete'']\<rparr>]\<rparr>\<rparr>"

lemma cluster_rule_reaches_namespaces:
  "validateAuthorityProfile (Some cluster_secret_profile) = None \<and>
   (let p = plan_of cluster_secret_profile;
        a = demo_action\<lparr>a_Verb := ''delete'', a_Resource := ''secrets'', a_APIGroup := [], a_Name := ''db''\<rparr> in
    rbac_allows p a \<and> Classify p a = ProtectedViolation \<and>
    rbac_allows p (a\<lparr>a_Namespace := ''kube-system''\<rparr>) \<and> Classify p (a\<lparr>a_Namespace := ''kube-system''\<rparr>) = OutOfScope)"
  by code_simp

end
