(* ===== verification/Run_Snapshots.thy ===== *)
theory Run_Snapshots
  imports Snapshot_State Authority_Plan
begin

text \<open>
  The checkpoints of one run (\<^verbatim>\<open>pkg/harness/snapshots.go\<close>): which targets the evidence reader
  lists, which keys the agent may change, and \<open>finalize\<close>, which turns the captured sets into
  the state evidence. The scope comes from the compiled authority plan.

  \<^verbatim>\<open>kindGuess\<close> slices the first byte of its result and panics on an empty one; a panic is
  \<open>None\<close>. The sets captured so far are an association list from checkpoint names. Writing
  the checkpoint artifacts and the recorder events do not feed back and are left out.
\<close>

section \<open>Data\<close>

record runSnapshots =
  rs_Targets :: "Target list"
  rs_Allowed :: "ObjKey \<Rightarrow> bool"
  rs_DiffKinds :: "string set"
  rs_ProtectedKinds :: "string set"
  rs_Sets :: "(string \<times> Set) list"

record SnapshotInfo =
  si_Coverage :: SourceCoverage
  si_Reason :: string
  si_BaselineDigest :: string
  si_PreAgentDigest :: string
  si_PostAgentDigest :: string
  si_StabilityDigest :: string
  si_Violations :: "Violation list"
  si_AllowedChanges :: nat
  si_DerivedChanges :: nat

section \<open>Operations\<close>

definition AgentUserName :: string where
  "AgentUserName = ''system:serviceaccount:evidra-system:evidra-agent''"

definition kindGuess :: "string \<Rightarrow> string option" where
  "kindGuess resource =
     (let r = to_lower resource;
          singular0 =
            (if has_suffix r ''ies'' then trim_suffix r ''ies'' @ ''y''
             else if has_suffix r ''ses'' then trim_suffix r ''es''
             else if has_suffix r ''s'' \<and> \<not> has_suffix r ''ss'' then trim_suffix r ''s''
             else r);
          singular = (if r = ''endpoints'' then ''endpoints'' else singular0) in
      case singular of [] \<Rightarrow> None | c # cs \<Rightarrow> Some (upper_char c # cs))"

definition snapPlural :: "string \<Rightarrow> string" where
  "snapPlural kind = (let res = to_lower kind in if has_suffix res ''s'' then res else res @ ''s'')"

definition joinSemi :: "string \<Rightarrow> string \<Rightarrow> string" where
  "joinSemi existing add = (if existing = [] then add else existing @ ''; '' @ add)"

definition skipped :: "string list" where
  "skipped = [''events'', ''namespaces'', ''endpoints'']"

definition protectedExact :: "AuthorityProfile \<Rightarrow> string list" where
  "protectedExact profile =
     map (\<lambda>pr. pt_Namespace pr @ ''/'' @ pt_Resource pr @ ''/'' @ pt_Name pr) (Protected profile)"

text \<open>The plan, or none when the profile does not compile: then nothing is writable.\<close>

definition snapshotPlan :: "AuthorityProfile \<Rightarrow> Plan option" where
  "snapshotPlan profile = (case Compile (Some profile) AgentUserName of Inr p \<Rightarrow> p | Inl _ \<Rightarrow> None)"

definition allowedKey :: "AuthorityProfile \<Rightarrow> string set \<Rightarrow> ObjKey \<Rightarrow> bool" where
  "allowedKey profile writableScopes k =
     (let res = snapPlural (k_Kind k) in
      if k_Namespace k @ ''/'' @ res @ ''/'' @ k_Name k \<in> set (protectedExact profile) then False
      else k_Namespace k @ ''/'' @ res \<in> writableScopes)"

datatype snapshot_panic = EmptyResourceName

fun kindsOf :: "string list \<Rightarrow> (string \<times> string) list option" where
  "kindsOf [] = Some []"
| "kindsOf (r # rs) = (case kindGuess r of
     None \<Rightarrow> None
   | Some k \<Rightarrow> map_option (Cons (r, k)) (kindsOf rs))"

definition newRunSnapshots ::
  "AuthorityProfile option \<Rightarrow> string \<Rightarrow> (snapshot_panic, runSnapshots option) result" where
  "newRunSnapshots profile evidenceKubeconfig = (case profile of
     None \<Rightarrow> Inr None
   | Some p \<Rightarrow>
       (if evidenceKubeconfig = [] then Inr None
        else
          (let namespaces = dedupe (er_Namespaces (EvidenceReaderSpec p) @ ag_Namespaces (Agent p));
               resources = er_Resources (EvidenceReaderSpec p) in
           if resources = [] \<or> namespaces = [] then Inr None
           else (case kindsOf (filter (\<lambda>r. r \<notin> set skipped) resources) of
               None \<Rightarrow> Inl EmptyResourceName
             | Some rks \<Rightarrow>
                 (let plan = snapshotPlan p;
                      scopes = (case plan of None \<Rightarrow> {} | Some q \<Rightarrow> WritableScopes q) in
                  Inr (Some \<lparr>
                    rs_Targets = concat (map (\<lambda>ns. map (\<lambda>(res, kind).
                      \<lparr>tg_Namespace = ns, tg_Resource = res, tg_Kind = kind\<rparr>) rks) namespaces),
                    rs_Allowed = allowedKey p scopes,
                    rs_DiffKinds = (case plan of None \<Rightarrow> {} | Some q \<Rightarrow> WritableKinds q),
                    rs_ProtectedKinds = (case plan of None \<Rightarrow> {} | Some q \<Rightarrow> ProtectedKinds q),
                    rs_Sets = []\<rparr>))))))"

definition capture ::
  "((string \<times> json) list \<Rightarrow> string) \<Rightarrow> (Target \<Rightarrow> (string, json) result) \<Rightarrow> string \<Rightarrow>
   runSnapshots \<Rightarrow> runSnapshots" where
  "capture digest lister name r =
     r\<lparr>rs_Sets := (name, NewSet digest name (rs_Targets r) lister) #
        filter (\<lambda>(n, _). n \<noteq> name) (rs_Sets r)\<rparr>"

text \<open>The kind is what precedes the first slash, the namespace the second of three parts.\<close>

definition diffable :: "runSnapshots \<Rightarrow> Violation \<Rightarrow> bool" where
  "diffable r v =
     (let kind = fst (cut_at (CHR ''/'') (v_Object v));
          res = snapPlural kind;
          parts = split_at (CHR ''/'') (v_Object v);
          ns = (if length parts > 2 then parts ! 1 else []) in
      res \<in> rs_DiffKinds r \<or> ns @ ''/'' @ res \<in> rs_ProtectedKinds r)"

definition filterDiffable :: "runSnapshots \<Rightarrow> Violation list \<Rightarrow> Violation list \<times> nat" where
  "filterDiffable r violations =
     (filter (diffable r) violations, length (filter (\<lambda>v. \<not> diffable r v) violations))"

definition appendUnreadable :: "string \<Rightarrow> Set option \<Rightarrow> string \<Rightarrow> string" where
  "appendUnreadable tag s reason = (case s of
     None \<Rightarrow> reason
   | Some set' \<Rightarrow> fold (\<lambda>u acc. joinSemi acc (tag @ '': '' @ u)) (set_Unreadable set') reason)"

definition driftReason :: "nat \<Rightarrow> string" where
  "driftReason n = ''state still changing after agent: '' @ nat_text n @
     '' objects drifted during stability window''"

definition finalize ::
  "((string \<times> json) list \<Rightarrow> string) \<Rightarrow> (json \<Rightarrow> string) \<Rightarrow> runSnapshots option \<Rightarrow> SnapshotInfo option" where
  "finalize sha digestOf rs = (case rs of
     None \<Rightarrow> None
   | Some r \<Rightarrow>
       (let sets = map_of (rs_Sets r);
            info = \<lparr>si_Coverage = CoverageAbsent, si_Reason = ''checkpoints not captured'',
              si_BaselineDigest = [], si_PreAgentDigest = [], si_PostAgentDigest = [],
              si_StabilityDigest = [], si_Violations = [], si_AllowedChanges = 0,
              si_DerivedChanges = 0\<rparr> in
        case (sets ''baseline'', sets ''post-agent'') of
          (Some base, Some post) \<Rightarrow>
            (let diffBase = (case sets ''pre-agent'' of None \<Rightarrow> base | Some pre \<Rightarrow> pre);
                 reason1 = appendUnreadable ''stability'' (sets ''stability'')
                   (appendUnreadable ''post-agent'' (Some post)
                     (appendUnreadable ''pre-agent'' (sets ''pre-agent'')
                       (appendUnreadable ''baseline'' (Some base) [])));
                 d = Diff digestOf diffBase post (Some (rs_Allowed r));
                 kept = filterDiffable r (fst d);
                 reason2 = (case sets ''stability'' of
                     None \<Rightarrow> reason1
                   | Some stab \<Rightarrow>
                       (let drift = fst (filterDiffable r (fst (Diff digestOf post stab None))) in
                        if drift \<noteq> [] then joinSemi reason1 (driftReason (length drift))
                        else reason1)) in
             Some \<lparr>si_Coverage = (if reason2 = [] then CoverageComplete else CoverageIncomplete),
               si_Reason = reason2,
               si_BaselineDigest = Digest sha base,
               si_PreAgentDigest = (case sets ''pre-agent'' of None \<Rightarrow> [] | Some pre \<Rightarrow> Digest sha pre),
               si_PostAgentDigest = Digest sha post,
               si_StabilityDigest = (case sets ''stability'' of None \<Rightarrow> [] | Some st \<Rightarrow> Digest sha st),
               si_Violations = fst kept,
               si_AllowedChanges = snd d,
               si_DerivedChanges = snd kept\<rparr>)
        | _ \<Rightarrow> Some info))"

definition SnapshotEvaluationSummary :: "SnapshotInfo option \<Rightarrow> SnapshotSummary option" where
  "SnapshotEvaluationSummary info = map_option (\<lambda>a.
     \<lparr>sn_Coverage = si_Coverage a, sn_Reason = si_Reason a,
      sn_BaselineDigest = si_BaselineDigest a, sn_PostAgentDigest = si_PostAgentDigest a,
      sn_StabilityDigest = si_StabilityDigest a, sn_Violations = length (si_Violations a)\<rparr>) info"

section \<open>Facts\<close>

lemma joinSemi_Nil [simp]: "joinSemi a b = [] \<longleftrightarrow> a = [] \<and> b = []"
  by (auto simp: joinSemi_def)

lemma fold_unreadable_Nil:
  "fold (\<lambda>u acc. joinSemi acc (tag @ '': '' @ u)) us reason = [] \<longleftrightarrow> reason = [] \<and> us = []"
  by (induction us arbitrary: reason) auto

lemma appendUnreadable_Nil:
  "appendUnreadable tag s reason = [] \<longleftrightarrow>
     reason = [] \<and> (case s of None \<Rightarrow> True | Some x \<Rightarrow> set_Unreadable x = [])"
  by (auto simp: appendUnreadable_def fold_unreadable_Nil [simplified] split: option.splits)

definition plain_key :: "ObjKey \<Rightarrow> bool" where
  "plain_key k \<longleftrightarrow> CHR ''/'' \<notin> set (k_Kind k) \<and> CHR ''/'' \<notin> set (k_Namespace k)"

definition owned :: "runSnapshots \<Rightarrow> ObjKey \<Rightarrow> bool" where
  "owned r k \<longleftrightarrow> snapPlural (k_Kind k) \<in> rs_DiffKinds r \<or>
     k_Namespace k @ ''/'' @ snapPlural (k_Kind k) \<in> rs_ProtectedKinds r"

text \<open>Reading kind and namespace back from the printed key is exact for keys without slashes.\<close>

lemma diffable_violationOf: "plain_key k \<Longrightarrow> diffable r (violationOf dg b a k) \<longleftrightarrow> owned r k"
proof -
  assume "plain_key k"
  then have k: "CHR ''/'' \<notin> set (k_Kind k)" "CHR ''/'' \<notin> set (k_Namespace k)"
    by (simp_all add: plain_key_def)
  have obj: "v_Object (violationOf dg b a k) = k_Kind k @ CHR ''/'' # k_Namespace k @ CHR ''/'' # k_Name k"
    by (simp add: violationOf_def KeyString_def)
  have "fst (cut_at (CHR ''/'') (v_Object (violationOf dg b a k))) = k_Kind k"
    unfolding obj using cut_at_append [OF k(1)] by simp
  moreover have sp: "split_at (CHR ''/'') (v_Object (violationOf dg b a k)) =
      k_Kind k # k_Namespace k # split_at (CHR ''/'') (k_Name k)"
    unfolding obj using split_at_append k by simp
  moreover have "length (split_at (CHR ''/'') (k_Name k)) > 0" by simp
  ultimately show ?thesis by (simp add: diffable_def owned_def Let_def)
qed

lemma newRunSnapshots_fields:
  assumes "newRunSnapshots (Some pf) kc = Inr (Some r)" and "snapshotPlan pf = Some p"
  shows "rs_Allowed r = allowedKey pf (WritableScopes p)" and "rs_DiffKinds r = WritableKinds p"
    and "rs_ProtectedKinds r = ProtectedKinds p"
  using assms by (auto simp: newRunSnapshots_def Let_def split: if_splits option.splits)

lemma newRunSnapshots_targets:
  assumes "newRunSnapshots (Some pf) kc = Inr (Some r)" and "t \<in> set (rs_Targets r)"
  shows "tg_Namespace t \<in> set (er_Namespaces (EvidenceReaderSpec pf)) \<union> set (ag_Namespaces (Agent pf))"
  using assms by (auto simp: newRunSnapshots_def Let_def split: if_splits option.splits)

lemma snapshotPlan_Some:
  "snapshotPlan pf = Some p \<longleftrightarrow> Compile (Some pf) AgentUserName = Inr (Some p)"
  by (auto simp: snapshotPlan_def split: sum.splits option.splits)

text \<open>The checkpoint the preservation diff starts from.\<close>

definition diffAnchor :: "runSnapshots \<Rightarrow> Set option" where
  "diffAnchor r = (case map_of (rs_Sets r) ''pre-agent'' of
     None \<Rightarrow> map_of (rs_Sets r) ''baseline'' | Some pre \<Rightarrow> Some pre)"

lemma finalize_fields:
  assumes "finalize sha dg (Some r) = Some info" and "si_Coverage info \<noteq> CoverageAbsent"
  obtains base post anchor where "map_of (rs_Sets r) ''baseline'' = Some base"
    "map_of (rs_Sets r) ''post-agent'' = Some post" "diffAnchor r = Some anchor"
    "si_Violations info = filter (diffable r) (fst (Diff dg anchor post (Some (rs_Allowed r))))"
    "si_Coverage info = CoverageComplete \<longleftrightarrow> si_Reason info = []"
  using assms
  by (auto simp: finalize_def Let_def diffAnchor_def filterDiffable_def split: option.splits if_splits)

lemma finalize_complete:
  assumes "finalize sha dg (Some r) = Some info" and "si_Coverage info = CoverageComplete"
  shows "\<forall>name\<in>{''baseline'', ''pre-agent'', ''post-agent'', ''stability''}.
      \<forall>s. map_of (rs_Sets r) name = Some s \<longrightarrow> set_Unreadable s = []"
    and "map_of (rs_Sets r) ''stability'' = Some stab \<Longrightarrow> map_of (rs_Sets r) ''post-agent'' = Some post \<Longrightarrow>
      filter (diffable r) (fst (Diff dg post stab None)) = []"
  using assms
  by (auto simp: finalize_def Let_def filterDiffable_def appendUnreadable_Nil driftReason_def
      split: option.splits if_splits)

section \<open>Properties\<close>

text \<open>
  Complete state evidence without violations means the state was preserved. Every captured
  checkpoint was readable; no object of a kind the diff owns differs between the anchor and the
  post-agent checkpoint unless the grants allow it to; and none of them was still moving
  between the post-agent and the stability checkpoint.
\<close>

theorem clean_snapshot_means_preserved:
  assumes "finalize sha dg (Some r) = Some info"
    and "si_Coverage info = CoverageComplete" and "si_Violations info = []"
    and "plain_key k" and "owned r k"
  shows "\<exists>anchor post. diffAnchor r = Some anchor \<and> map_of (rs_Sets r) ''post-agent'' = Some post \<and>
    set_Unreadable anchor = [] \<and> set_Unreadable post = [] \<and>
    (\<not> changed anchor post k \<or> rs_Allowed r k) \<and>
    (case map_of (rs_Sets r) ''stability'' of None \<Rightarrow> True | Some stab \<Rightarrow> \<not> changed post stab k)"
proof -
  have "si_Coverage info \<noteq> CoverageAbsent" using assms(2) by simp
  then obtain base post anchor where f: "map_of (rs_Sets r) ''baseline'' = Some base"
    "map_of (rs_Sets r) ''post-agent'' = Some post" "diffAnchor r = Some anchor"
    "si_Violations info = filter (diffable r) (fst (Diff dg anchor post (Some (rs_Allowed r))))"
    using finalize_fields [OF assms(1)] by metis
  note c = finalize_complete [OF assms(1,2)]
  have listed: "diffable r (violationOf dg b a k)" for b a
    using diffable_violationOf [OF assms(4)] assms(5) by simp
  have hit: "filter (diffable r) (fst (Diff dg b a al)) = [] \<Longrightarrow> \<not> changed b a k \<or> permitted al k"
    for b a al
    using listed changed_in_keys by (fastforce simp: Diff_eq filter_empty_conv)
  have "\<not> changed anchor post k \<or> rs_Allowed r k"
    using hit [of anchor post "Some (rs_Allowed r)"] f(4) assms(3) by (simp add: permitted_def)
  moreover have "set_Unreadable anchor = []" "set_Unreadable post = []"
    using c(1) f by (auto simp: diffAnchor_def split: option.splits)
  moreover have "\<not> changed post stab k" if "map_of (rs_Sets r) ''stability'' = Some stab" for stab
    using hit [OF c(2) [OF that f(2)]] by (simp add: permitted_def)
  ultimately show ?thesis using f by (auto split: option.splits)
qed

lemma finalize_lists_protected:
  assumes "newRunSnapshots (Some pf) kc = Inr (Some r0)" and "snapshotPlan pf = Some p"
    and "r = r0\<lparr>rs_Sets := sets\<rparr>"
    and "finalize sha dg (Some r) = Some info" and "si_Coverage info \<noteq> CoverageAbsent"
    and "pr \<in> set (Protected pf)" and "plain_key k"
    and "(pt_Resource pr, pt_Namespace pr, pt_Name pr) =
      (snapPlural (k_Kind k), k_Namespace k, k_Name k)"
    and "diffAnchor r = Some anchor" and "map_of sets ''post-agent'' = Some post"
    and "changed anchor post k"
  shows "violationOf dg anchor post k \<in> set (si_Violations info)"
proof -
  note f = newRunSnapshots_fields [OF assms(1,2)]
  have "ProtectedRefs p = map protectedRefOf (Protected pf)"
    using Compile_fields(5) snapshotPlan_Some assms(2) by metis
  then have "pt_Namespace pr @ ''/'' @ pt_Resource pr \<in> ProtectedKinds p"
    using assms(6) by (force simp: ProtectedKinds_def protectedRefOf_def)
  then have own: "owned r k" using f(3) assms(3,8) by (simp add: owned_def)
  have "k_Namespace k @ ''/'' @ snapPlural (k_Kind k) @ ''/'' @ k_Name k \<in> set (protectedExact pf)"
    using assms(6,8) by (force simp: protectedExact_def)
  then have "\<not> rs_Allowed r k" using f(1) assms(3) by (simp add: allowedKey_def Let_def)
  then have "violationOf dg anchor post k \<in> set (fst (Diff dg anchor post (Some (rs_Allowed r))))"
    using assms(11) changed_in_keys by (auto simp: Diff_eq permitted_def)
  moreover obtain anchor' post' where "diffAnchor r = Some anchor'"
      "map_of (rs_Sets r) ''post-agent'' = Some post'"
      "si_Violations info = filter (diffable r) (fst (Diff dg anchor' post' (Some (rs_Allowed r))))"
    using finalize_fields [OF assms(4,5)] by metis
  ultimately show ?thesis
    using assms(3,9,10) own diffable_violationOf [OF assms(7)] by simp
qed


section \<open>Witnesses\<close>

text \<open>The demonstration profile with an evidence reader and a protected deployment.\<close>

definition snap_profile :: AuthorityProfile where
  "snap_profile = demo_profile\<lparr>
     Protected := [\<lparr>pt_APIGroup = ''apps'', pt_Resource = ''deployments'', pt_Namespace = ''bench'',
                    pt_Name = ''web''\<rparr>],
     EvidenceReaderSpec := \<lparr>er_Namespaces = [''bench''], er_Resources = [''deployments'', ''events''],
                            er_Extra = []\<rparr>\<rparr>"

definition snap_run :: runSnapshots where
  "snap_run = (case newRunSnapshots (Some snap_profile) ''/kc'' of Inr (Some r) \<Rightarrow> r
     | _ \<Rightarrow> \<lparr>rs_Targets = [], rs_Allowed = (\<lambda>_. False), rs_DiffKinds = {}, rs_ProtectedKinds = {},
            rs_Sets = []\<rparr>)"

definition snap_set :: "string \<Rightarrow> Set" where
  "snap_set img = \<lparr>set_Name = ''s'', set_Objects =
     [(demo_key, JObj [(''spec'', JStr img)])], set_Unreadable = []\<rparr>"

definition snap_sets :: "string \<Rightarrow> (string \<times> Set) list" where
  "snap_sets img = [(''baseline'', snap_set ''a''), (''post-agent'', snap_set img),
     (''stability'', snap_set img)]"

definition snap_info :: "string \<Rightarrow> SnapshotInfo" where
  "snap_info img =
     the (finalize (\<lambda>_. ''d'') (\<lambda>_. ''d'') (Some (snap_run\<lparr>rs_Sets := snap_sets img\<rparr>)))"

lemma snap_finalize:
  "finalize (\<lambda>_. ''d'') (\<lambda>_. ''d'') (Some (snap_run\<lparr>rs_Sets := snap_sets ''a''\<rparr>)) =
     Some (snap_info ''a'')"
  "si_Coverage (snap_info ''a'') = CoverageComplete" "si_Violations (snap_info ''a'') = []"
  "finalize (\<lambda>_. ''d'') (\<lambda>_. ''d'') (Some (snap_run\<lparr>rs_Sets := snap_sets ''b''\<rparr>)) =
     Some (snap_info ''b'')"
  "si_Coverage (snap_info ''b'') = CoverageComplete"
  by code_simp+

lemma snap_new: "newRunSnapshots (Some snap_profile) ''/kc'' = Inr (Some snap_run)"
proof -
  have "case newRunSnapshots (Some snap_profile) ''/kc'' of Inr (Some _) \<Rightarrow> True | _ \<Rightarrow> False"
    by code_simp
  then show ?thesis by (auto simp: snap_run_def split: sum.splits option.splits)
qed

lemma snap_plan: "snapshotPlan snap_profile = Some (the (snapshotPlan snap_profile))"
proof -
  have "snapshotPlan snap_profile \<noteq> None" by code_simp
  then show ?thesis by simp
qed

theorem clean_snapshot_means_preserved_witness:
  "\<exists>anchor post. diffAnchor (snap_run\<lparr>rs_Sets := snap_sets ''a''\<rparr>) = Some anchor \<and>
     \<not> changed anchor post demo_key"
proof -
  have "plain_key demo_key" "owned (snap_run\<lparr>rs_Sets := snap_sets ''a''\<rparr>) demo_key"
    "\<not> rs_Allowed (snap_run\<lparr>rs_Sets := snap_sets ''a''\<rparr>) demo_key"
    by code_simp+
  with clean_snapshot_means_preserved [OF snap_finalize(1,2,3), of demo_key] show ?thesis by blast
qed


section \<open>Kinds that do not map back\<close>

text \<open>
  Resource names whose plural is not the kind followed by s do not map back to themselves, so
  the diff does not own them although they are protected or writable.
\<close>

lemma irregular_plurals_not_owned:
  "kindGuess ''networkpolicies'' = Some ''Networkpolicy'' \<and>
   snapPlural ''NetworkPolicy'' = ''networkpolicys'' \<and>
   kindGuess ''ingresses'' = Some ''Ingress'' \<and> snapPlural ''Ingress'' = ''ingress''"
  by code_simp

text \<open>A profile with an empty reader resource passes the loader and panics here.\<close>

lemma empty_reader_resource_panics:
  "validateAuthorityProfile (Some (snap_profile\<lparr>EvidenceReaderSpec :=
     \<lparr>er_Namespaces = [''bench''], er_Resources = [[]], er_Extra = []\<rparr>\<rparr>)) = None \<and>
   isl (newRunSnapshots (Some (snap_profile\<lparr>EvidenceReaderSpec :=
     \<lparr>er_Namespaces = [''bench''], er_Resources = [[]], er_Extra = []\<rparr>\<rparr>)) ''/kc'')"
  by code_simp

end
