(* ===== verification/Verifier.thy ===== *)
theory Verifier
  imports Go_Json
begin

text \<open>
  The verifier (\<^verbatim>\<open>pkg/verifier\<close>): check verdicts, the structured assert-v2 protocol, the checkers
  and their aggregation, with the check counters of \<^verbatim>\<open>pkg/harness/metadata.go\<close>.

  A checker asks the cluster through external commands. Their outcomes are a \<open>World\<close>: the
  combined output and failure of an argument vector (\<^verbatim>\<open>kubectl\<close>, \<^verbatim>\<open>helm\<close>), the outcome of a
  \<^verbatim>\<open>bash\<close> script run with additional environment entries, and the decoding of the JSON texts the
  source decodes. In \<open>PollChecks\<close> the world changes from round to round.
\<close>

section \<open>Data\<close>

datatype CheckVerdict = CheckPass | CheckFail | CheckSkip | CheckErr

record CheckError =
  ce_Kind :: string
  ce_Message :: string

record CheckResult =
  cr_Name :: string
  cr_Type :: string
  cr_Verdict :: CheckVerdict
  cr_Message :: string
  cr_Error :: "CheckError option"

record VerifyResult =
  vr_Passed :: bool
  vr_Checks :: "CheckResult list"

definition Errored :: "VerifyResult option \<Rightarrow> CheckResult list" where
  "Errored r = (case r of None \<Rightarrow> [] | Some v \<Rightarrow> filter (\<lambda>c. cr_Verdict c = CheckErr) (vr_Checks v))"

definition countChecks :: "VerifyResult option \<Rightarrow> nat \<times> nat" where
  "countChecks r = (case r of None \<Rightarrow> (0, 0)
   | Some v \<Rightarrow> fold (\<lambda>c (passed, total). (if cr_Verdict c = CheckPass then passed + 1 else passed, total + 1))
                 (vr_Checks v) (0, 0))"

section \<open>The assert-v2 protocol\<close>

record ProtocolAssertion =
  pa_Name :: string
  pa_Passed :: bool
  pa_Observed :: string

record ProtocolError =
  pe_Kind :: string
  pe_Message :: string

record ProtocolDocument =
  pd_Status :: string
  pd_Assertions :: "ProtocolAssertion list"
  pd_Error :: "ProtocolError option"

datatype protocol_error =
    StatusWithErrorMember string
  | PassWithZeroAssertions
  | AssertionWithoutName
  | FailWithoutFailedAssertion
  | PassWithFailedAssertion string
  | ErrorWithoutMember
  | UnknownErrorKind string
  | UnknownStatus string

definition scriptErrorKinds :: "string list" where
  "scriptErrorKinds = [''transport'', ''timeout'', ''parse'', ''rbac'']"

definition normalizeProtocol :: "ProtocolDocument \<Rightarrow> (protocol_error, ProtocolDocument) result" where
  "normalizeProtocol doc =
     (if pd_Status doc = ''pass'' \<or> pd_Status doc = ''fail'' then
        (case first_of
           [err_if (pd_Error doc \<noteq> None) (StatusWithErrorMember (pd_Status doc)),
            err_if (pd_Status doc = ''pass'' \<and> pd_Assertions doc = []) PassWithZeroAssertions,
            first_error (\<lambda>a. err_if (trim_space (pa_Name a) = []) AssertionWithoutName) (pd_Assertions doc),
            (if pd_Status doc = ''fail''
             then err_if (list_all pa_Passed (pd_Assertions doc)) FailWithoutFailedAssertion
             else first_error (\<lambda>a. err_if (\<not> pa_Passed a) (PassWithFailedAssertion (pa_Name a)))
                    (pd_Assertions doc))]
         of Some e \<Rightarrow> Inl e | None \<Rightarrow> Inr doc)
      else if pd_Status doc = ''error'' then
        (case pd_Error doc of
           None \<Rightarrow> Inl ErrorWithoutMember
         | Some e \<Rightarrow> (if pe_Kind e \<in> set scriptErrorKinds then Inr doc
                      else Inl (UnknownErrorKind (pe_Kind e))))
      else Inl (UnknownStatus (pd_Status doc)))"

definition protocolLine :: "(string \<Rightarrow> ProtocolDocument option) \<Rightarrow> string \<Rightarrow> ProtocolDocument option" where
  "protocolLine unmarshal line =
     (let t = trim_space line in
      if t = [] \<or> \<not> has_prefix t ''{'' then None
      else (case unmarshal t of
          None \<Rightarrow> None
        | Some candidate \<Rightarrow>
            (if pd_Status candidate = [] then None
             else (case normalizeProtocol candidate of Inl _ \<Rightarrow> None | Inr d \<Rightarrow> Some d))))"

text \<open>The loop runs from the last line to the first and stops at the first acceptable one.\<close>

fun lastProtocolLine ::
  "(string \<Rightarrow> ProtocolDocument option) \<Rightarrow> string list \<Rightarrow> ProtocolDocument option" where
  "lastProtocolLine unmarshal [] = None"
| "lastProtocolLine unmarshal (l # ls) = (case protocolLine unmarshal l of
     Some d \<Rightarrow> Some d | None \<Rightarrow> lastProtocolLine unmarshal ls)"

definition ParseProtocolOutput ::
  "(string \<Rightarrow> ProtocolDocument option) \<Rightarrow> string \<Rightarrow> ProtocolDocument option" where
  "ParseProtocolOutput unmarshal out = lastProtocolLine unmarshal (rev (split_at (CHR 0x0A) out))"

section \<open>Checkers\<close>

record deploymentStatus =
  ds_Generation :: int
  ds_Replicas :: int
  ds_ObservedGeneration :: int
  ds_UpdatedReplicas :: int
  ds_ReadyReplicas :: int
  ds_AvailableReplicas :: int
  ds_UnavailableReplicas :: int

record ScriptOutcome =
  so_Out :: string
  so_ExitCode :: int
  so_ErrText :: string
  so_CtxErr :: bool

record World =
  run_cmd :: "string list \<Rightarrow> string \<times> bool"
  run_script :: "string \<Rightarrow> string list \<Rightarrow> ScriptOutcome"
  decode_deployment :: "string \<Rightarrow> (string, deploymentStatus) result"
  decode_protocol :: "string \<Rightarrow> ProtocolDocument option"

datatype Checker =
    DeploymentReadyCheck string string
  | ServiceEndpointsCheck string string
  | ServiceReachableCheck string string string
  | HelmReleaseCheck string string
  | ResourceExistsCheck string string string
  | ArgoCDAppHealthyCheck string
  | CommandSucceedsCheck string string "string list"
  | AssertV2Check string string "string list"

definition deploymentReadyMessage :: "deploymentStatus \<Rightarrow> string" where
  "deploymentReadyMessage d =
     (if ds_Replicas d \<le> 0 then ''replicas: spec='' @ int_text (ds_Replicas d)
      else if ds_ObservedGeneration d < ds_Generation d then
        ''deployment generation not observed yet: observed='' @ int_text (ds_ObservedGeneration d) @
        '' generation='' @ int_text (ds_Generation d)
      else if ds_UpdatedReplicas d \<noteq> ds_Replicas d then
        ''updated replicas: '' @ int_text (ds_UpdatedReplicas d) @ ''/'' @ int_text (ds_Replicas d)
      else if ds_ReadyReplicas d \<noteq> ds_Replicas d then
        ''ready replicas: '' @ int_text (ds_ReadyReplicas d) @ ''/'' @ int_text (ds_Replicas d)
      else if ds_AvailableReplicas d \<noteq> ds_Replicas d then
        ''available replicas: '' @ int_text (ds_AvailableReplicas d) @ ''/'' @ int_text (ds_Replicas d)
      else if ds_UnavailableReplicas d \<noteq> 0 then
        ''unavailable replicas: '' @ int_text (ds_UnavailableReplicas d)
      else [])"

definition truncateTail :: "string \<Rightarrow> nat \<Rightarrow> string" where
  "truncateTail s limit =
     (if length s \<le> limit then s else [CHR 0xE2, CHR 0x80, CHR 0xA6] @ drop (length s - limit) s)"

definition firstNonEmptyString :: "string list \<Rightarrow> string" where
  "firstNonEmptyString vals = (case find (\<lambda>v. trim_space v \<noteq> []) vals of Some v \<Rightarrow> v | None \<Rightarrow> [])"

definition behavioral :: "string \<Rightarrow> string \<Rightarrow> CheckVerdict \<Rightarrow> string \<Rightarrow> CheckResult" where
  "behavioral name typ v msg =
     \<lparr>cr_Name = name, cr_Type = typ, cr_Verdict = v, cr_Message = msg, cr_Error = None\<rparr>"

definition errorResult :: "string \<Rightarrow> string \<Rightarrow> string \<Rightarrow> string \<Rightarrow> string \<Rightarrow> CheckResult" where
  "errorResult name typ kind msg detail =
     (let m = (if detail \<noteq> [] then trim_space (msg @ [CHR 0x0A] @ detail) else msg) in
      \<lparr>cr_Name = name, cr_Type = typ, cr_Verdict = CheckErr, cr_Message = m,
       cr_Error = Some \<lparr>ce_Kind = kind, ce_Message = m\<rparr>\<rparr>)"

definition assertionLine :: "ProtocolAssertion \<Rightarrow> string" where
  "assertionLine a = (if pa_Passed a then ''PASS'' else ''FAIL'') @ '' '' @ pa_Name a @
     (if pa_Observed a \<noteq> [] then '' (observed: '' @ truncateTail (pa_Observed a) 200 @ '')'' else [])"

definition renderAssertions :: "ProtocolDocument \<Rightarrow> string" where
  "renderAssertions doc = join (map assertionLine (pd_Assertions doc)) [CHR 0x0A]"

definition isClusterScoped :: "string \<Rightarrow> bool" where
  "isClusterScoped kind \<longleftrightarrow> to_lower kind \<in>
     set [''namespace'', ''node'', ''persistentvolume'', ''clusterrole'', ''clusterrolebinding'']"

definition checkDeployment :: "World \<Rightarrow> string \<Rightarrow> string \<Rightarrow> string \<Rightarrow> CheckResult" where
  "checkDeployment w kubeconfig ns name =
     (let nm = ''deployment-ready/'' @ ns @ ''/'' @ name; ty = ''deployment-ready'' in
      case run_cmd w [''kubectl'', ''--kubeconfig'', kubeconfig, ''get'', ''deployment'', name, ''-n'', ns,
                      ''-o'', ''json''] of (out, failed) \<Rightarrow>
        if failed then behavioral nm ty CheckFail out
        else (case decode_deployment w out of
            Inl err \<Rightarrow> behavioral nm ty CheckFail (''parse deployment status: '' @ err)
          | Inr d \<Rightarrow>
              (if deploymentReadyMessage d \<noteq> [] then behavioral nm ty CheckFail (deploymentReadyMessage d)
               else behavioral nm ty CheckPass [])))"

definition checkOutput ::
  "World \<Rightarrow> string \<Rightarrow> string \<Rightarrow> string list \<Rightarrow> (string \<Rightarrow> string) \<Rightarrow> (string \<Rightarrow> string option) \<Rightarrow> CheckResult" where
  "checkOutput w nm ty argv onError judge = (case run_cmd w argv of (out, failed) \<Rightarrow>
     if failed then behavioral nm ty CheckFail (onError out)
     else (case judge out of
         Some msg \<Rightarrow> behavioral nm ty CheckFail msg
       | None \<Rightarrow> behavioral nm ty CheckPass []))"

definition needsOutput :: "string \<Rightarrow> string \<Rightarrow> string option" where
  "needsOutput msg out = (if trim_space out = [] then Some msg else None)"

definition checkCommand :: "World \<Rightarrow> string \<Rightarrow> string \<Rightarrow> string list \<Rightarrow> CheckResult" where
  "checkCommand w nm command env =
     (let name = ''command-succeeds/'' @ nm; ty = ''command-succeeds'';
          o' = run_script w command env in
      if so_ExitCode o' = 0 then behavioral name ty CheckPass (so_Out o')
      else if so_ExitCode o' = 1 then behavioral name ty CheckFail (so_Out o')
      else
        (let detail = trim_space (so_Out o') in
         if so_ExitCode o' < 0 then
           (let d = firstNonEmptyString [detail, so_ErrText o'] in
            \<lparr>cr_Name = name, cr_Type = ty, cr_Verdict = CheckErr, cr_Message = d,
             cr_Error = Some \<lparr>ce_Kind = ''transport'',
               ce_Message = ''verifier command could not run: '' @ d\<rparr>\<rparr>)
         else
           \<lparr>cr_Name = name, cr_Type = ty, cr_Verdict = CheckErr, cr_Message = detail,
            cr_Error = Some \<lparr>ce_Kind = ''exit-code'',
              ce_Message = ''verifier exited '' @ int_text (so_ExitCode o') @ '': '' @ detail\<rparr>\<rparr>))"

definition checkAssertV2 :: "World \<Rightarrow> string \<Rightarrow> string \<Rightarrow> string list \<Rightarrow> CheckResult" where
  "checkAssertV2 w nm command env =
     (let name = ''assert-v2/'' @ nm; ty = ''assert-v2''; o' = run_script w command env in
      if so_CtxErr o' \<and> so_ExitCode o' < 0 then
        errorResult name ty ''timeout'' ''assert-v2 script timed out'' (truncateTail (so_Out o') 2048)
      else (case ParseProtocolOutput (decode_protocol w) (so_Out o') of
          None \<Rightarrow>
            (if so_ExitCode o' < 0 \<or> so_ExitCode o' = 127 then
               errorResult name ty ''transport'' (''assert-v2 script could not run (exit '' @
                 int_text (so_ExitCode o') @ ''): '' @ so_ErrText o') (truncateTail (so_Out o') 2048)
             else errorResult name ty ''parse'' ''no parseable protocol document on stdout''
                    (truncateTail (so_Out o') 2048))
        | Some doc \<Rightarrow>
            (if pd_Status doc = ''error'' then
               (case pd_Error doc of
                  Some e \<Rightarrow> errorResult name ty (pe_Kind e) (pe_Message e) []
                | None \<Rightarrow> errorResult name ty [] [] [])
             else if pd_Status doc = ''pass'' then behavioral name ty CheckPass (renderAssertions doc)
             else behavioral name ty CheckFail (renderAssertions doc))))"

fun Check :: "World \<Rightarrow> string \<Rightarrow> Checker \<Rightarrow> CheckResult" where
  "Check w kc (DeploymentReadyCheck ns name) = checkDeployment w kc ns name"
| "Check w kc (ServiceEndpointsCheck ns name) =
     checkOutput w (''service-endpoints/'' @ ns @ ''/'' @ name) ''service-endpoints''
       [''kubectl'', ''--kubeconfig'', kc, ''get'', ''endpoints'', name, ''-n'', ns, ''-o'',
        ''jsonpath={.subsets[*].addresses[*].ip}''] id (needsOutput ''no endpoints'')"
| "Check w kc (ServiceReachableCheck ns name pod) =
     checkOutput w (''service-reachable/'' @ ns @ ''/'' @ name) ''service-reachable''
       [''kubectl'', ''--kubeconfig'', kc, ''exec'', ''-n'', ns, pod, ''--'', ''wget'', ''-q'', ''-O'', ''-'',
        ''-T'', ''5'', ''http://'' @ name @ ''.'' @ ns @ ''.svc.cluster.local'']
       id (needsOutput ''empty response'')"
| "Check w kc (HelmReleaseCheck ns name) =
     checkOutput w (''helm-release/'' @ name) ''helm-release''
       ([''helm'', ''--kubeconfig'', kc, ''status'', name, ''-o'', ''json''] @
        (if ns \<noteq> [] then [''-n'', ns] else [])) id
       (\<lambda>out. if str_contains out ([CHR 0x22] @ ''status'' @ [CHR 0x22] @ '':'' @ [CHR 0x22] @ ''deployed'' @ [CHR 0x22])
              then None else Some ''release not in deployed state'')"
| "Check w kc (ResourceExistsCheck ns name kind) =
     checkOutput w (''resource-exists/'' @ kind @ ''/'' @ ns @ ''/'' @ name) ''resource-exists''
       ([''kubectl'', ''--kubeconfig'', kc, ''get'', kind, name] @
        (if isClusterScoped kind then [] else [''-n'', ns]) @ [''-o'', ''name''])
       trim_space (needsOutput ''resource not found'')"
| "Check w kc (ArgoCDAppHealthyCheck name) =
     checkOutput w (''argocd-app-healthy/'' @ name) ''argocd-app-healthy''
       [''kubectl'', ''--kubeconfig'', kc, ''get'', ''application'', name, ''-n'', ''argocd'', ''-o'',
        ''jsonpath={.status.health.status}/{.status.sync.status}''] id
       (\<lambda>out. if trim_space out = ''Healthy/Synced'' then None else Some (''status: '' @ trim_space out))"
| "Check w kc (CommandSucceedsCheck name command env) = checkCommand w name command env"
| "Check w kc (AssertV2Check name command env) = checkAssertV2 w name command env"

text \<open>Checkers that spawn scripts take the additional environment of the invocation.\<close>

fun AugmentEnv :: "string list \<Rightarrow> Checker \<Rightarrow> Checker" where
  "AugmentEnv env (CommandSucceedsCheck name command _) = CommandSucceedsCheck name command env"
| "AugmentEnv env (AssertV2Check name command _) = AssertV2Check name command env"
| "AugmentEnv env c = c"

definition RunChecks :: "World \<Rightarrow> string \<Rightarrow> Checker list \<Rightarrow> string list \<Rightarrow> VerifyResult" where
  "RunChecks w kc checkers extraEnv = fold (\<lambda>c result.
     let c' = (if extraEnv \<noteq> [] then AugmentEnv extraEnv c else c);
         cr = Check w kc c' in
     \<lparr>vr_Passed = (if cr_Verdict cr = CheckFail \<or> cr_Verdict cr = CheckErr then False else vr_Passed result),
      vr_Checks = vr_Checks result @ [cr]\<rparr>) checkers \<lparr>vr_Passed = True, vr_Checks = []\<rparr>"

text \<open>One world per round, with whether the context is done when the round ends.\<close>

fun PollChecks :: "(World \<times> bool) list \<Rightarrow> string \<Rightarrow> Checker list \<Rightarrow> VerifyResult option" where
  "PollChecks [] kc checkers = None"
| "PollChecks ((w, ctxDone) # rounds) kc checkers =
     (let result = RunChecks w kc checkers [] in
      if vr_Passed result then Some result
      else if ctxDone then Some result
      else PollChecks rounds kc checkers)"

section \<open>Building checkers\<close>

record CheckDef =
  cd_Type :: string
  cd_Namespace :: string
  cd_Name :: string
  cd_Condition :: string

datatype build_error =
    NamespaceRequired string
  | NameRequired string
  | KindRequired string
  | CommandRequired string
  | UnknownCheckType string

definition buildChecker :: "CheckDef \<Rightarrow> (build_error, Checker) result" where
  "buildChecker cd =
     (let ty = cd_Type cd; ns = cd_Namespace cd; name = cd_Name cd; cond = cd_Condition cd;
          named = (\<lambda>c extra. case first_of ([err_if (ns = []) (NamespaceRequired ty),
                     err_if (name = []) (NameRequired ty)] @ extra) of Some e \<Rightarrow> Inl e | None \<Rightarrow> Inr c) in
      if ty = ''deployment-ready'' then named (DeploymentReadyCheck ns name) []
      else if ty = ''service-endpoints'' then named (ServiceEndpointsCheck ns name) []
      else if ty = ''service-reachable'' then
        named (ServiceReachableCheck ns name (if cond = [] then ''net-client'' else cond)) []
      else if ty = ''helm-release'' then
        (if name = [] then Inl (NameRequired ty) else Inr (HelmReleaseCheck ns name))
      else if ty = ''argocd-app-healthy'' then
        (if name = [] then Inl (NameRequired ty) else Inr (ArgoCDAppHealthyCheck name))
      else if ty = ''resource-exists'' then
        named (ResourceExistsCheck ns name cond) [err_if (cond = []) (KindRequired ty)]
      else if ty = ''command-succeeds'' then
        (if cond = [] then Inl (CommandRequired ty) else Inr (CommandSucceedsCheck name cond []))
      else if ty = ''assert-v2'' then
        (if cond = [] then Inl (CommandRequired ty) else Inr (AssertV2Check name cond []))
      else Inl (UnknownCheckType ty))"

fun BuildCheckers :: "CheckDef list \<Rightarrow> (build_error, Checker list) result" where
  "BuildCheckers [] = Inr []"
| "BuildCheckers (cd # cds) = (case buildChecker cd of
     Inl e \<Rightarrow> Inl e
   | Inr c \<Rightarrow> (case BuildCheckers cds of Inl e \<Rightarrow> Inl e | Inr cs \<Rightarrow> Inr (c # cs)))"

section \<open>Facts\<close>

lemma normalizeProtocol_Inr_iff:
  "normalizeProtocol doc = Inr d \<longleftrightarrow> d = doc \<and>
     (pd_Status doc = ''pass'' \<and> pd_Error doc = None \<and> pd_Assertions doc \<noteq> [] \<and>
        (\<forall>a\<in>set (pd_Assertions doc). trim_space (pa_Name a) \<noteq> [] \<and> pa_Passed a) \<or>
      pd_Status doc = ''fail'' \<and> pd_Error doc = None \<and>
        (\<forall>a\<in>set (pd_Assertions doc). trim_space (pa_Name a) \<noteq> []) \<and>
        (\<exists>a\<in>set (pd_Assertions doc). \<not> pa_Passed a) \<or>
      pd_Status doc = ''error'' \<and>
        (\<exists>e. pd_Error doc = Some e \<and> pe_Kind e \<in> set scriptErrorKinds))"
proof -
  have fo: "(case first_of es of Some e \<Rightarrow> Inl e | None \<Rightarrow> Inr doc) = Inr d \<longleftrightarrow>
      d = doc \<and> (\<forall>e\<in>set es. e = None)" for es :: "protocol_error option list"
    by (metis first_of_None_iff not_None_eq option.simps(4,5) sum.distinct(1) sum.inject(2))
  consider "pd_Status doc = ''pass''" | "pd_Status doc = ''fail''" | "pd_Status doc = ''error''" |
    "pd_Status doc \<notin> {''pass'', ''fail'', ''error''}" by auto
  then show ?thesis
  proof cases
    case 1
    then show ?thesis by (auto simp: normalizeProtocol_def fo)
  next
    case 2
    then show ?thesis by (auto simp: normalizeProtocol_def fo list_all_iff)
  next
    case 3
    then show ?thesis by (auto simp: normalizeProtocol_def split: option.splits)
  next
    case 4
    then show ?thesis by (simp add: normalizeProtocol_def)
  qed
qed

lemma protocolLine_Some:
  "protocolLine u l = Some d \<Longrightarrow> u (trim_space l) = Some d \<and> normalizeProtocol d = Inr d"
  by (auto simp: protocolLine_def Let_def normalizeProtocol_Inr_iff split: if_splits option.splits sum.splits)

lemma lastProtocolLine_Some:
  "lastProtocolLine u ls = Some d \<longleftrightarrow>
     (\<exists>pre l post. ls = pre @ l # post \<and> protocolLine u l = Some d \<and>
        (\<forall>x\<in>set pre. protocolLine u x = None))"
proof (induction ls)
  case (Cons l ls)
  show ?case
  proof (cases "protocolLine u l")
    case None
    then have "lastProtocolLine u (l # ls) = Some d \<longleftrightarrow> (\<exists>pre x post. ls = pre @ x # post \<and>
        protocolLine u x = Some d \<and> (\<forall>y\<in>set pre. protocolLine u y = None))"
      using Cons by simp
    also have "\<dots> \<longleftrightarrow> (\<exists>pre x post. l # ls = pre @ x # post \<and> protocolLine u x = Some d \<and>
        (\<forall>y\<in>set pre. protocolLine u y = None))" (is "?A \<longleftrightarrow> ?B")
    proof
      assume ?A
      then obtain pre x post where "ls = pre @ x # post" "protocolLine u x = Some d"
        "\<forall>y\<in>set pre. protocolLine u y = None" by blast
      with None show ?B
        by (intro exI [of _ "l # pre"] exI [of _ x] exI [of _ post]) simp
    next
      assume ?B
      then obtain pre x post where "l # ls = pre @ x # post" "protocolLine u x = Some d"
        "\<forall>y\<in>set pre. protocolLine u y = None" by blast
      with None show ?A by (cases pre) auto
    qed
    finally show ?thesis .
  next
    case (Some d')
    show ?thesis
    proof
      assume "lastProtocolLine u (l # ls) = Some d"
      with Some have "protocolLine u l = Some d" by simp
      then show "\<exists>pre x post. l # ls = pre @ x # post \<and> protocolLine u x = Some d \<and>
          (\<forall>y\<in>set pre. protocolLine u y = None)"
        by (intro exI [of _ "[]"] exI [of _ l] exI [of _ ls]) simp
    qed (use Some in \<open>auto simp: Cons_eq_append_conv\<close>)
  qed
qed simp

lemma behavioral_fields [simp]:
  "cr_Error (behavioral n t v m) = None" "cr_Verdict (behavioral n t v m) = v"
  by (simp_all add: behavioral_def)

lemma errorResult_fields [simp]:
  "cr_Error (errorResult n t k m d) =
     Some \<lparr>ce_Kind = k, ce_Message = cr_Message (errorResult n t k m d)\<rparr>"
  "cr_Verdict (errorResult n t k m d) = CheckErr"
  by (simp_all add: errorResult_def Let_def)

lemma RunChecks_eq:
  "RunChecks w kc cs env =
     (let rs = map (\<lambda>c. Check w kc (if env \<noteq> [] then AugmentEnv env c else c)) cs in
      \<lparr>vr_Passed = list_all (\<lambda>r. cr_Verdict r \<noteq> CheckFail \<and> cr_Verdict r \<noteq> CheckErr) rs, vr_Checks = rs\<rparr>)"
proof -
  let ?ck = "\<lambda>c. Check w kc (if env \<noteq> [] then AugmentEnv env c else c)"
  have "fold (\<lambda>c result.
      let c' = (if env \<noteq> [] then AugmentEnv env c else c); cr = Check w kc c' in
      \<lparr>vr_Passed = (if cr_Verdict cr = CheckFail \<or> cr_Verdict cr = CheckErr then False else vr_Passed result),
       vr_Checks = vr_Checks result @ [cr]\<rparr>) cs r =
    \<lparr>vr_Passed = (vr_Passed r \<and> list_all (\<lambda>x. cr_Verdict x \<noteq> CheckFail \<and> cr_Verdict x \<noteq> CheckErr) (map ?ck cs)),
     vr_Checks = vr_Checks r @ map ?ck cs\<rparr>" for r
    by (induction cs arbitrary: r) (auto simp: Let_def)
  then show ?thesis by (simp add: RunChecks_def Let_def)
qed

lemma countChecks_eq:
  "countChecks (Some v) = (length (filter (\<lambda>c. cr_Verdict c = CheckPass) (vr_Checks v)), length (vr_Checks v))"
proof -
  have "fold (\<lambda>c (passed, total). (if cr_Verdict c = CheckPass then passed + 1 else passed, total + 1)) cs (p, t) =
      (p + length (filter (\<lambda>c. cr_Verdict c = CheckPass) cs), t + length cs)"
    for cs :: "CheckResult list" and p t :: nat
    by (induction cs arbitrary: p t) auto
  then show ?thesis by (simp add: countChecks_def)
qed

lemma deploymentReadyMessage_Nil:
  "deploymentReadyMessage d = [] \<longleftrightarrow>
     0 < ds_Replicas d \<and> ds_Generation d \<le> ds_ObservedGeneration d \<and>
     ds_UpdatedReplicas d = ds_Replicas d \<and> ds_ReadyReplicas d = ds_Replicas d \<and>
     ds_AvailableReplicas d = ds_Replicas d \<and> ds_UnavailableReplicas d = 0"
  by (auto simp: deploymentReadyMessage_def)

lemma verdict_ok_iff: "v \<noteq> CheckFail \<and> v \<noteq> CheckErr \<longleftrightarrow> v = CheckPass \<or> v = CheckSkip"
  by (cases v) auto

lemma pass_and_skip_counts:
  "\<forall>r\<in>set rs. cr_Verdict r = CheckPass \<or> cr_Verdict r = CheckSkip \<Longrightarrow>
     length (filter (\<lambda>c. cr_Verdict c = CheckPass) rs) +
     length (filter (\<lambda>c. cr_Verdict c = CheckSkip) rs) = length rs"
  by (induction rs) auto

lemma RunChecks_passed:
  "vr_Passed (RunChecks w kc cs env) \<longleftrightarrow>
     (\<forall>r\<in>set (vr_Checks (RunChecks w kc cs env)). cr_Verdict r = CheckPass \<or> cr_Verdict r = CheckSkip)"
  by (simp add: RunChecks_eq Let_def list_all_iff verdict_ok_iff)

section \<open>Properties\<close>

text \<open>
  A verification passes exactly when no check failed and none could not be evaluated; it
  reports one result per checker in order, and a passing one has no errored check and as many
  passed checks as there are checks that were not skipped.
\<close>

theorem verification_passes_iff:
  "(vr_Passed (RunChecks w kc cs env) \<longleftrightarrow>
      set (map cr_Verdict (vr_Checks (RunChecks w kc cs env))) \<subseteq> {CheckPass, CheckSkip}) \<and>
   length (vr_Checks (RunChecks w kc cs env)) = length cs \<and>
   (\<not> vr_Passed (RunChecks w kc cs env) \<or> Errored (Some (RunChecks w kc cs env)) = [] \<and>
      fst (countChecks (Some (RunChecks w kc cs env))) +
      length (filter (\<lambda>c. cr_Verdict c = CheckSkip) (vr_Checks (RunChecks w kc cs env))) = length cs)"
proof -
  let ?rs = "vr_Checks (RunChecks w kc cs env)"
  have len: "length ?rs = length cs" by (simp add: RunChecks_eq Let_def)
  note passed = RunChecks_passed [of w kc cs env]
  have "Errored (Some (RunChecks w kc cs env)) = []" if "vr_Passed (RunChecks w kc cs env)"
    using that passed by (auto simp: Errored_def filter_empty_conv)
  moreover have "vr_Passed (RunChecks w kc cs env) \<longleftrightarrow> set (map cr_Verdict ?rs) \<subseteq> {CheckPass, CheckSkip}"
    unfolding passed by auto
  ultimately show ?thesis
    using passed pass_and_skip_counts [of ?rs] len by (simp add: countChecks_eq)
qed

text \<open>
  The error member of a check result is set exactly when the check could not be evaluated,
  for every checker and whatever the cluster answers.
\<close>

theorem error_member_iff_errored:
  "cr_Error (Check w kc c) \<noteq> None \<longleftrightarrow> cr_Verdict (Check w kc c) = CheckErr"
  by (cases c)
    (auto simp: checkDeployment_def checkOutput_def checkCommand_def checkAssertV2_def Let_def
      split: prod.splits sum.splits option.splits)

text \<open>
  An accepted protocol document is consistent: it is the decoding of the last acceptable line
  of the output; a passing one has assertions and all of them passed, a failing one has a failed
  assertion, an erroneous one carries an error of a legal kind.
\<close>

theorem protocol_document_consistent:
  assumes "ParseProtocolOutput u out = Some d"
  shows "(\<exists>pre l post. split_at (CHR 0x0A) out = pre @ l # post \<and> u (trim_space l) = Some d \<and>
      (\<forall>x\<in>set post. protocolLine u x = None)) \<and>
    (pd_Status d = ''pass'' \<and> pd_Assertions d \<noteq> [] \<and> list_all pa_Passed (pd_Assertions d) \<and> pd_Error d = None \<or>
     pd_Status d = ''fail'' \<and> \<not> list_all pa_Passed (pd_Assertions d) \<and> pd_Error d = None \<or>
     pd_Status d = ''error'' \<and> (\<exists>e. pd_Error d = Some e \<and> pe_Kind e \<in> set scriptErrorKinds))"
proof -
  from assms obtain pre l post where l: "rev (split_at (CHR 0x0A) out) = pre @ l # post"
      "protocolLine u l = Some d" "\<forall>x\<in>set pre. protocolLine u x = None"
    unfolding ParseProtocolOutput_def lastProtocolLine_Some by blast
  from arg_cong [OF l(1), of rev] have "split_at (CHR 0x0A) out = rev post @ l # rev pre"
    by simp
  moreover have "u (trim_space l) = Some d" "normalizeProtocol d = Inr d"
    using protocolLine_Some [OF l(2)] by simp_all
  ultimately show ?thesis
    using l(3) unfolding normalizeProtocol_Inr_iff list_all_iff
    by (intro conjI exI [of _ "rev post"] exI [of _ l] exI [of _ "rev pre"]) auto
qed

text \<open>
  An assert-v2 check passes only on evidence: a consistent document all of whose assertions
  passed, whatever exit code the script returned.
\<close>

theorem assert_v2_pass_needs_document:
  assumes "cr_Verdict (Check w kc (AssertV2Check name command env)) = CheckPass"
  shows "\<exists>doc. ParseProtocolOutput (decode_protocol w) (so_Out (run_script w command env)) = Some doc \<and>
    pd_Assertions doc \<noteq> [] \<and> list_all pa_Passed (pd_Assertions doc)"
proof -
  from assms obtain doc where doc: "pd_Status doc = ''pass''"
      "ParseProtocolOutput (decode_protocol w) (so_Out (run_script w command env)) = Some doc"
    by (auto simp: checkAssertV2_def Let_def split: if_splits option.splits)
  obtain l where "protocolLine (decode_protocol w) l = Some doc"
    using doc(2) unfolding ParseProtocolOutput_def lastProtocolLine_Some by blast
  then have "normalizeProtocol doc = Inr doc" using protocolLine_Some by blast
  with doc show ?thesis by (auto simp: normalizeProtocol_Inr_iff list_all_iff)
qed

text \<open>
  A cluster that cannot be asked is reported as a failed check by the built-in checkers, not
  as a check that could not be evaluated.
\<close>

lemma transport_fault_is_a_failure:
  assumes "snd (run_cmd w [''kubectl'', ''--kubeconfig'', kc, ''get'', ''deployment'', name, ''-n'', ns,
    ''-o'', ''json''])"
  shows "cr_Verdict (Check w kc (DeploymentReadyCheck ns name)) = CheckFail"
  using assms by (auto simp: checkDeployment_def Let_def split: prod.splits)

section \<open>Witnesses\<close>

definition demo_document :: ProtocolDocument where
  "demo_document = \<lparr>pd_Status = ''pass'',
     pd_Assertions = [\<lparr>pa_Name = ''ready'', pa_Passed = True, pa_Observed = []\<rparr>], pd_Error = None\<rparr>"

definition demo_world :: World where
  "demo_world = \<lparr>run_cmd = (\<lambda>_. ([], True)),
     run_script = (\<lambda>_ _. \<lparr>so_Out = ''noise'' @ [CHR 0x0A] @ ''{ok}'', so_ExitCode = 3, so_ErrText = [],
                          so_CtxErr = False\<rparr>),
     decode_deployment = (\<lambda>_. Inl []),
     decode_protocol = (\<lambda>t. if t = ''{ok}'' then Some demo_document else None)\<rparr>"

theorem protocol_document_consistent_witness:
  "list_all pa_Passed (pd_Assertions demo_document)"
proof -
  have "ParseProtocolOutput (decode_protocol demo_world) (''noise'' @ [CHR 0x0A] @ ''{ok}'') = Some demo_document"
    by code_simp
  from protocol_document_consistent [OF this] show ?thesis
    by (auto simp: demo_document_def)
qed

theorem assert_v2_pass_needs_document_witness:
  "\<exists>doc. ParseProtocolOutput (decode_protocol demo_world)
     (so_Out (run_script demo_world ''c'' [])) = Some doc \<and> pd_Assertions doc \<noteq> []"
proof -
  have "cr_Verdict (Check demo_world [] (AssertV2Check ''n'' ''c'' [])) = CheckPass" by code_simp
  from assert_v2_pass_needs_document [OF this] show ?thesis by blast
qed

theorem verification_passes_iff_witness:
  "vr_Passed (RunChecks demo_world ''kc'' [AssertV2Check ''n'' ''c'' []] []) \<and>
   fst (countChecks (Some (RunChecks demo_world ''kc'' [AssertV2Check ''n'' ''c'' []] []))) +
   length (filter (\<lambda>c. cr_Verdict c = CheckSkip)
     (vr_Checks (RunChecks demo_world ''kc'' [AssertV2Check ''n'' ''c'' []] []))) = 1"
proof -
  have "vr_Passed (RunChecks demo_world ''kc'' [AssertV2Check ''n'' ''c'' []] [])" by code_simp
  with verification_passes_iff [of demo_world "''kc''" "[AssertV2Check ''n'' ''c'' []]" "[]"]
  show ?thesis by simp
qed

end
