(* ===== verification/Evaluation_Service.thy ===== *)
theory Evaluation_Service
  imports Case_Result
begin

text \<open>
  The evaluation lifecycle (\<^verbatim>\<open>pkg/evaluation/plan.go\<close>, \<^verbatim>\<open>service.go\<close>, \<^verbatim>\<open>cleanup.go\<close>, \<^verbatim>\<open>result.go\<close>):
  a validated plan is preflighted, an environment is leased, the cases run in order, the lease
  is released, and the result is summarised into an exit code.

  The collaborators of the service are Go interfaces. Each is a function of the history of calls
  made so far, a list of \<open>call\<close> values that the model returns with the result, so any stateful
  implementation is covered and the order of calls can be stated. Contexts and timeouts act
  through the collaborators' answers. A collaborator's error has its text and whether it is
  \<^verbatim>\<open>context.Canceled\<close>; a nil interface is \<open>None\<close>. The JSON text and its SHA-256 that name a
  plan are a parameter of \<open>Fingerprint\<close>; marshalling a plan cannot fail.
\<close>

section \<open>Plans\<close>

datatype TargetKind = TargetModel | TargetAgent | TargetOther string

record CasePlan =
  cp_ID :: string

record SuitePlan =
  su_ID :: string
  su_Digest :: string
  su_Cases :: "CasePlan list"
  su_RequiredModelCapabilities :: "string list"

record EnvironmentPlan =
  ep_Provider :: string
  ep_Profile :: string

record TargetPlan =
  tp_Kind :: TargetKind
  tp_Provider :: string
  tp_Model :: string
  tp_Adapter :: string
  tp_CommandIdentity :: string
  tp_EndpointClass :: string
  tp_CredentialSource :: string
  tp_ModelDigest :: string
  tp_ParameterSize :: string
  tp_Quantization :: string
  tp_CapabilityCheck :: string

record Limits =
  li_CaseTimeout :: int
  li_MaxTurns :: int
  li_MaxTokens :: int

record OutputPolicy =
  op_Directory :: string
  op_Formats :: "string list"

record EvalPlan =
  pl_Version :: string
  pl_Suite :: SuitePlan
  pl_Environment :: EnvironmentPlan
  pl_Target :: TargetPlan
  pl_Limits :: Limits
  pl_Attempts :: int
  pl_Output :: OutputPolicy

datatype plan_error =
    SuiteIDRequired
  | SuiteDigestRequired
  | NoCases
  | CaseIDRequired nat
  | DuplicateCase string
  | ProviderRequired
  | TargetKindInvalid
  | ModelTargetIncomplete
  | AgentTargetIncomplete
  | CaseTimeoutRequired
  | AttemptsNotOne

fun validateCases :: "nat \<Rightarrow> string list \<Rightarrow> CasePlan list \<Rightarrow> plan_error option" where
  "validateCases i seen [] = None"
| "validateCases i seen (c # cs) =
     (let ident = trim_space (cp_ID c) in
      if ident = [] then Some (CaseIDRequired i)
      else if ident \<in> set seen then Some (DuplicateCase ident)
      else validateCases (Suc i) (ident # seen) cs)"

definition ValidatePlan :: "EvalPlan \<Rightarrow> plan_error option" where
  "ValidatePlan p = first_of
     [err_if (trim_space (su_ID (pl_Suite p)) = []) SuiteIDRequired,
      err_if (trim_space (su_Digest (pl_Suite p)) = []) SuiteDigestRequired,
      err_if (su_Cases (pl_Suite p) = []) NoCases,
      validateCases 0 [] (su_Cases (pl_Suite p)),
      err_if (trim_space (ep_Provider (pl_Environment p)) = []) ProviderRequired,
      err_if (tp_Kind (pl_Target p) \<noteq> TargetModel \<and> tp_Kind (pl_Target p) \<noteq> TargetAgent) TargetKindInvalid,
      err_if (tp_Kind (pl_Target p) = TargetModel \<and>
              (trim_space (tp_Provider (pl_Target p)) = [] \<or> trim_space (tp_Model (pl_Target p)) = []))
        ModelTargetIncomplete,
      err_if (tp_Kind (pl_Target p) = TargetAgent \<and> trim_space (tp_Adapter (pl_Target p)) = [])
        AgentTargetIncomplete,
      err_if (li_CaseTimeout (pl_Limits p) \<le> 0) CaseTimeoutRequired,
      err_if (pl_Attempts p \<noteq> 1) AttemptsNotOne]"

record PlanIdentity =
  id_Version :: string
  id_Suite :: SuitePlan
  id_Environment :: EnvironmentPlan
  id_Target :: TargetPlan
  id_Limits :: Limits
  id_Attempts :: int

definition PlanVersion :: string where
  "PlanVersion = ''evaluation-plan.v1''"

definition Fingerprint :: "(PlanIdentity \<Rightarrow> string) \<Rightarrow> EvalPlan \<Rightarrow> string" where
  "Fingerprint sha p = ''sha256:'' @ sha
     \<lparr>id_Version = PlanVersion, id_Suite = pl_Suite p, id_Environment = pl_Environment p,
      id_Target = pl_Target p, id_Limits = pl_Limits p, id_Attempts = pl_Attempts p\<rparr>"

section \<open>Results\<close>

definition ResultVersion :: string where
  "ResultVersion = ''evaluation-result.v4''"

record CleanupResult =
  cl_Attempted :: bool
  cl_Succeeded :: bool
  cl_Error :: string

record Summary =
  sm_Total :: nat
  sm_Passed :: nat
  sm_Failed :: nat
  sm_Unsafe :: nat
  sm_Incomplete :: nat

record EvalResult =
  rt_Version :: string
  rt_ID :: string
  rt_PlanFingerprint :: string
  rt_Suite :: SuitePlan
  rt_Environment :: EnvironmentPlan
  rt_Target :: TargetPlan
  rt_StartedAt :: int
  rt_EndedAt :: int
  rt_Termination :: Termination
  rt_Cleanup :: CleanupResult
  rt_Cases :: "CaseResult list"
  rt_Summary :: Summary

definition Summarize :: "EvalResult \<Rightarrow> Summary" where
  "Summarize r = fold (\<lambda>c s. case ca_Verdict c of
       VerdictPass \<Rightarrow> s\<lparr>sm_Passed := sm_Passed s + 1\<rparr>
     | VerdictFail \<Rightarrow> s\<lparr>sm_Failed := sm_Failed s + 1\<rparr>
     | VerdictUnsafe \<Rightarrow> s\<lparr>sm_Unsafe := sm_Unsafe s + 1\<rparr>
     | VerdictIncomplete \<Rightarrow> s\<lparr>sm_Incomplete := sm_Incomplete s + 1\<rparr>
     | VerdictNone \<Rightarrow> s) (rt_Cases r)
     \<lparr>sm_Total = length (rt_Cases r), sm_Passed = 0, sm_Failed = 0, sm_Unsafe = 0, sm_Incomplete = 0\<rparr>"

definition ExitCode :: "EvalResult \<Rightarrow> int" where
  "ExitCode r =
     (if te_Kind (rt_Termination r) \<noteq> TerminationComplete then 2
      else if cl_Attempted (rt_Cleanup r) \<and> \<not> cl_Succeeded (rt_Cleanup r) then 2
      else if sm_Incomplete (rt_Summary r) > 0 then 2
      else if sm_Failed (rt_Summary r) > 0 \<or> sm_Unsafe (rt_Summary r) > 0 then 1
      else 0)"

section \<open>The service\<close>

record call_error =
  ce_Text :: string
  ce_Canceled :: bool

datatype 'l call =
    CallNow
  | CallPreflight nat
  | CallAcquire "'l option"
  | CallExecute string
  | CallRelease 'l

datatype service_error =
    InvalidPlan plan_error
  | PreflightFailed call_error
  | MissingProvisioner
  | MissingExecutor
  | EnvironmentFailed call_error
  | NilLease
  | CaseFailed call_error
  | CleanupFailed call_error
  | Joined service_error service_error

record 'l Service =
  sv_Preflights :: "('l call list \<Rightarrow> EvalPlan \<Rightarrow> call_error option) option list"
  sv_Provisioner :: "('l call list \<Rightarrow> EvalPlan \<Rightarrow> (call_error, 'l option) result) option"
  sv_Executor :: "('l call list \<Rightarrow> EvalPlan \<Rightarrow> CasePlan \<Rightarrow> 'l \<Rightarrow> CaseResult \<times> call_error option) option"
  sv_Release :: "'l call list \<Rightarrow> 'l \<Rightarrow> call_error option"
  sv_Now :: "'l call list \<Rightarrow> int"
  sv_ID :: "string option"

type_synonym 'l outcome = "EvalResult \<times> service_error option \<times> 'l call list"

text \<open>Stamping the end of a run.\<close>

definition finish :: "'l Service \<Rightarrow> EvalResult \<Rightarrow> service_error option \<Rightarrow> 'l call list \<Rightarrow> 'l outcome" where
  "finish sv r err tr = (r\<lparr>rt_EndedAt := sv_Now sv tr\<rparr>, err, tr @ [CallNow])"

definition stop :: "'l Service \<Rightarrow> EvalResult \<Rightarrow> string \<Rightarrow> string \<Rightarrow> string \<Rightarrow> service_error \<Rightarrow> 'l call list \<Rightarrow> 'l outcome" where
  "stop sv r phase why details err tr =
     finish sv (r\<lparr>rt_Termination := \<lparr>te_Kind = TerminationIncomplete, te_Phase = phase,
       te_Reason = why, te_Details = details\<rparr>\<rparr>) (Some err) tr"

text \<open>The preflight loop: the first failing check, and the calls made.\<close>

fun runPreflights ::
  "'l Service \<Rightarrow> EvalPlan \<Rightarrow> nat \<Rightarrow> ('l call list \<Rightarrow> EvalPlan \<Rightarrow> call_error option) option list \<Rightarrow>
     'l call list \<Rightarrow> call_error option \<times> 'l call list" where
  "runPreflights sv p i [] tr = (None, tr)"
| "runPreflights sv p i (check # checks) tr = (case check of
     None \<Rightarrow> runPreflights sv p (Suc i) checks tr
   | Some f \<Rightarrow> (case f tr p of
        Some e \<Rightarrow> (Some e, tr @ [CallPreflight i])
      | None \<Rightarrow> runPreflights sv p (Suc i) checks (tr @ [CallPreflight i])))"

definition failedCase :: "call_error \<Rightarrow> Termination" where
  "failedCase e = \<lparr>te_Kind = TerminationIncomplete, te_Phase = ''execution'',
     te_Reason = ''case_execution_failed'', te_Details = ce_Text e\<rparr>"

fun executeCases ::
  "'l Service \<Rightarrow> ('l call list \<Rightarrow> EvalPlan \<Rightarrow> CasePlan \<Rightarrow> 'l \<Rightarrow> CaseResult \<times> call_error option) \<Rightarrow>
     EvalPlan \<Rightarrow> 'l \<Rightarrow> CasePlan list \<Rightarrow> EvalResult \<Rightarrow> 'l call list \<Rightarrow> 'l outcome" where
  "executeCases sv exec p lease [] r tr =
     (let r1 = r\<lparr>rt_Termination := \<lparr>te_Kind = TerminationComplete, te_Phase = [], te_Reason = [], te_Details = []\<rparr>\<rparr> in
      finish sv (r1\<lparr>rt_Summary := Summarize r1\<rparr>) None tr)"
| "executeCases sv exec p lease (c # cs) r tr =
     (case exec tr p c lease of (res0, err) \<Rightarrow>
        (let tr' = tr @ [CallExecute (cp_ID c)];
             res = (if ca_ScenarioID res0 = [] then res0\<lparr>ca_ScenarioID := cp_ID c\<rparr> else res0) in
         case err of
           None \<Rightarrow> executeCases sv exec p lease cs (r\<lparr>rt_Cases := rt_Cases r @ [res]\<rparr>) tr'
         | Some e \<Rightarrow>
             (let res1 = (if ca_Verdict res = VerdictNone then res\<lparr>ca_Verdict := VerdictIncomplete\<rparr> else res);
                  res2 = (if te_Kind (ca_Termination res1) = TerminationNone
                          then res1\<lparr>ca_Termination := failedCase e\<rparr> else res1);
                  r1 = r\<lparr>rt_Cases := rt_Cases r @ [res2],
                         rt_Termination := (if ce_Canceled e
                           then (failedCase e)\<lparr>te_Kind := TerminationCancelled\<rparr> else failedCase e)\<rparr> in
              finish sv (r1\<lparr>rt_Summary := Summarize r1\<rparr>) (Some (CaseFailed e)) tr')))"

definition ReleaseLease ::
  "'l Service \<Rightarrow> 'l option \<Rightarrow> 'l call list \<Rightarrow> CleanupResult \<times> call_error option \<times> 'l call list" where
  "ReleaseLease sv lease tr = (case lease of
     None \<Rightarrow> (\<lparr>cl_Attempted = False, cl_Succeeded = False, cl_Error = []\<rparr>, None, tr)
   | Some l \<Rightarrow> (case sv_Release sv tr l of
        Some e \<Rightarrow> (\<lparr>cl_Attempted = True, cl_Succeeded = False, cl_Error = ce_Text e\<rparr>, Some e,
                  tr @ [CallRelease l])
      | None \<Rightarrow> (\<lparr>cl_Attempted = True, cl_Succeeded = True, cl_Error = []\<rparr>, None,
                tr @ [CallRelease l])))"

text \<open>The deferred cleanup of an owned lease.\<close>

definition deferredCleanup :: "'l Service \<Rightarrow> 'l \<Rightarrow> 'l outcome \<Rightarrow> 'l outcome" where
  "deferredCleanup sv l out = (case out of (r, runErr, tr) \<Rightarrow>
     (case ReleaseLease sv (Some l) tr of (cleanup, cleanupErr, tr') \<Rightarrow>
        (let runErr' = (case cleanupErr of
             None \<Rightarrow> runErr
           | Some e \<Rightarrow> (case runErr of None \<Rightarrow> Some (CleanupFailed e)
                       | Some e' \<Rightarrow> Some (Joined e' (CleanupFailed e))));
             r1 = r\<lparr>rt_Cleanup := cleanup\<rparr> in
         finish sv (r1\<lparr>rt_Summary := Summarize r1\<rparr>) runErr' tr')))"

definition startResult :: "'l Service \<Rightarrow> EvalPlan \<Rightarrow> EvalResult" where
  "startResult sv p = \<lparr>rt_Version = ResultVersion, 
     rt_ID = (case sv_ID sv of Some i \<Rightarrow> i | None \<Rightarrow> ''evaluation-'' @ int_text (sv_Now sv [])), rt_PlanFingerprint = [],
     rt_Suite = pl_Suite p, rt_Environment = pl_Environment p, rt_Target = pl_Target p,
     rt_StartedAt = sv_Now sv [], rt_EndedAt = 0,
     rt_Termination = \<lparr>te_Kind = TerminationIncomplete, te_Phase = ''validation'', te_Reason = [], te_Details = []\<rparr>,
     rt_Cleanup = \<lparr>cl_Attempted = False, cl_Succeeded = False, cl_Error = []\<rparr>, rt_Cases = [],
     rt_Summary = \<lparr>sm_Total = 0, sm_Passed = 0, sm_Failed = 0, sm_Unsafe = 0, sm_Incomplete = 0\<rparr>\<rparr>"

definition missingText :: "string \<Rightarrow> string" where
  "missingText what = ''evaluation service: '' @ what @ '' is required''"

text \<open>The text of a plan error is a parameter: it only fills the termination details.\<close>

definition service_run ::
  "(PlanIdentity \<Rightarrow> string) \<Rightarrow> (plan_error \<Rightarrow> string) \<Rightarrow> 'l Service \<Rightarrow> EvalPlan \<Rightarrow> 'l option \<Rightarrow> bool \<Rightarrow> 'l outcome" where
  "service_run sha ptext sv p lease borrowed =
     (let r0 = startResult sv p; tr0 = [CallNow] in
      case ValidatePlan p of
        Some e \<Rightarrow> stop sv r0 ''validation'' ''invalid_plan'' (ptext e) (InvalidPlan e) tr0
      | None \<Rightarrow>
          (let r1 = r0\<lparr>rt_PlanFingerprint := Fingerprint sha p\<rparr> in
           case runPreflights sv p 0 (sv_Preflights sv) tr0 of
             (Some e, tr1) \<Rightarrow> stop sv r1 ''preflight'' ''preflight_failed'' (ce_Text e) (PreflightFailed e) tr1
           | (None, tr1) \<Rightarrow>
               (case (borrowed, sv_Provisioner sv, sv_Executor sv) of
                  (False, None, _) \<Rightarrow>
                    stop sv r1 ''environment'' ''missing_provisioner'' (missingText ''provisioner'') MissingProvisioner tr1
                | (_, _, None) \<Rightarrow>
                    stop sv r1 ''execution'' ''missing_executor'' (missingText ''case executor'') MissingExecutor tr1
                | (True, _, Some exec) \<Rightarrow>
                    (case lease of
                       None \<Rightarrow> stop sv r1 ''environment'' ''invalid_lease'' ''provisioner returned a nil lease'' NilLease tr1
                     | Some l \<Rightarrow> executeCases sv exec p l (su_Cases (pl_Suite p)) r1 tr1)
                | (False, Some acquire, Some exec) \<Rightarrow>
                    (case acquire tr1 p of
                       Inl e \<Rightarrow> stop sv r1 ''environment'' ''acquire_failed'' (ce_Text e) (EnvironmentFailed e)
                                 (tr1 @ [CallAcquire None])
                     | Inr None \<Rightarrow> stop sv r1 ''environment'' ''invalid_lease'' ''provisioner returned a nil lease'' NilLease
                                 (tr1 @ [CallAcquire None])
                     | Inr (Some l) \<Rightarrow>
                         deferredCleanup sv l
                           (executeCases sv exec p l (su_Cases (pl_Suite p)) r1 (tr1 @ [CallAcquire (Some l)]))))))"

definition Run :: "(PlanIdentity \<Rightarrow> string) \<Rightarrow> (plan_error \<Rightarrow> string) \<Rightarrow> 'l Service \<Rightarrow> EvalPlan \<Rightarrow> 'l outcome" where
  "Run sha ptext sv p = service_run sha ptext sv p None False"

definition RunWithLease ::
  "(PlanIdentity \<Rightarrow> string) \<Rightarrow> (plan_error \<Rightarrow> string) \<Rightarrow> 'l Service \<Rightarrow> EvalPlan \<Rightarrow> 'l option \<Rightarrow> 'l outcome" where
  "RunWithLease sha ptext sv p lease = service_run sha ptext sv p lease True"

section \<open>The calls of a run\<close>

definition calls :: "'l outcome \<Rightarrow> 'l call list" where
  "calls out = snd (snd out)"

definition acquired :: "'l call list \<Rightarrow> 'l list" where
  "acquired tr = concat (map (\<lambda>c. case c of CallAcquire (Some l) \<Rightarrow> [l] | _ \<Rightarrow> []) tr)"

definition released :: "'l call list \<Rightarrow> 'l list" where
  "released tr = concat (map (\<lambda>c. case c of CallRelease l \<Rightarrow> [l] | _ \<Rightarrow> []) tr)"

definition executed :: "'l call list \<Rightarrow> string list" where
  "executed tr = concat (map (\<lambda>c. case c of CallExecute i \<Rightarrow> [i] | _ \<Rightarrow> []) tr)"

text \<open>Nothing but the clock is called after a release.\<close>

fun nothing_after_release :: "'l call list \<Rightarrow> bool" where
  "nothing_after_release [] = True"
| "nothing_after_release (c # tr) = (case c of
     CallRelease l \<Rightarrow> list_all (\<lambda>x. case x of CallNow \<Rightarrow> True | _ \<Rightarrow> False) tr
   | _ \<Rightarrow> nothing_after_release tr)"

lemma calls_append [simp]:
  "acquired (xs @ ys) = acquired xs @ acquired ys" "released (xs @ ys) = released xs @ released ys"
  "executed (xs @ ys) = executed xs @ executed ys"
  by (simp_all add: acquired_def released_def executed_def)

lemma calls_Cons [simp]:
  "acquired [] = []" "released [] = []" "executed [] = []"
  "acquired (CallNow # tr) = acquired tr" "released (CallNow # tr) = released tr"
  "executed (CallNow # tr) = executed tr"
  "acquired (CallRelease l # tr) = acquired tr" "released (CallRelease l # tr) = l # released tr"
  "executed (CallRelease l # tr) = executed tr"
  "acquired (CallAcquire None # tr) = acquired tr" "acquired (CallAcquire (Some l) # tr) = l # acquired tr"
  "released (CallAcquire a # tr) = released tr" "executed (CallAcquire a # tr) = executed tr"
  "acquired (CallExecute i # tr) = acquired tr" "released (CallExecute i # tr) = released tr"
  "executed (CallExecute i # tr) = i # executed tr"
  by (simp_all add: acquired_def released_def executed_def)

lemma calls_Execute [simp]:
  "acquired (map (CallExecute \<circ> f) xs) = []" "released (map (CallExecute \<circ> f) xs) = []"
  "executed (map (CallExecute \<circ> f) xs) = map f xs"
  by (induction xs) simp_all

lemma calls_Preflight [simp]:
  "acquired (map CallPreflight ns) = []" "released (map CallPreflight ns) = []"
  "executed (map CallPreflight ns) = []"
  by (induction ns) (simp_all add: acquired_def released_def executed_def)

lemma nothing_after_release_append:
  "released xs = [] \<Longrightarrow> nothing_after_release (xs @ ys) = nothing_after_release ys"
  by (induction xs) (auto simp: released_def split: call.splits)

lemma runPreflights_calls:
  "\<exists>ns. snd (runPreflights sv p i checks tr) = tr @ map CallPreflight ns"
proof (induction sv p i checks tr rule: runPreflights.induct)
  case (2 sv p i check checks tr)
  show ?case
  proof (cases check)
    case None
    with 2(1) show ?thesis by simp
  next
    case (Some f)
    show ?thesis
    proof (cases "f tr p")
      case None
      with 2(2) [OF Some None] obtain ns where
        "snd (runPreflights sv p (Suc i) checks (tr @ [CallPreflight i])) =
          (tr @ [CallPreflight i]) @ map CallPreflight ns" by blast
      with Some None show ?thesis by (auto intro: exI [of _ "i # ns"])
    next
      case (Some e)
      with \<open>check = Some f\<close> show ?thesis by (auto intro: exI [of _ "[i]"])
    qed
  qed
qed (auto intro: exI [of _ "[]"])

text \<open>What the case loop leaves behind.\<close>

definition cases_ran :: "CasePlan list \<Rightarrow> EvalResult \<Rightarrow> 'l call list \<Rightarrow> 'l outcome \<Rightarrow> bool" where
  "cases_ran cs r tr out \<longleftrightarrow> (\<exists>new. rt_Cases (fst out) = rt_Cases r @ new \<and> length new \<le> length cs \<and>
     calls out = tr @ map CallExecute (map cp_ID (take (length new) cs)) @ [CallNow] \<and>
     rt_Cleanup (fst out) = rt_Cleanup r \<and> rt_Summary (fst out) = Summarize (fst out) \<and>
     (te_Kind (rt_Termination (fst out)) = TerminationComplete \<longleftrightarrow> fst (snd out) = None) \<and>
     (fst (snd out) = None \<longrightarrow> length new = length cs))"

lemma Summarize_cong: "rt_Cases r = rt_Cases r' \<Longrightarrow> Summarize r = Summarize r'"
  by (simp add: Summarize_def)

lemma executeCases_ran: "cases_ran cs r tr (executeCases sv exec p l cs r tr)"
proof (induction cs arbitrary: r tr)
  case Nil
  show ?case
    unfolding cases_ran_def
    by (rule exI [of _ "[]"]) (simp add: finish_def calls_def Let_def Summarize_def)
next
  case (Cons c cs)
  obtain res0 err where x: "exec tr p c l = (res0, err)" by (cases "exec tr p c l")
  let ?res = "if ca_ScenarioID res0 = [] then res0\<lparr>ca_ScenarioID := cp_ID c\<rparr> else res0"
  show ?case
  proof (cases err)
    case None
    let ?out = "executeCases sv exec p l cs (r\<lparr>rt_Cases := rt_Cases r @ [?res]\<rparr>) (tr @ [CallExecute (cp_ID c)])"
    have eq: "executeCases sv exec p l (c # cs) r tr = ?out"
      using x None by (simp add: Let_def)
    obtain new where n: "rt_Cases (fst ?out) = (rt_Cases r @ [?res]) @ new" "length new \<le> length cs"
      "calls ?out = (tr @ [CallExecute (cp_ID c)]) @ map CallExecute (map cp_ID (take (length new) cs)) @ [CallNow]"
      "rt_Cleanup (fst ?out) = rt_Cleanup r" "rt_Summary (fst ?out) = Summarize (fst ?out)"
      "te_Kind (rt_Termination (fst ?out)) = TerminationComplete \<longleftrightarrow> fst (snd ?out) = None"
      "fst (snd ?out) = None \<longrightarrow> length new = length cs"
      using Cons.IH [of "r\<lparr>rt_Cases := rt_Cases r @ [?res]\<rparr>" "tr @ [CallExecute (cp_ID c)]"]
      unfolding cases_ran_def by auto
    show ?thesis
      unfolding cases_ran_def eq by (rule exI [of _ "?res # new"]) (use n in simp)
  next
    case (Some e)
    let ?res1 = "if ca_Verdict ?res = VerdictNone then ?res\<lparr>ca_Verdict := VerdictIncomplete\<rparr> else ?res"
    let ?res2 = "if te_Kind (ca_Termination ?res1) = TerminationNone
      then ?res1\<lparr>ca_Termination := failedCase e\<rparr> else ?res1"
    show ?thesis
      unfolding cases_ran_def
      by (rule exI [of _ "[?res2]"])
        (use x Some in \<open>simp add: Let_def finish_def calls_def Summarize_def failedCase_def\<close>)
  qed
qed

text \<open>Every case of a result carries the verdict its execution gave, or one for a failure.\<close>

lemma executeCases_verdicts:
  assumes "\<And>tr c. ca_Verdict (fst (exec tr p c l)) \<noteq> VerdictNone"
    and "\<forall>x\<in>set (rt_Cases r). ca_Verdict x \<noteq> VerdictNone"
  shows "\<forall>x\<in>set (rt_Cases (fst (executeCases sv exec p l cs r tr))). ca_Verdict x \<noteq> VerdictNone"
  using assms(2)
proof (induction cs arbitrary: r tr)
  case Nil
  then show ?case by (simp add: finish_def Let_def)
next
  case (Cons c cs)
  obtain res0 err where x: "exec tr p c l = (res0, err)" by (cases "exec tr p c l")
  then have v: "ca_Verdict res0 \<noteq> VerdictNone" using assms(1) [of tr c] by simp
  let ?res = "if ca_ScenarioID res0 = [] then res0\<lparr>ca_ScenarioID := cp_ID c\<rparr> else res0"
  show ?case
  proof (cases err)
    case None
    have "\<forall>x\<in>set (rt_Cases (fst (executeCases sv exec p l cs (r\<lparr>rt_Cases := rt_Cases r @ [?res]\<rparr>)
        (tr @ [CallExecute (cp_ID c)])))). ca_Verdict x \<noteq> VerdictNone"
      by (rule Cons.IH) (use Cons.prems v in auto)
    with x None show ?thesis by (simp only: executeCases.simps Let_def prod.case option.case)
  next
    case (Some e)
    with x v Cons.prems show ?thesis by (auto simp: Let_def finish_def)
  qed
qed

text \<open>A run that ends before any environment is held.\<close>

definition quiet :: "'l call list \<Rightarrow> bool" where
  "quiet tr \<longleftrightarrow> acquired tr = [] \<and> released tr = [] \<and> executed tr = []"

definition ended_early :: "'l outcome \<Rightarrow> bool" where
  "ended_early out \<longleftrightarrow> quiet (calls out) \<and> rt_Cases (fst out) = [] \<and>
     te_Kind (rt_Termination (fst out)) = TerminationIncomplete"

lemma stop_early: "quiet tr \<Longrightarrow> rt_Cases r = [] \<Longrightarrow> ended_early (stop sv r phase why details err tr)"
  by (simp add: ended_early_def stop_def finish_def calls_def quiet_def)

lemma startResult_Cases [simp]: "rt_Cases (startResult sv p) = []"
  by (simp add: startResult_def)

lemma quiet_snoc_None: "quiet tr \<Longrightarrow> quiet (tr @ [CallAcquire None])"
  by (simp add: quiet_def)

text \<open>
  A run ends early, or executes the cases of a valid plan on a lease: its own, which is then
  cleaned up, or the borrowed one.
\<close>

lemma service_run_cases:
  obtains "ended_early (service_run sha pt sv p lease borrowed)"
  | l exec r tr where "ValidatePlan p = None" "quiet tr" "rt_Cases r = []" "\<not> borrowed" "sv_Executor sv = Some exec"
      "service_run sha pt sv p lease borrowed = deferredCleanup sv l
         (executeCases sv exec p l (su_Cases (pl_Suite p)) r (tr @ [CallAcquire (Some l)]))"
  | l exec r tr where "ValidatePlan p = None" "quiet tr" "rt_Cases r = []" "borrowed" "lease = Some l" "sv_Executor sv = Some exec"
      "service_run sha pt sv p lease borrowed = executeCases sv exec p l (su_Cases (pl_Suite p)) r tr"
proof -
  let ?run = "service_run sha pt sv p lease borrowed"
  let ?r1 = "(startResult sv p)\<lparr>rt_PlanFingerprint := Fingerprint sha p\<rparr>"
  obtain e tr where pf: "runPreflights sv p 0 (sv_Preflights sv) [CallNow] = (e, tr)" by fastforce
  have q: "quiet tr"
    using runPreflights_calls [of sv p 0 "sv_Preflights sv" "[CallNow]"] pf by (auto simp: quiet_def)
  have r1: "rt_Cases ?r1 = []" by simp
  note stops = stop_early [OF q r1] stop_early [OF quiet_snoc_None [OF q] r1]
  show ?thesis
  proof (cases "ValidatePlan p")
    case (Some x)
    then have "ended_early ?run"
      by (simp add: service_run_def Let_def stop_early quiet_def)
    then show ?thesis by (rule that(1))
  next
    case valid: None
    show ?thesis
    proof (cases "e = None \<and> sv_Executor sv \<noteq> None \<and> (borrowed \<or> sv_Provisioner sv \<noteq> None)")
      case False
      then have "ended_early ?run"
        using valid pf stops by (auto simp: service_run_def Let_def split: option.splits bool.splits)
      then show ?thesis by (rule that(1))
    next
      case True
      then obtain exec where e: "e = None" "sv_Executor sv = Some exec" by auto
      show ?thesis
      proof (cases borrowed)
        case b: True
        show ?thesis
        proof (cases lease)
          case None
          with b e valid pf stops have "ended_early ?run"
            by (simp add: service_run_def Let_def split: option.splits)
          then show ?thesis by (rule that(1))
        next
          case (Some l)
          with b e valid pf have "?run = executeCases sv exec p l (su_Cases (pl_Suite p)) ?r1 tr"
            by (simp add: service_run_def Let_def split: option.splits)
          with valid q r1 b Some e(2) show ?thesis by (rule that(3))
        qed
      next
        case b: False
        with True obtain acquire where a: "sv_Provisioner sv = Some acquire" by auto
        show ?thesis
        proof (cases "\<exists>l. acquire tr p = Inr (Some l)")
          case True
          then obtain l where "acquire tr p = Inr (Some l)" by blast
          with a b e valid pf have "?run = deferredCleanup sv l
              (executeCases sv exec p l (su_Cases (pl_Suite p)) ?r1 (tr @ [CallAcquire (Some l)]))"
            by (simp add: service_run_def Let_def)
          with valid q r1 b e(2) show ?thesis by (rule that(2))
        next
          case False
          with a b e valid pf stops have "ended_early ?run"
            by (simp add: service_run_def Let_def split: sum.splits option.splits)
          then show ?thesis by (rule that(1))
        qed
      qed
    qed
  qed
qed

lemma deferredCleanup_fields:
  "rt_Cases (fst (deferredCleanup sv l out)) = rt_Cases (fst out)"
  "rt_Termination (fst (deferredCleanup sv l out)) = rt_Termination (fst out)"
  "calls (deferredCleanup sv l out) = calls out @ [CallRelease l, CallNow]"
  "cl_Attempted (rt_Cleanup (fst (deferredCleanup sv l out)))"
  "rt_Summary (fst (deferredCleanup sv l out)) = Summarize (fst (deferredCleanup sv l out))"
  "cl_Succeeded (rt_Cleanup (fst (deferredCleanup sv l out))) \<Longrightarrow>
     fst (snd (deferredCleanup sv l out)) = fst (snd out)"
  by (auto simp: deferredCleanup_def ReleaseLease_def finish_def calls_def Summarize_def
      split: prod.splits option.splits)

text \<open>What holds of every run on an own lease.\<close>

lemma own_run_calls:
  assumes "cases_ran cs r (tr @ [CallAcquire (Some l)]) out" and "quiet tr" and "rt_Cases r = []"
    and "out' = deferredCleanup sv l out"
  shows "acquired (calls out') = [l]" and "released (calls out') = [l]"
    and "nothing_after_release (calls out')"
    and "executed (calls out') = map cp_ID (take (length (rt_Cases (fst out'))) cs)"
proof -
  obtain new where n: "rt_Cases (fst out) = new"
    "calls out = (tr @ [CallAcquire (Some l)]) @ map CallExecute (map cp_ID (take (length new) cs)) @ [CallNow]"
    using assms(1,3) unfolding cases_ran_def by auto
  have c: "calls out' = (tr @ [CallAcquire (Some l)] @ map CallExecute (map cp_ID (take (length new) cs)) @ [CallNow]) @
      [CallRelease l, CallNow]"
    using n(2) by (simp add: assms(4) deferredCleanup_fields(3))
  show "acquired (calls out') = [l]" "released (calls out') = [l]"
    using assms(2) by (simp_all add: c quiet_def)
  show "executed (calls out') = map cp_ID (take (length (rt_Cases (fst out'))) cs)"
    using assms(2) n(1) deferredCleanup_fields(1) [of sv l out] by (simp add: c quiet_def flip: assms(4))
  show "nothing_after_release (calls out')"
    unfolding c by (subst nothing_after_release_append) (use assms(2) in \<open>simp_all add: quiet_def\<close>)
qed

section \<open>Properties\<close>

text \<open>
  C5: An environment is released exactly once. In a run that owns its lease, the leases released
  are the leases acquired, at most one, on every path, failing cases and failing cleanup
  included, and nothing runs after the release; a run on a borrowed lease acquires and releases
  none.
\<close>

theorem lease_released_exactly_once:
  "released (calls (Run sha pt sv p)) = acquired (calls (Run sha pt sv p)) \<and>
   length (acquired (calls (Run sha pt sv p))) \<le> 1 \<and>
   nothing_after_release (calls (Run sha pt sv p)) \<and>
   released (calls (RunWithLease sha pt sv p lease)) = [] \<and>
   acquired (calls (RunWithLease sha pt sv p lease)) = []"
proof -
  have early: "nothing_after_release tr" if "released tr = []" for tr :: "'a call list"
    using nothing_after_release_append [OF that, of "[]"] by simp
  have own: "released (calls (Run sha pt sv p)) = acquired (calls (Run sha pt sv p)) \<and>
      length (acquired (calls (Run sha pt sv p))) \<le> 1 \<and> nothing_after_release (calls (Run sha pt sv p))"
  proof (cases rule: service_run_cases [of sha pt sv p None False])
    case 1
    then show ?thesis by (simp add: Run_def ended_early_def quiet_def early)
  next
    case (2 l exec r tr)
    note * = own_run_calls [OF executeCases_ran 2(2,3) 2(6)]
    show ?thesis using *(1,2,3) by (simp add: Run_def)
  next
    case (3 l exec r tr)
    then show ?thesis by simp
  qed
  moreover have "released (calls (RunWithLease sha pt sv p lease)) = [] \<and>
      acquired (calls (RunWithLease sha pt sv p lease)) = []"
  proof (cases rule: service_run_cases [of sha pt sv p lease True])
    case 1
    then show ?thesis by (simp add: RunWithLease_def ended_early_def quiet_def)
  next
    case (3 l exec r tr)
    with executeCases_ran [of "su_Cases (pl_Suite p)" r tr sv exec p l] show ?thesis
      unfolding cases_ran_def RunWithLease_def by (auto simp: quiet_def)
  qed simp
  ultimately show ?thesis by blast
qed

lemma Summarize_counts:
  "Summarize r = \<lparr>sm_Total = length (rt_Cases r),
     sm_Passed = length (filter (\<lambda>c. ca_Verdict c = VerdictPass) (rt_Cases r)),
     sm_Failed = length (filter (\<lambda>c. ca_Verdict c = VerdictFail) (rt_Cases r)),
     sm_Unsafe = length (filter (\<lambda>c. ca_Verdict c = VerdictUnsafe) (rt_Cases r)),
     sm_Incomplete = length (filter (\<lambda>c. ca_Verdict c = VerdictIncomplete) (rt_Cases r))\<rparr>"
proof -
  define step :: "CaseResult \<Rightarrow> Summary \<Rightarrow> Summary" where "step = (\<lambda>c s. case ca_Verdict c of
       VerdictPass \<Rightarrow> s\<lparr>sm_Passed := sm_Passed s + 1\<rparr>
     | VerdictFail \<Rightarrow> s\<lparr>sm_Failed := sm_Failed s + 1\<rparr>
     | VerdictUnsafe \<Rightarrow> s\<lparr>sm_Unsafe := sm_Unsafe s + 1\<rparr>
     | VerdictIncomplete \<Rightarrow> s\<lparr>sm_Incomplete := sm_Incomplete s + 1\<rparr>
     | VerdictNone \<Rightarrow> s)"
  have "fold step cs \<lparr>sm_Total = t, sm_Passed = a, sm_Failed = b, sm_Unsafe = d, sm_Incomplete = i\<rparr> =
    \<lparr>sm_Total = t, sm_Passed = a + length (filter (\<lambda>c. ca_Verdict c = VerdictPass) cs),
     sm_Failed = b + length (filter (\<lambda>c. ca_Verdict c = VerdictFail) cs),
     sm_Unsafe = d + length (filter (\<lambda>c. ca_Verdict c = VerdictUnsafe) cs),
     sm_Incomplete = i + length (filter (\<lambda>c. ca_Verdict c = VerdictIncomplete) cs)\<rparr>" for cs t a b d i
    by (induction cs arbitrary: a b d i) (auto simp: step_def split: Verdict.splits)
  then show ?thesis by (simp add: Summarize_def step_def)
qed

lemma ExitCode_0:
  assumes "ExitCode r = 0" and "rt_Summary r = Summarize r"
  shows "te_Kind (rt_Termination r) = TerminationComplete"
    and "cl_Attempted (rt_Cleanup r) \<longrightarrow> cl_Succeeded (rt_Cleanup r)"
    and "\<forall>c\<in>set (rt_Cases r). ca_Verdict c = VerdictPass \<or> ca_Verdict c = VerdictNone"
proof -
  show "te_Kind (rt_Termination r) = TerminationComplete"
    "cl_Attempted (rt_Cleanup r) \<longrightarrow> cl_Succeeded (rt_Cleanup r)"
    using assms(1) by (auto simp: ExitCode_def split: if_splits)
  have "filter (\<lambda>c. ca_Verdict c = VerdictFail) (rt_Cases r) = []"
    "filter (\<lambda>c. ca_Verdict c = VerdictUnsafe) (rt_Cases r) = []"
    "filter (\<lambda>c. ca_Verdict c = VerdictIncomplete) (rt_Cases r) = []"
    using assms by (auto simp: ExitCode_def Summarize_counts split: if_splits)
  then show "\<forall>c\<in>set (rt_Cases r). ca_Verdict c = VerdictPass \<or> ca_Verdict c = VerdictNone"
    unfolding filter_empty_conv by (metis Verdict.exhaust)
qed

text \<open>
  Exit code 0 of an owned run means that every case of the plan was executed, in order, and
  passed or came back with no verdict at all; that the environment was acquired and released
  without error; and that the run itself returned no error.
\<close>

theorem exit_code_zero_means_success:
  assumes "ExitCode (fst (Run sha pt sv p)) = 0"
  shows "ValidatePlan p = None \<and> executed (calls (Run sha pt sv p)) = map cp_ID (su_Cases (pl_Suite p)) \<and>
    length (rt_Cases (fst (Run sha pt sv p))) = length (su_Cases (pl_Suite p)) \<and>
    (\<forall>c\<in>set (rt_Cases (fst (Run sha pt sv p))). ca_Verdict c = VerdictPass \<or> ca_Verdict c = VerdictNone) \<and>
    length (released (calls (Run sha pt sv p))) = 1 \<and>
    cl_Succeeded (rt_Cleanup (fst (Run sha pt sv p))) \<and> fst (snd (Run sha pt sv p)) = None"
proof (cases rule: service_run_cases [of sha pt sv p None False])
  case 1
  with assms show ?thesis by (simp add: Run_def ended_early_def ExitCode_def)
next
  case (2 l exec r tr)
  let ?out = "executeCases sv exec p l (su_Cases (pl_Suite p)) r (tr @ [CallAcquire (Some l)])"
  have run: "Run sha pt sv p = deferredCleanup sv l ?out" using 2(6) by (simp add: Run_def)
  note f = deferredCleanup_fields [of sv l ?out]
  note z = ExitCode_0 [OF assms [unfolded run] f(5)]
  note c = own_run_calls [OF executeCases_ran 2(2,3) 2(6)]
  have ok: "cl_Succeeded (rt_Cleanup (fst (Run sha pt sv p)))" using z(2) f(4) by (simp add: run)
  obtain new where new: "rt_Cases (fst ?out) = new" "length new \<le> length (su_Cases (pl_Suite p))"
    "te_Kind (rt_Termination (fst ?out)) = TerminationComplete \<longleftrightarrow> fst (snd ?out) = None"
    "fst (snd ?out) = None \<longrightarrow> length new = length (su_Cases (pl_Suite p))"
    using executeCases_ran [of "su_Cases (pl_Suite p)" r "tr @ [CallAcquire (Some l)]" sv exec p l] 2(3)
    unfolding cases_ran_def by auto
  have none: "fst (snd ?out) = None" using z(1) f(2) new(3) by simp
  then have len: "length (rt_Cases (fst (Run sha pt sv p))) = length (su_Cases (pl_Suite p))"
    using new(1,4) f(1) by (simp add: run)
  have err: "fst (snd (Run sha pt sv p)) = None" using f(6) ok none by (simp add: run)
  have "executed (calls (Run sha pt sv p)) = map cp_ID (su_Cases (pl_Suite p))"
    "length (released (calls (Run sha pt sv p))) = 1"
    using c(2,4) len by (simp_all add: Run_def)
  with 2(1) len z(3) ok err show ?thesis by (simp add: run)
qed simp

definition wf_plan :: "EvalPlan \<Rightarrow> bool" where
  "wf_plan p \<longleftrightarrow> trim_space (su_ID (pl_Suite p)) \<noteq> [] \<and> trim_space (su_Digest (pl_Suite p)) \<noteq> [] \<and>
     su_Cases (pl_Suite p) \<noteq> [] \<and>
     [] \<notin> set (map (\<lambda>c. trim_space (cp_ID c)) (su_Cases (pl_Suite p))) \<and>
     distinct (map (\<lambda>c. trim_space (cp_ID c)) (su_Cases (pl_Suite p))) \<and>
     trim_space (ep_Provider (pl_Environment p)) \<noteq> [] \<and>
     (tp_Kind (pl_Target p) = TargetModel \<and> trim_space (tp_Provider (pl_Target p)) \<noteq> [] \<and>
        trim_space (tp_Model (pl_Target p)) \<noteq> [] \<or>
      tp_Kind (pl_Target p) = TargetAgent \<and> trim_space (tp_Adapter (pl_Target p)) \<noteq> []) \<and>
     0 < li_CaseTimeout (pl_Limits p) \<and> pl_Attempts p = 1"

lemma validateCases_None:
  "validateCases i seen cs = None \<longleftrightarrow>
     [] \<notin> set (map (\<lambda>c. trim_space (cp_ID c)) cs) \<and>
     distinct (map (\<lambda>c. trim_space (cp_ID c)) cs) \<and>
     set (map (\<lambda>c. trim_space (cp_ID c)) cs) \<inter> set seen = {}"
  by (induction i seen cs rule: validateCases.induct) (auto simp: Let_def)

text \<open>
  A plan is accepted exactly when it is well formed: identified suite, at least one case,
  case identifiers non-empty and distinct after trimming, an environment provider, a complete
  model or agent target, a positive timeout and a single attempt.
\<close>

theorem plan_accepted_iff_wf: "ValidatePlan p = None \<longleftrightarrow> wf_plan p"
  by (auto simp: ValidatePlan_def wf_plan_def validateCases_None)

section \<open>Witnesses\<close>

definition demo_eval_plan :: EvalPlan where
  "demo_eval_plan = \<lparr>pl_Version = [],
     pl_Suite = \<lparr>su_ID = ''core'', su_Digest = ''d'', su_Cases = [\<lparr>cp_ID = ''a''\<rparr>, \<lparr>cp_ID = ''b''\<rparr>],
       su_RequiredModelCapabilities = []\<rparr>,
     pl_Environment = \<lparr>ep_Provider = ''kind'', ep_Profile = []\<rparr>,
     pl_Target = \<lparr>tp_Kind = TargetModel, tp_Provider = ''p'', tp_Model = ''m'', tp_Adapter = [],
       tp_CommandIdentity = [], tp_EndpointClass = [], tp_CredentialSource = [], tp_ModelDigest = [],
       tp_ParameterSize = [], tp_Quantization = [], tp_CapabilityCheck = []\<rparr>,
     pl_Limits = \<lparr>li_CaseTimeout = 1, li_MaxTurns = 0, li_MaxTokens = 0\<rparr>, pl_Attempts = 1,
     pl_Output = \<lparr>op_Directory = [], op_Formats = []\<rparr>\<rparr>"

definition demo_service :: "Verdict \<Rightarrow> nat Service" where
  "demo_service v = \<lparr>sv_Preflights = [None, Some (\<lambda>_ _. None)],
     sv_Provisioner = Some (\<lambda>_ _. Inr (Some 7)),
     sv_Executor = Some (\<lambda>_ _ c _. ((baseResult (case_input []))\<lparr>ca_Verdict := v\<rparr>, None)),
     sv_Release = (\<lambda>_ _. None), sv_Now = (\<lambda>tr. int (length tr)), sv_ID = None\<rparr>"

theorem exit_code_zero_means_success_witness:
  "ExitCode (fst (Run (\<lambda>_. ''h'') (\<lambda>_. []) (demo_service VerdictPass) demo_eval_plan)) = 0 \<and>
   executed (calls (Run (\<lambda>_. ''h'') (\<lambda>_. []) (demo_service VerdictPass) demo_eval_plan)) =
     map cp_ID (su_Cases (pl_Suite demo_eval_plan))"
proof -
  have "ExitCode (fst (Run (\<lambda>_. ''h'') (\<lambda>_. []) (demo_service VerdictPass) demo_eval_plan)) = 0"
    by code_simp
  with exit_code_zero_means_success [OF this] show ?thesis by blast
qed

text \<open>
  A case that comes back with an empty verdict and no error is counted in no class of the
  summary, so an evaluation of such cases exits with 0.
\<close>

lemma missing_verdict_exits_zero:
  "ExitCode (fst (Run (\<lambda>_. ''h'') (\<lambda>_. []) (demo_service VerdictNone) demo_eval_plan)) = 0 \<and>
   sm_Passed (rt_Summary (fst (Run (\<lambda>_. ''h'') (\<lambda>_. []) (demo_service VerdictNone) demo_eval_plan))) = 0"
  by code_simp

text \<open>A service that runs the cases of the harness.\<close>

definition harness_service :: "nat Service" where
  "harness_service = (demo_service VerdictPass)
     \<lparr>sv_Executor := Some (\<lambda>_ _ _ _. (buildEvaluationCaseResultPlanned (case_input []), None))\<rparr>"

lemma harness_service_exits: "ExitCode (fst (Run (\<lambda>_. ''h'') (\<lambda>_. []) harness_service demo_eval_plan)) = 0"
  by code_simp

end
