(* ===== verification/Suite.thy ===== *)
theory Suite
  imports Scenario_Loader Evaluation_Service
begin

text \<open>
  Suites of scenarios: \<^verbatim>\<open>pkg/suite/manifest.go\<close> and \<^verbatim>\<open>pkg/suite/digest.go\<close>. A manifest names an ordered
  list of cases, which the shared scenario loader resolves, the environment they need, and shared
  assets; the digest fingerprints all of them. Decoding of the manifest, the tree walk of
  \<^verbatim>\<open>filepath.WalkDir\<close> and SHA-256 are parameters. The lemmas show when exactly a manifest loads, that
  the plan made from a loaded suite is accepted by the evaluation service, and what the digest
  detects.
\<close>

section \<open>Manifests\<close>

definition SchemaV1 :: string where
  "SchemaV1 = ''evidra-suite/v1''"

record EnvironmentContract =
  en_Profile :: string
  en_Providers :: "string list"

record ModelContract =
  mc_Capabilities :: "string list"

record Manifest =
  mf_Schema :: string
  mf_ID :: string
  mf_Revision :: int
  mf_Environment :: EnvironmentContract
  mf_Model :: ModelContract
  mf_Cases :: "string list"
  mf_Includes :: "string list"
  mf_Limitations :: "string list"

definition SupportedModelCapabilities :: "string list" where
  "SupportedModelCapabilities = [''tools'']"

record Loaded =
  lo_Manifest :: Manifest
  lo_Identity :: string
  lo_Digest :: string
  lo_Scenarios :: "Scenario list"

definition EvaluationSuite :: "Loaded \<Rightarrow> SuitePlan" where
  "EvaluationSuite l =
     \<lparr>su_ID = lo_Identity l, su_Digest = lo_Digest l,
      su_Cases = map (\<lambda>s. \<lparr>cp_ID = s_ID s\<rparr>) (lo_Scenarios l),
      su_RequiredModelCapabilities = sort (map trim_space (mc_Capabilities (mf_Model (lo_Manifest l))))\<rparr>"

datatype suite_error =
    UnsupportedSchema string | IDRequired | RevisionRequired | UnsupportedProfile string
  | NoProviders | UnsupportedProvider string | DuplicateProvider string | NoManifestCases | NoIncludes
  | EmptyCapability | UnknownCapability string | DuplicateCapability string
  | ProjectRootUnresolved | PathUnresolved string | OutsideProject string
  | ManifestUnreadable | ManifestBadYaml
  | DuplicateRef string | CaseUnresolved string scenario_error | DuplicateScenarioID string string string
  | ProfileMismatch string string | ProviderMismatch string string
  | WalkFailed string | SymlinkInput string | NonRegularInput string | OutsideInput string | InputUnreadable string
  | CaseIndexPanic

text \<open>The loops over providers and capabilities carry the set of values already seen.\<close>

fun validateProviders :: "string list \<Rightarrow> string list \<Rightarrow> suite_error option" where
  "validateProviders seen [] = None"
| "validateProviders seen (p # ps) =
     (if p \<noteq> ''kind'' \<and> p \<noteq> ''k3d'' then Some (UnsupportedProvider p)
      else if p \<in> set seen then Some (DuplicateProvider p)
      else validateProviders (p # seen) ps)"

fun validateCapabilities :: "string list \<Rightarrow> string list \<Rightarrow> suite_error option" where
  "validateCapabilities seen [] = None"
| "validateCapabilities seen (c # cs) =
     (let normalized = trim_space c in
      if normalized = [] then Some EmptyCapability
      else if normalized \<notin> set SupportedModelCapabilities then Some (UnknownCapability normalized)
      else if normalized \<in> set seen then Some (DuplicateCapability normalized)
      else validateCapabilities (normalized # seen) cs)"

definition validateManifest :: "Manifest \<Rightarrow> suite_error option" where
  "validateManifest m = first_of
     [err_if (mf_Schema m \<noteq> SchemaV1) (UnsupportedSchema (mf_Schema m)),
      err_if (trim_space (mf_ID m) = []) IDRequired,
      err_if (mf_Revision m \<le> 0) RevisionRequired,
      err_if (\<not> IsSupportedExecutionProfile (en_Profile (mf_Environment m))) (UnsupportedProfile (en_Profile (mf_Environment m))),
      err_if (en_Providers (mf_Environment m) = []) NoProviders,
      validateProviders [] (en_Providers (mf_Environment m)),
      err_if (mf_Cases m = []) NoManifestCases,
      err_if (mf_Includes m = []) NoIncludes,
      validateCapabilities [] (mc_Capabilities (mf_Model m))]"

definition secureProjectPath :: "ScenarioFS \<Rightarrow> string \<Rightarrow> string \<Rightarrow> (suite_error, string) result" where
  "secureProjectPath fs prj path =
     (let p = if IsAbs path then path else Join prj path in
      case fs_Abs fs p of
        None \<Rightarrow> Inl (PathUnresolved p)
      | Some q \<Rightarrow> if \<not> pathWithinRoot prj q then Inl (OutsideProject p) else Inr q)"

section \<open>Digests\<close>

text \<open>
  The callbacks of a tree walk in their order: what \<^verbatim>\<open>filepath.WalkDir\<close> passes to the function, with
  the contents of the file if it can be opened, read and closed.
\<close>

datatype file_kind = Symlink | Directory | Regular | Irregular

record WalkEntry =
  we_Path :: string
  we_Err :: bool
  we_InfoErr :: bool
  we_Kind :: file_kind
  we_Perm :: string
  we_Data :: "string option"

definition writeHashField :: "string \<Rightarrow> string" where
  "writeHashField value = nat_text (length value) @ '':'' @ value @ [CHR 0x00]"

definition hashEntry :: "string \<Rightarrow> WalkEntry \<Rightarrow> (suite_error, string) result" where
  "hashEntry prj e =
     (if we_Err e \<or> we_InfoErr e then Inl (WalkFailed (we_Path e))
      else if we_Kind e = Symlink then Inl (SymlinkInput (we_Path e))
      else if we_Kind e = Directory then Inr []
      else if we_Kind e \<noteq> Regular then Inl (NonRegularInput (we_Path e))
      else (case Rel prj (we_Path e) of
          None \<Rightarrow> Inl (OutsideInput (we_Path e))
        | Some rel \<Rightarrow>
            if \<not> pathWithinRoot prj (we_Path e) then Inl (OutsideInput (we_Path e))
            else (case we_Data e of
                None \<Rightarrow> Inl (InputUnreadable (we_Path e))
              | Some d \<Rightarrow> Inr (writeHashField rel @ writeHashField (we_Perm e) @ d))))"

fun hashEntries :: "string \<Rightarrow> WalkEntry list \<Rightarrow> (suite_error, string) result" where
  "hashEntries prj [] = Inr []"
| "hashEntries prj (e # es) = (case hashEntry prj e of
     Inl x \<Rightarrow> Inl x
   | Inr a \<Rightarrow> (case hashEntries prj es of Inl x \<Rightarrow> Inl x | Inr b \<Rightarrow> Inr (a @ b)))"

definition hashPath :: "(string \<Rightarrow> WalkEntry list) \<Rightarrow> string \<Rightarrow> string \<Rightarrow> string \<Rightarrow> (suite_error, string) result" where
  "hashPath walk prj path label = (case hashEntries prj (walk path) of
     Inl x \<Rightarrow> Inl x | Inr b \<Rightarrow> Inr (writeHashField label @ b))"

definition pad6 :: "nat \<Rightarrow> string" where
  "pad6 n = (let t = nat_text n in replicate (6 - length t) CHR ''0'' @ t)"

fun hashCases :: "(string \<Rightarrow> WalkEntry list) \<Rightarrow> string \<Rightarrow> nat \<Rightarrow> Scenario list \<Rightarrow> string list \<Rightarrow> (suite_error, string) result" where
  "hashCases walk prj i [] refs = Inr []"
| "hashCases walk prj i (s # ss) [] = Inl CaseIndexPanic"
| "hashCases walk prj i (s # ss) (ref # refs) =
     (case hashPath walk prj (s_Dir s) (''case:'' @ pad6 i @ '':'' @ ref) of
        Inl x \<Rightarrow> Inl x
      | Inr a \<Rightarrow> (case hashCases walk prj (Suc i) ss refs of Inl x \<Rightarrow> Inl x | Inr b \<Rightarrow> Inr (a @ b)))"

fun hashIncludes :: "(string \<Rightarrow> WalkEntry list) \<Rightarrow> ScenarioFS \<Rightarrow> string \<Rightarrow> nat \<Rightarrow> string list \<Rightarrow> (suite_error, string) result" where
  "hashIncludes walk fs prj i [] = Inr []"
| "hashIncludes walk fs prj i (inc # incs) = (case secureProjectPath fs prj inc of
     Inl x \<Rightarrow> Inl x
   | Inr path \<Rightarrow> (case hashPath walk prj path (''include:'' @ pad6 i @ '':'' @ inc) of
        Inl x \<Rightarrow> Inl x
      | Inr a \<Rightarrow> (case hashIncludes walk fs prj (Suc i) incs of Inl x \<Rightarrow> Inl x | Inr b \<Rightarrow> Inr (a @ b))))"

definition digestStream :: "(string \<Rightarrow> WalkEntry list) \<Rightarrow> ScenarioFS \<Rightarrow> string \<Rightarrow> string \<Rightarrow> Loaded \<Rightarrow> (suite_error, string) result" where
  "digestStream walk fs prj manifestPath l = (case hashPath walk prj manifestPath ''manifest'' of
     Inl x \<Rightarrow> Inl x
   | Inr a \<Rightarrow> (case hashCases walk prj 0 (lo_Scenarios l) (mf_Cases (lo_Manifest l)) of
        Inl x \<Rightarrow> Inl x
      | Inr b \<Rightarrow> (case hashIncludes walk fs prj 0 (mf_Includes (lo_Manifest l)) of
           Inl x \<Rightarrow> Inl x | Inr c \<Rightarrow> Inr (a @ b @ c))))"

definition digestInputs ::
  "(string \<Rightarrow> string) \<Rightarrow> (string \<Rightarrow> WalkEntry list) \<Rightarrow> ScenarioFS \<Rightarrow> string \<Rightarrow> string \<Rightarrow> Loaded \<Rightarrow> (suite_error, string) result" where
  "digestInputs sha walk fs prj manifestPath l = (case digestStream walk fs prj manifestPath l of
     Inl x \<Rightarrow> Inl x | Inr b \<Rightarrow> Inr (''sha256:'' @ sha b))"

section \<open>Loading\<close>

datatype manifest_doc = NoManifest | BadManifest | ManifestDoc Manifest

text \<open>The body of the loop over the cases, with the references and scenario ids seen so far.\<close>

fun loadCases :: "ScenarioFS \<Rightarrow> string \<Rightarrow> EnvironmentContract \<Rightarrow> string list \<Rightarrow> (string \<times> string) list \<Rightarrow> string list \<Rightarrow>
    (suite_error, Scenario list) result" where
  "loadCases fs prj env seenCases seenIDs [] = Inr []"
| "loadCases fs prj env seenCases seenIDs (ref # refs) =
     (if ref \<in> set seenCases then Inl (DuplicateRef ref)
      else (case Resolve fs prj ref of
          Inl e \<Rightarrow> Inl (CaseUnresolved ref e)
        | Inr s \<Rightarrow> (case map_of seenIDs (s_ID s) of
            Some previousRef \<Rightarrow> Inl (DuplicateScenarioID (s_ID s) previousRef ref)
          | None \<Rightarrow>
              if ResolvedProfile s \<noteq> en_Profile env then Inl (ProfileMismatch ref (ResolvedProfile s))
              else (case find (\<lambda>p. \<not> IsProviderCompatible s p) (en_Providers env) of
                  Some p \<Rightarrow> Inl (ProviderMismatch ref p)
                | None \<Rightarrow> (case loadCases fs prj env (ref # seenCases) ((s_ID s, ref) # seenIDs) refs of
                    Inl e \<Rightarrow> Inl e | Inr ss \<Rightarrow> Inr (s # ss))))))"

definition suiteLoad :: "ScenarioFS \<Rightarrow> (string \<Rightarrow> manifest_doc) \<Rightarrow> (string \<Rightarrow> string) \<Rightarrow> (string \<Rightarrow> WalkEntry list) \<Rightarrow>
    string \<Rightarrow> string \<Rightarrow> (suite_error, Loaded) result" where
  "suiteLoad fs doc sha walk manifestPath projectRoot = (case fs_Abs fs projectRoot of
     None \<Rightarrow> Inl ProjectRootUnresolved
   | Some prj \<Rightarrow> (case secureProjectPath fs prj manifestPath of
       Inl e \<Rightarrow> Inl e
     | Inr path \<Rightarrow> (case doc path of
         NoManifest \<Rightarrow> Inl ManifestUnreadable
       | BadManifest \<Rightarrow> Inl ManifestBadYaml
       | ManifestDoc m \<Rightarrow> (case validateManifest m of
           Some e \<Rightarrow> Inl e
         | None \<Rightarrow> (case loadCases fs (Join prj ''scenarios'') (mf_Environment m) [] [] (mf_Cases m) of
             Inl e \<Rightarrow> Inl e
           | Inr ss \<Rightarrow>
               (let loaded = \<lparr>lo_Manifest = m, lo_Identity = mf_ID m @ ''@'' @ int_text (mf_Revision m),
                              lo_Digest = [], lo_Scenarios = ss\<rparr> in
                case digestInputs sha walk fs prj path loaded of
                  Inl e \<Rightarrow> Inl e
                | Inr d \<Rightarrow> Inr (loaded\<lparr>lo_Digest := d\<rparr>)))))))"

section \<open>What loads\<close>

text \<open>
  A scenario fits the contract of its suite: the reference resolves to it, it needs the suite's
  profile and runs on every provider of the suite.
\<close>

definition case_fits :: "ScenarioFS \<Rightarrow> string \<Rightarrow> EnvironmentContract \<Rightarrow> string \<Rightarrow> Scenario \<Rightarrow> bool" where
  "case_fits fs prj env ref s \<longleftrightarrow> Resolve fs prj ref = Inr s \<and> ResolvedProfile s = en_Profile env \<and>
     list_all (IsProviderCompatible s) (en_Providers env)"

lemma find_not_None: "find (\<lambda>p. \<not> P p) xs = None \<longleftrightarrow> list_all P xs"
  by (auto simp: find_None_iff list_all_iff)

lemma loadCases_Cons_iff:
  "loadCases fs prj env seenCases seenIDs (ref # refs) = Inr ts \<longleftrightarrow>
     (\<exists>s ss. ts = s # ss \<and> ref \<notin> set seenCases \<and> case_fits fs prj env ref s \<and> map_of seenIDs (s_ID s) = None \<and>
        loadCases fs prj env (ref # seenCases) ((s_ID s, ref) # seenIDs) refs = Inr ss)"
  by (auto simp: case_fits_def find_not_None [symmetric] simp del: not_None_eq split: sum.splits option.splits)

lemma loadCases_iff:
  "loadCases fs prj env seenCases seenIDs refs = Inr ss \<longleftrightarrow>
     list_all2 (case_fits fs prj env) refs ss \<and>
     distinct refs \<and> set refs \<inter> set seenCases = {} \<and>
     distinct (map s_ID ss) \<and> (\<forall>s\<in>set ss. map_of seenIDs (s_ID s) = None)"
proof (induction refs arbitrary: seenCases seenIDs ss)
  case (Cons ref refs)
  show ?case
    unfolding loadCases_Cons_iff Cons.IH by (auto simp: list_all2_Cons1 image_iff split: if_splits) metis+
qed auto

lemma suiteLoad_Inr_iff:
  "suiteLoad fs doc sha walk manifestPath projectRoot = Inr l \<longleftrightarrow>
     (\<exists>prj path d. fs_Abs fs projectRoot = Some prj \<and> secureProjectPath fs prj manifestPath = Inr path \<and>
        doc path = ManifestDoc (lo_Manifest l) \<and> validateManifest (lo_Manifest l) = None \<and>
        list_all2 (case_fits fs (Join prj ''scenarios'') (mf_Environment (lo_Manifest l))) (mf_Cases (lo_Manifest l)) (lo_Scenarios l) \<and>
        distinct (mf_Cases (lo_Manifest l)) \<and> distinct (map s_ID (lo_Scenarios l)) \<and>
        digestInputs sha walk fs prj path (l\<lparr>lo_Digest := []\<rparr>) = Inr d \<and> lo_Digest l = d \<and>
        lo_Identity l = mf_ID (lo_Manifest l) @ ''@'' @ int_text (mf_Revision (lo_Manifest l)))"
  (is "?L = ?R")
proof
  assume ?L
  then show ?R
    by (auto simp: suiteLoad_def Let_def loadCases_iff split: option.splits sum.splits manifest_doc.splits)
next
  assume ?R
  then obtain prj path d where r: "fs_Abs fs projectRoot = Some prj" "secureProjectPath fs prj manifestPath = Inr path"
    "doc path = ManifestDoc (lo_Manifest l)" "validateManifest (lo_Manifest l) = None"
    "loadCases fs (Join prj ''scenarios'') (mf_Environment (lo_Manifest l)) [] [] (mf_Cases (lo_Manifest l)) = Inr (lo_Scenarios l)"
    "digestInputs sha walk fs prj path (l\<lparr>lo_Digest := []\<rparr>) = Inr d" "lo_Digest l = d"
    "lo_Identity l = mf_ID (lo_Manifest l) @ ''@'' @ int_text (mf_Revision (lo_Manifest l))"
    by (auto simp: loadCases_iff)
  have l: "\<lparr>lo_Manifest = lo_Manifest l, lo_Identity = mf_ID (lo_Manifest l) @ ''@'' @ int_text (mf_Revision (lo_Manifest l)),
      lo_Digest = [], lo_Scenarios = lo_Scenarios l\<rparr> = l\<lparr>lo_Digest := []\<rparr>"
    using r(8) by simp
  show ?L unfolding suiteLoad_def Let_def r(1) option.case r(2) sum.case r(3) manifest_doc.case r(4) r(5) l r(6) using r(7) by simp
qed


section \<open>The plan of a suite\<close>

lemma trim_space_Nil_iff: "trim_space s = [] \<longleftrightarrow> (\<forall>c\<in>set s. is_space c)"
  by (induction s) (auto simp: trim_space_def)

lemma trim_space_keeps: "c \<in> set s \<Longrightarrow> \<not> is_space c \<Longrightarrow> trim_space s \<noteq> []"
  by (auto simp: trim_space_Nil_iff)

lemma validateProviders_None:
  "validateProviders seen ps = None \<longleftrightarrow> set ps \<subseteq> {''kind'', ''k3d''} \<and> distinct ps \<and> set ps \<inter> set seen = {}"
  by (induction seen ps rule: validateProviders.induct) auto

lemma validateCapabilities_None:
  "validateCapabilities seen cs = None \<longleftrightarrow>
     (\<forall>c\<in>set cs. trim_space c = ''tools'') \<and> distinct (map trim_space cs) \<and> set (map trim_space cs) \<inter> set seen = {}"
  by (induction seen cs rule: validateCapabilities.induct) (auto simp: Let_def SupportedModelCapabilities_def)

lemma validateManifest_None:
  assumes "validateManifest m = None"
  shows "trim_space (mf_ID m) \<noteq> []" and "set (en_Providers (mf_Environment m)) \<subseteq> {''kind'', ''k3d''}" and "mf_Cases m \<noteq> []"
    and "\<forall>c\<in>set (mc_Capabilities (mf_Model m)). trim_space c = ''tools''"
  using assms by (simp_all add: validateManifest_def validateProviders_None validateCapabilities_None)

lemma Load_id: "Load fs dir = Inr s \<Longrightarrow> s_ID s \<noteq> []"
  by (elim Load_Inr) (auto dest: validate_None(1))

lemma loadEntries_id: "loadEntries fs d c es = Inr ss \<Longrightarrow> \<forall>s\<in>set ss. s_ID s \<noteq> []"
  by (induction es arbitrary: ss) (auto simp: Let_def dest!: Load_id split: if_splits sum.splits)

lemma loadCategories_id: "loadCategories fs base cs = Inr ss \<Longrightarrow> \<forall>s\<in>set ss. s_ID s \<noteq> []"
  by (induction cs arbitrary: ss) (auto dest!: loadEntries_id split: if_splits sum.splits option.splits)

lemma Resolve_id: "Resolve fs base ref = Inr s \<Longrightarrow> s_ID s \<noteq> []"
  by (auto simp: Resolve_def LoadAll_def find_Some_iff dest!: Load_id loadCategories_id
      split: if_splits sum.splits option.splits)

lemma suite_plan_suite:
  assumes "suiteLoad fs doc sha walk mp pr = Inr l" and "list_all (\<lambda>s. trim_space (s_ID s) = s_ID s) (lo_Scenarios l)"
  shows "trim_space (su_ID (EvaluationSuite l)) \<noteq> []" and "trim_space (su_Digest (EvaluationSuite l)) \<noteq> []"
    and "su_Cases (EvaluationSuite l) \<noteq> []"
    and "[] \<notin> set (map (\<lambda>c. trim_space (cp_ID c)) (su_Cases (EvaluationSuite l)))"
    and "distinct (map (\<lambda>c. trim_space (cp_ID c)) (su_Cases (EvaluationSuite l)))"
proof -
  from assms(1) [unfolded suiteLoad_Inr_iff] obtain prj path d where
    l: "validateManifest (lo_Manifest l) = None" "list_all2 (case_fits fs (Join prj ''scenarios'') (mf_Environment (lo_Manifest l))) (mf_Cases (lo_Manifest l)) (lo_Scenarios l)"
      "distinct (map s_ID (lo_Scenarios l))" "digestInputs sha walk fs prj path (l\<lparr>lo_Digest := []\<rparr>) = Inr d" "lo_Digest l = d"
      "lo_Identity l = mf_ID (lo_Manifest l) @ ''@'' @ int_text (mf_Revision (lo_Manifest l))"
    by blast
  have m: "mf_Cases (lo_Manifest l) \<noteq> []" using l(1) by (rule validateManifest_None)
  have ids: "map (\<lambda>c. trim_space (cp_ID c)) (su_Cases (EvaluationSuite l)) = map s_ID (lo_Scenarios l)"
    using assms(2) by (simp add: EvaluationSuite_def list_all_iff)
  have "CHR ''@'' \<in> set (su_ID (EvaluationSuite l))" using l(6) by (simp add: EvaluationSuite_def)
  then show "trim_space (su_ID (EvaluationSuite l)) \<noteq> []" by (rule trim_space_keeps) (simp add: is_space_def)
  have "CHR '':'' \<in> set (su_Digest (EvaluationSuite l))"
    using l(4) unfolding EvaluationSuite_def SuitePlan.simps l(5) by (auto simp: digestInputs_def split: sum.splits)
  then show "trim_space (su_Digest (EvaluationSuite l)) \<noteq> []" by (rule trim_space_keeps) (simp add: is_space_def)
  show "su_Cases (EvaluationSuite l) \<noteq> []" using m l(2) by (auto simp: EvaluationSuite_def)
  show "[] \<notin> set (map (\<lambda>c. trim_space (cp_ID c)) (su_Cases (EvaluationSuite l)))"
    unfolding ids using l(2) by (fastforce simp: list_all2_conv_all_nth in_set_conv_nth case_fits_def dest: Resolve_id)
  show "distinct (map (\<lambda>c. trim_space (cp_ID c)) (su_Cases (EvaluationSuite l)))" unfolding ids by (rule l(3))
qed

text \<open>
  A loaded suite makes an acceptable plan. If the ids of its scenarios carry no
  surrounding white space, then any plan for the suite on one of its providers with a complete
  target, a positive timeout and a single attempt passes the validation of the evaluation service:
  no suite that loads is refused later for its own contents. Its required capabilities are in the
  supported vocabulary.
\<close>

theorem suite_plan_accepted:
  assumes "suiteLoad fs doc sha walk manifestPath projectRoot = Inr l"
    and "list_all (\<lambda>s. trim_space (s_ID s) = s_ID s) (lo_Scenarios l)"
    and "pl_Suite p = EvaluationSuite l" and "ep_Provider (pl_Environment p) \<in> set (en_Providers (mf_Environment (lo_Manifest l)))"
    and "tp_Kind (pl_Target p) = TargetModel \<and> trim_space (tp_Provider (pl_Target p)) \<noteq> [] \<and> trim_space (tp_Model (pl_Target p)) \<noteq> [] \<or>
      tp_Kind (pl_Target p) = TargetAgent \<and> trim_space (tp_Adapter (pl_Target p)) \<noteq> []"
    and "0 < li_CaseTimeout (pl_Limits p)" and "pl_Attempts p = 1"
  shows "ValidatePlan p = None \<and> set (su_RequiredModelCapabilities (pl_Suite p)) \<subseteq> set SupportedModelCapabilities"
proof -
  have v: "validateManifest (lo_Manifest l) = None" using assms(1) [unfolded suiteLoad_Inr_iff] by blast
  have "ep_Provider (pl_Environment p) \<in> {''kind'', ''k3d''}"
    using assms(4) validateManifest_None(2) [OF v] by blast
  moreover have "trim_space ''kind'' \<noteq> []" "trim_space ''k3d'' \<noteq> []" by (simp_all add: trim_space_def is_space_def)
  ultimately have "trim_space (ep_Provider (pl_Environment p)) \<noteq> []" by (elim insertE) simp_all
  then have "wf_plan p"
    unfolding wf_plan_def assms(3) using suite_plan_suite [OF assms(1,2)] assms(5,6,7) by blast
  then have "ValidatePlan p = None" by (simp add: plan_accepted_iff_wf)
  moreover have "set (su_RequiredModelCapabilities (EvaluationSuite l)) \<subseteq> set SupportedModelCapabilities"
    using validateManifest_None(4) [OF v] by (auto simp: EvaluationSuite_def SupportedModelCapabilities_def)
  ultimately show ?thesis using assms(3) by simp
qed

section \<open>What the digest detects\<close>

text \<open>
  Two versions of a project that differ in the contents of one file: \<open>edit_file\<close> gives every
  occurrence of the file in the tree walks the same contents.
\<close>

definition edit_file :: "string \<Rightarrow> string \<Rightarrow> (string \<Rightarrow> WalkEntry list) \<Rightarrow> string \<Rightarrow> WalkEntry list" where
  "edit_file p x walk = (\<lambda>d. map (\<lambda>e. if we_Path e = p then e\<lparr>we_Data := Some x\<rparr> else e) (walk d))"

definition input_paths :: "ScenarioFS \<Rightarrow> string \<Rightarrow> string \<Rightarrow> Loaded \<Rightarrow> string list" where
  "input_paths fs prj manifestPath l = manifestPath # map s_Dir (lo_Scenarios l) @
     concat (map (\<lambda>i. case secureProjectPath fs prj i of Inl _ \<Rightarrow> [] | Inr p \<Rightarrow> [p]) (mf_Includes (lo_Manifest l)))"

definition occurs :: "string \<Rightarrow> WalkEntry list \<Rightarrow> bool" where
  "occurs p es \<longleftrightarrow> (\<exists>e\<in>set es. we_Path e = p \<and> we_Kind e = Regular)"

text \<open>
  How the streams of two versions relate: the contents \<open>x\<close> and \<open>y\<close> stand at \<open>n\<close> places, so the lengths differ
  by a multiple, and at equal lengths the streams are equal only if the contents are.
\<close>

definition edited :: "nat \<Rightarrow> string \<Rightarrow> string \<Rightarrow> string \<Rightarrow> string \<Rightarrow> bool" where
  "edited n x y a b \<longleftrightarrow> length a + n * length y = length b + n * length x \<and>
     (length x = length y \<longrightarrow> a = b \<longrightarrow> n = 0 \<or> x = y)"

lemma edited_same: "edited 0 x y c c"
  by (simp add: edited_def)

lemma edited_here: "edited 1 x y (c @ x) (c @ y)"
  by (simp add: edited_def)

lemma edited_append:
  assumes "edited n x y a b" and "edited m x y a' b'"
  shows "edited (n + m) x y (a @ a') (b @ b')"
  using assms by (auto simp: edited_def algebra_simps)

lemma edited_unchanged:
  assumes "edited n x y a a" and "0 < n"
  shows "x = y"
  using assms by (auto simp: edited_def)

lemma hashEntry_edited:
  assumes "hashEntry prj (if we_Path e = p then e\<lparr>we_Data := Some x\<rparr> else e) = Inr a"
    and "hashEntry prj (if we_Path e = p then e\<lparr>we_Data := Some y\<rparr> else e) = Inr b"
  shows "\<exists>n. edited n x y a b \<and> (we_Path e = p \<and> we_Kind e = Regular \<longrightarrow> 0 < n)"
proof (cases "we_Path e = p \<and> we_Kind e = Regular")
  case True
  then obtain c where "a = c @ x" "b = c @ y"
    using assms by (force simp: hashEntry_def split: if_splits option.splits)
  then show ?thesis using edited_here by (intro exI [of _ 1]) simp
next
  case False
  then have "a = b" using assms by (auto simp: hashEntry_def split: if_splits option.splits)
  then show ?thesis using False edited_same by blast
qed

text \<open>A part of the stream in two versions, which holds the file in at least one place if \<open>P\<close>.\<close>

definition both_edited :: "string \<Rightarrow> string \<Rightarrow> bool \<Rightarrow> (suite_error, string) result \<Rightarrow> (suite_error, string) result \<Rightarrow> bool" where
  "both_edited x y P r r' \<longleftrightarrow> (\<forall>a b. r = Inr a \<longrightarrow> r' = Inr b \<longrightarrow> (\<exists>n. edited n x y a b \<and> (P \<longrightarrow> 0 < n)))"

lemma both_edited_append:
  assumes "both_edited x y P r r'" and "both_edited x y Q s s'"
  shows "both_edited x y (P \<or> Q)
    (case r of Inl e \<Rightarrow> Inl e | Inr a \<Rightarrow> (case s of Inl e \<Rightarrow> Inl e | Inr b \<Rightarrow> Inr (a @ b)))
    (case r' of Inl e \<Rightarrow> Inl e | Inr a \<Rightarrow> (case s' of Inl e \<Rightarrow> Inl e | Inr b \<Rightarrow> Inr (a @ b)))"
proof -
  have "\<exists>k. edited k x y (a @ c) (b @ d) \<and> (P \<or> Q \<longrightarrow> 0 < k)"
    if "r = Inr a" "r' = Inr b" "s = Inr c" "s' = Inr d" for a b c d
  proof -
    obtain n where "edited n x y a b" "P \<longrightarrow> 0 < n" using assms(1) \<open>r = Inr a\<close> \<open>r' = Inr b\<close> by (auto simp: both_edited_def)
    moreover obtain m where "edited m x y c d" "Q \<longrightarrow> 0 < m" using assms(2) \<open>s = Inr c\<close> \<open>s' = Inr d\<close> by (auto simp: both_edited_def)
    ultimately show ?thesis using edited_append by (intro exI [of _ "n + m"]) auto
  qed
  then show ?thesis by (auto simp: both_edited_def split: sum.splits)
qed

lemma both_edited_prefix:
  assumes "both_edited x y P r r'"
  shows "both_edited x y P (case r of Inl e \<Rightarrow> Inl e | Inr a \<Rightarrow> Inr (c @ a)) (case r' of Inl e \<Rightarrow> Inl e | Inr a \<Rightarrow> Inr (c @ a))"
proof -
  have "edited n x y (c @ a) (c @ b)" if "edited n x y a b" for n a b
    using edited_append [OF edited_same that, of c] by simp
  with assms show ?thesis unfolding both_edited_def by (fastforce split: sum.splits)
qed

lemma hashEntries_edited:
  "both_edited x y (occurs p es)
     (hashEntries prj (map (\<lambda>e. if we_Path e = p then e\<lparr>we_Data := Some x\<rparr> else e) es))
     (hashEntries prj (map (\<lambda>e. if we_Path e = p then e\<lparr>we_Data := Some y\<rparr> else e) es))"
proof (induction es)
  case Nil
  then show ?case using edited_same by (auto simp: both_edited_def occurs_def)
next
  case (Cons e es)
  have o: "occurs p (e # es) \<longleftrightarrow> (we_Path e = p \<and> we_Kind e = Regular) \<or> occurs p es" by (simp add: occurs_def)
  have "both_edited x y (we_Path e = p \<and> we_Kind e = Regular)
    (hashEntry prj (if we_Path e = p then e\<lparr>we_Data := Some x\<rparr> else e))
    (hashEntry prj (if we_Path e = p then e\<lparr>we_Data := Some y\<rparr> else e))"
    using hashEntry_edited unfolding both_edited_def by blast
  from both_edited_append [OF this Cons.IH] show ?case by (simp add: o)
qed

lemma hashPath_edited:
  "both_edited x y (occurs p (walk path)) (hashPath (edit_file p x walk) prj path label) (hashPath (edit_file p y walk) prj path label)"
  unfolding hashPath_def edit_file_def by (rule both_edited_prefix [OF hashEntries_edited])

lemma hashCases_edited:
  "both_edited x y (\<exists>s\<in>set ss. occurs p (walk (s_Dir s)))
     (hashCases (edit_file p x walk) prj i ss refs) (hashCases (edit_file p y walk) prj i ss refs)"
proof (induction ss arbitrary: i refs)
  case Nil
  then show ?case using edited_same by (auto simp: both_edited_def)
next
  case (Cons s ss)
  show ?case
  proof (cases refs)
    case (Cons ref refs')
    have "both_edited x y (occurs p (walk (s_Dir s)) \<or> (\<exists>s\<in>set ss. occurs p (walk (s_Dir s))))
      (hashCases (edit_file p x walk) prj i (s # ss) (ref # refs')) (hashCases (edit_file p y walk) prj i (s # ss) (ref # refs'))"
      unfolding hashCases.simps by (rule both_edited_append [OF hashPath_edited Cons.IH])
    then show ?thesis by (simp add: Cons)
  qed (simp add: both_edited_def)
qed

lemma hashIncludes_edited:
  "both_edited x y (\<exists>d\<in>set (concat (map (\<lambda>i. case secureProjectPath fs prj i of Inl _ \<Rightarrow> [] | Inr p \<Rightarrow> [p]) incs)). occurs p (walk d))
     (hashIncludes (edit_file p x walk) fs prj i incs) (hashIncludes (edit_file p y walk) fs prj i incs)"
proof (induction incs arbitrary: i)
  case Nil
  then show ?case using edited_same by (auto simp: both_edited_def)
next
  case (Cons inc incs)
  show ?case
  proof (cases "secureProjectPath fs prj inc")
    case (Inr d)
    show ?thesis using both_edited_append [OF hashPath_edited Cons.IH] by (simp add: Inr)
  qed (simp add: both_edited_def)
qed

lemma digestStream_edited:
  "both_edited x y (\<exists>d\<in>set (input_paths fs prj manifestPath l). occurs p (walk d))
     (digestStream (edit_file p x walk) fs prj manifestPath l) (digestStream (edit_file p y walk) fs prj manifestPath l)"
proof -
  have assoc: "digestStream w fs prj manifestPath l =
    (case hashPath w prj manifestPath ''manifest'' of Inl x \<Rightarrow> Inl x | Inr a \<Rightarrow>
      (case (case hashCases w prj 0 (lo_Scenarios l) (mf_Cases (lo_Manifest l)) of Inl x \<Rightarrow> Inl x
        | Inr b \<Rightarrow> (case hashIncludes w fs prj 0 (mf_Includes (lo_Manifest l)) of Inl x \<Rightarrow> Inl x | Inr c \<Rightarrow> Inr (b @ c)))
       of Inl x \<Rightarrow> Inl x | Inr bc \<Rightarrow> Inr (a @ bc)))" for w
    by (simp add: digestStream_def split: sum.split)
  have o: "(\<exists>d\<in>set (input_paths fs prj manifestPath l). occurs p (walk d)) \<longleftrightarrow>
    occurs p (walk manifestPath) \<or> (\<exists>s\<in>set (lo_Scenarios l). occurs p (walk (s_Dir s))) \<or>
    (\<exists>d\<in>set (concat (map (\<lambda>i. case secureProjectPath fs prj i of Inl _ \<Rightarrow> [] | Inr p \<Rightarrow> [p]) (mf_Includes (lo_Manifest l)))). occurs p (walk d))"
    by (auto simp: input_paths_def)
  show ?thesis unfolding assoc o by (intro both_edited_append hashPath_edited hashCases_edited hashIncludes_edited)
qed

text \<open>
  Editing a suite changes its digest. Take two versions of a project that differ in the
  contents of one regular file which the manifest, a case or an include brings into the suite, however
  often. If both can be hashed and the hash does not collide on the two streams, equal digests mean equal
  contents.
\<close>

theorem digest_detects_edit:
  assumes "digestInputs sha (edit_file p x walk) fs prj manifestPath l = Inr d"
    and "digestInputs sha (edit_file p y walk) fs prj manifestPath l = Inr d"
    and "\<And>a b. digestStream (edit_file p x walk) fs prj manifestPath l = Inr a \<Longrightarrow>
      digestStream (edit_file p y walk) fs prj manifestPath l = Inr b \<Longrightarrow> sha a = sha b \<Longrightarrow> a = b"
    and "dir \<in> set (input_paths fs prj manifestPath l)" and "occurs p (walk dir)"
  shows "x = y"
proof -
  obtain a b where ab: "digestStream (edit_file p x walk) fs prj manifestPath l = Inr a"
    "digestStream (edit_file p y walk) fs prj manifestPath l = Inr b" "sha a = sha b"
    using assms(1,2) by (auto simp: digestInputs_def split: sum.splits)
  then have "a = b" by (rule assms(3))
  moreover obtain n where "edited n x y a b" "0 < n"
    using digestStream_edited ab(1,2) assms(4,5) unfolding both_edited_def by blast
  ultimately show ?thesis using edited_unchanged by blast
qed

section \<open>Witnesses and gaps\<close>

definition suite_fs :: "string \<Rightarrow> ScenarioFS" where
  "suite_fs ident = \<lparr>fs_Doc = (\<lambda>d. if d = ''/p/scenarios/k8s/s1'' then Doc ((demo_scenario ''ConfigMaps'' [])\<lparr>s_ID := ident\<rparr>) else DocMissing),
     fs_ReadDir = (\<lambda>d. None), fs_Abs = (\<lambda>p. Some (Clean (if IsAbs p then p else ''/'' @ p))), fs_EvalSymlinks = (\<lambda>p. Some p)\<rparr>"

definition suite_manifest :: Manifest where
  "suite_manifest = \<lparr>mf_Schema = SchemaV1, mf_ID = ''core'', mf_Revision = 3,
     mf_Environment = \<lparr>en_Profile = ''default'', en_Providers = [''kind'']\<rparr>, mf_Model = \<lparr>mc_Capabilities = ['' tools'']\<rparr>,
     mf_Cases = [''k8s/s1''], mf_Includes = [''assets''], mf_Limitations = []\<rparr>"

definition regular :: "string \<Rightarrow> string \<Rightarrow> WalkEntry" where
  "regular p d = \<lparr>we_Path = p, we_Err = False, we_InfoErr = False, we_Kind = Regular, we_Perm = ''-rw-r--r--'', we_Data = Some d\<rparr>"

definition suite_walk :: "string \<Rightarrow> WalkEntry list" where
  "suite_walk d = (if d = ''/p/suite.yaml'' then [regular d ''m'']
     else if d = ''/p/scenarios/k8s/s1'' then [(regular d [])\<lparr>we_Kind := Directory\<rparr>, regular ''/p/scenarios/k8s/s1/scenario.yaml'' ''s'']
     else if d = ''/p/assets'' then [regular ''/p/assets/a'' ''a'', regular ''/p/assets/b'' ''b''] else [])"

definition suite_loaded :: "string \<Rightarrow> Loaded" where
  "suite_loaded ident = projr (suiteLoad (suite_fs ident) (\<lambda>_. ManifestDoc suite_manifest) (\<lambda>b. b) suite_walk ''suite.yaml'' ''/p'')"

lemma suite_loaded_s1: "suiteLoad (suite_fs ''s1'') (\<lambda>_. ManifestDoc suite_manifest) (\<lambda>b. b) suite_walk ''suite.yaml'' ''/p'' = Inr (suite_loaded ''s1'')"
proof -
  have "\<not> isl (suiteLoad (suite_fs ''s1'') (\<lambda>_. ManifestDoc suite_manifest) (\<lambda>b. b) suite_walk ''suite.yaml'' ''/p'')" by code_simp
  then show ?thesis by (simp add: suite_loaded_def)
qed

theorem suite_plan_accepted_witness:
  "ValidatePlan (demo_eval_plan\<lparr>pl_Suite := EvaluationSuite (suite_loaded ''s1'')\<rparr>) = None \<and>
   map cp_ID (su_Cases (EvaluationSuite (suite_loaded ''s1''))) = [''s1''] \<and> su_ID (EvaluationSuite (suite_loaded ''s1'')) = ''core@3''"
proof -
  have a: "list_all (\<lambda>s. trim_space (s_ID s) = s_ID s) (lo_Scenarios (suite_loaded ''s1''))" by code_simp
  have b: "en_Providers (mf_Environment (lo_Manifest (suite_loaded ''s1''))) = [''kind'']" by code_simp
  have "map cp_ID (su_Cases (EvaluationSuite (suite_loaded ''s1''))) = [''s1'']" by code_simp
  moreover have "su_ID (EvaluationSuite (suite_loaded ''s1'')) = ''core@3''" by code_simp
  moreover have "ValidatePlan (demo_eval_plan\<lparr>pl_Suite := EvaluationSuite (suite_loaded ''s1'')\<rparr>) = None"
    by (rule conjunct1 [OF suite_plan_accepted [OF suite_loaded_s1 a]])
      (simp_all add: b demo_eval_plan_def trim_space_def is_space_def)
  ultimately show ?thesis by blast
qed

theorem digest_detects_edit_witness:
  "digestInputs (\<lambda>b. b) (edit_file ''/p/assets/a'' ''x'' suite_walk) (suite_fs ''s1'') ''/p'' ''/p/suite.yaml'' (suite_loaded ''s1'') \<noteq>
   digestInputs (\<lambda>b. b) (edit_file ''/p/assets/a'' ''yy'' suite_walk) (suite_fs ''s1'') ''/p'' ''/p/suite.yaml'' (suite_loaded ''s1'')"
  (is "?d \<noteq> ?e")
proof
  assume eq: "?d = ?e"
  have "\<not> isl ?d" by code_simp
  then have d: "?d = Inr (projr ?d)" by simp
  have e: "?e = Inr (projr ?d)" using d eq by simp
  have i: "''/p/assets'' \<in> set (input_paths (suite_fs ''s1'') ''/p'' ''/p/suite.yaml'' (suite_loaded ''s1''))" by code_simp
  have o: "occurs ''/p/assets/a'' (suite_walk ''/p/assets'')" by code_simp
  from digest_detects_edit [OF d e _ i o] show False by simp
qed

text \<open>
  The loader compares and keeps scenario ids as they are written, the plan trims them: a suite whose
  scenario id is white space loads and its plan is refused.
\<close>

lemma blank_id_loads_and_fails:
  "isl (suiteLoad (suite_fs '' '') (\<lambda>_. ManifestDoc suite_manifest) (\<lambda>b. b) suite_walk ''suite.yaml'' ''/p'') = False \<and>
   ValidatePlan (demo_eval_plan\<lparr>pl_Suite := EvaluationSuite (suite_loaded '' '')\<rparr>) = Some (CaseIDRequired 0)"
  by code_simp

text \<open>
  Names and permissions of the hashed files are framed by their lengths, contents are not. Moving
  the header of the next file to the end of the file before it leaves the digest as it was.
\<close>

lemma digest_misses_moved_contents:
  assumes "Rel prj g = Some rel" and "\<not> isl (hashEntry prj (regular g z))"
  defines "header \<equiv> writeHashField rel @ writeHashField ''-rw-r--r--''"
  shows "hashEntries prj [regular f [], regular g (header @ z)] = hashEntries prj [regular f header, regular g z]"
  using assms(1,2) by (auto simp: hashEntry_def regular_def header_def split: option.split)

lemma digest_misses_moved_contents_instance:
  "hashEntries ''/p'' [regular ''/p/a'' [], regular ''/p/b'' (writeHashField ''b'' @ writeHashField ''-rw-r--r--'' @ ''z'')] =
   hashEntries ''/p'' [regular ''/p/a'' (writeHashField ''b'' @ writeHashField ''-rw-r--r--''), regular ''/p/b'' ''z'']"
  by code_simp

end
