(* ===== verification/Auth.thy ===== *)
theory Auth
  imports Go_Prelude Go_Steps
begin

text \<open>
  Authentication of the bench API: \<^verbatim>\<open>internal/auth\<close> (bearer keys, signed session cookies, the
  middlewares) and the session endpoints of \<^verbatim>\<open>cmd/bench-cli/bench_api.go\<close>. The JSON and base64 codecs and the
  HMAC are parameters; times are integers in nanoseconds since the epoch. The lemmas show that a session
  works until it expires and, over all histories of the server, that every accepted request goes back
  to the API key.
\<close>

section \<open>Requests and keys\<close>

text \<open>What the code reads of a request: headers (\<open>Header.Get\<close>), cookies in their order, whether TLS was used.\<close>

record HttpRequest =
  hr_Authorization :: string
  hr_ForwardedProto :: string
  hr_Cookies :: "(string \<times> string) list"
  hr_TLS :: bool

definition bearerPrefix :: string where
  "bearerPrefix = ''bearer ''"

definition SessionCookieName :: string where
  "SessionCookieName = ''bench_session''"

definition ParseBearerToken :: "string \<Rightarrow> string" where
  "ParseBearerToken header =
     (let trimmed = trim_space header in
      if \<not> has_prefix (to_lower trimmed) bearerPrefix then [] else drop (length bearerPrefix) trimmed)"

definition StaticKeyMatches :: "string \<Rightarrow> string \<Rightarrow> bool" where
  "StaticKeyMatches apiKey candidate \<longleftrightarrow> \<not> (trim_space apiKey = [] \<or> candidate = []) \<and> candidate = apiKey"

section \<open>Sessions\<close>

record sessionClaims =
  sc_TenantID :: string
  sc_ExpiresAt :: int

record Crypto =
  cy_Marshal :: "sessionClaims \<Rightarrow> string option"
  cy_Unmarshal :: "string \<Rightarrow> sessionClaims option"
  cy_Encode :: "string \<Rightarrow> string"
  cy_Decode :: "string \<Rightarrow> string option"
  cy_Hmac :: "string \<Rightarrow> string \<Rightarrow> string"

record Cookie =
  co_Name :: string
  co_Value :: string
  co_Path :: string
  co_Expires :: int
  co_MaxAge :: int
  co_HttpOnly :: bool
  co_Secure :: bool

definition second :: int where
  "second = 1000000000"

definition unix :: "int \<Rightarrow> int" where
  "unix t = t div second"

definition signSessionPayload :: "Crypto \<Rightarrow> string \<Rightarrow> string \<Rightarrow> string" where
  "signSessionPayload cy apiKey encodedPayload = cy_Encode cy (cy_Hmac cy apiKey encodedPayload)"

datatype session_error = APIKeyRequired | TenantRequired | ClaimsUnmarshallable

definition newSessionCookieValue :: "Crypto \<Rightarrow> string \<Rightarrow> string \<Rightarrow> int \<Rightarrow> (session_error, string) result" where
  "newSessionCookieValue cy apiKey tenantID expiresAt =
     (if trim_space apiKey = [] then Inl APIKeyRequired
      else if trim_space tenantID = [] then Inl TenantRequired
      else (case cy_Marshal cy \<lparr>sc_TenantID = tenantID, sc_ExpiresAt = unix expiresAt\<rparr> of
          None \<Rightarrow> Inl ClaimsUnmarshallable
        | Some payload \<Rightarrow>
            (let encodedPayload = cy_Encode cy payload in
             Inr (encodedPayload @ ''.'' @ signSessionPayload cy apiKey encodedPayload))))"

definition verifySessionCookieValue :: "Crypto \<Rightarrow> string \<Rightarrow> string \<Rightarrow> int \<Rightarrow> string option" where
  "verifySessionCookieValue cy apiKey value now =
     (if trim_space apiKey = [] then None
      else (case split_at CHR ''.'' value of
          [payload, sig] \<Rightarrow>
            if sig \<noteq> signSessionPayload cy apiKey payload then None
            else (case cy_Decode cy payload of
                None \<Rightarrow> None
              | Some raw \<Rightarrow> (case cy_Unmarshal cy raw of
                  None \<Rightarrow> None
                | Some claims \<Rightarrow>
                    if trim_space (sc_TenantID claims) = [] \<or> sc_ExpiresAt claims \<le> unix now then None
                    else Some (sc_TenantID claims)))
        | _ \<Rightarrow> None))"

definition secureCookieRequest :: "HttpRequest option \<Rightarrow> bool" where
  "secureCookieRequest r = (case r of
     None \<Rightarrow> False
   | Some q \<Rightarrow> hr_TLS q \<or> equal_fold (trim_space (hr_ForwardedProto q)) ''https'')"

definition NewSessionCookie :: "Crypto \<Rightarrow> int \<Rightarrow> HttpRequest option \<Rightarrow> string \<Rightarrow> string \<Rightarrow> int \<Rightarrow> (session_error, Cookie) result" where
  "NewSessionCookie cy now r apiKey tenantID ttl0 =
     (let ttl = if ttl0 \<le> 0 then 12 * 3600 * second else ttl0; expires = now + ttl in
      case newSessionCookieValue cy apiKey tenantID expires of
        Inl e \<Rightarrow> Inl e
      | Inr value \<Rightarrow> Inr \<lparr>co_Name = SessionCookieName, co_Value = value, co_Path = ''/'', co_Expires = expires,
          co_MaxAge = ttl div second, co_HttpOnly = True, co_Secure = secureCookieRequest r\<rparr>)"

definition ClearSessionCookie :: "HttpRequest option \<Rightarrow> Cookie" where
  "ClearSessionCookie r = \<lparr>co_Name = SessionCookieName, co_Value = [], co_Path = ''/'', co_Expires = 0, co_MaxAge = - 1,
     co_HttpOnly = True, co_Secure = secureCookieRequest r\<rparr>"

section \<open>Middlewares and endpoints\<close>

definition requestCookie :: "HttpRequest \<Rightarrow> string \<Rightarrow> string option" where
  "requestCookie r name = map_of (hr_Cookies r) name"

definition AuthenticateStaticRequest :: "Crypto \<Rightarrow> int \<Rightarrow> HttpRequest \<Rightarrow> string \<Rightarrow> string \<Rightarrow> string option" where
  "AuthenticateStaticRequest cy now r apiKey defaultTenant =
     (let token = ParseBearerToken (hr_Authorization r) in
      if StaticKeyMatches apiKey token then Some defaultTenant
      else if trim_space apiKey = [] then None
      else (case requestCookie r SessionCookieName of
          None \<Rightarrow> None
        | Some value \<Rightarrow> (case verifySessionCookieValue cy apiKey value now of
            None \<Rightarrow> None
          | Some tenantID \<Rightarrow> if defaultTenant \<noteq> [] \<and> tenantID \<noteq> defaultTenant then None else Some tenantID)))"

text \<open>A middleware refuses a request with 401 or passes it on with the tenant in its context.\<close>

datatype passed = Unauthorized | Next string

definition StaticKeyMiddleware :: "Crypto \<Rightarrow> int \<Rightarrow> string \<Rightarrow> string \<Rightarrow> HttpRequest \<Rightarrow> passed" where
  "StaticKeyMiddleware cy now apiKey defaultTenant r = (case AuthenticateStaticRequest cy now r apiKey defaultTenant of
     None \<Rightarrow> Unauthorized | Some tenantID \<Rightarrow> Next tenantID)"

definition KeyStoreMiddleware :: "(string \<Rightarrow> string option) \<Rightarrow> HttpRequest \<Rightarrow> passed" where
  "KeyStoreMiddleware lookup r =
     (let token = ParseBearerToken (hr_Authorization r) in
      if token = [] then Unauthorized
      else (case lookup token of None \<Rightarrow> Unauthorized | Some tenantID \<Rightarrow> Next tenantID))"

definition AuthCheckHandler :: "string \<Rightarrow> passed" where
  "AuthCheckHandler tid = (if tid = [] then Unauthorized else Next tid)"

definition benchBrowserSessionTTL :: int where
  "benchBrowserSessionTTL = 12 * 3600 * second"

datatype login_reply = BadLoginJSON | LoginUnauthorized | LoginFailed session_error | LoggedIn Cookie

text \<open>The login endpoint: the argument is the decoded key of the body, or nothing if it is not valid JSON.\<close>

definition handleBenchSessionLogin :: "Crypto \<Rightarrow> int \<Rightarrow> string \<Rightarrow> string \<Rightarrow> HttpRequest \<Rightarrow> string option \<Rightarrow> login_reply" where
  "handleBenchSessionLogin cy now apiKey tenantID r body = (case body of
     None \<Rightarrow> BadLoginJSON
   | Some key \<Rightarrow>
       if \<not> StaticKeyMatches apiKey key then LoginUnauthorized
       else (case NewSessionCookie cy now (Some r) apiKey tenantID benchBrowserSessionTTL of
           Inl e \<Rightarrow> LoginFailed e | Inr cookie \<Rightarrow> LoggedIn cookie))"

definition handleBenchSessionStatus :: "Crypto \<Rightarrow> int \<Rightarrow> string \<Rightarrow> string \<Rightarrow> HttpRequest \<Rightarrow> string option" where
  "handleBenchSessionStatus cy now apiKey tenantID r = AuthenticateStaticRequest cy now r apiKey tenantID"

section \<open>Sessions work until they expire\<close>

text \<open>What the documentation of the codecs promises: decoding inverts encoding, and encoded text has no dot.\<close>

definition sound_crypto :: "Crypto \<Rightarrow> bool" where
  "sound_crypto cy \<longleftrightarrow> (\<forall>c p. cy_Marshal cy c = Some p \<longrightarrow> cy_Unmarshal cy p = Some c) \<and>
     (\<forall>s. cy_Decode cy (cy_Encode cy s) = Some s) \<and> (\<forall>s. CHR ''.'' \<notin> set (cy_Encode cy s))"

lemma split_two:
  assumes "c \<notin> set a" and "c \<notin> set b"
  shows "split_at c (a @ [c] @ b) = [a, b]"
  using assms by (simp add: split_at_append split_at_absent)

lemma verify_new:
  assumes "sound_crypto cy" and "newSessionCookieValue cy apiKey tenantID expiresAt = Inr value"
  shows "verifySessionCookieValue cy apiKey value now = (if unix now < unix expiresAt then Some tenantID else None)"
proof -
  from assms(2) obtain payload where p: "trim_space apiKey \<noteq> []" "trim_space tenantID \<noteq> []"
    "cy_Marshal cy \<lparr>sc_TenantID = tenantID, sc_ExpiresAt = unix expiresAt\<rparr> = Some payload"
    "value = cy_Encode cy payload @ ''.'' @ signSessionPayload cy apiKey (cy_Encode cy payload)"
    by (auto simp: newSessionCookieValue_def Let_def split: if_splits option.splits)
  have "split_at CHR ''.'' value = [cy_Encode cy payload, signSessionPayload cy apiKey (cy_Encode cy payload)]"
    unfolding p(4) by (rule split_two) (use assms(1) in \<open>simp_all add: sound_crypto_def signSessionPayload_def\<close>)
  then show ?thesis using assms(1) p(1-3) by (simp add: verifySessionCookieValue_def sound_crypto_def)
qed

text \<open>
  A session lasts exactly its lifetime. A browser that logs in with the key gets a cookie;
  with it alone a request is accepted for the tenant of the server until the second in which the
  cookie expires, and refused from then on.
\<close>

theorem session_round_trip:
  assumes "sound_crypto cy" and "handleBenchSessionLogin cy t apiKey tenantID r (Some key) = LoggedIn cookie"
    and "hr_Authorization q = []" and "hr_Cookies q = [(co_Name cookie, co_Value cookie)]"
  shows "key = apiKey \<and> co_Expires cookie = t + 12 * 3600 * second \<and>
    StaticKeyMiddleware cy now apiKey tenantID q = (if unix now < unix (co_Expires cookie) then Next tenantID else Unauthorized)"
proof -
  from assms(2) have k: "StaticKeyMatches apiKey key" "NewSessionCookie cy t (Some r) apiKey tenantID benchBrowserSessionTTL = Inr cookie"
    by (auto simp: handleBenchSessionLogin_def split: if_splits sum.splits)
  have "benchBrowserSessionTTL > 0" "benchBrowserSessionTTL = 12 * 3600 * second" by (simp_all add: benchBrowserSessionTTL_def second_def)
  with k(2) obtain v where v: "newSessionCookieValue cy apiKey tenantID (t + 12 * 3600 * second) = Inr v"
    "co_Name cookie = SessionCookieName" "co_Value cookie = v" "co_Expires cookie = t + 12 * 3600 * second"
    by (auto simp: NewSessionCookie_def Let_def split: sum.splits)
  have "trim_space apiKey \<noteq> []" "key = apiKey" using k(1) by (auto simp: StaticKeyMatches_def)
  moreover have "\<not> StaticKeyMatches apiKey (ParseBearerToken [])"
    by (simp add: StaticKeyMatches_def ParseBearerToken_def trim_space_def to_lower_def has_prefix_def bearerPrefix_def)
  ultimately show ?thesis
    using verify_new [OF assms(1) v(1), of now] v(2-4) assms(3,4)
    by (simp add: StaticKeyMiddleware_def AuthenticateStaticRequest_def Let_def requestCookie_def)
qed

section \<open>Every session goes back to the key\<close>

text \<open>
  A server over time: its clock and the logins it answered with a cookie (time, presented key,
  cookie). Refused logins and all other requests leave the state as it is.
\<close>

record AuthServer =
  au_Now :: int
  au_Logins :: "(int \<times> string \<times> Cookie) list"

inductive auth_step :: "Crypto \<Rightarrow> string \<Rightarrow> string \<Rightarrow> AuthServer \<Rightarrow> AuthServer \<Rightarrow> bool"
  for cy :: Crypto and apiKey tenantID :: string
where
  tick: "au_Now s \<le> now \<Longrightarrow> auth_step cy apiKey tenantID s (s\<lparr>au_Now := now\<rparr>)"
| login: "handleBenchSessionLogin cy (au_Now s) apiKey tenantID r (Some key) = LoggedIn cookie \<Longrightarrow>
    auth_step cy apiKey tenantID s (s\<lparr>au_Logins := (au_Now s, key, cookie) # au_Logins s\<rparr>)"

inductive_cases auth_stepE: "auth_step cy apiKey tenantID s t"

definition auth_init :: "AuthServer \<Rightarrow> bool" where
  "auth_init s \<longleftrightarrow> au_Logins s = []"

definition login_ok :: "Crypto \<Rightarrow> string \<Rightarrow> string \<Rightarrow> int \<Rightarrow> int \<times> string \<times> Cookie \<Rightarrow> bool" where
  "login_ok cy apiKey tenantID now l = (case l of (t, key, cookie) \<Rightarrow>
     key = apiKey \<and> t \<le> now \<and> newSessionCookieValue cy apiKey tenantID (t + 12 * 3600 * second) = Inr (co_Value cookie))"

definition auth_inv :: "Crypto \<Rightarrow> string \<Rightarrow> string \<Rightarrow> AuthServer \<Rightarrow> bool" where
  "auth_inv cy apiKey tenantID s \<longleftrightarrow> list_all (login_ok cy apiKey tenantID (au_Now s)) (au_Logins s)"

lemma login_issues:
  assumes "handleBenchSessionLogin cy t apiKey tenantID r (Some key) = LoggedIn cookie"
  shows "login_ok cy apiKey tenantID t (t, key, cookie)"
  using assms
  by (auto simp: handleBenchSessionLogin_def NewSessionCookie_def Let_def login_ok_def StaticKeyMatches_def
      benchBrowserSessionTTL_def second_def split: if_splits sum.splits)

interpretation auth: invariant_system auth_init "auth_step cy apiKey tenantID" "auth_inv cy apiKey tenantID" for cy apiKey tenantID
proof
  show "auth_inv cy apiKey tenantID s" if "auth_init s" for s
    using that by (simp add: auth_init_def auth_inv_def)
  show "auth_inv cy apiKey tenantID t" if "auth_inv cy apiKey tenantID s" and "auth_step cy apiKey tenantID s t" for s t
    using that(2,1)
    by (elim auth_stepE) (auto simp: auth_inv_def list_all_iff login_ok_def split: prod.splits dest: login_issues)
qed

text \<open>
  Nobody but the server can sign: a session cookie with a valid signature is one that the server
  issued.
\<close>

definition unforged :: "Crypto \<Rightarrow> string \<Rightarrow> AuthServer \<Rightarrow> string \<Rightarrow> bool" where
  "unforged cy apiKey s value \<longleftrightarrow> (\<forall>payload sig. split_at CHR ''.'' value = [payload, sig] \<longrightarrow>
     sig = signSessionPayload cy apiKey payload \<longrightarrow> value \<in> (\<lambda>(t, key, cookie). co_Value cookie) ` set (au_Logins s))"

lemma verify_signed:
  assumes "verifySessionCookieValue cy apiKey value now = Some tid"
  obtains payload sig where "split_at CHR ''.'' value = [payload, sig]" "sig = signSessionPayload cy apiKey payload"
proof -
  obtain payload sig where s: "split_at CHR ''.'' value = [payload, sig]"
    using assms by (auto simp: verifySessionCookieValue_def split: if_splits list.splits)
  moreover from this have "sig = signSessionPayload cy apiKey payload"
    using assms by (simp add: verifySessionCookieValue_def split: if_splits)
  ultimately show ?thesis by (rule that)
qed

text \<open>
  C38: every authenticated request goes back to the API key. In every history of the server, a
  request that the middleware accepts carries the key as its bearer token, or a cookie that was issued less
  than twelve hours ago to a login with the key, provided session signatures cannot be forged; and it is accepted for the
  tenant of the server only.
\<close>

theorem session_requires_key:
  assumes "sound_crypto cy" and "reachable auth_init (auth_step cy apiKey tenantID) s"
    and "StaticKeyMiddleware cy (au_Now s) apiKey tenantID r = Next tid"
    and "\<And>value. requestCookie r SessionCookieName = Some value \<Longrightarrow> unforged cy apiKey s value"
  shows "tid = tenantID \<and> trim_space apiKey \<noteq> [] \<and>
    (ParseBearerToken (hr_Authorization r) = apiKey \<or>
     (\<exists>t cookie. (t, apiKey, cookie) \<in> set (au_Logins s) \<and> requestCookie r SessionCookieName = Some (co_Value cookie) \<and>
        t \<le> au_Now s \<and> unix (au_Now s) < unix (t + 12 * 3600 * second)))"
proof (cases "StaticKeyMatches apiKey (ParseBearerToken (hr_Authorization r))")
  case True
  then show ?thesis using assms(3)
    by (auto simp: StaticKeyMiddleware_def AuthenticateStaticRequest_def StaticKeyMatches_def)
next
  case False
  then obtain cv where v: "requestCookie r SessionCookieName = Some cv" "trim_space apiKey \<noteq> []"
    "verifySessionCookieValue cy apiKey cv (au_Now s) = Some tid"
    using assms(3) by (auto simp: StaticKeyMiddleware_def AuthenticateStaticRequest_def Let_def split: option.splits if_splits)
  obtain payload sig where "split_at CHR ''.'' cv = [payload, sig]" "sig = signSessionPayload cy apiKey payload"
    using v(3) by (rule verify_signed)
  then obtain t key cookie where l: "(t, key, cookie) \<in> set (au_Logins s)" "cv = co_Value cookie"
    using assms(4) [OF v(1)] unfolding unforged_def by fastforce
  have "login_ok cy apiKey tenantID (au_Now s) (t, key, cookie)"
    using auth.holds [OF assms(2)] l(1) by (auto simp: auth_inv_def list_all_iff)
  then have k: "key = apiKey" "t \<le> au_Now s" "newSessionCookieValue cy apiKey tenantID (t + 12 * 3600 * second) = Inr cv"
    using l(2) by (simp_all add: login_ok_def)
  have "unix (au_Now s) < unix (t + 12 * 3600 * second)" "tid = tenantID"
    using verify_new [OF assms(1) k(3), of "au_Now s"] v(3) by (simp_all split: if_splits)
  then show ?thesis using v(1,2) l k(1,2) by blast
qed

section \<open>Witnesses and gaps\<close>

text \<open>Codecs for the witnesses: dots are escaped, one set of claims can be printed.\<close>

fun dot_free :: "string \<Rightarrow> string" where
  "dot_free [] = []"
| "dot_free (c # cs) = (if c = CHR ''.'' then ''xd'' else if c = CHR ''x'' then ''xx'' else [c]) @ dot_free cs"

fun dotted :: "string \<Rightarrow> string" where
  "dotted (c # d # cs) = (if c = CHR ''x'' then (if d = CHR ''d'' then CHR ''.'' else d) # dotted cs else c # dotted (d # cs))"
| "dotted cs = cs"

lemma dotted_Cons: "c \<noteq> CHR ''x'' \<Longrightarrow> dotted (c # cs) = c # dotted cs"
  by (cases cs) simp_all

lemma dotted_dot_free: "dotted (dot_free s) = s"
  by (induction s) (auto simp: dotted_Cons)

lemma dot_free_no_dot: "CHR ''.'' \<notin> set (dot_free s)"
  by (induction s) auto

definition demo_claims :: sessionClaims where
  "demo_claims = \<lparr>sc_TenantID = ''default'', sc_ExpiresAt = 43205\<rparr>"

definition demo_crypto :: Crypto where
  "demo_crypto = \<lparr>cy_Marshal = (\<lambda>c. if c = demo_claims then Some ''p'' else None),
     cy_Unmarshal = (\<lambda>p. if p = ''p'' then Some demo_claims else None),
     cy_Encode = dot_free, cy_Decode = (\<lambda>s. Some (dotted s)), cy_Hmac = (\<lambda>k m. k @ m)\<rparr>"

lemma demo_crypto_sound: "sound_crypto demo_crypto"
  by (auto simp: sound_crypto_def demo_crypto_def dotted_dot_free dot_free_no_dot split: if_splits)

definition demo_login :: HttpRequest where
  "demo_login = \<lparr>hr_Authorization = [], hr_ForwardedProto = ''HTTPS'', hr_Cookies = [], hr_TLS = False\<rparr>"

definition demo_cookie :: Cookie where
  "demo_cookie = (case handleBenchSessionLogin demo_crypto (5 * second) ''k'' ''default'' demo_login (Some ''k'') of LoggedIn c \<Rightarrow> c
     | _ \<Rightarrow> ClearSessionCookie None)"

definition demo_server :: AuthServer where
  "demo_server = \<lparr>au_Now = 100 * second, au_Logins = [(5 * second, ''k'', demo_cookie)]\<rparr>"

lemma demo_login_ok: "handleBenchSessionLogin demo_crypto (5 * second) ''k'' ''default'' demo_login (Some ''k'') = LoggedIn demo_cookie"
proof -
  have "case handleBenchSessionLogin demo_crypto (5 * second) ''k'' ''default'' demo_login (Some ''k'') of LoggedIn c \<Rightarrow> True | _ \<Rightarrow> False"
    by code_simp
  then show ?thesis by (simp add: demo_cookie_def split: login_reply.splits)
qed

lemma demo_server_reachable: "reachable auth_init (auth_step demo_crypto ''k'' ''default'') demo_server"
proof -
  let ?s0 = "\<lparr>au_Now = 5 * second, au_Logins = []\<rparr>"
  let ?s1 = "?s0\<lparr>au_Logins := (au_Now ?s0, ''k'', demo_cookie) # au_Logins ?s0\<rparr>"
  have "reachable auth_init (auth_step demo_crypto ''k'' ''default'') ?s0" by (rule reachable_init) (simp add: auth_init_def)
  then have "reachable auth_init (auth_step demo_crypto ''k'' ''default'') ?s1"
    by (rule reachable_step) (rule login [where r = demo_login], simp add: demo_login_ok)
  then have "reachable auth_init (auth_step demo_crypto ''k'' ''default'') (?s1\<lparr>au_Now := 100 * second\<rparr>)"
    by (rule reachable_step) (rule tick, simp add: second_def)
  then show ?thesis by (simp add: demo_server_def)
qed

definition demo_session :: HttpRequest where
  "demo_session = \<lparr>hr_Authorization = [], hr_ForwardedProto = [], hr_Cookies = [(co_Name demo_cookie, co_Value demo_cookie)], hr_TLS = True\<rparr>"

theorem session_round_trip_witness:
  "StaticKeyMiddleware demo_crypto (43204 * second) ''k'' ''default'' demo_session = Next ''default'' \<and>
   StaticKeyMiddleware demo_crypto (43205 * second) ''k'' ''default'' demo_session = Unauthorized"
proof -
  have q: "hr_Authorization demo_session = []" "hr_Cookies demo_session = [(co_Name demo_cookie, co_Value demo_cookie)]"
    by (simp_all add: demo_session_def)
  show ?thesis
    using session_round_trip [OF demo_crypto_sound demo_login_ok q, of "43204 * second"]
      session_round_trip [OF demo_crypto_sound demo_login_ok q, of "43205 * second"]
    by (simp add: unix_def second_def)
qed

theorem session_requires_key_witness:
  "StaticKeyMiddleware demo_crypto (au_Now demo_server) ''k'' ''default'' demo_session = Next ''default'' \<and>
   requestCookie demo_session SessionCookieName = Some (co_Value demo_cookie) \<and> unix (au_Now demo_server) < unix (43205 * second)"
proof -
  have n: "StaticKeyMiddleware demo_crypto (au_Now demo_server) ''k'' ''default'' demo_session = Next ''default''" by code_simp
  have c: "requestCookie demo_session SessionCookieName = Some (co_Value demo_cookie)" by code_simp
  have t: "ParseBearerToken (hr_Authorization demo_session) \<noteq> ''k''" by code_simp
  have u: "unforged demo_crypto ''k'' demo_server v" if "requestCookie demo_session SessionCookieName = Some v" for v
    using that c by (simp add: unforged_def demo_server_def)
  have "\<exists>t cookie. (t, ''k'', cookie) \<in> set (au_Logins demo_server) \<and> unix (au_Now demo_server) < unix (t + 12 * 3600 * second)"
    using session_requires_key [OF demo_crypto_sound demo_server_reachable n u] t by blast
  then show ?thesis using n c by (auto simp: demo_server_def unix_def second_def)
qed

text \<open>
  The bearer token is trimmed with its header, the configured key is not: a key that ends with a space
  opens a session and is never accepted as a bearer token.
\<close>

lemma padded_key_never_matches_header:
  "StaticKeyMatches ''k '' ''k '' \<and> AuthenticateStaticRequest demo_crypto 0 (demo_login\<lparr>hr_Authorization := ''Bearer k ''\<rparr>) ''k '' ''default'' = None"
  by code_simp

end
