(* ===== verification/Agent_Loop.thy ===== *)
theory Agent_Loop
  imports Go_Prelude Complex_Main "HOL-Library.Sublist"
begin

text \<open>
  The agent loop (\<^verbatim>\<open>pkg/agent/loop.go\<close>), its retry policy (\<^verbatim>\<open>retry.go\<close>) and the cost estimate
  (\<^verbatim>\<open>cost.go\<close>).

  The provider, the tool executor and the two channels are Go interfaces: the record \<open>LoopEnv\<close>
  gives their answers as functions of the turn (and the place of a tool call in it), so any stateful implementation is covered.
  Messages received on the injection channel at the end of a turn are one list; a closed channel
  gives none from then on. Token counts are unbounded integers; prices, a \<^verbatim>\<open>float64\<close> in the code,
  are rationals. Durations are nanoseconds.
\<close>

section \<open>Messages\<close>

record AgentCall =
  ak_ID :: string
  ak_Name :: string
  ak_Arguments :: string

record Message =
  ms_Role :: string
  ms_Content :: string
  ms_ReasoningContent :: string
  ms_ToolCalls :: "AgentCall list"
  ms_ToolCallID :: string

record TokenUsage =
  tu_PromptTokens :: int
  tu_CompletionTokens :: int
  tu_CacheCreationInputTokens :: int
  tu_CacheReadInputTokens :: int
  tu_PromptCacheHitTokens :: int
  tu_PromptCacheMissTokens :: int

definition zeroUsage :: TokenUsage where
  "zeroUsage = \<lparr>tu_PromptTokens = 0, tu_CompletionTokens = 0, tu_CacheCreationInputTokens = 0,
     tu_CacheReadInputTokens = 0, tu_PromptCacheHitTokens = 0, tu_PromptCacheMissTokens = 0\<rparr>"

record ChatResponse =
  ch_Content :: string
  ch_ReasoningContent :: string
  ch_ToolCalls :: "AgentCall list"
  ch_Usage :: TokenUsage

definition Done :: "ChatResponse \<Rightarrow> bool" where
  "Done r \<longleftrightarrow> ch_ToolCalls r = []"

definition plainMessage :: "string \<Rightarrow> string \<Rightarrow> Message" where
  "plainMessage role content = \<lparr>ms_Role = role, ms_Content = content, ms_ReasoningContent = [],
     ms_ToolCalls = [], ms_ToolCallID = []\<rparr>"

section \<open>The context window\<close>

text \<open>The backward search for the last assistant message among the first \<open>i\<close>.\<close>

fun lastAssistant :: "Message list \<Rightarrow> nat \<Rightarrow> nat option" where
  "lastAssistant conv 0 = None"
| "lastAssistant conv (Suc i) =
     (if ms_Role (conv ! i) = ''assistant'' then Some i else lastAssistant conv i)"

text \<open>The backward count of assistant messages: the index where the window begins.\<close>

fun cutoffFrom :: "Message list \<Rightarrow> int \<Rightarrow> int \<Rightarrow> nat \<Rightarrow> nat" where
  "cutoffFrom conv window n 0 = 0"
| "cutoffFrom conv window n (Suc i) =
     (if ms_Role (conv ! i) = ''assistant''
      then (if n + 1 \<ge> window then i else cutoffFrom conv window (n + 1) i)
      else cutoffFrom conv window n i)"

definition buildContextWindow :: "Message list \<Rightarrow> int \<Rightarrow> Message list" where
  "buildContextWindow messages memoryWindow =
     (if memoryWindow < 0 \<or> length messages \<le> 2 then messages
      else
        (let base = take 2 messages; conversation = drop 2 messages in
         if memoryWindow = 0 then
           (if conversation = [] then base
            else (case lastAssistant conversation (length conversation) of
                Some i \<Rightarrow> base @ drop i conversation
              | None \<Rightarrow> base @ [last conversation]))
         else base @ drop (cutoffFrom conversation memoryWindow 0 (length conversation)) conversation))"

section \<open>The loop\<close>

record LoopConfig =
  lc_MaxTurns :: int
  lc_MemoryWindow :: int
  lc_SystemPrompt :: string
  lc_TaskPrompt :: string

record LoopEnv =
  le_Chat :: "nat \<Rightarrow> Message list \<Rightarrow> (string, ChatResponse) result"
  le_Execute :: "nat \<Rightarrow> nat \<Rightarrow> AgentCall \<Rightarrow> string"
  le_Inject :: "nat \<Rightarrow> Message list"
  le_Memory :: "nat \<Rightarrow> int option"

record LoopResult =
  lr_Turns :: nat
  lr_Messages :: "Message list"
  lr_TotalUsage :: TokenUsage
  lr_FinalOutput :: string
  lr_Completed :: bool
  lr_MemoryWindow :: int

definition assistantMsg :: "ChatResponse \<Rightarrow> Message" where
  "assistantMsg r = \<lparr>ms_Role = ''assistant'', ms_Content = ch_Content r,
     ms_ReasoningContent = ch_ReasoningContent r, ms_ToolCalls = ch_ToolCalls r, ms_ToolCallID = []\<rparr>"

definition toolMsg :: "LoopEnv \<Rightarrow> nat \<Rightarrow> nat \<times> AgentCall \<Rightarrow> Message" where
  "toolMsg env turn ic = \<lparr>ms_Role = ''tool'', ms_Content = le_Execute env turn (fst ic) (snd ic),
     ms_ReasoningContent = [], ms_ToolCalls = [], ms_ToolCallID = ak_ID (snd ic)\<rparr>"

definition addUsage :: "TokenUsage \<Rightarrow> TokenUsage \<Rightarrow> TokenUsage" where
  "addUsage acc u = acc\<lparr>tu_PromptTokens := tu_PromptTokens acc + tu_PromptTokens u,
     tu_CompletionTokens := tu_CompletionTokens acc + tu_CompletionTokens u\<rparr>"

definition loopResult :: "Message list \<Rightarrow> TokenUsage \<Rightarrow> string \<Rightarrow> bool \<Rightarrow> int \<Rightarrow> LoopResult" where
  "loopResult msgs usage output completed window =
     \<lparr>lr_Turns = length msgs, lr_Messages = msgs, lr_TotalUsage = usage, lr_FinalOutput = output,
      lr_Completed = completed, lr_MemoryWindow = window\<rparr>"

text \<open>The loop with the turns that remain; \<open>Inl\<close> is a provider error and the turn it came on.\<close>

fun turnLoop ::
  "LoopEnv \<Rightarrow> nat \<Rightarrow> nat \<Rightarrow> int \<Rightarrow> Message list \<Rightarrow> TokenUsage \<Rightarrow> (nat \<times> string, LoopResult) result" where
  "turnLoop env 0 turn window msgs usage = Inr (loopResult msgs usage [] False window)"
| "turnLoop env (Suc left) turn window msgs usage =
     (case le_Chat env turn (buildContextWindow msgs window) of
        Inl e \<Rightarrow> Inl (turn + 1, e)
      | Inr resp \<Rightarrow>
          (let usage' = addUsage usage (ch_Usage resp);
               msgs1 = msgs @ [assistantMsg resp] in
           if Done resp then Inr (loopResult msgs1 usage' (ch_Content resp) True window)
           else
             (let msgs2 = msgs1 @ map (toolMsg env turn) (List.enumerate 0 (ch_ToolCalls resp)) @ le_Inject env turn;
                  window' = (case le_Memory env turn of Some w \<Rightarrow> w | None \<Rightarrow> window) in
              turnLoop env left (turn + 1) window' msgs2 usage')))"

definition RunLoop :: "LoopEnv \<Rightarrow> LoopConfig \<Rightarrow> (nat \<times> string, LoopResult) result" where
  "RunLoop env cfg =
     (let maxTurns = (if lc_MaxTurns cfg \<le> 0 then 25 else lc_MaxTurns cfg) in
      turnLoop env (nat maxTurns) 0 (lc_MemoryWindow cfg)
        [plainMessage ''system'' (lc_SystemPrompt cfg), plainMessage ''user'' (lc_TaskPrompt cfg)] zeroUsage)"

section \<open>Retries\<close>

definition IsRetryable :: "int \<Rightarrow> bool" where
  "IsRetryable code \<longleftrightarrow> code \<in> set [429, 500, 502, 503, 504]"

record RetryConfig =
  rc_MaxRetries :: int
  rc_InitialBackoff :: int
  rc_MaxBackoff :: int
  rc_Multiplier :: rat

definition DefaultRetryConfig :: RetryConfig where
  "DefaultRetryConfig = \<lparr>rc_MaxRetries = 5, rc_InitialBackoff = 2000000000,
     rc_MaxBackoff = 120000000000, rc_Multiplier = 2\<rparr>"

text \<open>
  The Retry-After header: absent or empty, a number of seconds, or a date given as the time left
  until it; any other text. Converting a \<^verbatim>\<open>float64\<close> to a duration truncates inside the 64-bit
  range and is up to the implementation outside it: the conversion is a parameter.
\<close>

datatype RetryAfter = NoHeader | HeaderSeconds rat | HeaderDate int | HeaderOther

fun multiplied :: "(rat \<Rightarrow> int) \<Rightarrow> RetryConfig \<Rightarrow> nat \<Rightarrow> int \<Rightarrow> int" where
  "multiplied conv cfg 0 backoff = backoff"
| "multiplied conv cfg (Suc n) backoff =
     multiplied conv cfg n (conv (rat_of_int backoff * rc_Multiplier cfg))"

definition exponential :: "(rat \<Rightarrow> int) \<Rightarrow> RetryConfig \<Rightarrow> nat \<Rightarrow> int" where
  "exponential conv cfg attempt =
     (let backoff = multiplied conv cfg attempt (rc_InitialBackoff cfg) in
      if backoff > rc_MaxBackoff cfg then rc_MaxBackoff cfg else backoff)"

definition BackoffDuration :: "(rat \<Rightarrow> int) \<Rightarrow> RetryConfig \<Rightarrow> nat \<Rightarrow> RetryAfter \<Rightarrow> int" where
  "BackoffDuration conv cfg attempt header = (case header of
     HeaderSeconds s \<Rightarrow>
       (if s > 0 then
          (let d = conv (s * 1000000000) in if d > rc_MaxBackoff cfg then rc_MaxBackoff cfg else d)
        else exponential conv cfg attempt)
   | HeaderDate d \<Rightarrow>
       (if d > 0 then (if d > rc_MaxBackoff cfg then rc_MaxBackoff cfg else d)
        else exponential conv cfg attempt)
   | _ \<Rightarrow> exponential conv cfg attempt)"

section \<open>Cost\<close>

record ModelPricing =
  mp_InputPerMillion :: rat
  mp_OutputPerMillion :: rat
  mp_CacheHitInputPerMillion :: rat

definition price :: "rat \<Rightarrow> rat \<Rightarrow> ModelPricing" where
  "price i o' = \<lparr>mp_InputPerMillion = i, mp_OutputPerMillion = o', mp_CacheHitInputPerMillion = 0\<rparr>"

definition cachedPrice :: "rat \<Rightarrow> rat \<Rightarrow> rat \<Rightarrow> ModelPricing" where
  "cachedPrice i o' c = \<lparr>mp_InputPerMillion = i, mp_OutputPerMillion = o', mp_CacheHitInputPerMillion = c\<rparr>"

definition pricingTable :: "(string \<times> ModelPricing) list" where
  "pricingTable =
     [(''opus'', price 15 75), (''sonnet'', price 3 15), (''haiku'', price (25/100) (125/100)),
      (''anthropic/claude-3-5-sonnet'', price 3 15),
      (''anthropic/claude-3-5-haiku'', price (25/100) (125/100)),
      (''anthropic/claude-3-opus'', price 15 75), (''anthropic/claude-sonnet-4'', price 3 15),
      (''anthropic/claude-opus-4'', price 15 75),
      (''gpt-5.2'', price 2 8), (''gpt-5.2-pro'', price 10 40), (''gpt-5'', price 2 8),
      (''gpt-5-mini'', price (30/100) (120/100)), (''gpt-4.1'', price 2 8),
      (''gpt-4.1-mini'', price (40/100) (160/100)), (''gpt-4.1-nano'', price (10/100) (40/100)),
      (''gpt-4o'', price (25/10) 10), (''gpt-4o-mini'', price (15/100) (60/100)),
      (''openai/gpt-4o'', price (25/10) 10), (''openai/gpt-4o-mini'', price (15/100) (60/100)),
      (''openai/gpt-4-turbo'', price 10 30), (''openai/o1'', price 15 60),
      (''openai/o1-mini'', price 3 12),
      (''claude-sonnet-4-20250514'', price 3 15), (''claude-sonnet-4-6'', price 3 15),
      (''claude-opus-4-20250514'', price 15 75), (''claude-haiku-4-20250514'', price (80/100) 4),
      (''google/gemini-2.5-pro'', price (125/100) 10), (''google/gemini-2.5-flash'', price (15/100) (60/100)),
      (''gemini-2.5-pro'', price (125/100) 10), (''gemini-2.5-flash'', price (15/100) (60/100)),
      (''gemini-2.0-flash'', price (10/100) (40/100)),
      (''deepseek-chat'', cachedPrice (14/100) (28/100) (28/10000)),
      (''deepseek-reasoner'', cachedPrice (14/100) (28/100) (28/10000)),
      (''deepseek-v4-flash'', cachedPrice (14/100) (28/100) (28/10000)),
      (''deepseek-v4-pro'', cachedPrice (435/1000) (87/100) (3625/1000000)),
      (''qwen-plus'', price (80/100) 2), (''qwen-max'', price (160/100) (640/100)),
      (''qwen-turbo'', price (30/100) (60/100)), (''qwen3.5-plus'', price (80/100) 2),
      (''qwen3-max'', price (160/100) (640/100)), (''qwen3-coder-plus'', price 2 8)]"

text \<open>The scan for the longest prefix; the order Go visits the table in is an argument.\<close>

definition scanPrefix :: "string \<Rightarrow> (string \<times> ModelPricing) \<Rightarrow> nat \<times> ModelPricing \<Rightarrow> nat \<times> ModelPricing" where
  "scanPrefix model kp best =
     (if length (fst kp) > fst best \<and> has_prefix model (fst kp) then (length (fst kp), snd kp) else best)"

definition LookupPricing :: "(string \<times> ModelPricing) list \<Rightarrow> string \<Rightarrow> ModelPricing" where
  "LookupPricing visited model = (case map_of pricingTable model of
     Some p \<Rightarrow> p
   | None \<Rightarrow> snd (fold (scanPrefix model) visited (0, price 0 0)))"

record CostEstimate =
  co_InputTokens :: int
  co_OutputTokens :: int
  co_InputCost :: rat
  co_OutputCost :: rat
  co_TotalCost :: rat
  co_Model :: string
  co_Currency :: string

definition EstimateCost :: "(string \<times> ModelPricing) list \<Rightarrow> string \<Rightarrow> TokenUsage \<Rightarrow> CostEstimate" where
  "EstimateCost visited model usage =
     (let p = LookupPricing visited model;
          million = 1000000;
          cached = (tu_PromptCacheHitTokens usage > 0 \<or> tu_PromptCacheMissTokens usage > 0);
          hitPrice = (if mp_CacheHitInputPerMillion p = 0 then mp_InputPerMillion p * (1/10)
                      else mp_CacheHitInputPerMillion p);
          inputTokens = (if cached then tu_PromptCacheHitTokens usage + tu_PromptCacheMissTokens usage
             else tu_PromptTokens usage + tu_CacheCreationInputTokens usage + tu_CacheReadInputTokens usage);
          inputCost = (if cached then
               rat_of_int (tu_PromptCacheMissTokens usage) / million * mp_InputPerMillion p +
               rat_of_int (tu_PromptCacheHitTokens usage) / million * hitPrice
             else
               rat_of_int (tu_PromptTokens usage + tu_CacheCreationInputTokens usage) / million * mp_InputPerMillion p +
               rat_of_int (tu_CacheReadInputTokens usage) / million * mp_InputPerMillion p * (1/10));
          outputCost = rat_of_int (tu_CompletionTokens usage) / million * mp_OutputPerMillion p in
      \<lparr>co_InputTokens = inputTokens, co_OutputTokens = tu_CompletionTokens usage,
       co_InputCost = inputCost, co_OutputCost = outputCost, co_TotalCost = inputCost + outputCost,
       co_Model = model, co_Currency = ''USD''\<rparr>)"

section \<open>The window\<close>

definition assistants :: "Message list \<Rightarrow> nat" where
  "assistants ms = length (filter (\<lambda>m. ms_Role m = ''assistant'') ms)"

lemma assistants_drop: "i < length ms \<Longrightarrow> assistants (drop i ms) =
    (if ms_Role (ms ! i) = ''assistant'' then 1 else 0) + assistants (drop (Suc i) ms)"
  by (simp add: assistants_def Cons_nth_drop_Suc [symmetric])

lemma cutoffFrom_window:
  assumes "i \<le> length conv" and "int (assistants (drop i conv)) = n" and "n < window"
  shows "cutoffFrom conv window n i \<le> i \<and>
    int (assistants (drop (cutoffFrom conv window n i) conv)) = min window (int (assistants conv)) \<and>
    (cutoffFrom conv window n i = 0 \<or> ms_Role (conv ! cutoffFrom conv window n i) = ''assistant'')"
  using assms
proof (induction i arbitrary: n)
  case 0
  then show ?case by simp
next
  case (Suc i)
  have le: "assistants (drop i conv) \<le> assistants conv"
    unfolding assistants_def by (metis append_take_drop_id filter_append le_add2 length_append)
  show ?case
  proof (cases "ms_Role (conv ! i) = ''assistant''")
    case True
    then have c: "int (assistants (drop i conv)) = n + 1" using Suc.prems assistants_drop [of i conv] by simp
    with le True Suc.prems Suc.IH [of "n + 1"] show ?thesis by auto
  next
    case False
    then have "int (assistants (drop i conv)) = n" using Suc.prems assistants_drop [of i conv] by simp
    with False Suc.prems Suc.IH [of n] show ?thesis by auto
  qed
qed

definition window_suffix :: "int \<Rightarrow> Message list \<Rightarrow> Message list \<Rightarrow> bool" where
  "window_suffix window conv suf \<longleftrightarrow> suffix suf conv \<and>
     int (assistants suf) = min (if window = 0 then 1 else window) (int (assistants conv)) \<and>
     (suf = conv \<or> assistants conv = 0 \<or> suf \<noteq> [] \<and> ms_Role (hd suf) = ''assistant'')"

lemma cutoff_suffix:
  assumes "0 < window"
  shows "window_suffix window conv (drop (cutoffFrom conv window 0 (length conv)) conv)"
proof -
  let ?c = "cutoffFrom conv window 0 (length conv)"
  have c: "int (assistants (drop ?c conv)) = min window (int (assistants conv))"
    "?c = 0 \<or> ms_Role (conv ! ?c) = ''assistant''"
    using cutoffFrom_window [of "length conv" conv 0 window] assms by (simp_all add: assistants_def)
  show ?thesis
  proof (cases "?c < length conv")
    case True
    with c assms suffix_drop [of ?c conv] show ?thesis
      by (auto simp: window_suffix_def hd_drop_conv_nth)
  next
    case False
    then have "drop ?c conv = []" by simp
    moreover from this have "assistants conv = 0" using c(1) assms by (simp add: assistants_def min_def split: if_splits)
    ultimately show ?thesis using assms by (simp add: window_suffix_def assistants_def)
  qed
qed

lemma lastAssistant_spec:
  "i \<le> length conv \<Longrightarrow> assistants (drop i conv) = 0 \<Longrightarrow>
     (case lastAssistant conv i of
        None \<Rightarrow> assistants conv = 0
      | Some j \<Rightarrow> j < length conv \<and> ms_Role (conv ! j) = ''assistant'' \<and> assistants (drop j conv) = 1)"
proof (induction i)
  case (Suc i)
  then show ?case using assistants_drop [of i conv] by (cases "ms_Role (conv ! i) = ''assistant''") auto
qed simp

lemma stateless_suffix:
  assumes "conv \<noteq> []"
  shows "window_suffix 0 conv (case lastAssistant conv (length conv) of
     Some i \<Rightarrow> drop i conv | None \<Rightarrow> [last conv])"
proof -
  have spec: "case lastAssistant conv (length conv) of None \<Rightarrow> assistants conv = 0
    | Some j \<Rightarrow> j < length conv \<and> ms_Role (conv ! j) = ''assistant'' \<and> assistants (drop j conv) = 1"
    by (rule lastAssistant_spec) (simp_all add: assistants_def)
  show ?thesis
  proof (cases "lastAssistant conv (length conv)")
    case None
    with spec have none: "assistants conv = 0" by simp
    have "suffix [last conv] conv" using assms by (metis append_butlast_last_id suffixI)
    moreover have "assistants [last conv] = 0"
      using none last_in_set [OF assms] by (auto simp: assistants_def filter_empty_conv)
    ultimately show ?thesis using None none by (simp add: window_suffix_def)
  next
    case (Some j)
    have "assistants (drop j conv) \<le> assistants conv"
      unfolding assistants_def by (metis append_take_drop_id filter_append le_add2 length_append)
    with Some spec suffix_drop [of j conv] show ?thesis by (auto simp: window_suffix_def hd_drop_conv_nth)
  qed
qed

section \<open>The transcript\<close>

text \<open>Every assistant message is followed by the results of its tool calls, in order.\<close>

fun answered :: "Message list \<Rightarrow> bool" where
  "answered [] = True"
| "answered (m # ms) =
     ((ms_Role m = ''assistant'' \<longrightarrow>
         map ms_ToolCallID (take (length (ms_ToolCalls m)) ms) = map ak_ID (ms_ToolCalls m) \<and>
         list_all (\<lambda>x. ms_Role x = ''tool'') (take (length (ms_ToolCalls m)) ms)) \<and> answered ms)"

lemma answered_append: "answered xs \<Longrightarrow> answered ys \<Longrightarrow> answered (xs @ ys)"
proof (induction xs)
  case (Cons m xs)
  have "length (ms_ToolCalls m) \<le> length xs" if "ms_Role m = ''assistant''"
    using Cons.prems(1) that by (auto dest!: map_eq_imp_length_eq)
  with Cons show ?case by auto
qed simp

lemma answered_no_assistant: "assistants ms = 0 \<Longrightarrow> answered ms"
  by (induction ms) (auto simp: assistants_def split: if_splits)

lemma toolMsgs [simp]:
  "map ms_ToolCallID (map (toolMsg env turn) (List.enumerate k tcs)) = map ak_ID tcs"
  "list_all (\<lambda>x. ms_Role x = ''tool'') (map (toolMsg env turn) (List.enumerate k tcs))"
  "assistants (map (toolMsg env turn) (List.enumerate k tcs)) = 0"
  by (induction tcs arbitrary: k) (simp_all add: toolMsg_def assistants_def)

lemma assistants_append [simp]: "assistants (xs @ ys) = assistants xs + assistants ys"
  by (simp add: assistants_def)

lemma assistants_Cons: "assistants (m # ms) = (if ms_Role m = ''assistant'' then 1 else 0) + assistants ms"
  by (simp add: assistants_def)

definition round_messages :: "LoopEnv \<Rightarrow> nat \<Rightarrow> ChatResponse \<Rightarrow> Message list" where
  "round_messages env turn resp = assistantMsg resp #
     map (toolMsg env turn) (List.enumerate 0 (ch_ToolCalls resp)) @ le_Inject env turn"

lemma answered_round:
  assumes "assistants (le_Inject env turn) = 0"
  shows "answered (round_messages env turn resp)" and "assistants (round_messages env turn resp) = 1"
proof -
  let ?tools = "map (toolMsg env turn) (List.enumerate 0 (ch_ToolCalls resp))"
  have len: "length ?tools = length (ch_ToolCalls resp)" by simp
  have "answered (?tools @ le_Inject env turn)"
    by (rule answered_no_assistant) (simp add: assms del: map_map)
  then show "answered (round_messages env turn resp)"
    using len toolMsgs [of env turn 0 "ch_ToolCalls resp"]
    by (simp add: round_messages_def assistantMsg_def del: map_map toolMsgs)
  show "assistants (round_messages env turn resp) = 1"
    by (simp add: round_messages_def assistants_Cons assistantMsg_def assms del: map_map)
qed

definition injects_no_assistant :: "LoopEnv \<Rightarrow> bool" where
  "injects_no_assistant env \<longleftrightarrow> (\<forall>turn. assistants (le_Inject env turn) = 0)"

definition final_answer :: "Message list \<Rightarrow> bool" where
  "final_answer ms \<longleftrightarrow> ms \<noteq> [] \<and> ms_Role (last ms) = ''assistant'' \<and> ms_ToolCalls (last ms) = []"

lemma no_final_answer:
  assumes "assistants (le_Inject env turn) = 0" and "\<not> Done resp"
  shows "\<not> final_answer (ms @ round_messages env turn resp)"
proof -
  let ?tail = "map (toolMsg env turn) (List.enumerate 0 (ch_ToolCalls resp)) @ le_Inject env turn"
  have "length ?tail > 0" using assms(2) by (simp add: Done_def)
  then have ne: "?tail \<noteq> []" by (rule length_greater_0_conv [THEN iffD1])
  have "assistants ?tail = 0" using assms(1) by (simp del: map_map)
  then have "ms_Role (last ?tail) \<noteq> ''assistant''"
    using last_in_set [OF ne] by (auto simp: assistants_def filter_empty_conv)
  then show ?thesis using ne by (auto simp: final_answer_def round_messages_def)
qed

lemma turnLoop_transcript:
  assumes "injects_no_assistant env" and "turnLoop env left turn window msgs usage = Inr r"
    and "answered msgs" and "\<not> final_answer msgs"
  shows "answered (lr_Messages r) \<and> prefix msgs (lr_Messages r) \<and>
    assistants (lr_Messages r) \<le> assistants msgs + left \<and>
    (lr_Completed r \<longleftrightarrow> final_answer (lr_Messages r)) \<and>
    (\<not> lr_Completed r \<longrightarrow> assistants (lr_Messages r) = assistants msgs + left) \<and>
    lr_FinalOutput r = (if lr_Completed r then ms_Content (last (lr_Messages r)) else [])"
  using assms(2-4)
proof (induction left arbitrary: turn window msgs usage)
  case 0
  then show ?case by (auto simp: loopResult_def)
next
  case (Suc left)
  obtain resp where chat: "le_Chat env turn (buildContextWindow msgs window) = Inr resp"
    using Suc.prems(1) by (cases "le_Chat env turn (buildContextWindow msgs window)") simp_all
  show ?case
  proof (cases "Done resp")
    case True
    have "answered [assistantMsg resp]" using True by (simp add: assistantMsg_def Done_def)
    with Suc.prems(1,2) chat True answered_append [of msgs "[assistantMsg resp]"] show ?thesis
      by (auto simp: loopResult_def assistants_Cons assistantMsg_def final_answer_def Done_def
          assistants_def)
  next
    case False
    have inj: "assistants (le_Inject env turn) = 0"
      using assms(1) by (simp add: injects_no_assistant_def)
    let ?msgs = "msgs @ round_messages env turn resp"
    let ?w = "case le_Memory env turn of Some w \<Rightarrow> w | None \<Rightarrow> window"
    have run: "turnLoop env left (turn + 1) ?w ?msgs (addUsage usage (ch_Usage resp)) = Inr r"
      using Suc.prems(1) chat False by (simp add: Let_def round_messages_def)
    have ok: "answered ?msgs"
      by (rule answered_append [OF Suc.prems(2) answered_round(1) [OF inj]])
    have count: "assistants ?msgs = assistants msgs + 1"
      by (simp add: answered_round(2) [OF inj])
    note ih = Suc.IH [OF run ok no_final_answer [OF inj False]]
    then have "prefix msgs (lr_Messages r)" by (auto simp: prefix_def)
    with ih count show ?thesis by simp
  qed
qed

section \<open>Properties\<close>


text \<open>
  The transcript of a loop that returns is well formed. It starts with the two prompts, every
  tool call of an assistant message is answered by a tool message with its identifier, in order
  and right after it; the loop makes at most \<open>MaxTurns\<close> model calls, and it completed exactly
  when the transcript ends with an assistant message without tool calls, whose content is then
  the final output.
\<close>

theorem transcript_is_well_formed:
  assumes "injects_no_assistant env" and "RunLoop env cfg = Inr r"
  shows "answered (lr_Messages r) \<and>
    prefix [plainMessage ''system'' (lc_SystemPrompt cfg), plainMessage ''user'' (lc_TaskPrompt cfg)]
      (lr_Messages r) \<and>
    int (assistants (lr_Messages r)) \<le> (if lc_MaxTurns cfg \<le> 0 then 25 else lc_MaxTurns cfg) \<and>
    (lr_Completed r \<longleftrightarrow> final_answer (lr_Messages r)) \<and>
    lr_FinalOutput r = (if lr_Completed r then ms_Content (last (lr_Messages r)) else [])"
proof -
  let ?ms = "[plainMessage ''system'' (lc_SystemPrompt cfg), plainMessage ''user'' (lc_TaskPrompt cfg)]"
  have "answered ?ms" "\<not> final_answer ?ms" "assistants ?ms = 0"
    by (simp_all add: plainMessage_def final_answer_def assistants_def)
  with turnLoop_transcript [OF assms(1) assms(2) [unfolded RunLoop_def Let_def]] show ?thesis
    by (auto split: if_splits)
qed

lemma multiplied_exact:
  assumes "\<And>x. 0 \<le> x \<Longrightarrow> x < 2 ^ 63 \<Longrightarrow> conv x = \<lfloor>x\<rfloor>" and "1 \<le> rc_Multiplier cfg" and "0 \<le> b"
    and "rat_of_int b * rc_Multiplier cfg ^ n < 2 ^ 63"
  shows "b \<le> multiplied conv cfg n b \<and> rat_of_int (multiplied conv cfg n b) \<le> rat_of_int b * rc_Multiplier cfg ^ n"
  using assms(3,4)
proof (induction n arbitrary: b)
  case 0
  then show ?case by simp
next
  case (Suc n)
  let ?m = "rc_Multiplier cfg" and ?x = "rat_of_int b * rc_Multiplier cfg"
  have pow: "1 \<le> ?m ^ n" using assms(2) by simp
  have x0: "0 \<le> ?x" using Suc.prems(1) assms(2) by simp
  have "?x * 1 \<le> ?x * ?m ^ n" by (rule mult_left_mono [OF pow x0])
  then have x63: "?x < 2 ^ 63" using Suc.prems(2) by (simp add: mult.assoc)
  have conv: "conv ?x = \<lfloor>?x\<rfloor>" using assms(1) x0 x63 by simp
  have "rat_of_int b * 1 \<le> ?x" by (rule mult_left_mono) (use assms(2) Suc.prems(1) in simp_all)
  then have ge: "b \<le> \<lfloor>?x\<rfloor>" by (simp add: le_floor_iff)
  have le: "rat_of_int \<lfloor>?x\<rfloor> * ?m ^ n \<le> ?x * ?m ^ n"
    by (rule mult_right_mono) (use pow in simp_all)
  then have lt: "rat_of_int \<lfloor>?x\<rfloor> * ?m ^ n < 2 ^ 63" using Suc.prems(2) by (simp add: mult.assoc)
  have "0 \<le> \<lfloor>?x\<rfloor>" using ge Suc.prems(1) by (rule order_trans [rotated])
  from Suc.IH [OF this lt] ge le conv show ?case by (simp add: mult.assoc)
qed

text \<open>
  A backoff is bounded. While the exponential product stays inside the 64-bit range, where
  the conversion truncates, a wait is between 0 and the configured ceiling whatever the
  Retry-After header says, and without a header it never falls below the smaller of the initial
  backoff and the ceiling.
\<close>

theorem backoff_is_bounded:
  assumes "\<And>x. 0 \<le> x \<Longrightarrow> x < 2 ^ 63 \<Longrightarrow> conv x = \<lfloor>x\<rfloor>" and "1 \<le> rc_Multiplier cfg"
    and "0 \<le> rc_InitialBackoff cfg" and "0 \<le> rc_MaxBackoff cfg"
    and "rat_of_int (rc_InitialBackoff cfg) * rc_Multiplier cfg ^ attempt < 2 ^ 63"
    and "\<And>s. header = HeaderSeconds s \<Longrightarrow> s * 1000000000 < 2 ^ 63"
  shows "0 \<le> BackoffDuration conv cfg attempt header \<and>
    BackoffDuration conv cfg attempt header \<le> rc_MaxBackoff cfg \<and>
    min (rc_InitialBackoff cfg) (rc_MaxBackoff cfg) \<le> BackoffDuration conv cfg attempt NoHeader"
proof -
  have m: "rc_InitialBackoff cfg \<le> multiplied conv cfg attempt (rc_InitialBackoff cfg)"
    using multiplied_exact [OF assms(1,2,3,5)] by blast
  have e: "0 \<le> exponential conv cfg attempt" "exponential conv cfg attempt \<le> rc_MaxBackoff cfg"
    "min (rc_InitialBackoff cfg) (rc_MaxBackoff cfg) \<le> exponential conv cfg attempt"
    using m assms(3,4) by (simp_all add: exponential_def Let_def)
  have "0 \<le> conv (s * 1000000000)" if "header = HeaderSeconds s" "0 < s" for s
    using assms(1) [of "s * 1000000000"] assms(6) [OF that(1)] that(2) by simp
  with e assms(4) show ?thesis
    by (cases header) (auto simp: BackoffDuration_def Let_def)
qed

lemma scanPrefix_fold:
  assumes "fold (scanPrefix model) xs (n0, p0) = (n, p)"
  shows "n0 \<le> n" and "\<forall>(k, q)\<in>set xs. has_prefix model k \<longrightarrow> length k \<le> n"
    and "(n, p) = (n0, p0) \<or> (\<exists>k. (k, p) \<in> set xs \<and> has_prefix model k \<and> length k = n \<and> n0 < n)"
proof -
  have "n0 \<le> n \<and> (\<forall>(k, q)\<in>set xs. has_prefix model k \<longrightarrow> length k \<le> n) \<and>
    ((n, p) = (n0, p0) \<or> (\<exists>k. (k, p) \<in> set xs \<and> has_prefix model k \<and> length k = n \<and> n0 < n))"
    using assms
  proof (induction xs arbitrary: n0 p0)
    case (Cons x xs)
    obtain k q where x: "x = (k, q)" by (cases x)
    show ?case
    proof (cases "length k > n0 \<and> has_prefix model k")
      case True
      with Cons.prems x have "fold (scanPrefix model) xs (length k, q) = (n, p)" by (simp add: scanPrefix_def [of model "(k, q)"])
      from Cons.IH [OF this] True x show ?thesis by auto
    next
      case False
      with Cons.prems x have "fold (scanPrefix model) xs (n0, p0) = (n, p)" by (auto simp: scanPrefix_def [of model "(k, q)"])
      from Cons.IH [OF this] False x show ?thesis by auto
    qed
  qed simp
  then show "n0 \<le> n" "\<forall>(k, q)\<in>set xs. has_prefix model k \<longrightarrow> length k \<le> n"
    "(n, p) = (n0, p0) \<or> (\<exists>k. (k, p) \<in> set xs \<and> has_prefix model k \<and> length k = n \<and> n0 < n)"
    by blast+
qed

lemma pricingTable_functional: "(k, p) \<in> set pricingTable \<Longrightarrow> (k, q) \<in> set pricingTable \<Longrightarrow> p = q"
proof -
  have "distinct (map fst pricingTable)" by code_simp
  then show "(k, p) \<in> set pricingTable \<Longrightarrow> (k, q) \<in> set pricingTable \<Longrightarrow> p = q"
    by (metis eq_key_imp_eq_value)
qed

text \<open>
  The price of a model does not depend on the order a Go map is visited in: it is the entry
  of the longest table key that is a prefix of the model's name, and zero when there is none.
\<close>

theorem pricing_is_longest_prefix:
  assumes "set visited = set pricingTable"
  shows "(\<exists>k. (k, LookupPricing visited model) \<in> set pricingTable \<and> has_prefix model k \<and>
      (\<forall>k' q. (k', q) \<in> set pricingTable \<longrightarrow> has_prefix model k' \<longrightarrow> length k' \<le> length k)) \<or>
    (\<forall>k q. (k, q) \<in> set pricingTable \<longrightarrow> \<not> has_prefix model k) \<and> LookupPricing visited model = price 0 0"
proof (cases "map_of pricingTable model")
  case (Some p)
  then have "(model, LookupPricing visited model) \<in> set pricingTable"
    by (simp add: LookupPricing_def map_of_SomeD)
  moreover have "length k \<le> length model" if "has_prefix model k" for k
    using that by (auto simp: has_prefix_iff)
  moreover have "has_prefix model model" by (simp add: has_prefix_def)
  ultimately show ?thesis by blast
next
  case None
  obtain n p where f: "fold (scanPrefix model) visited (0, price 0 0) = (n, p)" by fastforce
  with None have look: "LookupPricing visited model = p" by (simp add: LookupPricing_def)
  note s = scanPrefix_fold [OF f, unfolded assms]
  show ?thesis
  proof (cases "n = 0")
    case True
    have "k \<noteq> []" if "(k, q) \<in> set pricingTable" for k q
    proof -
      have "list_all (\<lambda>(k, q). k \<noteq> []) pricingTable" by code_simp
      with that show ?thesis by (auto simp: list_all_iff)
    qed
    with s(2,3) True look show ?thesis by fastforce
  next
    case False
    with s(2,3) look show ?thesis by fastforce
  qed
qed

section \<open>Witnesses\<close>

definition demo_tool :: AgentCall where
  "demo_tool = \<lparr>ak_ID = ''c1'', ak_Name = ''run_command'', ak_Arguments = []\<rparr>"

definition demo_response :: "AgentCall list \<Rightarrow> ChatResponse" where
  "demo_response tcs = \<lparr>ch_Content = ''ok'', ch_ReasoningContent = [], ch_ToolCalls = tcs,
     ch_Usage = zeroUsage\<lparr>tu_PromptTokens := 10, tu_CacheReadInputTokens := 90\<rparr>\<rparr>"

definition demo_env :: LoopEnv where
  "demo_env = \<lparr>le_Chat = (\<lambda>turn _. Inr (demo_response (if turn = 0 then [demo_tool] else []))),
     le_Execute = (\<lambda>_ _ _. ''out''), le_Inject = (\<lambda>_. []), le_Memory = (\<lambda>_. None)\<rparr>"

definition demo_config :: LoopConfig where
  "demo_config = \<lparr>lc_MaxTurns = 5, lc_MemoryWindow = 1, lc_SystemPrompt = ''s'', lc_TaskPrompt = ''t''\<rparr>"

definition demo_loop :: LoopResult where
  "demo_loop = projr (RunLoop demo_env demo_config)"

lemma demo_loop_run: "RunLoop demo_env demo_config = Inr demo_loop"
  by code_simp

theorem transcript_is_well_formed_witness:
  "answered (lr_Messages demo_loop) \<and> length (lr_Messages demo_loop) = 5 \<and> lr_Completed demo_loop"
proof -
  have inj: "injects_no_assistant demo_env" by (simp add: injects_no_assistant_def demo_env_def assistants_def)
  have "length (lr_Messages demo_loop) = 5 \<and> lr_Completed demo_loop" by code_simp
  with transcript_is_well_formed [OF inj demo_loop_run] show ?thesis by blast
qed


theorem backoff_is_bounded_witness:
  "BackoffDuration floor DefaultRetryConfig 5 NoHeader \<le> 120000000000"
proof -
  have "BackoffDuration floor DefaultRetryConfig 5 NoHeader \<le> rc_MaxBackoff DefaultRetryConfig"
    using backoff_is_bounded [of floor DefaultRetryConfig 5 NoHeader]
    by (simp add: DefaultRetryConfig_def)
  then show ?thesis by (simp add: DefaultRetryConfig_def)
qed

theorem pricing_is_longest_prefix_witness:
  "\<exists>k. (k, LookupPricing (rev pricingTable) ''gpt-4o-mini-2024'') \<in> set pricingTable \<and>
     has_prefix ''gpt-4o-mini-2024'' k"
proof -
  have "(''gpt-4o'', price (25/10) 10) \<in> set pricingTable" by (simp add: pricingTable_def)
  moreover have "has_prefix ''gpt-4o-mini-2024'' ''gpt-4o''" by code_simp
  ultimately show ?thesis
    using pricing_is_longest_prefix [of "rev pricingTable" "''gpt-4o-mini-2024''"] by auto
qed

text \<open>
  The loop adds up prompt and completion tokens only: cache tokens a provider reports never reach
  the total that the cost estimate is computed from.
\<close>

lemma cache_tokens_dropped:
  "tu_CacheReadInputTokens (lr_TotalUsage demo_loop) = 0 \<and> tu_PromptTokens (lr_TotalUsage demo_loop) = 20"
  by code_simp

text \<open>The reported number of turns is the number of messages.\<close>

lemma turns_are_messages:
  "lr_Turns demo_loop = 5 \<and> assistants (lr_Messages demo_loop) = 2"
  by code_simp

end
