(* ===== verification/Cluster_Providers.thy ===== *)
theory Cluster_Providers
  imports Scenario_Loader Go_Json "HOL-Library.State_Monad"
begin

text \<open>
  Cluster providers: \<^verbatim>\<open>pkg/environment/kind.go\<close>, \<^verbatim>\<open>k3d.go\<close>, \<^verbatim>\<open>audit_config.go\<close>, \<^verbatim>\<open>preload.go\<close>,
  \<^verbatim>\<open>container_network.go\<close>, \<^verbatim>\<open>provider.go\<close>. The providers run commands and touch files; the state of the model
  is the trace of these operations with their outcomes, and the world decides each outcome from the
  trace so far. What exists after a trace (clusters, audit volumes) is read off its successful
  commands. The locale \<open>lifecycle\<close> states what the provisioner relies on in a provider; both
  providers are instances.
\<close>

section \<open>Operations and traces\<close>

datatype Op =
    Cmd "string list"
  | CmdInput "string list" string
  | Hook string "string list"
  | ReadFile string
  | Stat string
  | CreateTemp string
  | WriteTemp string string
  | CloseTemp string
  | WriteFile string string
  | Remove string
  | MkdirTemp string
  | RemoveAll string

text \<open>The outcome of an operation: whether it succeeded, and its output.\<close>

type_synonym Outcome = "bool \<times> string"
type_synonym Trace = "(Op \<times> Outcome) list"
type_synonym World = "Trace \<Rightarrow> Op \<Rightarrow> Outcome"
type_synonym 'a proc = "(Trace, 'a) state"

definition perform :: "World \<Rightarrow> Op \<Rightarrow> Outcome proc" where
  "perform w op = State (\<lambda>tr. (w tr op, tr @ [(op, w tr op)]))"

definition attempt :: "World \<Rightarrow> Op \<Rightarrow> unit proc" where
  "attempt w op = do { _ \<leftarrow> perform w op; State_Monad.return () }"

text \<open>The environment variables and directories the code reads.\<close>

record HostEnv =
  he_AuditNodeImage :: string
  he_RegistryMirror :: string
  he_PreloadImages :: string
  he_TempDir :: string
  he_Path :: string

datatype env_error =
    CheckExisting | VolumeCreate | StagingWrite | VolumeInspect | EmptyMountpoint | AssetUnreadable | AssetInvalid
  | ConfigUnwritable | CreateFailed | DeleteExisting | ConnectFailed | KubeconfigUnavailable | KubeconfigUnusable
  | KubeconfigUnwritable | DestroyFailed | DisconnectFailed | VolumeRemove | LifecycleUnavailable

section \<open>Contracts\<close>

record AuditAccess =
  aa_NodeContainers :: "string list"
  aa_LogPath :: string
  aa_MarkerUsername :: string

record Handle =
  hd_ClusterName :: string
  hd_KubeconfigPath :: string
  hd_Audit :: "AuditAccess option"
  hd_ClusterNetwork :: string
  hd_InClusterServer :: string

record AuditConfig =
  ac_Enabled :: bool
  ac_PolicyMode :: string
  ac_NodeImage :: string

record ClusterSpec =
  cs_Profile :: string
  cs_ConfigPath :: string
  cs_LegacyKubernetes :: KubernetesConfig
  cs_Audit :: AuditConfig

text \<open>The part of the interface \<^verbatim>\<open>ClusterLifecycle\<close> that the provisioner calls.\<close>

record ClusterLifecycle =
  lc_Create :: "string \<Rightarrow> ClusterSpec \<Rightarrow> (env_error, Handle) result proc"
  lc_Destroy :: "Handle \<Rightarrow> env_error list proc"
  lc_Recreate :: "string \<Rightarrow> ClusterSpec \<Rightarrow> (env_error, Handle) result proc"

datatype ContainerNetworkMode = NetUnset | NetNative | NetBridge | NetHost

definition DetectContainerNetworkMode :: "World \<Rightarrow> string \<Rightarrow> (env_error, ContainerNetworkMode) result proc" where
  "DetectContainerNetworkMode w containerName =
     (if trim_space containerName = [] then State_Monad.return (Inr NetNative)
      else do {
        (ok, out) \<leftarrow> perform w (Cmd [''docker'', ''inspect'', ''--format'', ''{{.HostConfig.NetworkMode}}'', containerName]);
        State_Monad.return
          (if \<not> ok then Inl LifecycleUnavailable
           else if trim_space out = ''host'' then Inr NetHost
           else if trim_space out = ''bridge'' \<or> trim_space out = ''default'' then Inr NetBridge
           else if trim_space out = [] then Inl LifecycleUnavailable
           else Inr NetBridge) })"

definition FailingClusterLifecycle :: ClusterLifecycle where
  "FailingClusterLifecycle =
     \<lparr>lc_Create = (\<lambda>_ _. State_Monad.return (Inl LifecycleUnavailable)),
      lc_Destroy = (\<lambda>_. State_Monad.return [LifecycleUnavailable]),
      lc_Recreate = (\<lambda>_ _. State_Monad.return (Inl LifecycleUnavailable))\<rparr>"

section \<open>Audit provisioning\<close>

definition DefaultAuditNodeImage :: string where
  "DefaultAuditNodeImage = ''kindest/node:v1.31.2''"

definition auditVolumeName :: "string \<Rightarrow> string" where
  "auditVolumeName clusterName = ''evidra-audit-'' @ clusterName"

definition nl :: string where
  "nl = [CHR 0x0A]"

definition text_lines :: "string list \<Rightarrow> string" where
  "text_lines ls = concat (map (\<lambda>l. l @ nl) ls)"

definition AuditPolicyYAML :: "string \<Rightarrow> string" where
  "AuditPolicyYAML mode =
     (let level = if mode = ''metadata'' then ''Metadata'' else ''Request'' in
      text_lines
        [''apiVersion: audit.k8s.io/v1'',
         ''kind: Policy'',
         ''rules:'',
         ''  - level: Metadata'',
         ''    resources: [{group: '' @ [CHR 0x22, CHR 0x22] @ '', resources: ['' @ [CHR 0x22] @ ''configmaps'' @ [CHR 0x22] @ '']}]'',
         ''  - level: Metadata'',
         ''    resources: [{group: '' @ [CHR 0x22, CHR 0x22] @ '', resources: ['' @ [CHR 0x22] @ ''secrets'' @ [CHR 0x22] @ '', '' @
           [CHR 0x22] @ ''serviceaccounts'' @ [CHR 0x22] @ '']}]'',
         ''  - level: '' @ level,
         ''    verbs: ['' @ join (map (\<lambda>v. [CHR 0x22] @ v @ [CHR 0x22]) [''create'', ''update'', ''patch'', ''delete'', ''deletecollection'']) '', '' @ '']'',
         ''  - level: Metadata'',
         ''  - level: None''])"

definition kindAuditPodPatch :: string where
  "kindAuditPodPatch = text_lines
     [''apiVersion: v1'', ''kind: Pod'', ''metadata:'', ''  name: kube-apiserver'', ''spec:'', ''  containers:'',
      ''    - name: kube-apiserver'', ''      volumeMounts:'', ''        - mountPath: /etc/kubernetes/audit'',
      ''          name: audit-policy'', ''          readOnly: true'', ''        - mountPath: /var/log/kubernetes'',
      ''          name: audit-log'', ''  volumes:'', ''    - name: audit-policy'', ''      hostPath:'',
      ''        path: /etc/kubernetes/audit'', ''    - name: audit-log'', ''      hostPath:'',
      ''        path: /var/log/kubernetes'', ''        type: DirectoryOrCreate'']"

record AuditVolume =
  av_Name :: string
  av_Mountpoint :: string

definition stageFile :: "World \<Rightarrow> string \<Rightarrow> string \<Rightarrow> string \<Rightarrow> env_error option proc" where
  "stageFile w volume script content = do {
     (ok, out) \<leftarrow> perform w (CmdInput [''docker'', ''run'', ''--rm'', ''-i'', ''-v'', volume @ '':/data'', ''alpine:3.22'', ''sh'', ''-c'', script] content);
     State_Monad.return (err_if (\<not> ok) StagingWrite) }"

definition StageAuditVolume :: "World \<Rightarrow> string \<Rightarrow> string \<Rightarrow> (env_error, AuditVolume) result proc" where
  "StageAuditVolume w clusterName policyYAML = do {
     (ok, out) \<leftarrow> perform w (Cmd [''docker'', ''volume'', ''create'', auditVolumeName clusterName]);
     if \<not> ok then State_Monad.return (Inl VolumeCreate)
     else do {
       e1 \<leftarrow> stageFile w (auditVolumeName clusterName) ''mkdir -p /data/patches && cat > /data/policy.yaml'' policyYAML;
       case e1 of Some e \<Rightarrow> State_Monad.return (Inl e) | None \<Rightarrow> do {
         e2 \<leftarrow> stageFile w (auditVolumeName clusterName) ''cat > /data/patches/kube-apiserver.yaml'' kindAuditPodPatch;
         case e2 of Some e \<Rightarrow> State_Monad.return (Inl e) | None \<Rightarrow> do {
           (ok, out) \<leftarrow> perform w (Cmd [''docker'', ''volume'', ''inspect'', ''-f'', ''{{.Mountpoint}}'', auditVolumeName clusterName]);
           State_Monad.return
             (if \<not> ok then Inl VolumeInspect
              else if trim_space out = [] then Inl EmptyMountpoint
              else Inr \<lparr>av_Name = auditVolumeName clusterName, av_Mountpoint = trim_space out\<rparr>) } } } }"

definition RemoveAuditVolume :: "World \<Rightarrow> string \<Rightarrow> env_error option proc" where
  "RemoveAuditVolume w clusterName = do {
     (ok, out) \<leftarrow> perform w (Cmd [''docker'', ''volume'', ''rm'', auditVolumeName clusterName]);
     State_Monad.return (err_if (\<not> ok \<and> \<not> str_contains (to_lower out) ''no such volume'') VolumeRemove) }"

definition gvisorMounts :: "RuntimeConfig list \<Rightarrow> string list" where
  "gvisorMounts rts = concat (map (\<lambda>rt. if ru_Name rt = ''gvisor''
     then [''      - hostPath: /usr/local/bin/runsc'', ''        containerPath: /usr/local/bin/runsc''] else []) rts)"

definition BuildKindAuditConfig :: "AuditVolume \<Rightarrow> KubernetesConfig \<Rightarrow> string" where
  "BuildKindAuditConfig vol k8s = text_lines
     ([''kind: Cluster'', ''apiVersion: kind.x-k8s.io/v1alpha4''] @
      (if ku_CNI k8s \<noteq> [] then
         [''networking:'', ''  disableDefaultCNI: true''] @ (if ku_CNI k8s = ''cilium'' then [''  kubeProxyMode: none''] else [])
       else []) @
      [''nodes:'', ''  - role: control-plane'', ''    extraMounts:'',
       ''      - hostPath: '' @ av_Mountpoint vol @ ''/policy.yaml'',
       ''        containerPath: /etc/kubernetes/audit/policy.yaml'', ''        readOnly: true'',
       ''      - hostPath: '' @ av_Mountpoint vol @ ''/patches'',
       ''        containerPath: /etc/kubernetes/kubeadm-patches'', ''        readOnly: true'',
       ''    kubeadmConfigPatches:'',
       ''      - |'',
       ''        apiVersion: kubeadm.k8s.io/v1beta3'', ''        kind: InitConfiguration'', ''        patches:'',
       ''          directory: /etc/kubernetes/kubeadm-patches'',
       ''      - |'',
       ''        apiVersion: kubeadm.k8s.io/v1beta3'', ''        kind: ClusterConfiguration'', ''        metadata:'',
       ''          name: config'', ''        apiServer:'', ''          extraArgs:'',
       ''            audit-policy-file: /etc/kubernetes/audit/policy.yaml'',
       ''            audit-log-path: /var/log/kubernetes/audit.log'',
       ''            audit-log-maxage: '' @ [CHR 0x22] @ ''1'' @ [CHR 0x22],
       ''            audit-log-maxsize: '' @ [CHR 0x22] @ ''64'' @ [CHR 0x22],
       ''            audit-log-maxbackup: '' @ [CHR 0x22] @ ''4'' @ [CHR 0x22]] @
      (if ku_Runtimes k8s \<noteq> [] then [''  - role: worker'', ''    extraMounts:''] @ gvisorMounts (ku_Runtimes k8s) else []))"

definition K3dAuditArgs :: "string \<Rightarrow> string list" where
  "K3dAuditArgs volumeName =
     [''--volume'', volumeName @ '':/etc/kubernetes/audit@server:0'',
      ''--k3s-arg'', ''--kube-apiserver-arg=audit-policy-file=/etc/kubernetes/audit/policy.yaml@server:0'',
      ''--k3s-arg'', ''--kube-apiserver-arg=audit-log-path=/var/log/kubernetes/audit.log@server:0'',
      ''--k3s-arg'', ''--kube-apiserver-arg=audit-log-maxage=1@server:0'',
      ''--k3s-arg'', ''--kube-apiserver-arg=audit-log-maxsize=64@server:0'',
      ''--k3s-arg'', ''--kube-apiserver-arg=audit-log-maxbackup=4@server:0'']"

definition kindInitPatch :: string where
  "kindInitPatch = text_lines
     [''apiVersion: kubeadm.k8s.io/v1beta3'', ''kind: InitConfiguration'', ''patches:'',
      ''  directory: /etc/kubernetes/kubeadm-patches'']"

definition kindClusterArgsPatch :: string where
  "kindClusterArgsPatch = text_lines
     [''apiVersion: kubeadm.k8s.io/v1beta3'', ''kind: ClusterConfiguration'', ''metadata:'', ''  name: config'',
      ''apiServer:'', ''  extraArgs:'',
      ''    audit-policy-file: /etc/kubernetes/audit/policy.yaml'',
      ''    audit-log-path: /var/log/kubernetes/audit.log'',
      ''    audit-log-maxage: '' @ [CHR 0x22] @ ''1'' @ [CHR 0x22],
      ''    audit-log-maxsize: '' @ [CHR 0x22] @ ''64'' @ [CHR 0x22],
      ''    audit-log-maxbackup: '' @ [CHR 0x22] @ ''4'' @ [CHR 0x22]]"

text \<open>
  The YAML codec: \<open>ym_Parse\<close> decodes a document into a map (\<open>None\<close> on an error, no fields for an
  empty document) and \<open>ym_Marshal\<close> prints one.
\<close>

record Yaml =
  ym_Parse :: "string \<Rightarrow> (string \<times> json) list option"
  ym_Marshal :: "(string \<times> json) list \<Rightarrow> string option"

definition as_list :: "json option \<Rightarrow> json list" where
  "as_list v = (case v of Some (JArr xs) \<Rightarrow> xs | _ \<Rightarrow> [])"

definition jdefault :: "string \<Rightarrow> json \<Rightarrow> (string \<times> json) list \<Rightarrow> (string \<times> json) list" where
  "jdefault k v doc = (if jget doc k = None then jset k v doc else doc)"

definition isControlPlane :: "json \<Rightarrow> bool" where
  "isControlPlane n = (case n of JObj m \<Rightarrow> as_string (jget m ''role'') = ''control-plane'' \<or> as_string (jget m ''role'') = [] | _ \<Rightarrow> False)"

definition auditMounts :: "AuditVolume \<Rightarrow> json list" where
  "auditMounts vol =
     [JObj [(''hostPath'', JStr (av_Mountpoint vol @ ''/policy.yaml'')), (''containerPath'', JStr ''/etc/kubernetes/audit/policy.yaml''), (''readOnly'', JBool True)],
      JObj [(''hostPath'', JStr (av_Mountpoint vol @ ''/patches'')), (''containerPath'', JStr ''/etc/kubernetes/kubeadm-patches''), (''readOnly'', JBool True)]]"

definition addAudit :: "AuditVolume \<Rightarrow> (string \<times> json) list \<Rightarrow> (string \<times> json) list" where
  "addAudit vol cp =
     (let cp1 = jset ''extraMounts'' (JArr (as_list (jget cp ''extraMounts'') @ auditMounts vol)) cp in
      jset ''kubeadmConfigPatches''
        (JArr (as_list (jget cp1 ''kubeadmConfigPatches'') @ [JStr kindInitPatch, JStr kindClusterArgsPatch])) cp1)"

text \<open>The loop takes the first control-plane node; the code updates that map in place.\<close>

fun updateFirst :: "('a \<Rightarrow> bool) \<Rightarrow> ('a \<Rightarrow> 'a) \<Rightarrow> 'a list \<Rightarrow> 'a list" where
  "updateFirst p f [] = []"
| "updateFirst p f (x # xs) = (if p x then f x # xs else x # updateFirst p f xs)"

definition mergeAudit :: "AuditVolume \<Rightarrow> (string \<times> json) list \<Rightarrow> (string \<times> json) list" where
  "mergeAudit vol doc =
     (let doc1 = jdefault ''apiVersion'' (JStr ''kind.x-k8s.io/v1alpha4'') (jdefault ''kind'' (JStr ''Cluster'') doc);
          nodes = as_list (jget doc1 ''nodes'') in
      if list_ex isControlPlane nodes then
        jset ''nodes'' (JArr (updateFirst isControlPlane (\<lambda>n. case n of JObj m \<Rightarrow> JObj (addAudit vol m) | j \<Rightarrow> j) nodes)) doc1
      else jset ''nodes'' (JArr (nodes @ [JObj (addAudit vol [(''role'', JStr ''control-plane'')])])) doc1)"

definition MergeKindAuditConfig :: "Yaml \<Rightarrow> string \<Rightarrow> AuditVolume \<Rightarrow> string option" where
  "MergeKindAuditConfig y assetYAML vol = (case ym_Parse y assetYAML of
     None \<Rightarrow> None
   | Some doc \<Rightarrow> ym_Marshal y (mergeAudit vol doc))"

section \<open>Preloading and networks\<close>

definition DockerNetworkOf :: "World \<Rightarrow> string \<Rightarrow> string proc" where
  "DockerNetworkOf w container = do {
     (ok, out) \<leftarrow> perform w (Cmd [''docker'', ''inspect'', ''-f'', ''{{range $k, $_ := .NetworkSettings.Networks}}{{$k}}{{end}}'', container]);
     State_Monad.return (if ok then trim_space out else []) }"

fun fields_func :: "(char \<Rightarrow> bool) \<Rightarrow> string \<Rightarrow> string \<Rightarrow> string list" where
  "fields_func sep cur [] = (if cur = [] then [] else [cur])"
| "fields_func sep cur (c # cs) =
     (if sep c then (if cur = [] then [] else [cur]) @ fields_func sep [] cs else fields_func sep (cur @ [c]) cs)"

definition preloadImageRe :: "string \<Rightarrow> bool" where
  "preloadImageRe img = (case img of
     [] \<Rightarrow> False
   | c # cs \<Rightarrow> (let lowdig = (\<lambda>c. CHR ''a'' \<le> c \<and> c \<le> CHR ''z'' \<or> CHR ''0'' \<le> c \<and> c \<le> CHR ''9'') in
       lowdig c \<and> list_all (\<lambda>c. lowdig c \<or> c \<in> set ''._/:@-'') cs))"

fun preloadAll :: "World \<Rightarrow> string \<Rightarrow> string list \<Rightarrow> unit proc" where
  "preloadAll w node [] = State_Monad.return ()"
| "preloadAll w node (img # imgs) = do {
     _ \<leftarrow> (if preloadImageRe img then attempt w (Cmd [''docker'', ''exec'', node, ''crictl'', ''pull'', img]) else State_Monad.return ());
     preloadAll w node imgs }"

definition PreloadFixtureImages :: "World \<Rightarrow> HostEnv \<Rightarrow> string \<Rightarrow> unit proc" where
  "PreloadFixtureImages w env nodeContainer =
     (let raw = trim_space (he_PreloadImages env) in
      if raw = [] \<or> nodeContainer = [] then State_Monad.return ()
      else preloadAll w nodeContainer (fields_func (\<lambda>r. r = CHR '','' \<or> r = CHR '' '' \<or> r = CHR 0x0A) [] raw))"

section \<open>kind\<close>

record KindProvider =
  kp_ReuseExisting :: bool
  kp_ContainerName :: string
  kp_NetworkMode :: ContainerNetworkMode

definition hasFeature :: "string list \<Rightarrow> string \<Rightarrow> bool" where
  "hasFeature features name = list_ex (\<lambda>f. f = name) features"

definition BuildKindConfig :: "KubernetesConfig \<Rightarrow> string" where
  "BuildKindConfig k8s =
     (if ku_CNI k8s = [] \<and> ku_Runtimes k8s = [] \<and> ku_Features k8s = [] then []
      else text_lines
        ([''kind: Cluster'', ''apiVersion: kind.x-k8s.io/v1alpha4''] @
         (if ku_CNI k8s \<noteq> [] then
            [''networking:'', ''  disableDefaultCNI: true''] @ (if ku_CNI k8s = ''cilium'' then [''  kubeProxyMode: none''] else [])
          else []) @
         (if ku_Runtimes k8s \<noteq> [] \<or> hasFeature (ku_Features k8s) ''audit-logging'' then
            [''nodes:'', ''  - role: control-plane''] @
            (if hasFeature (ku_Features k8s) ''audit-logging'' then
               [''    kubeadmConfigPatches:'', ''      - |'', ''        kind: ClusterConfiguration'', ''        apiServer:'',
                ''          extraArgs:'', ''            audit-log-path: /var/log/kubernetes/audit.log'',
                ''            audit-policy-file: /etc/kubernetes/audit-policy.yaml'', ''          extraVolumes:'',
                ''            - name: audit-policy'', ''              hostPath: /etc/kubernetes/audit-policy.yaml'',
                ''              mountPath: /etc/kubernetes/audit-policy.yaml'', ''              readOnly: true'',
                ''            - name: audit-logs'', ''              hostPath: /var/log/kubernetes'',
                ''              mountPath: /var/log/kubernetes'']
             else []) @
            (if ku_Runtimes k8s \<noteq> [] then ''    extraMounts:'' # gvisorMounts (ku_Runtimes k8s) else []) @
            [''  - role: worker''] @
            (if ku_Runtimes k8s \<noteq> [] then ''    extraMounts:'' # gvisorMounts (ku_Runtimes k8s) else [])
          else [])))"

definition registryMirrorPatch :: "HostEnv \<Rightarrow> string" where
  "registryMirrorPatch env =
     (let endpoint = trim_space (he_RegistryMirror env) in
      if endpoint = [] then []
      else if \<not> has_prefix endpoint ''https://'' \<or> list_ex (\<lambda>c. c \<in> set ([CHR '' '', CHR 0x0A, CHR 0x09, CHR 0x22])) endpoint then []
      else text_lines
        [''containerdConfigPatches:'', ''- |-'',
         ''  [plugins.'' @ [CHR 0x22] @ ''io.containerd.grpc.v1.cri'' @ [CHR 0x22] @ ''.registry.mirrors.'' @ [CHR 0x22] @ ''docker.io'' @ [CHR 0x22] @ '']'',
         ''    endpoint = ['' @ [CHR 0x22] @ endpoint @ [CHR 0x22] @ '']''])"

definition kindDelete :: "string \<Rightarrow> Op" where
  "kindDelete clusterName = Cmd [''kind'', ''delete'', ''cluster'', ''--name'', clusterName]"

definition kindList :: Op where
  "kindList = Cmd [''kind'', ''get'', ''clusters'']"

definition kindKubeconfig :: "KindProvider \<Rightarrow> string \<Rightarrow> Op" where
  "kindKubeconfig p clusterName =
     (if kp_ContainerName p \<noteq> [] \<and> kp_NetworkMode p \<noteq> NetHost
      then Cmd [''kind'', ''get'', ''kubeconfig'', ''--internal'', ''--name'', clusterName]
      else Cmd [''kind'', ''get'', ''kubeconfig'', ''--name'', clusterName])"

definition kindConnect :: "KindProvider \<Rightarrow> Op" where
  "kindConnect p = Cmd [''docker'', ''network'', ''connect'', ''kind'', kp_ContainerName p]"

definition kindExists :: "World \<Rightarrow> string \<Rightarrow> (env_error, bool) result proc" where
  "kindExists w clusterName = do {
     (ok, out) \<leftarrow> perform w kindList;
     State_Monad.return (if \<not> ok then Inl CheckExisting
       else Inr (list_ex (\<lambda>line. trim_space line = clusterName) (split_at CHR 0x0A out))) }"

text \<open>
  A temporary configuration file: created, written and closed; a failure removes what was created.
  The result is the name of the file.
\<close>

definition tempConfig :: "World \<Rightarrow> string \<Rightarrow> string \<Rightarrow> string option proc" where
  "tempConfig w pattern content = do {
     (ok, name) \<leftarrow> perform w (CreateTemp pattern);
     if \<not> ok then State_Monad.return None
     else do {
       (ok, out) \<leftarrow> perform w (WriteTemp name content);
       if \<not> ok then do { _ \<leftarrow> attempt w (CloseTemp name); _ \<leftarrow> attempt w (Remove name); State_Monad.return None }
       else do {
         (ok, out) \<leftarrow> perform w (CloseTemp name);
         if \<not> ok then do { _ \<leftarrow> attempt w (Remove name); State_Monad.return None }
         else State_Monad.return (Some name) } } }"

text \<open>The create command of a provider, with the temporary file to remove afterwards.\<close>

definition kindPlainCommand :: "World \<Rightarrow> HostEnv \<Rightarrow> string \<Rightarrow> ClusterSpec \<Rightarrow> (env_error, string list \<times> string option) result proc" where
  "kindPlainCommand w env clusterName spec =
     (if cs_ConfigPath spec \<noteq> [] then
        State_Monad.return (Inr ([''kind'', ''create'', ''cluster'', ''--name'', clusterName, ''--config'', cs_ConfigPath spec, ''--wait'', ''60s''], None))
      else if BuildKindConfig (cs_LegacyKubernetes spec) = [] then
        State_Monad.return (Inr ([''kind'', ''create'', ''cluster'', ''--name'', clusterName, ''--wait'', ''60s''], None))
      else do {
        t \<leftarrow> tempConfig w ''kind-config-*.yaml'' (BuildKindConfig (cs_LegacyKubernetes spec) @ registryMirrorPatch env);
        State_Monad.return (case t of
          None \<Rightarrow> Inl ConfigUnwritable
        | Some name \<Rightarrow> Inr ([''kind'', ''create'', ''cluster'', ''--name'', clusterName, ''--config'', name, ''--wait'', ''60s''], Some name)) })"

definition auditImage :: "HostEnv \<Rightarrow> ClusterSpec \<Rightarrow> string" where
  "auditImage env spec =
     (if ac_NodeImage (cs_Audit spec) \<noteq> [] then ac_NodeImage (cs_Audit spec)
      else if trim_space (he_AuditNodeImage env) \<noteq> [] then trim_space (he_AuditNodeImage env)
      else DefaultAuditNodeImage)"

definition kindAuditYAML :: "World \<Rightarrow> Yaml \<Rightarrow> ClusterSpec \<Rightarrow> AuditVolume \<Rightarrow> (env_error, string) result proc" where
  "kindAuditYAML w y spec vol =
     (if cs_ConfigPath spec = [] then State_Monad.return (Inr (BuildKindAuditConfig vol (cs_LegacyKubernetes spec)))
      else do {
        (ok, asset) \<leftarrow> perform w (ReadFile (cs_ConfigPath spec));
        State_Monad.return (if \<not> ok then Inl AssetUnreadable
          else (case MergeKindAuditConfig y asset vol of None \<Rightarrow> Inl AssetInvalid | Some merged \<Rightarrow> Inr merged)) })"

definition kindAuditCommand :: "World \<Rightarrow> HostEnv \<Rightarrow> Yaml \<Rightarrow> string \<Rightarrow> ClusterSpec \<Rightarrow> (env_error, string list \<times> string option) result proc" where
  "kindAuditCommand w env y clusterName spec = do {
     v \<leftarrow> StageAuditVolume w clusterName (AuditPolicyYAML (ac_PolicyMode (cs_Audit spec)));
     case v of Inl e \<Rightarrow> State_Monad.return (Inl e) | Inr vol \<Rightarrow> do {
       c \<leftarrow> kindAuditYAML w y spec vol;
       case c of Inl e \<Rightarrow> do { _ \<leftarrow> RemoveAuditVolume w clusterName; State_Monad.return (Inl e) } | Inr configYAML \<Rightarrow> do {
         t \<leftarrow> tempConfig w ''kind-audit-config-*.yaml'' (configYAML @ registryMirrorPatch env);
         case t of None \<Rightarrow> do { _ \<leftarrow> RemoveAuditVolume w clusterName; State_Monad.return (Inl ConfigUnwritable) }
         | Some name \<Rightarrow> State_Monad.return
             (Inr ([''kind'', ''create'', ''cluster'', ''--name'', clusterName, ''--config'', name,
                    ''--image'', auditImage env spec, ''--wait'', ''300s''], Some name)) } } }"

text \<open>
  \<open>kindStart\<close> is the first half of \<^verbatim>\<open>Create\<close>, up to the running cluster; the deferred removal of the
  configuration file runs when \<^verbatim>\<open>Create\<close> returns.
\<close>

definition kindRunCreate :: "World \<Rightarrow> string \<Rightarrow> ClusterSpec \<Rightarrow> string list \<Rightarrow> string option \<Rightarrow> (env_error, string option) result proc" where
  "kindRunCreate w clusterName spec argv tmp = do {
     (ok, out) \<leftarrow> perform w (Cmd argv);
     if ok then State_Monad.return (Inr tmp)
     else do {
       _ \<leftarrow> (if ac_Enabled (cs_Audit spec) then RemoveAuditVolume w clusterName else State_Monad.return None);
       _ \<leftarrow> (case tmp of None \<Rightarrow> State_Monad.return () | Some name \<Rightarrow> attempt w (Remove name));
       State_Monad.return (Inl CreateFailed) } }"

definition kindStart :: "World \<Rightarrow> HostEnv \<Rightarrow> Yaml \<Rightarrow> string \<Rightarrow> ClusterSpec \<Rightarrow> (env_error, string option) result proc" where
  "kindStart w env y clusterName spec = do {
     c \<leftarrow> (if ac_Enabled (cs_Audit spec) then kindAuditCommand w env y clusterName spec else kindPlainCommand w env clusterName spec);
     case c of Inl e \<Rightarrow> State_Monad.return (Inl e) | Inr (argv, tmp) \<Rightarrow> kindRunCreate w clusterName spec argv tmp }"

definition alreadyConnected :: "string \<Rightarrow> bool" where
  "alreadyConnected out \<longleftrightarrow> str_contains (to_lower out) ''already exists'' \<or> str_contains (to_lower out) ''already connected''"

definition kubeconfigPath :: "HostEnv \<Rightarrow> string \<Rightarrow> string" where
  "kubeconfigPath env clusterName = Join (he_TempDir env) (''bench-cli-'' @ clusterName @ ''-kubeconfig'')"

definition kindFinish :: "World \<Rightarrow> HostEnv \<Rightarrow> KindProvider \<Rightarrow> string \<Rightarrow> ClusterSpec \<Rightarrow> (env_error, Handle) result proc" where
  "kindFinish w env p clusterName spec = do {
     (ok, out) \<leftarrow> perform w (kindKubeconfig p clusterName);
     if \<not> ok then State_Monad.return (Inl KubeconfigUnavailable)
     else do {
       (ok, _) \<leftarrow> perform w (WriteFile (kubeconfigPath env clusterName) out);
       if \<not> ok then State_Monad.return (Inl KubeconfigUnwritable)
       else do {
         _ \<leftarrow> PreloadFixtureImages w env (clusterName @ ''-control-plane'');
         network \<leftarrow> DockerNetworkOf w (clusterName @ ''-control-plane'');
         State_Monad.return (Inr
           \<lparr>hd_ClusterName = clusterName, hd_KubeconfigPath = kubeconfigPath env clusterName,
            hd_Audit = (if ac_Enabled (cs_Audit spec) then Some
              \<lparr>aa_NodeContainers = [clusterName @ ''-control-plane''], aa_LogPath = ''/var/log/kubernetes/audit.log'',
               aa_MarkerUsername = ''kubernetes-admin''\<rparr> else None),
            hd_ClusterNetwork = network, hd_InClusterServer = ''https://'' @ clusterName @ ''-control-plane:6443''\<rparr>) } } }"

definition kindJoinNetwork :: "World \<Rightarrow> KindProvider \<Rightarrow> bool \<Rightarrow> string \<Rightarrow> env_error option proc" where
  "kindJoinNetwork w p exist clusterName =
     (if kp_ContainerName p \<noteq> [] \<and> kp_NetworkMode p \<noteq> NetHost then do {
        (ok, out) \<leftarrow> perform w (kindConnect p);
        if \<not> ok \<and> \<not> alreadyConnected out then do {
          _ \<leftarrow> (if \<not> exist then attempt w (kindDelete clusterName) else State_Monad.return ());
          State_Monad.return (Some ConnectFailed) }
        else State_Monad.return None }
      else State_Monad.return None)"

definition kindAttach :: "World \<Rightarrow> HostEnv \<Rightarrow> KindProvider \<Rightarrow> bool \<Rightarrow> string \<Rightarrow> ClusterSpec \<Rightarrow> string option \<Rightarrow> (env_error, Handle) result proc" where
  "kindAttach w env p exist clusterName spec tmp = do {
     j \<leftarrow> kindJoinNetwork w p exist clusterName;
     r \<leftarrow> (case j of Some e \<Rightarrow> State_Monad.return (Inl e) | None \<Rightarrow> kindFinish w env p clusterName spec);
     _ \<leftarrow> (case tmp of None \<Rightarrow> State_Monad.return () | Some name \<Rightarrow> attempt w (Remove name));
     State_Monad.return r }"

definition kindCreate :: "World \<Rightarrow> HostEnv \<Rightarrow> Yaml \<Rightarrow> KindProvider \<Rightarrow> string \<Rightarrow> ClusterSpec \<Rightarrow> (env_error, Handle) result proc" where
  "kindCreate w env y p clusterName spec = do {
     ex \<leftarrow> kindExists w clusterName;
     case ex of Inl e \<Rightarrow> State_Monad.return (Inl e) | Inr exist \<Rightarrow> do {
       st \<leftarrow> (if \<not> exist \<or> \<not> kp_ReuseExisting p then kindStart w env y clusterName spec else State_Monad.return (Inr None));
       case st of Inl e \<Rightarrow> State_Monad.return (Inl e) | Inr tmp \<Rightarrow> kindAttach w env p exist clusterName spec tmp } }"

definition kindDestroy :: "World \<Rightarrow> Handle \<Rightarrow> env_error list proc" where
  "kindDestroy w h = do {
     (ok, out) \<leftarrow> perform w (kindDelete (hd_ClusterName h));
     if \<not> ok then State_Monad.return [DestroyFailed]
     else do {
       _ \<leftarrow> RemoveAuditVolume w (hd_ClusterName h);
       _ \<leftarrow> attempt w (Remove (hd_KubeconfigPath h));
       State_Monad.return [] } }"

definition kindRecreate :: "World \<Rightarrow> HostEnv \<Rightarrow> Yaml \<Rightarrow> KindProvider \<Rightarrow> string \<Rightarrow> ClusterSpec \<Rightarrow> (env_error, Handle) result proc" where
  "kindRecreate w env y p clusterName spec = do { _ \<leftarrow> attempt w (kindDelete clusterName); kindCreate w env y p clusterName spec }"

definition kindLifecycle :: "World \<Rightarrow> HostEnv \<Rightarrow> Yaml \<Rightarrow> KindProvider \<Rightarrow> ClusterLifecycle" where
  "kindLifecycle w env y p =
     \<lparr>lc_Create = kindCreate w env y p, lc_Destroy = kindDestroy w, lc_Recreate = kindRecreate w env y p\<rparr>"

section \<open>k3d\<close>

text \<open>
  Inside a runner container the kubeconfig is rewritten for the cluster network
  (\<^verbatim>\<open>rewriteK3dKubeconfigServer\<close>) or for the host (\<^verbatim>\<open>localizeK3dKubeconfigServer\<close>), on the nodes
  of the YAML document. \<open>kc_Parse\<close> decodes a document (\<open>None\<close> on an error, \<open>Some None\<close> if it has no
  content), \<open>kc_Marshal\<close> prints one, and \<open>kc_URL\<close> parses a server address into its port and the
  rendering of the address with another host.
\<close>

datatype YamlNode = YScalar string | YAlias string | YSeq "YamlNode list" | YMap "(YamlNode \<times> YamlNode) list"

record KubeconfigCodec =
  kc_Parse :: "string \<Rightarrow> YamlNode option option"
  kc_Marshal :: "YamlNode \<Rightarrow> string option"
  kc_URL :: "string \<Rightarrow> (string \<times> (string \<Rightarrow> string)) option"

definition nodeValue :: "YamlNode \<Rightarrow> string" where
  "nodeValue n = (case n of YScalar v \<Rightarrow> v | YAlias a \<Rightarrow> a | _ \<Rightarrow> [])"

definition yamlMapValue :: "YamlNode option \<Rightarrow> string \<Rightarrow> YamlNode option" where
  "yamlMapValue mapping key = (case mapping of
     Some (YMap kvs) \<Rightarrow> map_option snd (find (\<lambda>kv. nodeValue (fst kv) = key) kvs)
   | _ \<Rightarrow> None)"

definition serverOf :: "YamlNode \<Rightarrow> YamlNode option" where
  "serverOf entry = yamlMapValue (yamlMapValue (Some entry) ''cluster'') ''server''"

text \<open>The code assigns to the node it found; here the first entry with the key is replaced.\<close>

definition putKey :: "string \<Rightarrow> (YamlNode \<Rightarrow> YamlNode) \<Rightarrow> YamlNode \<Rightarrow> YamlNode" where
  "putKey key f n = (case n of
     YMap kvs \<Rightarrow> YMap (updateFirst (\<lambda>kv. nodeValue (fst kv) = key) (\<lambda>kv. (fst kv, f (snd kv))) kvs)
   | _ \<Rightarrow> n)"

definition putServer :: "string \<Rightarrow> YamlNode \<Rightarrow> YamlNode" where
  "putServer v = putKey ''cluster'' (putKey ''server'' (\<lambda>_. YScalar v))"

fun rewriteEntries :: "(string \<Rightarrow> string option) \<Rightarrow> YamlNode list \<Rightarrow> (YamlNode list \<times> nat) option" where
  "rewriteEntries f [] = Some ([], 0)"
| "rewriteEntries f (entry # entries) = (case serverOf entry of
     Some (YScalar server) \<Rightarrow> (case f server of
         None \<Rightarrow> None
       | Some v \<Rightarrow> map_option (\<lambda>(es, k). (putServer v entry # es, Suc k)) (rewriteEntries f entries))
   | _ \<Rightarrow> map_option (\<lambda>(es, k). (entry # es, k)) (rewriteEntries f entries))"

definition rewriteClusters :: "KubeconfigCodec \<Rightarrow> (string \<Rightarrow> string option) \<Rightarrow> string \<Rightarrow> string option" where
  "rewriteClusters kc f data = (case kc_Parse kc data of
     Some (Some doc) \<Rightarrow> (case yamlMapValue (Some doc) ''clusters'' of
         Some (YSeq entries) \<Rightarrow> (case rewriteEntries f entries of
             None \<Rightarrow> None
           | Some (es, rewritten) \<Rightarrow> if rewritten = 0 then None else kc_Marshal kc (putKey ''clusters'' (\<lambda>_. YSeq es) doc))
       | _ \<Rightarrow> None)
   | _ \<Rightarrow> None)"

definition rewriteK3dKubeconfigServer :: "KubeconfigCodec \<Rightarrow> string \<Rightarrow> string \<Rightarrow> string option" where
  "rewriteK3dKubeconfigServer kc data clusterName =
     rewriteClusters kc (\<lambda>_. Some (''https://k3d-'' @ clusterName @ ''-server-0:6443'')) data"

definition localizeK3dKubeconfigServer :: "KubeconfigCodec \<Rightarrow> string \<Rightarrow> string option" where
  "localizeK3dKubeconfigServer kc data =
     rewriteClusters kc (\<lambda>server. case kc_URL kc server of
         None \<Rightarrow> None
       | Some (port, withHost) \<Rightarrow> if port = [] then None else Some (withHost (''127.0.0.1:'' @ port))) data"

record K3dProvider =
  k3_ReuseExisting :: bool
  k3_ContainerName :: string
  k3_NetworkMode :: ContainerNetworkMode

definition k3dDelete :: "string \<Rightarrow> Op" where
  "k3dDelete clusterName = Cmd [''k3d'', ''cluster'', ''delete'', clusterName]"

definition k3dList :: Op where
  "k3dList = Cmd [''k3d'', ''cluster'', ''list'', ''--no-headers'']"

definition k3dKubeconfig :: "string \<Rightarrow> Op" where
  "k3dKubeconfig clusterName = Cmd [''k3d'', ''kubeconfig'', ''get'', clusterName]"

definition k3dConnect :: "K3dProvider \<Rightarrow> string \<Rightarrow> Op" where
  "k3dConnect p clusterName = Cmd [''docker'', ''network'', ''connect'', ''k3d-'' @ clusterName, k3_ContainerName p]"

definition k3dDisconnect :: "K3dProvider \<Rightarrow> string \<Rightarrow> Op" where
  "k3dDisconnect p clusterName = Cmd [''docker'', ''network'', ''disconnect'', ''k3d-'' @ clusterName, k3_ContainerName p]"

definition k3dCreateArgv :: "string \<Rightarrow> ClusterSpec \<Rightarrow> string list" where
  "k3dCreateArgv clusterName spec =
     (if ac_Enabled (cs_Audit spec) then
        [''k3d'', ''cluster'', ''create'', clusterName] @
        (if cs_ConfigPath spec \<noteq> [] then [''--config'', cs_ConfigPath spec] else [''--no-lb'', ''--wait'']) @
        K3dAuditArgs (auditVolumeName clusterName)
      else if cs_ConfigPath spec \<noteq> [] then [''k3d'', ''cluster'', ''create'', clusterName, ''--config'', cs_ConfigPath spec]
      else [''k3d'', ''cluster'', ''create'', clusterName, ''--no-lb'', ''--wait''])"

definition k3dExists :: "World \<Rightarrow> string \<Rightarrow> (env_error, bool) result proc" where
  "k3dExists w clusterName = do {
     (ok, out) \<leftarrow> perform w k3dList;
     State_Monad.return (if \<not> ok then Inl CheckExisting
       else Inr (list_ex (\<lambda>line. Go_Prelude.fields line \<noteq> [] \<and> hd (Go_Prelude.fields line) = clusterName) (split_at CHR 0x0A out))) }"

definition disconnectContainer :: "World \<Rightarrow> K3dProvider \<Rightarrow> string \<Rightarrow> env_error list proc" where
  "disconnectContainer w p clusterName = do {
     (ok, out) \<leftarrow> perform w (k3dDisconnect p clusterName);
     State_Monad.return
       (let message = to_lower out in
        if ok \<or> str_contains message ''not connected'' \<or> str_contains message ''no such container'' \<or> str_contains message ''no such network''
        then [] else [DisconnectFailed]) }"

definition k3dRunCreate :: "World \<Rightarrow> string \<Rightarrow> ClusterSpec \<Rightarrow> env_error option proc" where
  "k3dRunCreate w clusterName spec = do {
     (ok, out) \<leftarrow> perform w (Cmd (k3dCreateArgv clusterName spec));
     if \<not> ok then do {
       _ \<leftarrow> (if ac_Enabled (cs_Audit spec) then RemoveAuditVolume w clusterName else State_Monad.return None);
       State_Monad.return (Some CreateFailed) }
     else do {
       _ \<leftarrow> (if ac_Enabled (cs_Audit spec)
             then attempt w (Cmd [''docker'', ''exec'', ''k3d-'' @ clusterName @ ''-server-0'', ''mkdir'', ''-p'', ''/var/log/kubernetes''])
             else State_Monad.return ());
       State_Monad.return None } }"

definition k3dStage :: "World \<Rightarrow> string \<Rightarrow> ClusterSpec \<Rightarrow> env_error option proc" where
  "k3dStage w clusterName spec =
     (if ac_Enabled (cs_Audit spec) then do {
        v \<leftarrow> StageAuditVolume w clusterName (AuditPolicyYAML (ac_PolicyMode (cs_Audit spec)));
        State_Monad.return (case v of Inl e \<Rightarrow> Some e | Inr _ \<Rightarrow> None) }
      else State_Monad.return None)"

definition k3dStart :: "World \<Rightarrow> string \<Rightarrow> ClusterSpec \<Rightarrow> bool \<Rightarrow> env_error option proc" where
  "k3dStart w clusterName spec exist = do {
     (ok, _) \<leftarrow> (if exist then perform w (k3dDelete clusterName) else State_Monad.return (True, []));
     if \<not> ok then State_Monad.return (Some DeleteExisting)
     else do {
       v \<leftarrow> k3dStage w clusterName spec;
       case v of Some e \<Rightarrow> State_Monad.return (Some e) | None \<Rightarrow> k3dRunCreate w clusterName spec } }"

definition k3dJoinNetwork :: "World \<Rightarrow> K3dProvider \<Rightarrow> bool \<Rightarrow> string \<Rightarrow> env_error option proc" where
  "k3dJoinNetwork w p exist clusterName =
     (if k3_ContainerName p \<noteq> [] \<and> k3_NetworkMode p \<noteq> NetHost then do {
        (ok, out) \<leftarrow> perform w (k3dConnect p clusterName);
        if \<not> ok \<and> \<not> alreadyConnected out then do {
          _ \<leftarrow> (if \<not> exist then attempt w (k3dDelete clusterName) else State_Monad.return ());
          State_Monad.return (Some ConnectFailed) }
        else State_Monad.return None }
      else State_Monad.return None)"

definition k3dPrepared :: "KubeconfigCodec \<Rightarrow> K3dProvider \<Rightarrow> string \<Rightarrow> string \<Rightarrow> string option" where
  "k3dPrepared rw p clusterName out =
     (if k3_ContainerName p = [] then Some out
      else if k3_NetworkMode p = NetHost then localizeK3dKubeconfigServer rw out
      else rewriteK3dKubeconfigServer rw out clusterName)"

definition k3dFinish :: "World \<Rightarrow> HostEnv \<Rightarrow> KubeconfigCodec \<Rightarrow> K3dProvider \<Rightarrow> string \<Rightarrow> ClusterSpec \<Rightarrow> (env_error, Handle) result proc" where
  "k3dFinish w env rw p clusterName spec = do {
     (ok, out) \<leftarrow> perform w (k3dKubeconfig clusterName);
     if \<not> ok then State_Monad.return (Inl KubeconfigUnavailable)
     else (case k3dPrepared rw p clusterName out of
       None \<Rightarrow> State_Monad.return (Inl KubeconfigUnusable)
     | Some cfg \<Rightarrow> do {
         (ok, _) \<leftarrow> perform w (WriteFile (kubeconfigPath env clusterName) cfg);
         if \<not> ok then State_Monad.return (Inl KubeconfigUnwritable)
         else do {
           _ \<leftarrow> PreloadFixtureImages w env (''k3d-'' @ clusterName @ ''-server-0'');
           network \<leftarrow> DockerNetworkOf w (''k3d-'' @ clusterName @ ''-server-0'');
           State_Monad.return (Inr
             \<lparr>hd_ClusterName = clusterName, hd_KubeconfigPath = kubeconfigPath env clusterName,
              hd_Audit = (if ac_Enabled (cs_Audit spec) then Some
                \<lparr>aa_NodeContainers = [''k3d-'' @ clusterName @ ''-server-0''], aa_LogPath = ''/var/log/kubernetes/audit.log'',
                 aa_MarkerUsername = ''system:admin''\<rparr> else None),
              hd_ClusterNetwork = (if network \<noteq> [] then network else ''k3d-'' @ clusterName),
              hd_InClusterServer = ''https://k3d-'' @ clusterName @ ''-server-0:6443''\<rparr>) } }) }"

definition k3dAttach :: "World \<Rightarrow> HostEnv \<Rightarrow> KubeconfigCodec \<Rightarrow> K3dProvider \<Rightarrow> bool \<Rightarrow> string \<Rightarrow> ClusterSpec \<Rightarrow> (env_error, Handle) result proc" where
  "k3dAttach w env rw p exist clusterName spec = do {
     j \<leftarrow> k3dJoinNetwork w p exist clusterName;
     case j of Some e \<Rightarrow> State_Monad.return (Inl e) | None \<Rightarrow> k3dFinish w env rw p clusterName spec }"

definition k3dCreate :: "World \<Rightarrow> HostEnv \<Rightarrow> KubeconfigCodec \<Rightarrow> K3dProvider \<Rightarrow> string \<Rightarrow> ClusterSpec \<Rightarrow> (env_error, Handle) result proc" where
  "k3dCreate w env rw p clusterName spec = do {
     ex \<leftarrow> k3dExists w clusterName;
     case ex of Inl e \<Rightarrow> State_Monad.return (Inl e) | Inr exist \<Rightarrow> do {
       st \<leftarrow> (if \<not> exist \<or> \<not> k3_ReuseExisting p then k3dStart w clusterName spec exist else State_Monad.return None);
       case st of Some e \<Rightarrow> State_Monad.return (Inl e) | None \<Rightarrow> k3dAttach w env rw p exist clusterName spec } }"

definition k3dRecreate :: "World \<Rightarrow> HostEnv \<Rightarrow> KubeconfigCodec \<Rightarrow> K3dProvider \<Rightarrow> string \<Rightarrow> ClusterSpec \<Rightarrow> (env_error, Handle) result proc" where
  "k3dRecreate w env rw p clusterName spec = do {
     disconnectErr \<leftarrow> (if k3_ContainerName p \<noteq> [] \<and> k3_NetworkMode p \<noteq> NetHost then disconnectContainer w p clusterName else State_Monad.return []);
     (ok, out) \<leftarrow> perform w (k3dDelete clusterName);
     if \<not> ok then State_Monad.return (Inl DeleteExisting)
     else if disconnectErr \<noteq> [] then State_Monad.return (Inl DisconnectFailed)
     else k3dCreate w env rw p clusterName spec }"

definition k3dDestroy :: "World \<Rightarrow> K3dProvider \<Rightarrow> Handle \<Rightarrow> env_error list proc" where
  "k3dDestroy w p h = do {
     disconnectErr \<leftarrow> (if k3_ContainerName p \<noteq> [] \<and> k3_NetworkMode p \<noteq> NetHost then disconnectContainer w p (hd_ClusterName h) else State_Monad.return []);
     (ok, out) \<leftarrow> perform w (k3dDelete (hd_ClusterName h));
     if \<not> ok then State_Monad.return (disconnectErr @ [DestroyFailed])
     else do {
       _ \<leftarrow> RemoveAuditVolume w (hd_ClusterName h);
       _ \<leftarrow> attempt w (Remove (hd_KubeconfigPath h));
       State_Monad.return disconnectErr } }"

definition k3dLifecycle :: "World \<Rightarrow> HostEnv \<Rightarrow> KubeconfigCodec \<Rightarrow> K3dProvider \<Rightarrow> ClusterLifecycle" where
  "k3dLifecycle w env rw p =
     \<lparr>lc_Create = k3dCreate w env rw p, lc_Destroy = k3dDestroy w p, lc_Recreate = k3dRecreate w env rw p\<rparr>"

section \<open>Reasoning about traces\<close>

text \<open>\<open>emits Q m\<close>: a run of \<open>m\<close> only appends to the trace, and its result and what it appends satisfy \<open>Q\<close>.\<close>

definition emits :: "('a \<Rightarrow> Trace \<Rightarrow> bool) \<Rightarrow> 'a proc \<Rightarrow> bool" where
  "emits Q m \<longleftrightarrow> (\<forall>tr. \<exists>d. snd (run_state m tr) = tr @ d \<and> Q (fst (run_state m tr)) d)"

definition only :: "(Op \<Rightarrow> bool) \<Rightarrow> 'a proc \<Rightarrow> bool" where
  "only P m \<longleftrightarrow> emits (\<lambda>_ d. list_all (\<lambda>e. P (fst e)) d) m"

named_theorems emits_intros \<open>rules for the operations of a procedure\<close>

lemma emits_run:
  assumes "emits Q m" and "run_state m tr = (r, tr')"
  obtains d where "tr' = tr @ d" "Q r d"
  using assms unfolding emits_def by (metis fst_conv snd_conv)

lemma emits_mono: "emits P m \<Longrightarrow> (\<And>a d. P a d \<Longrightarrow> Q a d) \<Longrightarrow> emits Q m"
  unfolding emits_def by metis

lemma emits_return [emits_intros]: "Q a [] \<Longrightarrow> emits Q (State_Monad.return a)"
  by (simp add: emits_def)

lemma emits_perform [emits_intros]: "(\<And>r. Q r [(op, r)]) \<Longrightarrow> emits Q (perform w op)"
  by (simp add: emits_def perform_def)

lemma emits_bind:
  assumes "emits P m" and "\<And>a d. P a d \<Longrightarrow> emits (\<lambda>b d'. Q b (d @ d')) (f a)"
  shows "emits Q (State_Monad.bind m f)"
  unfolding emits_def
proof
  fix tr
  obtain a tr' where r: "run_state m tr = (a, tr')" by fastforce
  obtain d where d: "tr' = tr @ d" "P a d" by (rule emits_run [OF assms(1) r])
  obtain d' where "snd (run_state (f a) tr') = tr' @ d'" "Q (fst (run_state (f a) tr')) (d @ d')"
    using assms(2) [OF d(2)] unfolding emits_def by blast
  then show "\<exists>d. snd (run_state (State_Monad.bind m f) tr) = tr @ d \<and> Q (fst (run_state (State_Monad.bind m f) tr)) d"
    using r d(1) by auto
qed

lemma only_return [emits_intros]: "only P (State_Monad.return a)"
  unfolding only_def by (rule emits_return) simp

lemma only_perform [emits_intros]: "P op \<Longrightarrow> only P (perform w op)"
  unfolding only_def by (rule emits_perform) simp

lemma only_bind [emits_intros]: "only P m \<Longrightarrow> (\<And>a. only P (f a)) \<Longrightarrow> only P (State_Monad.bind m f)"
  unfolding only_def by (erule emits_bind) (rule emits_mono, auto)

lemma only_attempt [emits_intros]: "P op \<Longrightarrow> only P (attempt w op)"
  unfolding attempt_def by (intro emits_intros)

lemma only_mono: "only P m \<Longrightarrow> (\<And>op. P op \<Longrightarrow> Q op) \<Longrightarrow> only Q m"
  unfolding only_def by (erule emits_mono) (simp add: list_all_iff)

section \<open>What exists after a trace\<close>

text \<open>
  A successful create command starts a cluster, a successful delete command stops it. The clusters of
  the two tools have separate names.
\<close>

definition started :: "Op \<Rightarrow> (string \<times> string) option" where
  "started op = (case op of
     Cmd argv \<Rightarrow>
       if take 4 argv = [''kind'', ''create'', ''cluster'', ''--name''] \<and> 4 < length argv then Some (''kind'', argv ! 4)
       else if take 3 argv = [''k3d'', ''cluster'', ''create''] \<and> 3 < length argv then Some (''k3d'', argv ! 3) else None
   | _ \<Rightarrow> None)"

definition stopped :: "Op \<Rightarrow> (string \<times> string) option" where
  "stopped op = (case op of
     Cmd argv \<Rightarrow>
       if take 4 argv = [''kind'', ''delete'', ''cluster'', ''--name''] \<and> 4 < length argv then Some (''kind'', argv ! 4)
       else if take 3 argv = [''k3d'', ''cluster'', ''delete''] \<and> 3 < length argv then Some (''k3d'', argv ! 3) else None
   | _ \<Rightarrow> None)"

definition cluster_step :: "(string \<times> string) set \<Rightarrow> Op \<times> Outcome \<Rightarrow> (string \<times> string) set" where
  "cluster_step S e = (if \<not> fst (snd e) then S else (case started (fst e) of
     Some c \<Rightarrow> insert c S
   | None \<Rightarrow> (case stopped (fst e) of Some c \<Rightarrow> S - {c} | None \<Rightarrow> S)))"

definition clusters :: "(string \<times> string) set \<Rightarrow> Trace \<Rightarrow> (string \<times> string) set" where
  "clusters S tr = foldl cluster_step S tr"

definition quiet :: "Op \<Rightarrow> bool" where
  "quiet op \<longleftrightarrow> started op = None \<and> stopped op = None"

definition touches :: "string \<times> string \<Rightarrow> Op \<Rightarrow> bool" where
  "touches c op \<longleftrightarrow> started op \<in> {None, Some c} \<and> stopped op \<in> {None, Some c}"

lemma quiet_touches: "quiet op \<Longrightarrow> touches c op"
  by (simp add: quiet_def touches_def)

lemma clusters_append [simp]: "clusters S (tr @ tr') = clusters (clusters S tr) tr'"
  by (simp add: clusters_def)

lemma clusters_Nil [simp]: "clusters S [] = S"
  by (simp add: clusters_def)

lemma clusters_Cons [simp]: "clusters S (e # tr) = clusters (cluster_step S e) tr"
  by (simp add: clusters_def)

lemma clusters_quiet: "list_all (\<lambda>e. quiet (fst e)) d \<Longrightarrow> clusters S d = S"
  by (induction d) (simp_all add: cluster_step_def quiet_def)

lemma cluster_step_touches:
  assumes "touches c (fst e)" and "c' \<noteq> c"
  shows "c' \<in> cluster_step S e \<longleftrightarrow> c' \<in> S"
proof (cases "started (fst e)")
  case None
  then show ?thesis using assms by (cases "stopped (fst e)") (auto simp: cluster_step_def touches_def)
next
  case (Some a)
  then show ?thesis using assms by (auto simp: cluster_step_def touches_def)
qed

lemma clusters_touches: "list_all (\<lambda>e. touches c (fst e)) d \<Longrightarrow> c' \<noteq> c \<Longrightarrow> c' \<in> clusters S d \<longleftrightarrow> c' \<in> S"
  by (induction d arbitrary: S) (simp_all add: cluster_step_touches [of c])

lemma quiet_docker [simp]: "quiet (Cmd (''docker'' # xs))"
  by (simp add: quiet_def started_def stopped_def)

lemma quiet_files [simp]:
  "quiet (CmdInput a i)" "quiet (Hook f e)" "quiet (ReadFile f)" "quiet (Stat f)" "quiet (CreateTemp f)" "quiet (WriteTemp f x)"
  "quiet (CloseTemp f)" "quiet (WriteFile f x)" "quiet (Remove f)" "quiet (MkdirTemp f)" "quiet (RemoveAll f)"
  by (simp_all add: quiet_def started_def stopped_def)

lemma quiet_kind [simp]: "quiet kindList" "quiet (kindConnect p)" "quiet (kindKubeconfig p n)"
  by (simp_all add: quiet_def started_def stopped_def kindList_def kindConnect_def kindKubeconfig_def)

lemma quiet_k3d [simp]: "quiet k3dList" "quiet (k3dConnect q n)" "quiet (k3dDisconnect q n)" "quiet (k3dKubeconfig n)"
  by (simp_all add: quiet_def started_def stopped_def k3dList_def k3dConnect_def k3dDisconnect_def k3dKubeconfig_def)

lemma delete_ops [simp]:
  "started (kindDelete n) = None" "stopped (kindDelete n) = Some (''kind'', n)"
  "started (k3dDelete n) = None" "stopped (k3dDelete n) = Some (''k3d'', n)"
  by (simp_all add: started_def stopped_def kindDelete_def k3dDelete_def)

lemma touches_delete [simp]: "touches (''kind'', n) (kindDelete n)" "touches (''k3d'', n) (k3dDelete n)"
  by (simp_all add: touches_def)

text \<open>Auxiliary procedures neither start nor stop a cluster.\<close>

lemma quiet_procs [emits_intros]:
  "only quiet (stageFile w v sc ct)" "only quiet (StageAuditVolume w n pol)" "only quiet (RemoveAuditVolume w n)"
  "only quiet (tempConfig w pat txt)" "only quiet (DockerNetworkOf w ct')"
  unfolding stageFile_def StageAuditVolume_def RemoveAuditVolume_def tempConfig_def DockerNetworkOf_def
  by (auto intro!: emits_intros split: prod.split option.split)

lemma quiet_preloadAll [emits_intros]: "only quiet (preloadAll w n imgs)"
  by (induction imgs) (auto intro!: emits_intros)

lemma quiet_preload [emits_intros]: "only quiet (PreloadFixtureImages w env n)"
  by (auto simp: PreloadFixtureImages_def Let_def intro!: emits_intros)

lemma quiet_kind_procs [emits_intros]:
  "only quiet (kindExists w n)" "only quiet (kindAuditYAML w y spec vol)" "only quiet (kindFinish w env p n spec)"
  unfolding kindExists_def kindAuditYAML_def kindFinish_def
  by (auto intro!: emits_intros split: prod.split)

lemma quiet_kindAuditCommand [emits_intros]:
  "only quiet (kindAuditCommand w env y n spec)" "only quiet (kindPlainCommand w env n spec)"
  unfolding kindAuditCommand_def kindPlainCommand_def
  by (auto intro!: emits_intros split: sum.split option.split)

lemma quiet_k3d_procs [emits_intros]:
  "only quiet (k3dExists w n)" "only quiet (disconnectContainer w q n)" "only quiet (k3dFinish w env rw q n spec)"
  unfolding k3dExists_def disconnectContainer_def k3dFinish_def
  by (auto intro!: emits_intros split: prod.split option.split)

section \<open>Rewritten kubeconfigs\<close>

lemma find_updateFirst:
  assumes "\<And>x. P x \<Longrightarrow> P (f x)"
  shows "find P (updateFirst P f xs) = map_option f (find P xs)"
  using assms by (induction xs) auto

lemma yamlMapValue_putKey [simp]:
  "yamlMapValue (Some (putKey k f n)) k = map_option f (yamlMapValue (Some n) k)"
  by (cases n) (simp_all add: yamlMapValue_def putKey_def find_updateFirst option.map_comp comp_def)

lemma serverOf_putServer [simp]: "serverOf entry \<noteq> None \<Longrightarrow> serverOf (putServer v entry) = Some (YScalar v)"
  by (cases "yamlMapValue (Some entry) ''cluster''") (auto simp: serverOf_def putServer_def yamlMapValue_def [of None])

text \<open>Every server address is replaced; entries without one stay.\<close>

definition rewritten_entry :: "(string \<Rightarrow> string option) \<Rightarrow> YamlNode \<Rightarrow> YamlNode \<Rightarrow> bool" where
  "rewritten_entry f entry e \<longleftrightarrow>
     (\<exists>server v. serverOf entry = Some (YScalar server) \<and> f server = Some v \<and> serverOf e = Some (YScalar v)) \<or>
     e = entry \<and> (\<nexists>server. serverOf entry = Some (YScalar server))"

lemma rewriteEntries_result: "rewriteEntries f entries = Some (es, k) \<Longrightarrow> list_all2 (rewritten_entry f) entries es"
  by (induction entries arbitrary: es k) (auto simp: rewritten_entry_def split: option.splits YamlNode.splits)

lemma rewritten_servers_in_cluster:
  assumes "rewriteEntries (\<lambda>_. Some url) entries = Some (es, k)" and "e \<in> set es" and "serverOf e = Some (YScalar server)"
  shows "server = url"
proof -
  obtain entry where "rewritten_entry (\<lambda>_. Some url) entry e"
    using rewriteEntries_result [OF assms(1)] assms(2) by (auto simp: list_all2_conv_all_nth in_set_conv_nth)
  then show ?thesis using assms(3) by (auto simp: rewritten_entry_def)
qed

section \<open>The contract of a provider\<close>

text \<open>\<open>yields R m\<close>: the result of every run of \<open>m\<close> satisfies \<open>R\<close>.\<close>

definition yields :: "('a \<Rightarrow> bool) \<Rightarrow> 'a proc \<Rightarrow> bool" where
  "yields R m \<longleftrightarrow> (\<forall>tr. R (fst (run_state m tr)))"

lemma yields_return: "R a \<Longrightarrow> yields R (State_Monad.return a)"
  by (simp add: yields_def)

lemma yields_bind: "(\<And>a. yields R (f a)) \<Longrightarrow> yields R (State_Monad.bind m f)"
  by (auto simp: yields_def split: prod.split)

lemma emits_yields: "only P m \<Longrightarrow> yields R m \<Longrightarrow> emits (\<lambda>a d. list_all (\<lambda>e. P (fst e)) d \<and> R a) m"
  by (auto simp: emits_def only_def yields_def)

lemma only_emits: "emits (\<lambda>a d. list_all (\<lambda>e. P (fst e)) d \<and> R a d) m \<Longrightarrow> only P m"
  unfolding only_def by (erule emits_mono) simp

lemma only_quiet_touches: "only quiet m \<Longrightarrow> only (touches c) m"
  by (erule only_mono) (rule quiet_touches)

definition starts :: "string \<times> string \<Rightarrow> string list \<Rightarrow> bool" where
  "starts c argv \<longleftrightarrow> started (Cmd argv) = Some c \<and> stopped (Cmd argv) = None"

lemma starts_touches: "starts c argv \<Longrightarrow> touches c (Cmd argv)"
  by (simp add: starts_def touches_def)

lemma starts_live: "starts c argv \<Longrightarrow> fst r \<Longrightarrow> c \<in> cluster_step S (Cmd argv, r)"
  by (simp add: starts_def cluster_step_def)

lemma starts_kind [simp]: "starts (''kind'', n) (''kind'' # ''create'' # ''cluster'' # ''--name'' # n # xs)"
  by (simp add: starts_def started_def stopped_def)

lemma starts_k3d [simp]: "starts (''k3d'', n) (''k3d'' # ''cluster'' # ''create'' # n # xs)"
  by (simp add: starts_def started_def stopped_def)

definition command_starts :: "string \<times> string \<Rightarrow> (env_error, string list \<times> string option) result \<Rightarrow> bool" where
  "command_starts c r = (case r of Inl _ \<Rightarrow> True | Inr (argv, tmp) \<Rightarrow> starts c argv)"

lemma command_starts_simps [simp]:
  "command_starts c (Inl e)" "command_starts c (Inr (argv, tmp)) \<longleftrightarrow> starts c argv"
  by (simp_all add: command_starts_def)

lemma kindAuditCommand_starts: "yields (command_starts (''kind'', n)) (kindAuditCommand w env y n spec)"
  unfolding kindAuditCommand_def
  by (rule yields_bind) (auto intro!: yields_bind yields_return split: sum.split option.split)

lemma kindPlainCommand_starts: "yields (command_starts (''kind'', n)) (kindPlainCommand w env n spec)"
  unfolding kindPlainCommand_def by (auto intro!: yields_bind yields_return split: option.split)

lemma k3d_command_starts: "starts (''k3d'', n) (k3dCreateArgv n spec)"
  by (simp add: k3dCreateArgv_def)

text \<open>What a create call leaves: it touches only its own cluster, and on success the cluster runs.\<close>

definition runs_cluster :: "string \<times> string \<Rightarrow> Trace \<Rightarrow> bool" where
  "runs_cluster c d \<longleftrightarrow> (\<forall>S. c \<in> clusters S d)"

lemma runs_cluster_intros:
  "starts c argv \<Longrightarrow> fst r \<Longrightarrow> runs_cluster c (d @ [(Cmd argv, r)])"
  "runs_cluster c d' \<Longrightarrow> runs_cluster c (d @ d')"
  "runs_cluster c d \<Longrightarrow> list_all (\<lambda>e. quiet (fst e)) d' \<Longrightarrow> runs_cluster c (d @ d')"
  by (simp_all add: runs_cluster_def starts_live clusters_quiet)

definition touching :: "string \<times> string \<Rightarrow> Trace \<Rightarrow> bool" where
  "touching c d \<longleftrightarrow> list_all (\<lambda>e. touches c (fst e)) d"

lemma touching_simps [simp]:
  "touching c []" "touching c (d @ d') \<longleftrightarrow> touching c d \<and> touching c d'" "touching c (e # d) \<longleftrightarrow> touches c (fst e) \<and> touching c d"
  by (simp_all add: touching_def)

lemma quiet_touching: "list_all (\<lambda>e. quiet (fst e)) d \<Longrightarrow> touching c d"
  by (auto simp: touching_def list_all_iff intro: quiet_touches)

lemma only_quietE: "only quiet m \<Longrightarrow> emits (\<lambda>_ d. list_all (\<lambda>e. quiet (fst e)) d) m"
  by (simp add: only_def)

lemma kindRunCreate_runs:
  assumes "starts (''kind'', n) argv"
  shows "emits (\<lambda>r d. touching (''kind'', n) d \<and> (\<not> isl r \<longrightarrow> runs_cluster (''kind'', n) d)) (kindRunCreate w n spec argv tmp)"
  unfolding kindRunCreate_def
proof (rule emits_bind [where P = "\<lambda>r d. d = [(Cmd argv, r)]"])
  fix r :: Outcome and d :: Trace
  assume d: "d = [(Cmd argv, r)]"
  have fail: "emits (\<lambda>a d. list_all (\<lambda>e. quiet (fst e)) d \<and> isl a) (do {
      _ \<leftarrow> (if ac_Enabled (cs_Audit spec) then RemoveAuditVolume w n else State_Monad.return None);
      _ \<leftarrow> (case tmp of None \<Rightarrow> State_Monad.return () | Some name \<Rightarrow> attempt w (Remove name));
      State_Monad.return (Inl CreateFailed :: (env_error, string option) result) })"
    by (rule emits_yields) (auto intro!: emits_intros yields_bind yields_return split: option.split)
  show "emits (\<lambda>b d'. touching (''kind'', n) (d @ d') \<and> (\<not> isl b \<longrightarrow> runs_cluster (''kind'', n) (d @ d')))
    (case r of (ok, out) \<Rightarrow> if ok then State_Monad.return (Inr tmp) else do {
      _ \<leftarrow> (if ac_Enabled (cs_Audit spec) then RemoveAuditVolume w n else State_Monad.return None);
      _ \<leftarrow> (case tmp of None \<Rightarrow> State_Monad.return () | Some name \<Rightarrow> attempt w (Remove name));
      State_Monad.return (Inl CreateFailed) })"
  proof (cases "fst r")
    case True
    then show ?thesis using runs_cluster_intros(1) [OF assms True, of "[]"] starts_touches [OF assms]
      by (cases r) (simp add: d emits_return)
  next
    case False
    have "emits (\<lambda>b d'. touching (''kind'', n) (d @ d') \<and> (\<not> isl b \<longrightarrow> runs_cluster (''kind'', n) (d @ d'))) (do {
      _ \<leftarrow> (if ac_Enabled (cs_Audit spec) then RemoveAuditVolume w n else State_Monad.return None);
      _ \<leftarrow> (case tmp of None \<Rightarrow> State_Monad.return () | Some name \<Rightarrow> attempt w (Remove name));
      State_Monad.return (Inl CreateFailed :: (env_error, string option) result) })"
      by (rule emits_mono [OF fail]) (simp add: d starts_touches [OF assms] quiet_touching)
    then show ?thesis using False by (cases r) simp
  qed
qed (rule emits_perform, simp)

lemma kindStart_runs:
  "emits (\<lambda>r d. touching (''kind'', n) d \<and> (\<not> isl r \<longrightarrow> runs_cluster (''kind'', n) d)) (kindStart w env y n spec)"
  unfolding kindStart_def
proof (rule emits_bind [where P = "\<lambda>r d. list_all (\<lambda>e. quiet (fst e)) d \<and> command_starts (''kind'', n) r"])
  show "emits (\<lambda>r d. list_all (\<lambda>e. quiet (fst e)) d \<and> command_starts (''kind'', n) r)
    (if ac_Enabled (cs_Audit spec) then kindAuditCommand w env y n spec else kindPlainCommand w env n spec)"
    by (simp add: emits_yields quiet_kindAuditCommand kindAuditCommand_starts kindPlainCommand_starts)
next
  fix r :: "(env_error, string list \<times> string option) result" and d :: Trace
  assume a: "list_all (\<lambda>e. quiet (fst e)) d \<and> command_starts (''kind'', n) r"
  show "emits (\<lambda>b d'. touching (''kind'', n) (d @ d') \<and> (\<not> isl b \<longrightarrow> runs_cluster (''kind'', n) (d @ d')))
    (case r of Inl e \<Rightarrow> State_Monad.return (Inl e) | Inr (argv, tmp) \<Rightarrow> kindRunCreate w n spec argv tmp)"
  proof (cases r)
    case (Inl e)
    then show ?thesis using a by (simp add: emits_return quiet_touching)
  next
    case (Inr x)
    then obtain argv tmp where x: "r = Inr (argv, tmp)" by (cases x) simp
    then have "starts (''kind'', n) argv" using a by simp
    from kindRunCreate_runs [OF this] show ?thesis unfolding x sum.case prod.case
      by (rule emits_mono) (use a in \<open>simp add: quiet_touching runs_cluster_intros(2)\<close>)
  qed
qed

lemma kindJoinNetwork_quiet:
  "emits (\<lambda>r d. touching (''kind'', n) d \<and> (r = None \<longrightarrow> list_all (\<lambda>e. quiet (fst e)) d)) (kindJoinNetwork w p ex n)"
  by (auto simp: emits_def kindJoinNetwork_def perform_def attempt_def quiet_touches split: prod.split)

text \<open>The second half of a create call leaves a running cluster running if it succeeds.\<close>

definition keeping :: "string \<times> string \<Rightarrow> (env_error, 'a) result \<Rightarrow> Trace \<Rightarrow> bool" where
  "keeping c r d \<longleftrightarrow> touching c d \<and> (\<not> isl r \<longrightarrow> list_all (\<lambda>e. quiet (fst e)) d)"

text \<open>\<open>starting c b r d\<close>: on success, and if \<open>b\<close>, the cluster runs after \<open>d\<close>.\<close>

definition starting :: "string \<times> string \<Rightarrow> bool \<Rightarrow> (env_error, 'a) result \<Rightarrow> Trace \<Rightarrow> bool" where
  "starting c b r d \<longleftrightarrow> touching c d \<and> (\<not> isl r \<longrightarrow> b \<longrightarrow> runs_cluster c d)"

lemma starting_bind:
  fixes m :: "(env_error, 'a) result proc"
  assumes "emits (starting c b) m" and "\<And>x. emits (keeping c) (f x)"
  shows "emits (starting c b) (do { r \<leftarrow> m; case r of Inl e \<Rightarrow> State_Monad.return (Inl e) | Inr x \<Rightarrow> f x })"
proof (rule emits_bind [OF assms(1)])
  fix r :: "(env_error, 'a) result" and d :: Trace
  assume s: "starting c b r d"
  show "emits (\<lambda>r' d'. starting c b r' (d @ d')) (case r of Inl e \<Rightarrow> State_Monad.return (Inl e) | Inr x \<Rightarrow> f x)"
  proof (cases r)
    case (Inl e)
    then show ?thesis using s by (simp add: starting_def emits_return)
  next
    case (Inr x)
    have "emits (\<lambda>r' d'. starting c b r' (d @ d')) (f x)"
      by (rule emits_mono [OF assms(2)]) (use s Inr in \<open>auto simp: starting_def keeping_def intro!: runs_cluster_intros(3)\<close>)
    then show ?thesis by (simp add: Inr)
  qed
qed

lemma starting_after_quiet:
  assumes "only quiet m" and "\<And>x. emits (starting c b) (f x)"
  shows "emits (starting c b) (State_Monad.bind m f)"
  by (rule emits_bind [OF only_quietE [OF assms(1)]], rule emits_mono [OF assms(2)])
    (auto simp: starting_def quiet_touching intro!: runs_cluster_intros(2))

lemma kindAttach_keeps: "emits (keeping (''kind'', n)) (kindAttach w env p ex n spec tmp)"
  unfolding kindAttach_def
proof (rule emits_bind [OF kindJoinNetwork_quiet])
  fix j :: "env_error option" and d :: Trace
  assume d: "touching (''kind'', n) d \<and> (j = None \<longrightarrow> list_all (\<lambda>e. quiet (fst e)) d)"
  let ?m = "do {
     r \<leftarrow> (case j of Some e \<Rightarrow> State_Monad.return (Inl e) | None \<Rightarrow> kindFinish w env p n spec);
     _ \<leftarrow> (case tmp of None \<Rightarrow> State_Monad.return () | Some name \<Rightarrow> attempt w (Remove name));
     State_Monad.return r }"
  have q: "only quiet ?m" by (auto intro!: emits_intros split: option.split)
  have y: "yields (\<lambda>r. j \<noteq> None \<longrightarrow> isl r) ?m"
    by (auto simp: yields_def attempt_def split: prod.split option.split)
  show "emits (\<lambda>r d'. keeping (''kind'', n) r (d @ d')) ?m"
    by (rule emits_mono [OF emits_yields [OF q y]]) (use d in \<open>auto simp: keeping_def quiet_touching\<close>)
qed

lemma kindCreate_runs: "emits (starting (''kind'', n) (\<not> kp_ReuseExisting p)) (kindCreate w env y p n spec)"
  unfolding kindCreate_def
proof (rule starting_after_quiet [OF quiet_kind_procs(1)])
  fix ex :: "(env_error, bool) result"
  have start: "emits (starting (''kind'', n) (\<not> kp_ReuseExisting p))
    (if \<not> exist \<or> \<not> kp_ReuseExisting p then kindStart w env y n spec else State_Monad.return (Inr None))" for exist
    using emits_mono [OF kindStart_runs] by (auto simp: starting_def intro: emits_return)
  show "emits (starting (''kind'', n) (\<not> kp_ReuseExisting p)) (case ex of Inl e \<Rightarrow> State_Monad.return (Inl e) | Inr exist \<Rightarrow> do {
       st \<leftarrow> (if \<not> exist \<or> \<not> kp_ReuseExisting p then kindStart w env y n spec else State_Monad.return (Inr None));
       case st of Inl e \<Rightarrow> State_Monad.return (Inl e) | Inr tmp \<Rightarrow> kindAttach w env p exist n spec tmp })"
  proof (cases ex)
    case (Inr exist)
    show ?thesis unfolding Inr sum.case by (rule starting_bind [OF start kindAttach_keeps])
  qed (simp add: emits_return starting_def)
qed

lemma k3dJoinNetwork_quiet:
  "emits (\<lambda>r d. touching (''k3d'', n) d \<and> (r = None \<longrightarrow> list_all (\<lambda>e. quiet (fst e)) d)) (k3dJoinNetwork w p ex n)"
  by (auto simp: emits_def k3dJoinNetwork_def perform_def attempt_def quiet_touches split: prod.split)

text \<open>The start of k3d reports an error or nothing; as a result it is \<open>err_result\<close>.\<close>

definition err_result :: "env_error option \<Rightarrow> (env_error, unit) result" where
  "err_result e = (case e of Some x \<Rightarrow> Inl x | None \<Rightarrow> Inr ())"

lemma k3dRunCreate_runs: "emits (\<lambda>e. starting (''k3d'', n) True (err_result e)) (k3dRunCreate w n spec)"
  unfolding k3dRunCreate_def
proof (rule emits_bind [where P = "\<lambda>r d. d = [(Cmd (k3dCreateArgv n spec), r)]"])
  fix r :: Outcome and d :: Trace
  assume d: "d = [(Cmd (k3dCreateArgv n spec), r)]"
  let ?m = "case r of (ok, out) \<Rightarrow> if \<not> ok then do {
       _ \<leftarrow> (if ac_Enabled (cs_Audit spec) then RemoveAuditVolume w n else State_Monad.return None);
       State_Monad.return (Some CreateFailed) }
     else do {
       _ \<leftarrow> (if ac_Enabled (cs_Audit spec)
             then attempt w (Cmd [''docker'', ''exec'', ''k3d-'' @ n @ ''-server-0'', ''mkdir'', ''-p'', ''/var/log/kubernetes''])
             else State_Monad.return ());
       State_Monad.return None }"
  have q: "only quiet ?m" by (auto intro!: emits_intros split: prod.split)
  have y: "yields (\<lambda>e. e = None \<longrightarrow> fst r) ?m" by (auto intro!: yields_bind yields_return split: prod.split)
  have t: "touching (''k3d'', n) d" by (simp add: d starts_touches [OF k3d_command_starts])
  have run: "runs_cluster (''k3d'', n) d" if "fst r"
    using runs_cluster_intros(1) [OF k3d_command_starts that, where d = "[]"] by (simp add: d)
  show "emits (\<lambda>e d'. starting (''k3d'', n) True (err_result e) (d @ d')) ?m"
  proof (rule emits_mono [OF emits_yields [OF q y]])
    fix e :: "env_error option" and d' :: Trace
    assume "list_all (\<lambda>e. quiet (fst e)) d' \<and> (e = None \<longrightarrow> fst r)"
    then show "starting (''k3d'', n) True (err_result e) (d @ d')"
      using t run runs_cluster_intros(3) [of _ d d'] by (cases e) (simp_all add: starting_def err_result_def quiet_touching)
  qed
qed (rule emits_perform, simp)

lemma starting_after_touching:
  assumes "only (touches c) m" and "\<And>x. emits (\<lambda>e. starting c True (err_result e)) (f x)"
  shows "emits (\<lambda>e. starting c True (err_result e)) (State_Monad.bind m f)"
  by (rule emits_bind [OF assms(1) [unfolded only_def]], rule emits_mono [OF assms(2)])
    (auto simp: starting_def touching_def intro!: runs_cluster_intros(2))

lemma starting_error: "emits (\<lambda>e. starting c True (err_result e)) (State_Monad.return (Some x))"
  by (rule emits_return) (simp add: starting_def err_result_def)

lemma quiet_k3dStage [emits_intros]: "only quiet (k3dStage w n spec)"
  by (auto simp: k3dStage_def intro!: emits_intros)

lemma k3dStart_runs: "emits (\<lambda>e. starting (''k3d'', n) True (err_result e)) (k3dStart w n spec ex)"
  unfolding k3dStart_def
proof (rule starting_after_touching)
  show "only (touches (''k3d'', n)) (if ex then perform w (k3dDelete n) else State_Monad.return (True, []))"
    by (simp add: only_perform only_return)
next
  fix x :: Outcome
  have "emits (\<lambda>e. starting (''k3d'', n) True (err_result e)) (do {
      v \<leftarrow> k3dStage w n spec; case v of Some e \<Rightarrow> State_Monad.return (Some e) | None \<Rightarrow> k3dRunCreate w n spec })"
    by (rule starting_after_touching [OF only_quiet_touches [OF quiet_k3dStage]])
      (simp add: starting_error k3dRunCreate_runs split: option.split)
  then show "emits (\<lambda>e. starting (''k3d'', n) True (err_result e)) (case x of (ok, _) \<Rightarrow>
      if \<not> ok then State_Monad.return (Some DeleteExisting) else do {
        v \<leftarrow> k3dStage w n spec; case v of Some e \<Rightarrow> State_Monad.return (Some e) | None \<Rightarrow> k3dRunCreate w n spec })"
    by (simp add: starting_error split: prod.split)
qed

lemma k3dAttach_keeps: "emits (keeping (''k3d'', n)) (k3dAttach w env rw p ex n spec)"
  unfolding k3dAttach_def
proof (rule emits_bind [OF k3dJoinNetwork_quiet])
  fix j :: "env_error option" and d :: Trace
  assume d: "touching (''k3d'', n) d \<and> (j = None \<longrightarrow> list_all (\<lambda>e. quiet (fst e)) d)"
  let ?m = "case j of Some e \<Rightarrow> State_Monad.return (Inl e) | None \<Rightarrow> k3dFinish w env rw p n spec"
  have q: "only quiet ?m" by (auto intro!: emits_intros split: option.split)
  have y: "yields (\<lambda>r. j \<noteq> None \<longrightarrow> isl r) ?m" by (auto simp: yields_def split: option.split)
  show "emits (\<lambda>r d'. keeping (''k3d'', n) r (d @ d')) ?m"
    by (rule emits_mono [OF emits_yields [OF q y]]) (use d in \<open>auto simp: keeping_def quiet_touching\<close>)
qed

lemma starting_bind_error:
  assumes "emits (\<lambda>e. starting c b (err_result e)) m" and "emits (keeping c) f"
  shows "emits (starting c b) (do { e \<leftarrow> m; case e of Some x \<Rightarrow> State_Monad.return (Inl x) | None \<Rightarrow> f })"
proof (rule emits_bind [OF assms(1)])
  fix e :: "env_error option" and d :: Trace
  assume s: "starting c b (err_result e) d"
  have "emits (\<lambda>r' d'. starting c b r' (d @ d')) f" if "e = None"
    by (rule emits_mono [OF assms(2)]) (use s that in \<open>auto simp: starting_def keeping_def err_result_def intro!: runs_cluster_intros(3)\<close>)
  then show "emits (\<lambda>r' d'. starting c b r' (d @ d')) (case e of Some x \<Rightarrow> State_Monad.return (Inl x) | None \<Rightarrow> f)"
    using s by (cases e) (simp_all add: starting_def emits_return)
qed

lemma k3dCreate_runs: "emits (starting (''k3d'', n) (\<not> k3_ReuseExisting p)) (k3dCreate w env rw p n spec)"
  unfolding k3dCreate_def
proof (rule starting_after_quiet [OF quiet_k3d_procs(1)])
  fix ex :: "(env_error, bool) result"
  have start: "emits (\<lambda>e. starting (''k3d'', n) (\<not> k3_ReuseExisting p) (err_result e))
    (if \<not> exist \<or> \<not> k3_ReuseExisting p then k3dStart w n spec exist else State_Monad.return None)" for exist
    using emits_mono [OF k3dStart_runs] by (auto simp: starting_def intro: emits_return)
  show "emits (starting (''k3d'', n) (\<not> k3_ReuseExisting p)) (case ex of Inl e \<Rightarrow> State_Monad.return (Inl e) | Inr exist \<Rightarrow> do {
       st \<leftarrow> (if \<not> exist \<or> \<not> k3_ReuseExisting p then k3dStart w n spec exist else State_Monad.return None);
       case st of Some e \<Rightarrow> State_Monad.return (Inl e) | None \<Rightarrow> k3dAttach w env rw p exist n spec })"
  proof (cases ex)
    case (Inr exist)
    show ?thesis unfolding Inr sum.case by (rule starting_bind_error [OF start k3dAttach_keeps])
  qed (simp add: emits_return starting_def)
qed

lemma starting_recreate:
  assumes "only (touches c) m" and "\<And>x. emits (starting c b) (f x)"
  shows "emits (starting c b) (State_Monad.bind m f)"
  by (rule emits_bind [OF assms(1) [unfolded only_def]], rule emits_mono [OF assms(2)])
    (auto simp: starting_def touching_def intro!: runs_cluster_intros(2))

lemma kindRecreate_runs: "emits (starting (''kind'', n) (\<not> kp_ReuseExisting p)) (kindRecreate w env y p n spec)"
  unfolding kindRecreate_def by (rule starting_recreate [OF only_attempt kindCreate_runs]) simp

lemma k3dRecreate_runs: "emits (starting (''k3d'', n) (\<not> k3_ReuseExisting p)) (k3dRecreate w env rw p n spec)"
  unfolding k3dRecreate_def
proof (intro starting_recreate)
  show "only (touches (''k3d'', n))
    (if k3_ContainerName p \<noteq> [] \<and> k3_NetworkMode p \<noteq> NetHost then disconnectContainer w p n else State_Monad.return [])"
    by (simp add: only_return only_quiet_touches quiet_k3d_procs)
qed (auto intro: only_perform k3dCreate_runs emits_return simp: starting_def split: prod.split)

text \<open>A destroy call touches its own cluster only, and the cluster is gone if it reports no error.\<close>

definition ending :: "string \<times> string \<Rightarrow> env_error list \<Rightarrow> Trace \<Rightarrow> bool" where
  "ending c r d \<longleftrightarrow> touching c d \<and> (r = [] \<longrightarrow> (\<forall>S. c \<notin> clusters S d))"

lemma kindDestroy_ends: "emits (ending (''kind'', hd_ClusterName h)) (kindDestroy w h)"
  unfolding kindDestroy_def
proof (rule emits_bind [where P = "\<lambda>r d. d = [(kindDelete (hd_ClusterName h), r)]"])
  fix r :: Outcome and d :: Trace
  assume d: "d = [(kindDelete (hd_ClusterName h), r)]"
  let ?m = "case r of (ok, out) \<Rightarrow> if \<not> ok then State_Monad.return [DestroyFailed] else do {
       _ \<leftarrow> RemoveAuditVolume w (hd_ClusterName h); _ \<leftarrow> attempt w (Remove (hd_KubeconfigPath h)); State_Monad.return [] }"
  have q: "only quiet ?m" by (auto intro!: emits_intros split: prod.split)
  have y: "yields (\<lambda>e. e = [] \<longrightarrow> fst r) ?m" by (auto intro!: yields_bind yields_return split: prod.split)
  show "emits (\<lambda>e d'. ending (''kind'', hd_ClusterName h) e (d @ d')) ?m"
    by (rule emits_mono [OF emits_yields [OF q y]])
      (auto simp: d ending_def quiet_touching clusters_quiet cluster_step_def)
qed (rule emits_perform, simp)

lemma ending_after_quiet:
  assumes "only quiet m" and "\<And>x. emits (ending c) (f x)"
  shows "emits (ending c) (State_Monad.bind m f)"
  by (rule emits_bind [OF only_quietE [OF assms(1)]], rule emits_mono [OF assms(2)])
    (auto simp: ending_def quiet_touching)

lemma k3dDestroy_ends: "emits (ending (''k3d'', hd_ClusterName h)) (k3dDestroy w p h)"
  unfolding k3dDestroy_def
proof (rule ending_after_quiet)
  show "only quiet (if k3_ContainerName p \<noteq> [] \<and> k3_NetworkMode p \<noteq> NetHost then disconnectContainer w p (hd_ClusterName h) else State_Monad.return [])"
    by (simp add: only_return quiet_k3d_procs)
next
  fix errs :: "env_error list"
  show "emits (ending (''k3d'', hd_ClusterName h)) (do {
     (ok, out) \<leftarrow> perform w (k3dDelete (hd_ClusterName h));
     if \<not> ok then State_Monad.return (errs @ [DestroyFailed])
     else do { _ \<leftarrow> RemoveAuditVolume w (hd_ClusterName h); _ \<leftarrow> attempt w (Remove (hd_KubeconfigPath h)); State_Monad.return errs } })"
  proof (rule emits_bind [where P = "\<lambda>r d. d = [(k3dDelete (hd_ClusterName h), r)]"])
    fix r :: Outcome and d :: Trace
    assume d: "d = [(k3dDelete (hd_ClusterName h), r)]"
    let ?m = "case r of (ok, out) \<Rightarrow> if \<not> ok then State_Monad.return (errs @ [DestroyFailed]) else do {
         _ \<leftarrow> RemoveAuditVolume w (hd_ClusterName h); _ \<leftarrow> attempt w (Remove (hd_KubeconfigPath h)); State_Monad.return errs }"
    have q: "only quiet ?m" by (auto intro!: emits_intros split: prod.split)
    have y: "yields (\<lambda>e. e = [] \<longrightarrow> fst r) ?m" by (auto intro!: yields_bind yields_return split: prod.split)
    show "emits (\<lambda>e d'. ending (''k3d'', hd_ClusterName h) e (d @ d')) ?m"
      by (rule emits_mono [OF emits_yields [OF q y]])
        (auto simp: d ending_def quiet_touching clusters_quiet cluster_step_def)
  qed (rule emits_perform, simp)
qed

text \<open>The handle of a created cluster carries its name, and audit access exactly if the audit was asked for.\<close>

definition handle_for :: "string \<Rightarrow> ClusterSpec \<Rightarrow> (env_error, Handle) result \<Rightarrow> bool" where
  "handle_for n spec r = (case r of Inl _ \<Rightarrow> True
     | Inr h \<Rightarrow> hd_ClusterName h = n \<and> (hd_Audit h \<noteq> None \<longleftrightarrow> ac_Enabled (cs_Audit spec)))"

lemma handle_for_simps [simp]:
  "handle_for n spec (Inl e)"
  "handle_for n spec (Inr h) \<longleftrightarrow> hd_ClusterName h = n \<and> (hd_Audit h \<noteq> None \<longleftrightarrow> ac_Enabled (cs_Audit spec))"
  by (simp_all add: handle_for_def)

lemma yields_error: "yields (handle_for n spec) (State_Monad.return (Inl e))"
  by (rule yields_return) simp

lemma kindFinish_handle: "yields (handle_for n spec) (kindFinish w env p n spec)"
  unfolding kindFinish_def by (auto intro!: yields_bind yields_return split: prod.split)

lemma k3dFinish_handle: "yields (handle_for n spec) (k3dFinish w env rw p n spec)"
  unfolding k3dFinish_def by (auto intro!: yields_bind yields_return split: prod.split option.split)

lemma kindAttach_handle: "yields (handle_for n spec) (kindAttach w env p ex n spec tmp)"
proof -
  have "yields (handle_for n spec) (do { r \<leftarrow> m; _ \<leftarrow> (u :: unit proc); State_Monad.return r })"
    if "yields (handle_for n spec) m" for m u
    using that by (auto simp: yields_def split: prod.split) (metis fst_conv)
  then show ?thesis
    unfolding kindAttach_def by (rule yields_bind) (simp add: yields_error kindFinish_handle split: option.split)
qed

lemma kindCreate_handle: "yields (handle_for n spec) (kindCreate w env y p n spec)"
  unfolding kindCreate_def
  by (auto intro!: yields_bind kindAttach_handle yields_error split: sum.split)

lemma k3dCreate_handle: "yields (handle_for n spec) (k3dCreate w env rw p n spec)"
  unfolding k3dCreate_def k3dAttach_def
  by (auto intro!: yields_bind k3dFinish_handle yields_error split: sum.split option.split)

lemma recreate_handles:
  "yields (handle_for n spec) (kindRecreate w env y p n spec)" "yields (handle_for n spec) (k3dRecreate w env rw p' n spec)"
  unfolding kindRecreate_def k3dRecreate_def
  by (auto intro!: yields_bind kindCreate_handle k3dCreate_handle yields_error split: prod.split)

text \<open>
  What the provisioner relies on: create and recreate leave a running cluster of the given name if they
  succeed (unless an existing one may be reused), destroy without an error leaves none, and no call
  touches another cluster.
\<close>

locale lifecycle =
  fixes tool :: string and reuse :: bool and lc :: ClusterLifecycle
  assumes create: "emits (starting (tool, n) (\<not> reuse)) (lc_Create lc n spec)"
    and recreate: "emits (starting (tool, n) (\<not> reuse)) (lc_Recreate lc n spec)"
    and destroy: "emits (ending (tool, hd_ClusterName h)) (lc_Destroy lc h)"
    and create_handle: "yields (handle_for n spec) (lc_Create lc n spec)"
    and recreate_handle: "yields (handle_for n spec) (lc_Recreate lc n spec)"
begin

lemma destroy_gone:
  assumes "run_state (lc_Destroy lc h) tr = ([], tr')"
  shows "(tool, hd_ClusterName h) \<notin> clusters S tr'"
  by (rule emits_run [OF destroy assms]) (simp add: ending_def)

lemma destroy_others:
  assumes "run_state (lc_Destroy lc h) tr = (errs, tr')" and "c \<noteq> (tool, hd_ClusterName h)"
  shows "c \<in> clusters S tr' \<longleftrightarrow> c \<in> clusters S tr"
  by (rule emits_run [OF destroy assms(1)]) (use assms(2) in \<open>auto simp: ending_def touching_def clusters_touches\<close>)

lemma create_then_destroy:
  assumes "run_state (lc_Create lc n spec) tr = (Inr h, tr1)" and "run_state (lc_Destroy lc h) tr1 = ([], tr2)"
  shows "clusters S tr2 = clusters S tr - {(tool, n)}"
proof -
  have n: "hd_ClusterName h = n" using create_handle [of n spec] assms(1) unfolding yields_def by (metis fst_conv handle_for_simps(2))
  obtain d where d: "tr1 = tr @ d" "touching (tool, n) d" by (rule emits_run [OF create assms(1)]) (simp add: starting_def)
  have "c \<in> clusters S tr2 \<longleftrightarrow> c \<in> clusters S tr - {(tool, n)}" for c
  proof (cases "c = (tool, n)")
    case True
    then show ?thesis using destroy_gone [OF assms(2)] n by simp
  next
    case False
    then show ?thesis using destroy_others [OF assms(2)] n d by (simp add: touching_def clusters_touches)
  qed
  then show ?thesis by blast
qed

end

interpretation kind: lifecycle "''kind''" "kp_ReuseExisting p" "kindLifecycle w env y p" for w env y p
  by unfold_locales (simp_all add: kindLifecycle_def kindCreate_runs kindRecreate_runs kindDestroy_ends kindCreate_handle recreate_handles)

interpretation k3d: lifecycle "''k3d''" "k3_ReuseExisting p" "k3dLifecycle w env rw p" for w env rw p
  by unfold_locales (simp_all add: k3dLifecycle_def k3dCreate_runs k3dRecreate_runs k3dDestroy_ends k3dCreate_handle recreate_handles)

interpretation failing: lifecycle tool reuse FailingClusterLifecycle for tool reuse
  by unfold_locales (simp_all add: FailingClusterLifecycle_def emits_return starting_def ending_def yields_error)

section \<open>The audit recipe in a checked-in configuration\<close>

declare jget_jset [simp]

lemma jget_jdefault: "k' \<noteq> k \<Longrightarrow> jget (jdefault k v doc) k' = jget doc k'" "jget doc k \<noteq> None \<Longrightarrow> jget (jdefault k v doc) k = jget doc k"
  by (auto simp: jdefault_def)

lemma updateFirst_split:
  assumes "list_ex p xs"
  obtains ys x zs where "xs = ys @ x # zs" "p x" "updateFirst p f xs = ys @ f x # zs"
proof -
  have "\<exists>ys x zs. xs = ys @ x # zs \<and> p x \<and> updateFirst p f xs = ys @ f x # zs"
    using assms
  proof (induction xs)
    case (Cons x xs)
    show ?case
    proof (cases "p x")
      case True
      then show ?thesis by (intro exI [of _ "[]"]) simp
    next
      case False
      then obtain ys z zs where "xs = ys @ z # zs" "p z" "updateFirst p f xs = ys @ f z # zs" using Cons by auto
      then show ?thesis using False by (intro exI [of _ "x # ys"]) auto
    qed
  qed simp
  with that show ?thesis by blast
qed

lemma addAudit_fields:
  "jget (addAudit vol cp) ''extraMounts'' = Some (JArr (as_list (jget cp ''extraMounts'') @ auditMounts vol))"
  "jget (addAudit vol cp) ''kubeadmConfigPatches'' =
     Some (JArr (as_list (jget cp ''kubeadmConfigPatches'') @ [JStr kindInitPatch, JStr kindClusterArgsPatch]))"
  "k \<noteq> ''extraMounts'' \<Longrightarrow> k \<noteq> ''kubeadmConfigPatches'' \<Longrightarrow> jget (addAudit vol cp) k = jget cp k"
  by (simp_all add: addAudit_def Let_def)

text \<open>
  Auditing is merged into every cluster configuration. Whatever the checked-in asset
  says, the merged document has a control-plane node whose mounts and kubeadm patches are those the
  asset gave it followed by the audit recipe; every other field of that node, every other node and
  every other top-level setting is as the asset has it.
\<close>

theorem audit_merged_into_asset:
  "\<exists>ys cp zs. jget (mergeAudit vol doc) ''nodes'' = Some (JArr (ys @ JObj (addAudit vol cp) # zs)) \<and>
     (as_list (jget doc ''nodes'') = ys @ JObj cp # zs \<and> isControlPlane (JObj cp) \<or>
      as_list (jget doc ''nodes'') = ys \<and> zs = [] \<and> cp = [(''role'', JStr ''control-plane'')]) \<and>
     jget (addAudit vol cp) ''extraMounts'' = Some (JArr (as_list (jget cp ''extraMounts'') @ auditMounts vol)) \<and>
     jget (addAudit vol cp) ''kubeadmConfigPatches'' =
       Some (JArr (as_list (jget cp ''kubeadmConfigPatches'') @ [JStr kindInitPatch, JStr kindClusterArgsPatch])) \<and>
     (\<forall>k. k = ''extraMounts'' \<or> k = ''kubeadmConfigPatches'' \<or> jget (addAudit vol cp) k = jget cp k) \<and>
     (\<forall>k. k = ''nodes'' \<or> k \<in> {''kind'', ''apiVersion''} \<and> jget doc k = None \<or> jget (mergeAudit vol doc) k = jget doc k)"
proof -
  let ?d = "jdefault ''apiVersion'' (JStr ''kind.x-k8s.io/v1alpha4'') (jdefault ''kind'' (JStr ''Cluster'') doc)"
  let ?n = "as_list (jget doc ''nodes'')"
  have n: "jget ?d ''nodes'' = jget doc ''nodes''" by (simp add: jget_jdefault)
  have top: "\<forall>k. k = ''nodes'' \<or> k \<in> {''kind'', ''apiVersion''} \<and> jget doc k = None \<or> jget (mergeAudit vol doc) k = jget doc k"
    by (auto simp: mergeAudit_def Let_def jdefault_def)
  have rest: "\<forall>k. k = ''extraMounts'' \<or> k = ''kubeadmConfigPatches'' \<or> jget (addAudit vol cp) k = jget cp k" for cp
    using addAudit_fields(3) by blast
  show ?thesis
  proof (cases "list_ex isControlPlane ?n")
    case True
    then obtain ys x zs where s: "?n = ys @ x # zs" "isControlPlane x"
      "updateFirst isControlPlane (\<lambda>n. case n of JObj m \<Rightarrow> JObj (addAudit vol m) | j \<Rightarrow> j) ?n =
        ys @ (case x of JObj m \<Rightarrow> JObj (addAudit vol m) | j \<Rightarrow> j) # zs"
      by (rule updateFirst_split)
    then obtain cp where "x = JObj cp" by (cases x) (simp_all add: isControlPlane_def)
    then show ?thesis using s True top rest [of cp] addAudit_fields(1,2) [of vol cp]
      by (intro exI [of _ ys] exI [of _ cp] exI [of _ zs]) (simp add: mergeAudit_def Let_def n)
  next
    case False
    then show ?thesis using top rest addAudit_fields(1,2)
      by (intro exI [of _ ?n] exI [of _ "[(''role'', JStr ''control-plane'')]"] exI [of _ "[]"]) (simp add: mergeAudit_def Let_def n)
  qed
qed

section \<open>Gaps\<close>

definition demo_host :: HostEnv where
  "demo_host = \<lparr>he_AuditNodeImage = [], he_RegistryMirror = [], he_PreloadImages = [], he_TempDir = ''/tmp'', he_Path = ''/bin''\<rparr>"

definition demo_yaml :: Yaml where
  "demo_yaml = \<lparr>ym_Parse = (\<lambda>_. Some []), ym_Marshal = (\<lambda>_. Some ''merged'')\<rparr>"

definition demo_kind :: KindProvider where
  "demo_kind = \<lparr>kp_ReuseExisting = False, kp_ContainerName = [], kp_NetworkMode = NetUnset\<rparr>"

definition demo_spec :: ClusterSpec where
  "demo_spec = \<lparr>cs_Profile = [], cs_ConfigPath = ''c.yaml'',
     cs_LegacyKubernetes = \<lparr>ku_CNI = [], ku_Addons = [], ku_Runtimes = [], ku_Features = []\<rparr>,
     cs_Audit = \<lparr>ac_Enabled = True, ac_PolicyMode = [], ac_NodeImage = []\<rparr>\<rparr>"

text \<open>A world in which every operation succeeds and prints \<open>x\<close>, but those that \<open>bad\<close> names fail.\<close>

definition failing_world :: "(Op \<Rightarrow> bool) \<Rightarrow> World" where
  "failing_world bad tr op = (\<not> bad op, ''x'')"

text \<open>
  A create call that cannot read the kubeconfig of the cluster it just created returns an error and
  leaves the cluster and its audit volume behind; no lease exists that could release them.
\<close>

lemma kubeconfig_failure_leaks_cluster:
  "(case run_state (kindCreate (failing_world (\<lambda>op. op = kindKubeconfig demo_kind ''c'')) demo_host demo_yaml demo_kind ''c'' demo_spec) [] of
     (r, tr) \<Rightarrow> (r, clusters {} tr, (Cmd [''docker'', ''volume'', ''rm'', auditVolumeName ''c''], (True, ''x'')) \<in> set tr)) =
   (Inl KubeconfigUnavailable, {(''kind'', ''c'')}, False)"
  by code_simp

text \<open>An audit volume whose staging fails is not removed.\<close>

lemma staging_failure_leaks_volume:
  "(case run_state (StageAuditVolume (failing_world (\<lambda>op. case op of CmdInput _ _ \<Rightarrow> True | _ \<Rightarrow> False)) ''c'' []) [] of
     (r, tr) \<Rightarrow> (r, map fst tr)) =
   (Inl StagingWrite,
    [Cmd [''docker'', ''volume'', ''create'', auditVolumeName ''c''],
     CmdInput [''docker'', ''run'', ''--rm'', ''-i'', ''-v'', ''evidra-audit-c:/data'', ''alpine:3.22'', ''sh'', ''-c'', ''mkdir -p /data/patches && cat > /data/policy.yaml''] []])"
  by code_simp

text \<open>
  Creating over a cluster that exists and is not to be reused fails, and the failure removes the audit
  volume whose files that running cluster mounts by path.
\<close>

lemma failed_create_removes_live_volume:
  "(case run_state (kindCreate (\<lambda>tr op. if op = kindList then (True, ''c'') else (case op of Cmd (a # b # _) \<Rightarrow> (\<not> (a = ''kind'' \<and> b = ''create''), ''x'') | _ \<Rightarrow> (True, ''x'')))
      demo_host demo_yaml demo_kind ''c'' demo_spec) [] of
     (r, tr) \<Rightarrow> (r, clusters {(''kind'', ''c'')} tr, (Cmd [''docker'', ''volume'', ''rm'', auditVolumeName ''c''], (True, ''x'')) \<in> set tr)) =
   (Inl CreateFailed, {(''kind'', ''c'')}, True)"
  by code_simp

end
