(* ===== verification/Agent_Identity.thy ===== *)
theory Agent_Identity
  imports Run_Snapshots Cluster_Providers
begin

text \<open>
  The identities of a run (\<^verbatim>\<open>pkg/environment/identity.go\<close>, \<^verbatim>\<open>pkg/harness/identities.go\<close>): the service
  accounts of the agent and of the evidence reader with the RBAC objects the authority profile dictates, their
  tokens and kubeconfigs, the gate that waits until a token is honoured, window markers, and the
  revocation. Manifests are JSON trees; what the API server makes of them is stated by \<open>kube_allows\<close>.
  Commands and files go through the trace of \<open>Cluster_Providers\<close>; clock and cancellation are read off the
  trace as well.
\<close>

section \<open>Names and data\<close>

definition IdentityNamespace :: string where
  "IdentityNamespace = ''evidra-system''"

definition AgentServiceAccount :: string where
  "AgentServiceAccount = ''evidra-agent''"

definition EvidenceServiceAccount :: string where
  "EvidenceServiceAccount = ''evidra-evidence''"

definition EvidenceUserName :: string where
  "EvidenceUserName = ''system:serviceaccount:'' @ IdentityNamespace @ '':'' @ EvidenceServiceAccount"

definition tokenDurationReqs :: string where
  "tokenDurationReqs = ''2h''"

definition probeNamePrefix :: string where
  "probeNamePrefix = ''evidra-auth-probe-''"

definition markerNamePrefix :: string where
  "markerNamePrefix = ''evidra-marker-''"

record Identity =
  id_User :: string
  id_KubeconfigPath :: string

record IdentityBundle =
  ib_dir :: string
  ib_files :: "string list"
  ib_Agent :: "Identity option"
  ib_Evidence :: "Identity option"

record clusterEndpoint =
  ce_Server :: string
  ce_CAData :: string
  ce_Insecure :: bool

datatype identity_error =
    TempDirFailed | ProfileRefused | CompilePanic | ManifestUnwritable | ApplyFailed string
  | AdminUnreadable | AdminUnparseable | NoClusterServer
  | SecretUnwritable | SecretRefused | TokenCancelled | TokenNeverPopulated | IdentityConfigUnwritable
  | GateUnreachable | GateTimedOut | GateCancelled

text \<open>
  What lies outside: the JSON codec, base64, the nonce, the clock and the cancellation of the
  context after a trace.
\<close>

record IdentityEnv =
  ie_Marshal :: "json \<Rightarrow> string"
  ie_Decode :: "string \<Rightarrow> json option"
  ie_Base64 :: "string \<Rightarrow> string option"
  ie_Nonce :: string
  ie_Now :: "Trace \<Rightarrow> int"
  ie_Done :: "Trace \<Rightarrow> bool"

definition kctl :: "World \<Rightarrow> string \<Rightarrow> string list \<Rightarrow> Outcome proc" where
  "kctl w kubeconfig args = perform w (Cmd ([''kubectl'', ''--kubeconfig'', kubeconfig] @ args))"

definition observe :: "(Trace \<Rightarrow> 'a) \<Rightarrow> 'a proc" where
  "observe f = State (\<lambda>tr. (f tr, tr))"

section \<open>Manifests\<close>

definition objFields :: "string \<Rightarrow> string \<Rightarrow> string \<Rightarrow> string \<Rightarrow> (string \<times> json) list" where
  "objFields apiVersion kind name ns =
     [(''apiVersion'', JStr apiVersion), (''kind'', JStr kind),
      (''metadata'', JObj ((''name'', JStr name) # (if ns \<noteq> [] then [(''namespace'', JStr ns)] else [])))]"

definition strList :: "string list \<Rightarrow> json" where
  "strList xs = JArr (map JStr xs)"

definition rbacMap :: "RBACRule \<Rightarrow> json" where
  "rbacMap r = JObj ([(''apiGroups'', strList (rb_APIGroups r)), (''resources'', strList (rb_Resources r)), (''verbs'', strList (rb_Verbs r))] @
     (if rb_ResourceNames r \<noteq> [] then [(''resourceNames'', strList (rb_ResourceNames r))] else []))"

definition rbacMaps :: "RBACRule list \<Rightarrow> json list" where
  "rbacMaps rules = map rbacMap rules"

definition rbacVersion :: string where
  "rbacVersion = ''rbac.authorization.k8s.io/v1''"

definition roleObject :: "string \<Rightarrow> string \<Rightarrow> json list \<Rightarrow> json" where
  "roleObject name ns rules = JObj (objFields rbacVersion ''Role'' name ns @ [(''rules'', JArr rules)])"

definition clusterRole :: "string \<Rightarrow> json list \<Rightarrow> json" where
  "clusterRole name rules = JObj (objFields rbacVersion ''ClusterRole'' name [] @ [(''rules'', JArr rules)])"

definition bindingFields :: "string \<Rightarrow> string \<Rightarrow> string \<Rightarrow> (string \<times> json) list" where
  "bindingFields kind role sa =
     [(''roleRef'', JObj [(''apiGroup'', JStr ''rbac.authorization.k8s.io''), (''kind'', JStr kind), (''name'', JStr role)]),
      (''subjects'', JArr [JObj [(''kind'', JStr ''ServiceAccount''), (''name'', JStr sa), (''namespace'', JStr IdentityNamespace)]])]"

definition roleBinding :: "string \<Rightarrow> string \<Rightarrow> string \<Rightarrow> json" where
  "roleBinding role ns sa = JObj (objFields rbacVersion ''RoleBinding'' (role @ ''-binding'') ns @ bindingFields ''Role'' role sa)"

definition clusterRoleBinding :: "string \<Rightarrow> string \<Rightarrow> json" where
  "clusterRoleBinding role sa = JObj (objFields rbacVersion ''ClusterRoleBinding'' (role @ ''-binding'') [] @ bindingFields ''ClusterRole'' role sa)"

text \<open>Names of namespaces are ASCII, so bytes and runes agree here.\<close>

definition dnsLabel :: "string \<Rightarrow> string" where
  "dnsLabel ns =
     (let out = map (\<lambda>c. if CHR ''a'' \<le> c \<and> c \<le> CHR ''z'' \<or> CHR ''0'' \<le> c \<and> c \<le> CHR ''9'' then c else CHR ''-'') (to_lower ns) in
      rev (dropWhile (\<lambda>c. c = CHR ''-'') (rev (dropWhile (\<lambda>c. c = CHR ''-'') (take 40 out)))))"

definition dedupeNonEmpty :: "string list \<Rightarrow> string list" where
  "dedupeNonEmpty xs = dedupe (filter (\<lambda>s. s \<noteq> []) xs)"

definition evResources :: "AuthorityProfile \<Rightarrow> string list" where
  "evResources pf =
     (let res = er_Resources (EvidenceReaderSpec pf) in
      dedupeNonEmpty (if res = [] then [''pods'', ''services'', ''endpoints'', ''events'', ''namespaces''] @ map pt_Resource (Protected pf) else res))"

definition evidenceNamespaces :: "AuthorityProfile \<Rightarrow> string list" where
  "evidenceNamespaces pf =
     (let ns = er_Namespaces (EvidenceReaderSpec pf);
          out = dedupeNonEmpty (if ns = [] then ag_Namespaces (Agent pf) @ map pt_Namespace (Protected pf) else ns) in
      if out = [] then [''default''] else out)"

definition IsClusterScopedResource :: "string \<Rightarrow> bool" where
  "IsClusterScopedResource name \<longleftrightarrow> name \<in> set clusterScopedResources"

definition evGroups :: "string list" where
  "evGroups = [[], ''apps'', ''batch'', ''networking.k8s.io'', ''rbac.authorization.k8s.io'', ''policy'', ''autoscaling'']"

definition ruleMap :: "string list \<Rightarrow> string list \<Rightarrow> string list \<Rightarrow> json" where
  "ruleMap groups res verbs = JObj [(''apiGroups'', strList groups), (''resources'', strList res), (''verbs'', strList verbs)]"

definition extraRule :: "string \<Rightarrow> json" where
  "extraRule extra = (case cut_at (CHR '':'') extra of (res, verb, _) \<Rightarrow>
     ruleMap [if baseOf res \<in> {''deployments'', ''statefulsets'', ''daemonsets'', ''replicasets''} then ''apps'' else []] [res] [verb])"

definition evRules :: "AuthorityProfile \<Rightarrow> json list" where
  "evRules pf =
     (let nsRes = filter (\<lambda>r. \<not> (IsClusterScopedResource r \<and> r \<noteq> ''namespaces'')) (evResources pf) in
      map (\<lambda>g. ruleMap [g] nsRes [''get'', ''list'', ''watch'']) evGroups @ map extraRule (er_Extra (EvidenceReaderSpec pf)))"

definition evClusterResources :: "AuthorityProfile \<Rightarrow> string list" where
  "evClusterResources pf = filter (\<lambda>r. IsClusterScopedResource r \<and> r \<noteq> ''namespaces'') (evResources pf)"

definition evClusterRules :: "string list \<Rightarrow> json list" where
  "evClusterRules res =
     [ruleMap [[], ''rbac.authorization.k8s.io'', ''networking.k8s.io'', ''storage.k8s.io'', ''apiextensions.k8s.io''] res [''get'', ''list'', ''watch''],
      ruleMap [''authorization.k8s.io''] [''subjectaccessreviews''] [''create'']]"

text \<open>The sorted keys of the map that \<^verbatim>\<open>RolesByNamespace\<close> returns.\<close>

definition roleNamespaces :: "Plan \<Rightarrow> string list" where
  "roleNamespaces p = sort (remdups (concat (map (\<lambda>r. if ru_Cluster r then [] else roleScope p r) (AllRules p))))"

definition agentRoleName :: "string \<Rightarrow> string" where
  "agentRoleName ns = ''evidra-agent-role-'' @ dnsLabel ns"

definition agentObjects :: "Plan \<Rightarrow> json list" where
  "agentObjects p =
     concat (map (\<lambda>ns. [roleObject (agentRoleName ns) ns (rbacMaps (rolesAt p ns)), roleBinding (agentRoleName ns) ns AgentServiceAccount])
       (roleNamespaces p)) @
     (if ClusterRoleRules p \<noteq> [] then
        [clusterRole ''evidra-agent-cluster-role'' (rbacMaps (ClusterRoleRules p)),
         clusterRoleBinding ''evidra-agent-cluster-role'' AgentServiceAccount]
      else [])"

definition evidenceObjects :: "AuthorityProfile \<Rightarrow> json list" where
  "evidenceObjects pf =
     concat (map (\<lambda>ns. [roleObject ''evidra-evidence-role'' ns (evRules pf), roleBinding ''evidra-evidence-role'' ns EvidenceServiceAccount])
       (evidenceNamespaces pf)) @
     (if evClusterResources pf \<noteq> [] then
        [clusterRole ''evidra-evidence-cluster-role'' (evClusterRules (evClusterResources pf)),
         clusterRoleBinding ''evidra-evidence-cluster-role'' EvidenceServiceAccount]
      else [])"

definition baseObjects :: "json list" where
  "baseObjects =
     [JObj (objFields ''v1'' ''Namespace'' IdentityNamespace []),
      JObj (objFields ''v1'' ''ServiceAccount'' AgentServiceAccount IdentityNamespace),
      JObj (objFields ''v1'' ''ServiceAccount'' EvidenceServiceAccount IdentityNamespace)]"

text \<open>A profile that does not compile makes the code panic: \<open>None\<close>.\<close>

definition identityManifests :: "AuthorityProfile \<Rightarrow> json list option" where
  "identityManifests pf = (case Compile (Some pf) [] of
     Inr (Some p) \<Rightarrow> Some (baseObjects @ agentObjects p @ evidenceObjects pf)
   | _ \<Rightarrow> None)"

section \<open>Refusal of grants on protected objects\<close>

definition readVerbs :: "string list" where
  "readVerbs = [''get'', ''list'', ''watch'']"

definition scopeOf :: "AuthorityProfile \<Rightarrow> PolicyRule \<Rightarrow> string list" where
  "scopeOf pf rule = (if pr_Namespaces rule \<noteq> [] then pr_Namespaces rule else ag_Namespaces (Agent pf))"

definition mutatingRule :: "PolicyRule \<Rightarrow> bool" where
  "mutatingRule rule = list_ex (\<lambda>v. v = ''*'' \<or> v \<notin> set readVerbs) (pr_Verbs rule)"

datatype protected_grant = GrantedByWildcard PolicyRule ProtectedResource | GrantedByName PolicyRule ProtectedResource

definition protectedGrant :: "AuthorityProfile \<Rightarrow> PolicyRule \<Rightarrow> ProtectedResource \<Rightarrow> protected_grant list" where
  "protectedGrant pf rule prot =
     (if \<not> (contains (pr_Resources rule) (pt_Resource prot) \<or> contains (pr_Resources rule) ''*'') then []
      else if \<not> contains (scopeOf pf rule) (pt_Namespace prot) then []
      else if pr_ResourceNames rule = [] then [GrantedByWildcard rule prot]
      else if contains (pr_ResourceNames rule) (pt_Name prot) then [GrantedByName rule prot]
      else [])"

definition protectedGrants :: "AuthorityProfile \<Rightarrow> protected_grant list" where
  "protectedGrants pf = concat (map (\<lambda>rule.
     if mutatingRule rule then concat (map (protectedGrant pf rule) (Protected pf)) else []) (ag_Rules (Agent pf)))"

definition ValidateProfileRules :: "AuthorityProfile option \<Rightarrow> bool" where
  "ValidateProfileRules profile = (case profile of None \<Rightarrow> True | Some pf \<Rightarrow> protectedGrants pf = [])"

section \<open>Tokens and kubeconfigs\<close>

text \<open>
  Decoding of the minified admin kubeconfig: every cluster entry is decoded, and a field of another
  type than \<^verbatim>\<open>string\<close> is an error.
\<close>

definition decodeCluster :: "json \<Rightarrow> (string \<times> string \<times> string) option" where
  "decodeCluster j = (case j of
     JNull \<Rightarrow> Some ([], [], [])
   | JObj kvs \<Rightarrow> (case (field_string ''name'' [] kvs, field_raw ''cluster'' None kvs) of
       (None, _) \<Rightarrow> None
     | (Some _, None) \<Rightarrow> Some ([], [], [])
     | (Some _, Some JNull) \<Rightarrow> Some ([], [], [])
     | (Some _, Some (JObj c)) \<Rightarrow>
         (case (field_string ''server'' [] c, field_string ''certificate-authority-data'' [] c, field_string ''insecure-skip-tls-verify'' [] c) of
            (Some server, Some ca, Some insecure) \<Rightarrow> Some (server, ca, insecure)
          | _ \<Rightarrow> None)
     | _ \<Rightarrow> None)
   | _ \<Rightarrow> None)"

definition decodeClusters :: "json \<Rightarrow> (string \<times> string \<times> string) list option" where
  "decodeClusters j = (case j of
     JNull \<Rightarrow> Some []
   | JObj kvs \<Rightarrow> (case field_raw ''clusters'' None kvs of
       None \<Rightarrow> Some []
     | Some JNull \<Rightarrow> Some []
     | Some (JArr xs) \<Rightarrow> those (map decodeCluster xs)
     | _ \<Rightarrow> None)
   | _ \<Rightarrow> None)"

definition endpointOf :: "(string \<times> string \<times> string) list \<Rightarrow> (identity_error, clusterEndpoint) result" where
  "endpointOf cs = (case cs of
     [] \<Rightarrow> Inl NoClusterServer
   | (server, ca, insecure) # _ \<Rightarrow>
       if server = [] then Inl NoClusterServer
       else Inr \<lparr>ce_Server = server, ce_CAData = ca, ce_Insecure = (insecure = ''true'')\<rparr>)"

definition clusterInfo :: "World \<Rightarrow> IdentityEnv \<Rightarrow> string \<Rightarrow> (identity_error, clusterEndpoint) result proc" where
  "clusterInfo w e adminKubeconfig = do {
     (ok, out) \<leftarrow> kctl w adminKubeconfig [''config'', ''view'', ''--minify'', ''--raw'', ''-o'', ''json''];
     State_Monad.return (if \<not> ok then Inl AdminUnreadable
       else (case Option.bind (ie_Decode e out) decodeClusters of None \<Rightarrow> Inl AdminUnparseable | Some cs \<Rightarrow> endpointOf cs)) }"

definition secretManifest :: "string \<Rightarrow> json" where
  "secretManifest sa = JObj
     [(''apiVersion'', JStr ''v1''), (''kind'', JStr ''Secret''),
      (''metadata'', JObj [(''name'', JStr (sa @ ''-evidra-legacy'')), (''namespace'', JStr IdentityNamespace),
         (''annotations'', JObj [(''kubernetes.io/service-account.name'', JStr sa)])]),
      (''type'', JStr ''kubernetes.io/service-account-token'')]"

text \<open>The legacy secret is polled up to 30 times; between two attempts the context may be cancelled.\<close>

fun pollSecret :: "nat \<Rightarrow> World \<Rightarrow> IdentityEnv \<Rightarrow> string \<Rightarrow> string \<Rightarrow> (identity_error, string) result proc" where
  "pollSecret 0 w e adminKubeconfig sa = State_Monad.return (Inl TokenNeverPopulated)"
| "pollSecret (Suc n) w e adminKubeconfig sa = do {
     (ok, out) \<leftarrow> kctl w adminKubeconfig [''get'', ''secret'', sa @ ''-evidra-legacy'', ''-n'', IdentityNamespace, ''-o'', ''jsonpath={.data.token}''];
     case (if ok \<and> trim_space out \<noteq> [] then ie_Base64 e (trim_space out) else None) of
       Some (c # tok) \<Rightarrow> State_Monad.return (Inr (c # tok))
     | _ \<Rightarrow> do {
         cancelled \<leftarrow> observe (ie_Done e);
         if cancelled then State_Monad.return (Inl TokenCancelled) else pollSecret n w e adminKubeconfig sa } }"

definition legacyToken :: "World \<Rightarrow> IdentityEnv \<Rightarrow> string \<Rightarrow> IdentityBundle \<Rightarrow> string \<Rightarrow> ((identity_error, string) result \<times> IdentityBundle) proc" where
  "legacyToken w e adminKubeconfig b sa =
     (let path = Join (ib_dir b) (''secret-'' @ sa @ ''.json'') in do {
       (ok, _) \<leftarrow> perform w (WriteFile path (ie_Marshal e (secretManifest sa)));
       if \<not> ok then State_Monad.return (Inl SecretUnwritable, b)
       else do {
         (ok, _) \<leftarrow> kctl w adminKubeconfig [''apply'', ''-f'', path];
         if \<not> ok then State_Monad.return (Inl SecretRefused, b)
         else do {
           r \<leftarrow> pollSecret 30 w e adminKubeconfig sa;
           State_Monad.return (r, b\<lparr>ib_files := ib_files b @ [path]\<rparr>) } } })"

definition mintToken :: "World \<Rightarrow> IdentityEnv \<Rightarrow> string \<Rightarrow> IdentityBundle \<Rightarrow> string \<Rightarrow> ((identity_error, string) result \<times> IdentityBundle) proc" where
  "mintToken w e adminKubeconfig b sa = do {
     (ok, out) \<leftarrow> kctl w adminKubeconfig [''create'', ''token'', sa, ''-n'', IdentityNamespace, ''--duration'', tokenDurationReqs];
     if ok \<and> count_list (trim_space out) (CHR ''.'') = 2 then State_Monad.return (Inr (trim_space out), b)
     else legacyToken w e adminKubeconfig b sa }"

definition kubeconfigJson :: "clusterEndpoint \<Rightarrow> string \<Rightarrow> json" where
  "kubeconfigJson c token = JObj
     [(''apiVersion'', JStr ''v1''), (''kind'', JStr ''Config''),
      (''clusters'', JArr [JObj [(''name'', JStr ''evidra''), (''cluster'', JObj [(''server'', JStr (ce_Server c)),
         (if ce_Insecure c then (''insecure-skip-tls-verify'', JBool True) else (''certificate-authority-data'', JStr (ce_CAData c)))])]]),
      (''contexts'', JArr [JObj [(''name'', JStr ''evidra''), (''context'', JObj [(''cluster'', JStr ''evidra''), (''user'', JStr ''evidra'')])]]),
      (''current-context'', JStr ''evidra''),
      (''users'', JArr [JObj [(''name'', JStr ''evidra''), (''user'', JObj [(''token'', JStr token)])]])]"

definition writeKubeconfig :: "World \<Rightarrow> IdentityEnv \<Rightarrow> string \<Rightarrow> clusterEndpoint \<Rightarrow> string \<Rightarrow> bool proc" where
  "writeKubeconfig w e path c token = do {
     (ok, _) \<leftarrow> perform w (WriteFile path (ie_Marshal e (kubeconfigJson c token)));
     State_Monad.return ok }"

section \<open>Provisioning and revocation\<close>

definition pad2 :: "nat \<Rightarrow> string" where
  "pad2 i = (if i < 10 then ''0'' else []) @ nat_text i"

fun applyAll :: "World \<Rightarrow> IdentityEnv \<Rightarrow> string \<Rightarrow> nat \<Rightarrow> json list \<Rightarrow> IdentityBundle \<Rightarrow> (identity_error option \<times> IdentityBundle) proc" where
  "applyAll w e adminKubeconfig i [] b = State_Monad.return (None, b)"
| "applyAll w e adminKubeconfig i (ob # obs) b =
     (let path = Join (ib_dir b) (''manifest-'' @ pad2 i @ ''.json'') in do {
       (ok, _) \<leftarrow> perform w (WriteFile path (ie_Marshal e ob));
       if \<not> ok then State_Monad.return (Some ManifestUnwritable, b)
       else do {
         (ok, _) \<leftarrow> kctl w adminKubeconfig [''apply'', ''-f'', path];
         if \<not> ok then State_Monad.return (Some (ApplyFailed path), b)
         else applyAll w e adminKubeconfig (Suc i) obs (b\<lparr>ib_files := ib_files b @ [path]\<rparr>) } })"

text \<open>The local cleanup of a failed provisioning.\<close>

definition giveUp :: "World \<Rightarrow> string \<Rightarrow> identity_error \<Rightarrow> (identity_error, IdentityBundle option) result proc" where
  "giveUp w dir err = do { _ \<leftarrow> attempt w (RemoveAll dir); State_Monad.return (Inl err) }"

text \<open>One identity: its token, and its kubeconfig in the directory of the bundle.\<close>

definition addIdentity :: "World \<Rightarrow> IdentityEnv \<Rightarrow> string \<Rightarrow> clusterEndpoint \<Rightarrow> string \<Rightarrow> string \<Rightarrow> string \<Rightarrow> IdentityBundle \<Rightarrow>
    ((identity_error, Identity) result \<times> IdentityBundle) proc" where
  "addIdentity w e adminKubeconfig c sa user file b = do {
     (t, b1) \<leftarrow> mintToken w e adminKubeconfig b sa;
     case t of Inl err \<Rightarrow> State_Monad.return (Inl err, b1) | Inr token \<Rightarrow> do {
       ok \<leftarrow> writeKubeconfig w e (Join (ib_dir b) file) c token;
       State_Monad.return (if ok then Inr \<lparr>id_User = user, id_KubeconfigPath = Join (ib_dir b) file\<rparr> else Inl IdentityConfigUnwritable, b1) } }"

definition addIdentities :: "World \<Rightarrow> IdentityEnv \<Rightarrow> string \<Rightarrow> clusterEndpoint \<Rightarrow> IdentityBundle \<Rightarrow> (identity_error, IdentityBundle option) result proc" where
  "addIdentities w e adminKubeconfig c b = do {
     (a, b1) \<leftarrow> addIdentity w e adminKubeconfig c AgentServiceAccount AgentUserName ''agent.kubeconfig.json'' b;
     case a of Inl err \<Rightarrow> giveUp w (ib_dir b) err | Inr agent \<Rightarrow> do {
       (v, b2) \<leftarrow> addIdentity w e adminKubeconfig c EvidenceServiceAccount EvidenceUserName ''evidence.kubeconfig.json'' (b1\<lparr>ib_Agent := Some agent\<rparr>);
       case v of Inl err \<Rightarrow> giveUp w (ib_dir b) err | Inr evidence \<Rightarrow>
         State_Monad.return (Inr (Some (b2\<lparr>ib_Evidence := Some evidence\<rparr>))) } }"

definition Provision :: "World \<Rightarrow> IdentityEnv \<Rightarrow> string \<Rightarrow> AuthorityProfile option \<Rightarrow> (identity_error, IdentityBundle option) result proc" where
  "Provision w e adminKubeconfig profile = (case profile of
     None \<Rightarrow> State_Monad.return (Inr None)
   | Some pf \<Rightarrow> do {
       (ok, dir) \<leftarrow> perform w (MkdirTemp ''evidra-identity-'');
       if \<not> ok then State_Monad.return (Inl TempDirFailed)
       else if \<not> ValidateProfileRules (Some pf) then giveUp w dir ProfileRefused
       else (case identityManifests pf of
           None \<Rightarrow> State_Monad.return (Inl CompilePanic)
         | Some objs \<Rightarrow> do {
             (err, b) \<leftarrow> applyAll w e adminKubeconfig 0 objs \<lparr>ib_dir = dir, ib_files = [], ib_Agent = None, ib_Evidence = None\<rparr>;
             case err of Some x \<Rightarrow> giveUp w dir x | None \<Rightarrow> do {
               ci \<leftarrow> clusterInfo w e adminKubeconfig;
               case ci of Inl x \<Rightarrow> giveUp w dir x | Inr c \<Rightarrow> addIdentities w e adminKubeconfig c b } }) })"

definition revokeCmd :: "string \<Rightarrow> string list" where
  "revokeCmd path = [''delete'', ''--ignore-not-found'', ''--wait=false'', ''-f'', path]"

text \<open>The files in reverse order; the first failure is remembered.\<close>

fun deleteFiles :: "World \<Rightarrow> string \<Rightarrow> string list \<Rightarrow> string option \<Rightarrow> string option proc" where
  "deleteFiles w adminKubeconfig [] firstErr = State_Monad.return firstErr"
| "deleteFiles w adminKubeconfig (f # fs) firstErr = do {
     (ok, _) \<leftarrow> kctl w adminKubeconfig (revokeCmd f);
     deleteFiles w adminKubeconfig fs (if \<not> ok \<and> firstErr = None then Some f else firstErr) }"

definition Teardown :: "World \<Rightarrow> string \<Rightarrow> IdentityBundle option \<Rightarrow> string option proc" where
  "Teardown w adminKubeconfig bundle = (case bundle of
     None \<Rightarrow> State_Monad.return None
   | Some b \<Rightarrow> do {
       firstErr \<leftarrow> deleteFiles w adminKubeconfig (rev (ib_files b)) None;
       _ \<leftarrow> kctl w adminKubeconfig [''delete'', ''namespace'', IdentityNamespace, ''--ignore-not-found'', ''--wait=false''];
       _ \<leftarrow> (if ib_dir b \<noteq> [] then attempt w (RemoveAll (ib_dir b)) else State_Monad.return ());
       State_Monad.return firstErr })"

section \<open>The gate and the markers\<close>

definition isTransportFailure :: "string \<Rightarrow> bool" where
  "isTransportFailure msg = list_ex (\<lambda>m. str_contains (to_lower msg) m)
     [''connection refused'', ''no such host'', ''dial tcp'', ''i/o timeout'', ''couldn'' @ [CHR 0x27] @ ''t get current server api'']"

text \<open>
  What an answer to a probe says: the token is honoured, the cluster cannot be reached, or neither yet.
\<close>

datatype probe_answer = Honoured | Unreachable | NotYet

definition probeAnswer :: "Outcome \<Rightarrow> probe_answer" where
  "probeAnswer r =
     (let msg = trim_space (snd r) in
      if fst r then Honoured
      else if str_contains msg ''system:anonymous'' then NotYet
      else if str_contains msg ''Forbidden'' \<or> str_contains msg ''not found'' then Honoured
      else if isTransportFailure msg then Unreachable
      else NotYet)"

text \<open>
  The loop of \<^verbatim>\<open>WaitForAuthReady\<close> goes on until its deadline; \<open>None\<close> means that the fuel did not suffice,
  \<open>Some None\<close> that the gate is open.
\<close>

fun authProbe :: "nat \<Rightarrow> World \<Rightarrow> IdentityEnv \<Rightarrow> string \<Rightarrow> int \<Rightarrow> identity_error option option proc" where
  "authProbe 0 w e kubeconfig deadline = State_Monad.return None"
| "authProbe (Suc fuel) w e kubeconfig deadline = do {
     r \<leftarrow> kctl w kubeconfig [''get'', ''configmap'', probeNamePrefix @ ie_Nonce e, ''-n'', IdentityNamespace];
     case probeAnswer r of
       Honoured \<Rightarrow> State_Monad.return (Some None)
     | Unreachable \<Rightarrow> State_Monad.return (Some (Some GateUnreachable))
     | NotYet \<Rightarrow> do {
         now \<leftarrow> observe (ie_Now e);
         if deadline < now then State_Monad.return (Some (Some GateTimedOut))
         else do {
           cancelled \<leftarrow> observe (ie_Done e);
           if cancelled then State_Monad.return (Some (Some GateCancelled)) else authProbe fuel w e kubeconfig deadline } } }"

definition WaitForAuthReady :: "nat \<Rightarrow> World \<Rightarrow> IdentityEnv \<Rightarrow> Identity option \<Rightarrow> int \<Rightarrow> identity_error option option proc" where
  "WaitForAuthReady fuel w e ident timeout = (case ident of
     None \<Rightarrow> State_Monad.return (Some None)
   | Some i \<Rightarrow> do {
       now \<leftarrow> observe (ie_Now e);
       authProbe fuel w e (id_KubeconfigPath i) (now + timeout) })"

datatype marker_error = MarkerAnonymous | MarkerUnreachable | MarkerUnexpected

definition EmitMarker :: "World \<Rightarrow> IdentityEnv \<Rightarrow> string \<Rightarrow> (string \<times> marker_error option) proc" where
  "EmitMarker w e adminKubeconfig = do {
     (ok, out) \<leftarrow> kctl w adminKubeconfig [''get'', ''configmap'', markerNamePrefix @ ie_Nonce e, ''-n'', IdentityNamespace];
     State_Monad.return (markerNamePrefix @ ie_Nonce e,
       (let msg = trim_space out in
        if ok \<or> str_contains msg ''not found'' then None
        else if str_contains msg ''system:anonymous'' then Some MarkerAnonymous
        else if isTransportFailure msg then Some MarkerUnreachable
        else if str_contains msg ''Forbidden'' then None
        else Some MarkerUnexpected)) }"

definition identityReadyTimeout :: "(string \<Rightarrow> int option) \<Rightarrow> string \<Rightarrow> int" where
  "identityReadyTimeout parseDuration v =
     (let fallback = 10 * 60 * 1000000000 in
      if v = [] then fallback
      else (case parseDuration v of None \<Rightarrow> fallback | Some d \<Rightarrow> if d \<le> 0 then fallback else d))"

text \<open>
  The identities of a run: provisioned, and revoked again if one of them does not pass the gate.
  The caller asks for them only if the scenario has a profile, so a bundle is there.
\<close>

definition provisionRunIdentities :: "nat \<Rightarrow> World \<Rightarrow> IdentityEnv \<Rightarrow> string \<Rightarrow> AuthorityProfile \<Rightarrow> int \<Rightarrow> (identity_error, IdentityBundle) result option proc" where
  "provisionRunIdentities fuel w e adminKubeconfig pf ready = do {
     p \<leftarrow> Provision w e adminKubeconfig (Some pf);
     case p of
       Inl err \<Rightarrow> State_Monad.return (Some (Inl err))
     | Inr None \<Rightarrow> State_Monad.return None
     | Inr (Some b) \<Rightarrow> do {
         g1 \<leftarrow> WaitForAuthReady fuel w e (ib_Agent b) ready;
         case g1 of
           None \<Rightarrow> State_Monad.return None
         | Some (Some err) \<Rightarrow> do { _ \<leftarrow> Teardown w adminKubeconfig (Some b); State_Monad.return (Some (Inl err)) }
         | Some None \<Rightarrow> do {
             g2 \<leftarrow> WaitForAuthReady fuel w e (ib_Evidence b) ready;
             case g2 of
               None \<Rightarrow> State_Monad.return None
             | Some (Some err) \<Rightarrow> do { _ \<leftarrow> Teardown w adminKubeconfig (Some b); State_Monad.return (Some (Inl err)) }
             | Some None \<Rightarrow> State_Monad.return (Some (Inr b)) } } }"

section \<open>What the API server makes of the manifests\<close>

text \<open>
  The Kubernetes reading: a role binding grants its subjects the rules of its role in its own namespace, a
  cluster role binding grants those of its cluster role everywhere. A namespaced object without a
  namespace lands in \<^verbatim>\<open>default\<close>.
\<close>

definition jfields :: "json option \<Rightarrow> (string \<times> json) list" where
  "jfields j = (case j of Some (JObj kvs) \<Rightarrow> kvs | _ \<Rightarrow> [])"

definition strings_of :: "json option \<Rightarrow> string list" where
  "strings_of j = concat (map (\<lambda>x. case x of JStr s \<Rightarrow> [s] | _ \<Rightarrow> []) (as_list j))"

definition kindOf :: "json \<Rightarrow> string" where
  "kindOf ob = as_string (jget (jfields (Some ob)) ''kind'')"

definition metaOf :: "string \<Rightarrow> json \<Rightarrow> string" where
  "metaOf k ob = as_string (jget (jfields (jget (jfields (Some ob)) ''metadata'')) k)"

definition nsOf :: "json \<Rightarrow> string" where
  "nsOf ob = (if metaOf ''namespace'' ob = [] then ''default'' else metaOf ''namespace'' ob)"

definition refOf :: "string \<Rightarrow> json \<Rightarrow> string" where
  "refOf k ob = as_string (jget (jfields (jget (jfields (Some ob)) ''roleRef'')) k)"

definition binds :: "string \<Rightarrow> json \<Rightarrow> bool" where
  "binds sa ob = list_ex (\<lambda>s. as_string (jget (jfields (Some s)) ''kind'') = ''ServiceAccount'' \<and>
     as_string (jget (jfields (Some s)) ''name'') = sa \<and> as_string (jget (jfields (Some s)) ''namespace'') = IdentityNamespace)
     (as_list (jget (jfields (Some ob)) ''subjects''))"

definition rule_of_json :: "json \<Rightarrow> RBACRule" where
  "rule_of_json j = \<lparr>rb_APIGroups = strings_of (jget (jfields (Some j)) ''apiGroups''), rb_Resources = strings_of (jget (jfields (Some j)) ''resources''),
     rb_ResourceNames = strings_of (jget (jfields (Some j)) ''resourceNames''), rb_Verbs = strings_of (jget (jfields (Some j)) ''verbs'')\<rparr>"

definition rules_of :: "json \<Rightarrow> RBACRule list" where
  "rules_of ob = map rule_of_json (as_list (jget (jfields (Some ob)) ''rules''))"

definition linked :: "string \<Rightarrow> json \<Rightarrow> json \<Rightarrow> bool" where
  "linked ns b role \<longleftrightarrow> kindOf role = refOf ''kind'' b \<and> metaOf ''name'' role = refOf ''name'' b \<and>
     (kindOf b = ''RoleBinding'' \<and> nsOf b = ns \<and> (kindOf role = ''Role'' \<and> nsOf role = ns \<or> kindOf role = ''ClusterRole'') \<or>
      kindOf b = ''ClusterRoleBinding'' \<and> kindOf role = ''ClusterRole'')"

definition kube_rules :: "json list \<Rightarrow> string \<Rightarrow> string \<Rightarrow> RBACRule list" where
  "kube_rules objs sa ns = concat (map (\<lambda>b. if binds sa b then concat (map rules_of (filter (linked ns b) objs)) else []) objs)"

definition kube_allows :: "json list \<Rightarrow> string \<Rightarrow> Action \<Rightarrow> bool" where
  "kube_allows objs sa a = list_ex (\<lambda>rb. rbac_covers rb a) (kube_rules objs sa (a_Namespace a))"

section \<open>The gate\<close>

lemma run_kctl: "run_state (kctl w kc args) tr =
    (w tr (Cmd ([''kubectl'', ''--kubeconfig'', kc] @ args)),
     tr @ [(Cmd ([''kubectl'', ''--kubeconfig'', kc] @ args), w tr (Cmd ([''kubectl'', ''--kubeconfig'', kc] @ args)))])"
  by (simp add: kctl_def perform_def)

lemma run_observe [simp]: "run_state (observe f) tr = (f tr, tr)"
  by (simp add: observe_def)

text \<open>How the gate may be left: opened by an answer that honours the token, or closed by an error.\<close>

definition gate_left :: "identity_error option \<Rightarrow> Trace \<Rightarrow> bool" where
  "gate_left res tr \<longleftrightarrow> tr \<noteq> [] \<and> (case res of
     None \<Rightarrow> probeAnswer (snd (last tr)) = Honoured
   | Some err \<Rightarrow> err \<in> {GateUnreachable, GateTimedOut, GateCancelled} \<and> probeAnswer (snd (last tr)) \<noteq> Honoured)"

lemma authProbe_returns:
  assumes "\<And>tr'. K \<le> length tr' \<Longrightarrow> deadline < ie_Now e tr'"
  shows "K - length tr < fuel \<Longrightarrow> \<exists>res tr'. run_state (authProbe fuel w e kc deadline) tr = (Some res, tr') \<and> gate_left res tr'"
proof (induction fuel arbitrary: tr)
  case (Suc fuel)
  let ?op = "Cmd ([''kubectl'', ''--kubeconfig'', kc] @ [''get'', ''configmap'', probeNamePrefix @ ie_Nonce e, ''-n'', IdentityNamespace])"
  let ?tr = "tr @ [(?op, w tr ?op)]"
  show ?case
  proof (cases "probeAnswer (w tr ?op)")
    case NotYet
    show ?thesis
    proof (cases "deadline < ie_Now e ?tr \<or> ie_Done e ?tr")
      case False
      then have "\<not> K \<le> length ?tr" using assms by blast
      then have "K - length ?tr < fuel" using Suc.prems by simp
      from Suc.IH [OF this] False NotYet show ?thesis by (simp add: run_kctl)
    qed (use NotYet in \<open>auto simp: run_kctl gate_left_def\<close>)
  qed (auto simp: run_kctl gate_left_def)
qed simp

text \<open>
  The gate in front of an identity decides in time and rightly. If the clock passes the deadline after
  finitely many operations, the gate is left: it is open only after an answer in which the API server
  honoured the token, and otherwise it reports why it is closed.
\<close>

theorem auth_gate_decides:
  assumes "\<And>tr'. K \<le> length tr' \<Longrightarrow> ie_Now e tr + timeout < ie_Now e tr'" and "K - length tr < fuel"
  shows "\<exists>res tr'. run_state (WaitForAuthReady fuel w e (Some i) timeout) tr = (Some res, tr') \<and> gate_left res tr'"
  using authProbe_returns [of K "ie_Now e tr + timeout" e tr fuel w "id_KubeconfigPath i"] assms
  by (simp add: WaitForAuthReady_def)

section \<open>Revocation\<close>

text \<open>The manifests that are applied after a trace: \<^verbatim>\<open>apply\<close> adds one, \<^verbatim>\<open>delete\<close> removes it.\<close>

definition applyArgv :: "string \<Rightarrow> string \<Rightarrow> string list" where
  "applyArgv kc path = [''kubectl'', ''--kubeconfig'', kc, ''apply'', ''-f'', path]"

definition revokeArgv :: "string \<Rightarrow> string \<Rightarrow> string list" where
  "revokeArgv kc path = [''kubectl'', ''--kubeconfig'', kc] @ revokeCmd path"

definition live_step :: "string \<Rightarrow> string set \<Rightarrow> Op \<times> Outcome \<Rightarrow> string set" where
  "live_step kc S x = (case x of
     (Cmd argv, True, _) \<Rightarrow>
       (if argv = applyArgv kc (last argv) then insert (last argv) S
        else if argv = revokeArgv kc (last argv) then S - {last argv} else S)
   | _ \<Rightarrow> S)"

definition live :: "string \<Rightarrow> string set \<Rightarrow> Trace \<Rightarrow> string set" where
  "live kc S tr = fold (\<lambda>x S. live_step kc S x) tr S"

lemma live_Nil [simp]: "live kc S [] = S"
  by (simp add: live_def)

lemma live_Cons: "live kc S (x # tr) = live kc (live_step kc S x) tr"
  by (simp add: live_def)

lemma live_append [simp]: "live kc S (tr @ d) = live kc (live kc S tr) d"
  by (simp add: live_def)

text \<open>A trace that leaves at most the given manifests behind, and one that takes them away.\<close>

definition adds :: "string \<Rightarrow> string set \<Rightarrow> Trace \<Rightarrow> bool" where
  "adds kc F d \<longleftrightarrow> (\<forall>S. live kc S d \<subseteq> S \<union> F)"

lemma adds_Nil [simp]: "adds kc F []"
  by (simp add: adds_def)

lemma adds_append: "adds kc F d \<Longrightarrow> adds kc F d' \<Longrightarrow> adds kc F (d @ d')"
  by (fastforce simp: adds_def)

lemma adds_mono: "adds kc F d \<Longrightarrow> F \<subseteq> G \<Longrightarrow> adds kc G d"
  by (fastforce simp: adds_def)

definition inert :: "Op \<Rightarrow> bool" where
  "inert op \<longleftrightarrow> (case op of Cmd argv \<Rightarrow> take 1 (drop 3 argv) \<noteq> [''apply''] | _ \<Rightarrow> True)"

lemma take_applyArgv [simp]: "take 1 (drop 3 (applyArgv kc path)) = [''apply'']"
  by (simp add: applyArgv_def)

lemma adds_inert: "list_all (\<lambda>x. inert (fst x)) d \<Longrightarrow> adds kc F d"
proof (induction d)
  case (Cons x d)
  obtain op ok out where x: "x = (op, ok, out)" by (cases x)
  have "live_step kc S x \<subseteq> S" for S
    using Cons.prems unfolding x
    by (cases op; cases ok) (auto simp del: One_nat_def simp: live_step_def inert_def dest: arg_cong [where f = "\<lambda>argv. take 1 (drop 3 argv)"])
  then show ?case using Cons unfolding adds_def live_Cons by fastforce
qed simp

lemma adds_applied: "path \<in> F \<Longrightarrow> adds kc F [(Cmd (applyArgv kc' path), r)]"
  by (cases r; cases "fst r") (auto simp: adds_def live_Cons live_step_def applyArgv_def revokeArgv_def revokeCmd_def)

lemma adds_failed: "\<not> fst r \<Longrightarrow> adds kc F [(op, r)]"
  by (cases r; cases op) (auto simp: adds_def live_Cons live_step_def)

text \<open>A run that extends the trace and leaves at most the given manifests behind.\<close>

definition leaves :: "string \<Rightarrow> string set \<Rightarrow> Trace \<Rightarrow> Trace \<Rightarrow> bool" where
  "leaves kc F tr tr' \<longleftrightarrow> (\<exists>d. tr' = tr @ d \<and> adds kc F d)"

lemma leaves_refl [simp]: "leaves kc F tr tr"
  by (simp add: leaves_def)

lemma leaves_trans: "leaves kc F tr tr1 \<Longrightarrow> leaves kc F tr1 tr2 \<Longrightarrow> leaves kc F tr tr2"
  unfolding leaves_def using adds_append by fastforce

lemma leaves_snoc: "adds kc F [x] \<Longrightarrow> leaves kc F (tr @ [x]) tr' \<Longrightarrow> leaves kc F tr tr'"
  by (rule leaves_trans [of kc F tr "tr @ [x]"]) (auto simp: leaves_def)

lemma leaves_mono: "leaves kc F tr tr' \<Longrightarrow> F \<subseteq> G \<Longrightarrow> leaves kc G tr tr'"
  unfolding leaves_def using adds_mono by blast

lemma leaves_only: "only inert m \<Longrightarrow> run_state m tr = (r, tr') \<Longrightarrow> leaves kc F tr tr'"
  unfolding only_def leaves_def by (erule (1) emits_run) (auto intro: adds_inert)

lemma leaves_live: "leaves kc F tr tr' \<Longrightarrow> live kc S tr' \<subseteq> live kc S tr \<union> F"
  unfolding leaves_def adds_def by (metis live_append)

lemma inert_simps [simp]:
  "inert (WriteFile p c)" "inert (MkdirTemp p)" "inert (RemoveAll p)"
  "inert (Cmd (''kubectl'' # ''--kubeconfig'' # kc # a # args)) \<longleftrightarrow> a \<noteq> ''apply''"
  by (auto simp: inert_def)

text \<open>
  A procedure that keeps track: its result carries a bundle that lists every manifest the run leaves applied,
  and the directory of the bundle stays.
\<close>

definition tracks :: "string \<Rightarrow> IdentityBundle \<Rightarrow> ('a \<times> IdentityBundle) proc \<Rightarrow> bool" where
  "tracks kc b m \<longleftrightarrow> (\<forall>tr r b' tr'. run_state m tr = ((r, b'), tr') \<longrightarrow>
     leaves kc (set (ib_files b')) tr tr' \<and> set (ib_files b) \<subseteq> set (ib_files b') \<and> ib_dir b' = ib_dir b)"

lemma tracks_return: "tracks kc b (State_Monad.return (r, b))"
  by (simp add: tracks_def)

lemma tracks_bind:
  assumes "tracks kc b m" and "\<And>r b'. tracks kc b' (f (r, b'))"
  shows "tracks kc b (State_Monad.bind m f)"
  unfolding tracks_def
proof (intro allI impI)
  fix tr r b2 tr2
  assume run: "run_state (State_Monad.bind m f) tr = ((r, b2), tr2)"
  obtain r1 b1 tr1 where 1: "run_state m tr = ((r1, b1), tr1)" by (metis prod.collapse)
  then have "run_state (f (r1, b1)) tr1 = ((r, b2), tr2)" using run by simp
  with assms(2) have 2: "leaves kc (set (ib_files b2)) tr1 tr2" "set (ib_files b1) \<subseteq> set (ib_files b2)" "ib_dir b2 = ib_dir b1"
    unfolding tracks_def by blast+
  then show "leaves kc (set (ib_files b2)) tr tr2 \<and> set (ib_files b) \<subseteq> set (ib_files b2) \<and> ib_dir b2 = ib_dir b"
    using assms(1) 1 leaves_mono leaves_trans unfolding tracks_def by (metis subset_trans)
qed

lemma tracks_inert:
  assumes "only inert m" and "\<And>a. tracks kc b (f a)"
  shows "tracks kc b (State_Monad.bind m f)"
  unfolding tracks_def
proof (intro allI impI)
  fix tr r b2 tr2
  assume run: "run_state (State_Monad.bind m f) tr = ((r, b2), tr2)"
  obtain a tr1 where 1: "run_state m tr = (a, tr1)" by fastforce
  then have "run_state (f a) tr1 = ((r, b2), tr2)" using run by simp
  then show "leaves kc (set (ib_files b2)) tr tr2 \<and> set (ib_files b) \<subseteq> set (ib_files b2) \<and> ib_dir b2 = ib_dir b"
    using assms(2) leaves_only [OF assms(1) 1] leaves_trans unfolding tracks_def by blast
qed

lemma tracks_apply:
  assumes "tracks kc (b\<lparr>ib_files := ib_files b @ [path]\<rparr>) m"
  shows "tracks kc b (do { (ok, _) \<leftarrow> kctl w kc [''apply'', ''-f'', path]; if \<not> ok then State_Monad.return (x, b) else m })"
  unfolding tracks_def
proof (intro allI impI)
  fix tr r b2 tr2
  assume run: "run_state (do { (ok, _) \<leftarrow> kctl w kc [''apply'', ''-f'', path]; if \<not> ok then State_Monad.return (x, b) else m }) tr = ((r, b2), tr2)"
  let ?y = "(Cmd (applyArgv kc path), w tr (Cmd (applyArgv kc path)))"
  show "leaves kc (set (ib_files b2)) tr tr2 \<and> set (ib_files b) \<subseteq> set (ib_files b2) \<and> ib_dir b2 = ib_dir b"
  proof (cases "fst (snd ?y)")
    case True
    then have "run_state m (tr @ [?y]) = ((r, b2), tr2)" using run by (simp add: run_kctl applyArgv_def case_prod_beta)
    with assms have m: "leaves kc (set (ib_files b2)) (tr @ [?y]) tr2" "set (ib_files b) \<union> {path} \<subseteq> set (ib_files b2)" "ib_dir b2 = ib_dir b"
      unfolding tracks_def by fastforce+
    then have "adds kc (set (ib_files b2)) [?y]" by (intro adds_applied) simp
    then show ?thesis using leaves_snoc m by blast
  next
    case False
    then have "b2 = b" "tr2 = tr @ [?y]" using run by (auto simp: run_kctl applyArgv_def case_prod_beta)
    moreover have "adds kc (set (ib_files b)) [?y]" using False by (intro adds_failed) simp
    ultimately show ?thesis using leaves_snoc [of kc "set (ib_files b)" ?y tr tr2] by simp
  qed
qed

lemma only_observe [emits_intros]: "only P (observe f)"
  by (simp add: only_def emits_def)

lemma only_kctl: "a \<noteq> ''apply'' \<Longrightarrow> only inert (kctl w kc (a # args))"
  by (simp add: kctl_def only_perform)

lemma only_pollSecret: "only inert (pollSecret n w e kc sa)"
  by (induction n) (auto intro!: emits_intros only_kctl split: option.split list.split prod.split)

lemma applyAll_tracks: "tracks kc b (applyAll w e kc i obs b)"
proof (induction obs arbitrary: i b)
  case (Cons ob obs)
  show ?case
    by (auto simp: Let_def intro!: tracks_inert tracks_return tracks_apply Cons.IH only_perform split: prod.split)
qed (simp add: tracks_return)

lemma mintToken_tracks: "tracks kc b (mintToken w e kc b sa)"
  unfolding mintToken_def legacyToken_def Let_def
  by (auto intro!: tracks_inert tracks_return tracks_apply only_perform only_kctl only_pollSecret split: prod.split)

lemma addIdentity_tracks: "tracks kc b (addIdentity w e kc c sa user file b)"
  unfolding addIdentity_def writeKubeconfig_def
  by (auto intro!: tracks_bind [OF mintToken_tracks] tracks_inert tracks_return emits_intros split: prod.split sum.split)

lemma run_giveUp [simp]: "run_state (giveUp w dir err) tr = (Inl err, tr @ [(RemoveAll dir, w tr (RemoveAll dir))])"
  by (simp add: giveUp_def attempt_def perform_def)

lemma addIdentities_leaves:
  assumes "run_state (addIdentities w e kc c b) tr = (Inr (Some b'), tr')"
  shows "leaves kc (set (ib_files b')) tr tr' \<and> set (ib_files b) \<subseteq> set (ib_files b') \<and> ib_dir b' = ib_dir b"
proof -
  obtain a b1 tr1 where 1: "run_state (addIdentity w e kc c AgentServiceAccount AgentUserName ''agent.kubeconfig.json'' b) tr = ((a, b1), tr1)"
    by (metis prod.collapse)
  obtain agent where a: "a = Inr agent" using assms 1 by (cases a) (auto simp: addIdentities_def)
  let ?b1 = "b1\<lparr>ib_Agent := Some agent\<rparr>"
  obtain v b2 tr2 where 2: "run_state (addIdentity w e kc c EvidenceServiceAccount EvidenceUserName ''evidence.kubeconfig.json'' ?b1) tr1 = ((v, b2), tr2)"
    by (metis prod.collapse)
  then have r: "ib_files b' = ib_files b2" "ib_dir b' = ib_dir b2" "tr' = tr2"
    using assms 1 a by (cases v; auto simp: addIdentities_def)+
  have t1: "leaves kc (set (ib_files b1)) tr tr1" "set (ib_files b) \<subseteq> set (ib_files b1)" "ib_dir b1 = ib_dir b"
    using addIdentity_tracks [of kc b] 1 unfolding tracks_def by blast+
  have t2: "leaves kc (set (ib_files b2)) tr1 tr2" "set (ib_files b1) \<subseteq> set (ib_files b2)" "ib_dir b2 = ib_dir b1"
    using addIdentity_tracks [of kc ?b1] 2 unfolding tracks_def by fastforce+
  show ?thesis unfolding r using t1 t2 leaves_trans [OF leaves_mono [OF t1(1) t2(2)] t2(1)] by auto
qed

lemma Provision_leaves:
  assumes "run_state (Provision w e kc profile) tr = (Inr (Some b), tr')"
  shows "leaves kc (set (ib_files b)) tr tr'"
proof -
  obtain pf where pf: "profile = Some pf" using assms by (cases profile) (auto simp: Provision_def)
  let ?m = "MkdirTemp ''evidra-identity-''"
  let ?x = "(?m, w tr ?m)"
  let ?b0 = "\<lparr>ib_dir = snd (w tr ?m), ib_files = [], ib_Agent = None, ib_Evidence = None\<rparr>"
  have run: "run_state (Provision w e kc profile) tr =
      (if \<not> fst (w tr ?m) then (Inl TempDirFailed, tr @ [?x])
       else if \<not> ValidateProfileRules (Some pf) then run_state (giveUp w (snd (w tr ?m)) ProfileRefused) (tr @ [?x])
       else (case identityManifests pf of None \<Rightarrow> (Inl CompilePanic, tr @ [?x])
         | Some objs \<Rightarrow> (case run_state (applyAll w e kc 0 objs ?b0) (tr @ [?x]) of ((err, b1), tr1) \<Rightarrow>
             (case err of Some y \<Rightarrow> run_state (giveUp w (snd (w tr ?m)) y) tr1
              | None \<Rightarrow> (case run_state (clusterInfo w e kc) tr1 of (ci, tr2) \<Rightarrow>
                  (case ci of Inl y \<Rightarrow> run_state (giveUp w (snd (w tr ?m)) y) tr2 | Inr c \<Rightarrow> run_state (addIdentities w e kc c b1) tr2))))))"
    unfolding pf Provision_def by (simp add: perform_def case_prod_beta split: option.split sum.split)
  obtain objs b1 tr1 c tr2 where s: "run_state (applyAll w e kc 0 objs ?b0) (tr @ [?x]) = ((None, b1), tr1)"
    "run_state (clusterInfo w e kc) tr1 = (Inr c, tr2)" "run_state (addIdentities w e kc c b1) tr2 = (Inr (Some b), tr')"
    using assms unfolding run by (auto split: if_splits option.splits prod.splits sum.splits)
  have "leaves kc (set (ib_files b)) tr1 tr2"
    by (rule leaves_only [OF _ s(2)]) (auto simp: clusterInfo_def intro!: emits_intros only_kctl split: prod.split)
  moreover have "leaves kc (set (ib_files b1)) (tr @ [?x]) tr1"
    using applyAll_tracks [of kc ?b0] s(1) unfolding tracks_def by blast
  moreover have a: "leaves kc (set (ib_files b)) tr2 tr'" "set (ib_files b1) \<subseteq> set (ib_files b)"
    using addIdentities_leaves [OF s(3)] by simp_all
  ultimately have "leaves kc (set (ib_files b)) (tr @ [?x]) tr'"
    by (meson leaves_mono leaves_trans)
  moreover have "adds kc (set (ib_files b)) [?x]" by (rule adds_inert) simp
  ultimately show ?thesis using leaves_snoc by blast
qed

lemma deleteFiles_first: "run_state (deleteFiles w kc fs (Some f)) tr = (r, tr') \<Longrightarrow> r = Some f"
  by (induction fs arbitrary: tr) (auto simp: run_kctl case_prod_beta)

lemma revoke_step: "r = (True, out) \<Longrightarrow> live_step kc S (Cmd ([''kubectl'', ''--kubeconfig'', kc] @ revokeCmd f), r) = S - {f}"
  by (simp add: live_step_def applyArgv_def revokeArgv_def revokeCmd_def)

lemma deleteFiles_revokes:
  "run_state (deleteFiles w kc fs None) tr = (None, tr') \<Longrightarrow> \<exists>d. tr' = tr @ d \<and> (\<forall>S. live kc S d \<subseteq> S - set fs)"
proof (induction fs arbitrary: tr)
  case (Cons f fs)
  let ?op = "Cmd ([''kubectl'', ''--kubeconfig'', kc] @ revokeCmd f)"
  have "fst (w tr ?op)" using Cons.prems deleteFiles_first by (fastforce simp: run_kctl case_prod_beta)
  then obtain out where r: "w tr ?op = (True, out)" by (cases "w tr ?op") auto
  then have "run_state (deleteFiles w kc fs None) (tr @ [(?op, w tr ?op)]) = (None, tr')"
    using Cons.prems by (simp add: run_kctl)
  from Cons.IH [OF this] obtain d where d: "tr' = (tr @ [(?op, w tr ?op)]) @ d" "\<And>S. live kc S d \<subseteq> S - set fs" by blast
  have "live kc S ((?op, w tr ?op) # d) \<subseteq> S - set (f # fs)" for S
    using d(2) [of "S - {f}"] unfolding live_Cons revoke_step [OF r] by auto
  then show ?case using d(1) by (intro exI [of _ "(?op, w tr ?op) # d"]) simp
qed auto

lemma Teardown_revokes:
  assumes "run_state (Teardown w kc (Some b)) tr = (None, tr')"
  shows "live kc S tr' \<subseteq> live kc S tr - set (ib_files b) \<and> (ib_dir b = [] \<or> RemoveAll (ib_dir b) \<in> fst ` set tr')"
proof -
  obtain r tr1 where 1: "run_state (deleteFiles w kc (rev (ib_files b)) None) tr = (r, tr1)" by fastforce
  let ?n = "Cmd ([''kubectl'', ''--kubeconfig'', kc] @ [''delete'', ''namespace'', IdentityNamespace, ''--ignore-not-found'', ''--wait=false''])"
  let ?x = "(?n, w tr1 ?n)"
  let ?y = "(RemoveAll (ib_dir b), w (tr1 @ [?x]) (RemoveAll (ib_dir b)))"
  have r: "r = None" and tr': "tr' = (if ib_dir b = [] then tr1 @ [?x] else (tr1 @ [?x]) @ [?y])"
    using assms 1 by (simp_all add: Teardown_def run_kctl attempt_def perform_def split: if_splits)
  obtain d where d: "tr1 = tr @ d" "\<forall>S. live kc S d \<subseteq> S - set (ib_files b)"
    using deleteFiles_revokes [OF 1 [unfolded r]] by fastforce
  have "adds kc {} [?x]" "adds kc {} [?y]" by (rule adds_inert, simp)+
  then have x: "leaves kc {} tr1 (tr1 @ [?x])" and y: "leaves kc {} (tr1 @ [?x]) ((tr1 @ [?x]) @ [?y])"
    unfolding leaves_def by blast+
  have "leaves kc {} tr1 tr'" unfolding tr' using x leaves_trans [OF x y] by (rule if_split [THEN iffD2, OF conjI, OF impI impI])
  then have "live kc S tr' \<subseteq> live kc S tr1" using leaves_live by fastforce
  also have "live kc S tr1 \<subseteq> live kc S tr - set (ib_files b)" using d by simp
  finally show ?thesis unfolding tr' by auto
qed

text \<open>
  C35: identities do not outlive their run. If the identities of a profile were provisioned and
  their teardown reports no error, no manifest is applied that was not before, none of those of the
  bundle is, and the directory with the tokens was removed.
\<close>

theorem identities_revoked:
  assumes "run_state (Provision w e kc profile) tr = (Inr (Some b), tr1)" and "run_state (Teardown w kc (Some b)) tr1 = (None, tr2)"
  shows "live kc {} tr2 \<subseteq> live kc {} tr - set (ib_files b) \<and> (ib_dir b = [] \<or> RemoveAll (ib_dir b) \<in> fst ` set tr2)"
  using Teardown_revokes [OF assms(2), of "{}"] leaves_live [OF Provision_leaves [OF assms(1)], of "{}"] by auto

section \<open>The manifests as RBAC\<close>

lemma jfields_Obj [simp]: "jfields (Some (JObj kvs)) = kvs"
  by (simp add: jfields_def)

lemma strings_of_strList [simp]: "strings_of (Some (strList xs)) = xs"
  by (induction xs) (simp_all add: strings_of_def strList_def as_list_def)

lemma strings_of_None [simp]: "strings_of None = []"
  by (simp add: strings_of_def as_list_def)

lemma rule_of_rbacMap [simp]: "rule_of_json (rbacMap r) = r"
  by (simp add: rule_of_json_def rbacMap_def jget_Cons)

lemma rule_of_ruleMap [simp]:
  "rule_of_json (ruleMap gs res vs) = \<lparr>rb_APIGroups = gs, rb_Resources = res, rb_ResourceNames = [], rb_Verbs = vs\<rparr>"
  by (simp add: rule_of_json_def ruleMap_def jget_Cons)

lemmas obj_defs = kindOf_def metaOf_def refOf_def binds_def objFields_def bindingFields_def as_string_def as_list_def jget_append jget_Cons

lemma role_views [simp]:
  "kindOf (roleObject n ns rs) = ''Role''" "metaOf ''name'' (roleObject n ns rs) = n" "metaOf ''namespace'' (roleObject n ns rs) = ns"
  "\<not> binds sa (roleObject n ns rs)" "rules_of (roleObject n ns rs) = map rule_of_json rs"
  by (simp_all add: roleObject_def rules_of_def obj_defs)

lemma cluster_role_views [simp]:
  "kindOf (clusterRole n rs) = ''ClusterRole''" "metaOf ''name'' (clusterRole n rs) = n"
  "\<not> binds sa (clusterRole n rs)" "rules_of (clusterRole n rs) = map rule_of_json rs"
  by (simp_all add: clusterRole_def rules_of_def obj_defs)

lemma binding_views [simp]:
  "kindOf (roleBinding r ns sa) = ''RoleBinding''" "metaOf ''namespace'' (roleBinding r ns sa) = ns"
  "refOf ''kind'' (roleBinding r ns sa) = ''Role''" "refOf ''name'' (roleBinding r ns sa) = r" "binds sa' (roleBinding r ns sa) \<longleftrightarrow> sa' = sa"
  by (auto simp: roleBinding_def obj_defs)

lemma cluster_binding_views [simp]:
  "kindOf (clusterRoleBinding r sa) = ''ClusterRoleBinding''" "refOf ''kind'' (clusterRoleBinding r sa) = ''ClusterRole''"
  "refOf ''name'' (clusterRoleBinding r sa) = r" "binds sa' (clusterRoleBinding r sa) \<longleftrightarrow> sa' = sa"
  by (auto simp: clusterRoleBinding_def obj_defs)

lemma base_views [simp]: "kindOf (JObj (objFields v k n ns)) = k" "\<not> binds sa (JObj (objFields v k n ns))"
  by (simp_all add: obj_defs)

lemma kube_rules_iff:
  "rb \<in> set (kube_rules objs sa ns) \<longleftrightarrow> (\<exists>b\<in>set objs. binds sa b \<and> (\<exists>r\<in>set objs. linked ns b r \<and> rb \<in> set (rules_of r)))"
  by (auto simp: kube_rules_def)

lemma set_roleNamespaces: "set (roleNamespaces p) = {ns. \<exists>r\<in>set (AllRules p). \<not> ru_Cluster r \<and> ns \<in> set (roleScope p r)}"
  by (auto simp: roleNamespaces_def)

lemma rolesAt_outside: "ns \<notin> set (roleNamespaces p) \<Longrightarrow> rolesAt p ns = []"
proof -
  assume "ns \<notin> set (roleNamespaces p)"
  then have "set (rolesAt p ns) = {}" unfolding set_rolesAt set_roleNamespaces by blast
  then show ?thesis by simp
qed

text \<open>The two service accounts and the roles of the two have different names.\<close>

lemma names_differ [simp]:
  "AgentServiceAccount \<noteq> EvidenceServiceAccount" "EvidenceServiceAccount \<noteq> AgentServiceAccount"
  "agentRoleName ns \<noteq> ''evidra-evidence-role''" "''evidra-evidence-role'' \<noteq> agentRoleName ns"
  by (simp_all add: AgentServiceAccount_def EvidenceServiceAccount_def agentRoleName_def)

lemma in_agentObjects:
  "ob \<in> set (agentObjects p) \<longleftrightarrow>
     (\<exists>ns\<in>set (roleNamespaces p). ob = roleObject (agentRoleName ns) ns (rbacMaps (rolesAt p ns)) \<or> ob = roleBinding (agentRoleName ns) ns AgentServiceAccount) \<or>
     ClusterRoleRules p \<noteq> [] \<and> (ob = clusterRole ''evidra-agent-cluster-role'' (rbacMaps (ClusterRoleRules p)) \<or>
       ob = clusterRoleBinding ''evidra-agent-cluster-role'' AgentServiceAccount)"
  by (auto simp: agentObjects_def)

lemma in_evidenceObjects:
  "ob \<in> set (evidenceObjects pf) \<longleftrightarrow>
     (\<exists>ns\<in>set (evidenceNamespaces pf). ob = roleObject ''evidra-evidence-role'' ns (evRules pf) \<or> ob = roleBinding ''evidra-evidence-role'' ns EvidenceServiceAccount) \<or>
     evClusterResources pf \<noteq> [] \<and> (ob = clusterRole ''evidra-evidence-cluster-role'' (evClusterRules (evClusterResources pf)) \<or>
       ob = clusterRoleBinding ''evidra-evidence-cluster-role'' EvidenceServiceAccount)"
  by (auto simp: evidenceObjects_def)

lemma base_objects: "ob \<in> set baseObjects \<Longrightarrow> \<not> binds sa ob \<and> kindOf ob \<noteq> ''Role'' \<and> kindOf ob \<noteq> ''ClusterRole''"
  by (auto simp: baseObjects_def)

lemma in_manifests:
  assumes "identityManifests pf = Some objs" and "Compile (Some pf) [] = Inr (Some p)"
  shows "ob \<in> set objs \<longleftrightarrow> ob \<in> set baseObjects \<or> ob \<in> set (agentObjects p) \<or> ob \<in> set (evidenceObjects pf)"
proof -
  have "objs = baseObjects @ agentObjects p @ evidenceObjects pf" using assms by (simp add: identityManifests_def)
  then show ?thesis by simp
qed

lemma agent_bindings:
  assumes "identityManifests pf = Some objs" and "Compile (Some pf) [] = Inr (Some p)"
  shows "b \<in> set objs \<and> binds AgentServiceAccount b \<longleftrightarrow>
    (\<exists>ns\<in>set (roleNamespaces p). b = roleBinding (agentRoleName ns) ns AgentServiceAccount) \<or>
    ClusterRoleRules p \<noteq> [] \<and> b = clusterRoleBinding ''evidra-agent-cluster-role'' AgentServiceAccount"
  unfolding in_manifests [OF assms] in_agentObjects in_evidenceObjects using base_objects by auto

lemma linked_agent_role:
  assumes "identityManifests pf = Some objs" and "Compile (Some pf) [] = Inr (Some p)" and "[] \<notin> set (roleNamespaces p)" and "ns' \<in> set (roleNamespaces p)"
  shows "r \<in> set objs \<and> linked ns (roleBinding (agentRoleName ns') ns' sa) r \<longleftrightarrow>
    ns = ns' \<and> r = roleObject (agentRoleName ns') ns' (rbacMaps (rolesAt p ns'))"
  using assms(3,4) base_objects unfolding in_manifests [OF assms(1,2)] in_agentObjects in_evidenceObjects linked_def nsOf_def
  by (auto split: if_splits)

lemma linked_agent_cluster_role:
  assumes "identityManifests pf = Some objs" and "Compile (Some pf) [] = Inr (Some p)" and "ClusterRoleRules p \<noteq> []"
  shows "r \<in> set objs \<and> linked ns (clusterRoleBinding ''evidra-agent-cluster-role'' sa) r \<longleftrightarrow>
    r = clusterRole ''evidra-agent-cluster-role'' (rbacMaps (ClusterRoleRules p))"
  using assms(3) base_objects unfolding in_manifests [OF assms(1,2)] in_agentObjects in_evidenceObjects linked_def by auto

lemma rules_of_rbacMaps [simp]: "map rule_of_json (rbacMaps rs) = rs"
  by (simp add: rbacMaps_def comp_def)

lemma ex_binding:
  assumes "\<And>b. P b \<longleftrightarrow> (\<exists>n\<in>N. b = f n) \<or> C \<and> b = g" and "\<And>n. n \<in> N \<Longrightarrow> G (f n) \<longleftrightarrow> m = n \<and> Q n" and "C \<Longrightarrow> G g \<longleftrightarrow> R"
  shows "(\<exists>b. P b \<and> G b) \<longleftrightarrow> m \<in> N \<and> Q m \<or> C \<and> R"
  unfolding assms(1) using assms(2,3) by auto

lemma agent_kube_rules:
  assumes "identityManifests pf = Some objs" and "Compile (Some pf) [] = Inr (Some p)" and "[] \<notin> set (roleNamespaces p)"
  shows "set (kube_rules objs AgentServiceAccount ns) = set (rbac_rules p ns)"
proof -
  let ?grants = "\<lambda>rb b. \<exists>r. (r \<in> set objs \<and> linked ns b r) \<and> rb \<in> set (rules_of r)"
  have r: "?grants rb (roleBinding (agentRoleName ns') ns' AgentServiceAccount) \<longleftrightarrow> ns = ns' \<and> rb \<in> set (rolesAt p ns')"
    if "ns' \<in> set (roleNamespaces p)" for ns' rb
    unfolding linked_agent_role [OF assms that] by simp
  have c: "?grants rb (clusterRoleBinding ''evidra-agent-cluster-role'' AgentServiceAccount) \<longleftrightarrow> rb \<in> set (ClusterRoleRules p)"
    if "ClusterRoleRules p \<noteq> []" for rb
    unfolding linked_agent_cluster_role [OF assms(1,2) that] by simp
  have "rb \<in> set (kube_rules objs AgentServiceAccount ns) \<longleftrightarrow> (\<exists>b. (b \<in> set objs \<and> binds AgentServiceAccount b) \<and> ?grants rb b)" for rb
    unfolding kube_rules_iff by auto
  then have k0: "rb \<in> set (kube_rules objs AgentServiceAccount ns) \<longleftrightarrow>
      ns \<in> set (roleNamespaces p) \<and> rb \<in> set (rolesAt p ns) \<or> ClusterRoleRules p \<noteq> [] \<and> rb \<in> set (ClusterRoleRules p)" for rb
    using ex_binding [where G = "?grants rb" and P = "\<lambda>b. b \<in> set objs \<and> binds AgentServiceAccount b"
        and Q = "\<lambda>ns'. rb \<in> set (rolesAt p ns')" and N = "set (roleNamespaces p)" and m = ns and C = "ClusterRoleRules p \<noteq> []"
        and f = "\<lambda>ns. roleBinding (agentRoleName ns) ns AgentServiceAccount", OF agent_bindings [OF assms(1,2)] r c]
    by simp
  have k: "rb \<in> set (kube_rules objs AgentServiceAccount ns) \<longleftrightarrow>
      ns \<in> set (roleNamespaces p) \<and> rb \<in> set (rolesAt p ns) \<or> rb \<in> set (ClusterRoleRules p)" for rb
    unfolding k0 by (cases "ClusterRoleRules p") simp_all
  show ?thesis
    using rolesAt_outside [of ns p] unfolding set_eq_iff k rbac_rules_def by (cases "ns \<in> set (roleNamespaces p)") simp_all
qed

section \<open>Enforcement and judgement\<close>

text \<open>Rules and protected entries that name whole resources, without a subresource in the name.\<close>

definition whole_resources :: "AuthorityProfile \<Rightarrow> bool" where
  "whole_resources pf \<longleftrightarrow> list_all (\<lambda>r. list_all (\<lambda>res. CHR ''/'' \<notin> set res) (pr_Resources r)) (ag_Rules (Agent pf)) \<and>
     list_all (\<lambda>pt. CHR ''/'' \<notin> set (pt_Resource pt)) (Protected pf)"

lemma rbac_allows_cong:
  assumes "AllRules p = AllRules q" and "AgentNamespace p = AgentNamespace q"
  shows "rbac_allows p a = rbac_allows q a"
proof -
  have scope: "roleScope p = roleScope q" using assms(2) by (simp add: roleScope_def fun_eq_iff)
  show ?thesis unfolding rbac_allows_def rbac_rules_def rolesAt_def RolesByNamespace_def ClusterRoleRules_def scope assms(1) ..
qed

lemma ruleOf_fields [simp]:
  "ru_Cluster (ruleOf c r) = c" "ru_Verbs (ruleOf c r) = dedupe (pr_Verbs r)" "ru_Resources (ruleOf c r) = baseResources (pr_Resources r)"
  "ru_ResourceNames (ruleOf c r) = dedupe (pr_ResourceNames r)" "ru_Namespaces (ruleOf c r) = (if c then [] else dedupe (pr_Namespaces r))"
  by (simp_all add: ruleOf_def)

lemma local_rule:
  assumes "r \<in> set (compiled_rules pf)" and "\<not> ru_Cluster r"
  obtains r0 where "r0 \<in> set (ag_Rules (Agent pf))" "r = ruleOf False r0"
  using assms unfolding compiled_rules_def by auto

lemma roleNamespaces_named:
  assumes "Compile (Some pf) i = Inr (Some p)" and "[] \<notin> set (ag_Namespaces (Agent pf))"
  shows "[] \<notin> set (roleNamespaces p)"
proof -
  note f = Compile_fields [OF assms(1)]
  have "[] \<notin> set (roleScope p r)" if r: "r \<in> set (AllRules p)" "\<not> ru_Cluster r" for r
  proof -
    obtain r0 where "r0 \<in> set (ag_Rules (Agent pf))" "r = ruleOf False r0"
      using r unfolding f(1) by (rule local_rule)
    then have "set (roleScope p r) \<subseteq> set (ag_Namespaces (Agent pf))"
      using f(4,7) by (auto simp: roleScope_def)
    then show ?thesis using assms(2) by blast
  qed
  then show ?thesis by (auto simp: set_roleNamespaces)
qed

lemma mutation_not_read: "v \<in> set MutationVerbs \<Longrightarrow> v \<notin> set readVerbs"
  by (auto simp: MutationVerbs_def readVerbs_def)

lemma granted_rule:
  assumes "wf_profile pf" and "Compile (Some pf) i = Inr (Some p)" and "whole_resources pf"
    and "a_Verb a \<in> set MutationVerbs" and "a_Namespace a \<noteq> []" and "grantedBy p a"
  obtains r where "r \<in> set (ag_Rules (Agent pf))" "mutatingRule r" "a_Resource a \<in> set (pr_Resources r)" "a_Namespace a \<in> set (scopeOf pf r)"
    "pr_ResourceNames r = [] \<or> a_Name a \<noteq> [] \<and> a_Name a \<in> set (pr_ResourceNames r)"
proof -
  note f = Compile_fields [OF assms(2)]
  obtain cr where cr: "cr \<in> set (compiled_rules pf)" "nsIn cr (a_Namespace a) (AgentNamespace p)" "matches cr a" "verbAllowed cr (a_Verb a)"
    using assms(6) unfolding grantedBy_def f(2) by auto
  have "\<not> ru_Cluster cr" using cr(2) assms(5) by (auto simp: nsIn_def)
  then obtain r where r: "r \<in> set (ag_Rules (Agent pf))" "cr = ruleOf False r"
    using cr(1) by (blast elim: local_rule)
  have w: "rule_shape cr" "set (ru_Verbs cr) \<subseteq> set canonicalRBACVerbs" using compiled_rules_wf [OF assms(1) cr(1)] by blast+
  have "baseOf res = res" if "res \<in> set (pr_Resources r)" for res
    using assms(3) r(1) that by (auto simp: whole_resources_def list_all_iff intro: baseOf_id)
  then have "a_Resource a \<in> set (pr_Resources r)"
    using matches_resource [OF w(1) cr(3)] r(2) by auto
  moreover have "mutatingRule r"
    using cr(4) verbAllowed_iff [OF w(2)] assms(4) r(2) mutation_not_read by (auto simp: mutatingRule_def list_ex_iff split: if_splits)
  moreover have "a_Namespace a \<in> set (scopeOf pf r)"
    using cr(2) r(2) f(4) by (auto simp: nsIn_def scopeOf_def contains_def split: if_splits)
  moreover have "pr_ResourceNames r = [] \<or> a_Name a \<noteq> [] \<and> a_Name a \<in> set (pr_ResourceNames r)"
    using cr(3) r(2) by (auto simp: matches_def Let_def contains_def split: if_splits)
  ultimately show ?thesis using that r(1) by blast
qed

lemma granted_not_protected:
  assumes "wf_profile pf" and "Compile (Some pf) i = Inr (Some p)" and "whole_resources pf" and "ValidateProfileRules (Some pf)"
    and "a_Verb a \<in> set MutationVerbs" and "a_Namespace a \<noteq> []" and "grantedBy p a"
  shows "\<not> protectedHit p a"
proof
  assume "protectedHit p a"
  then obtain pt where pt: "pt \<in> set (Protected pf)" "pt_Namespace pt = a_Namespace a"
    "pt_Resource pt = a_Resource a \<or> pt_Resource pt = resourceKey a" "pt_Name pt = a_Name a \<or> a_Name a = []"
    unfolding protectedHit_def Compile_fields(5) [OF assms(2)] by (auto simp: list_ex_iff protectedRefOf_def)
  have "CHR ''/'' \<notin> set (pt_Resource pt)" using assms(3) pt(1) by (auto simp: whole_resources_def list_all_iff)
  then have res: "pt_Resource pt = a_Resource a" using pt(3) by (auto simp: resourceKey_def split: if_splits)
  from granted_rule [OF assms(1,2,3,5,6,7)] obtain r where r: "r \<in> set (ag_Rules (Agent pf))" "mutatingRule r" "a_Resource a \<in> set (pr_Resources r)"
    "a_Namespace a \<in> set (scopeOf pf r)" "pr_ResourceNames r = [] \<or> a_Name a \<noteq> [] \<and> a_Name a \<in> set (pr_ResourceNames r)" .
  have "protectedGrant pf r pt \<noteq> []"
    using r(3,4,5) pt(2,4) res by (auto simp: protectedGrant_def contains_def)
  then obtain g where "g \<in> set (protectedGrant pf r pt)" by (meson ex_in_conv set_empty)
  then have "g \<in> set (protectedGrants pf)" using r(1,2) pt(1) by (force simp: protectedGrants_def)
  then show False using assms(4) by (auto simp: ValidateProfileRules_def)
qed


section \<open>The evidence reader\<close>

lemma evidence_bindings:
  assumes "identityManifests pf = Some objs" and "Compile (Some pf) [] = Inr (Some p)" and "b \<in> set objs" and "binds EvidenceServiceAccount b"
  shows "refOf ''kind'' b = ''Role'' \<and> refOf ''name'' b = ''evidra-evidence-role'' \<or>
    refOf ''kind'' b = ''ClusterRole'' \<and> refOf ''name'' b = ''evidra-evidence-cluster-role''"
  using assms(3,4) base_objects unfolding in_manifests [OF assms(1,2)] in_agentObjects in_evidenceObjects by auto

lemma evidence_roles:
  assumes "identityManifests pf = Some objs" and "Compile (Some pf) [] = Inr (Some p)" and "r \<in> set objs"
  shows "kindOf r = ''Role'' \<and> metaOf ''name'' r = ''evidra-evidence-role'' \<Longrightarrow> rules_of r = map rule_of_json (evRules pf)"
    and "kindOf r = ''ClusterRole'' \<and> metaOf ''name'' r = ''evidra-evidence-cluster-role'' \<Longrightarrow>
      rules_of r = map rule_of_json (evClusterRules (evClusterResources pf))"
  using assms(3) base_objects unfolding in_manifests [OF assms(1,2)] in_agentObjects in_evidenceObjects by auto

lemma evidence_kube_rules:
  assumes "identityManifests pf = Some objs" and "rb \<in> set (kube_rules objs EvidenceServiceAccount ns)"
  shows "rb \<in> rule_of_json ` (set (evRules pf) \<union> set (evClusterRules (evClusterResources pf)))"
proof -
  obtain p where p: "Compile (Some pf) [] = Inr (Some p)"
    using assms(1) by (auto simp: identityManifests_def split: sum.splits option.splits)
  obtain b r where b: "b \<in> set objs" "binds EvidenceServiceAccount b" and r: "r \<in> set objs" "linked ns b r" "rb \<in> set (rules_of r)"
    using assms(2) unfolding kube_rules_iff by blast
  have "kindOf r = refOf ''kind'' b" "metaOf ''name'' r = refOf ''name'' b" using r(2) by (simp_all add: linked_def)
  then have "rules_of r = map rule_of_json (evRules pf) \<or> rules_of r = map rule_of_json (evClusterRules (evClusterResources pf))"
    using evidence_bindings [OF assms(1) p b] evidence_roles [OF assms(1) p r(1)] by auto
  then show ?thesis using r(3) by auto
qed

text \<open>
  The evidence reader only reads: without extra entries in the profile its service account can get, list and
  watch, and beyond that only ask for access reviews.
\<close>

theorem evidence_reader_reads_only:
  assumes "identityManifests pf = Some objs" and "er_Extra (EvidenceReaderSpec pf) = []" and "kube_allows objs EvidenceServiceAccount a"
  shows "a_Verb a \<in> set readVerbs \<or> a_Verb a = ''create'' \<and> resourceKey a = ''subjectaccessreviews'' \<and> a_APIGroup a = ''authorization.k8s.io''"
proof -
  obtain rb where rb: "rb \<in> rule_of_json ` (set (evRules pf) \<union> set (evClusterRules (evClusterResources pf)))" "rbac_covers rb a"
    using assms(3) evidence_kube_rules [OF assms(1)] unfolding kube_allows_def list_ex_iff by blast
  then have "rb_Verbs rb = readVerbs \<or> rb_Verbs rb = [''create''] \<and> rb_Resources rb = [''subjectaccessreviews''] \<and> rb_APIGroups rb = [''authorization.k8s.io'']"
    using assms(2) by (auto simp: evRules_def evClusterRules_def readVerbs_def Let_def)
  then show ?thesis using rb(2) by (auto simp: rbac_covers_def readVerbs_def)
qed

section \<open>A provisioned profile\<close>

text \<open>
  A world in which every command succeeds; a token request answers with three parts. The clock ticks with every
  operation.
\<close>

definition calm :: World where
  "calm tr op = (case op of
     MkdirTemp _ \<Rightarrow> (True, ''/tmp/ids'')
   | Cmd argv \<Rightarrow> (True, if take 2 (drop 3 argv) = [''create'', ''token''] then ''a.b.c'' else if take 1 (drop 3 argv) = [''config''] then ''view'' else [])
   | _ \<Rightarrow> (True, []))"

definition demo_ids :: IdentityEnv where
  "demo_ids = \<lparr>ie_Marshal = (\<lambda>_. []),
     ie_Decode = (\<lambda>_. Some (JObj [(''clusters'', JArr [JObj [(''name'', JStr ''k''), (''cluster'', JObj [(''server'', JStr ''https://k'')])]])])),
     ie_Base64 = (\<lambda>_. None), ie_Nonce = ''n'', ie_Now = (\<lambda>tr. int (length tr)), ie_Done = (\<lambda>_. False)\<rparr>"

definition demo_bundle :: IdentityBundle where
  "demo_bundle = (case run_state (Provision calm demo_ids ''kc'' (Some demo_profile)) [] of (Inr (Some b), _) \<Rightarrow> b)"

definition provisioned :: Trace where
  "provisioned = snd (run_state (Provision calm demo_ids ''kc'' (Some demo_profile)) [])"

lemma demo_provisioned: "run_state (Provision calm demo_ids ''kc'' (Some demo_profile)) [] = (Inr (Some demo_bundle), provisioned)"
proof -
  have "case fst (run_state (Provision calm demo_ids ''kc'' (Some demo_profile)) []) of Inr (Some b) \<Rightarrow> True | _ \<Rightarrow> False" by code_simp
  then show ?thesis unfolding demo_bundle_def provisioned_def
    by (cases "run_state (Provision calm demo_ids ''kc'' (Some demo_profile)) []") (auto split: sum.splits option.splits)
qed

theorem identities_revoked_witness:
  "live ''kc'' {} (snd (run_state (Teardown calm ''kc'' (Some demo_bundle)) provisioned)) = {} \<and> length (ib_files demo_bundle) = 9"
proof -
  obtain r tr where t: "run_state (Teardown calm ''kc'' (Some demo_bundle)) provisioned = (r, tr)" by fastforce
  have "fst (run_state (Teardown calm ''kc'' (Some demo_bundle)) provisioned) = None" by code_simp
  then have "run_state (Teardown calm ''kc'' (Some demo_bundle)) provisioned = (None, tr)" using t by simp
  from identities_revoked [OF demo_provisioned this] have "live ''kc'' {} tr \<subseteq> {}" by simp
  moreover have "length (ib_files demo_bundle) = 9" by code_simp
  ultimately show ?thesis using t by simp
qed


theorem auth_gate_decides_witness:
  "\<exists>res tr'. run_state (WaitForAuthReady 7 (\<lambda>_ _. (False, ''system:anonymous'')) demo_ids (Some \<lparr>id_User = AgentUserName, id_KubeconfigPath = ''a''\<rparr>) 5) [] = (Some res, tr') \<and> gate_left res tr'"
  by (rule auth_gate_decides [of 6]) (simp_all add: demo_ids_def)

theorem evidence_reader_reads_only_witness:
  "a_Verb (demo_action\<lparr>a_Verb := ''list'', a_Resource := ''pods''\<rparr>) \<in> set readVerbs"
proof -
  let ?a = "demo_action\<lparr>a_Verb := ''list'', a_Resource := ''pods''\<rparr>"
  have "kube_allows (the (identityManifests demo_profile)) EvidenceServiceAccount ?a" by code_simp
  moreover have "identityManifests demo_profile = Some (the (identityManifests demo_profile))" "er_Extra (EvidenceReaderSpec demo_profile) = []" by code_simp+
  ultimately show ?thesis using evidence_reader_reads_only [of demo_profile "the (identityManifests demo_profile)" ?a] by (simp add: demo_action_def)
qed

section \<open>Gaps\<close>

text \<open>
  A provisioning that fails half way only removes its directory: what was applied stays, and no bundle is
  returned that could be torn down.
\<close>

definition refusing :: World where
  "refusing tr op = (if op = Cmd (applyArgv ''kc'' ''/tmp/ids/manifest-05.json'') then (False, []) else calm tr op)"

lemma failed_provision_leaks:
  "case run_state (Provision refusing demo_ids ''kc'' (Some demo_profile)) [] of
     (Inl err, tr) \<Rightarrow> err = ApplyFailed ''/tmp/ids/manifest-05.json'' \<and> ''/tmp/ids/manifest-03.json'' \<in> live ''kc'' {} tr
   | _ \<Rightarrow> False"
  by code_simp

text \<open>
  The flag \<^verbatim>\<open>insecure-skip-tls-verify\<close> is a boolean in a kubeconfig and a string in the decoder: an admin
  kubeconfig that sets it cannot be used.
\<close>

lemma insecure_admin_refused:
  "decodeClusters (JObj [(''clusters'', JArr [JObj [(''name'', JStr n), (''cluster'', JObj [(''server'', JStr url), (''insecure-skip-tls-verify'', JBool True)])]])]) = None"
  by (simp add: decodeClusters_def decodeCluster_def equal_fold_def to_lower_def lower_char_def)

text \<open>An extra entry without a verb, which the loader documents as read access, becomes a rule with an empty verb.\<close>

lemma bare_extra_grants_nothing:
  "validateEvidenceReaderExtra i ''pods/log'' = None \<and> rb_Verbs (rule_of_json (extraRule ''pods/log'')) = [[]]"
  by code_simp

text \<open>
  A rule on a subresource of a protected kind passes the refusal, since the names are compared as a
  whole, although its role grants the protected object itself.
\<close>

definition scale_profile :: AuthorityProfile where
  "scale_profile = demo_profile\<lparr>Agent := (Agent demo_profile)\<lparr>ag_Rules := [demo_rule\<lparr>pr_Resources := [''deployments/scale''], pr_Subresources := []\<rparr>]\<rparr>,
     Protected := [\<lparr>pt_APIGroup = ''apps'', pt_Resource = ''deployments'', pt_Namespace = ''bench'', pt_Name = ''web''\<rparr>]\<rparr>"

lemma subresource_rule_slips_past:
  "validateAuthorityProfile (Some scale_profile) = None \<and> ValidateProfileRules (Some scale_profile) \<and>
   kube_allows (the (identityManifests scale_profile)) AgentServiceAccount demo_action \<and> Classify (plan_of scale_profile) demo_action = ProtectedViolation"
  by code_simp

end
