(* ===== verification/Provisioner.thy ===== *)
theory Provisioner
  imports Cluster_Providers
begin

text \<open>
  Environment leases: \<^verbatim>\<open>pkg/environment/lease.go\<close>, \<^verbatim>\<open>assets.go\<close>, \<^verbatim>\<open>profile_runner.go\<close>,
  \<^verbatim>\<open>local_provisioner.go\<close> and the lease recovery of batch runs (\<^verbatim>\<open>cmd/bench-cli/lease_recovery.go\<close>). The
  provisioner calls a provider through the record \<open>ClusterLifecycle\<close> and runs the hooks of an execution
  profile; its lemmas use the provider only through the locale \<open>lifecycle\<close>. The once-flag of a profile
  release is part of the lease, which \<open>Release\<close> returns updated.
\<close>

section \<open>Assets\<close>

record ProfileAssets =
  as_ClusterConfigPath :: string
  as_ProfileDir :: string
  as_InstallScript :: string
  as_HealthcheckScript :: string
  as_CleanupScript :: string

datatype provision_error =
    UnknownProvider string | UnsupportedExecProfile string | ConfigNotFound string | InstallScriptMissing string
  | ProviderFailed env_error | NilProviderPanic
  | WorkDirFailed | InstallFailed | HealthcheckFailed | LeaseEnvUnreadable

definition profileRequiresHooks :: "string \<Rightarrow> bool" where
  "profileRequiresHooks profile \<longleftrightarrow> profile \<noteq> ''default'' \<and> profile \<noteq> ''multi-node''"

definition optionalScript :: "World \<Rightarrow> string \<Rightarrow> string proc" where
  "optionalScript w path = do {
     (ok, _) \<leftarrow> perform w (Stat path);
     State_Monad.return (if ok then path else []) }"

definition resolveAssets :: "World \<Rightarrow> string \<Rightarrow> string \<Rightarrow> string \<Rightarrow> (provision_error, ProfileAssets) result proc" where
  "resolveAssets w rootDir provider profile0 =
     (let profile = if profile0 = [] then ''default'' else profile0;
          clusterConfig = Join (Join (Join rootDir ''clusters'') provider) (profile @ ''.yaml'');
          profileDir = Join (Join rootDir ''profiles'') profile in
      do {
        (ok, _) \<leftarrow> perform w (Stat clusterConfig);
        if \<not> ok then State_Monad.return (Inl (ConfigNotFound clusterConfig))
        else if \<not> profileRequiresHooks profile then State_Monad.return (Inr
          \<lparr>as_ClusterConfigPath = clusterConfig, as_ProfileDir = profileDir, as_InstallScript = [],
           as_HealthcheckScript = [], as_CleanupScript = []\<rparr>)
        else do {
          (ok, _) \<leftarrow> perform w (Stat (Join profileDir ''install.sh''));
          if \<not> ok then State_Monad.return (Inl (InstallScriptMissing profile))
          else do {
            healthcheck \<leftarrow> optionalScript w (Join profileDir ''healthcheck.sh'');
            cleanup \<leftarrow> optionalScript w (Join profileDir ''cleanup.sh'');
            State_Monad.return (Inr
              \<lparr>as_ClusterConfigPath = clusterConfig, as_ProfileDir = profileDir, as_InstallScript = Join profileDir ''install.sh'',
               as_HealthcheckScript = healthcheck, as_CleanupScript = cleanup\<rparr>) } } })"

section \<open>Profile hooks\<close>

record ProfileRunRequest =
  pq_Assets :: ProfileAssets
  pq_Profile :: string
  pq_Provider :: string
  pq_ClusterName :: string
  pq_Kubeconfig :: string
  pq_ExtraEnv :: "(string \<times> string) list"

text \<open>The release of a prepared profile, with the flag of its \<^verbatim>\<open>sync.Once\<close>.\<close>

record ProfileRelease =
  pr_WorkDir :: string
  pr_CleanupScript :: string
  pr_Env :: "string list"
  pr_Done :: bool

record ProfileRunResult =
  pn_ExtraEnv :: "string list"
  pn_Release :: ProfileRelease

definition buildEnv :: "HostEnv \<Rightarrow> ProfileRunRequest \<Rightarrow> string \<Rightarrow> string list" where
  "buildEnv env req workDir =
     [''KUBECONFIG='' @ pq_Kubeconfig req, ''BENCH_PROFILE='' @ pq_Profile req, ''BENCH_PROVIDER='' @ pq_Provider req,
      ''BENCH_CLUSTER_NAME='' @ pq_ClusterName req, ''BENCH_WORK_DIR='' @ workDir, ''BENCH_ASSETS_DIR='' @ as_ProfileDir (pq_Assets req)] @
     map (\<lambda>(k, v). k @ ''='' @ v) (pq_ExtraEnv req) @
     (if he_Path env \<noteq> [] then [''PATH='' @ he_Path env] else [])"

definition doCleanup :: "World \<Rightarrow> string \<Rightarrow> string list \<Rightarrow> unit proc" where
  "doCleanup w script env = (if script \<noteq> [] then attempt w (Hook script env) else State_Monad.return ())"

definition leaseEnvLine :: "string \<Rightarrow> bool" where
  "leaseEnvLine line \<longleftrightarrow> line \<noteq> [] \<and> \<not> has_prefix line ''#'' \<and> str_contains line ''=''"

definition leaseEnvLines :: "string \<Rightarrow> string list option" where
  "leaseEnvLines data =
     (let ls = split_at CHR 0x0A data in
      if list_ex (\<lambda>l. 65536 \<le> int (length l)) ls then None else Some (filter leaseEnvLine (map trim_space ls)))"

definition parseLeaseEnv :: "World \<Rightarrow> string \<Rightarrow> string list option proc" where
  "parseLeaseEnv w path = do {
     (present, _) \<leftarrow> perform w (Stat path);
     if \<not> present then State_Monad.return (Some [])
     else do {
       (ok, data) \<leftarrow> perform w (ReadFile path);
       State_Monad.return (if ok then leaseEnvLines data else None) } }"

definition abandon :: "World \<Rightarrow> ProfileRunRequest \<Rightarrow> string list \<Rightarrow> string \<Rightarrow> provision_error \<Rightarrow> (provision_error, ProfileRunResult) result proc" where
  "abandon w req env workDir e = do {
     _ \<leftarrow> doCleanup w (as_CleanupScript (pq_Assets req)) env;
     _ \<leftarrow> attempt w (RemoveAll workDir);
     State_Monad.return (Inl e) }"

definition runHook :: "World \<Rightarrow> string \<Rightarrow> string list \<Rightarrow> bool proc" where
  "runHook w script env = do { (ok, out) \<leftarrow> perform w (Hook script env); State_Monad.return ok }"

definition Prepare :: "World \<Rightarrow> HostEnv \<Rightarrow> ProfileRunRequest \<Rightarrow> (provision_error, ProfileRunResult) result proc" where
  "Prepare w henv req = do {
     (ok, workDir) \<leftarrow> perform w (MkdirTemp ''bench-profile-*'');
     if \<not> ok then State_Monad.return (Inl WorkDirFailed)
     else do {
       installed \<leftarrow> runHook w (as_InstallScript (pq_Assets req)) (buildEnv henv req workDir);
       if \<not> installed then abandon w req (buildEnv henv req workDir) workDir InstallFailed
       else do {
         healthy \<leftarrow> (if as_HealthcheckScript (pq_Assets req) \<noteq> []
                     then runHook w (as_HealthcheckScript (pq_Assets req)) (buildEnv henv req workDir) else State_Monad.return True);
         if \<not> healthy then abandon w req (buildEnv henv req workDir) workDir HealthcheckFailed
         else do {
           leaseEnv \<leftarrow> parseLeaseEnv w (Join workDir ''lease.env'');
           case leaseEnv of
             None \<Rightarrow> abandon w req (buildEnv henv req workDir) workDir LeaseEnvUnreadable
           | Some vars \<Rightarrow> State_Monad.return (Inr \<lparr>pn_ExtraEnv = vars,
               pn_Release = \<lparr>pr_WorkDir = workDir, pr_CleanupScript = as_CleanupScript (pq_Assets req),
                             pr_Env = buildEnv henv req workDir, pr_Done = False\<rparr>\<rparr>) } } } }"

definition releaseProfile :: "World \<Rightarrow> ProfileRelease \<Rightarrow> ProfileRelease proc" where
  "releaseProfile w pr =
     (if pr_Done pr then State_Monad.return pr
      else do {
        _ \<leftarrow> doCleanup w (pr_CleanupScript pr) (pr_Env pr);
        _ \<leftarrow> attempt w (RemoveAll (pr_WorkDir pr));
        State_Monad.return (pr\<lparr>pr_Done := True\<rparr>) })"

section \<open>Leases\<close>

record ProvisionRequest =
  rq_Scenario :: "Scenario option"
  rq_Profile :: string
  rq_ProviderName :: string
  rq_ClusterName :: string
  rq_ReuseCluster :: bool
  rq_ExistingKubeconfig :: string
  rq_Shared :: bool

text \<open>The release function of a lease: the cleanup of the profile, then the destruction of the cluster.\<close>

record ReleaseFunc =
  rf_Profile :: "ProfileRelease option"
  rf_Cluster :: "Handle option"

record Lease =
  ls_Profile :: string
  ls_KubeconfigPath :: string
  ls_Audit :: "AuditAccess option"
  ls_ClusterNetwork :: string
  ls_InClusterServer :: string
  ls_ExtraEnv :: "string list"
  ls_Provider :: "ClusterLifecycle option"
  ls_Shared :: bool
  ls_release :: "ReleaseFunc option"

definition ownsCluster :: "ProvisionRequest \<Rightarrow> bool" where
  "ownsCluster req \<longleftrightarrow> rq_ExistingKubeconfig req = []"

definition releaseFunc :: "ProvisionRequest \<Rightarrow> ClusterLifecycle option \<Rightarrow> Handle \<Rightarrow> Handle option" where
  "releaseFunc req provider handle =
     (if \<not> ownsCluster req \<or> rq_ReuseCluster req \<or> Option.is_none provider then None else Some handle)"

definition composeRelease :: "ProfileRelease option \<Rightarrow> Handle option \<Rightarrow> ReleaseFunc option" where
  "composeRelease profileRelease clusterRelease =
     (if profileRelease = None \<and> clusterRelease = None then None
      else Some \<lparr>rf_Profile = profileRelease, rf_Cluster = clusterRelease\<rparr>)"

definition destroyCluster :: "ClusterLifecycle option \<Rightarrow> Handle \<Rightarrow> env_error list proc" where
  "destroyCluster provider h = (case provider of None \<Rightarrow> State_Monad.return [] | Some lc \<Rightarrow> lc_Destroy lc h)"

definition Release :: "World \<Rightarrow> Lease \<Rightarrow> (env_error list \<times> Lease) proc" where
  "Release w l = (case ls_release l of
     None \<Rightarrow> State_Monad.return ([], l)
   | Some rf \<Rightarrow> do {
       pr \<leftarrow> (case rf_Profile rf of
               None \<Rightarrow> State_Monad.return None
             | Some pr \<Rightarrow> do { pr' \<leftarrow> releaseProfile w pr; State_Monad.return (Some pr') });
       errs \<leftarrow> (case rf_Cluster rf of None \<Rightarrow> State_Monad.return [] | Some h \<Rightarrow> destroyCluster (ls_Provider l) h);
       State_Monad.return (errs, l\<lparr>ls_release := Some (rf\<lparr>rf_Profile := pr\<rparr>)\<rparr>) })"

section \<open>The local provisioner\<close>

record LocalProvisioner =
  lp_Providers :: "(string \<times> ClusterLifecycle) list"
  lp_Assets :: string

definition clusterSpec :: "ProvisionRequest \<Rightarrow> ProfileAssets \<Rightarrow> ClusterSpec" where
  "clusterSpec req assets =
     \<lparr>cs_Profile = [], cs_ConfigPath = as_ClusterConfigPath assets,
      cs_LegacyKubernetes = (case rq_Scenario req of
        None \<Rightarrow> \<lparr>ku_CNI = [], ku_Addons = [], ku_Runtimes = [], ku_Features = []\<rparr>
      | Some s \<Rightarrow> ec_Kubernetes (s_Environment s)),
      cs_Audit = \<lparr>ac_Enabled = True, ac_PolicyMode = [], ac_NodeImage = []\<rparr>\<rparr>"

definition provisionCluster :: "ProvisionRequest \<Rightarrow> ClusterLifecycle option \<Rightarrow> ProfileAssets \<Rightarrow> bool \<Rightarrow> (provision_error, Handle) result proc" where
  "provisionCluster req provider assets recreate =
     (if \<not> ownsCluster req then State_Monad.return (Inr
        \<lparr>hd_ClusterName = rq_ClusterName req, hd_KubeconfigPath = rq_ExistingKubeconfig req, hd_Audit = None,
         hd_ClusterNetwork = [], hd_InClusterServer = []\<rparr>)
      else (case provider of
        None \<Rightarrow> State_Monad.return (Inl NilProviderPanic)
      | Some lc \<Rightarrow> do {
          r \<leftarrow> (if recreate then lc_Recreate lc (rq_ClusterName req) (clusterSpec req assets)
                else lc_Create lc (rq_ClusterName req) (clusterSpec req assets));
          State_Monad.return (case r of Inl e \<Rightarrow> Inl (ProviderFailed e) | Inr h \<Rightarrow> Inr h) }))"

definition leaseOf :: "ProvisionRequest \<Rightarrow> ClusterLifecycle option \<Rightarrow> Handle \<Rightarrow> string list \<Rightarrow> ReleaseFunc option \<Rightarrow> Lease" where
  "leaseOf req provider handle extraEnv rel =
     \<lparr>ls_Profile = rq_Profile req, ls_KubeconfigPath = hd_KubeconfigPath handle, ls_Audit = hd_Audit handle,
      ls_ClusterNetwork = hd_ClusterNetwork handle, ls_InClusterServer = hd_InClusterServer handle, ls_ExtraEnv = extraEnv,
      ls_Provider = provider, ls_Shared = rq_Shared req, ls_release = rel\<rparr>"

definition acquireDefault :: "World \<Rightarrow> LocalProvisioner \<Rightarrow> ProvisionRequest \<Rightarrow> ClusterLifecycle option \<Rightarrow> bool \<Rightarrow> (provision_error, Lease) result proc" where
  "acquireDefault w p req provider recreate = do {
     a \<leftarrow> resolveAssets w (lp_Assets p) (rq_ProviderName req) (rq_Profile req);
     case a of Inl e \<Rightarrow> State_Monad.return (Inl e) | Inr assets \<Rightarrow> do {
       h \<leftarrow> provisionCluster req provider assets recreate;
       State_Monad.return (case h of Inl e \<Rightarrow> Inl e
         | Inr handle \<Rightarrow> Inr (leaseOf req provider handle [] (composeRelease None (releaseFunc req provider handle)))) } }"

text \<open>
  The two profiles with hooks share their body: assets, cluster, hooks with the extra variables, the
  destruction of an owned cluster if the hooks fail, and the lease with the composed release.
\<close>

definition runProfile :: "World \<Rightarrow> HostEnv \<Rightarrow> ProvisionRequest \<Rightarrow> ClusterLifecycle option \<Rightarrow> ProfileAssets \<Rightarrow> (string \<times> string) list \<Rightarrow> Handle \<Rightarrow>
    (provision_error, ProfileRunResult) result proc" where
  "runProfile w henv req provider assets extraEnv handle = do {
     r \<leftarrow> Prepare w henv \<lparr>pq_Assets = assets, pq_Profile = rq_Profile req, pq_Provider = rq_ProviderName req,
            pq_ClusterName = hd_ClusterName handle, pq_Kubeconfig = hd_KubeconfigPath handle, pq_ExtraEnv = extraEnv\<rparr>;
     case r of
       Inl e \<Rightarrow> do {
         _ \<leftarrow> (if ownsCluster req \<and> \<not> rq_ReuseCluster req then destroyCluster provider handle else State_Monad.return []);
         State_Monad.return (Inl e) }
     | Inr res \<Rightarrow> State_Monad.return (Inr res) }"

definition acquireHooked :: "World \<Rightarrow> HostEnv \<Rightarrow> LocalProvisioner \<Rightarrow> ProvisionRequest \<Rightarrow> ClusterLifecycle option \<Rightarrow> bool \<Rightarrow>
    (string \<times> string) list \<Rightarrow> (ProfileRunResult \<Rightarrow> string list) \<Rightarrow> (provision_error, Lease) result proc" where
  "acquireHooked w henv p req provider recreate extraEnv leaseEnv = do {
     a \<leftarrow> resolveAssets w (lp_Assets p) (rq_ProviderName req) (rq_Profile req);
     case a of Inl e \<Rightarrow> State_Monad.return (Inl e) | Inr assets \<Rightarrow> do {
       h \<leftarrow> provisionCluster req provider assets recreate;
       case h of Inl e \<Rightarrow> State_Monad.return (Inl e) | Inr handle \<Rightarrow> do {
         r \<leftarrow> runProfile w henv req provider assets extraEnv handle;
         State_Monad.return (case r of Inl e \<Rightarrow> Inl e
           | Inr res \<Rightarrow> Inr (leaseOf req provider handle (leaseEnv res)
               (composeRelease (Some (pn_Release res)) (releaseFunc req provider handle)))) } } }"

definition acquireArgocd :: "World \<Rightarrow> HostEnv \<Rightarrow> LocalProvisioner \<Rightarrow> ProvisionRequest \<Rightarrow> ClusterLifecycle option \<Rightarrow> bool \<Rightarrow> (provision_error, Lease) result proc" where
  "acquireArgocd w henv p req provider recreate = acquireHooked w henv p req provider recreate [] (\<lambda>_. [])"

definition localstackEnv :: "ProvisionRequest \<Rightarrow> (string \<times> string) list" where
  "localstackEnv req = (case rq_Scenario req of
     None \<Rightarrow> []
   | Some s \<Rightarrow> if cl_Services (ec_Cloud (s_Environment s)) = [] then []
       else [(''BENCH_LOCALSTACK_SERVICES'', join (cl_Services (ec_Cloud (s_Environment s))) '','')])"

definition acquireAWSLocalStack :: "World \<Rightarrow> HostEnv \<Rightarrow> LocalProvisioner \<Rightarrow> ProvisionRequest \<Rightarrow> ClusterLifecycle option \<Rightarrow> bool \<Rightarrow> (provision_error, Lease) result proc" where
  "acquireAWSLocalStack w henv p req provider recreate = acquireHooked w henv p req provider recreate (localstackEnv req) pn_ExtraEnv"

definition acquire :: "World \<Rightarrow> HostEnv \<Rightarrow> LocalProvisioner \<Rightarrow> ProvisionRequest \<Rightarrow> bool \<Rightarrow> (provision_error, Lease) result proc" where
  "acquire w henv p req recreate =
     (let provider = map_of (lp_Providers p) (rq_ProviderName req) in
      if rq_ExistingKubeconfig req \<noteq> [] \<and> rq_Profile req = ''default'' then State_Monad.return (Inr
        \<lparr>ls_Profile = rq_Profile req, ls_KubeconfigPath = rq_ExistingKubeconfig req, ls_Audit = None, ls_ClusterNetwork = [],
         ls_InClusterServer = [], ls_ExtraEnv = [], ls_Provider = provider, ls_Shared = rq_Shared req, ls_release = None\<rparr>)
      else if rq_ExistingKubeconfig req = [] \<and> Option.is_none provider then State_Monad.return (Inl (UnknownProvider (rq_ProviderName req)))
      else if rq_Profile req = ''default'' \<or> rq_Profile req = ''multi-node'' then acquireDefault w p req provider recreate
      else if rq_Profile req = ''argocd'' then acquireArgocd w henv p req provider recreate
      else if rq_Profile req = ''aws-localstack'' then acquireAWSLocalStack w henv p req provider recreate
      else State_Monad.return (Inl (UnsupportedExecProfile (rq_Profile req))))"

definition Acquire :: "World \<Rightarrow> HostEnv \<Rightarrow> LocalProvisioner \<Rightarrow> ProvisionRequest \<Rightarrow> (provision_error, Lease) result proc" where
  "Acquire w henv p req = acquire w henv p req False"

definition Recreate :: "World \<Rightarrow> HostEnv \<Rightarrow> LocalProvisioner \<Rightarrow> ProvisionRequest \<Rightarrow> (provision_error, Lease) result proc" where
  "Recreate w henv p req = acquire w henv p req True"

section \<open>Lease recovery of batch runs\<close>

datatype run_error = InfraError string | OtherError string

text \<open>
  The configuration names provider, cluster and kubeconfig of the batch. The runs take the lease and
  return a result and possibly an error; \<open>None\<close> for the provisioner is its absence.
\<close>

record BatchConfig =
  bc_EnvironmentProvider :: string
  bc_ClusterName :: string
  bc_ReuseCluster :: bool
  bc_KubeconfigPath :: string

definition batchRequest :: "BatchConfig \<Rightarrow> Scenario \<Rightarrow> ProvisionRequest" where
  "batchRequest cfg s =
     \<lparr>rq_Scenario = Some s, rq_Profile = ResolvedProfile s, rq_ProviderName = bc_EnvironmentProvider cfg,
      rq_ClusterName = bc_ClusterName cfg, rq_ReuseCluster = bc_ReuseCluster cfg, rq_ExistingKubeconfig = bc_KubeconfigPath cfg,
      rq_Shared = True\<rparr>"

definition runWithBatchLeaseRecovery ::
  "World \<Rightarrow> HostEnv \<Rightarrow> BatchConfig \<Rightarrow> Scenario \<Rightarrow> Lease option \<Rightarrow> LocalProvisioner option \<Rightarrow>
   (Lease option \<Rightarrow> ('r \<times> run_error option) proc) \<Rightarrow> ('r \<times> Lease option \<times> run_error option) proc" where
  "runWithBatchLeaseRecovery w henv cfg s lease provisioner runCase = do {
     (result, err) \<leftarrow> runCase lease;
     case (err, lease, provisioner) of
       (Some (InfraError msg), Some l, Some p) \<Rightarrow> do {
         newLease \<leftarrow> Recreate w henv p (batchRequest cfg s);
         case newLease of
           Inl _ \<Rightarrow> State_Monad.return (result, lease, err)
         | Inr fresh \<Rightarrow> do {
             _ \<leftarrow> Release w l;
             (result', err') \<leftarrow> runCase (Some fresh);
             State_Monad.return (result', Some fresh, err') } }
     | _ \<Rightarrow> State_Monad.return (result, lease, err) }"

section \<open>Acquiring and releasing\<close>

lemma quiet_profile_procs [emits_intros]:
  "only quiet (optionalScript w f)" "only quiet (doCleanup w sc e)" "only quiet (parseLeaseEnv w f)" "only quiet (runHook w sc e)"
  "only quiet (releaseProfile w pr)"
  unfolding optionalScript_def doCleanup_def parseLeaseEnv_def runHook_def releaseProfile_def
  by (auto intro!: emits_intros split: prod.split)

lemma quiet_resolveAssets [emits_intros]: "only quiet (resolveAssets w d pn pf)"
  unfolding resolveAssets_def Let_def by (auto intro!: emits_intros split: prod.split)

lemma quiet_abandon [emits_intros]: "only quiet (abandon w req e d x)"
  unfolding abandon_def by (auto intro!: emits_intros)

lemma quiet_Prepare [emits_intros]: "only quiet (Prepare w henv req)"
  unfolding Prepare_def by (auto intro!: emits_intros split: prod.split option.split)

text \<open>Releasing a profile a second time does nothing.\<close>

lemma releaseProfile_once:
  "do { pr' \<leftarrow> releaseProfile w pr; releaseProfile w pr' } = releaseProfile w pr"
  by (rule state_ext) (simp add: releaseProfile_def split: prod.split)

text \<open>
  What acquiring leaves: only the requested cluster is touched, and with a lease the cluster runs
  (if \<open>b\<close>) and the lease is good.
\<close>

definition leasing :: "string \<times> string \<Rightarrow> bool \<Rightarrow> ('a \<Rightarrow> bool) \<Rightarrow> (provision_error, 'a) result \<Rightarrow> Trace \<Rightarrow> bool" where
  "leasing c b good r d \<longleftrightarrow> touching c d \<and> (case r of Inl _ \<Rightarrow> True | Inr x \<Rightarrow> (b \<longrightarrow> runs_cluster c d) \<and> good x)"

lemma leasing_simps [simp]:
  "leasing c b good (Inl e) d \<longleftrightarrow> touching c d"
  "leasing c b good (Inr x) d \<longleftrightarrow> touching c d \<and> (b \<longrightarrow> runs_cluster c d) \<and> good x"
  by (simp_all add: leasing_def)

lemma leasing_after_quiet:
  fixes f :: "'a \<Rightarrow> (provision_error, 'c) result proc"
  assumes "only quiet m" and "\<And>x. emits (leasing c b good) (f x)"
  shows "emits (leasing c b good) (State_Monad.bind m f)"
proof (rule emits_bind [OF only_quietE [OF assms(1)]], rule emits_mono [OF assms(2)])
  fix a and r :: "(provision_error, 'c) result" and d d' :: Trace
  assume "list_all (\<lambda>e. quiet (fst e)) d" "leasing c b good r d'"
  then show "leasing c b good r (d @ d')" by (cases r) (auto simp: quiet_touching intro!: runs_cluster_intros(2))
qed

text \<open>A good lease of a request: audited, with a release that destroys exactly an owned cluster that is not kept.\<close>

definition good_lease :: "ProvisionRequest \<Rightarrow> ClusterLifecycle \<Rightarrow> Lease \<Rightarrow> bool" where
  "good_lease req lc l \<longleftrightarrow> ls_Audit l \<noteq> None \<and> (\<exists>p. ls_Provider l = Some p \<and> lc_Destroy p = lc_Destroy lc) \<and>
     (if rq_ReuseCluster req then \<forall>rf. ls_release l = Some rf \<longrightarrow> rf_Cluster rf = None
      else \<exists>rf h. ls_release l = Some rf \<and> rf_Cluster rf = Some h \<and> hd_ClusterName h = rq_ClusterName req)"

lemma good_leaseOf:
  assumes "ownsCluster req" and "hd_ClusterName h = rq_ClusterName req" and "hd_Audit h \<noteq> None"
  shows "good_lease req lc (leaseOf req (Some lc) h env (composeRelease pr (releaseFunc req (Some lc) h)))"
  using assms by (auto simp: good_lease_def leaseOf_def composeRelease_def releaseFunc_def)

lemma run_bindE:
  assumes "run_state (State_Monad.bind m f) tr = (r, tr')"
  obtains a t where "run_state m tr = (a, t)" "run_state (f a) t = (r, tr')"
  using assms by (auto split: prod.splits)

definition hook_error :: "provision_error \<Rightarrow> bool" where
  "hook_error e \<longleftrightarrow> e \<in> {WorkDirFailed, InstallFailed, HealthcheckFailed, LeaseEnvUnreadable}"

definition provider_error :: "provision_error \<Rightarrow> bool" where
  "provider_error e \<longleftrightarrow> (case e of ProviderFailed _ \<Rightarrow> True | _ \<Rightarrow> False)"

lemma resolveAssets_error:
  "yields (\<lambda>r. case r of Inl e \<Rightarrow> \<not> hook_error e \<and> \<not> provider_error e | Inr _ \<Rightarrow> True) (resolveAssets w d pn pf)"
  unfolding resolveAssets_def Let_def
  by (auto intro!: yields_bind yields_return simp: hook_error_def provider_error_def split: prod.split)

lemma Prepare_error: "yields (\<lambda>r. case r of Inl e \<Rightarrow> hook_error e | Inr _ \<Rightarrow> True) (Prepare w henv req)"
  unfolding Prepare_def abandon_def
  by (auto intro!: yields_bind yields_return simp: hook_error_def split: prod.split option.split)

lemma provisionCluster_error:
  "yields (\<lambda>r. case r of Inl e \<Rightarrow> provider_error e | Inr _ \<Rightarrow> True) (provisionCluster req (Some lc) assets rc)"
  unfolding provisionCluster_def
  by (auto intro!: yields_bind yields_return simp: provider_error_def split: sum.splits)

lemma yields_run: "yields R m \<Longrightarrow> run_state m tr = (r, tr') \<Longrightarrow> R r"
  unfolding yields_def by (metis fst_conv)

lemma runProfile_failed:
  assumes "run_state (runProfile w henv req (Some lc) assets env h) tr = (Inl e, tr')"
  shows "hook_error e \<and> (ownsCluster req \<and> \<not> rq_ReuseCluster req \<longrightarrow> (\<exists>t errs. run_state (lc_Destroy lc h) t = (errs, tr')))"
proof -
  obtain r t where r: "run_state (Prepare w henv \<lparr>pq_Assets = assets, pq_Profile = rq_Profile req, pq_Provider = rq_ProviderName req,
      pq_ClusterName = hd_ClusterName h, pq_Kubeconfig = hd_KubeconfigPath h, pq_ExtraEnv = env\<rparr>) tr = (r, t)"
    "run_state (case r of Inl e \<Rightarrow> do {
         _ \<leftarrow> (if ownsCluster req \<and> \<not> rq_ReuseCluster req then destroyCluster (Some lc) h else State_Monad.return []);
         State_Monad.return (Inl e) }
     | Inr res \<Rightarrow> State_Monad.return (Inr res)) t = (Inl e, tr')"
    using assms unfolding runProfile_def by (rule run_bindE)
  then obtain e' where e': "r = Inl e'" by (cases r) auto
  then have "hook_error e'" using yields_run [OF Prepare_error r(1)] by simp
  then show ?thesis using r(2) e' by (auto simp: destroyCluster_def split: prod.splits if_splits)
qed

context lifecycle
begin

lemma destroyCluster_touches: "only (touches (tool, hd_ClusterName h)) (destroyCluster (Some lc) h)"
  unfolding only_def destroyCluster_def option.case by (rule emits_mono [OF destroy]) (simp add: ending_def touching_def)

lemma provision_leases:
  assumes "ownsCluster req"
  shows "emits (leasing (tool, rq_ClusterName req) (\<not> reuse) (\<lambda>h. hd_ClusterName h = rq_ClusterName req \<and> hd_Audit h \<noteq> None))
    (provisionCluster req (Some lc) assets rc)"
proof -
  let ?m = "if rc then lc_Recreate lc (rq_ClusterName req) (clusterSpec req assets) else lc_Create lc (rq_ClusterName req) (clusterSpec req assets)"
  have "emits (\<lambda>r d. starting (tool, rq_ClusterName req) (\<not> reuse) r d \<and> handle_for (rq_ClusterName req) (clusterSpec req assets) r) ?m"
    using create recreate create_handle recreate_handle by (simp add: emits_def yields_def)
  then show ?thesis
    unfolding provisionCluster_def using assms
    by (auto simp: starting_def handle_for_def clusterSpec_def intro!: emits_bind emits_return split: sum.splits)
qed

lemma acquireDefault_leases:
  assumes "ownsCluster req"
  shows "emits (leasing (tool, rq_ClusterName req) (\<not> reuse) (good_lease req lc)) (acquireDefault w p req (Some lc) rc)"
  unfolding acquireDefault_def
proof (rule leasing_after_quiet [OF quiet_resolveAssets])
  fix a :: "(provision_error, ProfileAssets) result"
  have "emits (leasing (tool, rq_ClusterName req) (\<not> reuse) (good_lease req lc)) (do {
      h \<leftarrow> provisionCluster req (Some lc) assets rc;
      State_Monad.return (case h of Inl e \<Rightarrow> Inl e
        | Inr handle \<Rightarrow> Inr (leaseOf req (Some lc) handle [] (composeRelease None (releaseFunc req (Some lc) handle)))) })" for assets
    by (rule emits_bind [OF provision_leases [OF assms]], rule emits_return)
      (auto simp: leasing_def good_leaseOf [OF assms] split: sum.splits)
  then show "emits (leasing (tool, rq_ClusterName req) (\<not> reuse) (good_lease req lc)) (case a of Inl e \<Rightarrow> State_Monad.return (Inl e)
    | Inr assets \<Rightarrow> do {
      h \<leftarrow> provisionCluster req (Some lc) assets rc;
      State_Monad.return (case h of Inl e \<Rightarrow> Inl e
        | Inr handle \<Rightarrow> Inr (leaseOf req (Some lc) handle [] (composeRelease None (releaseFunc req (Some lc) handle)))) })"
    by (cases a) (simp_all add: emits_return)
qed

text \<open>The hooks leave a running cluster running if they succeed, and touch no other cluster.\<close>

lemma runProfile_keeps:
  "emits (\<lambda>r d. touching (tool, hd_ClusterName h) d \<and> (\<not> isl r \<longrightarrow> list_all (\<lambda>e. quiet (fst e)) d))
     (runProfile w henv req (Some lc) assets env h)"
  unfolding runProfile_def
proof (rule emits_bind [OF only_quietE [OF quiet_Prepare]])
  fix r :: "(provision_error, ProfileRunResult) result" and d :: Trace
  assume d: "list_all (\<lambda>e. quiet (fst e)) d"
  have "emits (\<lambda>r d'. touching (tool, hd_ClusterName h) (d @ d') \<and> (\<not> isl r \<longrightarrow> list_all (\<lambda>e. quiet (fst e)) (d @ d')))
    (do { _ \<leftarrow> (if ownsCluster req \<and> \<not> rq_ReuseCluster req then destroyCluster (Some lc) h else State_Monad.return []);
       State_Monad.return (Inl e :: (provision_error, ProfileRunResult) result) })" for e
  proof (rule emits_bind [where P = "\<lambda>_ d'. touching (tool, hd_ClusterName h) d'"])
    show "emits (\<lambda>_ d'. touching (tool, hd_ClusterName h) d')
      (if ownsCluster req \<and> \<not> rq_ReuseCluster req then destroyCluster (Some lc) h else State_Monad.return [])"
      using destroyCluster_touches by (simp add: emits_return only_def touching_def)
  qed (rule emits_return, simp add: quiet_touching [OF d])
  then show "emits (\<lambda>r d'. touching (tool, hd_ClusterName h) (d @ d') \<and> (\<not> isl r \<longrightarrow> list_all (\<lambda>e. quiet (fst e)) (d @ d')))
    (case r of Inl e \<Rightarrow> do {
         _ \<leftarrow> (if ownsCluster req \<and> \<not> rq_ReuseCluster req then destroyCluster (Some lc) h else State_Monad.return []);
         State_Monad.return (Inl e) }
     | Inr res \<Rightarrow> State_Monad.return (Inr res))"
    using d by (cases r) (simp_all add: emits_return quiet_touching)
qed

lemma acquireHooked_leases:
  assumes "ownsCluster req"
  shows "emits (leasing (tool, rq_ClusterName req) (\<not> reuse) (good_lease req lc)) (acquireHooked w henv p req (Some lc) rc env le)"
  unfolding acquireHooked_def
proof (rule leasing_after_quiet [OF quiet_resolveAssets])
  let ?L = "leasing (tool, rq_ClusterName req) (\<not> reuse) (good_lease req lc)"
  let ?hooks = "\<lambda>assets handle. do {
     r \<leftarrow> runProfile w henv req (Some lc) assets env handle;
     State_Monad.return (case r of Inl e \<Rightarrow> Inl e
       | Inr res \<Rightarrow> Inr (leaseOf req (Some lc) handle (le res) (composeRelease (Some (pn_Release res)) (releaseFunc req (Some lc) handle)))) }"
  have hooks: "emits (\<lambda>r d'. ?L r (d @ d')) (?hooks assets handle)"
    if "leasing (tool, rq_ClusterName req) (\<not> reuse) (\<lambda>h. hd_ClusterName h = rq_ClusterName req \<and> hd_Audit h \<noteq> None) (Inr handle) d"
    for assets handle d
  proof (rule emits_bind [OF runProfile_keeps], rule emits_return)
    fix r :: "(provision_error, ProfileRunResult) result" and d' :: Trace
    assume k: "touching (tool, hd_ClusterName handle) d' \<and> (\<not> isl r \<longrightarrow> list_all (\<lambda>e. quiet (fst e)) d')"
    show "?L (case r of Inl e \<Rightarrow> Inl e | Inr res \<Rightarrow> Inr (leaseOf req (Some lc) handle (le res)
        (composeRelease (Some (pn_Release res)) (releaseFunc req (Some lc) handle)))) (d @ d' @ [])"
      using that k good_leaseOf [OF assms] by (cases r) (auto intro: runs_cluster_intros(3))
  qed
  have "emits ?L (do { h \<leftarrow> provisionCluster req (Some lc) assets rc;
      case h of Inl e \<Rightarrow> State_Monad.return (Inl e) | Inr handle \<Rightarrow> ?hooks assets handle })" for assets
    by (rule emits_bind [OF provision_leases [OF assms]]) (use hooks in \<open>auto simp: emits_return split: sum.split\<close>)
  then show "emits ?L (case a of Inl e \<Rightarrow> State_Monad.return (Inl e) | Inr assets \<Rightarrow> do {
      h \<leftarrow> provisionCluster req (Some lc) assets rc;
      case h of Inl e \<Rightarrow> State_Monad.return (Inl e) | Inr handle \<Rightarrow> ?hooks assets handle })" for a
    by (cases a) (simp_all add: emits_return)
qed

lemma acquire_leases:
  assumes "ownsCluster req" and "map_of (lp_Providers p) (rq_ProviderName req) = Some lc"
  shows "emits (leasing (tool, rq_ClusterName req) (\<not> reuse) (good_lease req lc)) (acquire w henv p req rc)"
  using assms(1) acquireDefault_leases [OF assms(1)] acquireHooked_leases [OF assms(1)]
  by (simp add: acquire_def Let_def assms(2) acquireArgocd_def acquireAWSLocalStack_def ownsCluster_def emits_return)

text \<open>If the hooks of an owned cluster fail, the last thing acquiring does is to destroy the cluster it created.\<close>

lemma acquireHooked_failed:
  assumes "ownsCluster req" and "run_state (acquireHooked w henv p req (Some lc) rc env le) tr = (Inl e, tr')"
  shows "hook_error e \<and> (\<not> rq_ReuseCluster req \<longrightarrow>
      (\<exists>h t errs. hd_ClusterName h = rq_ClusterName req \<and> run_state (lc_Destroy lc h) t = (errs, tr'))) \<or>
    provider_error e \<or> (\<exists>a. run_state (resolveAssets w (lp_Assets p) (rq_ProviderName req) (rq_Profile req)) tr = (a, tr'))"
proof -
  let ?hooks = "\<lambda>assets handle. do {
     r \<leftarrow> runProfile w henv req (Some lc) assets env handle;
     State_Monad.return (case r of Inl e \<Rightarrow> Inl e
       | Inr res \<Rightarrow> Inr (leaseOf req (Some lc) handle (le res) (composeRelease (Some (pn_Release res)) (releaseFunc req (Some lc) handle)))) }"
  obtain a t where a: "run_state (resolveAssets w (lp_Assets p) (rq_ProviderName req) (rq_Profile req)) tr = (a, t)"
    "run_state (case a of Inl e \<Rightarrow> State_Monad.return (Inl e) | Inr assets \<Rightarrow> do {
       h \<leftarrow> provisionCluster req (Some lc) assets rc;
       case h of Inl e \<Rightarrow> State_Monad.return (Inl e) | Inr handle \<Rightarrow> ?hooks assets handle }) t = (Inl e, tr')"
    using assms(2) unfolding acquireHooked_def by (rule run_bindE)
  show ?thesis
  proof (cases a)
    case (Inl x)
    then show ?thesis using a by auto
  next
    case (Inr assets)
    obtain h t' where h: "run_state (provisionCluster req (Some lc) assets rc) t = (h, t')"
      "run_state (case h of Inl e \<Rightarrow> State_Monad.return (Inl e) | Inr handle \<Rightarrow> ?hooks assets handle) t' = (Inl e, tr')"
      using a(2) unfolding Inr sum.case by (rule run_bindE)
    show ?thesis
    proof (cases h)
      case (Inl x)
      then show ?thesis using h(2) yields_run [OF provisionCluster_error h(1)] by simp
    next
      case (Inr handle)
      have n: "hd_ClusterName handle = rq_ClusterName req"
        by (rule emits_run [OF provision_leases [OF assms(1)] h(1)]) (simp add: Inr)
      have "run_state (runProfile w henv req (Some lc) assets env handle) t' = (Inl e, tr')"
        using h(2) unfolding Inr by (auto split: prod.splits sum.splits)
      from runProfile_failed [OF this] show ?thesis using n assms(1) by blast
    qed
  qed
qed

lemma release_ends:
  assumes "good_lease req lc l" and "\<not> rq_ReuseCluster req"
  shows "emits (\<lambda>r. ending (tool, rq_ClusterName req) (fst r)) (Release w l)"
proof -
  obtain p rf h where l: "ls_Provider l = Some p" "lc_Destroy p = lc_Destroy lc" "ls_release l = Some rf" "rf_Cluster rf = Some h"
    "hd_ClusterName h = rq_ClusterName req"
    using assms by (auto simp: good_lease_def)
  let ?f = "\<lambda>pr. do { errs \<leftarrow> lc_Destroy lc h; State_Monad.return (errs, l\<lparr>ls_release := Some (rf\<lparr>rf_Profile := pr\<rparr>)\<rparr>) }"
  have q: "only quiet (case rf_Profile rf of None \<Rightarrow> State_Monad.return None
      | Some pr \<Rightarrow> do { pr' \<leftarrow> releaseProfile w pr; State_Monad.return (Some pr') })"
    by (auto intro!: emits_intros split: option.split)
  have d: "emits (\<lambda>r. ending (tool, rq_ClusterName req) (fst r)) (?f pr)" for pr
    by (rule emits_bind [OF destroy [of h]], rule emits_return) (simp add: l(5))
  have "emits (\<lambda>r. ending (tool, rq_ClusterName req) (fst r))
    (State_Monad.bind (case rf_Profile rf of None \<Rightarrow> State_Monad.return None
      | Some pr \<Rightarrow> do { pr' \<leftarrow> releaseProfile w pr; State_Monad.return (Some pr') }) ?f)"
    by (rule emits_bind [OF only_quietE [OF q]], rule emits_mono [OF d]) (auto simp: ending_def quiet_touching)
  then show ?thesis unfolding Release_def by (simp add: l(1-4) destroyCluster_def)
qed

text \<open>Acquiring and releasing a cluster that is not kept leaves every cluster as it was, but for the requested one, which is gone.\<close>

lemma acquire_release:
  assumes "ownsCluster req" and "\<not> rq_ReuseCluster req" and "map_of (lp_Providers p) (rq_ProviderName req) = Some lc"
    and "run_state (acquire w henv p req rc) tr = (Inr l, tr1)" and "run_state (Release w l) tr1 = (([], l'), tr2)"
  shows "ls_Audit l \<noteq> None \<and> (\<not> reuse \<longrightarrow> (tool, rq_ClusterName req) \<in> clusters S tr1) \<and>
    clusters S tr2 = clusters S tr - {(tool, rq_ClusterName req)}"
proof -
  let ?c = "(tool, rq_ClusterName req)"
  obtain d where d: "tr1 = tr @ d" "touching ?c d" "\<not> reuse \<longrightarrow> runs_cluster ?c d" "good_lease req lc l"
    by (rule emits_run [OF acquire_leases [OF assms(1,3)] assms(4)]) simp
  then have a: "ls_Audit l \<noteq> None" "\<not> reuse \<longrightarrow> ?c \<in> clusters S tr1" by (simp_all add: good_lease_def runs_cluster_def)
  obtain d' where d': "tr2 = tr1 @ d'" "touching ?c d'" "\<forall>S. ?c \<notin> clusters S d'"
    by (rule emits_run [OF release_ends [OF d(4) assms(2)] assms(5)]) (simp add: ending_def)
  have "c \<in> clusters S tr2 \<longleftrightarrow> c \<in> clusters S tr - {?c}" for c
    using d(1,2) d' by (cases "c = ?c") (auto simp: touching_def clusters_touches)
  then have "clusters S tr2 = clusters S tr - {?c}" by (rule set_eqI)
  with a show ?thesis by simp
qed

lemma acquireDefault_failed:
  assumes "run_state (acquireDefault w p req (Some lc) rc) tr = (Inl e, tr')"
  shows "provider_error e \<or> (\<exists>a. run_state (resolveAssets w (lp_Assets p) (rq_ProviderName req) (rq_Profile req)) tr = (a, tr'))"
proof -
  obtain a t where a: "run_state (resolveAssets w (lp_Assets p) (rq_ProviderName req) (rq_Profile req)) tr = (a, t)"
    "run_state (case a of Inl e \<Rightarrow> State_Monad.return (Inl e) | Inr assets \<Rightarrow> do {
       h \<leftarrow> provisionCluster req (Some lc) assets rc;
       State_Monad.return (case h of Inl e \<Rightarrow> Inl e
         | Inr handle \<Rightarrow> Inr (leaseOf req (Some lc) handle [] (composeRelease None (releaseFunc req (Some lc) handle)))) }) t = (Inl e, tr')"
    using assms unfolding acquireDefault_def by (rule run_bindE)
  show ?thesis
  proof (cases a)
    case (Inr assets)
    then have "run_state (provisionCluster req (Some lc) assets rc) t = (Inl e, tr')"
      using a(2) by (auto split: prod.splits sum.splits)
    then show ?thesis using yields_run [OF provisionCluster_error] by fastforce
  qed (use a in auto)
qed

lemma acquire_failed:
  assumes "ownsCluster req" and "\<not> rq_ReuseCluster req" and "map_of (lp_Providers p) (rq_ProviderName req) = Some lc"
    and "run_state (acquire w henv p req rc) tr = (Inl e, tr')"
  shows "(provider_error e \<or> clusters S tr' = clusters S tr \<or>
      (\<exists>h t errs. hd_ClusterName h = rq_ClusterName req \<and> run_state (lc_Destroy lc h) t = (errs, tr') \<and>
         (errs = [] \<longrightarrow> (tool, rq_ClusterName req) \<notin> clusters S tr'))) \<and>
    (\<forall>c. c \<noteq> (tool, rq_ClusterName req) \<longrightarrow> (c \<in> clusters S tr' \<longleftrightarrow> c \<in> clusters S tr))"
proof -
  have quiet: "clusters S tr' = clusters S tr" if "run_state (resolveAssets w (lp_Assets p) (rq_ProviderName req) (rq_Profile req)) tr = (a, tr')" for a
    by (rule emits_run [OF only_quietE [OF quiet_resolveAssets] that]) (simp add: clusters_quiet)
  have gone: "\<exists>h t errs. hd_ClusterName h = rq_ClusterName req \<and> run_state (lc_Destroy lc h) t = (errs, tr') \<and>
      (errs = [] \<longrightarrow> (tool, rq_ClusterName req) \<notin> clusters S tr')"
    if "\<exists>h t errs. hd_ClusterName h = rq_ClusterName req \<and> run_state (lc_Destroy lc h) t = (errs, tr')"
    using that destroy_gone by metis
  obtain d where "tr' = tr @ d" "touching (tool, rq_ClusterName req) d"
    by (rule emits_run [OF acquire_leases [OF assms(1,3)] assms(4)]) simp
  then have others: "\<forall>c. c \<noteq> (tool, rq_ClusterName req) \<longrightarrow> (c \<in> clusters S tr' \<longleftrightarrow> c \<in> clusters S tr)"
    by (auto simp: touching_def clusters_touches)
  consider "run_state (acquireDefault w p req (Some lc) rc) tr = (Inl e, tr')"
    | env le where "run_state (acquireHooked w henv p req (Some lc) rc env le) tr = (Inl e, tr')" | "tr' = tr"
    using assms(1,3,4) by (auto simp: acquire_def Let_def acquireArgocd_def acquireAWSLocalStack_def ownsCluster_def split: if_splits)
  then show ?thesis
  proof cases
    case 1
    then show ?thesis using acquireDefault_failed quiet others by blast
  next
    case 2
    from acquireHooked_failed [OF assms(1) this] show ?thesis using quiet others gone assms(2) by blast
  qed (use others in simp)
qed

end

text \<open>
  C32: an environment is taken and given back completely. Let the provisioner acquire a cluster
  it owns and is not told to keep, by kind or k3d, freshly or by recreation. The lease has audit access and
  its cluster runs; if its release reports no error, exactly that cluster is gone and every other
  cluster is as it was before, whatever commands, files and hooks do on the way.
\<close>

theorem lease_leaves_no_cluster:
  assumes "(tool, lc) \<in> {(''kind'', kindLifecycle w env y kp), (''k3d'', k3dLifecycle w env rw kd)}"
    and "\<not> kp_ReuseExisting kp" and "\<not> k3_ReuseExisting kd"
    and "ownsCluster req" and "\<not> rq_ReuseCluster req" and "map_of (lp_Providers p) (rq_ProviderName req) = Some lc"
    and "run_state (acquire w henv p req recreate) tr = (Inr l, tr1)" and "run_state (Release w l) tr1 = (([], l'), tr2)"
  shows "ls_Audit l \<noteq> None \<and> (tool, rq_ClusterName req) \<in> clusters S tr1 \<and>
    clusters S tr2 = clusters S tr - {(tool, rq_ClusterName req)}"
proof (cases "tool = ''kind''")
  case True
  then have "lc = kindLifecycle w env y kp" using assms(1) by simp
  from kind.acquire_release [OF assms(4,5) assms(6) [unfolded this] assms(7,8)] show ?thesis
    using True assms(2) by simp
next
  case False
  then have "tool = ''k3d''" "lc = k3dLifecycle w env rw kd" using assms(1) by simp_all
  from k3d.acquire_release [OF assms(4,5) assms(6) [unfolded this(2)] assms(7,8)] this(1) show ?thesis
    using assms(3) by simp
qed


section \<open>Witnesses and gaps\<close>

definition demo_provisioner :: "World \<Rightarrow> LocalProvisioner" where
  "demo_provisioner w = \<lparr>lp_Providers = [(''kind'', kindLifecycle w demo_host demo_yaml demo_kind)], lp_Assets = ''/repo''\<rparr>"

definition demo_provision :: "string \<Rightarrow> bool \<Rightarrow> ProvisionRequest" where
  "demo_provision profile keep = \<lparr>rq_Scenario = None, rq_Profile = profile, rq_ProviderName = ''kind'', rq_ClusterName = ''c'',
     rq_ReuseCluster = keep, rq_ExistingKubeconfig = [], rq_Shared = False\<rparr>"

definition demo_k3d :: K3dProvider where
  "demo_k3d = \<lparr>k3_ReuseExisting = False, k3_ContainerName = [], k3_NetworkMode = NetUnset\<rparr>"

definition fine :: World where
  "fine = failing_world (\<lambda>op. False)"

definition bad_install :: World where
  "bad_install = failing_world (\<lambda>op. case op of Hook f _ \<Rightarrow> f = ''/repo/profiles/argocd/install.sh'' | _ \<Rightarrow> False)"

definition demo_acquired :: "(provision_error, Lease) result \<times> Trace" where
  "demo_acquired = run_state (Acquire fine demo_host (demo_provisioner fine) (demo_provision ''argocd'' False)) []"

definition demo_released :: "(env_error list \<times> Lease) \<times> Trace" where
  "demo_released = run_state (Release fine (projr (fst demo_acquired))) (snd demo_acquired)"

lemma demo_acquired_lease:
  "run_state (acquire fine demo_host (demo_provisioner fine) (demo_provision ''argocd'' False) False) [] = (Inr (projr (fst demo_acquired)), snd demo_acquired)"
proof -
  have "\<not> isl (fst demo_acquired)" by code_simp
  then show ?thesis unfolding demo_acquired_def Acquire_def by (metis prod.collapse sum.collapse(2))
qed

theorem lease_leaves_no_cluster_witness:
  "(''kind'', ''c'') \<in> clusters {(''kind'', ''other'')} (snd demo_acquired) \<and>
   clusters {(''kind'', ''other'')} (snd demo_released) = {(''kind'', ''other'')}"
proof -
  have "fst (fst demo_released) = []" by code_simp
  then have r: "run_state (Release fine (projr (fst demo_acquired))) (snd demo_acquired) = (([], snd (fst demo_released)), snd demo_released)"
    unfolding demo_released_def by (metis prod.collapse)
  have p: "map_of (lp_Providers (demo_provisioner fine)) (rq_ProviderName (demo_provision ''argocd'' False)) =
    Some (kindLifecycle fine demo_host demo_yaml demo_kind)"
    by (simp add: demo_provisioner_def demo_provision_def)
  have "ls_Audit (projr (fst demo_acquired)) \<noteq> None \<and>
    (''kind'', rq_ClusterName (demo_provision ''argocd'' False)) \<in> clusters {(''kind'', ''other'')} (snd demo_acquired) \<and>
    clusters {(''kind'', ''other'')} (snd demo_released) =
      clusters {(''kind'', ''other'')} [] - {(''kind'', rq_ClusterName (demo_provision ''argocd'' False))}"
    by (rule lease_leaves_no_cluster [where kd = demo_k3d and rw = "\<lparr>kc_Parse = \<lambda>_. None, kc_Marshal = \<lambda>_. None, kc_URL = \<lambda>_. None\<rparr>" and kp = demo_kind,
          OF _ _ _ _ _ p demo_acquired_lease r])
      (simp_all add: demo_kind_def demo_k3d_def ownsCluster_def demo_provision_def)
  then show ?thesis by (simp add: demo_provision_def insert_Diff_if)
qed


text \<open>
  Lease recovery of a batch: the new lease is prepared under the name of the old one before the old one is
  released. The release of the old lease then runs the cleanup hook, which stops the service
  container named after the cluster, between the installation of the new profile and the repeated run.
\<close>

definition old_lease :: Lease where
  "old_lease = leaseOf (demo_provision ''aws-localstack'' True) None
     \<lparr>hd_ClusterName = ''c'', hd_KubeconfigPath = [], hd_Audit = None, hd_ClusterNetwork = [], hd_InClusterServer = []\<rparr> []
     (composeRelease (Some \<lparr>pr_WorkDir = ''/old'', pr_CleanupScript = ''/repo/profiles/aws-localstack/cleanup.sh'',
        pr_Env = [''BENCH_CLUSTER_NAME=c'', ''BENCH_WORK_DIR=/old''], pr_Done = False\<rparr>) None)"

definition localstack_scenario :: Scenario where
  "localstack_scenario = (demo_scenario [] [])\<lparr>s_Environment := (s_Environment (demo_scenario [] []))\<lparr>ec_Profile := ''aws-localstack''\<rparr>\<rparr>"

definition run_once_failing :: "Lease option \<Rightarrow> (unit \<times> run_error option) proc" where
  "run_once_failing l = do {
     _ \<leftarrow> attempt fine (Cmd [''agent'']);
     State_Monad.return ((), if map_option ls_ExtraEnv l = Some [] then Some (InfraError ''gone'') else None) }"

lemma recovery_cleans_after_install:
  "filter (\<lambda>op. case op of Hook _ _ \<Rightarrow> True | Cmd a \<Rightarrow> a = [''agent''] | _ \<Rightarrow> False)
     (map fst (snd (run_state (runWithBatchLeaseRecovery fine demo_host
        \<lparr>bc_EnvironmentProvider = ''kind'', bc_ClusterName = ''c'', bc_ReuseCluster = True, bc_KubeconfigPath = []\<rparr>
        localstack_scenario (Some old_lease) (Some (demo_provisioner fine)) run_once_failing) []))) =
   (let new_env = [''KUBECONFIG=/tmp/bench-cli-c-kubeconfig'', ''BENCH_PROFILE=aws-localstack'', ''BENCH_PROVIDER=kind'',
          ''BENCH_CLUSTER_NAME=c'', ''BENCH_WORK_DIR=x'', ''BENCH_ASSETS_DIR=/repo/profiles/aws-localstack'', ''PATH=/bin''] in
    [Cmd [''agent''],
     Hook ''/repo/profiles/aws-localstack/install.sh'' new_env,
     Hook ''/repo/profiles/aws-localstack/healthcheck.sh'' new_env,
     Hook ''/repo/profiles/aws-localstack/cleanup.sh'' [''BENCH_CLUSTER_NAME=c'', ''BENCH_WORK_DIR=/old''],
     Cmd [''agent'']])"
  by code_simp

end
