(* ===== verification/Case_Isolation.thy ===== *)
theory Case_Isolation
  imports Agent_Identity Provisioner
begin

text \<open>
  The cluster before a case: \<^verbatim>\<open>pkg/environment/kubectl_ops.go\<close> has the operations the providers share (health,
  namespaces, the canary pod), \<^verbatim>\<open>pkg/harness/run_environment.go\<close> prepares the cluster and the variables of a run
  with them, and \<^verbatim>\<open>pkg/harness/case_isolation.go\<close> resets the declared namespaces of a case on the shared cluster
  of a suite. The locale \<open>cluster_ops\<close> states what the harness relies on in a provider: which namespaces an operation may
  delete, and what a passed canary means.
\<close>

section \<open>Node health\<close>

datatype ops_error =
    NodesUnreadable | NodesUnparseable | NodePressure string string | NodeNotReady string string | StuckPods "string list"
  | TerminationInterrupted string | StillTerminating string | NamespaceRefused string | AccountNotReady string
  | ImagesUnlisted | NoPauseImage | CanaryRefused | CanaryFailed | OpsUnavailable

text \<open>
  Decoding into nested structs: a missing or null object leaves the zero value, another type is an error.
\<close>

definition subobject :: "string \<Rightarrow> (string \<times> json) list \<Rightarrow> (string \<times> json) list option" where
  "subobject key kvs = (case field_raw key None kvs of None \<Rightarrow> Some [] | Some JNull \<Rightarrow> Some [] | Some (JObj ob) \<Rightarrow> Some ob | _ \<Rightarrow> None)"

definition elements :: "(json \<Rightarrow> 'a option) \<Rightarrow> string \<Rightarrow> (string \<times> json) list \<Rightarrow> 'a list option" where
  "elements f key kvs = (case field_raw key None kvs of
     None \<Rightarrow> Some [] | Some JNull \<Rightarrow> Some [] | Some (JArr xs) \<Rightarrow> those (map f xs) | _ \<Rightarrow> None)"

definition structure_of :: "'a \<Rightarrow> ((string \<times> json) list \<Rightarrow> 'a option) \<Rightarrow> json \<Rightarrow> 'a option" where
  "structure_of zero f j = (case j of JNull \<Rightarrow> Some zero | JObj kvs \<Rightarrow> f kvs | _ \<Rightarrow> None)"

definition decodeCondition :: "json \<Rightarrow> (string \<times> string) option" where
  "decodeCondition = structure_of ([], []) (\<lambda>kvs. case (field_string ''type'' [] kvs, field_string ''status'' [] kvs) of
     (Some t, Some s) \<Rightarrow> Some (t, s) | _ \<Rightarrow> None)"

definition decodeNode :: "json \<Rightarrow> (string \<times> (string \<times> string) list) option" where
  "decodeNode = structure_of ([], []) (\<lambda>kvs. case (subobject ''metadata'' kvs, subobject ''status'' kvs) of
     (Some m, Some st) \<Rightarrow> (case (field_string ''name'' [] m, elements decodeCondition ''conditions'' st) of
        (Some n, Some cs) \<Rightarrow> Some (n, cs) | _ \<Rightarrow> None)
   | _ \<Rightarrow> None)"

definition decodeNodes :: "json \<Rightarrow> (string \<times> (string \<times> string) list) list option" where
  "decodeNodes = structure_of [] (elements decodeNode ''items'')"

definition pressureConditions :: "string list" where
  "pressureConditions = [''MemoryPressure'', ''DiskPressure'', ''PIDPressure'']"

definition conditionFault :: "string \<Rightarrow> string \<times> string \<Rightarrow> ops_error option" where
  "conditionFault node c = (case c of (t, s) \<Rightarrow>
     if t \<in> set pressureConditions \<and> s = ''True'' then Some (NodePressure node t)
     else if t = ''Ready'' \<and> s \<noteq> ''True'' then Some (NodeNotReady node s)
     else None)"

definition nodesFault :: "(string \<times> (string \<times> string) list) list \<Rightarrow> ops_error option" where
  "nodesFault nodes = first_error (\<lambda>(n, cs). first_error (conditionFault n) cs) nodes"

definition stuckPods :: "string \<Rightarrow> string list" where
  "stuckPods out = filter (\<lambda>pod. case cut_at (CHR ''/'') pod of (ns, _, found) \<Rightarrow>
     found \<and> ns \<notin> {''kube-system'', ''local-path-storage'', ''kube-node-lease''}) (Go_Prelude.fields out)"

definition HealthCheck :: "World \<Rightarrow> (string \<Rightarrow> json option) \<Rightarrow> string \<Rightarrow> ops_error option proc" where
  "HealthCheck w decode kubeconfig = do {
     (ok, out) \<leftarrow> kctl w kubeconfig [''get'', ''nodes'', ''-o'', ''json''];
     if \<not> ok then State_Monad.return (Some NodesUnreadable)
     else (case Option.bind (decode out) decodeNodes of
         None \<Rightarrow> State_Monad.return (Some NodesUnparseable)
       | Some nodes \<Rightarrow> (case nodesFault nodes of
             Some e \<Rightarrow> State_Monad.return (Some e)
           | None \<Rightarrow> do {
               (ok, out) \<leftarrow> kctl w kubeconfig [''get'', ''pods'', ''--all-namespaces'', ''--field-selector=status.phase=Pending'',
                 ''-o'', ''jsonpath={range .items[*]}{.metadata.namespace}/{.metadata.name} {end}''];
               State_Monad.return (if ok \<and> stuckPods out \<noteq> [] then Some (StuckPods (stuckPods out)) else None) })) }"

section \<open>Namespaces\<close>

definition getNamespace :: "string \<Rightarrow> string list" where
  "getNamespace ns = [''get'', ''namespace'', ns, ''--ignore-not-found'', ''-o'', ''name'']"

text \<open>\<open>cancelled\<close> says whether the context is done after a trace.\<close>

fun awaitGone :: "nat \<Rightarrow> World \<Rightarrow> (Trace \<Rightarrow> bool) \<Rightarrow> string \<Rightarrow> string \<Rightarrow> ops_error option proc" where
  "awaitGone 0 w cancelled kubeconfig ns = State_Monad.return (Some (StillTerminating ns))"
| "awaitGone (Suc i) w cancelled kubeconfig ns = do {
     stop \<leftarrow> observe cancelled;
     if stop then State_Monad.return (Some (TerminationInterrupted ns))
     else do {
       (_, out) \<leftarrow> kctl w kubeconfig (getNamespace ns);
       if trim_space out = [] then State_Monad.return None else awaitGone i w cancelled kubeconfig ns } }"

definition ForceDeleteNamespace :: "World \<Rightarrow> (Trace \<Rightarrow> bool) \<Rightarrow> string \<Rightarrow> string \<Rightarrow> ops_error option proc" where
  "ForceDeleteNamespace w cancelled kubeconfig ns = do {
     (ok, out) \<leftarrow> kctl w kubeconfig (getNamespace ns);
     if \<not> ok \<or> trim_space out = [] then State_Monad.return None
     else do {
       _ \<leftarrow> kctl w kubeconfig [''delete'', ''namespace'', ns, ''--force'', ''--grace-period=0'', ''--timeout=30s''];
       awaitGone 30 w cancelled kubeconfig ns } }"

definition CreateNamespace :: "World \<Rightarrow> string \<Rightarrow> string \<Rightarrow> ops_error option proc" where
  "CreateNamespace w kubeconfig ns = do {
     (ok, out) \<leftarrow> kctl w kubeconfig [''create'', ''namespace'', ns];
     if \<not> ok \<and> \<not> str_contains out ''already exists'' then State_Monad.return (Some (NamespaceRefused ns))
     else do {
       (ok, _) \<leftarrow> kctl w kubeconfig [''wait'', ''--for=create'', ''serviceaccount/default'', ''-n'', ns, ''--timeout=30s''];
       State_Monad.return (if ok then None else Some (AccountNotReady ns)) } }"

section \<open>The canary\<close>

definition preloadedPauseImage :: "string \<Rightarrow> string" where
  "preloadedPauseImage images = (case find (\<lambda>img. let lower = to_lower img in
       str_contains lower ''/pause:'' \<or> str_contains lower ''/pause@'' \<or> str_contains lower ''mirrored-pause:'' \<or> has_prefix lower ''pause:'')
     (Go_Prelude.fields images) of None \<Rightarrow> [] | Some img \<Rightarrow> img)"

definition deleteCanary :: "World \<Rightarrow> string \<Rightarrow> string \<Rightarrow> unit proc" where
  "deleteCanary w kubeconfig ns = do {
     _ \<leftarrow> kctl w kubeconfig [''delete'', ''pod'', ''bench-canary'', ''-n'', ns, ''--ignore-not-found'', ''--timeout=10s''];
     State_Monad.return () }"

definition waitCanary :: "string \<Rightarrow> string list" where
  "waitCanary ns = [''wait'', ''--for=condition=Ready'', ''pod/bench-canary'', ''-n'', ns, ''--timeout=30s'']"

text \<open>The pod is started and waited for; a failed wait is described in the error.\<close>

definition startCanary :: "World \<Rightarrow> string \<Rightarrow> string \<Rightarrow> string \<Rightarrow> ops_error option proc" where
  "startCanary w kubeconfig ns img = do {
     (ok, _) \<leftarrow> kctl w kubeconfig [''run'', ''bench-canary'', ''-n'', ns, ''--image='' @ img, ''--restart=Never''];
     if \<not> ok then State_Monad.return (Some CanaryRefused)
     else do {
       (ok, _) \<leftarrow> kctl w kubeconfig (waitCanary ns);
       if ok then State_Monad.return None
       else do {
         _ \<leftarrow> kctl w kubeconfig [''describe'', ''pod'', ''bench-canary'', ''-n'', ns];
         State_Monad.return (Some CanaryFailed) } } }"

definition runCanary :: "World \<Rightarrow> string \<Rightarrow> string \<Rightarrow> string \<Rightarrow> ops_error option proc" where
  "runCanary w kubeconfig ns fallbackImage = do {
     _ \<leftarrow> deleteCanary w kubeconfig ns;
     (ok, out) \<leftarrow> kctl w kubeconfig [''get'', ''nodes'', ''-o'',
       ''jsonpath={range .items[*].status.images[*]}{range .names[*]}{@}{'' @ [CHR 0x22, CHR 0x5C] @ ''n'' @ [CHR 0x22] @ ''}{end}{end}''];
     if \<not> ok then State_Monad.return (Some ImagesUnlisted)
     else (let img = (if preloadedPauseImage out = [] then fallbackImage else preloadedPauseImage out) in
       if img = [] then State_Monad.return (Some NoPauseImage)
       else do {
         res \<leftarrow> startCanary w kubeconfig ns img;
         _ \<leftarrow> deleteCanary w kubeconfig ns;
         State_Monad.return res }) }"

section \<open>The providers\<close>

text \<open>The part of the interface \<^verbatim>\<open>ClusterLifecycle\<close> that the harness calls.\<close>

record ClusterOps =
  co_HealthCheck :: "string \<Rightarrow> ops_error option proc"
  co_ForceDeleteNamespace :: "string \<Rightarrow> string \<Rightarrow> ops_error option proc"
  co_CreateNamespace :: "string \<Rightarrow> string \<Rightarrow> ops_error option proc"
  co_RunCanary :: "string \<Rightarrow> string \<Rightarrow> ops_error option proc"

definition kubectlOps :: "World \<Rightarrow> (string \<Rightarrow> json option) \<Rightarrow> (Trace \<Rightarrow> bool) \<Rightarrow> string \<Rightarrow> ClusterOps" where
  "kubectlOps w decode cancelled fallbackImage =
     \<lparr>co_HealthCheck = HealthCheck w decode, co_ForceDeleteNamespace = ForceDeleteNamespace w cancelled,
      co_CreateNamespace = CreateNamespace w, co_RunCanary = (\<lambda>kubeconfig ns. runCanary w kubeconfig ns fallbackImage)\<rparr>"

definition kindOps :: "World \<Rightarrow> (string \<Rightarrow> json option) \<Rightarrow> (Trace \<Rightarrow> bool) \<Rightarrow> ClusterOps" where
  "kindOps w decode cancelled = kubectlOps w decode cancelled []"

definition k3dOps :: "World \<Rightarrow> (string \<Rightarrow> json option) \<Rightarrow> (Trace \<Rightarrow> bool) \<Rightarrow> ClusterOps" where
  "k3dOps w decode cancelled = kubectlOps w decode cancelled ''docker.io/rancher/mirrored-pause:3.6''"

definition failingOps :: ClusterOps where
  "failingOps = (let fail = State_Monad.return (Some OpsUnavailable) in
     \<lparr>co_HealthCheck = (\<lambda>_. fail), co_ForceDeleteNamespace = (\<lambda>_ _. fail), co_CreateNamespace = (\<lambda>_ _. fail), co_RunCanary = (\<lambda>_ _. fail)\<rparr>)"

section \<open>Case isolation\<close>

definition DefaultNamespace :: string where
  "DefaultNamespace = ''bench''"

text \<open>The fields of \<^verbatim>\<open>RunRequest\<close> and its configuration that the preparation reads.\<close>

record RunRequest =
  rr_ResetNamespacesBeforeCase :: bool
  rr_Scenario :: Scenario
  rr_ExtraEnv :: "string list"
  rr_TargetNamespace :: string

definition targetNamespace :: "RunRequest \<Rightarrow> string" where
  "targetNamespace req = (if rr_TargetNamespace req \<noteq> [] then rr_TargetNamespace req else DefaultNamespace)"

text \<open>The regular expression \<^verbatim>\<open>^bench(-[a-z0-9]([-a-z0-9]*[a-z0-9])?)?$\<close>.\<close>

definition label_char :: "char \<Rightarrow> bool" where
  "label_char c \<longleftrightarrow> CHR ''a'' \<le> c \<and> c \<le> CHR ''z'' \<or> CHR ''0'' \<le> c \<and> c \<le> CHR ''9''"

definition benchScopeRe :: "string \<Rightarrow> bool" where
  "benchScopeRe name \<longleftrightarrow> name = ''bench'' \<or>
     has_prefix name ''bench-'' \<and>
     (let rest = drop 6 name in rest \<noteq> [] \<and> label_char (hd rest) \<and> label_char (last rest) \<and> list_all (\<lambda>c. c = CHR ''-'' \<or> label_char c) rest)"

definition forbiddenNamespaces :: "string list" where
  "forbiddenNamespaces = [''default'', ''kube-system'', ''kube-public'', ''kube-node-lease'', []]"

datatype isolation_error = EmptyNamespace | ProtectedNamespace string | NotBenchScoped string

definition namespaceFault :: "string \<Rightarrow> isolation_error option" where
  "namespaceFault raw = (let name = trim_space raw in
     if name = [] then Some EmptyNamespace
     else if name \<in> set forbiddenNamespaces then Some (ProtectedNamespace name)
     else if \<not> benchScopeRe name then Some (NotBenchScoped name)
     else None)"

definition isolationNamespaces :: "Scenario \<Rightarrow> (isolation_error, string list) result" where
  "isolationNamespaces s = (case first_error namespaceFault (sp_Namespaces (s_Scope s)) of
     Some e \<Rightarrow> Inl e
   | None \<Rightarrow> Inr (sort (dedupe (map trim_space (sp_Namespaces (s_Scope s))))))"

datatype reset_error = IsolationRefused isolation_error | DeleteRefused string | CanaryAfterReset ops_error

definition deleteNamespace :: "string \<Rightarrow> string list" where
  "deleteNamespace name = [''delete'', ''namespace'', name, ''--ignore-not-found'', ''--wait=true'', ''--timeout=90s'']"

fun deleteNamespaces :: "World \<Rightarrow> string \<Rightarrow> string list \<Rightarrow> reset_error option proc" where
  "deleteNamespaces w kubeconfig [] = State_Monad.return None"
| "deleteNamespaces w kubeconfig (name # names) = do {
     (ok, _) \<leftarrow> kctl w kubeconfig (deleteNamespace name);
     if ok then deleteNamespaces w kubeconfig names else State_Monad.return (Some (DeleteRefused name)) }"

text \<open>The provider is optional; an error of the reset is always an infrastructure error.\<close>

definition resetScenarioNamespaces :: "World \<Rightarrow> ClusterOps option \<Rightarrow> RunRequest \<Rightarrow> string \<Rightarrow> string \<Rightarrow> reset_error option proc" where
  "resetScenarioNamespaces w provider req kubeconfig ns =
     (if \<not> rr_ResetNamespacesBeforeCase req then State_Monad.return None
      else (case isolationNamespaces (rr_Scenario req) of
          Inl e \<Rightarrow> State_Monad.return (Some (IsolationRefused e))
        | Inr names \<Rightarrow> do {
            err \<leftarrow> deleteNamespaces w kubeconfig names;
            case err of
              Some e \<Rightarrow> State_Monad.return (Some e)
            | None \<Rightarrow> (case provider of
                None \<Rightarrow> State_Monad.return None
              | Some p \<Rightarrow> do {
                  _ \<leftarrow> co_CreateNamespace p kubeconfig ns;
                  canary \<leftarrow> co_RunCanary p kubeconfig ns;
                  State_Monad.return (map_option CanaryAfterReset canary) }) }))"

section \<open>The environment of a run\<close>

text \<open>Variables of the process. \<^verbatim>\<open>os.Setenv\<close> refuses an empty name, a name with an equals sign, and null bytes.\<close>

type_synonym Environ = "string \<rightharpoonup> string"

definition setenv :: "string \<Rightarrow> string \<Rightarrow> Environ \<Rightarrow> Environ option" where
  "setenv k v env = (if k = [] \<or> CHR ''='' \<in> set k \<or> CHR 0x00 \<in> set k \<or> CHR 0x00 \<in> set v then None else Some (env(k \<mapsto> v)))"

fun applyRunExtraEnv :: "string list \<Rightarrow> Environ \<Rightarrow> string option \<times> Environ" where
  "applyRunExtraEnv [] env = (None, env)"
| "applyRunExtraEnv (kv # kvs) env = (case cut_at (CHR ''='') kv of (k, v, found) \<Rightarrow>
     if \<not> found then applyRunExtraEnv kvs env
     else (case setenv k v env of None \<Rightarrow> (Some k, env) | Some env' \<Rightarrow> applyRunExtraEnv kvs env'))"

definition unsetExtra :: "string \<Rightarrow> Environ \<Rightarrow> Environ" where
  "unsetExtra kv env = (case cut_at (CHR ''='') kv of (k, _, found) \<Rightarrow> if found then env(k := None) else env)"

definition cleanupExtraEnv :: "string list \<Rightarrow> Environ \<Rightarrow> Environ" where
  "cleanupExtraEnv extra env = fold unsetExtra extra env"

definition cleanupClusterNamespace :: "ClusterOps \<Rightarrow> string \<Rightarrow> string \<Rightarrow> unit proc" where
  "cleanupClusterNamespace p kubeconfig ns = do { _ \<leftarrow> co_ForceDeleteNamespace p kubeconfig ns; State_Monad.return () }"

definition sweptKinds :: "string list" where
  "sweptKinds = [''pv'', ''storageclass'', ''validatingwebhookconfiguration'', ''mutatingwebhookconfiguration'']"

definition sweepKind :: "string \<Rightarrow> string list" where
  "sweepKind res = [''delete'', res, ''--all'', ''--ignore-not-found'', ''--timeout=10s'']"

fun sweepKinds :: "World \<Rightarrow> string \<Rightarrow> string list \<Rightarrow> unit proc" where
  "sweepKinds w kubeconfig [] = State_Monad.return ()"
| "sweepKinds w kubeconfig (res # ress) = do { _ \<leftarrow> kctl w kubeconfig (sweepKind res); sweepKinds w kubeconfig ress }"

definition cleanupClusterScoped :: "World \<Rightarrow> ClusterOps \<Rightarrow> string \<Rightarrow> unit proc" where
  "cleanupClusterScoped w p kubeconfig = do {
     _ \<leftarrow> sweepKinds w kubeconfig sweptKinds;
     _ \<leftarrow> co_ForceDeleteNamespace p kubeconfig ''webhook-system'';
     _ \<leftarrow> kctl w kubeconfig [''delete'', ''application'', ''--all'', ''-n'', ''argocd'', ''--ignore-not-found'', ''--timeout=15s''];
     State_Monad.return () }"

datatype prepare_error = CloudSetupFailed | SetFailed string | LeaseCanaryFailed ops_error

text \<open>The namespace stage outside suite mode: clean, recreate, prove that pods can be scheduled.\<close>

definition prepareNamespace :: "ClusterOps option \<Rightarrow> bool \<Rightarrow> string \<Rightarrow> string \<Rightarrow> ops_error option proc" where
  "prepareNamespace provider exists kubeconfig ns = (case provider of
     None \<Rightarrow> State_Monad.return None
   | Some p \<Rightarrow> do {
       _ \<leftarrow> (if exists then cleanupClusterNamespace p kubeconfig ns else State_Monad.return ());
       _ \<leftarrow> (if kubeconfig \<noteq> [] then co_CreateNamespace p kubeconfig ns else State_Monad.return None);
       if exists then co_RunCanary p kubeconfig ns else State_Monad.return None })"

definition kubeconfigExists :: "World \<Rightarrow> string \<Rightarrow> bool proc" where
  "kubeconfigExists w kubeconfig = (if kubeconfig = [] then State_Monad.return False
     else do { (ok, _) \<leftarrow> perform w (Stat kubeconfig); State_Monad.return ok })"

text \<open>
  The preparation after the cloud setup and the variables: sweep, namespace stage, health check. The
  variables are taken back only if the canary fails.
\<close>

definition prepareCluster :: "World \<Rightarrow> ClusterOps option \<Rightarrow> RunRequest \<Rightarrow> string \<Rightarrow> string \<Rightarrow> ops_error option proc" where
  "prepareCluster w provider req kubeconfig ns = do {
     exists \<leftarrow> kubeconfigExists w kubeconfig;
     _ \<leftarrow> (case provider of Some p \<Rightarrow> if exists then cleanupClusterScoped w p kubeconfig else State_Monad.return () | None \<Rightarrow> State_Monad.return ());
     err \<leftarrow> (if rr_ResetNamespacesBeforeCase req then State_Monad.return None else prepareNamespace provider exists kubeconfig ns);
     case err of
       Some e \<Rightarrow> State_Monad.return (Some e)
     | None \<Rightarrow> do {
         _ \<leftarrow> (case provider of Some p \<Rightarrow> co_HealthCheck p kubeconfig | None \<Rightarrow> State_Monad.return None);
         State_Monad.return None } }"

definition prepareRunEnvironment :: "World \<Rightarrow> ClusterOps option \<Rightarrow> RunRequest \<Rightarrow> string \<Rightarrow> string \<Rightarrow> Environ \<Rightarrow>
    (prepare_error option \<times> Environ) proc" where
  "prepareRunEnvironment w provider req kubeconfig ns env = do {
     let setup = cl_Setup (ec_Cloud (s_Environment (rr_Scenario req)));
     ready \<leftarrow> (if setup = [] then State_Monad.return True else do { (ok, _) \<leftarrow> perform w (Hook setup (rr_ExtraEnv req)); State_Monad.return ok });
     if \<not> ready then State_Monad.return (Some CloudSetupFailed, env)
     else (case applyRunExtraEnv (rr_ExtraEnv req) env of
         (Some k, env1) \<Rightarrow> State_Monad.return (Some (SetFailed k), env1)
       | (None, env1) \<Rightarrow> do {
           err \<leftarrow> prepareCluster w provider req kubeconfig ns;
           State_Monad.return (case err of
               Some e \<Rightarrow> (Some (LeaseCanaryFailed e), cleanupExtraEnv (rr_ExtraEnv req) env1)
             | None \<Rightarrow> (None, env1)) }) }"

section \<open>Which namespaces are deleted\<close>

definition ns_deleted :: "Op \<Rightarrow> string option" where
  "ns_deleted op = (case op of
     Cmd argv \<Rightarrow> (case drop 3 argv of verb # kind # n # _ \<Rightarrow> if verb = ''delete'' \<and> kind = ''namespace'' then Some n else None | _ \<Rightarrow> None)
   | _ \<Rightarrow> None)"

definition spares :: "string set \<Rightarrow> Op \<Rightarrow> bool" where
  "spares N op \<longleftrightarrow> (\<forall>n. ns_deleted op = Some n \<longrightarrow> n \<in> N)"

abbreviation deletes_only :: "string set \<Rightarrow> 'a proc \<Rightarrow> bool" where
  "deletes_only N \<equiv> only (spares N)"

text \<open>The wait for the canary pod succeeded.\<close>

definition passed_canary :: "string \<Rightarrow> string \<Rightarrow> Trace \<Rightarrow> bool" where
  "passed_canary kc ns d \<longleftrightarrow> (\<exists>out. (Cmd ([''kubectl'', ''--kubeconfig'', kc] @ waitCanary ns), True, out) \<in> set d)"

lemma emits_kctl [emits_intros]: "(\<And>r. Q r [(Cmd ([''kubectl'', ''--kubeconfig'', kc] @ args), r)]) \<Longrightarrow> emits Q (kctl w kc args)"
  unfolding kctl_def by (rule emits_perform)

lemma only_kctl_op [emits_intros]: "P (Cmd ([''kubectl'', ''--kubeconfig'', kc] @ args)) \<Longrightarrow> only P (kctl w kc args)"
  unfolding kctl_def by (rule only_perform)

lemma spares_simps [simp]:
  "spares N (Cmd (''kubectl'' # ''--kubeconfig'' # kc # verb # kind # n # rest)) \<longleftrightarrow> (verb = ''delete'' \<longrightarrow> kind = ''namespace'' \<longrightarrow> n \<in> N)"
  "spares N (Stat path)" "spares N (Hook path env)"
  by (auto simp: spares_def ns_deleted_def)

lemma deletes_mono: "deletes_only M m \<Longrightarrow> M \<subseteq> N \<Longrightarrow> deletes_only N m"
  by (erule only_mono) (auto simp: spares_def)

lemma awaitGone_deletes: "deletes_only N (awaitGone n w c kc ns)"
  by (induction n) (auto simp: getNamespace_def intro!: emits_intros)

lemma kubectl_deletes:
  "deletes_only N (HealthCheck w decode kc)" "deletes_only N (CreateNamespace w kc ns)" "deletes_only N (deleteCanary w kc ns)"
  "deletes_only N (startCanary w kc ns img)" "deletes_only {ns} (ForceDeleteNamespace w c kc ns)"
  unfolding HealthCheck_def CreateNamespace_def deleteCanary_def startCanary_def ForceDeleteNamespace_def
  by (auto simp: getNamespace_def waitCanary_def intro!: emits_intros awaitGone_deletes split: option.split)

lemma runCanary_deletes: "deletes_only N (runCanary w kc ns img)"
  unfolding runCanary_def Let_def by (auto intro!: emits_intros kubectl_deletes)

text \<open>A step that ends well has seen the canary pod ready.\<close>

definition proves_canary :: "string \<Rightarrow> string \<Rightarrow> 'e option \<Rightarrow> Trace \<Rightarrow> bool" where
  "proves_canary kc ns r d \<longleftrightarrow> (r = None \<longrightarrow> passed_canary kc ns d)"

lemma passed_canary_append [simp]: "passed_canary kc ns (d @ d') \<longleftrightarrow> passed_canary kc ns d \<or> passed_canary kc ns d'"
  by (auto simp: passed_canary_def)

lemma emits_any: "only P m \<Longrightarrow> emits (\<lambda>_ _. True) m"
  unfolding only_def by (erule emits_mono) simp

lemma canary_after:
  assumes "only P m" and "\<And>a. emits (proves_canary kc ns) (f a)"
  shows "emits (proves_canary kc ns) (State_Monad.bind m f)"
  by (rule emits_bind [OF emits_any [OF assms(1)]], rule emits_mono [OF assms(2)]) (simp add: proves_canary_def)

lemma canary_then:
  fixes f :: "'e option \<Rightarrow> 'f option proc"
  assumes "emits (proves_canary kc ns) m" and "\<And>r. only P (f r)" and "\<And>r. r \<noteq> None \<Longrightarrow> yields (\<lambda>r'. r' \<noteq> None) (f r)"
  shows "emits (proves_canary kc ns) (State_Monad.bind m f)"
proof (rule emits_bind [OF assms(1)])
  fix r :: "'e option" and d
  assume *: "proves_canary kc ns r d"
  show "emits (\<lambda>b d'. proves_canary kc ns b (d @ d')) (f r)"
  proof (cases r)
    case None
    then show ?thesis using * by (intro emits_mono [OF emits_any [OF assms(2)]]) (simp add: proves_canary_def)
  next
    case (Some e)
    then show ?thesis using assms(2,3) [of r] unfolding emits_def yields_def only_def proves_canary_def by (metis option.distinct(1))
  qed
qed

lemma startCanary_passed: "emits (proves_canary kc ns) (startCanary w kc ns img)"
proof -
  have w: "emits (\<lambda>r d. fst r \<longrightarrow> passed_canary kc ns d) (kctl w kc (waitCanary ns))"
    by (rule emits_kctl) (auto simp: passed_canary_def)
  have "emits (proves_canary kc ns) (do { (ok, _) \<leftarrow> kctl w kc (waitCanary ns);
      if ok then State_Monad.return None else do { _ \<leftarrow> kctl w kc args; State_Monad.return (Some CanaryFailed) } })" for args
    by (rule emits_bind [OF w]) (auto simp: proves_canary_def intro!: emits_return emits_bind [OF emits_kctl])
  then show ?thesis unfolding startCanary_def
    by (intro canary_after [OF only_kctl_op [where P = "\<lambda>_. True"]]) (auto simp: proves_canary_def intro!: emits_return)
qed

lemma runCanary_passed: "emits (proves_canary kc ns) (runCanary w kc ns img)"
proof -
  have "emits (proves_canary kc ns) (do { res \<leftarrow> startCanary w kc ns im; _ \<leftarrow> deleteCanary w kc ns; State_Monad.return res })" for im
    by (rule canary_then [where P = "spares {}", OF startCanary_passed])
      (auto intro!: emits_intros kubectl_deletes yields_bind yields_return)
  then show ?thesis unfolding runCanary_def Let_def
    by (intro canary_after [OF kubectl_deletes(3)] canary_after [OF only_kctl_op [where P = "\<lambda>_. True"]])
      (auto simp: proves_canary_def [of _ _ "Some _"] intro!: emits_return)
qed

section \<open>What the harness relies on\<close>

text \<open>The effect of the reset of a case, and of the preparation before it.\<close>

definition deleteOp :: "string \<Rightarrow> string \<Rightarrow> Op" where
  "deleteOp kc n = Cmd ([''kubectl'', ''--kubeconfig'', kc] @ deleteNamespace n)"

definition deleted :: "string \<Rightarrow> string list \<Rightarrow> Trace \<Rightarrow> bool" where
  "deleted kc names d \<longleftrightarrow> list_all2 (\<lambda>n x. fst x = deleteOp kc n \<and> fst (snd x)) names d"

definition reset_done :: "string \<Rightarrow> string \<Rightarrow> string list \<Rightarrow> Trace \<Rightarrow> bool" where
  "reset_done kc ns names d \<longleftrightarrow> (\<exists>d1 rest. d = d1 @ rest \<and> deleted kc names d1 \<and> passed_canary kc ns rest)"

lemma reset_doneI: "deleted kc names d1 \<Longrightarrow> passed_canary kc ns rest \<Longrightarrow> reset_done kc ns names (d1 @ rest)"
  by (auto simp: reset_done_def)

lemma deleteNamespaces_spares: "set names \<subseteq> N \<Longrightarrow> deletes_only N (deleteNamespaces w kc names)"
  by (induction names) (auto simp: deleteNamespace_def intro!: emits_intros)

lemma deleteNamespaces_done: "emits (\<lambda>r d. r = None \<longrightarrow> deleted kc names d) (deleteNamespaces w kc names)"
proof (induction names)
  case (Cons n names)
  have k: "emits (\<lambda>r d. d = [(deleteOp kc n, r)]) (kctl w kc (deleteNamespace n))"
    by (rule emits_kctl) (simp add: deleteOp_def)
  show ?case unfolding deleteNamespaces.simps
    by (rule emits_bind [OF k]) (auto intro!: emits_return emits_mono [OF Cons.IH] simp: deleted_def)
qed (auto simp: deleted_def intro: emits_return)

text \<open>
  The preparation (\<open>d1\<close>) touches no namespace of the case; the reset (\<open>d2\<close>) deletes only namespaces that the scenario declares
  and that are disposable; if it ends well, every declared namespace was deleted and then the canary passed.
\<close>

definition isolated :: "Scenario \<Rightarrow> string \<Rightarrow> string \<Rightarrow> reset_error option \<Rightarrow> Trace \<Rightarrow> Trace \<Rightarrow> bool" where
  "isolated s kc ns r d1 d2 \<longleftrightarrow>
     (let declared = trim_space ` set (sp_Namespaces (s_Scope s)) in
      (\<forall>x\<in>set d1. spares {''webhook-system''} (fst x)) \<and>
      (\<forall>x\<in>set d2. spares {n \<in> declared. benchScopeRe n \<and> n \<notin> set forbiddenNamespaces} (fst x)) \<and>
      (r = None \<longrightarrow> (\<exists>names. set names = declared \<and> sorted names \<and> distinct names \<and> reset_done kc ns names d2)))"

lemma isolationNamespaces_Inr:
  assumes "isolationNamespaces s = Inr names"
  shows "set names = trim_space ` set (sp_Namespaces (s_Scope s)) \<and> sorted names \<and> distinct names \<and>
    (\<forall>n\<in>set names. benchScopeRe n \<and> n \<notin> set forbiddenNamespaces)"
  using assms by (auto simp: isolationNamespaces_def namespaceFault_def Let_def split: option.splits if_splits)

locale cluster_ops =
  fixes ops :: ClusterOps
  assumes health_spares: "deletes_only {} (co_HealthCheck ops kc)"
    and create_spares: "deletes_only {} (co_CreateNamespace ops kc ns)"
    and canary_spares: "deletes_only {} (co_RunCanary ops kc ns)"
    and force_spares: "deletes_only {ns} (co_ForceDeleteNamespace ops kc ns)"
    and canary_proves: "emits (proves_canary kc ns) (co_RunCanary ops kc ns)"
begin

lemma spares_all: "deletes_only N (co_HealthCheck ops kc)" "deletes_only N (co_CreateNamespace ops kc ns)" "deletes_only N (co_RunCanary ops kc ns)"
  by (rule deletes_mono [OF health_spares] deletes_mono [OF create_spares] deletes_mono [OF canary_spares], simp)+

lemma sweepKinds_spares: "''namespace'' \<notin> set ress \<Longrightarrow> deletes_only N (sweepKinds w kc ress)"
  by (induction ress) (auto simp: sweepKind_def intro!: emits_intros)

lemma scoped_spares: "deletes_only (insert ''webhook-system'' N) (cleanupClusterScoped w ops kc)"
  unfolding cleanupClusterScoped_def
  by (auto simp: sweptKinds_def sweepKind_def intro!: emits_intros deletes_mono [OF force_spares])

lemma namespace_spares: "deletes_only (insert ns N) (prepareNamespace (Some ops) ex kc ns)"
  unfolding prepareNamespace_def cleanupClusterNamespace_def
  by (auto intro!: emits_intros spares_all deletes_mono [OF force_spares])

lemma prepare_spares:
  "deletes_only ({''webhook-system''} \<union> (if rr_ResetNamespacesBeforeCase req then {} else {ns})) (prepareRunEnvironment w (Some ops) req kc ns env)"
proof -
  have "deletes_only (insert ''webhook-system'' (if rr_ResetNamespacesBeforeCase req then {} else {ns})) (prepareCluster w (Some ops) req kc ns)"
    unfolding prepareCluster_def kubeconfigExists_def
    by (auto intro!: emits_intros scoped_spares spares_all deletes_mono [OF namespace_spares [of ns "{''webhook-system''}"]] split: option.split)
  then show ?thesis unfolding prepareRunEnvironment_def Let_def
    by (cases "applyRunExtraEnv (rr_ExtraEnv req) env") (auto intro!: emits_intros split: option.split)
qed

lemma reset_spares:
  assumes "isolationNamespaces (rr_Scenario req) = Inr names"
  shows "deletes_only (set names) (resetScenarioNamespaces w (Some ops) req kc ns)"
  unfolding resetScenarioNamespaces_def
  by (auto simp: assms intro!: emits_intros deleteNamespaces_spares spares_all split: option.split)

lemma reset_effect:
  assumes "rr_ResetNamespacesBeforeCase req" and "isolationNamespaces (rr_Scenario req) = Inr names"
  shows "emits (\<lambda>r d. r = None \<longrightarrow> reset_done kc ns names d) (resetScenarioNamespaces w (Some ops) req kc ns)"
proof -
  have c: "emits (proves_canary kc ns) (do { _ \<leftarrow> co_CreateNamespace ops kc ns; canary \<leftarrow> co_RunCanary ops kc ns; State_Monad.return (map_option CanaryAfterReset canary) })"
    by (intro canary_after [OF create_spares] canary_then [where P = "spares {}", OF canary_proves]) (auto intro!: emits_intros yields_return)
  show ?thesis unfolding resetScenarioNamespaces_def
    by (simp add: assms)
      (rule emits_bind [OF deleteNamespaces_done],
       auto simp: proves_canary_def split: option.split intro!: emits_return emits_mono [OF c] reset_doneI)
qed

text \<open>What happens to the namespaces between the start of a run and its bootstrap.\<close>

lemma case_isolated:
  assumes "rr_ResetNamespacesBeforeCase req"
    and "run_state (prepareRunEnvironment w (Some ops) req kc ns env) tr = (p, tr1)"
    and "run_state (resetScenarioNamespaces w (Some ops) req kc ns) tr1 = (r, tr2)"
  shows "isolated (rr_Scenario req) kc ns r (drop (length tr) tr1) (drop (length tr1) tr2)"
proof -
  have "deletes_only {''webhook-system''} (prepareRunEnvironment w (Some ops) req kc ns env)"
    using prepare_spares [of req ns w kc env] assms(1) by simp
  then obtain d1 where d1: "tr1 = tr @ d1" "list_all (\<lambda>e. spares {''webhook-system''} (fst e)) d1"
    unfolding only_def by (rule emits_run [OF _ assms(2)])
  show ?thesis
  proof (cases "isolationNamespaces (rr_Scenario req)")
    case (Inl e)
    then show ?thesis using assms(1,3) d1 by (auto simp: isolated_def resetScenarioNamespaces_def list_all_iff)
  next
    case (Inr names)
    obtain d2 where d2: "tr2 = tr1 @ d2" "list_all (\<lambda>e. spares (set names) (fst e)) d2"
      by (rule emits_run [OF reset_spares [OF Inr, unfolded only_def] assms(3)])
    have "r = None \<longrightarrow> reset_done kc ns names d2"
      using emits_run [OF reset_effect [OF assms(1) Inr] assms(3)] d2(1) by auto
    then show ?thesis using d1 d2 isolationNamespaces_Inr [OF Inr] Inr by (auto simp: isolated_def list_all_iff spares_def)
  qed
qed

end

text \<open>Every provider keeps the contract.\<close>

lemma kubectl_contract: "cluster_ops (kubectlOps w decode cancelled img)"
  by unfold_locales (simp_all add: kubectlOps_def kubectl_deletes runCanary_deletes runCanary_passed)

interpretation kind_ops: cluster_ops "kindOps w decode cancelled" for w decode cancelled
  unfolding kindOps_def by (rule kubectl_contract)

interpretation k3d_ops: cluster_ops "k3dOps w decode cancelled" for w decode cancelled
  unfolding k3dOps_def by (rule kubectl_contract)

interpretation failing_ops: cluster_ops failingOps
  by unfold_locales (auto simp: failingOps_def Let_def proves_canary_def intro!: emits_intros)

section \<open>Isolation\<close>

text \<open>
  C31: on the shared cluster of a suite, the harness deletes no namespace but those the scenario declares, and of
  these only disposable ones of the family \<^verbatim>\<open>bench\<close>; the sweep before it touches \<^verbatim>\<open>webhook-system\<close> alone. If the reset
  reports no error, every declared namespace was deleted, and after that the canary pod became ready in
  the target namespace.
\<close>

theorem isolation_is_confined:
  assumes "rr_ResetNamespacesBeforeCase req" and "provider = kindOps w decode cancelled \<or> provider = k3dOps w decode cancelled"
    and "run_state (prepareRunEnvironment w (Some provider) req kc ns env) tr = (p, tr1)"
    and "run_state (resetScenarioNamespaces w (Some provider) req kc ns) tr1 = (r, tr2)"
  shows "isolated (rr_Scenario req) kc ns r (drop (length tr) tr1) (drop (length tr1) tr2)"
  using assms(2) kind_ops.case_isolated [of req w _ _ _ kc ns env tr p tr1 r tr2] k3d_ops.case_isolated [of req w _ _ _ kc ns env tr p tr1 r tr2] assms(1,3,4) by auto

section \<open>Variables of a run\<close>

definition extraKeys :: "string list \<Rightarrow> string set" where
  "extraKeys extra = {k. \<exists>kv\<in>set extra. \<exists>v. cut_at (CHR ''='') kv = (k, v, True)}"

lemma cleanup_removes: "cleanupExtraEnv extra env k = (if k \<in> extraKeys extra then None else env k)"
proof (induction extra arbitrary: env)
  case (Cons kv extra)
  then show ?case by (auto simp: cleanupExtraEnv_def unsetExtra_def extraKeys_def split: prod.splits if_splits)
qed (simp add: cleanupExtraEnv_def extraKeys_def)

lemma apply_keeps: "applyRunExtraEnv extra env = (e, env1) \<Longrightarrow> k \<notin> extraKeys extra \<Longrightarrow> env1 k = env k"
  by (induction extra env rule: applyRunExtraEnv.induct)
    (fastforce simp: extraKeys_def setenv_def split: prod.splits if_splits option.splits)+

text \<open>
  After the cleanup of a run no variable of its lease is left, and every other variable is as it was.
\<close>

theorem extra_env_removed:
  assumes "applyRunExtraEnv extra env = (e, env1)"
  shows "cleanupExtraEnv extra env1 = env |` (- extraKeys extra)"
  using apply_keeps [OF assms] by (auto simp: cleanup_removes restrict_map_def)

section \<open>Waiting for a namespace to go\<close>

lemma awaitGone_decides:
  "run_state (awaitGone n w c kc ns) tr = (r, tr') \<Longrightarrow>
   length tr' \<le> length tr + n \<and> (r = None \<longrightarrow> tr' \<noteq> [] \<and> trim_space (snd (snd (last tr'))) = [])"
proof (induction n arbitrary: tr)
  case (Suc n)
  let ?x = "(Cmd ([''kubectl'', ''--kubeconfig'', kc] @ getNamespace ns), w tr (Cmd ([''kubectl'', ''--kubeconfig'', kc] @ getNamespace ns)))"
  show ?case using Suc.prems Suc.IH [of "tr @ [?x]"] by (auto simp: run_kctl split: prod.splits if_splits)
qed auto

text \<open>
  The deletion of a namespace ends after at most 32 commands; without an error, the last answer named no namespace, or
  the first query failed.
\<close>

theorem force_delete_decides:
  assumes "run_state (ForceDeleteNamespace w c kc ns) tr = (r, tr')"
  shows "length tr' \<le> length tr + 32 \<and>
    (r = None \<longrightarrow> trim_space (snd (snd (last tr'))) = [] \<or> \<not> fst (snd (last tr')) \<and> length tr' = Suc (length tr))"
  using assms by (auto simp: ForceDeleteNamespace_def run_kctl split: prod.splits if_splits dest!: awaitGone_decides)

section \<open>A case on a shared cluster\<close>

definition isolation_case :: "bool \<Rightarrow> string list \<Rightarrow> RunRequest" where
  "isolation_case suite scope = \<lparr>rr_ResetNamespacesBeforeCase = suite,
     rr_Scenario = (demo_scenario [] [])\<lparr>s_Scope := \<lparr>sp_Namespaces = scope, sp_Deny = []\<rparr>\<rparr>, rr_ExtraEnv = [''A=1''], rr_TargetNamespace = []\<rparr>"

definition demo_ops :: ClusterOps where
  "demo_ops = k3dOps calm (\<lambda>_. None) (\<lambda>_. False)"

definition demo_prepared :: "bool \<Rightarrow> string list \<Rightarrow> (prepare_error option \<times> Environ) \<times> Trace" where
  "demo_prepared suite scope = run_state (prepareRunEnvironment calm (Some demo_ops) (isolation_case suite scope) ''kc'' ''bench'' Map.empty) []"

definition demo_reset :: "string list \<Rightarrow> reset_error option \<times> Trace" where
  "demo_reset scope = run_state (resetScenarioNamespaces calm (Some demo_ops) (isolation_case True scope) ''kc'' ''bench'') (snd (demo_prepared True scope))"

theorem isolation_is_confined_witness:
  "isolated (rr_Scenario (isolation_case True [''bench-b'', '' bench''])) ''kc'' ''bench'' None
     (snd (demo_prepared True [''bench-b'', '' bench''])) (drop (length (snd (demo_prepared True [''bench-b'', '' bench'']))) (snd (demo_reset [''bench-b'', '' bench''])))"
proof -
  have "fst (demo_reset [''bench-b'', '' bench'']) = None" by code_simp
  then have r: "demo_reset [''bench-b'', '' bench''] = (None, snd (demo_reset [''bench-b'', '' bench'']))" by (metis prod.collapse)
  have p: "run_state (prepareRunEnvironment calm (Some demo_ops) (isolation_case True [''bench-b'', '' bench'']) ''kc'' ''bench'' Map.empty) [] =
    (fst (demo_prepared True [''bench-b'', '' bench'']), snd (demo_prepared True [''bench-b'', '' bench'']))"
    by (simp add: demo_prepared_def)
  have "rr_ResetNamespacesBeforeCase (isolation_case True [''bench-b'', '' bench''])" by (simp add: isolation_case_def)
  from isolation_is_confined [OF this disjI2 [OF demo_ops_def] p r [unfolded demo_reset_def]] show ?thesis by (simp add: demo_reset_def)
qed

lemma extra_env_removed_witness:
  "cleanupExtraEnv [''A=1''] (snd (applyRunExtraEnv [''A=1''] [''B'' \<mapsto> ''2''])) = [''B'' \<mapsto> ''2''] |` (- extraKeys [''A=1''])"
  using extra_env_removed [of "[''A=1'']" "[''B'' \<mapsto> ''2'']"] by (metis prod.collapse)

lemma force_delete_decides_witness:
  "length (snd (run_state (ForceDeleteNamespace calm (\<lambda>_. False) ''kc'' ''n'') [])) \<le> 32"
  using force_delete_decides [of calm "\<lambda>_. False" "''kc''" "''n''" "[]"] by (cases "run_state (ForceDeleteNamespace calm (\<lambda>_. False) ''kc'' ''n'') []") auto

section \<open>Deviations\<close>

text \<open>
  The cleanup unsets what the lease sets instead of restoring it. The profile \<^verbatim>\<open>aws-localstack\<close> puts \<^verbatim>\<open>PATH\<close> into its lease: after the
  run the process has none, and the commands of the next run are not found.
\<close>

lemma path_not_restored:
  "cleanupExtraEnv [''PATH=/w:/bin''] (snd (applyRunExtraEnv [''PATH=/w:/bin''] [''PATH'' \<mapsto> ''/bin''])) ''PATH'' = None"
  by code_simp

text \<open>When a variable is refused, those set before it stay.\<close>

lemma refused_variable_leaks: "applyRunExtraEnv [''A=1'', ''=2''] Map.empty = (Some [], [''A'' \<mapsto> ''1''])"
  by (simp add: setenv_def)

text \<open>
  The cluster-wide sweep and the deletion of the target namespace also run outside suite mode, on clusters the harness does
  not own.
\<close>

lemma sweep_runs_everywhere:
  "list_ex (\<lambda>x. fst x = Cmd ([''kubectl'', ''--kubeconfig'', ''kc''] @ sweepKind ''pv'')) (snd (demo_prepared False [])) \<and>
   list_ex (\<lambda>x. fst x = Cmd ([''kubectl'', ''--kubeconfig'', ''kc''] @ sweepKind ''storageclass'')) (snd (demo_prepared False []))"
  by code_simp

text \<open>A target namespace outside the declared scope keeps what an earlier case left in it.\<close>

lemma undeclared_target_kept:
  "fst (demo_reset []) = None \<and> list_all (\<lambda>x. ns_deleted (fst x) = None) (drop (length (snd (demo_prepared True []))) (snd (demo_reset [])))"
  by code_simp

text \<open>When the API server cannot be asked, the namespace counts as deleted.\<close>

lemma unreachable_counts_as_deleted:
  "\<not> fst (w tr (Cmd ([''kubectl'', ''--kubeconfig'', kc] @ getNamespace ns))) \<Longrightarrow>
   fst (run_state (ForceDeleteNamespace w c kc ns) tr) = None"
  by (auto simp: ForceDeleteNamespace_def run_kctl split: prod.splits)

text \<open>A cluster without nodes, or with nodes that report no readiness, is healthy.\<close>

lemma silent_nodes_are_healthy: "nodesFault [] = None \<and> nodesFault [(''n'', [(''MemoryPressure'', ''Unknown'')])] = None"
  by code_simp

end
