(* ===== verification/Chaos.thy ===== *)
theory Chaos
  imports Scenario_Loader
begin

text \<open>
  Runtime disruption (\<^verbatim>\<open>pkg/harness/chaos.go\<close>, the chaos parts of \<^verbatim>\<open>run_execution.go\<close>) and the step commands
  of \<^verbatim>\<open>pkg/environment/bootstrap.go\<close>. The runner executes timed and triggered steps beside the agent until
  it is done or cancelled. The world answers by moments: whether the context is done, what a command
  returns, what time it is. Waiting for a change and repeating the schedule may go on for ever, so both
  take fuel and \<open>None\<close> means that the fuel did not suffice.
\<close>

section \<open>Step commands\<close>

record EnvStep =
  es_Name :: string
  es_Type :: string
  es_Path :: string
  es_Feature :: string
  es_Release :: string
  es_Namespace :: string
  es_Duration :: string
  es_Args :: "string list"

definition nsArgs :: "EnvStep \<Rightarrow> string list" where
  "nsArgs s = (if es_Namespace s \<noteq> [] then [''-n'', es_Namespace s] else [])"

definition CommandArgs :: "EnvStep \<Rightarrow> string \<Rightarrow> string list" where
  "CommandArgs s kubeconfigPath =
     (if es_Type s = ''kubectl-apply'' then [''kubectl'', ''--kubeconfig'', kubeconfigPath] @ nsArgs s @ [''apply'', ''-f'', es_Path s]
      else if es_Type s = ''kubectl-create'' then [''kubectl'', ''--kubeconfig'', kubeconfigPath, ''create''] @ nsArgs s @ es_Args s
      else if es_Type s = ''kubectl'' then [''kubectl'', ''--kubeconfig'', kubeconfigPath] @ es_Args s
      else if es_Type s = ''helm-install'' then
        [''helm'', ''--kubeconfig'', kubeconfigPath, ''upgrade'', ''--install'', es_Release s, es_Path s] @ nsArgs s @ es_Args s
      else if es_Type s = ''shell'' then [''bash'', es_Path s, kubeconfigPath] @ es_Args s
      else [])"

section \<open>The runner\<close>

record chaosEvent =
  ev_Name :: string
  ev_Type :: string
  ev_Trigger :: string
  ev_InitialResourceVersion :: string
  ev_ObservedResourceVersion :: string
  ev_ScheduledAt :: int
  ev_StartedAt :: int
  ev_FinishedAt :: int
  ev_Command :: "string list"
  ev_Success :: bool
  ev_AllowFailure :: bool
  ev_Output :: string
  ev_Error :: string

record ChaosRunner =
  cr_KubeconfigPath :: string
  cr_Config :: ChaosConfig
  cr_events :: "chaosEvent list"
  cr_armed :: "(string \<times> string) list"
  cr_observed :: "(string \<times> string) list"
  cr_triggerErr :: "string option"

record ChaosWorld =
  cw_Done :: "nat \<Rightarrow> bool"
  cw_Cmd :: "nat \<Rightarrow> string list \<Rightarrow> string option \<times> string"
  cw_Time :: "nat \<Rightarrow> int"
  cw_Version :: "string \<Rightarrow> string option"
  cw_ParseDuration :: "string \<Rightarrow> int option"

definition map_get :: "(string \<times> string) list \<Rightarrow> string \<Rightarrow> string" where
  "map_get m k = (case map_of m k of None \<Rightarrow> [] | Some v \<Rightarrow> v)"

definition TriggerFaulted :: "ChaosRunner option \<Rightarrow> bool" where
  "TriggerFaulted r = (case r of None \<Rightarrow> False | Some c \<Rightarrow> cr_triggerErr c \<noteq> None)"

definition TriggerFault :: "ChaosRunner option \<Rightarrow> string option" where
  "TriggerFault r = (case r of None \<Rightarrow> None | Some c \<Rightarrow> cr_triggerErr c)"

definition trim_slashes :: "string \<Rightarrow> string" where
  "trim_slashes s = rev (dropWhile (\<lambda>c. c = CHR ''/'') (rev (dropWhile (\<lambda>c. c = CHR ''/'') s)))"

definition watchPath :: "ResourceChangeTrigger \<Rightarrow> string" where
  "watchPath ac =
     (let prefix = if rc_APIVersion ac \<noteq> ''v1'' \<and> rc_APIVersion ac \<noteq> [] then ''/apis/'' @ trim_slashes (rc_APIVersion ac) else ''/api/v1'' in
      prefix @ ''/namespaces/'' @ rc_Namespace ac @ ''/'' @ to_lower (rc_Resource ac) @ ''/'' @ rc_Name ac)"

text \<open>\<open>cw_Version\<close> decodes a response and returns its \<^verbatim>\<open>metadata.resourceVersion\<close>, empty if there is none.\<close>

definition resourceVersion :: "ChaosWorld \<Rightarrow> ChaosRunner \<Rightarrow> ResourceChangeTrigger \<Rightarrow> nat \<Rightarrow> (string, string) result" where
  "resourceVersion w r ac n = (case cw_Cmd w n [''kubectl'', ''--kubeconfig'', cr_KubeconfigPath r, ''get'', ''--raw'', watchPath ac] of
     (Some err, out) \<Rightarrow> Inl (''read '' @ watchPath ac @ '': '' @ err)
   | (None, out) \<Rightarrow> (case cw_Version w out of
       None \<Rightarrow> Inl (''read '' @ watchPath ac @ '': unparseable response'')
     | Some v \<Rightarrow> if v = [] then Inl (''read '' @ watchPath ac @ '': empty resourceVersion'') else Inr v))"

fun armSteps :: "ChaosWorld \<Rightarrow> ChaosStep list \<Rightarrow> ChaosRunner \<Rightarrow> nat \<Rightarrow> (string, ChaosRunner) result \<times> nat" where
  "armSteps w [] r n = (Inr r, n)"
| "armSteps w (step # steps) r n = (case ch_AfterChange step of
     None \<Rightarrow> armSteps w steps r n
   | Some ac \<Rightarrow> (case resourceVersion w r ac n of
       Inl e \<Rightarrow> (Inl (''chaos step '' @ quote (ch_Name step) @ '': arm trigger: '' @ e), Suc n)
     | Inr rv \<Rightarrow> armSteps w steps (r\<lparr>cr_armed := (ch_Name step, rv) # cr_armed r\<rparr>) (Suc n)))"

definition ArmResourceTriggers :: "ChaosWorld \<Rightarrow> ChaosRunner \<Rightarrow> nat \<Rightarrow> (string, ChaosRunner) result \<times> nat" where
  "ArmResourceTriggers w r n = armSteps w (cc_Steps (cr_Config r)) r n"

datatype wait_result = WaitCancelled | WaitFault string | Fired int string

fun waitForResourceChange :: "nat \<Rightarrow> ChaosWorld \<Rightarrow> ChaosRunner \<Rightarrow> ResourceChangeTrigger \<Rightarrow> string \<Rightarrow> nat \<Rightarrow> (wait_result \<times> nat) option" where
  "waitForResourceChange 0 w r ac initial n = None"
| "waitForResourceChange (Suc fuel) w r ac initial n =
     (if cw_Done w n then Some (WaitCancelled, Suc n)
      else (case resourceVersion w r ac n of
          Inl e \<Rightarrow> Some (WaitFault e, Suc n)
        | Inr current \<Rightarrow> if current \<noteq> initial then Some (Fired (cw_Time w n) current, Suc n)
            else waitForResourceChange fuel w r ac initial (Suc n)))"

text \<open>A timer step waits only if its time has not come; then it may be cancelled.\<close>

definition waitForChaosStep :: "ChaosWorld \<Rightarrow> int \<Rightarrow> int \<Rightarrow> nat \<Rightarrow> bool \<times> nat" where
  "waitForChaosStep w cycleStart offset n =
     (if offset - (cw_Time w n - cycleStart) \<le> 0 then (True, Suc n) else (\<not> cw_Done w (Suc n), Suc (Suc n)))"

definition envStepOf :: "ChaosStep \<Rightarrow> EnvStep" where
  "envStepOf step = \<lparr>es_Name = ch_Name step, es_Type = ch_Type step, es_Path = ch_Path step, es_Feature = [],
     es_Release = ch_Release step, es_Namespace = ch_Namespace step, es_Duration = ch_Duration step, es_Args = ch_Args step\<rparr>"

definition chaosCommandArgs :: "string \<Rightarrow> ChaosStep \<Rightarrow> string list" where
  "chaosCommandArgs kubeconfigPath step = (if ch_Type step = ''sleep'' then [] else CommandArgs (envStepOf step) kubeconfigPath)"

definition newEvent :: "ChaosRunner \<Rightarrow> ChaosStep \<Rightarrow> int \<Rightarrow> int \<Rightarrow> chaosEvent" where
  "newEvent r step scheduledAt startedAt =
     \<lparr>ev_Name = ch_Name step, ev_Type = ch_Type step, ev_Trigger = [], ev_InitialResourceVersion = [], ev_ObservedResourceVersion = [],
      ev_ScheduledAt = scheduledAt, ev_StartedAt = startedAt, ev_FinishedAt = startedAt,
      ev_Command = chaosCommandArgs (cr_KubeconfigPath r) step, ev_Success = False, ev_AllowFailure = ch_AllowFailure step,
      ev_Output = [], ev_Error = []\<rparr>"

definition executeStep :: "ChaosWorld \<Rightarrow> ChaosRunner \<Rightarrow> ChaosStep \<Rightarrow> int \<Rightarrow> nat \<Rightarrow> chaosEvent \<times> nat" where
  "executeStep w r step scheduledAt n =
     (let event = newEvent r step scheduledAt (cw_Time w n); finish = (\<lambda>e. e\<lparr>ev_FinishedAt := cw_Time w (Suc n)\<rparr>) in
      if ch_Type step = ''sleep'' then
        (case cw_ParseDuration w (ch_Duration step) of
           None \<Rightarrow> (finish (event\<lparr>ev_Error := ''parse chaos sleep duration '' @ quote (ch_Duration step)\<rparr>), Suc n)
         | Some d \<Rightarrow> if cw_Done w n then (finish (event\<lparr>ev_Error := ''context canceled''\<rparr>), Suc n)
             else (finish (event\<lparr>ev_Success := True\<rparr>), Suc n))
      else if CommandArgs (envStepOf step) (cr_KubeconfigPath r) = [] then
        (finish (event\<lparr>ev_Error := ''no command for chaos step '' @ ch_Name step\<rparr>), Suc n)
      else (case cw_Cmd w n (CommandArgs (envStepOf step) (cr_KubeconfigPath r)) of
          (Some err, out) \<Rightarrow> (finish (event\<lparr>ev_Output := trim_space out, ev_Error := err\<rparr>), Suc n)
        | (None, out) \<Rightarrow> (finish (event\<lparr>ev_Output := trim_space out, ev_Success := True\<rparr>), Suc n)))"

datatype run_end = StepsDone | Cancelled | Faulted

definition addEvent :: "chaosEvent \<Rightarrow> ChaosRunner \<Rightarrow> ChaosRunner" where
  "addEvent e r = r\<lparr>cr_events := cr_events r @ [e]\<rparr>"

text \<open>The wait of one step: the runner with the observed version, and when and why the step fires.\<close>

definition stepWait :: "nat \<Rightarrow> ChaosWorld \<Rightarrow> int \<Rightarrow> ChaosStep \<Rightarrow> ChaosRunner \<Rightarrow> nat \<Rightarrow> ((run_end + int) \<times> ChaosRunner \<times> nat) option" where
  "stepWait fuel w cycleStart step r n = (case ch_AfterChange step of
     None \<Rightarrow> (case waitForChaosStep w cycleStart (du_Duration (ch_At step)) n of (ok, n') \<Rightarrow>
         Some (if ok then Inr (cycleStart + du_Duration (ch_At step)) else Inl Cancelled, r, n'))
   | Some ac \<Rightarrow>
       (let initial = map_get (cr_armed r) (ch_Name step) in
        if initial = [] then
          (let msg = ''chaos step '' @ quote (ch_Name step) @ '': trigger was never armed'' in
           Some (Inl Faulted, addEvent ((newEvent r step (cw_Time w n) 0)\<lparr>ev_Trigger := ''after_change'', ev_Command := [], ev_AllowFailure := False,
             ev_FinishedAt := cw_Time w n, ev_Error := msg\<rparr>) (r\<lparr>cr_triggerErr := Some msg\<rparr>), Suc n))
        else (case waitForResourceChange fuel w r ac initial n of
            None \<Rightarrow> None
          | Some (Fired t current, n') \<Rightarrow> Some (Inr t, r\<lparr>cr_observed := (ch_Name step, current) # cr_observed r\<rparr>, n')
          | Some (WaitCancelled, n') \<Rightarrow> Some (Inl Cancelled, r, n')
          | Some (WaitFault e, n') \<Rightarrow>
              if cw_Done w n' then Some (Inl Cancelled, r, Suc n')
              else (let msg = ''chaos step '' @ quote (ch_Name step) @ '': '' @ e in
                Some (Inl Faulted, addEvent ((newEvent r step (cycleStart + du_Duration (ch_At step)) 0)\<lparr>ev_Trigger := ''after_change'', ev_Command := [],
                  ev_AllowFailure := False, ev_InitialResourceVersion := initial, ev_FinishedAt := cw_Time w n', ev_Error := msg\<rparr>)
                  (r\<lparr>cr_triggerErr := Some msg\<rparr>), Suc n')))))"

definition stampEvent :: "ChaosRunner \<Rightarrow> ChaosStep \<Rightarrow> chaosEvent \<Rightarrow> chaosEvent" where
  "stampEvent r step e = (if ch_AfterChange step = None then e\<lparr>ev_Trigger := ''timer''\<rparr>
     else e\<lparr>ev_Trigger := ''after_change'', ev_InitialResourceVersion := map_get (cr_armed r) (ch_Name step),
            ev_ObservedResourceVersion := map_get (cr_observed r) (ch_Name step)\<rparr>)"

fun runSteps :: "nat \<Rightarrow> ChaosWorld \<Rightarrow> int \<Rightarrow> ChaosStep list \<Rightarrow> ChaosRunner \<Rightarrow> nat \<Rightarrow> (run_end \<times> ChaosRunner \<times> nat) option" where
  "runSteps fuel w cycleStart [] r n = Some (StepsDone, r, n)"
| "runSteps fuel w cycleStart (step # steps) r n = (case stepWait fuel w cycleStart step r n of
     None \<Rightarrow> None
   | Some (Inl stop, r1, n1) \<Rightarrow> Some (stop, r1, n1)
   | Some (Inr scheduledAt, r1, n1) \<Rightarrow> (case executeStep w r1 step scheduledAt n1 of (e0, n2) \<Rightarrow>
       (let e = stampEvent r1 step e0; r2 = addEvent e r1 in
        if ev_Error e \<noteq> [] \<and> \<not> ch_AllowFailure step \<and> ch_AfterChange step \<noteq> None then
          Some (Faulted, r2\<lparr>cr_triggerErr := Some (''chaos step '' @ quote (ch_Name step) @ '' failed: '' @ ev_Error e)\<rparr>, n2)
        else runSteps fuel w cycleStart steps r2 n2)))"

fun runCycles :: "nat \<Rightarrow> nat \<Rightarrow> ChaosWorld \<Rightarrow> ChaosRunner \<Rightarrow> nat \<Rightarrow> (run_end \<times> ChaosRunner \<times> nat) option" where
  "runCycles 0 fuel w r n = None"
| "runCycles (Suc cycles) fuel w r n = (case runSteps fuel w (cw_Time w n) (cc_Steps (cr_Config r)) r (Suc n) of
     None \<Rightarrow> None
   | Some (StepsDone, r', n') \<Rightarrow> if cc_Mode (cr_Config r) \<noteq> ''repeat'' then Some (StepsDone, r', n') else runCycles cycles fuel w r' n'
   | Some (stop, r', n') \<Rightarrow> Some (stop, r', n'))"

definition RunChaos :: "nat \<Rightarrow> ChaosWorld \<Rightarrow> ChaosRunner \<Rightarrow> nat \<Rightarrow> (run_end \<times> ChaosRunner \<times> nat) option" where
  "RunChaos fuel w r n = runCycles fuel fuel w r n"

section \<open>Summaries and the run\<close>

definition shouldCancelChaosOnAgentDone :: "ChaosConfig \<Rightarrow> bool" where
  "shouldCancelChaosOnAgentDone cfg \<longleftrightarrow> cc_StopOnAgentDone cfg \<or> cc_Mode cfg = ''repeat''"

record chaosSummary =
  cs_Mode :: string
  cs_StopOnAgentDone :: bool
  cs_Events :: "chaosEvent list"

definition ChaosSnapshot :: "ChaosRunner \<Rightarrow> chaosSummary" where
  "ChaosSnapshot r = \<lparr>cs_Mode = (if cc_Mode (cr_Config r) = [] then ''once'' else cc_Mode (cr_Config r)),
     cs_StopOnAgentDone = shouldCancelChaosOnAgentDone (cr_Config r), cs_Events = cr_events r\<rparr>"

text \<open>The log prints a line per event; the time stamps are formatted by the argument.\<close>

definition chaosLog :: "(int \<Rightarrow> string) \<Rightarrow> chaosSummary \<Rightarrow> string" where
  "chaosLog format s = concat (map (\<lambda>e. format (ev_StartedAt e) @ '' '' @ ev_Name e @ '' '' @ ev_Type e @ '' '' @
     (if ev_Error e \<noteq> [] then ''error: '' @ ev_Error e else ''ok'') @ [CHR 0x0A]) (cs_Events s))"

definition chaosArtifacts :: "(chaosSummary \<Rightarrow> string option) \<Rightarrow> (int \<Rightarrow> string) \<Rightarrow> ChaosRunner option \<Rightarrow> (string \<times> string) option" where
  "chaosArtifacts marshal format r = (case r of
     None \<Rightarrow> None
   | Some c \<Rightarrow> if cs_Events (ChaosSnapshot c) = [] then None
       else (case marshal (ChaosSnapshot c) of None \<Rightarrow> None | Some data \<Rightarrow> Some (data, chaosLog format (ChaosSnapshot c))))"

text \<open>
  Starting the chaos of a run: nothing without steps; otherwise the triggers are armed before the
  agent starts, and a trigger that cannot be armed fails the run.
\<close>

definition startRunChaos :: "ChaosWorld \<Rightarrow> Scenario \<Rightarrow> string \<Rightarrow> nat \<Rightarrow> (string, ChaosRunner option) result \<times> nat" where
  "startRunChaos w s kubeconfigPath n =
     (if cc_Steps (s_Chaos s) = [] then (Inr None, n)
      else (case ArmResourceTriggers w \<lparr>cr_KubeconfigPath = kubeconfigPath, cr_Config = s_Chaos s, cr_events = [], cr_armed = [],
              cr_observed = [], cr_triggerErr = None\<rparr> n of
          (Inl e, n') \<Rightarrow> (Inl (''harness.Run: '' @ e), n')
        | (Inr r, n') \<Rightarrow> (Inr (Some r), n')))"

section \<open>A completed schedule\<close>

text \<open>What the documentation of the command runner promises: an error has a text.\<close>

definition named_errors :: "ChaosWorld \<Rightarrow> bool" where
  "named_errors w \<longleftrightarrow> (\<forall>n a e out. cw_Cmd w n a = (Some e, out) \<longrightarrow> e \<noteq> [])"

text \<open>
  The event of a step that was carried out: a triggered step fired because the version had changed
  from the armed one, and it succeeded unless its failure is allowed.
\<close>

definition carried_out :: "ChaosRunner \<Rightarrow> ChaosStep \<Rightarrow> chaosEvent \<Rightarrow> bool" where
  "carried_out r step e \<longleftrightarrow> ev_Name e = ch_Name step \<and> ev_Type e = ch_Type step \<and> (ev_Success e \<longleftrightarrow> ev_Error e = []) \<and>
     (if ch_AfterChange step = None then ev_Trigger e = ''timer''
      else ev_Trigger e = ''after_change'' \<and> ev_InitialResourceVersion e = map_get (cr_armed r) (ch_Name step) \<and>
        ev_InitialResourceVersion e \<noteq> [] \<and> ev_ObservedResourceVersion e \<noteq> ev_InitialResourceVersion e \<and>
        (ev_Success e \<or> ch_AllowFailure step))"

lemma map_get_Cons [simp]: "map_get ((k, v) # m) k' = (if k' = k then v else map_get m k')"
  by (simp add: map_get_def)

lemma wait_fired:
  "waitForResourceChange fuel w r ac initial n = Some (Fired t current, n') \<Longrightarrow> current \<noteq> initial"
  by (induction fuel w r ac initial n rule: waitForResourceChange.induct) (auto split: if_splits sum.splits)

lemma named_errors_text: "named_errors w \<Longrightarrow> cw_Cmd w n a \<noteq> (Some [], out)"
  by (auto simp: named_errors_def)

lemma executeStep_event:
  assumes "executeStep w r step t n = (e, n')" and "named_errors w"
  shows "ev_Name e = ch_Name step \<and> ev_Type e = ch_Type step \<and> (ev_Success e \<longleftrightarrow> ev_Error e = [])"
  using assms by (auto simp: executeStep_def Let_def newEvent_def named_errors_text split: if_splits option.splits prod.splits)

lemma stepWait_fired:
  assumes "stepWait fuel w c step r n = Some (Inr t, r1, n1)"
  shows "\<exists>obs. r1 = r\<lparr>cr_observed := obs\<rparr> \<and>
    (ch_AfterChange step \<noteq> None \<longrightarrow> map_get (cr_armed r) (ch_Name step) \<noteq> [] \<and> map_get obs (ch_Name step) \<noteq> map_get (cr_armed r) (ch_Name step))"
proof (cases "ch_AfterChange step")
  case None
  then show ?thesis using assms by (auto simp: stepWait_def split: prod.splits intro!: exI [of _ "cr_observed r"])
next
  case (Some ac)
  then show ?thesis using assms
    by (auto simp: stepWait_def Let_def dest: wait_fired split: if_splits option.splits prod.splits wait_result.splits
        intro!: exI [of _ "(_, _) # cr_observed r"])
qed

lemma stepWait_stopped:
  assumes "stepWait fuel w c step r n = Some (Inl stop, r1, n1)"
  shows "cr_armed r1 = cr_armed r \<and> cr_Config r1 = cr_Config r \<and>
    (stop = Cancelled \<and> cr_triggerErr r1 = cr_triggerErr r \<and> cr_events r1 = cr_events r \<or>
     stop = Faulted \<and> (\<exists>msg e. cr_triggerErr r1 = Some msg \<and> cr_events r1 = cr_events r @ [e] \<and> ev_Error e \<noteq> []))"
  using assms
  by (auto simp: stepWait_def Let_def addEvent_def split: if_splits option.splits prod.splits wait_result.splits)

text \<open>What a pass over the steps leaves, by the way it ends.\<close>

definition pass_end :: "ChaosRunner \<Rightarrow> ChaosStep list \<Rightarrow> run_end \<Rightarrow> ChaosRunner \<Rightarrow> bool" where
  "pass_end r steps stop r' \<longleftrightarrow> cr_armed r' = cr_armed r \<and> cr_Config r' = cr_Config r \<and>
     (\<exists>evs. cr_events r' = cr_events r @ evs \<and>
        (case stop of
           StepsDone \<Rightarrow> cr_triggerErr r' = cr_triggerErr r \<and> list_all2 (carried_out r) steps evs
         | Cancelled \<Rightarrow> cr_triggerErr r' = cr_triggerErr r \<and> length evs < length steps
         | Faulted \<Rightarrow> cr_triggerErr r' \<noteq> None \<and> evs \<noteq> [] \<and> ev_Error (last evs) \<noteq> []))"

lemma carried_out_armed: "cr_armed r' = cr_armed r \<Longrightarrow> carried_out r' = carried_out r"
  by (intro ext) (simp add: carried_out_def)

lemma pass_end_Cons:
  assumes "pass_end (addEvent e (r\<lparr>cr_observed := obs\<rparr>)) steps stop r'" and "carried_out r step e"
  shows "pass_end r (step # steps) stop r'"
proof -
  have c: "carried_out (addEvent e (r\<lparr>cr_observed := obs\<rparr>)) = carried_out r"
    by (rule carried_out_armed) (simp add: addEvent_def)
  have f: "cr_events (addEvent e (r\<lparr>cr_observed := obs\<rparr>)) = cr_events r @ [e]" "cr_triggerErr (addEvent e (r\<lparr>cr_observed := obs\<rparr>)) = cr_triggerErr r"
    "cr_armed (addEvent e (r\<lparr>cr_observed := obs\<rparr>)) = cr_armed r" "cr_Config (addEvent e (r\<lparr>cr_observed := obs\<rparr>)) = cr_Config r"
    by (simp_all add: addEvent_def)
  obtain evs where "cr_events r' = cr_events r @ e # evs"
    "case stop of StepsDone \<Rightarrow> cr_triggerErr r' = cr_triggerErr r \<and> list_all2 (carried_out r) steps evs
       | Cancelled \<Rightarrow> cr_triggerErr r' = cr_triggerErr r \<and> length evs < length steps
       | Faulted \<Rightarrow> cr_triggerErr r' \<noteq> None \<and> evs \<noteq> [] \<and> ev_Error (last evs) \<noteq> []"
    "cr_armed r' = cr_armed r" "cr_Config r' = cr_Config r"
    using assms(1) unfolding pass_end_def f c by auto
  then show ?thesis unfolding pass_end_def
    by (intro conjI exI [of _ "e # evs"]) (use assms(2) in \<open>auto split: run_end.splits\<close>)
qed

lemma runSteps_end:
  assumes "named_errors w"
  shows "runSteps fuel w c steps r n = Some (stop, r', n') \<Longrightarrow> pass_end r steps stop r'"
proof (induction steps arbitrary: r n)
  case Nil
  then show ?case by (auto simp: pass_end_def)
next
  case (Cons step steps)
  then obtain o1 r1 n1 where w1: "stepWait fuel w c step r n = Some (o1, r1, n1)" by (auto split: option.splits)
  show ?case
  proof (cases o1)
    case (Inl stop1)
    then show ?thesis using Cons.prems stepWait_stopped [of fuel w c step r n stop1 r1 n1] w1
      by (auto simp: pass_end_def)
  next
    case (Inr t)
    obtain e0 n2 where x: "executeStep w r1 step t n1 = (e0, n2)" by fastforce
    let ?e = "stampEvent r1 step e0"
    obtain obs where obs: "r1 = r\<lparr>cr_observed := obs\<rparr>"
      "ch_AfterChange step \<noteq> None \<longrightarrow> map_get (cr_armed r) (ch_Name step) \<noteq> [] \<and> map_get obs (ch_Name step) \<noteq> map_get (cr_armed r) (ch_Name step)"
      using stepWait_fired w1 Inr by blast
    have e0: "ev_Name e0 = ch_Name step" "ev_Type e0 = ch_Type step" "ev_Success e0 \<longleftrightarrow> ev_Error e0 = []"
      using executeStep_event [OF x assms] by simp_all
    show ?thesis
    proof (cases "ev_Error ?e \<noteq> [] \<and> \<not> ch_AllowFailure step \<and> ch_AfterChange step \<noteq> None")
      case True
      then show ?thesis using Cons.prems w1 Inr x obs(1) by (auto simp: pass_end_def addEvent_def Let_def)
    next
      case False
      have "carried_out r step ?e" using False e0 obs by (auto simp: carried_out_def stampEvent_def)
      moreover have "runSteps fuel w c steps (addEvent ?e r1) n2 = Some (stop, r', n')"
        using Cons.prems w1 Inr x False by (auto simp: Let_def)
      ultimately show ?thesis using Cons.IH pass_end_Cons obs(1) by blast
    qed
  qed
qed

lemma armSteps_armed:
  assumes "armSteps w steps r n = (Inr r', n')" and "step \<in> set steps" and "ch_AfterChange step \<noteq> None"
  shows "map_get (cr_armed r') (ch_Name step) \<noteq> []"
proof -
  have kept: "map_get (cr_armed r1) k \<noteq> [] \<Longrightarrow> armSteps w ss r1 m = (Inr r', n') \<Longrightarrow> map_get (cr_armed r') k \<noteq> []" for ss r1 k m
    by (induction w ss r1 m rule: armSteps.induct)
      (auto simp: resourceVersion_def split: option.splits sum.splits prod.splits if_splits)
  show ?thesis using assms
  proof (induction steps arbitrary: r n)
    case (Cons s ss)
    show ?case
    proof (cases "ch_AfterChange s")
      case (Some ac)
      then obtain rv where rv: "resourceVersion w r ac n = Inr rv" "armSteps w ss (r\<lparr>cr_armed := (ch_Name s, rv) # cr_armed r\<rparr>) (Suc n) = (Inr r', n')"
        using Cons.prems(1) by (auto split: sum.splits)
      have "rv \<noteq> []" using rv(1) by (auto simp: resourceVersion_def split: prod.splits option.splits if_splits)
      then show ?thesis using Cons.IH [OF rv(2)] kept [OF _ rv(2)] Cons.prems(2,3) by auto
    qed (use Cons in auto)
  qed simp
qed

lemma armSteps_keeps:
  "armSteps w steps r n = (Inr r', n') \<Longrightarrow> cr_Config r' = cr_Config r \<and> cr_events r' = cr_events r \<and> cr_triggerErr r' = cr_triggerErr r"
  by (induction w steps r n rule: armSteps.induct) (auto split: option.splits sum.splits)


section \<open>Whether it ends\<close>

text \<open>The context of the runner is done from some moment on.\<close>

definition done_from :: "ChaosWorld \<Rightarrow> nat \<Rightarrow> bool" where
  "done_from w K \<longleftrightarrow> (\<forall>k\<ge>K. cw_Done w k)"

lemma wait_returns:
  assumes "done_from w K"
  shows "K - n < fuel \<Longrightarrow> \<exists>x n'. waitForResourceChange fuel w r ac initial n = Some (x, n') \<and> n < n'"
proof (induction fuel arbitrary: n)
  case (Suc fuel)
  show ?case
  proof (cases "cw_Done w n")
    case False
    then have "n < K" using assms by (meson done_from_def not_le)
    then have "K - Suc n < fuel" using Suc.prems by linarith
    then obtain x n' where "waitForResourceChange fuel w r ac initial (Suc n) = Some (x, n')" "Suc n < n'" using Suc.IH by blast
    then show ?thesis using False by (auto split: sum.split)
  qed simp
qed simp

lemma stepWait_returns:
  assumes "done_from w K" and "K - n < fuel"
  shows "\<exists>x r1 n1. stepWait fuel w c step r n = Some (x, r1, n1) \<and> n < n1"
proof (cases "ch_AfterChange step")
  case None
  then show ?thesis by (auto simp: stepWait_def waitForChaosStep_def split: prod.split)
next
  case (Some ac)
  obtain x n' where "waitForResourceChange fuel w r ac (map_get (cr_armed r) (ch_Name step)) n = Some (x, n')" "n < n'"
    using wait_returns [OF assms] by blast
  then show ?thesis using Some by (cases x) (auto simp: stepWait_def Let_def)
qed

lemma executeStep_moment: "executeStep w r step t n = (e, n') \<Longrightarrow> n' = Suc n"
  by (auto simp: executeStep_def Let_def split: if_splits option.splits prod.splits)

lemma runSteps_returns:
  assumes "done_from w K"
  shows "K - n < fuel \<Longrightarrow> \<exists>x r' n'. runSteps fuel w c steps r n = Some (x, r', n') \<and> n \<le> n'"
proof (induction steps arbitrary: r n)
  case (Cons step steps)
  obtain x r1 n1 where s: "stepWait fuel w c step r n = Some (x, r1, n1)" "n < n1"
    using stepWait_returns [OF assms Cons.prems] by blast
  show ?case
  proof (cases x)
    case (Inr t)
    obtain e n2 where e: "executeStep w r1 step t n1 = (e, n2)" by fastforce
    have "n \<le> n2" using executeStep_moment [OF e] s(2) by simp
    then have "K - n2 < fuel" using Cons.prems by linarith
    from Cons.IH [OF this, of "addEvent (stampEvent r1 step e) r1"] show ?thesis
      using s Inr e \<open>n \<le> n2\<close> by (auto simp: Let_def)
  qed (use s in auto)
qed simp

text \<open>After cancellation a pass that holds a triggered step does not reach its end.\<close>

lemma runSteps_stops:
  assumes "done_from w K"
  shows "K \<le> n \<Longrightarrow> step \<in> set steps \<Longrightarrow> ch_AfterChange step \<noteq> None \<Longrightarrow> runSteps fuel w c steps r n = Some (x, r', n') \<Longrightarrow> x \<noteq> StepsDone"
proof (induction steps arbitrary: r n)
  case (Cons s ss)
  then obtain y r1 n1 where y: "stepWait fuel w c s r n = Some (y, r1, n1)" by (auto split: option.splits)
  show ?case
  proof (cases y)
    case (Inl stop)
    then show ?thesis using Cons.prems(4) y stepWait_stopped by fastforce
  next
    case (Inr t)
    have d: "cw_Done w n" using assms Cons.prems(1) by (simp add: done_from_def)
    have na: "ch_AfterChange s = None"
      using y Inr d by (cases fuel) (auto simp: stepWait_def Let_def split: if_splits option.splits)
    obtain e n2 where e: "executeStep w r1 s t n1 = (e, n2)" by fastforce
    have "n < n1" using y Inr na by (auto simp: stepWait_def waitForChaosStep_def split: prod.splits if_splits)
    then have "K \<le> n2" using executeStep_moment [OF e] Cons.prems(1) by simp
    moreover have "runSteps fuel w c ss (addEvent (stampEvent r1 s e) r1) n2 = Some (x, r', n')"
      using Cons.prems(4) y Inr e na by (auto simp: Let_def)
    ultimately show ?thesis using Cons.IH Cons.prems(2,3) na by auto
  qed
qed simp

lemma runSteps_config: "runSteps fuel w c steps r n = Some (x, r', n') \<Longrightarrow> cr_Config r' = cr_Config r"
proof (induction steps arbitrary: r n)
  case (Cons s ss)
  then obtain y r1 n1 where y: "stepWait fuel w c s r n = Some (y, r1, n1)" by (auto split: option.splits)
  show ?case
  proof (cases y)
    case (Inl stop)
    then show ?thesis using Cons.prems y stepWait_stopped by fastforce
  next
    case (Inr t)
    then have "cr_Config r1 = cr_Config r" using stepWait_fired y by fastforce
    then show ?thesis using Cons y Inr by (auto simp: Let_def addEvent_def split: prod.splits if_splits)
  qed
qed simp

lemma runCycles_returns:
  assumes "done_from w K"
  shows "K - n < fuel \<Longrightarrow> K - n < cycles \<Longrightarrow>
    cc_Mode (cr_Config r) \<noteq> ''repeat'' \<or> (\<exists>step\<in>set (cc_Steps (cr_Config r)). ch_AfterChange step \<noteq> None) \<Longrightarrow>
    \<exists>x. runCycles cycles fuel w r n = Some x"
proof (induction cycles arbitrary: r n)
  case (Suc cycles)
  have "K - Suc n < fuel" using Suc.prems(1) by linarith
  then obtain x r' n' where s: "runSteps fuel w (cw_Time w n) (cc_Steps (cr_Config r)) r (Suc n) = Some (x, r', n')" "Suc n \<le> n'"
    using runSteps_returns [OF assms] by blast
  show ?case
  proof (cases "x = StepsDone \<and> cc_Mode (cr_Config r) = ''repeat''")
    case True
    then obtain step where "step \<in> set (cc_Steps (cr_Config r))" "ch_AfterChange step \<noteq> None" using Suc.prems(3) by blast
    then have "Suc n < K" using runSteps_stops [OF assms _ _ _ s(1)] True by (meson not_le)
    then have "K - n' < cycles" "K - n' < fuel" using Suc.prems(1,2) s(2) by linarith+
    then show ?thesis using Suc.IH [of n' r'] Suc.prems(3) runSteps_config [OF s(1)] s(1) True by simp
  next
    case False
    then show ?thesis using s(1) by (cases x) auto
  qed
qed simp

text \<open>
  C36: chaos ends with its context. If the context of the runner is done from some moment on, the
  runner returns, unless it repeats a schedule of timers only; fuel for the moments until then
  suffices.
\<close>

theorem chaos_ends_with_context:
  assumes "done_from w K" and "K - n < fuel"
    and "cc_Mode (cr_Config r) = ''repeat'' \<Longrightarrow> list_ex (\<lambda>step. ch_AfterChange step \<noteq> None) (cc_Steps (cr_Config r))"
  shows "\<exists>stop r' n'. RunChaos fuel w r n = Some (stop, r', n')"
  using runCycles_returns [OF assms(1,2,2)] assms(3) unfolding RunChaos_def list_ex_iff by fast

text \<open>
  The exception is real: a repeated schedule whose timers are due at once never looks at the context
  and never returns, whatever is cancelled, and the run waits for it.
\<close>

definition immediate :: "ChaosStep \<Rightarrow> bool" where
  "immediate step \<longleftrightarrow> ch_AfterChange step = None \<and> du_Duration (ch_At step) \<le> 0"

lemma runSteps_immediate:
  assumes "\<And>i j. i \<le> j \<Longrightarrow> cw_Time w i \<le> cw_Time w j"
  shows "list_all immediate steps \<Longrightarrow> k \<le> n \<Longrightarrow> \<exists>r' n'. runSteps fuel w (cw_Time w k) steps r n = Some (StepsDone, r', n')"
proof (induction steps arbitrary: r n)
  case (Cons s ss)
  obtain e n2 where e: "executeStep w r s (cw_Time w k + du_Duration (ch_At s)) (Suc n) = (e, n2)" by fastforce
  have "cw_Time w k \<le> cw_Time w n" using assms Cons.prems(2) by blast
  then have "stepWait fuel w (cw_Time w k) s r n = Some (Inr (cw_Time w k + du_Duration (ch_At s)), r, Suc n)"
    using Cons.prems(1) by (simp add: stepWait_def waitForChaosStep_def immediate_def)
  then show ?case using Cons.IH [of n2 "addEvent (stampEvent r s e) r"] Cons.prems e executeStep_moment [OF e]
    by (simp add: immediate_def Let_def)
qed simp

lemma immediate_repeat_never_returns:
  assumes "\<And>i j. i \<le> j \<Longrightarrow> cw_Time w i \<le> cw_Time w j" and "list_all immediate (cc_Steps cfg)" and "cc_Mode cfg = ''repeat''"
  shows "cr_Config r = cfg \<Longrightarrow> runCycles cycles fuel w r n = None"
proof (induction cycles arbitrary: r n)
  case (Suc cycles)
  obtain r' n' where s: "runSteps fuel w (cw_Time w n) (cc_Steps cfg) r (Suc n) = Some (StepsDone, r', n')"
    using runSteps_immediate [OF assms(1,2) le_SucI [OF order_refl]] by blast
  then show ?case using Suc.IH [of r' n'] runSteps_config [OF s] Suc.prems assms(3) by simp
qed simp

section \<open>A run\<close>

text \<open>
  The watched object has version \<open>v1\<close> when the trigger is armed and \<open>v2\<close> from moment 4 on; the
  context is done from moment 20 on.
\<close>

definition chaos_world :: ChaosWorld where
  "chaos_world = \<lparr>cw_Done = (\<lambda>n. 20 \<le> n), cw_Cmd = (\<lambda>n args. (None, if n < 4 then ''v1'' else ''v2'')), cw_Time = int,
     cw_Version = Some, cw_ParseDuration = (\<lambda>_. None)\<rparr>"

definition demo_timer :: ChaosStep where
  "demo_timer = (demo_chaos ''ConfigMaps'')\<lparr>ch_Name := ''t'', ch_AfterChange := None, ch_At := \<lparr>du_Duration = 3, du_Set = True\<rparr>\<rparr>"

definition chaos_scenario :: "string \<Rightarrow> Scenario" where
  "chaos_scenario mode = (demo_scenario ''ConfigMaps'' [])\<lparr>s_Chaos :=
     \<lparr>cc_Mode = mode, cc_StopOnAgentDone = False, cc_Steps = [demo_chaos ''ConfigMaps'', demo_timer]\<rparr>\<rparr>"

definition armed_runner :: "string \<Rightarrow> ChaosRunner" where
  "armed_runner mode = (case startRunChaos chaos_world (chaos_scenario mode) ''kc'' 0 of (Inr (Some r), _) \<Rightarrow> r)"

lemma demo_start: "startRunChaos chaos_world (chaos_scenario ''once'') ''kc'' 0 = (Inr (Some (armed_runner ''once'')), 1)"
  by code_simp


theorem chaos_ends_with_context_witness:
  "\<exists>stop r' n'. RunChaos 30 chaos_world (armed_runner ''repeat'') 1 = Some (stop, r', n')"
proof -
  have d: "done_from chaos_world 20" by (simp add: done_from_def chaos_world_def)
  have l: "list_ex (\<lambda>step. ch_AfterChange step \<noteq> None) (cc_Steps (cr_Config (armed_runner ''repeat'')))" by code_simp
  show ?thesis by (rule chaos_ends_with_context [OF d _ l]) simp
qed

text \<open>
  A repeated schedule keeps the versions armed before the agent started: once the object has changed,
  the triggered step fires again in every cycle, without another change.
\<close>

lemma repeat_fires_without_change:
  "case RunChaos 30 chaos_world (armed_runner ''repeat'') 1 of
     None \<Rightarrow> False
   | Some (_, r, _) \<Rightarrow> length (filter (\<lambda>e. ev_Trigger e = ''after_change'' \<and> ev_Success e \<and> ev_ObservedResourceVersion e = ''v2'') (cr_events r)) > 1"
  by code_simp

text \<open>
  Versions are kept by the name of the step, which may be empty: of two triggers without a name the one armed last
  gives the version for both, so the first fires although its object has not changed.
\<close>

definition unnamed_triggers :: "ChaosStep list" where
  "unnamed_triggers = map (\<lambda>ob. (demo_chaos ''ConfigMaps'')\<lparr>ch_Name := [], ch_AfterChange := Some ((demo_trigger_of ''ConfigMaps'')\<lparr>rc_Name := ob\<rparr>)\<rparr>) [''x'', ''y'']"

definition still_world :: ChaosWorld where
  "still_world = chaos_world\<lparr>cw_Cmd := (\<lambda>n args. (None, if last args = ''/api/v1/namespaces/bench/configmaps/x'' then ''v1'' else ''v2''))\<rparr>"

lemma unnamed_trigger_fires_without_change:
  "(case startRunChaos still_world ((chaos_scenario ''once'')\<lparr>s_Chaos := \<lparr>cc_Mode = [], cc_StopOnAgentDone = False, cc_Steps = unnamed_triggers\<rparr>\<rparr>) ''kc'' 0 of
      (Inr (Some r), n) \<Rightarrow> (case runSteps 5 still_world 0 (take 1 unnamed_triggers) r n of
         Some (StepsDone, r', _) \<Rightarrow> map (\<lambda>e. (ev_InitialResourceVersion e, ev_ObservedResourceVersion e)) (cr_events r') = [(''v2'', ''v1'')]
       | _ \<Rightarrow> False)
    | _ \<Rightarrow> False)"
  by code_simp

end
