(* ===== verification/Run_Setup.thy ===== *)
theory Run_Setup
  imports Case_Isolation Chaos Verifier
begin

text \<open>
  Setting a scenario up and breaking it: the bootstrap plan and its execution (\<^verbatim>\<open>pkg/environment/bootstrap.go\<close>), the
  registered addons (\<^verbatim>\<open>addon.go\<close>), the fault of a scenario (\<^verbatim>\<open>pkg/harness/bootstrap.go\<close>) and the stages of a multi-stage
  scenario (\<^verbatim>\<open>pkg/harness/stages.go\<close>). The theorems say that a plan is carried out step by step up to the first failure and that
  the stages stop at the first failure that is not tolerated.
\<close>

section \<open>Bootstrap\<close>

datatype setup_error =
    BadDuration string | SleepInterrupted string | NoCommand string | StepFailed string
  | BreakPathRequired string | BreakReleaseRequired | BreakChartRequired | UnsupportedBreak string | BreakFailed

definition stepOf :: "BootstrapStep \<Rightarrow> EnvStep" where
  "stepOf step = \<lparr>es_Name = bs_Name step, es_Type = bs_Type step, es_Path = bs_Path step, es_Feature = [],
     es_Release = bs_Release step, es_Namespace = bs_Namespace step, es_Duration = bs_Duration step, es_Args = bs_Args step\<rparr>"

definition buildStepPlan :: "BootstrapStep list \<Rightarrow> EnvStep list" where
  "buildStepPlan steps = map stepOf steps"

definition Requires :: "EnvStep list \<Rightarrow> string \<Rightarrow> bool" where
  "Requires plan feature = list_ex (\<lambda>s. es_Feature s = feature) plan"

definition DefaultBootstrapPlan :: "EnvStep list" where
  "DefaultBootstrapPlan = [\<lparr>es_Name = ''apply-bench-namespace'', es_Type = ''kubectl-apply'', es_Path = ''manifests/core/bench-namespace.yaml'',
     es_Feature = ''namespace'', es_Release = [], es_Namespace = [], es_Duration = [], es_Args = []\<rparr>]"

text \<open>\<^verbatim>\<open>filepath.Dir\<close>: what precedes the last separator, cleaned.\<close>

definition Dir :: "string \<Rightarrow> string" where
  "Dir path = Clean (rev (dropWhile (\<lambda>c. c \<noteq> CHR ''/'') (rev path)))"

definition rootStep :: "string \<Rightarrow> EnvStep \<Rightarrow> EnvStep" where
  "rootStep rootDir s = (if es_Path s \<noteq> [] \<and> rootDir \<noteq> [] \<and> \<not> IsAbs (es_Path s) then s\<lparr>es_Path := Join rootDir (es_Path s)\<rparr> else s)"

definition buildBootstrapPlan :: "Scenario \<Rightarrow> string \<Rightarrow> EnvStep list" where
  "buildBootstrapPlan s scenariosDir = map (rootStep (Dir scenariosDir)) DefaultBootstrapPlan @ buildStepPlan (s_Bootstrap s)"

text \<open>The parser of durations and the state of the context are parameters.\<close>

fun Execute :: "Cluster_Providers.World \<Rightarrow> (string \<Rightarrow> int option) \<Rightarrow> (Trace \<Rightarrow> bool) \<Rightarrow> EnvStep list \<Rightarrow> string \<Rightarrow> setup_error option proc" where
  "Execute w parse cancelled [] kubeconfig = State_Monad.return None"
| "Execute w parse cancelled (step # steps) kubeconfig =
     (if es_Type step = ''sleep'' then
        (case parse (es_Duration step) of
           None \<Rightarrow> State_Monad.return (Some (BadDuration (es_Name step)))
         | Some _ \<Rightarrow> do {
             stop \<leftarrow> observe cancelled;
             if stop then State_Monad.return (Some (SleepInterrupted (es_Name step)))
             else Execute w parse cancelled steps kubeconfig })
      else if CommandArgs step kubeconfig = [] then State_Monad.return (Some (NoCommand (es_Name step)))
      else do {
        (ok, _) \<leftarrow> perform w (Cmd (CommandArgs step kubeconfig));
        if ok then Execute w parse cancelled steps kubeconfig
        else State_Monad.return (Some (StepFailed (es_Name step))) })"

section \<open>Addons\<close>

definition helmStep :: "string \<Rightarrow> string \<Rightarrow> string \<Rightarrow> string \<Rightarrow> string \<Rightarrow> string list \<Rightarrow> EnvStep" where
  "helmStep name feature release chart ns args = \<lparr>es_Name = name, es_Type = ''helm-install'', es_Path = chart, es_Feature = feature,
     es_Release = release, es_Namespace = ns, es_Duration = [], es_Args = args\<rparr>"

definition plainStep :: "string \<Rightarrow> string \<Rightarrow> string \<Rightarrow> string \<Rightarrow> EnvStep" where
  "plainStep name ty feature path = \<lparr>es_Name = name, es_Type = ty, es_Path = path, es_Feature = feature,
     es_Release = [], es_Namespace = [], es_Duration = [], es_Args = []\<rparr>"

definition AddonRegistry :: "(string \<times> EnvStep list) list" where
  "AddonRegistry =
     [(''falco'', [plainStep ''add-falco-helm-repo'' ''shell'' ''addon-falco'' [],
        helmStep ''install-falco'' ''addon-falco'' ''falco'' ''falcosecurity/falco'' ''falco''
          [''--create-namespace'', ''--set'', ''driver.kind=ebpf'', ''--set'', ''falcosidekick.enabled=false'']]),
      (''gatekeeper'', [helmStep ''install-gatekeeper'' ''addon-gatekeeper'' ''gatekeeper'' ''gatekeeper/gatekeeper'' ''gatekeeper-system'' [''--create-namespace'']]),
      (''trivy-operator'', [helmStep ''install-trivy-operator'' ''addon-trivy'' ''trivy-operator'' ''aqua/trivy-operator'' ''trivy-system'' [''--create-namespace'']]),
      (''cilium'', [helmStep ''install-cilium'' ''addon-cilium'' ''cilium'' ''cilium/cilium'' ''kube-system'' [''--set'', ''hubble.enabled=false'']]),
      (''calico'', [plainStep ''install-calico'' ''kubectl-apply'' ''addon-calico''
        ''https://raw.githubusercontent.com/projectcalico/calico/v3.28.0/manifests/calico.yaml''])]"

definition addonSteps1 :: "string \<Rightarrow> string \<Rightarrow> EnvStep list \<times> string list \<Rightarrow> EnvStep list \<times> string list" where
  "addonSteps1 label name acc = (case map_of AddonRegistry name of
     Some steps \<Rightarrow> (fst acc @ steps, snd acc)
   | None \<Rightarrow> (fst acc, snd acc @ [''unknown '' @ label @ '': '' @ quote name]))"

definition AddonSteps :: "string \<Rightarrow> string list \<Rightarrow> EnvStep list \<times> string list" where
  "AddonSteps cni addons =
     fold (addonSteps1 ''addon'') addons (if cni \<noteq> [] then addonSteps1 ''CNI addon'' cni ([], []) else ([], []))"

text \<open>The order of the repositories, a map, is a parameter.\<close>

definition helmRepos :: "(string \<times> string) list" where
  "helmRepos =
     [(''falcosecurity'', ''https://falcosecurity.github.io/charts''),
      (''gatekeeper'', ''https://open-policy-agent.github.io/gatekeeper/charts''),
      (''aqua'', ''https://aquasecurity.github.io/helm-charts''),
      (''cilium'', ''https://helm.cilium.io'')]"

fun addRepos :: "Cluster_Providers.World \<Rightarrow> (string \<times> string) list \<Rightarrow> unit proc" where
  "addRepos w [] = State_Monad.return ()"
| "addRepos w ((name, url) # repos) = do {
     _ \<leftarrow> attempt w (Cmd [''helm'', ''repo'', ''add'', name, url, ''--force-update'']);
     addRepos w repos }"

definition AddHelmRepos :: "Cluster_Providers.World \<Rightarrow> (string \<times> string) list \<Rightarrow> bool proc" where
  "AddHelmRepos w order = do {
     _ \<leftarrow> addRepos w order;
     (ok, _) \<leftarrow> perform w (Cmd [''helm'', ''repo'', ''update'']);
     State_Monad.return ok }"

section \<open>The fault\<close>

definition breakCommandArgs :: "string \<Rightarrow> Break \<Rightarrow> (setup_error, string list) result" where
  "breakCommandArgs kubeconfig b =
     (if br_Type b \<in> {[], ''apply'', ''kubectl-apply''} then
        (if br_Path b = [] then Inl (BreakPathRequired (br_Type b))
         else Inr [''kubectl'', ''--kubeconfig'', kubeconfig, ''apply'', ''-f'', br_Path b])
      else if br_Type b = ''kubectl'' then Inr ([''kubectl'', ''--kubeconfig'', kubeconfig] @ br_Args b)
      else if br_Type b = ''shell'' then Inr ([''bash'', br_Path b, kubeconfig] @ br_Args b)
      else if br_Type b = ''helm-upgrade'' then
        (if br_Name b = [] then Inl BreakReleaseRequired
         else if br_Chart b = [] then Inl BreakChartRequired
         else Inr ([''helm'', ''--kubeconfig'', kubeconfig, ''upgrade'', br_Name b, br_Chart b] @
           (if br_Namespace b \<noteq> [] then [''-n'', br_Namespace b] else []) @
           (if br_Path b \<noteq> [] then [''-f'', br_Path b] else []) @ br_Args b))
      else Inl (UnsupportedBreak (br_Type b)))"

text \<open>
  The variables of the lease, which the process already carries, are added to the command again; they
  are not part of the operation.
\<close>

definition applyBreak :: "Cluster_Providers.World \<Rightarrow> string \<Rightarrow> Break \<Rightarrow> setup_error option proc" where
  "applyBreak w kubeconfig b = (case breakCommandArgs kubeconfig b of
     Inl e \<Rightarrow> State_Monad.return (Some e)
   | Inr args \<Rightarrow> do {
       (ok, _) \<leftarrow> perform w (Cmd args);
       State_Monad.return (if ok \<or> br_AllowFailure b then None else Some BreakFailed) })"

text \<open>The bootstrapper is an optional dependency.\<close>

definition injectSingleStageBreak :: "Cluster_Providers.World \<Rightarrow> (string \<Rightarrow> int option) \<Rightarrow> (Trace \<Rightarrow> bool) \<Rightarrow> bool \<Rightarrow> Scenario \<Rightarrow> string \<Rightarrow> setup_error option proc" where
  "injectSingleStageBreak w parse cancelled bootstrapper s kubeconfig = do {
     err \<leftarrow> (if br_Path (s_Break s) \<noteq> [] \<or> br_Type (s_Break s) = ''kubectl'' \<or> br_Type (s_Break s) = ''shell''
       then applyBreak w kubeconfig (s_Break s) else State_Monad.return None);
     case err of
       Some e \<Rightarrow> State_Monad.return (Some e)
     | None \<Rightarrow> (if bootstrapper \<and> s_AfterBreak s \<noteq> []
         then Execute w parse cancelled (buildStepPlan (s_AfterBreak s)) kubeconfig else State_Monad.return None) }"

fun waitForRollouts :: "Cluster_Providers.World \<Rightarrow> string \<Rightarrow> ScenarioCheck list \<Rightarrow> unit proc" where
  "waitForRollouts w kubeconfig [] = State_Monad.return ()"
| "waitForRollouts w kubeconfig (c # cs) =
     (if sk_Type c \<noteq> ''deployment-ready'' then waitForRollouts w kubeconfig cs
      else do {
        _ \<leftarrow> attempt w (Cmd [''kubectl'', ''--kubeconfig'', kubeconfig, ''rollout'', ''status'', ''deployment/'' @ sk_Name c,
          ''-n'', if sk_Namespace c = [] then DefaultNamespace else sk_Namespace c, ''--timeout=30s'']);
        waitForRollouts w kubeconfig cs })"

section \<open>Stages\<close>

record StageResult =
  sr_Name :: string
  sr_Passed :: bool
  sr_ChecksPassed :: nat
  sr_ChecksTotal :: nat
  sr_Duration :: int

datatype stage_error = StageBreak string setup_error | StageAfterBreak string setup_error | StageInterrupted | StageCheckers string build_error

datatype StageMessage = MemoryWindow int | AgentGoal string

text \<open>
  What the stages see of the outside: the parser of durations, whether the context is done, whether a message is
  taken before that, the rounds of polling after a trace and the clock.
\<close>

record StageEnv =
  sg_Parse :: "string \<Rightarrow> int option"
  sg_Cancelled :: "Trace \<Rightarrow> bool"
  sg_Delivered :: "Trace \<Rightarrow> StageMessage \<Rightarrow> bool"
  sg_Rounds :: "Trace \<Rightarrow> Stage \<Rightarrow> (Verifier.World \<times> bool) list"
  sg_Now :: "Trace \<Rightarrow> int"

definition checksToCheckDefs :: "ScenarioCheck list \<Rightarrow> CheckDef list" where
  "checksToCheckDefs checks = map (\<lambda>c. \<lparr>cd_Type = sk_Type c, cd_Namespace = sk_Namespace c, cd_Name = sk_Name c, cd_Condition = sk_Condition c\<rparr>) checks"

definition countPassed :: "VerifyResult \<Rightarrow> nat" where
  "countPassed r = length (filter (\<lambda>c. cr_Verdict c = CheckPass) (vr_Checks r))"

definition stageMessages :: "Stage \<Rightarrow> StageMessage list" where
  "stageMessages stage =
     (if br_Memory (st_Break stage) \<noteq> [] then [MemoryWindow (if br_Memory (st_Break stage) = ''reset'' then 0 else 3)] else []) @
     (if st_AgentGoal stage \<noteq> [] then [AgentGoal (st_AgentGoal stage)] else [])"

text \<open>Messages go out one after the other, unless the context ends first.\<close>

definition sendMessages :: "StageEnv \<Rightarrow> StageMessage list \<Rightarrow> bool proc" where
  "sendMessages e msgs = observe (\<lambda>tr. list_all (sg_Delivered e tr) msgs)"

definition breakStage :: "Cluster_Providers.World \<Rightarrow> StageEnv \<Rightarrow> bool \<Rightarrow> string \<Rightarrow> Stage \<Rightarrow> stage_error option proc" where
  "breakStage w e bootstrapper kubeconfig stage = do {
     err \<leftarrow> applyBreak w kubeconfig (st_Break stage);
     case err of
       Some x \<Rightarrow> State_Monad.return (Some (StageBreak (st_Name stage) x))
     | None \<Rightarrow> do {
         err \<leftarrow> (if bootstrapper \<and> st_AfterBreak stage \<noteq> []
           then Execute w (sg_Parse e) (sg_Cancelled e) (buildStepPlan (st_AfterBreak stage)) kubeconfig else State_Monad.return None);
         State_Monad.return (map_option (StageAfterBreak (st_Name stage)) err) } }"

text \<open>One stage: its result, or an error; \<open>None\<close> if the rounds end before the polling does.\<close>

definition runStage :: "Cluster_Providers.World \<Rightarrow> StageEnv \<Rightarrow> bool \<Rightarrow> string \<Rightarrow> Stage \<Rightarrow> (stage_error, StageResult) result option proc" where
  "runStage w e bootstrapper kubeconfig stage = do {
     start \<leftarrow> observe (sg_Now e);
     err \<leftarrow> breakStage w e bootstrapper kubeconfig stage;
     case err of
       Some x \<Rightarrow> State_Monad.return (Some (Inl x))
     | None \<Rightarrow> do {
         sent \<leftarrow> sendMessages e (stageMessages stage);
         if \<not> sent then State_Monad.return (Some (Inl StageInterrupted))
         else (case BuildCheckers (checksToCheckDefs (st_Checks stage)) of
             Inl x \<Rightarrow> State_Monad.return (Some (Inl (StageCheckers (st_Name stage) x)))
           | Inr checkers \<Rightarrow> do {
               rounds \<leftarrow> observe (\<lambda>tr. sg_Rounds e tr stage);
               now \<leftarrow> observe (sg_Now e);
               State_Monad.return (map_option (\<lambda>r. Inr \<lparr>sr_Name = st_Name stage, sr_Passed = vr_Passed r, sr_ChecksPassed = countPassed r,
                 sr_ChecksTotal = length (vr_Checks r), sr_Duration = now - start\<rparr>) (PollChecks rounds kubeconfig checkers)) }) } }"

fun runMultiStage :: "Cluster_Providers.World \<Rightarrow> StageEnv \<Rightarrow> bool \<Rightarrow> string \<Rightarrow> Stage list \<Rightarrow> StageResult list \<Rightarrow> (stage_error option \<times> StageResult list) option proc" where
  "runMultiStage w e bootstrapper kubeconfig [] results = State_Monad.return (Some (None, results))"
| "runMultiStage w e bootstrapper kubeconfig (stage # stages) results = do {
     r \<leftarrow> runStage w e bootstrapper kubeconfig stage;
     case r of
       None \<Rightarrow> State_Monad.return None
     | Some (Inl x) \<Rightarrow> State_Monad.return (Some (Some x, results))
     | Some (Inr sr) \<Rightarrow>
         (if sr_Passed sr \<or> st_OnFail stage = ''continue'' then runMultiStage w e bootstrapper kubeconfig stages (results @ [sr])
          else State_Monad.return (Some (None, results @ [sr]))) }"

section \<open>Carrying out a plan\<close>

text \<open>Each step that is not a pause ran its command, in order and with success.\<close>

definition carried :: "string \<Rightarrow> EnvStep list \<Rightarrow> Trace \<Rightarrow> bool" where
  "carried kc plan d \<longleftrightarrow> list_all2 (\<lambda>s x. fst x = Cmd (CommandArgs s kc) \<and> fst (snd x)) (filter (\<lambda>s. es_Type s \<noteq> ''sleep'') plan) d"

lemma emits_observe: "emits (\<lambda>_ d. d = []) (observe f)"
  by (simp add: emits_def)

lemma Execute_carries: "emits (\<lambda>r d. r = None \<longrightarrow> carried kc plan d) (Execute w parse c plan kc)"
proof (induction plan)
  case Nil
  show ?case by (simp add: carried_def emits_def)
next
  case (Cons s plan)
  show ?case
  proof (cases "es_Type s = ''sleep''")
    case True
    then have "carried kc (s # plan) = carried kc plan" by (simp add: carried_def fun_eq_iff)
    then show ?thesis using True Cons.IH
      by (auto intro!: emits_return emits_bind [OF emits_observe] split: option.split)
  next
    case False
    have p: "emits (\<lambda>r d. d = [(Cmd (CommandArgs s kc), r)]) (perform w (Cmd (CommandArgs s kc)))" by (rule emits_perform) simp
    show ?thesis using False
      by (auto intro!: emits_return emits_bind [OF p] emits_mono [OF Cons.IH] simp: carried_def)
  qed
qed

text \<open>
  A bootstrap without an error ran the command of every step of the plan that is not a pause, in the order of the plan and
  each with success.
\<close>

theorem bootstrap_carried_out:
  assumes "run_state (Execute w parse c plan kc) tr = (None, tr')"
  shows "\<exists>d. tr' = tr @ d \<and> carried kc plan d"
  using emits_run [OF Execute_carries assms] by blast

section \<open>The course of the stages\<close>

text \<open>
  The results belong to the stages in order; a failed stage is the last one unless it tolerates its failure, and
  without an error no stage is left out.
\<close>

fun staged :: "bool \<Rightarrow> Stage list \<Rightarrow> StageResult list \<Rightarrow> bool" where
  "staged fin [] rs \<longleftrightarrow> rs = []"
| "staged fin (s # ss) [] \<longleftrightarrow> \<not> fin"
| "staged fin (s # ss) (r # rs) \<longleftrightarrow> sr_Name r = st_Name s \<and> (if sr_Passed r \<or> st_OnFail s = ''continue'' then staged fin ss rs else rs = [])"

lemma runStage_name: "run_state (runStage w e b kc s) tr = (Some (Inr r), tr') \<Longrightarrow> sr_Name r = st_Name s"
  by (auto simp: runStage_def split: prod.splits option.splits if_splits sum.splits)

lemma stages_course:
  "run_state (runMultiStage w e b kc ss acc) tr = (Some (err, out), tr') \<Longrightarrow> \<exists>rs. out = acc @ rs \<and> staged (err = None) ss rs"
proof (induction ss arbitrary: acc tr)
  case (Cons s ss)
  obtain x tr1 where x: "run_state (runStage w e b kc s) tr = (x, tr1)" by fastforce
  show ?case
  proof (cases x)
    case None
    then show ?thesis using Cons.prems x by simp
  next
    case (Some y)
    show ?thesis
    proof (cases y)
      case (Inl z)
      then show ?thesis using Cons.prems x Some by auto
    next
      case (Inr r)
      have n: "sr_Name r = st_Name s" using runStage_name x Some Inr by blast
      show ?thesis
      proof (cases "sr_Passed r \<or> st_OnFail s = ''continue''")
        case True
        then have "run_state (runMultiStage w e b kc ss (acc @ [r])) tr1 = (Some (err, out), tr')" using Cons.prems x Some Inr by auto
        from Cons.IH [OF this] n True show ?thesis by fastforce
      next
        case False
        then show ?thesis using Cons.prems x Some Inr n by auto
      qed
    qed
  qed
qed simp

text \<open>
  The stages of a scenario run in order: the results are those of its first stages, a stage that fails ends the
  run unless it says \<^verbatim>\<open>on_fail: continue\<close>, and only an error or such a failure leaves a stage out.
\<close>

theorem stages_stop_at_failure:
  assumes "run_state (runMultiStage w e b kc (s_Stages s) []) tr = (Some (err, results), tr')"
  shows "staged (err = None) (s_Stages s) results"
  using stages_course [OF assms] by simp

section \<open>A scenario with two stages\<close>

definition demo_stage :: "string \<Rightarrow> Stage" where
  "demo_stage on_fail = \<lparr>st_Name = ''one'', st_Break = demo_break\<lparr>br_Type := ''kubectl'', br_Args := [''delete'', ''pod'', ''web'']\<rparr>, st_AfterBreak = [],
     st_Checks = [], st_Trap = None, st_AgentGoal = ''repair'', st_OnFail = on_fail, st_Timeout = \<lparr>du_Duration = 0, du_Set = False\<rparr>\<rparr>"

definition stage_world :: "Verifier.World" where
  "stage_world = \<lparr>run_cmd = (\<lambda>_. ([], True)), run_script = (\<lambda>_ _. \<lparr>so_Out = [], so_ExitCode = 0, so_ErrText = [], so_CtxErr = False\<rparr>),
     decode_deployment = (\<lambda>_. Inl []), decode_protocol = (\<lambda>_. None)\<rparr>"

definition demo_stages :: StageEnv where
  "demo_stages = \<lparr>sg_Parse = (\<lambda>_. None), sg_Cancelled = (\<lambda>_. False), sg_Delivered = (\<lambda>_ _. True),
     sg_Rounds = (\<lambda>_ _. [(stage_world, True)]), sg_Now = (\<lambda>tr. int (length tr))\<rparr>"

theorem stages_stop_at_failure_witness:
  "staged True (s_Stages ((demo_scenario [] [])\<lparr>s_Stages := [demo_stage [], (demo_stage [])\<lparr>st_Name := ''two''\<rparr>]\<rparr>))
     [\<lparr>sr_Name = ''one'', sr_Passed = True, sr_ChecksPassed = 0, sr_ChecksTotal = 0, sr_Duration = 1\<rparr>,
      \<lparr>sr_Name = ''two'', sr_Passed = True, sr_ChecksPassed = 0, sr_ChecksTotal = 0, sr_Duration = 1\<rparr>]"
proof -
  let ?s = "(demo_scenario [] [])\<lparr>s_Stages := [demo_stage [], (demo_stage [])\<lparr>st_Name := ''two''\<rparr>]\<rparr>"
  let ?m = "runMultiStage calm demo_stages True ''kc'' (s_Stages ?s) []"
  have "fst (run_state ?m []) = Some (None, [\<lparr>sr_Name = ''one'', sr_Passed = True, sr_ChecksPassed = 0, sr_ChecksTotal = 0, sr_Duration = 1\<rparr>,
      \<lparr>sr_Name = ''two'', sr_Passed = True, sr_ChecksPassed = 0, sr_ChecksTotal = 0, sr_Duration = 1\<rparr>])" by code_simp
  then obtain tr' where "run_state ?m [] = (Some (None, [\<lparr>sr_Name = ''one'', sr_Passed = True, sr_ChecksPassed = 0, sr_ChecksTotal = 0, sr_Duration = 1\<rparr>,
      \<lparr>sr_Name = ''two'', sr_Passed = True, sr_ChecksPassed = 0, sr_ChecksTotal = 0, sr_Duration = 1\<rparr>]), tr')" by (metis prod.collapse)
  from stages_stop_at_failure [OF this] show ?thesis by simp
qed

lemma bootstrap_carried_out_witness:
  "\<exists>d. snd (run_state (Execute calm (\<lambda>_. None) (\<lambda>_. False) DefaultBootstrapPlan ''kc'') []) = [] @ d \<and> carried ''kc'' DefaultBootstrapPlan d"
proof -
  have "fst (run_state (Execute calm (\<lambda>_. None) (\<lambda>_. False) DefaultBootstrapPlan ''kc'') []) = None" by code_simp
  then show ?thesis using bootstrap_carried_out [of calm "\<lambda>_. None" "\<lambda>_. False" DefaultBootstrapPlan "''kc''" "[]"] by (metis prod.collapse)
qed

text \<open>The first step of the addon \<^verbatim>\<open>falco\<close> runs a script without a name.\<close>

lemma falco_runs_no_script:
  "map (\<lambda>s. CommandArgs s ''kc'') (take 1 (fst (AddonSteps [] [''falco'']))) = [[''bash'', [], ''kc'']]"
  by code_simp

text \<open>The plan of the default namespace looks beside the scenario directory.\<close>

lemma default_plan_path: "map es_Path (buildBootstrapPlan (demo_scenario [] []) ''/repo/scenarios'') = [''/repo/manifests/core/bench-namespace.yaml'']"
  by code_simp

end
