(* ===== verification/Agent_Tools.thy ===== *)
theory Agent_Tools
  imports Agent_Loop Run_Setup
begin

text \<open>
  The tools of the built-in agent (\<^verbatim>\<open>pkg/agent/tools.go\<close>): the test every shell command passes before it runs, and the
  confinement of written files to the workspace. The test reads the command twice with the same tracking of
  quotes. \<open>command_accepted_iff\<close> states what it accepts over a marking of the characters, \<open>tools_are_confined\<close> what any sequence of tool
  calls does. Replies are values; of their texts only the output of a command is modelled.
\<close>

section \<open>Quotes\<close>

text \<open>Inside single quotes, inside double quotes, after a backslash.\<close>

record Quoting =
  inSingle :: bool
  inDouble :: bool
  escaped :: bool

definition unquoted :: Quoting where
  "unquoted = \<lparr>inSingle = False, inDouble = False, escaped = False\<rparr>"

text \<open>The common head of both scanning loops: \<open>None\<close> when the character is left to the rest of the body.\<close>

definition quoteStep :: "Quoting \<Rightarrow> char \<Rightarrow> Quoting option" where
  "quoteStep q c =
     (if escaped q then Some (q\<lparr>escaped := False\<rparr>)
      else if c = CHR 0x5C \<and> \<not> inSingle q then Some (q\<lparr>escaped := True\<rparr>)
      else if c = CHR 0x27 \<and> \<not> inDouble q then Some (q\<lparr>inSingle := \<not> inSingle q\<rparr>)
      else if c = CHR 0x22 \<and> \<not> inSingle q then Some (q\<lparr>inDouble := \<not> inDouble q\<rparr>)
      else None)"

section \<open>Commands\<close>

datatype command_error =
    Substitution | ProcessSubstitution | Background | UnterminatedQuote | Interactive | WatchMode | FindExecution | NotAllowed

definition allowedCommandPrefixes :: "string list" where
  "allowedCommandPrefixes = [''kubectl'', ''helm'', ''argocd'', ''kind'', ''terraform'', ''aws'', ''kustomize'',
     ''cat'', ''echo'', ''grep'', ''head'', ''tail'', ''wc'', ''ls'', ''find'', ''openssl'',
     ''jq'', ''yq'', ''sed'', ''tee'', ''cp'', ''mkdir'', ''rm'', ''mv'']"

definition blockedSubcommands :: "string list" where
  "blockedSubcommands = [''kubectl edit '', ''kubectl exec -it '', ''kubectl exec -ti '', ''kubectl exec --stdin --tty '', ''kubectl attach '',
     ''kubectl port-forward '', ''kubectl proxy'', ''kubectl run --stdin '', ''kubectl run -it '', ''kubectl run -ti '', ''helm shell'', ''terraform console'']"

definition compoundAllowed :: "string list" where
  "compoundAllowed = [''cd'']"

fun rejectLoop :: "Quoting \<Rightarrow> string \<Rightarrow> command_error option" where
  "rejectLoop q [] = None"
| "rejectLoop q (c # cs) = (case quoteStep q c of
     Some q' \<Rightarrow> rejectLoop q' cs
   | None \<Rightarrow>
       if inSingle q then rejectLoop q cs
       else if c = CHR 0x60 then Some Substitution
       else if c = CHR ''$'' \<and> take 1 cs = ''('' then Some Substitution
       else if (c = CHR ''<'' \<or> c = CHR ''>'') \<and> take 1 cs = ''('' then Some ProcessSubstitution
       else rejectLoop q cs)"

definition rejectShellSubstitution :: "string \<Rightarrow> command_error option" where
  "rejectShellSubstitution cmd = rejectLoop unquoted cmd"

definition appendSegment :: "string \<Rightarrow> string list" where
  "appendSegment s = (let seg = trim_space s in if seg \<noteq> [] then [seg] else [])"

definition more_segments :: "string list \<Rightarrow> ('e, string list) result \<Rightarrow> ('e, string list) result" where
  "more_segments xs r = (case r of Inl e \<Rightarrow> Inl e | Inr ys \<Rightarrow> Inr (xs @ ys))"

text \<open>The text since the last operator is an argument of the loop.\<close>

fun splitLoop :: "Quoting \<Rightarrow> string \<Rightarrow> string \<Rightarrow> (command_error, string list) result" where
  "splitLoop q cur [] = (if inSingle q \<or> inDouble q then Inl UnterminatedQuote else Inr (appendSegment cur))"
| "splitLoop q cur (c # cs) = (case quoteStep q c of
     Some q' \<Rightarrow> splitLoop q' (cur @ [c]) cs
   | None \<Rightarrow>
       if inSingle q \<or> inDouble q then splitLoop q (cur @ [c]) cs
       else if c = CHR 0x0A \<or> c = CHR 0x0D \<or> c = CHR '';'' then more_segments (appendSegment cur) (splitLoop q [] cs)
       else if c = CHR ''&'' then
         (if take 1 cs = ''&'' then more_segments (appendSegment cur) (splitLoop q [] (drop 1 cs)) else Inl Background)
       else if c = CHR ''|'' then
         more_segments (appendSegment cur) (splitLoop q [] (if take 1 cs = ''|'' then drop 1 cs else cs))
       else splitLoop q (cur @ [c]) cs)"

definition splitCompoundCommand :: "string \<Rightarrow> (command_error, string list) result" where
  "splitCompoundCommand cmd = splitLoop unquoted [] cmd"

definition containsFlag :: "string \<Rightarrow> string \<Rightarrow> bool" where
  "containsFlag cmd flag \<longleftrightarrow> str_contains ('' '' @ cmd @ '' '') ('' '' @ flag @ '' '') \<or> has_suffix ('' '' @ cmd) ('' '' @ flag)"

definition startsWith :: "string list \<Rightarrow> string \<Rightarrow> bool" where
  "startsWith ps seg \<longleftrightarrow> list_ex (\<lambda>p. seg = p \<or> has_prefix seg (p @ '' '')) ps"

definition validateSegment :: "string \<Rightarrow> command_error option" where
  "validateSegment seg =
     (if list_ex (\<lambda>b. seg = trim_space b \<or> has_prefix seg b) blockedSubcommands then Some Interactive
      else if has_prefix seg ''kubectl '' \<and> (containsFlag seg ''-w'' \<or> containsFlag seg ''--watch'') then Some WatchMode
      else if has_prefix seg ''find '' \<and> (containsFlag seg ''-exec'' \<or> containsFlag seg ''-execdir'' \<or> containsFlag seg ''-ok'' \<or> containsFlag seg ''-okdir'')
        then Some FindExecution
      else if startsWith allowedCommandPrefixes seg then None
      else if startsWith compoundAllowed seg then None
      else Some NotAllowed)"

definition validateCommand :: "string \<Rightarrow> command_error option" where
  "validateCommand command =
     (let trimmed = trim_space command in
      case rejectShellSubstitution trimmed of
        Some e \<Rightarrow> Some e
      | None \<Rightarrow> (case splitCompoundCommand trimmed of
          Inl e \<Rightarrow> Some e
        | Inr segments \<Rightarrow> first_error validateSegment segments))"

section \<open>Replies and effects\<close>

datatype ToolOp = Ran string string "string list" | MadeDir string | Wrote string string

datatype ProcOutcome = Finished | ExitStatus int | TimedOut | OtherFailure

datatype Lstat = Present | Absent | Uninspectable

datatype path_error =
    WorkspaceUnresolved | WorkspaceMissing | WorkspaceNotDir | NoWorkingDir | EscapesWorkspace | LinksUnresolved | EscapesThroughLink | TargetUninspectable

datatype ToolReply =
    UnknownTool string | BadArguments | CommandRequired | CommandRefused command_error | PathRequired | PathRefused path_error
  | DirRefused | WriteRefused | CommandOutput string | FileWritten nat string

text \<open>
  What the tools find: decoded arguments, variables, the working directory, links, and the outcome of processes and file operations,
  which depend on what the tools did before.
\<close>

record ToolWorld =
  tw_Unmarshal :: "string \<Rightarrow> json option"
  tw_Environ :: "string list"
  tw_Getwd :: "string option"
  tw_Abs :: "string \<Rightarrow> string option"
  tw_Stat :: "ToolOp list \<Rightarrow> string \<Rightarrow> bool option"
  tw_EvalSymlinks :: "ToolOp list \<Rightarrow> string \<Rightarrow> string option"
  tw_Lstat :: "ToolOp list \<Rightarrow> string \<Rightarrow> Lstat"
  tw_MkdirAll :: "ToolOp list \<Rightarrow> string \<Rightarrow> bool"
  tw_WriteFile :: "ToolOp list \<Rightarrow> string \<Rightarrow> bool"
  tw_Process :: "ToolOp list \<Rightarrow> string \<Rightarrow> string \<Rightarrow> string list \<Rightarrow> string \<times> string \<times> ProcOutcome"

record ToolExecutor =
  te_KubeconfigPath :: string
  te_WorkspaceDir :: string
  te_ExtraEnv :: "string list"

text \<open>The empty result means that no workspace is set.\<close>

definition normalizeWorkspaceDir :: "ToolWorld \<Rightarrow> ToolOp list \<Rightarrow> string \<Rightarrow> (path_error, string) result" where
  "normalizeWorkspaceDir tw ops dir =
     (if trim_space dir = [] then Inr []
      else (case tw_Abs tw dir of
          None \<Rightarrow> Inl WorkspaceUnresolved
        | Some absDir \<Rightarrow> (case tw_Stat tw ops absDir of
            None \<Rightarrow> Inl WorkspaceMissing
          | Some isDir \<Rightarrow> if isDir then Inr (Clean absDir) else Inl WorkspaceNotDir)))"

definition toolCommandEnv :: "string list \<Rightarrow> string \<Rightarrow> string list \<Rightarrow> string \<Rightarrow> string list" where
  "toolCommandEnv environ kubeconfig extraEnv workspaceDir =
     environ @ extraEnv @ (if kubeconfig \<noteq> [] then [''KUBECONFIG='' @ kubeconfig] else []) @
     (if workspaceDir \<noteq> [] then [''INFRA_BENCH_WORKSPACE='' @ workspaceDir] else [])"

fun exitCode :: "ProcOutcome \<Rightarrow> int" where
  "exitCode Finished = 0"
| "exitCode (ExitStatus n) = n"
| "exitCode TimedOut = 1"
| "exitCode OtherFailure = 1"

definition commandOutput :: "string \<times> string \<times> ProcOutcome \<Rightarrow> string" where
  "commandOutput p = (case p of (out, err, outcome) \<Rightarrow>
     trim_space (out @ (if err \<noteq> [] then nl @ ''STDERR: '' @ err else []) @
       (if outcome = Finished then []
        else (if outcome = TimedOut then nl @ ''error: command timed out after 1m0s'' else []) @ nl @ ''Exit code: '' @ int_text (exitCode outcome))))"

definition runCommand :: "ToolWorld \<Rightarrow> ToolExecutor \<Rightarrow> string \<Rightarrow> ToolOp list \<Rightarrow> ToolReply \<times> ToolOp list" where
  "runCommand tw e argsJSON ops =
     (case Option.bind (tw_Unmarshal tw argsJSON) (structure_of [] (field_string ''command'' [])) of
        None \<Rightarrow> (BadArguments, ops)
      | Some command \<Rightarrow>
          if command = [] then (CommandRequired, ops)
          else (case validateCommand command of
              Some x \<Rightarrow> (CommandRefused x, ops)
            | None \<Rightarrow> (case normalizeWorkspaceDir tw ops (te_WorkspaceDir e) of
                Inl x \<Rightarrow> (PathRefused x, ops)
              | Inr dir \<Rightarrow>
                  (let env = toolCommandEnv (tw_Environ tw) (te_KubeconfigPath e) (te_ExtraEnv e) dir in
                   (CommandOutput (commandOutput (tw_Process tw ops command dir env)), ops @ [Ran command dir env])))))"

definition pathWithin :: "string \<Rightarrow> string \<Rightarrow> bool" where
  "pathWithin rootDir candidate = (case Rel (Clean rootDir) (Clean candidate) of
     None \<Rightarrow> False
   | Some rel \<Rightarrow> rel = ''.'' \<or> (rel \<noteq> ''..'' \<and> \<not> has_prefix rel ''../'' \<and> \<not> IsAbs rel))"

definition workspaceRoot :: "ToolWorld \<Rightarrow> ToolExecutor \<Rightarrow> ToolOp list \<Rightarrow> (path_error, string) result" where
  "workspaceRoot tw e ops = (case normalizeWorkspaceDir tw ops (te_WorkspaceDir e) of
     Inl x \<Rightarrow> Inl x
   | Inr rootDir \<Rightarrow>
       if rootDir \<noteq> [] then Inr rootDir
       else (case tw_Getwd tw of None \<Rightarrow> Inl NoWorkingDir | Some wd \<Rightarrow> Inr (Clean wd)))"

definition resolveWorkspaceWritePath :: "ToolWorld \<Rightarrow> ToolExecutor \<Rightarrow> ToolOp list \<Rightarrow> string \<Rightarrow> (path_error, string) result" where
  "resolveWorkspaceWritePath tw e ops path = (case workspaceRoot tw e ops of
     Inl x \<Rightarrow> Inl x
   | Inr rootDir \<Rightarrow>
       (let target = (if IsAbs path then Clean path else Clean (Join rootDir path)) in
        if pathWithin rootDir target then Inr target else Inl EscapesWorkspace))"

definition validateResolvedWorkspacePath :: "ToolWorld \<Rightarrow> ToolExecutor \<Rightarrow> ToolOp list \<Rightarrow> string \<Rightarrow> path_error option" where
  "validateResolvedWorkspacePath tw e ops targetPath = (case workspaceRoot tw e ops of
     Inl x \<Rightarrow> Some x
   | Inr rootDir \<Rightarrow> (case tw_EvalSymlinks tw ops rootDir of
       None \<Rightarrow> Some LinksUnresolved
     | Some realRoot \<Rightarrow> (case tw_EvalSymlinks tw ops (Dir targetPath) of
         None \<Rightarrow> Some LinksUnresolved
       | Some realParent \<Rightarrow>
           if \<not> pathWithin realRoot realParent then Some EscapesThroughLink
           else (case tw_Lstat tw ops targetPath of
               Present \<Rightarrow> (case tw_EvalSymlinks tw ops targetPath of
                   None \<Rightarrow> Some LinksUnresolved
                 | Some realTarget \<Rightarrow> if pathWithin realRoot realTarget then None else Some EscapesThroughLink)
             | Absent \<Rightarrow> None
             | Uninspectable \<Rightarrow> Some TargetUninspectable))))"

definition decodeWrite :: "json \<Rightarrow> (string \<times> string) option" where
  "decodeWrite = structure_of ([], []) (\<lambda>kvs. case (field_string ''path'' [] kvs, field_string ''content'' [] kvs) of
     (Some p, Some c) \<Rightarrow> Some (p, c) | _ \<Rightarrow> None)"

definition writeFile :: "ToolWorld \<Rightarrow> ToolExecutor \<Rightarrow> string \<Rightarrow> ToolOp list \<Rightarrow> ToolReply \<times> ToolOp list" where
  "writeFile tw e argsJSON ops =
     (case Option.bind (tw_Unmarshal tw argsJSON) decodeWrite of
        None \<Rightarrow> (BadArguments, ops)
      | Some (path, content) \<Rightarrow>
          if path = [] then (PathRequired, ops)
          else (case resolveWorkspaceWritePath tw e ops path of
              Inl x \<Rightarrow> (PathRefused x, ops)
            | Inr target \<Rightarrow>
                if \<not> tw_MkdirAll tw ops (Dir target) then (DirRefused, ops)
                else (let ops1 = ops @ [MadeDir (Dir target)] in
                  case validateResolvedWorkspacePath tw e ops1 target of
                    Some x \<Rightarrow> (PathRefused x, ops1)
                  | None \<Rightarrow>
                      if tw_WriteFile tw ops1 target then (FileWritten (length content) target, ops1 @ [Wrote target content])
                      else (WriteRefused, ops1))))"

definition ExecuteTool :: "ToolWorld \<Rightarrow> ToolExecutor \<Rightarrow> AgentCall \<Rightarrow> ToolOp list \<Rightarrow> ToolReply \<times> ToolOp list" where
  "ExecuteTool tw e tc ops =
     (if ak_Name tc = ''run_command'' then runCommand tw e (ak_Arguments tc) ops
      else if ak_Name tc = ''write_file'' then writeFile tw e (ak_Arguments tc) ops
      else (UnknownTool (ak_Name tc), ops))"

definition executeCalls :: "ToolWorld \<Rightarrow> ToolExecutor \<Rightarrow> AgentCall list \<Rightarrow> ToolOp list" where
  "executeCalls tw e calls = fold (\<lambda>tc ops. snd (ExecuteTool tw e tc ops)) calls []"

section \<open>What a command is\<close>

text \<open>
  The reference: each character with its role. A character is passive if it is a quotation mark, a backslash or behind
  one; otherwise it lies in quotes of one of the two kinds, or is live.
\<close>

datatype Role = Passive | SingleQuoted | DoubleQuoted | Live

fun mark :: "Quoting \<Rightarrow> string \<Rightarrow> (char \<times> Role) list" where
  "mark q [] = []"
| "mark q (c # cs) = (case quoteStep q c of
     Some q' \<Rightarrow> (c, Passive) # mark q' cs
   | None \<Rightarrow> (c, if inSingle q then SingleQuoted else if inDouble q then DoubleQuoted else Live) # mark q cs)"

fun endQuoting :: "Quoting \<Rightarrow> string \<Rightarrow> Quoting" where
  "endQuoting q [] = q"
| "endQuoting q (c # cs) = endQuoting (case quoteStep q c of Some q' \<Rightarrow> q' | None \<Rightarrow> q) cs"

definition quotesClosed :: "Quoting \<Rightarrow> string \<Rightarrow> bool" where
  "quotesClosed q cs \<longleftrightarrow> \<not> inSingle (endQuoting q cs) \<and> \<not> inDouble (endQuoting q cs)"

text \<open>A command substitutes if outside single quotes it has a backquote, or an opening parenthesis after one of three characters.\<close>

definition opens :: "char \<Rightarrow> Role \<Rightarrow> string \<Rightarrow> bool" where
  "opens c r rest \<longleftrightarrow> (r = Live \<or> r = DoubleQuoted) \<and>
     (c = CHR 0x60 \<or> (c = CHR ''$'' \<or> c = CHR ''<'' \<or> c = CHR ''>'') \<and> take 1 rest = ''('')"

definition substitutes :: "(char \<times> Role) list \<Rightarrow> bool" where
  "substitutes m \<longleftrightarrow> (\<exists>a c r b. m = a @ (c, r) # b \<and> opens c r (map fst b))"

definition separators :: "string list" where
  "separators = [[CHR 0x0A], [CHR 0x0D], '';'', ''&&'', ''|'', ''||'']"

definition unseparated :: "(char \<times> Role) list \<Rightarrow> bool" where
  "unseparated p \<longleftrightarrow> list_all (\<lambda>(c, r). r = Live \<longrightarrow> c \<notin> {CHR 0x0A, CHR 0x0D, CHR '';'', CHR ''&'', CHR ''|''}) p"

text \<open>The simple commands between live separators; every character is in one of them or in a separator.\<close>

inductive commands :: "(char \<times> Role) list \<Rightarrow> string list \<Rightarrow> bool" where
  last: "unseparated p \<Longrightarrow> commands p (appendSegment (map fst p))"
| more: "unseparated p \<Longrightarrow> sep \<in> set separators \<Longrightarrow> commands m segs \<Longrightarrow>
     commands (p @ map (\<lambda>c. (c, Live)) sep @ m) (appendSegment (map fst p) @ segs)"

text \<open>What the code allows as a simple command: its first word is listed, and it is neither interactive nor endless.\<close>

definition permissible :: "string \<Rightarrow> bool" where
  "permissible seg \<longleftrightarrow> takeWhile (\<lambda>c. c \<noteq> CHR '' '') seg \<in> set (allowedCommandPrefixes @ compoundAllowed) \<and>
     (\<forall>b\<in>set blockedSubcommands. seg \<noteq> trim_space b \<and> \<not> has_prefix seg b) \<and>
     \<not> (has_prefix seg ''kubectl '' \<and> (containsFlag seg ''-w'' \<or> containsFlag seg ''--watch'')) \<and>
     \<not> (has_prefix seg ''find '' \<and> list_ex (containsFlag seg) [''-exec'', ''-execdir'', ''-ok'', ''-okdir''])"

lemma map_fst_mark [simp]: "map fst (mark q cs) = cs"
  by (induction q cs rule: mark.induct) (auto split: option.splits)

lemma substitutes_Nil [simp]: "\<not> substitutes []"
  by (simp add: substitutes_def)

lemma substitutes_Cons [simp]: "substitutes ((c, r) # m) \<longleftrightarrow> opens c r (map fst m) \<or> substitutes m"
proof
  assume "substitutes ((c, r) # m)"
  then obtain a c' r' b where "(c, r) # m = a @ (c', r') # b" "opens c' r' (map fst b)" unfolding substitutes_def by blast
  then show "opens c r (map fst m) \<or> substitutes m" unfolding substitutes_def by (cases a) auto
next
  assume "opens c r (map fst m) \<or> substitutes m"
  then show "substitutes ((c, r) # m)" unfolding substitutes_def by (metis append_Cons append_Nil)
qed

lemma rejectLoop_None: "rejectLoop q cs = None \<longleftrightarrow> \<not> substitutes (mark q cs)"
  by (induction q cs rule: rejectLoop.induct) (auto simp: opens_def split: option.splits)

text \<open>A character that is left to the body of a loop outside quotes does not change the tracking.\<close>

definition unguarded :: "Quoting \<Rightarrow> bool" where
  "unguarded q \<longleftrightarrow> \<not> inSingle q \<and> \<not> inDouble q \<and> \<not> escaped q"

lemma quoteStep_operator: "unguarded q \<Longrightarrow> c \<notin> {CHR 0x5C, CHR 0x27, CHR 0x22} \<Longrightarrow> quoteStep q c = None"
  by (simp add: quoteStep_def unguarded_def)

lemma quoteStep_None: "quoteStep q c = None \<Longrightarrow> \<not> inSingle q \<Longrightarrow> \<not> inDouble q \<Longrightarrow> unguarded q"
  by (auto simp: quoteStep_def unguarded_def split: if_splits)

lemma take1_eq: "take 1 cs = [c] \<longleftrightarrow> (\<exists>cs'. cs = c # cs')"
  by (cases cs) auto

lemma more_segments_Inr: "more_segments xs r = Inr zs \<longleftrightarrow> (\<exists>ys. r = Inr ys \<and> zs = xs @ ys)"
  by (cases r) (auto simp: more_segments_def)

lemma unseparated_append [simp]: "unseparated (p @ p') \<longleftrightarrow> unseparated p \<and> unseparated p'"
  by (simp add: unseparated_def)

lemma unseparated_Nil [simp]: "unseparated []"
  by (simp add: unseparated_def)

lemma unseparated_Cons [simp]: "unseparated ((c, r) # p) \<longleftrightarrow> (r = Live \<longrightarrow> c \<notin> {CHR 0x0A, CHR 0x0D, CHR '';'', CHR ''&'', CHR ''|''}) \<and> unseparated p"
  by (simp add: unseparated_def)

lemma commands_more: "unseparated p \<Longrightarrow> map fst p = cur \<Longrightarrow> sep \<in> set separators \<Longrightarrow> commands m segs \<Longrightarrow>
    commands (p @ map (\<lambda>c. (c, Live)) sep @ m) (appendSegment cur @ segs)"
  using commands.more by blast

lemma mark_live:
  assumes "unguarded q" and "c \<notin> {CHR 0x5C, CHR 0x27, CHR 0x22}"
  shows "mark q (c # cs) = (c, Live) # mark q cs" and "endQuoting q (c # cs) = endQuoting q cs"
  using quoteStep_operator [OF assms] assms(1) by (simp_all add: unguarded_def)

lemma mark_separator:
  assumes "unguarded q" and "sep \<in> set separators"
  shows "mark q (sep @ rest) = map (\<lambda>c. (c, Live)) sep @ mark q rest" and "endQuoting q (sep @ rest) = endQuoting q rest"
proof -
  have "\<forall>c\<in>set sep. c \<notin> {CHR 0x5C, CHR 0x27, CHR 0x22}" using assms(2) by (auto simp: separators_def)
  then show "mark q (sep @ rest) = map (\<lambda>c. (c, Live)) sep @ mark q rest" and "endQuoting q (sep @ rest) = endQuoting q rest"
    by (induction sep) (simp_all add: mark_live [OF assms(1)] del: mark.simps endQuoting.simps)
qed

lemma splitLoop_newline:
  assumes "unguarded q" and "c \<in> {CHR 0x0A, CHR 0x0D, CHR '';''}"
  shows "splitLoop q cur (c # cs) = more_segments (appendSegment cur) (splitLoop q [] cs)"
proof -
  have "quoteStep q c = None" by (rule quoteStep_operator [OF assms(1)]) (use assms(2) in auto)
  then show ?thesis using assms by (simp add: unguarded_def)
qed

lemma splitLoop_and:
  assumes "unguarded q"
  shows "splitLoop q cur (CHR ''&'' # cs) = (if take 1 cs = ''&'' then more_segments (appendSegment cur) (splitLoop q [] (drop 1 cs)) else Inl Background)"
proof -
  have "quoteStep q (CHR ''&'') = None" by (rule quoteStep_operator [OF assms]) simp
  then show ?thesis using assms by (simp add: unguarded_def)
qed

lemma splitLoop_or:
  assumes "unguarded q"
  shows "splitLoop q cur (CHR ''|'' # cs) = more_segments (appendSegment cur) (splitLoop q [] (if take 1 cs = ''|'' then drop 1 cs else cs))"
proof -
  have "quoteStep q (CHR ''|'') = None" by (rule quoteStep_operator [OF assms]) simp
  then show ?thesis using assms by (simp add: unguarded_def)
qed

text \<open>One step of the loop that finds no separator only lengthens the current text.\<close>

lemma splitLoop_plain:
  assumes "unseparated [(c, r)]" and "mark q (c # cs) = (c, r) # mark q' cs"
    and "q' = (case quoteStep q c of Some q' \<Rightarrow> q' | None \<Rightarrow> q)"
  shows "splitLoop q cur (c # cs) = splitLoop q' (cur @ [c]) cs"
proof (cases "quoteStep q c")
  case (Some a)
  then show ?thesis using assms(3) by simp
next
  case None
  have "r = (if inSingle q then SingleQuoted else if inDouble q then DoubleQuoted else Live)" using assms(2) None by simp
  then show ?thesis using assms(1,3) None by (simp split: if_splits)
qed

lemma mark_Cons:
  obtains r where "mark q (c # cs) = (c, r) # mark (case quoteStep q c of Some q' \<Rightarrow> q' | None \<Rightarrow> q) cs"
    and "\<not> unseparated [(c, r)] \<Longrightarrow> unguarded q \<and> r = Live"
proof (cases "quoteStep q c")
  case None
  show ?thesis
    by (rule that [of "if inSingle q then SingleQuoted else if inDouble q then DoubleQuoted else Live"])
      (use None quoteStep_None [OF None] in \<open>auto split: if_splits\<close>)
next
  case (Some q')
  then show ?thesis using that [of Passive] by simp
qed

lemma splitLoop_sound:
  assumes "splitLoop q cur cs = Inr segs" and "unseparated p" and "map fst p = cur"
  shows "quotesClosed q cs \<and> commands (p @ mark q cs) segs"
  using assms
proof (induction "length cs" arbitrary: q cur cs p segs rule: less_induct)
  case less
  show ?case
  proof (cases cs)
    case Nil
    then show ?thesis using less.prems commands.last [of p] by (auto simp: quotesClosed_def split: if_splits)
  next
    case (Cons c cs')
    obtain r where r: "mark q (c # cs') = (c, r) # mark (case quoteStep q c of Some q' \<Rightarrow> q' | None \<Rightarrow> q) cs'"
      and np: "\<not> unseparated [(c, r)] \<Longrightarrow> unguarded q \<and> r = Live" using mark_Cons [of q c cs'] by blast
    show ?thesis
    proof (cases "unseparated [(c, r)]")
      case True
      let ?q = "case quoteStep q c of Some q' \<Rightarrow> q' | None \<Rightarrow> q"
      have "splitLoop ?q (cur @ [c]) cs' = Inr segs" using less.prems(1) splitLoop_plain [OF True r refl] Cons by simp
      then have "quotesClosed ?q cs' \<and> commands ((p @ [(c, r)]) @ mark ?q cs') segs"
        using less.hyps [of cs' ?q "cur @ [c]" segs "p @ [(c, r)]"] less.prems(2,3) True Cons by simp
      then show ?thesis using r Cons by (simp add: quotesClosed_def)
    next
      case False
      then have l: "unguarded q" and sep: "c \<in> {CHR 0x0A, CHR 0x0D, CHR '';'', CHR ''&'', CHR ''|''}" using np by auto
      have step: ?thesis if rest: "cs = sep @ rest" and sep: "sep \<in> set separators"
        and m: "more_segments (appendSegment cur) (splitLoop q [] rest) = Inr segs" for sep rest
      proof -
        obtain ys where ys: "splitLoop q [] rest = Inr ys" "segs = appendSegment cur @ ys" using m more_segments_Inr by blast
        have "sep \<noteq> []" using sep by (auto simp: separators_def)
        then have "quotesClosed q rest \<and> commands (mark q rest) ys" using less.hyps [OF _ ys(1), of "[]"] rest by simp
        then show ?thesis using commands_more [OF less.prems(2,3) sep] mark_separator [OF l sep] ys(2) rest by (simp add: quotesClosed_def)
      qed
      from sep consider "c \<in> {CHR 0x0A, CHR 0x0D, CHR '';''}" | "c = CHR ''&''" | "c = CHR ''|''" by blast
      then show ?thesis
      proof cases
        case 1
        then have "[c] \<in> set separators" by (auto simp: separators_def)
        then show ?thesis using step [of "[c]" cs'] less.prems(1) splitLoop_newline [OF l 1] Cons by simp
      next
        case 2
        then obtain cs2 where cs2: "cs' = CHR ''&'' # cs2" "more_segments (appendSegment cur) (splitLoop q [] cs2) = Inr segs"
          using less.prems(1) splitLoop_and [OF l, of cur cs'] Cons take1_eq [of cs' "CHR ''&''"] by (auto split: if_splits)
        show ?thesis by (rule step [of "''&&''" cs2]) (use Cons 2 cs2 in \<open>simp_all add: separators_def\<close>)
      next
        case 3
        then have m: "more_segments (appendSegment cur) (splitLoop q [] (if take 1 cs' = ''|'' then drop 1 cs' else cs')) = Inr segs"
          using less.prems(1) splitLoop_or [OF l, of cur cs'] Cons by simp
        show ?thesis
        proof (cases "take 1 cs' = ''|''")
          case True
          then obtain cs2 where cs2: "cs' = CHR ''|'' # cs2" unfolding take1_eq by (rule exE)
          show ?thesis by (rule step [of "''||''" cs2]) (use Cons 3 m cs2 in \<open>simp_all add: separators_def\<close>)
        next
          case False
          show ?thesis by (rule step [of "''|''" cs']) (use Cons 3 m False in \<open>simp_all add: separators_def\<close>)
        qed
      qed
    qed
  qed
qed

text \<open>Bars in a row separate like one.\<close>

lemma more_segments_empty [simp]: "more_segments (appendSegment []) x = x"
  by (cases x) (simp_all add: more_segments_def appendSegment_def trim_space_def)

lemma splitLoop_bar:
  assumes "unguarded q"
  shows "splitLoop q [] (if take 1 cs = ''|'' then drop 1 cs else cs) = splitLoop q [] cs"
proof (induction "length cs" arbitrary: cs rule: less_induct)
  case less
  show ?case
  proof (cases "take 1 cs = ''|''")
    case True
    then obtain cs' where cs: "cs = CHR ''|'' # cs'" unfolding take1_eq by (rule exE)
    then have "splitLoop q [] cs = splitLoop q [] (if take 1 cs' = ''|'' then drop 1 cs' else cs')"
      by (simp only: splitLoop_or [OF assms] more_segments_empty)
    also have "\<dots> = splitLoop q [] cs'" using less [of cs'] cs by simp
    finally have "splitLoop q [] cs = splitLoop q [] cs'" .
    moreover have "(if take 1 cs = ''|'' then drop 1 cs else cs) = cs'" using cs by simp
    ultimately show ?thesis by metis
  qed simp
qed

lemma splitLoop_separator:
  assumes "unguarded q" and "sep \<in> set separators"
  shows "splitLoop q cur (sep @ rest) = more_segments (appendSegment cur) (splitLoop q [] rest)"
proof -
  from assms(2) consider c where "sep = [c]" "c \<in> {CHR 0x0A, CHR 0x0D, CHR '';''}" | "sep = ''&&''" | "sep = ''|''" | "sep = ''||''"
    by (auto simp: separators_def)
  then show ?thesis
  proof cases
    case 1
    then show ?thesis using splitLoop_newline [OF assms(1)] by (simp del: splitLoop.simps)
  next
    case 2
    then show ?thesis using splitLoop_and [OF assms(1)] by (simp del: splitLoop.simps)
  next
    case 3
    then show ?thesis by (simp only: append_Cons append_Nil splitLoop_or [OF assms(1)] splitLoop_bar [OF assms(1)])
  next
    case 4
    then show ?thesis using splitLoop_or [OF assms(1)] by (simp del: splitLoop.simps)
  qed
qed

lemma splitLoop_prefix:
  assumes "mark q cs = p @ m" and "unseparated p"
  obtains q' cs' where "cs = map fst p @ cs'" "mark q' cs' = m" "endQuoting q cs = endQuoting q' cs'"
    "splitLoop q cur cs = splitLoop q' (cur @ map fst p) cs'"
  using assms
proof (induction p arbitrary: q cs cur thesis)
  case Nil
  then show ?case by simp
next
  case (Cons x p)
  obtain c cs1 where cs: "cs = c # cs1" using Cons.prems(2) by (cases cs) auto
  obtain r where r: "mark q (c # cs1) = (c, r) # mark (case quoteStep q c of Some q' \<Rightarrow> q' | None \<Rightarrow> q) cs1"
    using mark_Cons [of q c cs1] by blast
  let ?q = "case quoteStep q c of Some q' \<Rightarrow> q' | None \<Rightarrow> q"
  have x: "x = (c, r)" and m: "mark ?q cs1 = p @ m" using Cons.prems(2) r cs by auto
  have pl: "unseparated [(c, r)]" "unseparated p" using Cons.prems(3) x by auto
  obtain q' cs' where q': "cs1 = map fst p @ cs'" "mark q' cs' = m" "endQuoting ?q cs1 = endQuoting q' cs'"
    "splitLoop ?q (cur @ [c]) cs1 = splitLoop q' ((cur @ [c]) @ map fst p) cs'"
    by (rule Cons.IH [OF _ m pl(2)])
  show ?case by (rule Cons.prems(1) [of cs' q']) (use q' splitLoop_plain [OF pl(1) r refl, of cur] cs x in simp_all)
qed

lemma splitLoop_complete:
  assumes "commands m segs" and "mark q cs = m" and "quotesClosed q cs"
  shows "splitLoop q [] cs = Inr segs"
  using assms
proof (induction arbitrary: q cs rule: commands.induct)
  case (last p)
  have "mark q cs = p @ []" using last.prems(1) by simp
  from splitLoop_prefix [OF this last.hyps, where cur = "[]"] obtain q' cs' where q': "mark q' cs' = []" "endQuoting q cs = endQuoting q' cs'"
    "splitLoop q [] cs = splitLoop q' (map fst p) cs'" by (metis append_Nil)
  have "cs' = []" using q'(1) by (metis list.simps(8) map_fst_mark)
  then show ?case using q'(2,3) last.prems(2) by (simp add: quotesClosed_def)
next
  case (more p sep m segs)
  from splitLoop_prefix [OF more.prems(1) more.hyps(1), where cur = "[]"] obtain q' cs' where q': "mark q' cs' = map (\<lambda>c. (c, Live)) sep @ m"
    "endQuoting q cs = endQuoting q' cs'" "splitLoop q [] cs = splitLoop q' (map fst p) cs'" by (metis append_Nil)
  obtain rest where cs': "cs' = sep @ rest" using arg_cong [OF q'(1), of "map fst"] by (auto simp: comp_def)
  obtain c sep' where sep: "sep = c # sep'" and c: "\<not> unseparated [(c, Live)]" using more.hyps(2) by (auto simp: separators_def)
  obtain r where r: "mark q' (c # sep' @ rest) = (c, r) # mark (case quoteStep q' c of Some q \<Rightarrow> q | None \<Rightarrow> q') (sep' @ rest)"
    "\<not> unseparated [(c, r)] \<Longrightarrow> unguarded q' \<and> r = Live" using mark_Cons [of q' c "sep' @ rest"] by blast
  have l: "unguarded q'" using r q'(1) c cs' sep by auto
  note mk = mark_separator [OF l more.hyps(2), of rest]
  have "splitLoop q' [] rest = Inr segs"
    by (rule more.IH) (use mk q'(1,2) cs' more.prems(2) in \<open>simp_all add: quotesClosed_def\<close>)
  then show ?case using q'(3) splitLoop_separator [OF l more.hyps(2), of _ rest] cs' by (simp add: more_segments_def)
qed

text \<open>The first word of an allowed command.\<close>

lemma startsWith_iff:
  assumes "\<forall>p\<in>set ps. CHR '' '' \<notin> set p"
  shows "startsWith ps seg \<longleftrightarrow> takeWhile (\<lambda>c. c \<noteq> CHR '' '') seg \<in> set ps"
proof -
  have w: "seg = p \<or> has_prefix seg (p @ '' '') \<longleftrightarrow> takeWhile (\<lambda>c. c \<noteq> CHR '' '') seg = p" if "CHR '' '' \<notin> set p" for p
  proof
    assume "seg = p \<or> has_prefix seg (p @ '' '')"
    then consider "seg = p" | t where "seg = p @ CHR '' '' # t" by (auto simp: has_prefix_iff)
    then show "takeWhile (\<lambda>c. c \<noteq> CHR '' '') seg = p" using that by cases (auto simp: takeWhile_append takeWhile_eq_all_conv)
  next
    assume a: "takeWhile (\<lambda>c. c \<noteq> CHR '' '') seg = p"
    show "seg = p \<or> has_prefix seg (p @ '' '')"
    proof (cases "dropWhile (\<lambda>c. c \<noteq> CHR '' '') seg")
      case Nil
      then show ?thesis using a by (metis append_Nil2 takeWhile_dropWhile_id)
    next
      case (Cons d ds)
      then have "d = CHR '' ''" by (metis (full_types) dropWhile_eq_Cons_conv)
      then show ?thesis using a Cons by (metis append.assoc append_Cons append_Nil has_prefix_iff takeWhile_dropWhile_id)
    qed
  qed
  show ?thesis unfolding startsWith_def using assms w by (auto simp: list_ex_iff)
qed

lemma validateSegment_None: "validateSegment seg = None \<longleftrightarrow> permissible seg"
proof -
  have a: "\<forall>p\<in>set allowedCommandPrefixes. CHR '' '' \<notin> set p" and c: "\<forall>p\<in>set compoundAllowed. CHR '' '' \<notin> set p" by code_simp+
  show ?thesis unfolding validateSegment_def permissible_def startsWith_iff [OF a] startsWith_iff [OF c]
    by (auto simp: list_ex_iff)
qed


section \<open>What the tools do\<close>

text \<open>
  A command that ran was accepted and ran in the workspace with the environment of the run; a file was written below the
  workspace, by its name and by what its directory and itself resolve to.
\<close>

fun confined :: "ToolWorld \<Rightarrow> ToolExecutor \<Rightarrow> ToolOp list \<Rightarrow> ToolOp \<Rightarrow> bool" where
  "confined tw e ops (Ran command dir env) \<longleftrightarrow> validateCommand command = None \<and>
     normalizeWorkspaceDir tw ops (te_WorkspaceDir e) = Inr dir \<and> env = toolCommandEnv (tw_Environ tw) (te_KubeconfigPath e) (te_ExtraEnv e) dir"
| "confined tw e ops (MadeDir d) \<longleftrightarrow>
     (\<exists>rootDir target. workspaceRoot tw e ops = Inr rootDir \<and> d = Dir target \<and> prefix (elems rootDir) (elems target))"
| "confined tw e ops (Wrote target content) \<longleftrightarrow>
     (\<exists>rootDir realRoot realParent. workspaceRoot tw e ops = Inr rootDir \<and> prefix (elems rootDir) (elems target) \<and>
        tw_EvalSymlinks tw ops rootDir = Some realRoot \<and> tw_EvalSymlinks tw ops (Dir target) = Some realParent \<and>
        prefix (elems realRoot) (elems realParent) \<and>
        (tw_Lstat tw ops target \<noteq> Absent \<longrightarrow>
           (\<exists>real. tw_EvalSymlinks tw ops target = Some real \<and> prefix (elems realRoot) (elems real))))"

definition all_confined :: "ToolWorld \<Rightarrow> ToolExecutor \<Rightarrow> ToolOp list \<Rightarrow> bool" where
  "all_confined tw e ops \<longleftrightarrow> (\<forall>before op after. ops = before @ op # after \<longrightarrow> confined tw e before op)"

text \<open>Absolute paths come out of the operations that yield them.\<close>

definition absolute_paths :: "ToolWorld \<Rightarrow> bool" where
  "absolute_paths tw \<longleftrightarrow> (\<forall>p a. tw_Abs tw p = Some a \<longrightarrow> IsAbs a) \<and> (\<forall>d. tw_Getwd tw = Some d \<longrightarrow> IsAbs d) \<and>
     (\<forall>ops p real. IsAbs p \<longrightarrow> tw_EvalSymlinks tw ops p = Some real \<longrightarrow> IsAbs real)"

lemma pathWithin_iff:
  assumes "IsAbs rootDir" and "IsAbs p"
  shows "pathWithin rootDir p \<longleftrightarrow> prefix (elems rootDir) (elems p)"
proof -
  have "pathWithin rootDir p \<longleftrightarrow> pathWithinRoot (Clean rootDir) (Clean p)"
    by (auto simp: pathWithin_def pathWithinRoot_def has_prefix_def IsAbs_def split: option.split)
  also have "\<dots> \<longleftrightarrow> prefix (elems (Clean rootDir)) (elems (Clean p))" using pathWithinRoot_iff [of "Clean rootDir" "Clean p"] assms by simp
  finally show ?thesis using elems_Clean_inside [OF elems_abs [OF assms(1)]] elems_Clean_inside [OF elems_abs [OF assms(2)]] by simp
qed

lemma IsAbs_Dir: "IsAbs p \<Longrightarrow> IsAbs (Dir p)"
proof -
  assume "IsAbs p"
  then obtain t where p: "p = CHR ''/'' # t" by (auto simp: IsAbs_def has_prefix_iff)
  have "dropWhile (\<lambda>c. c \<noteq> CHR ''/'') (rev t @ [CHR ''/'']) = dropWhile (\<lambda>c. c \<noteq> CHR ''/'') (rev t) @ [CHR ''/'']"
    by (induction "rev t") (auto simp: dropWhile_append)
  then have "Dir p = Clean (CHR ''/'' # rev (dropWhile (\<lambda>c. c \<noteq> CHR ''/'') (rev t)))" using p by (simp add: Dir_def)
  then show ?thesis by (simp add: IsAbs_def [of "CHR ''/'' # _"] has_prefix_def)
qed

lemma all_confined_snoc:
  assumes "all_confined tw e ops" and "confined tw e ops op"
  shows "all_confined tw e (ops @ [op])"
  unfolding all_confined_def
proof (intro allI impI)
  fix before x after
  assume "ops @ [op] = before @ x # after"
  then show "confined tw e before x" using assms by (cases after rule: rev_cases) (auto simp: all_confined_def)
qed

lemma workspaceRoot_abs: "absolute_paths tw \<Longrightarrow> workspaceRoot tw e ops = Inr rootDir \<Longrightarrow> IsAbs rootDir"
  by (auto simp: workspaceRoot_def normalizeWorkspaceDir_def absolute_paths_def split: if_splits option.splits)

lemma resolved_target:
  assumes "absolute_paths tw" and "resolveWorkspaceWritePath tw e ops path = Inr target"
  obtains rootDir where "workspaceRoot tw e ops = Inr rootDir" "IsAbs rootDir" "IsAbs target" "prefix (elems rootDir) (elems target)"
proof -
  from assms(2) obtain rootDir where r: "workspaceRoot tw e ops = Inr rootDir" and t: "target = (if IsAbs path then Clean path else Clean (Join rootDir path))"
    and w: "pathWithin rootDir target"
    by (auto simp: resolveWorkspaceWritePath_def Let_def split: sum.splits if_splits)
  have a: "IsAbs rootDir" using workspaceRoot_abs [OF assms(1) r] .
  then have "IsAbs (Join rootDir path)" by (auto simp: Join_def) (auto simp: IsAbs_def has_prefix_iff)
  then have "IsAbs target" using t by simp
  then show ?thesis using that r a w pathWithin_iff by blast
qed

lemma resolved_links:
  assumes "absolute_paths tw" and "validateResolvedWorkspacePath tw e ops target = None" and "IsAbs target"
  shows "\<exists>rootDir realRoot realParent. workspaceRoot tw e ops = Inr rootDir \<and>
    tw_EvalSymlinks tw ops rootDir = Some realRoot \<and> tw_EvalSymlinks tw ops (Dir target) = Some realParent \<and> prefix (elems realRoot) (elems realParent) \<and>
    (tw_Lstat tw ops target \<noteq> Absent \<longrightarrow> (\<exists>real. tw_EvalSymlinks tw ops target = Some real \<and> prefix (elems realRoot) (elems real)))"
proof -
  from assms(2) obtain rootDir realRoot realParent where r: "workspaceRoot tw e ops = Inr rootDir" "tw_EvalSymlinks tw ops rootDir = Some realRoot"
    "tw_EvalSymlinks tw ops (Dir target) = Some realParent" "pathWithin realRoot realParent"
    and l: "tw_Lstat tw ops target \<noteq> Absent \<longrightarrow> (\<exists>real. tw_EvalSymlinks tw ops target = Some real \<and> pathWithin realRoot real)"
    by (auto simp: validateResolvedWorkspacePath_def split: sum.splits option.splits if_splits Lstat.splits)
  have a: "IsAbs realRoot" "IsAbs realParent" "\<And>real. tw_EvalSymlinks tw ops target = Some real \<Longrightarrow> IsAbs real"
    using assms(1,3) r workspaceRoot_abs [OF assms(1) r(1)] IsAbs_Dir unfolding absolute_paths_def by blast+
  show ?thesis using r l pathWithin_iff a by metis
qed

lemma workspaceRoot_same: "workspaceRoot tw e ops = Inr r \<Longrightarrow> workspaceRoot tw e ops' = Inr r' \<Longrightarrow> r = r'"
  by (auto simp: workspaceRoot_def normalizeWorkspaceDir_def split: if_splits option.splits)

lemma runCommand_confined:
  assumes "all_confined tw e ops"
  shows "all_confined tw e (snd (runCommand tw e args ops))"
  using assms all_confined_snoc [OF assms] by (auto simp: runCommand_def Let_def split: option.split sum.split)

lemma writeFile_confined:
  assumes "absolute_paths tw" and "all_confined tw e ops"
  shows "all_confined tw e (snd (writeFile tw e args ops))"
proof -
  have made: "all_confined tw e (ops @ [MadeDir (Dir target)]) \<and>
      (validateResolvedWorkspacePath tw e (ops @ [MadeDir (Dir target)]) target = None \<longrightarrow>
       all_confined tw e ((ops @ [MadeDir (Dir target)]) @ [Wrote target content]))"
    if t: "resolveWorkspaceWritePath tw e ops path = Inr target" for path content target
  proof -
    let ?ops = "ops @ [MadeDir (Dir target)]"
    obtain rootDir where r: "workspaceRoot tw e ops = Inr rootDir" "IsAbs target" "prefix (elems rootDir) (elems target)"
      using resolved_target [OF assms(1) t] by blast
    have m: "all_confined tw e ?ops" by (rule all_confined_snoc [OF assms(2)]) (use r in auto)
    moreover have "confined tw e ?ops (Wrote target content)" if v: "validateResolvedWorkspacePath tw e ?ops target = None"
    proof -
      obtain rootDir' realRoot realParent where l: "workspaceRoot tw e ?ops = Inr rootDir'" "tw_EvalSymlinks tw ?ops rootDir' = Some realRoot"
        "tw_EvalSymlinks tw ?ops (Dir target) = Some realParent" "prefix (elems realRoot) (elems realParent)"
        "tw_Lstat tw ?ops target \<noteq> Absent \<longrightarrow> (\<exists>real. tw_EvalSymlinks tw ?ops target = Some real \<and> prefix (elems realRoot) (elems real))"
        using resolved_links [OF assms(1) v r(2)] by blast
      have "rootDir' = rootDir" using workspaceRoot_same [OF l(1) r(1)] .
      then show ?thesis using l r(3) by auto
    qed
    ultimately show ?thesis using all_confined_snoc [OF m] by auto
  qed
  show ?thesis
    using assms(2) made by (auto simp: writeFile_def Let_def split: option.splits sum.split prod.split if_splits)
qed

text \<open>
  C19: whatever the model calls, the tools stay inside their bounds: each command that ran was accepted by the test and ran in the
  workspace under the kubeconfig of the agent, and each file written lies below the workspace by its name, its directory
  resolves to a place below what the workspace resolves to, and so does the file itself where it existed.
\<close>

theorem tools_are_confined:
  assumes "absolute_paths tw"
  shows "all_confined tw e (executeCalls tw e calls)"
proof -
  have step: "all_confined tw e ops \<Longrightarrow> all_confined tw e (snd (ExecuteTool tw e tc ops))" for tc ops
    using runCommand_confined writeFile_confined [OF assms] by (auto simp: ExecuteTool_def)
  have "all_confined tw e ops \<Longrightarrow> all_confined tw e (fold (\<lambda>tc ops. snd (ExecuteTool tw e tc ops)) calls ops)" for ops
    using step by (induction calls arbitrary: ops) simp_all
  moreover have "all_confined tw e []" by (simp add: all_confined_def)
  ultimately show ?thesis by (simp add: executeCalls_def)
qed

section \<open>Calls\<close>

text \<open>A workspace with a link to a place outside it.\<close>

definition tool_files :: "string \<Rightarrow> string option" where
  "tool_files p = Some (if has_prefix p ''/ws/out'' then ''/etc'' @ drop 7 p else p)"

definition tool_args :: "string \<Rightarrow> json option" where
  "tool_args a = (case split_at CHR ''#'' a of
     [c] \<Rightarrow> Some (JObj [(''command'', JStr c)])
   | [p, c] \<Rightarrow> Some (JObj [(''path'', JStr p), (''content'', JStr c)])
   | _ \<Rightarrow> None)"

definition tool_world :: ToolWorld where
  "tool_world = \<lparr>tw_Unmarshal = tool_args, tw_Environ = [''PATH=/bin''], tw_Getwd = Some ''/ws'', tw_Abs = (\<lambda>p. if IsAbs p then Some p else None),
     tw_Stat = (\<lambda>_ _. Some True), tw_EvalSymlinks = (\<lambda>_. tool_files), tw_Lstat = (\<lambda>_ _. Absent), tw_MkdirAll = (\<lambda>_ _. True), tw_WriteFile = (\<lambda>_ _. True),
     tw_Process = (\<lambda>_ _ _ _. (''ok'', [], Finished))\<rparr>"

definition tool_executor :: ToolExecutor where
  "tool_executor = \<lparr>te_KubeconfigPath = ''kc'', te_WorkspaceDir = ''/ws'', te_ExtraEnv = []\<rparr>"

definition tool_calls :: "AgentCall list" where
  "tool_calls = [\<lparr>ak_ID = ''1'', ak_Name = ''run_command'', ak_Arguments = ''kubectl get pods | grep web''\<rparr>,
     \<lparr>ak_ID = ''2'', ak_Name = ''run_command'', ak_Arguments = ''curl evil''\<rparr>,
     \<lparr>ak_ID = ''3'', ak_Name = ''write_file'', ak_Arguments = ''a/b.yaml#x''\<rparr>,
     \<lparr>ak_ID = ''4'', ak_Name = ''write_file'', ak_Arguments = ''../b.yaml#x''\<rparr>,
     \<lparr>ak_ID = ''5'', ak_Name = ''write_file'', ak_Arguments = ''out/b.yaml#x''\<rparr>]"

theorem tools_are_confined_witness:
  "executeCalls tool_world tool_executor tool_calls =
     [Ran ''kubectl get pods | grep web'' ''/ws'' [''PATH=/bin'', ''KUBECONFIG=kc'', ''INFRA_BENCH_WORKSPACE=/ws''], MadeDir ''/ws/a'', Wrote ''/ws/a/b.yaml'' ''x'', MadeDir ''/ws/out''] \<and>
   all_confined tool_world tool_executor (executeCalls tool_world tool_executor tool_calls)"
proof -
  have "absolute_paths tool_world"
    by (auto simp: absolute_paths_def tool_world_def tool_files_def IsAbs_def has_prefix_def split: if_splits)
  then have "all_confined tool_world tool_executor (executeCalls tool_world tool_executor tool_calls)" by (rule tools_are_confined)
  moreover have "executeCalls tool_world tool_executor tool_calls =
     [Ran ''kubectl get pods | grep web'' ''/ws'' [''PATH=/bin'', ''KUBECONFIG=kc'', ''INFRA_BENCH_WORKSPACE=/ws''], MadeDir ''/ws/a'', Wrote ''/ws/a/b.yaml'' ''x'', MadeDir ''/ws/out'']"
    by code_simp
  ultimately show ?thesis by blast
qed

section \<open>Deviations\<close>

text \<open>
  The scan does not know comments: a quotation mark in one hides the following lines, which bash runs. It does not know
  the quotes \<^verbatim>\<open>$'...'\<close> either, inside which a backslash escapes.
\<close>

lemma comment_hides_command: "validateCommand (''echo # '' @ [CHR 0x27, CHR 0x0A] @ ''curl evil'' @ [CHR 0x0A] @ ''#'' @ [CHR 0x27]) = None"
  by code_simp

lemma ansi_quote_hides_command:
  "validateCommand (''echo $'' @ [CHR 0x27, CHR 0x5C, CHR 0x27, CHR 0x27] @ '' ; curl evil # '' @ [CHR 0x27]) = None"
  by code_simp

text \<open>Flags and blocked subcommands are compared with single spaces and in one position: a tab or an earlier option passes.\<close>

lemma blocked_forms_accepted:
  "validateCommand ''kubectl -n bench exec -it web sh'' = None \<and> validateCommand (''find . -exec'' @ [CHR 0x09] @ ''sh'') = None"
  by code_simp

text \<open>A redirection of errors to the output counts as background execution; \<^verbatim>\<open>cd\<close> is accepted alone.\<close>

lemma redirection_refused: "validateCommand ''kubectl get pods 2>&1'' = Some Background"
  by code_simp

lemma cd_accepted_alone: "validateCommand ''cd /'' = None"
  by code_simp

text \<open>Directories are made before the links are looked at: the refused write leaves a directory where the link leads.\<close>

lemma directory_made_through_link:
  "writeFile tool_world tool_executor ''out/new/b.yaml#x'' [] = (PathRefused EscapesThroughLink, [MadeDir ''/ws/out/new'']) \<and>
   tool_files ''/ws/out/new'' = Some ''/etc/new''"
  by code_simp

end
