(* ===== verification/Agent_Sandbox.thy ===== *)
theory Agent_Sandbox
  imports Case_Isolation "HOL-Library.AList"
begin

text \<open>
  The sandbox of the agent: \<^verbatim>\<open>pkg/environment/sandbox.go\<close>, \<^verbatim>\<open>pkg/harness/agent_sandbox.go\<close> and \<^verbatim>\<open>agent_default_sandbox.go\<close>. A volume is
  filled from a tar stream, a hardened container is started on the cluster network, the agent is executed in it, and container and
  volume are removed. \<open>sandbox_is_hardened\<close> reads the arguments the way docker does, \<open>sandbox_leaves_nothing\<close> follows container and volume
  over the trace, \<open>agent_command_round_trip\<close> is about the quoting of an external command. The tar format and \<^verbatim>\<open>docker exec\<close> are parameters. The
  endpoint put into a kubeconfig is taken literally: the templates of \<^verbatim>\<open>regexp\<close> would expand a dollar sign in it.
\<close>

section \<open>Specification\<close>

record SandboxSpec =
  sb_RunID :: string
  sb_Image :: string
  sb_BundleDir :: string
  sb_PromptContent :: string
  sb_Kubeconfig :: string
  sb_InClusterServer :: string
  sb_ExtraFiles :: "(string \<times> string) list"
  sb_AgentEnv :: "(string \<times> string) list"
  sb_Network :: string
  sb_Memory :: string
  sb_CPUs :: string
  sb_WorkspaceSize :: string

record SandboxRun =
  sx_Stdout :: string
  sx_Stderr :: string
  sx_ExitCode :: int

datatype sandbox_error =
    SandboxUnavailable | SpecIncomplete | BundleUnresolved | BundleWalk | BundleSymlink string | BundleNonRegular string | BundleUnreadable
  | KubeconfigUnreadable | StageFailed | ImageRequired string | BundleRequired | EntrypointMissing | InputsUnreadable string
  | NoSandboxImage | CommandUnsplittable | CommandEmpty | BundleTemp | ExecutableUnreadable | BundleWrite | ExecutableNotFound string
  | InputUnresolved | InputUnreadable string | InputCollides string

datatype FileKind = Symlink | Directory | Regular bool | Special

text \<open>One file of a walk below the bundle: relative path, kind with its executable bit, contents if it can be read.\<close>

type_synonym BundleEntry = "string \<times> FileKind \<times> string option"

datatype TarEntry = TarEntry string bool string

text \<open>
  The host: absolute paths, the walk of a directory, the tar format, the outcome of \<^verbatim>\<open>docker exec\<close> after a trace (output, errors, exit code if
  there was a process, whether the time was over), variables, what a path is (directory, regular, executable), directories and the clock.
\<close>

record SandboxHost =
  sh_Abs :: "string \<Rightarrow> string option"
  sh_Walk :: "string \<Rightarrow> BundleEntry list option"
  sh_Tar :: "TarEntry list \<Rightarrow> string"
  sh_Exec :: "Trace \<Rightarrow> string list \<Rightarrow> string \<times> string \<times> int option \<times> bool"
  sh_LookupEnv :: "string \<rightharpoonup> string"
  sh_StatExec :: "string \<Rightarrow> (bool \<times> bool \<times> bool) option"
  sh_LookPath :: "string \<Rightarrow> string option"
  sh_MkdirAll :: "string \<Rightarrow> bool"
  sh_UnixNano :: nat

definition SandboxVolumeName :: "string \<Rightarrow> string" where
  "SandboxVolumeName runID = ''evidra-agent-'' @ to_lower (take 40 runID)"

section \<open>Staging\<close>

definition is_ws :: "char \<Rightarrow> bool" where
  "is_ws c \<longleftrightarrow> c \<in> set [CHR 0x09, CHR 0x0A, CHR 0x0C, CHR 0x0D, CHR '' '']"

text \<open>\<^verbatim>\<open>"server"\s*:\s*"[^"]*"\<close>: what follows a match at the start of the text.\<close>

definition jsonServer :: "string \<Rightarrow> string option" where
  "jsonServer s =
     (let key = [CHR 0x22] @ ''server'' @ [CHR 0x22]; s1 = dropWhile is_ws (drop 8 s); s2 = dropWhile is_ws (tl s1);
          s3 = dropWhile (\<lambda>c. c \<noteq> CHR 0x22) (tl s2) in
      if has_prefix s key \<and> take 1 s1 = '':'' \<and> take 1 s2 = [CHR 0x22] \<and> s3 \<noteq> [] then Some (tl s3) else None)"

lemma length_tl_le: "length (tl xs) \<le> length xs"
  by simp

lemma jsonServer_shorter: "jsonServer s = Some t \<Longrightarrow> length t < length s"
proof -
  assume a: "jsonServer s = Some t"
  let ?s1 = "dropWhile is_ws (drop 8 s)"
  let ?s2 = "dropWhile is_ws (tl ?s1)"
  let ?s3 = "dropWhile (\<lambda>c. c \<noteq> CHR 0x22) (tl ?s2)"
  have t: "t = tl ?s3" "?s3 \<noteq> []" using a by (auto simp: jsonServer_def Let_def split: if_splits)
  have "length t < length ?s3" using t by (cases ?s3) auto
  also have "\<dots> \<le> length ?s2" by (rule order_trans [OF length_dropWhile_le length_tl_le])
  also have "\<dots> \<le> length ?s1" by (rule order_trans [OF length_dropWhile_le length_tl_le])
  also have "\<dots> \<le> length s" by (rule order_trans [OF length_dropWhile_le]) simp
  finally show ?thesis .
qed

function replaceJson :: "string \<Rightarrow> string \<Rightarrow> string" where
  "replaceJson endpoint s = (case jsonServer s of
     Some rest \<Rightarrow> [CHR 0x22] @ ''server'' @ [CHR 0x22] @ '':'' @ [CHR 0x22] @ endpoint @ [CHR 0x22] @ replaceJson endpoint rest
   | None \<Rightarrow> (case s of [] \<Rightarrow> [] | c # cs \<Rightarrow> c # replaceJson endpoint cs))"
  by pat_completeness auto
termination
  by (relation "measure (\<lambda>(_, s). length s)") (auto dest: jsonServer_shorter)

text \<open>\<^verbatim>\<open>(?m)^(\s*server:\s*)[^\n]*\<close>: the group of a match at the start of the text, and what follows the match.\<close>

definition yamlServer :: "string \<Rightarrow> (string \<times> string) option" where
  "yamlServer s =
     (let a = takeWhile is_ws s; s1 = dropWhile is_ws s; s2 = drop 7 s1; b = takeWhile is_ws s2 in
      if has_prefix s1 ''server:'' then Some (a @ ''server:'' @ b, dropWhile (\<lambda>c. c \<noteq> CHR 0x0A) (dropWhile is_ws s2)) else None)"

lemma yamlServer_shorter: "yamlServer s = Some (g, t) \<Longrightarrow> length t < length s"
proof -
  assume a: "yamlServer s = Some (g, t)"
  let ?s1 = "dropWhile is_ws s"
  have t: "has_prefix ?s1 ''server:''" "t = dropWhile (\<lambda>c. c \<noteq> CHR 0x0A) (dropWhile is_ws (drop 7 ?s1))"
    using a by (auto simp: yamlServer_def Let_def split: if_splits)
  have "length t \<le> length (drop 7 ?s1)" unfolding t(2) by (rule order_trans [OF length_dropWhile_le length_dropWhile_le])
  also have "\<dots> < length ?s1" using t(1) by (auto simp: has_prefix_iff)
  also have "\<dots> \<le> length s" by (rule length_dropWhile_le)
  finally show ?thesis .
qed

function replaceYaml :: "string \<Rightarrow> bool \<Rightarrow> string \<Rightarrow> string" where
  "replaceYaml endpoint bol s = (case (if bol then yamlServer s else None) of
     Some (g, rest) \<Rightarrow> g @ endpoint @ replaceYaml endpoint False rest
   | None \<Rightarrow> (case s of [] \<Rightarrow> [] | c # cs \<Rightarrow> c # replaceYaml endpoint (c = CHR 0x0A) cs))"
  by pat_completeness auto
termination
  by (relation "measure (\<lambda>(_, _, s). length s)") (auto dest: yamlServer_shorter split: if_splits)

definition rewriteKubeconfigServer :: "string \<Rightarrow> string \<Rightarrow> string" where
  "rewriteKubeconfigServer data endpoint =
     (let out = replaceJson endpoint data in if out \<noteq> data then out else replaceYaml endpoint True data)"

text \<open>Only regular files are packed; a link or a device ends the walk.\<close>

fun packWalk :: "BundleEntry list \<Rightarrow> (sandbox_error, TarEntry list) result" where
  "packWalk [] = Inr []"
| "packWalk ((rel, kind, data) # es) = (case kind of
     Symlink \<Rightarrow> Inl (BundleSymlink rel)
   | Directory \<Rightarrow> packWalk es
   | Special \<Rightarrow> Inl (BundleNonRegular rel)
   | Regular exe \<Rightarrow> (case data of
       None \<Rightarrow> Inl BundleUnreadable
     | Some d \<Rightarrow> (case packWalk es of Inl x \<Rightarrow> Inl x | Inr out \<Rightarrow> Inr (TarEntry (''agent/'' @ rel) exe d # out))))"

definition packBundle :: "SandboxHost \<Rightarrow> string \<Rightarrow> (sandbox_error, TarEntry list) result" where
  "packBundle h bundleDir =
     (if bundleDir = [] then Inr []
      else (case sh_Abs h bundleDir of
          None \<Rightarrow> Inl BundleUnresolved
        | Some dir \<Rightarrow> (case sh_Walk h dir of None \<Rightarrow> Inl BundleWalk | Some es \<Rightarrow> packWalk es)))"

definition buildTar :: "World \<Rightarrow> SandboxHost \<Rightarrow> SandboxSpec \<Rightarrow> (sandbox_error, TarEntry list) result proc" where
  "buildTar w h spec =
     (case packBundle h (sb_BundleDir spec) of
        Inl x \<Rightarrow> State_Monad.return (Inl x)
      | Inr bundle \<Rightarrow>
          (let staged = bundle @ (if sb_PromptContent spec \<noteq> [] then [TarEntry ''agent/prompt.md'' False (sb_PromptContent spec)] else []) @
             map (\<lambda>(name, content). TarEntry (''inputs/'' @ name) False content) (sb_ExtraFiles spec) in
           if sb_Kubeconfig spec = [] then State_Monad.return (Inr staged)
           else do {
             (ok, data) \<leftarrow> perform w (ReadFile (sb_Kubeconfig spec));
             State_Monad.return
               (if \<not> ok then Inl KubeconfigUnreadable
                else Inr (staged @ [TarEntry ''run/agent.kubeconfig'' False
                  (if sb_InClusterServer spec \<noteq> [] then rewriteKubeconfigServer data (sb_InClusterServer spec) else data)])) }))"

definition docker :: "World \<Rightarrow> string list \<Rightarrow> Outcome proc" where
  "docker w args = perform w (Cmd (''docker'' # args))"

definition stageSandbox :: "World \<Rightarrow> SandboxHost \<Rightarrow> string \<Rightarrow> SandboxSpec \<Rightarrow> string \<Rightarrow> sandbox_error option proc" where
  "stageSandbox w h stageImage spec vol = do {
     (ok, _) \<leftarrow> docker w [''volume'', ''create'', vol];
     if \<not> ok then State_Monad.return (Some SandboxUnavailable)
     else do {
       t \<leftarrow> buildTar w h spec;
       case t of
         Inl x \<Rightarrow> State_Monad.return (Some x)
       | Inr entries \<Rightarrow> do {
           (ok, _) \<leftarrow> perform w (CmdInput [''docker'', ''run'', ''--rm'', ''-i'', ''-v'', vol @ '':/mnt/evidra'',
             if stageImage = [] then ''alpine:3.22'' else stageImage, ''sh'', ''-c'', ''rm -rf /mnt/evidra/* && tar x -C /mnt/evidra''] (sh_Tar h entries));
           State_Monad.return (if ok then None else Some StageFailed) } } }"

section \<open>The container\<close>

definition char_class :: "(char \<times> char) list \<Rightarrow> char \<Rightarrow> bool" where
  "char_class ranges c = list_ex (\<lambda>(lo, hi). lo \<le> c \<and> c \<le> hi) ranges"

definition letter :: "char \<Rightarrow> bool" where
  "letter c = char_class [(CHR ''A'', CHR ''Z''), (CHR ''a'', CHR ''z'')] c"

definition envNameRe :: "string \<Rightarrow> bool" where
  "envNameRe k = (case k of [] \<Rightarrow> False | c # cs \<Rightarrow> (letter c \<or> c = CHR ''_'') \<and> list_all (\<lambda>c. letter c \<or> label_char c \<or> c = CHR ''_'') cs)"

definition workspaceFlag :: "SandboxSpec \<Rightarrow> string" where
  "workspaceFlag spec = ''/workspace:rw,size='' @ (if sb_WorkspaceSize spec = [] then ''256m'' else sb_WorkspaceSize spec)"

definition resourceFlags :: "SandboxSpec \<Rightarrow> string list" where
  "resourceFlags spec = (if sb_Memory spec \<noteq> [] then [''--memory'', sb_Memory spec] else []) @ (if sb_CPUs spec \<noteq> [] then [''--cpus'', sb_CPUs spec] else [])"

definition passedEnv :: "(string \<times> string) list \<Rightarrow> string list" where
  "passedEnv env = filter (\<lambda>k. envNameRe k \<and> k \<notin> set [''KUBECONFIG'', ''HOME'', ''PATH'']) (sort (map fst env))"

definition envFlags :: "(string \<times> string) list \<Rightarrow> string list" where
  "envFlags env = concat (map (\<lambda>k. [''-e'', k @ ''='' @ the (map_of env k)]) (passedEnv env))"

definition sandboxRunArgs :: "SandboxSpec \<Rightarrow> string \<Rightarrow> string \<Rightarrow> string list" where
  "sandboxRunArgs spec vol name =
     [''run'', ''-d'', ''--name'', name, ''--network'', sb_Network spec, ''--read-only'', ''--cap-drop'', ''ALL'',
      ''--security-opt'', ''no-new-privileges'', ''--user'', ''65534:65534'', ''--tmpfs'', ''/tmp:rw,size=64m'',
      ''--tmpfs'', workspaceFlag spec, ''-v'', vol @ '':/mnt/evidra:ro''] @ resourceFlags spec @
     [''-e'', ''KUBECONFIG=/mnt/evidra/run/agent.kubeconfig'', ''-e'', ''HOME=/tmp''] @ envFlags (sb_AgentEnv spec) @
     [''--entrypoint'', [], sb_Image spec, ''sh'', ''-c'', ''sleep 2147483647'']"

definition cleanupSandbox :: "World \<Rightarrow> string \<Rightarrow> string \<Rightarrow> unit proc" where
  "cleanupSandbox w vol container = do {
     (if container \<noteq> [] then do { _ \<leftarrow> docker w [''rm'', ''-f'', container]; State_Monad.return () } else State_Monad.return ());
     (if vol \<noteq> [] then do { _ \<leftarrow> docker w [''volume'', ''rm'', vol]; State_Monad.return () } else State_Monad.return ()) }"

definition AvailableSandbox :: "World \<Rightarrow> bool proc" where
  "AvailableSandbox w = do { (ok, _) \<leftarrow> perform w (Cmd [''docker'', ''version'', ''--format'', ''{{.Server.Version}}'']); State_Monad.return ok }"

definition execResult :: "string \<Rightarrow> string \<times> string \<times> int option \<times> bool \<Rightarrow> SandboxRun" where
  "execResult timeout r = (case r of (out, err, code, late) \<Rightarrow>
     \<lparr>sx_Stdout = out,
      sx_Stderr = err @ (case code of
          Some n \<Rightarrow> if late \<and> n \<noteq> 0 then nl @ ''sandbox: agent exceeded timeout '' @ timeout else []
        | None \<Rightarrow> nl @ ''sandbox: could not exec agent''),
      sx_ExitCode = (case code of Some n \<Rightarrow> n | None \<Rightarrow> -1)\<rparr>)"

definition containerName :: "string \<Rightarrow> string" where
  "containerName runID = ''evidra-sbx-'' @ to_lower runID"

definition RunSandbox :: "World \<Rightarrow> SandboxHost \<Rightarrow> string \<Rightarrow> SandboxSpec \<Rightarrow> string \<Rightarrow> string list \<Rightarrow> (sandbox_error, SandboxRun) result proc" where
  "RunSandbox w h stageImage spec timeout argv =
     (if sb_RunID spec = [] \<or> sb_Image spec = [] \<or> sb_Network spec = [] then State_Monad.return (Inl SpecIncomplete)
      else (let vol = SandboxVolumeName (sb_RunID spec); name = containerName (sb_RunID spec) in do {
        err \<leftarrow> stageSandbox w h stageImage spec vol;
        case err of
          Some x \<Rightarrow> do { cleanupSandbox w vol []; State_Monad.return (Inl x) }
        | None \<Rightarrow> do {
            (ok, _) \<leftarrow> docker w (sandboxRunArgs spec vol name);
            if \<not> ok then do { cleanupSandbox w vol name; State_Monad.return (Inl SandboxUnavailable) }
            else do {
              res \<leftarrow> observe (\<lambda>tr. sh_Exec h tr ([''exec'', name] @ argv));
              _ \<leftarrow> docker w ([''exec'', name] @ argv);
              cleanupSandbox w vol name;
              State_Monad.return (Inr (execResult timeout res)) } } }))"

section \<open>The sandboxed agent\<close>

text \<open>The fields of the request and its configuration that the sandbox reads.\<close>

record SandboxRequest =
  sq_AgentImage :: string
  sq_AgentBundleDir :: string
  sq_AgentCommand :: string
  sq_AgentInputFiles :: "string list"
  sq_AgentEnv :: "string list"
  sq_Model :: string
  sq_SandboxMemory :: string
  sq_SandboxCPUs :: string
  sq_ClusterNetwork :: string
  sq_InClusterServer :: string

definition sanitizeRunID :: "string \<Rightarrow> string" where
  "sanitizeRunID ident =
     (if ident = [] then ''run''
      else (let out = filter (\<lambda>c. letter c \<or> label_char c \<or> c = CHR ''-'' \<or> c = CHR ''_'') ident in
        if out = [] then ''run'' else drop (length out - 40) out))"

definition ownedEnv :: "string list" where
  "ownedEnv = [''KUBECONFIG'', ''HOME'', ''PATH'', ''INFRA_BENCH_SCENARIO'', ''INFRA_BENCH_PROMPT'', ''INFRA_BENCH_WORKSPACE'']"

definition allowEnv :: "SandboxHost \<Rightarrow> string \<Rightarrow> (string \<times> string) list \<Rightarrow> (string \<times> string) list" where
  "allowEnv h name env = (if name \<in> set ownedEnv then env else (case sh_LookupEnv h name of Some v \<Rightarrow> AList.update name v env | None \<Rightarrow> env))"

definition buildAgentEnv :: "SandboxHost \<Rightarrow> Scenario \<Rightarrow> SandboxRequest \<Rightarrow> (string \<times> string) list" where
  "buildAgentEnv h s req =
     fold (allowEnv h) (sq_AgentEnv req)
       ([(''INFRA_BENCH_SCENARIO'', s_ID s), (''INFRA_BENCH_PROMPT'', ''/mnt/evidra/agent/prompt.md''), (''INFRA_BENCH_WORKSPACE'', ''/workspace'')] @
        (if sq_Model req \<noteq> [] then [(''INFRA_BENCH_MODEL'', sq_Model req)] else []))"

record SandboxResult =
  sr_Run :: SandboxRun
  sr_Metadata :: "(string \<times> string) list"

definition sandboxSpec :: "SandboxHost \<Rightarrow> SandboxRequest \<Rightarrow> Scenario \<Rightarrow> string \<Rightarrow> string \<Rightarrow> (string \<times> string) list \<Rightarrow> SandboxSpec" where
  "sandboxSpec h req s kubeconfig prompt extra =
     \<lparr>sb_RunID = sanitizeRunID (s_ID s @ ''-'' @ nat_text (sh_UnixNano h)), sb_Image = sq_AgentImage req, sb_BundleDir = sq_AgentBundleDir req,
      sb_PromptContent = prompt, sb_Kubeconfig = kubeconfig, sb_InClusterServer = sq_InClusterServer req, sb_ExtraFiles = extra,
      sb_AgentEnv = buildAgentEnv h s req, sb_Network = sq_ClusterNetwork req, sb_Memory = sq_SandboxMemory req, sb_CPUs = sq_SandboxCPUs req,
      sb_WorkspaceSize = []\<rparr>"

definition runAgentSandboxed :: "World \<Rightarrow> SandboxHost \<Rightarrow> (string \<Rightarrow> string option) \<Rightarrow> SandboxRequest \<Rightarrow> Scenario \<Rightarrow> string \<Rightarrow> string \<Rightarrow> string \<Rightarrow> (sandbox_error, SandboxResult) result proc" where
  "runAgentSandboxed w h readFile req s kubeconfig prompt timeout =
     (if sq_AgentImage req = [] then State_Monad.return (Inl (ImageRequired (sq_AgentBundleDir req)))
      else if sq_AgentBundleDir req = [] then State_Monad.return (Inl BundleRequired)
      else (case sh_StatExec h (Join (sq_AgentBundleDir req) ''run'') of
          Some (isDir, _, True) \<Rightarrow>
            if isDir then State_Monad.return (Inl EntrypointMissing)
            else if sq_ClusterNetwork req = [] then State_Monad.return (Inl SandboxUnavailable)
            else do {
              up \<leftarrow> AvailableSandbox w;
              if \<not> up then State_Monad.return (Inl SandboxUnavailable)
              else (case readAgentInputs readFile s of
                  Inl rel \<Rightarrow> State_Monad.return (Inl (InputsUnreadable rel))
                | Inr extra \<Rightarrow> do {
                    r \<leftarrow> RunSandbox w h [] (sandboxSpec h req s kubeconfig prompt extra) timeout [''/mnt/evidra/agent/run'', ''/mnt/evidra/agent/prompt.md''];
                    State_Monad.return (map_sum id (\<lambda>x. \<lparr>sr_Run = x, sr_Metadata = [(''sandbox'', ''1''), (''sandbox_image'', sq_AgentImage req)]\<rparr>) r) }) }
        | _ \<Rightarrow> State_Monad.return (Inl EntrypointMissing)))"

section \<open>External commands\<close>

datatype SplitMode = Bare | InSingleQuotes | InDoubleQuotes

text \<open>The fields of a command; an empty field is not kept.\<close>

definition keepField :: "string \<Rightarrow> string list" where
  "keepField cur = (if cur \<noteq> [] then [cur] else [])"

fun splitFields :: "SplitMode \<Rightarrow> string \<Rightarrow> string \<Rightarrow> string list option" where
  "splitFields Bare cur [] = Some (keepField cur)"
| "splitFields Bare cur (c # cs) =
     (if c = CHR '' '' \<or> c = CHR 0x09 \<or> c = CHR 0x0A then map_option (\<lambda>out. keepField cur @ out) (splitFields Bare [] cs)
      else if c = CHR 0x5C then (case cs of [] \<Rightarrow> None | d # ds \<Rightarrow> splitFields Bare (cur @ [d]) ds)
      else if c = CHR 0x27 then splitFields InSingleQuotes cur cs
      else if c = CHR 0x22 then splitFields InDoubleQuotes cur cs
      else splitFields Bare (cur @ [c]) cs)"
| "splitFields InSingleQuotes cur [] = None"
| "splitFields InSingleQuotes cur (c # cs) = (if c = CHR 0x27 then splitFields Bare cur cs else splitFields InSingleQuotes (cur @ [c]) cs)"
| "splitFields InDoubleQuotes cur [] = None"
| "splitFields InDoubleQuotes cur (c # cs) =
     (if c = CHR 0x22 then splitFields Bare cur cs
      else if c = CHR 0x5C then (case cs of [] \<Rightarrow> None | d # ds \<Rightarrow> splitFields InDoubleQuotes (cur @ [d]) ds)
      else splitFields InDoubleQuotes (cur @ [c]) cs)"

definition splitAgentCommand :: "string \<Rightarrow> string list option" where
  "splitAgentCommand command = splitFields Bare [] command"

definition shellQuote :: "string \<Rightarrow> string" where
  "shellQuote s = [CHR 0x27] @ concat (map (\<lambda>c. if c = CHR 0x27 then [CHR 0x27, CHR 0x5C, CHR 0x27, CHR 0x27] else [c]) s) @ [CHR 0x27]"

definition resolveAgentExecutable :: "SandboxHost \<Rightarrow> string \<Rightarrow> string option" where
  "resolveAgentExecutable h token =
     (if CHR ''/'' \<in> set token \<or> CHR 0x5C \<in> set token then
        (case sh_Abs h token of
           None \<Rightarrow> None
         | Some p \<Rightarrow> (case sh_StatExec h p of Some (_, True, True) \<Rightarrow> Some p | _ \<Rightarrow> None))
      else sh_LookPath h token)"

definition BasePath :: "string \<Rightarrow> string" where
  "BasePath p = rev (takeWhile (\<lambda>c. c \<noteq> CHR ''/'') (rev p))"

definition wrapperHead :: string where
  "wrapperHead = ''#!/bin/sh'' @ nl @ ''cd '' @ [CHR 0x22] @ ''$(dirname '' @ [CHR 0x22] @ ''$0'' @ [CHR 0x22] @ '')'' @ [CHR 0x22] @ '' || exit 1'' @ nl @ ''exec ''"

definition wrapperTail :: string where
  "wrapperTail = [CHR 0x22] @ ''$@'' @ [CHR 0x22] @ nl"

text \<open>The wrapper, with the copy of the executable that it needs.\<close>

definition agentWrapper :: "World \<Rightarrow> SandboxHost \<Rightarrow> string \<Rightarrow> string \<Rightarrow> string list \<Rightarrow> bool \<Rightarrow> (sandbox_error, string) result proc" where
  "agentWrapper w h dir command args customImage =
     (case resolveAgentExecutable h (hd args) of
        Some exe \<Rightarrow> do {
          (ok, data) \<leftarrow> perform w (ReadFile exe);
          if \<not> ok then State_Monad.return (Inl ExecutableUnreadable)
          else if \<not> sh_MkdirAll h (Join dir ''bin'') then State_Monad.return (Inl BundleWrite)
          else do {
            (ok, _) \<leftarrow> perform w (WriteFile (Join (Join dir ''bin'') (BasePath exe)) data);
            State_Monad.return
              (if \<not> ok then Inl BundleWrite
               else Inr (wrapperHead @ ''/mnt/evidra/agent/bin/'' @ shellQuote (BasePath exe) @ '' '' @ join (map shellQuote (tl args) @ ['' '']) '' '' @ wrapperTail)) } }
      | None \<Rightarrow> State_Monad.return (if customImage then Inr (wrapperHead @ command @ '' '' @ wrapperTail) else Inl (ExecutableNotFound (hd args))))"

fun stageInputs :: "World \<Rightarrow> SandboxHost \<Rightarrow> string \<Rightarrow> string list \<Rightarrow> sandbox_error option proc" where
  "stageInputs w h dir [] = State_Monad.return None"
| "stageInputs w h dir (i # is) = (case sh_Abs h i of
     None \<Rightarrow> State_Monad.return (Some InputUnresolved)
   | Some p \<Rightarrow> do {
       (ok, data) \<leftarrow> perform w (ReadFile p);
       if \<not> ok then State_Monad.return (Some (InputUnreadable i))
       else do {
         (exists, _) \<leftarrow> perform w (Stat (Join dir (BasePath p)));
         if exists then State_Monad.return (Some (InputCollides i))
         else do {
           (ok, _) \<leftarrow> perform w (WriteFile (Join dir (BasePath p)) data);
           if \<not> ok then State_Monad.return (Some BundleWrite) else stageInputs w h dir is } } })"

definition fillBundle :: "World \<Rightarrow> SandboxHost \<Rightarrow> string \<Rightarrow> string \<Rightarrow> string list \<Rightarrow> string list \<Rightarrow> bool \<Rightarrow> sandbox_error option proc" where
  "fillBundle w h dir command args inputs customImage = do {
     r \<leftarrow> agentWrapper w h dir command args customImage;
     case r of
       Inl x \<Rightarrow> State_Monad.return (Some x)
     | Inr wrapper \<Rightarrow> do {
         err \<leftarrow> stageInputs w h dir inputs;
         case err of
           Some x \<Rightarrow> State_Monad.return (Some x)
         | None \<Rightarrow> do {
             (ok, _) \<leftarrow> perform w (WriteFile (Join dir ''run'') wrapper);
             State_Monad.return (if ok then None else Some BundleWrite) } } }"

definition syntheticAgentBundle :: "World \<Rightarrow> SandboxHost \<Rightarrow> string \<Rightarrow> string list \<Rightarrow> bool \<Rightarrow> (sandbox_error, string) result proc" where
  "syntheticAgentBundle w h command inputs customImage =
     (case splitAgentCommand command of
        None \<Rightarrow> State_Monad.return (Inl CommandUnsplittable)
      | Some [] \<Rightarrow> State_Monad.return (Inl CommandEmpty)
      | Some args \<Rightarrow> do {
          (ok, dir) \<leftarrow> perform w (MkdirTemp ''evidra-agent-bundle-'');
          if \<not> ok then State_Monad.return (Inl BundleTemp)
          else do {
            err \<leftarrow> fillBundle w h dir command args inputs customImage;
            case err of
              Some x \<Rightarrow> do { attempt w (RemoveAll dir); State_Monad.return (Inl x) }
            | None \<Rightarrow> State_Monad.return (Inr dir) } })"

definition resolveAgentSandboxImage :: "World \<Rightarrow> SandboxHost \<Rightarrow> SandboxRequest \<Rightarrow> string option proc" where
  "resolveAgentSandboxImage w h req =
     (let env = \<lambda>k. trim_space (case sh_LookupEnv h k of None \<Rightarrow> [] | Some v \<Rightarrow> v) in
      if trim_space (sq_AgentImage req) \<noteq> [] then State_Monad.return (Some (trim_space (sq_AgentImage req)))
      else if env ''EVIDRA_AGENT_SANDBOX_IMAGE'' \<noteq> [] then State_Monad.return (Some (env ''EVIDRA_AGENT_SANDBOX_IMAGE''))
      else if env ''HOSTNAME'' = [] then State_Monad.return None
      else do {
        (ok, out) \<leftarrow> perform w (Cmd [''docker'', ''inspect'', ''--format'', ''{{.Config.Image}}'', env ''HOSTNAME'']);
        State_Monad.return (if \<not> ok \<or> trim_space out = [] \<or> trim_space out = ''<no value>'' then None else Some (trim_space out)) })"

definition runExternalAgentSandboxed :: "World \<Rightarrow> SandboxHost \<Rightarrow> (string \<Rightarrow> string option) \<Rightarrow> SandboxRequest \<Rightarrow> Scenario \<Rightarrow> string \<Rightarrow> string \<Rightarrow> string \<Rightarrow> (sandbox_error, SandboxResult) result proc" where
  "runExternalAgentSandboxed w h readFile req s kubeconfig prompt timeout = do {
     image \<leftarrow> resolveAgentSandboxImage w h req;
     case image of
       None \<Rightarrow> State_Monad.return (Inl NoSandboxImage)
     | Some img \<Rightarrow> do {
         b \<leftarrow> syntheticAgentBundle w h (sq_AgentCommand req) (sq_AgentInputFiles req) (sq_AgentImage req \<noteq> []);
         case b of
           Inl x \<Rightarrow> State_Monad.return (Inl x)
         | Inr dir \<Rightarrow> do {
             r \<leftarrow> runAgentSandboxed w h readFile (req\<lparr>sq_AgentImage := img, sq_AgentBundleDir := dir\<rparr>) s kubeconfig prompt timeout;
             attempt w (RemoveAll dir);
             State_Monad.return (map_sum id (\<lambda>x. x\<lparr>sr_Metadata := AList.update ''agent_mode'' ''external-sandboxed'' (sr_Metadata x)\<rparr>) r) } } }"

section \<open>Hardening\<close>

text \<open>
  How docker reads the arguments of \<^verbatim>\<open>docker run\<close>: options up to the first argument that is none, which is the image. Of the options used,
  two take no value.
\<close>

datatype DockerOption = Flag string | Opt string string

fun dockerOptions :: "string list \<Rightarrow> DockerOption list \<times> string list" where
  "dockerOptions [] = ([], [])"
| "dockerOptions [a] = (if has_prefix a ''-'' then ([Flag a], []) else ([], [a]))"
| "dockerOptions (a # v # rest) =
     (if a = ''-d'' \<or> a = ''--read-only'' then (case dockerOptions (v # rest) of (os, r) \<Rightarrow> (Flag a # os, r))
      else if has_prefix a ''-'' then (case dockerOptions rest of (os, r) \<Rightarrow> (Opt a v # os, r))
      else ([], a # v # rest))"

definition hardened :: "SandboxSpec \<Rightarrow> string \<Rightarrow> DockerOption list \<Rightarrow> bool" where
  "hardened spec vol opts \<longleftrightarrow>
     Flag ''--read-only'' \<in> set opts \<and> Opt ''--cap-drop'' ''ALL'' \<in> set opts \<and> Opt ''--security-opt'' ''no-new-privileges'' \<in> set opts \<and>
     (\<forall>v. Opt ''--network'' v \<in> set opts \<longleftrightarrow> v = sb_Network spec) \<and> (\<forall>v. Opt ''--user'' v \<in> set opts \<longleftrightarrow> v = ''65534:65534'') \<and>
     (\<forall>v. Opt ''-v'' v \<in> set opts \<longleftrightarrow> v = vol @ '':/mnt/evidra:ro'') \<and>
     (\<forall>v. Opt ''--tmpfs'' v \<in> set opts \<longleftrightarrow> v = ''/tmp:rw,size=64m'' \<or> v = workspaceFlag spec) \<and>
     (\<forall>n. Flag n \<in> set opts \<longleftrightarrow> n = ''-d'' \<or> n = ''--read-only'') \<and>
     (\<forall>n v. Opt n v \<in> set opts \<longrightarrow> n \<in> set [''--name'', ''--network'', ''--cap-drop'', ''--security-opt'', ''--user'', ''--tmpfs'', ''-v'', ''--memory'', ''--cpus'', ''-e'', ''--entrypoint'']) \<and>
     (\<forall>k v. CHR ''='' \<notin> set k \<longrightarrow> (Opt ''-e'' (k @ ''='' @ v) \<in> set opts \<longleftrightarrow>
        (k, v) = (''KUBECONFIG'', ''/mnt/evidra/run/agent.kubeconfig'') \<or> (k, v) = (''HOME'', ''/tmp'') \<or>
        envNameRe k \<and> k \<notin> {''KUBECONFIG'', ''HOME'', ''PATH''} \<and> map_of (sb_AgentEnv spec) k = Some v))"

definition paired :: "(string \<times> string) list \<Rightarrow> string list" where
  "paired ps = concat (map (\<lambda>(n, v). [n, v]) ps)"

lemma dockerOptions_paired:
  assumes "\<forall>(n, v)\<in>set ps. has_prefix n ''-'' \<and> n \<noteq> ''-d'' \<and> n \<noteq> ''--read-only''"
  shows "dockerOptions (paired ps @ rest) = (map (\<lambda>(n, v). Opt n v) ps @ fst (dockerOptions rest), snd (dockerOptions rest))"
  using assms by (induction ps) (auto simp: paired_def split: prod.splits)

definition envPairs :: "(string \<times> string) list \<Rightarrow> (string \<times> string) list" where
  "envPairs env = map (\<lambda>k. (''-e'', k @ ''='' @ the (map_of env k))) (passedEnv env)"

definition resourcePairs :: "SandboxSpec \<Rightarrow> (string \<times> string) list" where
  "resourcePairs spec = (if sb_Memory spec \<noteq> [] then [(''--memory'', sb_Memory spec)] else []) @ (if sb_CPUs spec \<noteq> [] then [(''--cpus'', sb_CPUs spec)] else [])"

definition tailPairs :: "SandboxSpec \<Rightarrow> string \<Rightarrow> (string \<times> string) list" where
  "tailPairs spec vol =
     [(''--cap-drop'', ''ALL''), (''--security-opt'', ''no-new-privileges''), (''--user'', ''65534:65534''), (''--tmpfs'', ''/tmp:rw,size=64m''),
      (''--tmpfs'', workspaceFlag spec), (''-v'', vol @ '':/mnt/evidra:ro'')] @ resourcePairs spec @
     [(''-e'', ''KUBECONFIG=/mnt/evidra/run/agent.kubeconfig''), (''-e'', ''HOME=/tmp'')] @ envPairs (sb_AgentEnv spec) @ [(''--entrypoint'', [])]"

lemma sandboxRunArgs_paired:
  "sandboxRunArgs spec vol name = [''run'', ''-d''] @ paired [(''--name'', name), (''--network'', sb_Network spec)] @ [''--read-only''] @
     paired (tailPairs spec vol) @ [sb_Image spec, ''sh'', ''-c'', ''sleep 2147483647'']"
proof -
  have "envFlags env = paired (envPairs env)" for env by (simp add: envFlags_def paired_def envPairs_def comp_def)
  then show ?thesis by (simp add: sandboxRunArgs_def tailPairs_def resourceFlags_def resourcePairs_def paired_def)
qed

lemma tailPairs_options: "\<forall>(n, v)\<in>set (tailPairs spec vol). has_prefix n ''-'' \<and> n \<noteq> ''-d'' \<and> n \<noteq> ''--read-only''"
  by (auto simp: tailPairs_def resourcePairs_def envPairs_def has_prefix_def)

lemma key_eq: "CHR ''='' \<notin> set k \<Longrightarrow> CHR ''='' \<notin> set k' \<Longrightarrow> k @ ''='' @ v = k' @ ''='' @ v' \<longleftrightarrow> k = k' \<and> v = v'"
  by (induction k arbitrary: k') (case_tac k'; auto)+

lemma envNameRe_plain: "envNameRe k \<Longrightarrow> CHR ''='' \<notin> set k"
  by (cases k) (auto simp: envNameRe_def letter_def char_class_def label_char_def list_all_iff)

lemma set_passedEnv: "k \<in> set (passedEnv env) \<longleftrightarrow> k \<in> fst ` set env \<and> envNameRe k \<and> k \<notin> {''KUBECONFIG'', ''HOME'', ''PATH''}"
  by (simp add: passedEnv_def)

lemma envPairs_iff:
  assumes "CHR ''='' \<notin> set k"
  shows "(''-e'', k @ ''='' @ v) \<in> set (envPairs env) \<longleftrightarrow> envNameRe k \<and> k \<notin> {''KUBECONFIG'', ''HOME'', ''PATH''} \<and> map_of env k = Some v"
proof -
  have "(''-e'', k @ ''='' @ v) \<in> set (envPairs env) \<longleftrightarrow> (\<exists>k'\<in>set (passedEnv env). k @ ''='' @ v = k' @ ''='' @ the (map_of env k'))"
    by (auto simp: envPairs_def)
  also have "\<dots> \<longleftrightarrow> k \<in> set (passedEnv env) \<and> v = the (map_of env k)"
    using key_eq [OF assms] envNameRe_plain set_passedEnv by metis
  also have "\<dots> \<longleftrightarrow> envNameRe k \<and> k \<notin> {''KUBECONFIG'', ''HOME'', ''PATH''} \<and> map_of env k = Some v"
    unfolding set_passedEnv by (metis map_of_eq_None_iff not_None_eq option.sel)
  finally show ?thesis .
qed

text \<open>
  C20: the container of an agent is hardened whatever the specification says. As docker reads the arguments, the root file system is read-only,
  all capabilities are dropped, there is one network, one user and one read-only mount, and the only variables are the two of the
  sandbox and the declared ones with a proper name, which cannot replace those.
\<close>

theorem sandbox_is_hardened:
  assumes "\<not> has_prefix (sb_Image spec) ''-''"
  shows "\<exists>opts. dockerOptions (tl (sandboxRunArgs spec vol name)) = (opts, [sb_Image spec, ''sh'', ''-c'', ''sleep 2147483647'']) \<and> hardened spec vol opts"
proof -
  let ?opts = "[Flag ''-d'', Opt ''--name'' name, Opt ''--network'' (sb_Network spec), Flag ''--read-only''] @ map (\<lambda>(n, v). Opt n v) (tailPairs spec vol)"
  let ?cmd = "[sb_Image spec, ''sh'', ''-c'', ''sleep 2147483647'']"
  have r: "dockerOptions ?cmd = ([], ?cmd)" using assms by (auto simp: has_prefix_def)
  have t: "dockerOptions (paired (tailPairs spec vol) @ ?cmd) = (map (\<lambda>(n, v). Opt n v) (tailPairs spec vol), ?cmd)"
    using dockerOptions_paired [OF tailPairs_options, of spec vol ?cmd] r by simp
  obtain a as where ne: "paired (tailPairs spec vol) @ ?cmd = a # as" by (simp add: tailPairs_def paired_def)
  have "dockerOptions (tl (sandboxRunArgs spec vol name)) = (?opts, ?cmd)"
    unfolding sandboxRunArgs_paired using t unfolding ne by (simp add: paired_def has_prefix_def)
  moreover have "hardened spec vol ?opts"
  proof -
    have opt: "Opt n v \<in> set ?opts \<longleftrightarrow> (n, v) \<in> {(''--name'', name), (''--network'', sb_Network spec)} \<union> set (tailPairs spec vol)" for n v
      by auto
    have env: "Opt ''-e'' (k @ ''='' @ v) \<in> set ?opts \<longleftrightarrow> (k, v) = (''KUBECONFIG'', ''/mnt/evidra/run/agent.kubeconfig'') \<or> (k, v) = (''HOME'', ''/tmp'') \<or>
        (''-e'', k @ ''='' @ v) \<in> set (envPairs (sb_AgentEnv spec))" if "CHR ''='' \<notin> set k" for k v
      unfolding opt using key_eq [OF that, of "''KUBECONFIG''" v] key_eq [OF that, of "''HOME''" v] by (auto simp: tailPairs_def resourcePairs_def)
    have e: "(n, v) \<in> set (envPairs env) \<Longrightarrow> n = ''-e''" for n v env by (auto simp: envPairs_def)
    show ?thesis unfolding hardened_def using env envPairs_iff
      by (auto simp: tailPairs_def resourcePairs_def dest: e)
  qed
  ultimately show ?thesis by blast
qed

section \<open>What is made is taken away\<close>

text \<open>What an operation leaves to be undone: a volume, a container, a temporary directory.\<close>

definition undoing :: "Op \<times> Outcome \<Rightarrow> Op set" where
  "undoing x = (case fst x of
     Cmd args \<Rightarrow>
       if take 3 args = [''docker'', ''volume'', ''create''] then {Cmd ([''docker'', ''volume'', ''rm''] @ drop 3 args)}
       else if take 4 args = [''docker'', ''run'', ''-d'', ''--name''] then {Cmd [''docker'', ''rm'', ''-f'', args ! 4]}
       else {}
   | MkdirTemp _ \<Rightarrow> if fst (snd x) then {RemoveAll (snd (snd x))} else {}
   | _ \<Rightarrow> {})"

definition pending :: "Trace \<Rightarrow> Op set \<Rightarrow> bool" where
  "pending d us \<longleftrightarrow> (\<forall>a x b. d = a @ x # b \<longrightarrow> undoing x \<subseteq> fst ` set b \<union> us)"

text \<open>\<open>owes us W m\<close>: a run of \<open>m\<close> undoes what was open, \<open>us\<close>, and what it makes, but for what \<open>W\<close> says of its result.\<close>

definition owes :: "Op set \<Rightarrow> ('a \<Rightarrow> Op set) \<Rightarrow> 'a proc \<Rightarrow> bool" where
  "owes us W m \<longleftrightarrow> emits (\<lambda>r d. pending d (W r) \<and> us \<subseteq> W r \<union> fst ` set d) m"

named_theorems owes_intros \<open>rules for what a procedure leaves to be undone\<close>

lemma pending_Nil [simp]: "pending [] us"
  by (simp add: pending_def)

lemma pending_single [simp]: "pending [x] us \<longleftrightarrow> undoing x \<subseteq> us"
proof -
  have "[x] = a @ y # b \<longleftrightarrow> a = [] \<and> y = x \<and> b = []" for a y b by (cases a) auto
  then show ?thesis by (auto simp: pending_def)
qed

lemma pending_mono: "pending d us \<Longrightarrow> us \<subseteq> vs \<Longrightarrow> pending d vs"
  unfolding pending_def by blast

lemma pending_append:
  assumes "pending d us" and "pending d' vs" and "us \<subseteq> vs \<union> fst ` set d'"
  shows "pending (d @ d') vs"
  unfolding pending_def
proof (intro allI impI)
  fix a x b
  assume "d @ d' = a @ x # b"
  then obtain c where "d = a @ c \<and> c @ d' = x # b \<or> d @ c = a \<and> d' = c @ x # b" by (auto simp: append_eq_append_conv2)
  then consider e where "d = a @ x # e" "b = e @ d'" | e where "d' = e @ x # b"
    by (cases c) auto
  then show "undoing x \<subseteq> fst ` set b \<union> vs"
  proof cases
    case 1
    then have "undoing x \<subseteq> fst ` set e \<union> us" using assms(1) unfolding pending_def by blast
    then show ?thesis using assms(3) 1(2) by auto
  next
    case 2
    then show ?thesis using assms(2) unfolding pending_def by blast
  qed
qed

lemma owes_return [owes_intros]: "us \<subseteq> W a \<Longrightarrow> owes us W (State_Monad.return a)"
  unfolding owes_def by (rule emits_return) simp

lemma owes_perform: "(\<And>r. undoing (op, r) \<subseteq> W r \<and> us \<subseteq> insert op (W r)) \<Longrightarrow> owes us W (perform w op)"
  unfolding owes_def by (rule emits_perform) auto

lemma owes_observe [owes_intros]: "owes us (\<lambda>_. us) (observe f)"
  by (simp add: owes_def emits_def observe_def)

lemma owes_bind [owes_intros]:
  assumes "owes us W m" and "\<And>a. owes (W a) V (f a)"
  shows "owes us V (State_Monad.bind m f)"
  unfolding owes_def
proof (rule emits_bind [OF assms(1) [unfolded owes_def]])
  fix a d
  assume d: "pending d (W a) \<and> us \<subseteq> W a \<union> fst ` set d"
  show "emits (\<lambda>b d'. pending (d @ d') (V b) \<and> us \<subseteq> V b \<union> fst ` set (d @ d')) (f a)"
  proof (rule emits_mono [OF assms(2) [unfolded owes_def]])
    fix b d'
    assume d': "pending d' (V b) \<and> W a \<subseteq> V b \<union> fst ` set d'"
    have "pending (d @ d') (V b)" by (rule pending_append [of d "W a"]) (use d d' in auto)
    then show "pending (d @ d') (V b) \<and> us \<subseteq> V b \<union> fst ` set (d @ d')" using d d' by auto
  qed
qed

text \<open>An operation that makes nothing keeps what is open.\<close>

definition harmless :: "Op \<Rightarrow> bool" where
  "harmless op \<longleftrightarrow> (\<forall>r. undoing (op, r) = {})"

lemma owes_harmless [owes_intros]: "harmless op \<Longrightarrow> owes us (\<lambda>_. us) (perform w op)"
  by (rule owes_perform) (auto simp: harmless_def)

lemma harmless_simps [simp]:
  "harmless (ReadFile p)" "harmless (WriteFile p c)" "harmless (Stat p)" "harmless (RemoveAll p)" "harmless (CmdInput args i)"
  "harmless (Cmd (''docker'' # ''exec'' # args))" "harmless (Cmd (''docker'' # ''version'' # args))" "harmless (Cmd (''docker'' # ''inspect'' # args))"
  "harmless (Cmd [''docker'', ''rm'', ''-f'', n])" "harmless (Cmd [''docker'', ''volume'', ''rm'', v])"
  by (simp_all add: harmless_def undoing_def)

lemma owes_undo: "owes (insert op us) (\<lambda>_. us) (perform w op)" if "harmless op"
  by (rule owes_perform) (use that in \<open>auto simp: harmless_def\<close>)

abbreviation rmVolume :: "string \<Rightarrow> Op" where
  "rmVolume v \<equiv> Cmd [''docker'', ''volume'', ''rm'', v]"

abbreviation rmContainer :: "string \<Rightarrow> Op" where
  "rmContainer n \<equiv> Cmd [''docker'', ''rm'', ''-f'', n]"

lemma owes_cleanup:
  assumes "vol \<noteq> []"
  shows "owes {rmVolume vol} (\<lambda>_. {}) (cleanupSandbox w vol [])"
    and "container \<noteq> [] \<Longrightarrow> owes {rmVolume vol, rmContainer container} (\<lambda>_. {}) (cleanupSandbox w vol container)"
proof -
  have v: "owes {rmVolume vol} (\<lambda>_. {}) (do { _ \<leftarrow> perform w (rmVolume vol); State_Monad.return () })"
    by (rule owes_bind [OF owes_undo], simp, rule owes_return) simp
  have c: "owes {rmVolume vol, rmContainer container} (\<lambda>_. {rmVolume vol}) (do { _ \<leftarrow> perform w (rmContainer container); State_Monad.return () })"
    by (rule owes_bind [where W = "\<lambda>_. {rmVolume vol}"], rule owes_perform, simp add: undoing_def insert_commute, rule owes_return) simp
  show "owes {rmVolume vol} (\<lambda>_. {}) (cleanupSandbox w vol [])"
    using v assms by (simp add: cleanupSandbox_def docker_def)
  show "owes {rmVolume vol, rmContainer container} (\<lambda>_. {}) (cleanupSandbox w vol container)" if "container \<noteq> []"
    using owes_bind [OF c v] assms that by (simp add: cleanupSandbox_def docker_def)
qed

lemma owes_buildTar: "owes us (\<lambda>_. us) (buildTar w h spec)"
  unfolding buildTar_def Let_def
  by (auto intro!: owes_intros split: sum.split prod.split)

lemma owes_stage: "owes {} (\<lambda>_. {rmVolume vol}) (stageSandbox w h img spec vol)"
  unfolding stageSandbox_def docker_def
  by (rule owes_bind [where W = "\<lambda>_. {rmVolume vol}"], rule owes_perform, simp add: undoing_def)
    (auto intro!: owes_return owes_bind [OF owes_buildTar] owes_bind [OF owes_harmless] split: sum.split prod.split)

lemma owes_start: "owes {rmVolume vol} (\<lambda>_. {rmVolume vol, rmContainer name}) (docker w (sandboxRunArgs spec vol' name))"
  unfolding docker_def by (rule owes_perform) (auto simp: undoing_def sandboxRunArgs_def)

lemma SandboxVolumeName_nonempty [simp]: "SandboxVolumeName r \<noteq> []" "containerName r \<noteq> []"
  by (simp_all add: SandboxVolumeName_def containerName_def)

lemma owes_exec: "owes us (\<lambda>_. us) (docker w (''exec'' # name # argv))"
  unfolding docker_def by (auto intro: owes_harmless)

lemma owes_RunSandbox: "owes {} (\<lambda>_. {}) (RunSandbox w h img spec timeout argv)"
proof (cases "sb_RunID spec = [] \<or> sb_Image spec = [] \<or> sb_Network spec = []")
  case True
  then show ?thesis by (simp add: RunSandbox_def owes_return)
next
  case False
  note cleanup = owes_cleanup [OF SandboxVolumeName_nonempty(1)]
  have fin: "owes {rmVolume (SandboxVolumeName r), rmContainer (containerName r)} (\<lambda>_. {})
      (do { cleanupSandbox w (SandboxVolumeName r) (containerName r); State_Monad.return x })" for r and x :: "(sandbox_error, SandboxRun) result"
    by (rule owes_bind [OF cleanup(2)], simp, rule owes_return) simp
  have early: "owes {rmVolume (SandboxVolumeName r)} (\<lambda>_. {})
      (do { cleanupSandbox w (SandboxVolumeName r) []; State_Monad.return x })" for r and x :: "(sandbox_error, SandboxRun) result"
    by (rule owes_bind [OF cleanup(1)], rule owes_return) simp
  show ?thesis unfolding RunSandbox_def if_not_P [OF False] Let_def
    by (rule owes_bind [OF owes_stage])
      (auto intro!: early fin owes_bind [OF owes_start] owes_bind [OF owes_observe] owes_bind [OF owes_exec] split: option.split prod.split)
qed

lemma owes_available: "owes us (\<lambda>_. us) (AvailableSandbox w)"
  unfolding AvailableSandbox_def by (auto intro!: owes_return owes_bind [OF owes_harmless] split: prod.split)

lemma owes_runAgentSandboxed: "owes us (\<lambda>_. us) (runAgentSandboxed w h rf req s kc prompt timeout)"
proof -
  have frame: "owes us (\<lambda>_. us) m" if "owes {} (\<lambda>_. {}) m" for m :: "'a proc"
    using that unfolding owes_def by (rule emits_mono) (blast intro: pending_mono)
  show ?thesis unfolding runAgentSandboxed_def
    by (auto intro!: owes_return owes_bind [OF owes_available] owes_bind [OF frame [OF owes_RunSandbox]] split: option.split prod.split bool.split sum.split)
qed

lemma owes_stageInputs: "owes us (\<lambda>_. us) (stageInputs w h dir ins)"
  by (induction ins) (auto intro!: owes_return owes_bind [OF owes_harmless] split: option.split prod.split)

lemma owes_agentWrapper: "owes us (\<lambda>_. us) (agentWrapper w h dir command args custom)"
  unfolding agentWrapper_def by (auto intro!: owes_return owes_bind [OF owes_harmless] split: option.split prod.split)

lemma owes_fillBundle: "owes us (\<lambda>_. us) (fillBundle w h dir command args ins custom)"
  unfolding fillBundle_def
  by (auto intro!: owes_return owes_bind [OF owes_agentWrapper] owes_bind [OF owes_stageInputs] owes_bind [OF owes_harmless] split: option.split prod.split sum.split)

lemma owes_removeAll: "owes {RemoveAll dir} (\<lambda>_. {}) (attempt w (RemoveAll dir))"
  unfolding attempt_def by (rule owes_bind [OF owes_undo], simp, rule owes_return) simp

lemma owes_syntheticAgentBundle:
  "owes {} (\<lambda>r. case r of Inl _ \<Rightarrow> {} | Inr dir \<Rightarrow> {RemoveAll dir}) (syntheticAgentBundle w h command ins custom)"
proof -
  let ?W = "\<lambda>(ok, dir). if ok then {RemoveAll dir} else {}"
  have t: "owes {} ?W (perform w (MkdirTemp p))" for p
    by (rule owes_perform) (auto simp: undoing_def)
  show ?thesis unfolding syntheticAgentBundle_def
    by (auto intro!: owes_return owes_bind [OF t] owes_bind [OF owes_fillBundle] owes_bind [OF owes_removeAll] split: option.split prod.split list.split)
qed

lemma owes_resolveImage: "owes us (\<lambda>_. us) (resolveAgentSandboxImage w h req)"
  unfolding resolveAgentSandboxImage_def Let_def by (auto intro!: owes_return owes_bind [OF owes_harmless] split: prod.split)

lemma owes_external: "owes {} (\<lambda>_. {}) (runExternalAgentSandboxed w h rf req s kc prompt timeout)"
  unfolding runExternalAgentSandboxed_def
  by (auto intro!: owes_return owes_bind [OF owes_resolveImage] owes_bind [OF owes_syntheticAgentBundle] owes_bind [OF owes_runAgentSandboxed] owes_bind [OF owes_removeAll]
      split: option.split sum.split)

text \<open>What the host does itself: it runs docker and nothing else, and starts no container but hardened ones.\<close>

fun hostOp :: "Op \<Rightarrow> bool" where
  "hostOp (Cmd args) \<longleftrightarrow> take 1 args = [''docker''] \<and>
     (take 3 args = [''docker'', ''run'', ''-d''] \<longrightarrow> (\<exists>spec vol name. args = ''docker'' # sandboxRunArgs spec vol name))"
| "hostOp (CmdInput args _) \<longleftrightarrow> take 2 args = [''docker'', ''run''] \<and> take 3 args \<noteq> [''docker'', ''run'', ''-d'']"
| "hostOp (Hook _ _) \<longleftrightarrow> False"
| "hostOp _ \<longleftrightarrow> True"

lemma hostOp_sandboxRunArgs [simp]: "hostOp (Cmd (''docker'' # sandboxRunArgs spec vol name))"
  by auto

lemma hostOp_docker [simp]:
  "hostOp (Cmd (''docker'' # ''exec'' # args))" "hostOp (Cmd (''docker'' # ''version'' # args))" "hostOp (Cmd (''docker'' # ''inspect'' # args))"
  "hostOp (Cmd (''docker'' # ''rm'' # args))" "hostOp (Cmd (''docker'' # ''volume'' # args))" "hostOp (CmdInput (''docker'' # ''run'' # ''--rm'' # args) i)"
  by simp_all

declare hostOp.simps(1,2) [simp del]

lemma only_stage: "only hostOp (stageSandbox w h img spec vol)"
proof -
  have "only hostOp (buildTar w h spec)"
    unfolding buildTar_def Let_def by (auto intro!: emits_intros split: sum.split prod.split)
  then show ?thesis unfolding stageSandbox_def docker_def by (auto intro!: emits_intros split: sum.split prod.split)
qed

lemma only_cleanup: "only hostOp (cleanupSandbox w vol container)"
  unfolding cleanupSandbox_def docker_def by (auto intro!: emits_intros)

lemma only_RunSandbox: "only hostOp (RunSandbox w h img spec timeout argv)"
  unfolding RunSandbox_def docker_def Let_def
  by (auto intro!: emits_intros only_stage only_cleanup split: option.split prod.split)

lemma only_external: "only hostOp (runExternalAgentSandboxed w h rf req s kc prompt timeout)"
proof -
  have i: "only hostOp (stageInputs w h dir ins)" for dir ins
    by (induction ins) (auto intro!: emits_intros split: option.split prod.split)
  have b: "only hostOp (syntheticAgentBundle w h command ins custom)" for command ins custom
    unfolding syntheticAgentBundle_def fillBundle_def agentWrapper_def
    by (auto intro!: emits_intros i split: option.split prod.split list.split sum.split)
  have a: "only hostOp (runAgentSandboxed w h rf r s kc prompt timeout)" for r
    unfolding runAgentSandboxed_def AvailableSandbox_def
    by (auto intro!: emits_intros only_RunSandbox split: option.split prod.split bool.split sum.split)
  show ?thesis unfolding runExternalAgentSandboxed_def resolveAgentSandboxImage_def Let_def
    by (auto intro!: emits_intros a b split: option.split prod.split sum.split)
qed


section \<open>Quoting\<close>

lemma splitFields_quoted:
  "splitFields InSingleQuotes cur (concat (map (\<lambda>c. if c = CHR 0x27 then [CHR 0x27, CHR 0x5C, CHR 0x27, CHR 0x27] else [c]) s) @ [CHR 0x27] @ rest) =
   splitFields Bare (cur @ s) rest"
  by (induction s arbitrary: cur) auto

lemma splitFields_shellQuote: "splitFields Bare cur (shellQuote s @ rest) = splitFields Bare (cur @ s) rest"
  using splitFields_quoted [of cur s rest] by (simp add: shellQuote_def)

text \<open>
  Splitting a command into fields and quoting fields for the shell are inverse: the quoted fields, joined by spaces, are split into the same
  fields again, whatever quotation marks, spaces and backslashes they contain, if none of them is empty.
\<close>

theorem agent_command_round_trip:
  assumes "\<forall>a\<in>set args. a \<noteq> []"
  shows "splitAgentCommand (join (map shellQuote args) '' '') = Some args"
  unfolding splitAgentCommand_def using assms
proof (induction args)
  case (Cons a args)
  show ?case
  proof (cases args)
    case Nil
    then show ?thesis using splitFields_shellQuote [of "[]" a "[]"] Cons.prems by (simp add: keepField_def)
  next
    case (Cons b bs)
    then have "join (map shellQuote (a # args)) '' '' = shellQuote a @ CHR '' '' # join (map shellQuote args) '' ''" by simp
    then show ?thesis using splitFields_shellQuote [of "[]" a] Cons.IH Cons.prems by (simp add: keepField_def)
  qed
qed (simp add: keepField_def)

section \<open>A sandboxed run\<close>

definition calm_world :: World where
  "calm_world tr op = (case op of
     MkdirTemp _ \<Rightarrow> (True, ''/tmp/b'')
   | Stat p \<Rightarrow> (list_ex (\<lambda>x. case fst x of WriteFile q _ \<Rightarrow> q = p | _ \<Rightarrow> False) tr, [])
   | ReadFile p \<Rightarrow> (True, p)
   | _ \<Rightarrow> (True, []))"

definition sandbox_host :: SandboxHost where
  "sandbox_host = \<lparr>sh_Abs = (\<lambda>p. Some (Join ''/home'' p)), sh_Walk = (\<lambda>_. Some [(''run'', Regular True, Some ''x'')]), sh_Tar = (\<lambda>es. nat_text (length es)),
     sh_Exec = (\<lambda>_ _. (''done'', [], Some 0, False)), sh_LookupEnv = [''API_KEY'' \<mapsto> ''s'', ''HOME'' \<mapsto> ''/root''],
     sh_StatExec = (\<lambda>p. if has_suffix p ''my-agent'' \<or> has_suffix p ''run'' then Some (False, True, True) else None),
     sh_LookPath = (\<lambda>_. None), sh_MkdirAll = (\<lambda>_. True), sh_UnixNano = 7\<rparr>"

definition sandbox_request :: "string \<Rightarrow> string list \<Rightarrow> SandboxRequest" where
  "sandbox_request command inputs =
     \<lparr>sq_AgentImage = ''img'', sq_AgentBundleDir = [], sq_AgentCommand = command, sq_AgentInputFiles = inputs, sq_AgentEnv = [''API_KEY'', ''HOME''], sq_Model = [],
      sq_SandboxMemory = ''512m'', sq_SandboxCPUs = [], sq_ClusterNetwork = ''kind'', sq_InClusterServer = []\<rparr>"

definition sandbox_spec :: SandboxSpec where
  "sandbox_spec = sandboxSpec sandbox_host (sandbox_request [] []) (demo_scenario [] []) ''kc'' ''p'' []"

theorem sandbox_is_hardened_witness:
  "\<exists>opts. dockerOptions (tl (sandboxRunArgs sandbox_spec ''v'' ''n'')) = (opts, [''img'', ''sh'', ''-c'', ''sleep 2147483647'']) \<and>
     hardened sandbox_spec ''v'' opts \<and> passedEnv (sb_AgentEnv sandbox_spec) = [''API_KEY'', ''INFRA_BENCH_PROMPT'', ''INFRA_BENCH_SCENARIO'', ''INFRA_BENCH_WORKSPACE'']"
proof -
  have "\<not> has_prefix (sb_Image sandbox_spec) ''-''" and i: "sb_Image sandbox_spec = ''img''" by code_simp+
  moreover have "passedEnv (sb_AgentEnv sandbox_spec) = [''API_KEY'', ''INFRA_BENCH_PROMPT'', ''INFRA_BENCH_SCENARIO'', ''INFRA_BENCH_WORKSPACE'']" by code_simp
  ultimately show ?thesis using sandbox_is_hardened [of sandbox_spec "''v''" "''n''"] by auto
qed

theorem agent_command_round_trip_witness:
  "splitAgentCommand (join (map shellQuote [''./my-agent'', [CHR 0x27, CHR '' '', CHR 0x5C]]) '' '') = Some [''./my-agent'', [CHR 0x27, CHR '' '', CHR 0x5C]]"
  using agent_command_round_trip [of "[''./my-agent'', [CHR 0x27, CHR '' '', CHR 0x5C]]"] by simp

text \<open>A run of an external agent with an input file succeeds.\<close>

lemma external_agent_runs:
  "map_sum id (\<lambda>x. (sx_Stdout (sr_Run x), sr_Metadata x))
     (fst (run_state (runExternalAgentSandboxed calm_world sandbox_host (\<lambda>_. None) (sandbox_request ''./my-agent --config a.yaml'' [''a.yaml''])
        (demo_scenario [] []) ''kc'' ''p'' ''10m0s'') [])) =
   Inr (''done'', [(''sandbox'', ''1''), (''sandbox_image'', ''img''), (''agent_mode'', ''external-sandboxed'')])"
  by code_simp

section \<open>Deviations\<close>

text \<open>An image name that begins with a dash is read as an option, although no caller is meant to be able to relax the flags.\<close>

lemma image_read_as_option: "Opt ''--privileged'' ''sh'' \<in> set (fst (dockerOptions (tl (sandboxRunArgs (sandbox_spec\<lparr>sb_Image := ''--privileged''\<rparr>) ''v'' ''n''))))"
  by code_simp

text \<open>An empty argument of the command is lost.\<close>

lemma empty_argument_dropped: "splitAgentCommand (join (map shellQuote [''a'', [], ''b'']) '' '') = Some [''a'', ''b'']"
  by code_simp

text \<open>An input file named like the entry point is not seen as a collision, and the wrapper overwrites it.\<close>

lemma input_named_run_lost:
  "(case run_state (fillBundle calm_world sandbox_host ''/tmp/b'' ''./my-agent'' [''./my-agent''] [''run''] True) [] of
     (err, tr) \<Rightarrow> err = None \<and> length (filter (\<lambda>x. case fst x of WriteFile q _ \<Rightarrow> q = ''/tmp/b/run'' | _ \<Rightarrow> False) tr) = 2)"
  by code_simp

text \<open>The message for an executable that is not found advises to stage it as an input; inputs are staged only after it was found.\<close>

lemma staged_executable_not_found:
  "fst (run_state (fillBundle calm_world sandbox_host ''/tmp/b'' ''other'' [''other''] [''bin/other''] False) []) = Some (ExecutableNotFound ''other'')"
  by code_simp

end
