(* ===== verification/Harness_Run.thy ===== *)
theory Harness_Run
  imports Run_Setup Case_Result "HOL-Library.Sublist"
begin

text \<open>
  The course of a run (\<^verbatim>\<open>pkg/harness/run.go\<close>): environment, isolation, bootstrap, identities, the proof that the baseline is healthy,
  the fault and the proof that it shows, snapshots, audit window, chaos, agent, verification, and the result of the
  case. The phases call the models of the other theories; a run keeps the trace of its operations and notes what
  it did. The theorems say that the agent starts only when the contract of the case holds, that PASS
  needs such a start, and that identities are revoked on every path.
\<close>

section \<open>The state of a run\<close>

datatype run_failure =
    NoKubeconfig | EnvironmentFailed prepare_error | IsolationFailed reset_error | BootstrapFailed setup_error
  | IdentityFailed identity_error | NilIdentity | CheckersInvalid build_error | EvaluatorUnhealthy string string | PreconditionViolated string bool
  | SnapshotPanic | BreakRefused setup_error | PromptUnreadable | RunsDirRefused | ChaosUnarmed string
  | AgentFailed string | MultiStageFailed stage_error | ChaosFault string | StillWaiting

text \<open>
  What a run notes: the events of its recorder, the outcome of checks under a kubeconfig, the checkpoints, the identities
  that passed their gate, the start of the agent and the revocation.
\<close>

datatype Note =
    EventNote string string
  | ChecksRun string string VerifyResult
  | Snapped string bool
  | Identified string string
  | AgentRun string
  | Revoked "string option"

record RunState =
  hs_Trace :: Trace
  hs_Notes :: "Note list"
  hs_Env :: Environ
  hs_Start :: int
  hs_Agent :: "(AgentResult \<times> string) option"
  hs_Verify :: "VerifyResult option"

type_synonym 'a phase = "RunState \<Rightarrow> (run_failure, 'a) result \<times> RunState"

definition proceed :: "'a \<Rightarrow> 'a phase" where
  "proceed a st = (Inr a, st)"

definition abort :: "run_failure \<Rightarrow> 'a phase" where
  "abort e st = (Inl e, st)"

definition andThen :: "'a phase \<Rightarrow> ('a \<Rightarrow> 'b phase) \<Rightarrow> 'b phase" where
  "andThen m f st = (case m st of (Inl e, st') \<Rightarrow> (Inl e, st') | (Inr a, st') \<Rightarrow> f a st')"

text \<open>A deferred call: it runs whatever the result is.\<close>

definition deferred :: "unit phase \<Rightarrow> 'a phase \<Rightarrow> 'a phase" where
  "deferred c m st = (case m st of (r, st') \<Rightarrow> (r, snd (c st')))"

text \<open>A call whose error is handled.\<close>

definition recovering :: "'a phase \<Rightarrow> (run_failure \<Rightarrow> 'b phase) \<Rightarrow> ('a \<Rightarrow> 'b phase) \<Rightarrow> 'b phase" where
  "recovering m f g st = (case m st of (Inl e, st') \<Rightarrow> f e st' | (Inr a, st') \<Rightarrow> g a st')"

definition remember :: "AgentResult \<times> string \<Rightarrow> VerifyResult option \<Rightarrow> unit phase" where
  "remember agent v st = (Inr (), st\<lparr>hs_Agent := Some agent, hs_Verify := v\<rparr>)"

definition startTime :: "int phase" where
  "startTime st = (Inr (hs_Start st), st)"

definition jot :: "Note \<Rightarrow> unit phase" where
  "jot n st = (Inr (), st\<lparr>hs_Notes := hs_Notes st @ [n]\<rparr>)"

definition recordEvent :: "string \<Rightarrow> string \<Rightarrow> unit phase" where
  "recordEvent phase status = jot (EventNote phase status)"

definition CurrentPhase :: "Note list \<Rightarrow> string" where
  "CurrentPhase notes = fold (\<lambda>n phase. case n of EventNote p _ \<Rightarrow> if p = [] then phase else p | _ \<Rightarrow> phase) notes ''run''"

definition lifted :: "'a proc \<Rightarrow> 'a phase" where
  "lifted m st = (case run_state m (hs_Trace st) of (r, tr) \<Rightarrow> (Inr r, st\<lparr>hs_Trace := tr\<rparr>))"

definition viewing :: "(Trace \<Rightarrow> 'a) \<Rightarrow> 'a phase" where
  "viewing f st = (Inr (f (hs_Trace st)), st)"

text \<open>A failure is recorded under the name of its phase.\<close>

definition failing :: "string \<Rightarrow> run_failure \<Rightarrow> 'a phase" where
  "failing phase e = andThen (recordEvent phase ''failed'') (\<lambda>_. abort e)"

definition phaseStep :: "string \<Rightarrow> ('e \<Rightarrow> run_failure) \<Rightarrow> 'e option proc \<Rightarrow> unit phase" where
  "phaseStep phase wrap m = andThen (recordEvent phase ''started'') (\<lambda>_. andThen (lifted m) (\<lambda>r. case r of
     Some e \<Rightarrow> failing phase (wrap e)
   | None \<Rightarrow> recordEvent phase ''completed''))"

section \<open>Request and world\<close>

record HarnessRequest =
  hr_Run :: RunRequest
  hr_DryRun :: bool
  hr_KubeconfigPath :: string
  hr_ScenariosDir :: string
  hr_RunsDir :: string
  hr_Provider :: string
  hr_Config :: AgentConfig
  hr_Audit :: "AuditAccess option"

datatype Backend = SandboxBundle | SandboxCommand | SandboxImage | RemoteA2A | ModelProvider | LocalAdapter

text \<open>
  What lies outside a run: the answers of commands, the providers, what checks, listings, probes and chaos see after a
  trace, the agents behind their adapters, clocks, nonces and codecs.
\<close>

record HarnessWorld =
  hw_World :: "Cluster_Providers.World"
  hw_Ops :: "ClusterOps option"
  hw_Bootstrapper :: bool
  hw_Ids :: IdentityEnv
  hw_Nonce :: "Trace \<Rightarrow> string"
  hw_Ready :: int
  hw_Fuel :: nat
  hw_Checks :: "Trace \<Rightarrow> Verifier.World"
  hw_Stages :: StageEnv
  hw_Lister :: "Trace \<Rightarrow> string \<Rightarrow> Target \<Rightarrow> (string, json) result"
  hw_SetDigest :: "(string \<times> json) list \<Rightarrow> string"
  hw_JsonDigest :: "json \<Rightarrow> string"
  hw_Chaos :: "Trace \<Rightarrow> ChaosWorld \<times> nat"
  hw_MkdirAll :: "Trace \<Rightarrow> string \<Rightarrow> bool"
  hw_Adapter :: bool
  hw_Agent :: "Backend \<Rightarrow> Trace \<Rightarrow> string \<Rightarrow> string \<Rightarrow> (string, AgentResult \<times> string) result"
  hw_StagesJSON :: "StageResult list \<Rightarrow> string"
  hw_Unmarshal :: "string \<Rightarrow> Audit_Events.Event option"
  hw_Marshal :: "Audit_Events.Event \<Rightarrow> string"
  hw_Sha :: "string \<Rightarrow> string"
  hw_Probe :: "Trace \<Rightarrow> string \<Rightarrow> Probe \<Rightarrow> string \<times> bool"
  hw_Rounds :: "Trace \<Rightarrow> round list"
  hw_Now :: "Trace \<Rightarrow> int"
  hw_Lib :: AutopsyLib
  hw_Cost :: "string \<Rightarrow> rat"
  hw_RunID :: string

abbreviation scenario_of :: "HarnessRequest \<Rightarrow> Scenario" where
  "scenario_of req \<equiv> rr_Scenario (hr_Run req)"

section \<open>Checks\<close>

definition verifyRunPhase :: "Verifier.World \<Rightarrow> Scenario \<Rightarrow> string \<Rightarrow> StageResult list \<Rightarrow> bool \<Rightarrow> string \<Rightarrow> (build_error, VerifyResult) result" where
  "verifyRunPhase vw s kubeconfig stageResults isMultiStage phase =
     (if isMultiStage then Inr \<lparr>vr_Passed = list_all sr_Passed stageResults, vr_Checks = []\<rparr>
      else (case BuildCheckers (checksToCheckDefs (s_Checks s)) of
          Inl e \<Rightarrow> Inl e
        | Inr checkers \<Rightarrow> Inr (RunChecks vw kubeconfig checkers (if phase \<noteq> [] then [''EVIDRA_PHASE='' @ phase] else []))))"

definition addStageMetadata :: "(StageResult list \<Rightarrow> string) \<Rightarrow> StageResult list \<Rightarrow> AgentResult \<Rightarrow> AgentResult" where
  "addStageMetadata marshal srs agent =
     (if srs = [] then agent
      else agent\<lparr>ar_Metadata := Some ((case ar_Metadata agent of None \<Rightarrow> Map.empty | Some m \<Rightarrow> m)
        (''stages_total'' \<mapsto> nat_text (length srs), ''stages_passed'' \<mapsto> nat_text (length (filter sr_Passed srs)), ''stages'' \<mapsto> marshal srs))\<rparr>)"

text \<open>The contract binds single-stage cases that inject a fault and check it.\<close>

definition contractBinds :: "Scenario \<Rightarrow> bool" where
  "contractBinds s \<longleftrightarrow> \<not> (s_Stages s \<noteq> [] \<or> s_Checks s = [] \<or> br_Type (s_Break s) = [] \<or> br_AllowFailure (s_Break s))"

definition preflight :: "HarnessWorld \<Rightarrow> Scenario \<Rightarrow> string \<Rightarrow> string \<Rightarrow> bool \<Rightarrow> unit phase" where
  "preflight hw s verifyKubeconfig phase wantPass =
     (if \<not> contractBinds s then proceed ()
      else andThen (recordEvent phase ''started'') (\<lambda>_.
        andThen (viewing (\<lambda>tr. verifyRunPhase (hw_Checks hw tr) s verifyKubeconfig [] False phase)) (\<lambda>res. case res of
          Inl e \<Rightarrow> failing phase (CheckersInvalid e)
        | Inr v \<Rightarrow> andThen (jot (ChecksRun phase verifyKubeconfig v)) (\<lambda>_.
            (case Errored (Some v) of
               c # _ \<Rightarrow> failing phase (EvaluatorUnhealthy phase (cr_Name c))
             | [] \<Rightarrow>
                 if vr_Passed v \<noteq> wantPass then failing phase (PreconditionViolated phase (vr_Passed v))
                 else recordEvent phase ''completed'')))))"

section \<open>Checkpoints, audit window, chaos\<close>

definition checkpoint :: "HarnessWorld \<Rightarrow> string \<Rightarrow> string \<Rightarrow> runSnapshots option \<Rightarrow> runSnapshots option phase" where
  "checkpoint hw kubeconfig name snaps =
     andThen (viewing (\<lambda>tr. map_option (capture (hw_SetDigest hw) (hw_Lister hw tr kubeconfig) name) snaps)) (\<lambda>snaps'.
       andThen (jot (Snapped name (snaps \<noteq> None))) (\<lambda>_. proceed snaps'))"

definition emitMarker :: "HarnessWorld \<Rightarrow> string \<Rightarrow> string \<Rightarrow> string phase" where
  "emitMarker hw kubeconfig status =
     andThen (viewing (hw_Nonce hw)) (\<lambda>nonce.
       andThen (lifted (EmitMarker (hw_World hw) ((hw_Ids hw)\<lparr>ie_Nonce := nonce\<rparr>) kubeconfig)) (\<lambda>r. case r of (name, err) \<Rightarrow>
         andThen (if err = None then proceed () else recordEvent ''audit_window'' status) (\<lambda>_. proceed name)))"

text \<open>Without audit nodes the window is disabled: \<open>None\<close>.\<close>

definition startAuditWindow :: "HarnessWorld \<Rightarrow> HarnessRequest \<Rightarrow> (AuditAccess \<times> string) option phase" where
  "startAuditWindow hw req = (case hr_Audit req of
     None \<Rightarrow> proceed None
   | Some a \<Rightarrow>
       if aa_NodeContainers a = [] then proceed None
       else andThen (emitMarker hw (hr_KubeconfigPath req) ''start_marker_failed'') (\<lambda>name. proceed (Some (a, name))))"

definition closeAuditWindow :: "HarnessWorld \<Rightarrow> HarnessRequest \<Rightarrow> (AuditAccess \<times> string) option \<Rightarrow> AuditWindowInfo option phase" where
  "closeAuditWindow hw req win = (case win of
     None \<Rightarrow> proceed None
   | Some (a, startNonce) \<Rightarrow>
       andThen (emitMarker hw (hr_KubeconfigPath req) ''end_marker_failed'') (\<lambda>endNonce.
         andThen (viewing (\<lambda>tr. Collect (hw_Unmarshal hw) (hw_Probe hw tr) (hw_Now hw tr)
             \<lparr>cr_Sources = aa_NodeContainers a, cr_StartNonce = startNonce, cr_EndNonce = endNonce,
              cr_MarkerUsername = aa_MarkerUsername a, cr_HealthCheckNodes = aa_NodeContainers a,
              cr_Deadline = hw_Now hw tr + 60 * 1000000000\<rparr> (hw_Rounds hw tr))) (\<lambda>res. case res of
           None \<Rightarrow> abort StillWaiting
         | Some r \<Rightarrow> proceed (auditWindowInfo (closeWindow (hw_Marshal hw) (hw_Sha hw) (Some r)) startNonce endNonce))))"

text \<open>The chaos beside the agent: it is awaited when the agent is done, and \<open>None\<close> means that it does not end.\<close>

definition startChaos :: "HarnessWorld \<Rightarrow> HarnessRequest \<Rightarrow> (ChaosWorld \<times> ChaosRunner \<times> nat) option phase" where
  "startChaos hw req =
     andThen (viewing (hw_Chaos hw)) (\<lambda>(cw, n). case startRunChaos cw (scenario_of req) (hr_KubeconfigPath req) n of
       (Inl e, _) \<Rightarrow> failing ''agent_prepare'' (ChaosUnarmed e)
     | (Inr None, _) \<Rightarrow> proceed None
     | (Inr (Some r), n') \<Rightarrow> proceed (Some (cw, r, n')))"

definition awaitChaos :: "HarnessWorld \<Rightarrow> (ChaosWorld \<times> ChaosRunner \<times> nat) option \<Rightarrow> ChaosRunner option phase" where
  "awaitChaos hw ch = (case ch of
     None \<Rightarrow> proceed None
   | Some (cw, r, n) \<Rightarrow> (case RunChaos (hw_Fuel hw) cw r n of None \<Rightarrow> abort StillWaiting | Some (_, r', _) \<Rightarrow> proceed (Some r')))"

section \<open>The agent\<close>

definition prepareAgentExecution :: "HarnessWorld \<Rightarrow> HarnessRequest \<Rightarrow> string phase" where
  "prepareAgentExecution hw req =
     (let prompt = s_Prompt (scenario_of req) in
      andThen (if prompt = [] then proceed (True, []) else lifted (perform (hw_World hw) (ReadFile prompt))) (\<lambda>(read, content).
        if \<not> read then failing ''agent_prepare'' PromptUnreadable
        else andThen (viewing (\<lambda>tr. hw_MkdirAll hw tr (hr_RunsDir req))) (\<lambda>made.
          if \<not> made then failing ''agent_prepare'' RunsDirRefused else proceed content)))"

definition shouldUseProviderEvidenceDir :: "HarnessRequest \<Rightarrow> bool" where
  "shouldUseProviderEvidenceDir req \<longleftrightarrow> hr_Provider req \<noteq> [] \<and> ac_Adapter (hr_Config req) \<noteq> ''a2a''"

definition backendOf :: "HarnessRequest \<Rightarrow> Backend" where
  "backendOf req = (let c = hr_Config req in
     if ac_AgentBundleDir c \<noteq> [] then SandboxBundle
     else if ac_AgentCommand c \<noteq> [] \<and> \<not> ac_AgentUnconfined c then SandboxCommand
     else if ac_AgentImage c \<noteq> [] then SandboxImage
     else if ac_Adapter c = ''a2a'' then RemoteA2A
     else if hr_Provider req \<noteq> [] then ModelProvider
     else LocalAdapter)"

definition labelUnconfined :: "AgentResult \<Rightarrow> AgentResult" where
  "labelUnconfined r = r\<lparr>ar_Metadata := Some ((case ar_Metadata r of None \<Rightarrow> Map.empty | Some m \<Rightarrow> m)(''agent_mode'' \<mapsto> ''external-unconfined''))\<rparr>"

definition executeSingleAgent :: "HarnessWorld \<Rightarrow> HarnessRequest \<Rightarrow> Trace \<Rightarrow> string \<Rightarrow> string \<Rightarrow> (string, AgentResult \<times> string) result" where
  "executeSingleAgent hw req tr kubeconfig prompt =
     (if backendOf req = LocalAdapter \<and> \<not> hw_Adapter hw then Inl ''harness: local adapter dependency is nil''
      else (case hw_Agent hw (backendOf req) tr kubeconfig prompt of
          Inl e \<Rightarrow> Inl e
        | Inr (r, transcript) \<Rightarrow>
            Inr (if backendOf req = LocalAdapter \<and> ac_AgentCommand (hr_Config req) \<noteq> [] then labelUnconfined r else r, transcript)))"

text \<open>
  Stages run beside the provider loop; what the agent does meanwhile shows in the answers of the world. Otherwise
  there is one agent and no stage.
\<close>

definition runAgents :: "HarnessWorld \<Rightarrow> HarnessRequest \<Rightarrow> string \<Rightarrow> string \<Rightarrow> ((AgentResult \<times> string) \<times> StageResult list) phase" where
  "runAgents hw req kubeconfig prompt =
     (if s_Stages (scenario_of req) \<noteq> [] \<and> shouldUseProviderEvidenceDir req then
        andThen (viewing (\<lambda>tr. hw_Agent hw ModelProvider tr kubeconfig prompt)) (\<lambda>agent.
          andThen (lifted (runMultiStage (hw_World hw) (hw_Stages hw) (hw_Bootstrapper hw) kubeconfig (s_Stages (scenario_of req)) [])) (\<lambda>r. case r of
            None \<Rightarrow> abort StillWaiting
          | Some (Some e, _) \<Rightarrow> abort (MultiStageFailed e)
          | Some (None, srs) \<Rightarrow> (case agent of Inl e \<Rightarrow> abort (AgentFailed e) | Inr a \<Rightarrow> proceed (a, srs))))
      else
        andThen (viewing (\<lambda>tr. executeSingleAgent hw req tr kubeconfig prompt)) (\<lambda>agent. case agent of
          Inl e \<Rightarrow> abort (AgentFailed e)
        | Inr a \<Rightarrow> proceed (a, [])))"

definition executeRunAgent :: "HarnessWorld \<Rightarrow> HarnessRequest \<Rightarrow> string \<Rightarrow> string \<Rightarrow> ((AgentResult \<times> string) \<times> StageResult list) phase" where
  "executeRunAgent hw req kubeconfig prompt = andThen (jot (AgentRun kubeconfig)) (\<lambda>_. runAgents hw req kubeconfig prompt)"

text \<open>A failed agent is recorded only after the chaos has ended.\<close>

definition agentPhase :: "HarnessWorld \<Rightarrow> HarnessRequest \<Rightarrow> string \<Rightarrow> string \<Rightarrow> (ChaosWorld \<times> ChaosRunner \<times> nat) option \<Rightarrow> ((AgentResult \<times> string) \<times> StageResult list) phase" where
  "agentPhase hw req kubeconfig prompt ch =
     andThen (recordEvent ''agent_run'' ''started'') (\<lambda>_.
       recovering (executeRunAgent hw req kubeconfig prompt)
         (\<lambda>e. andThen (awaitChaos hw ch) (\<lambda>_. failing ''agent_run'' e))
         (\<lambda>r. andThen (remember (fst r) None) (\<lambda>_.
           andThen (awaitChaos hw ch) (\<lambda>cr. case TriggerFault cr of
             Some f \<Rightarrow> failing ''agent_run'' (ChaosFault f)
           | None \<Rightarrow> andThen (recordEvent ''agent_run'' ''completed'') (\<lambda>_. proceed r)))))"

section \<open>Before and after the agent\<close>

definition breakPhase :: "HarnessWorld \<Rightarrow> HarnessRequest \<Rightarrow> unit phase" where
  "breakPhase hw req =
     (if s_Stages (scenario_of req) \<noteq> [] then proceed ()
      else phaseStep ''break'' BreakRefused (injectSingleStageBreak (hw_World hw) (sg_Parse (hw_Stages hw)) (sg_Cancelled (hw_Stages hw))
        (hw_Bootstrapper hw) (scenario_of req) (hr_KubeconfigPath req)))"

text \<open>
  The contract of a case: healthy baseline, checkpoint, fault, fault proven, checkpoint. It yields the
  snapshots so far.
\<close>

definition establishCase :: "HarnessWorld \<Rightarrow> HarnessRequest \<Rightarrow> string \<Rightarrow> runSnapshots option phase" where
  "establishCase hw req verifyKubeconfig =
     andThen (preflight hw (scenario_of req) verifyKubeconfig ''preflight_baseline'' True) (\<lambda>_.
       (case newRunSnapshots (s_AuthorityProfile (scenario_of req)) verifyKubeconfig of
          Inl _ \<Rightarrow> abort SnapshotPanic
        | Inr snaps0 \<Rightarrow>
            andThen (checkpoint hw verifyKubeconfig ''baseline'' snaps0) (\<lambda>snaps1.
              andThen (breakPhase hw req) (\<lambda>_.
                andThen (preflight hw (scenario_of req) verifyKubeconfig ''preflight_fault'' False) (\<lambda>_.
                  checkpoint hw verifyKubeconfig ''pre-agent'' snaps1)))))"

definition settleRun :: "HarnessWorld \<Rightarrow> HarnessRequest \<Rightarrow> unit phase" where
  "settleRun hw req = andThen (recordEvent ''settle'' ''started'') (\<lambda>_.
     andThen (lifted (waitForRollouts (hw_World hw) (hr_KubeconfigPath req) (s_Checks (scenario_of req)))) (\<lambda>_. recordEvent ''settle'' ''completed''))"

definition verifyRun :: "HarnessWorld \<Rightarrow> HarnessRequest \<Rightarrow> string \<Rightarrow> StageResult list \<Rightarrow> VerifyResult phase" where
  "verifyRun hw req verifyKubeconfig srs =
     andThen (recordEvent ''verification'' ''started'') (\<lambda>_.
       andThen (viewing (\<lambda>tr. verifyRunPhase (hw_Checks hw tr) (scenario_of req) verifyKubeconfig srs (s_Stages (scenario_of req) \<noteq> []) [])) (\<lambda>res. case res of
         Inl e \<Rightarrow> failing ''verification'' (CheckersInvalid e)
       | Inr v \<Rightarrow> andThen (jot (ChecksRun [] verifyKubeconfig v)) (\<lambda>_. andThen (recordEvent ''verification'' ''completed'') (\<lambda>_. proceed v))))"

definition autopsyOf :: "HarnessWorld \<Rightarrow> Scenario \<Rightarrow> AgentResult \<Rightarrow> string \<Rightarrow> VerifyResult \<Rightarrow> Report option" where
  "autopsyOf hw s agent transcript v =
     (let meta = (case ar_Metadata agent of None \<Rightarrow> Map.empty | Some m \<Rightarrow> m) in
      buildFailureAutopsyJSON (hw_Lib hw)
        \<lparr>rr_Passed = vr_Passed v, rr_ExitCode = ar_ExitCode agent, rr_Turns = parseIntMeta meta ''turns'',
         rr_PromptTokens = parseIntMeta meta ''prompt_tokens'', rr_CompletionTokens = parseIntMeta meta ''completion_tokens'',
         rr_EstimatedCost = hw_Cost hw (meta_get (ar_Metadata agent) ''estimated_cost''),
         rr_ChecksPassed = int (fst (countChecks (Some v))), rr_ChecksTotal = int (snd (countChecks (Some v)))\<rparr>
        (Some (Some (ar_ToolCalls agent))) transcript (s_Autopsy s))"

definition caseInput :: "HarnessWorld \<Rightarrow> HarnessRequest \<Rightarrow> AgentResult \<Rightarrow> string \<Rightarrow> VerifyResult \<Rightarrow> Termination \<Rightarrow> int \<Rightarrow> AuditWindowInfo option \<Rightarrow> SnapshotInfo option \<Rightarrow> CaseInput" where
  "caseInput hw req agent transcript v t duration audit snap =
     \<lparr>ci_ScenarioID = s_ID (scenario_of req), ci_PlannedMode = plannedAgentMode (hr_Config req), ci_RunID = hw_RunID hw,
      ci_Agent = Some agent, ci_Verify = Some v, ci_Autopsy = autopsyOf hw (scenario_of req) agent transcript v,
      ci_ArtifactDir = [], ci_Duration = duration, ci_Termination = t,
      ci_ProfilePresent = s_AuthorityProfile (scenario_of req) \<noteq> None, ci_Audit = audit, ci_Snap = snap,
      ci_Profile = s_AuthorityProfile (scenario_of req)\<rparr>"

definition concludeRun :: "HarnessWorld \<Rightarrow> HarnessRequest \<Rightarrow> string \<Rightarrow> runSnapshots option \<Rightarrow> (AuditAccess \<times> string) option \<Rightarrow> (AgentResult \<times> string) \<Rightarrow> StageResult list \<Rightarrow> CaseInput phase" where
  "concludeRun hw req verifyKubeconfig snaps win agent srs =
     (let a = addStageMetadata (hw_StagesJSON hw) srs (fst agent) in
      andThen (settleRun hw req) (\<lambda>_.
        andThen (verifyRun hw req verifyKubeconfig srs) (\<lambda>v.
          andThen (remember (a, snd agent) (Some v)) (\<lambda>_.
            andThen (checkpoint hw verifyKubeconfig ''post-agent'' snaps) (\<lambda>snaps1.
              andThen (checkpoint hw verifyKubeconfig ''stability'' snaps1) (\<lambda>snaps2.
                andThen (closeAuditWindow hw req win) (\<lambda>audit.
                  andThen (viewing (hw_Now hw)) (\<lambda>now.
                    andThen startTime (\<lambda>start.
                      andThen (recordEvent ''run'' ''completed'') (\<lambda>_.
                        proceed (caseInput hw req a (snd agent) v \<lparr>te_Kind = TerminationComplete, te_Phase = [], te_Reason = [], te_Details = []\<rparr>
                          (now - start) audit (finalize (hw_SetDigest hw) (hw_JsonDigest hw) snaps2))))))))))))"

definition runCase :: "HarnessWorld \<Rightarrow> HarnessRequest \<Rightarrow> string \<Rightarrow> string \<Rightarrow> CaseInput phase" where
  "runCase hw req agentKubeconfig verifyKubeconfig =
     andThen (establishCase hw req verifyKubeconfig) (\<lambda>snaps.
       andThen (startAuditWindow hw req) (\<lambda>win.
         andThen (recordEvent ''agent_prepare'' ''started'') (\<lambda>_.
           andThen (prepareAgentExecution hw req) (\<lambda>prompt.
             andThen (recordEvent ''agent_prepare'' ''completed'') (\<lambda>_.
               andThen (startChaos hw req) (\<lambda>ch.
                 andThen (agentPhase hw req agentKubeconfig prompt ch) (\<lambda>(agent, srs).
                   concludeRun hw req verifyKubeconfig snaps win agent srs)))))))"

section \<open>The run\<close>

definition revoke :: "HarnessWorld \<Rightarrow> HarnessRequest \<Rightarrow> IdentityBundle \<Rightarrow> unit phase" where
  "revoke hw req b = andThen (lifted (Teardown (hw_World hw) (hr_KubeconfigPath req) (Some b))) (\<lambda>e. jot (Revoked e))"

definition withIdentities :: "HarnessWorld \<Rightarrow> HarnessRequest \<Rightarrow> CaseInput phase" where
  "withIdentities hw req = (case s_AuthorityProfile (scenario_of req) of
     None \<Rightarrow> runCase hw req (hr_KubeconfigPath req) (hr_KubeconfigPath req)
   | Some pf \<Rightarrow>
       andThen (recordEvent ''identity'' ''started'') (\<lambda>_.
         andThen (lifted (provisionRunIdentities (hw_Fuel hw) (hw_World hw) (hw_Ids hw) (hr_KubeconfigPath req) pf (hw_Ready hw))) (\<lambda>r. case r of
           None \<Rightarrow> abort StillWaiting
         | Some (Inl e) \<Rightarrow> failing ''identity'' (IdentityFailed e)
         | Some (Inr b) \<Rightarrow> (case (ib_Agent b, ib_Evidence b) of
             (Some agent, Some evidence) \<Rightarrow> deferred (revoke hw req b)
               (andThen (jot (Identified (id_KubeconfigPath agent) (id_KubeconfigPath evidence))) (\<lambda>_.
                 andThen (recordEvent ''identity'' ''completed'') (\<lambda>_.
                   runCase hw req (id_KubeconfigPath agent) (id_KubeconfigPath evidence))))
           | _ \<Rightarrow> abort NilIdentity))))"

definition prepareEnvironment :: "HarnessWorld \<Rightarrow> HarnessRequest \<Rightarrow> string \<Rightarrow> unit phase" where
  "prepareEnvironment hw req ns =
     andThen (recordEvent ''environment'' ''started'') (\<lambda>_ st.
       (case run_state (prepareRunEnvironment (hw_World hw) (hw_Ops hw) (hr_Run req) (hr_KubeconfigPath req) ns (hs_Env st)) (hs_Trace st) of
          ((err, env), tr) \<Rightarrow>
            (case err of
               Some e \<Rightarrow> failing ''environment'' (EnvironmentFailed e)
             | None \<Rightarrow> recordEvent ''environment'' ''completed'') (st\<lparr>hs_Trace := tr, hs_Env := env\<rparr>)))"

definition bootstrapPhase :: "HarnessWorld \<Rightarrow> HarnessRequest \<Rightarrow> unit phase" where
  "bootstrapPhase hw req = (if \<not> hw_Bootstrapper hw then proceed ()
     else phaseStep ''bootstrap'' BootstrapFailed (Execute (hw_World hw) (sg_Parse (hw_Stages hw)) (sg_Cancelled (hw_Stages hw))
       (buildBootstrapPlan (scenario_of req) (hr_ScenariosDir req)) (hr_KubeconfigPath req)))"

definition dropExtraEnv :: "HarnessRequest \<Rightarrow> unit phase" where
  "dropExtraEnv req st = (Inr (), st\<lparr>hs_Env := cleanupExtraEnv (rr_ExtraEnv (hr_Run req)) (hs_Env st)\<rparr>)"

definition runPhases :: "HarnessWorld \<Rightarrow> HarnessRequest \<Rightarrow> CaseInput phase" where
  "runPhases hw req =
     (let ns = targetNamespace (hr_Run req) in
      if hr_KubeconfigPath req = [] then failing ''configuration'' NoKubeconfig
      else andThen (prepareEnvironment hw req ns) (\<lambda>_.
        deferred (dropExtraEnv req)
          (andThen (phaseStep ''isolation'' IsolationFailed (resetScenarioNamespaces (hw_World hw) (hw_Ops hw) (hr_Run req) (hr_KubeconfigPath req) ns)) (\<lambda>_.
            andThen (bootstrapPhase hw req) (\<lambda>_. withIdentities hw req)))))"

text \<open>The class of an error decides how it is reported and whether a run is tried again.\<close>

record ErrorClass =
  ec_Deadline :: bool
  ec_Canceled :: bool
  ec_Sandbox :: bool
  ec_Infra :: bool

definition classifyRunError :: "ErrorClass \<Rightarrow> string \<Rightarrow> string \<times> bool" where
  "classifyRunError err phase =
     (if ec_Deadline err then (''timeout'', True)
      else if ec_Canceled err then (''context_canceled'', True)
      else if ec_Sandbox err then (''sandbox_unavailable'', True)
      else if ec_Infra err then (''infra_error'', True)
      else if phase = ''configuration'' then (''configuration_error'', False)
      else if phase \<in> {''environment'', ''bootstrap'', ''break''} then (''setup_error'', True)
      else if phase = ''agent_prepare'' then (''configuration_error'', False)
      else if phase = ''agent_run'' then (''adapter_error'', False)
      else if phase = ''verification'' then (''verifier_error'', False)
      else (''run_error'', False))"

definition failedAgentResult :: "AgentResult option \<Rightarrow> int \<Rightarrow> AgentResult" where
  "failedAgentResult agent exitCode = (case agent of
     None \<Rightarrow> \<lparr>ar_ExitCode = exitCode, ar_ToolCalls = [], ar_Metadata = Some Map.empty\<rparr>
   | Some a \<Rightarrow> a\<lparr>ar_ExitCode := (if ar_ExitCode a = 0 then exitCode else ar_ExitCode a),
       ar_Metadata := Some (case ar_Metadata a of None \<Rightarrow> Map.empty | Some m \<Rightarrow> m)\<rparr>)"

definition failedVerifyResult :: "VerifyResult option \<Rightarrow> VerifyResult" where
  "failedVerifyResult v = (case v of None \<Rightarrow> \<lparr>vr_Passed = False, vr_Checks = []\<rparr> | Some r \<Rightarrow> r\<lparr>vr_Passed := False\<rparr>)"

definition failedRunExitCode :: "int \<Rightarrow> int" where
  "failedRunExitCode agentExitCode = (if agentExitCode \<noteq> 0 then agentExitCode else -1)"

record RunResult =
  ou_Passed :: bool
  ou_ExitCode :: int
  ou_Case :: "CaseResult option"

text \<open>The result of a failed run, from what it had reached; \<open>why\<close> is the kind of its error.\<close>

definition failedRunCase :: "HarnessWorld \<Rightarrow> HarnessRequest \<Rightarrow> string \<Rightarrow> string \<Rightarrow> RunState \<Rightarrow> CaseInput" where
  "failedRunCase hw req why details st =
     (let exitCode = failedRunExitCode (case hs_Agent st of None \<Rightarrow> 0 | Some (a, _) \<Rightarrow> ar_ExitCode a);
          agent = failedAgentResult (map_option fst (hs_Agent st)) exitCode;
          v = failedVerifyResult (hs_Verify st) in
      caseInput hw req agent (case hs_Agent st of None \<Rightarrow> [] | Some (_, t) \<Rightarrow> t) v
        \<lparr>te_Kind = TerminationIncomplete, te_Phase = CurrentPhase (hs_Notes st), te_Reason = why, te_Details = details\<rparr>
        (hw_Now hw (hs_Trace st) - hs_Start st) None None)"

definition HarnessRun :: "HarnessWorld \<Rightarrow> HarnessRequest \<Rightarrow> (run_failure \<Rightarrow> ErrorClass) \<Rightarrow> (run_failure \<Rightarrow> string) \<Rightarrow> Environ \<Rightarrow> Trace \<Rightarrow> RunResult \<times> run_failure option \<times> RunState" where
  "HarnessRun hw req class text env tr =
     (let st0 = \<lparr>hs_Trace = tr, hs_Notes = [EventNote ''run'' ''started''], hs_Env = env, hs_Start = hw_Now hw tr, hs_Agent = None, hs_Verify = None\<rparr> in
      if hr_DryRun req then
        (\<lparr>ou_Passed = True, ou_ExitCode = 0, ou_Case = None\<rparr>, None, snd (recordEvent ''run'' ''completed'' st0))
      else (case runPhases hw req st0 of
          (Inr c, st) \<Rightarrow>
            (\<lparr>ou_Passed = (case ci_Verify c of Some v \<Rightarrow> vr_Passed v | None \<Rightarrow> False),
              ou_ExitCode = (case ci_Agent c of Some a \<Rightarrow> ar_ExitCode a | None \<Rightarrow> 0),
              ou_Case = Some (buildEvaluationCaseResultPlanned c)\<rparr>, None, st)
        | (Inl e, st) \<Rightarrow>
            (let st1 = st\<lparr>hs_Notes := hs_Notes st @ [EventNote (CurrentPhase (hs_Notes st)) ''failed'']\<rparr>;
                 c = failedRunCase hw req (fst (classifyRunError (class e) (CurrentPhase (hs_Notes st1)))) (text e) st1 in
             (\<lparr>ou_Passed = False, ou_ExitCode = failedRunExitCode (case hs_Agent st of None \<Rightarrow> 0 | Some (a, _) \<Rightarrow> ar_ExitCode a),
               ou_Case = Some (buildEvaluationCaseResultPlanned c)\<rparr>, Some e, st1))))"

section \<open>What a run notes\<close>

text \<open>\<open>writes Q m\<close>: a run of \<open>m\<close> only adds to the notes, and its result and what it adds satisfy \<open>Q\<close>.\<close>

definition writes :: "((run_failure, 'a) result \<Rightarrow> Note list \<Rightarrow> bool) \<Rightarrow> 'a phase \<Rightarrow> bool" where
  "writes Q m \<longleftrightarrow> (\<forall>st. \<exists>d. hs_Notes (snd (m st)) = hs_Notes st @ d \<and> Q (fst (m st)) d)"

named_theorems writes_intros \<open>rules for the phases of a run\<close>

lemma writes_mono: "writes P m \<Longrightarrow> (\<And>r d. P r d \<Longrightarrow> Q r d) \<Longrightarrow> writes Q m"
  unfolding writes_def by metis

lemma writes_proceed: "Q (Inr a) [] \<Longrightarrow> writes Q (proceed a)"
  by (auto simp: writes_def proceed_def)

lemma writes_abort: "Q (Inl e) [] \<Longrightarrow> writes Q (abort e)"
  by (auto simp: writes_def abort_def)

lemma writes_jot: "Q (Inr ()) [n] \<Longrightarrow> writes Q (jot n)"
  by (auto simp: writes_def jot_def)

lemma writes_viewing: "(\<And>a. Q (Inr a) []) \<Longrightarrow> writes Q (viewing f)"
  by (auto simp: writes_def viewing_def)

lemma writes_lifted: "(\<And>a. Q (Inr a) []) \<Longrightarrow> writes Q (lifted p)"
  by (auto simp: writes_def lifted_def split: prod.split)

lemmas writes_basic = writes_proceed writes_abort writes_jot writes_viewing writes_lifted

lemma writes_andThen:
  assumes "writes P m" and "\<And>a d. P (Inr a) d \<Longrightarrow> writes (\<lambda>r d'. Q r (d @ d')) (f a)" and "\<And>e d. P (Inl e) d \<Longrightarrow> Q (Inl e) d"
  shows "writes Q (andThen m f)"
  unfolding writes_def
proof
  fix st
  obtain r st' where m: "m st = (r, st')" by fastforce
  obtain d where d: "hs_Notes st' = hs_Notes st @ d" "P r d" using assms(1) m unfolding writes_def by (metis fst_conv snd_conv)
  show "\<exists>d. hs_Notes (snd (andThen m f st)) = hs_Notes st @ d \<and> Q (fst (andThen m f st)) d"
  proof (cases r)
    case (Inl e)
    then show ?thesis using m d assms(3) by (auto simp: andThen_def)
  next
    case (Inr a)
    obtain d' where "hs_Notes (snd (f a st')) = hs_Notes st' @ d'" "Q (fst (f a st')) (d @ d')"
      using assms(2) [of a d] d(2) Inr unfolding writes_def by blast
    then show ?thesis using m d(1) Inr by (auto simp: andThen_def)
  qed
qed

lemma writes_deferred:
  assumes "writes P m" and "writes (\<lambda>_. R) c" and "\<And>r d d'. P r d \<Longrightarrow> R d' \<Longrightarrow> Q r (d @ d')"
  shows "writes Q (deferred c m)"
  unfolding writes_def
proof
  fix st
  obtain r st' where m: "m st = (r, st')" by fastforce
  obtain d where d: "hs_Notes st' = hs_Notes st @ d" "P r d" using assms(1) m unfolding writes_def by (metis fst_conv snd_conv)
  obtain d' where "hs_Notes (snd (c st')) = hs_Notes st' @ d'" "R d'" using assms(2) unfolding writes_def by blast
  then show "\<exists>d. hs_Notes (snd (deferred c m st)) = hs_Notes st @ d \<and> Q (fst (deferred c m st)) d"
    using m d assms(3) by (auto simp: deferred_def)
qed

text \<open>Phases that note neither a start of the agent nor anything about identities.\<close>

fun plain_note :: "Note \<Rightarrow> bool" where
  "plain_note (Identified a v) = False"
| "plain_note (AgentRun kc) = False"
| "plain_note (Revoked e) = False"
| "plain_note n = True"

abbreviation idle :: "Note list \<Rightarrow> bool" where
  "idle d \<equiv> list_all plain_note d"

text \<open>\<open>leads G m\<close>: such a phase, whose notes satisfy \<open>G\<close> when it succeeds.\<close>

definition leads :: "(Note list \<Rightarrow> bool) \<Rightarrow> 'a phase \<Rightarrow> bool" where
  "leads G m \<longleftrightarrow> writes (\<lambda>r d. idle d \<and> (\<not> isl r \<longrightarrow> G d)) m"

abbreviation anything :: "Note list \<Rightarrow> bool" where
  "anything \<equiv> \<lambda>_. True"

lemma leads_mono: "leads G m \<Longrightarrow> (\<And>d. G d \<Longrightarrow> H d) \<Longrightarrow> leads H m"
  unfolding leads_def by (erule writes_mono) auto

lemma leads_weaken: "leads G m \<Longrightarrow> leads anything m"
  by (erule leads_mono) simp

lemma leads_proceed [writes_intros]: "leads anything (proceed a)"
  unfolding leads_def by (rule writes_proceed) simp

lemma leads_abort [writes_intros]: "leads G (abort e)"
  unfolding leads_def by (rule writes_abort) simp

lemma leads_viewing [writes_intros]: "leads anything (viewing f)"
  unfolding leads_def by (rule writes_viewing) simp

lemma leads_lifted [writes_intros]: "leads anything (lifted p)"
  unfolding leads_def by (rule writes_lifted) simp

lemma leads_Event [writes_intros]: "leads anything (recordEvent ph sta)"
  unfolding leads_def recordEvent_def by (rule writes_jot) simp

lemma leads_andThen:
  assumes "leads G m" and "\<And>a. leads H (f a)"
  shows "leads (\<lambda>d. \<exists>d1 d2. d = d1 @ d2 \<and> G d1 \<and> H d2) (andThen m f)"
  unfolding leads_def
  by (rule writes_andThen [OF assms(1) [unfolded leads_def]], rule writes_mono [OF assms(2) [unfolded leads_def]]) auto

lemma leads_quiet [writes_intros]: "leads anything m \<Longrightarrow> (\<And>a. leads anything (f a)) \<Longrightarrow> leads anything (andThen m f)"
  by (rule leads_weaken, rule leads_andThen)

lemma leads_after: "leads anything m \<Longrightarrow> (\<And>a. leads G (f a)) \<Longrightarrow> (\<And>d d'. G d \<Longrightarrow> G (d' @ d)) \<Longrightarrow> leads G (andThen m f)"
  by (rule leads_mono [OF leads_andThen]) auto

lemma leads_failing [writes_intros]: "leads G (failing p e)"
  unfolding failing_def leads_def recordEvent_def by (rule writes_andThen [OF writes_jot [where Q = "\<lambda>r d. d = [EventNote p ''failed''] \<and> \<not> isl r"]]) (auto intro: writes_abort)

lemma leads_jot: "plain_note n \<Longrightarrow> leads (subseq [n]) (jot n)"
  unfolding leads_def by (rule writes_basic) auto

lemma subseq_single_append [simp]: "subseq [n] (d @ d') \<longleftrightarrow> subseq [n] d \<or> subseq [n] d'"
  by (simp add: subseq_singleton_left)

lemma phaseStep_leads: "leads (subseq [EventNote ph ''completed'']) (phaseStep ph wrap m)"
  unfolding phaseStep_def
  by (intro leads_after [OF leads_Event] leads_after [OF leads_lifted])
    (auto simp: recordEvent_def intro!: leads_jot leads_failing split: option.split)

lemma preflight_leads:
  "leads (\<lambda>d. contractBinds s \<longrightarrow> (\<exists>v. vr_Passed v = want \<and> Errored (Some v) = [] \<and> subseq [ChecksRun ph kc v] d)) (preflight hw s kc ph want)"
proof -
  let ?G = "\<lambda>d. contractBinds s \<longrightarrow> (\<exists>v. vr_Passed v = want \<and> Errored (Some v) = [] \<and> subseq [ChecksRun ph kc v] d)"
  have ext: "\<And>d d'. ?G d \<Longrightarrow> ?G (d' @ d)" by auto
  have v: "leads ?G (andThen (jot (ChecksRun ph kc v)) (\<lambda>_. case Errored (Some v) of
      c # _ \<Rightarrow> failing ph (EvaluatorUnhealthy ph (cr_Name c))
    | [] \<Rightarrow> if vr_Passed v \<noteq> want then failing ph (PreconditionViolated ph (vr_Passed v)) else recordEvent ph ''completed''))" for v
  proof (cases "Errored (Some v) = [] \<and> vr_Passed v = want")
    case True
    have "leads (\<lambda>d. \<exists>d1 d2. d = d1 @ d2 \<and> subseq [ChecksRun ph kc v] d1 \<and> True) (andThen (jot (ChecksRun ph kc v)) (\<lambda>_. recordEvent ph ''completed''))"
      by (rule leads_andThen [OF leads_jot leads_Event]) simp
    then show ?thesis using True by (auto intro: leads_mono)
  next
    case False
    then show ?thesis by (intro leads_after [where G = ?G, OF leads_weaken [OF leads_jot] _ ext]) (auto split: list.split intro: leads_failing)
  qed
  show ?thesis
  proof (cases "contractBinds s")
    case True
    show ?thesis unfolding preflight_def
      by (subst if_not_P, simp add: True, rule leads_after [where G = ?G, OF leads_Event _ ext], rule leads_after [where G = ?G, OF leads_viewing _ ext])
        (use v True in \<open>auto split: sum.split intro: leads_failing\<close>)
  next
    case False
    then show ?thesis by (auto simp: preflight_def intro: leads_mono [OF leads_proceed])
  qed
qed

lemma checkpoint_leads: "leads (\<lambda>d. \<exists>b. subseq [Snapped name b] d) (checkpoint hw kc name snaps)"
  unfolding checkpoint_def
  by (rule leads_after [OF leads_viewing], rule leads_mono [OF leads_andThen [OF leads_jot leads_proceed]]) auto

lemma breakPhase_leads: "leads (\<lambda>d. s_Stages (scenario_of req) = [] \<longrightarrow> subseq [EventNote ''break'' ''completed''] d) (breakPhase hw req)"
  by (auto simp: breakPhase_def intro: leads_mono [OF phaseStep_leads] leads_mono [OF leads_proceed])

text \<open>
  The contract of a case that injects a fault, in the notes before its agent starts: every check passed on the baseline, which was
  captured; then the fault was injected, some check failed on it and none could not be evaluated, and that state was captured.
\<close>

definition contract :: "Scenario \<Rightarrow> string \<Rightarrow> Note list \<Rightarrow> bool" where
  "contract s kc d \<longleftrightarrow> (contractBinds s \<longrightarrow> (\<exists>v1 v2 b1 b2.
     vr_Passed v1 \<and> Errored (Some v1) = [] \<and> \<not> vr_Passed v2 \<and> Errored (Some v2) = [] \<and>
     subseq [ChecksRun ''preflight_baseline'' kc v1, Snapped ''baseline'' b1, EventNote ''break'' ''completed'',
             ChecksRun ''preflight_fault'' kc v2, Snapped ''pre-agent'' b2] d))"

lemma subseq_cons_append: "subseq [x] d \<Longrightarrow> subseq xs d' \<Longrightarrow> subseq (x # xs) (d @ d')"
  using list_emb_append_mono [of "(=)" "[x]" d xs d'] by simp

lemma contract_later: "contract s kc d \<Longrightarrow> contract s kc (d' @ d @ d'')"
proof -
  have "subseq xs d \<Longrightarrow> subseq xs (d' @ d @ d'')" for xs by (meson subseq_append subseq_rev_drop_many subseq_drop_many)
  then show "contract s kc d \<Longrightarrow> contract s kc (d' @ d @ d'')" unfolding contract_def by blast
qed

lemma contract_prefix: "contract s kc d \<Longrightarrow> contract s kc (d' @ d)"
  using contract_later [of s kc d d' "[]"] by simp

lemma establishCase_leads: "leads (contract (scenario_of req) kc) (establishCase hw req kc)"
proof (cases "newRunSnapshots (s_AuthorityProfile (scenario_of req)) kc")
  case (Inl e)
  then show ?thesis unfolding establishCase_def
    by (simp, intro leads_after [where G = "contract (scenario_of req) kc", OF leads_weaken [OF preflight_leads] leads_abort contract_prefix])
next
  case (Inr snaps)
  show ?thesis unfolding establishCase_def Inr sum.case
  proof (rule leads_mono [OF leads_andThen [OF preflight_leads leads_andThen [OF checkpoint_leads leads_andThen [OF breakPhase_leads leads_andThen [OF preflight_leads checkpoint_leads]]]]])
    fix d
    assume "\<exists>d1 d2. d = d1 @ d2 \<and>
       (contractBinds (scenario_of req) \<longrightarrow> (\<exists>v. vr_Passed v = True \<and> Errored (Some v) = [] \<and> subseq [ChecksRun ''preflight_baseline'' kc v] d1)) \<and>
       (\<exists>d3 d4. d2 = d3 @ d4 \<and> (\<exists>b. subseq [Snapped ''baseline'' b] d3) \<and>
         (\<exists>d5 d6. d4 = d5 @ d6 \<and> (s_Stages (scenario_of req) = [] \<longrightarrow> subseq [EventNote ''break'' ''completed''] d5) \<and>
           (\<exists>d7 d8. d6 = d7 @ d8 \<and>
             (contractBinds (scenario_of req) \<longrightarrow> (\<exists>v. vr_Passed v = False \<and> Errored (Some v) = [] \<and> subseq [ChecksRun ''preflight_fault'' kc v] d7)) \<and>
             (\<exists>b. subseq [Snapped ''pre-agent'' b] d8))))"
    then show "contract (scenario_of req) kc d" unfolding contract_def contractBinds_def
      by (blast intro: subseq_cons_append)
  qed
qed

section \<open>The shape of a run\<close>

lemma emitMarker_leads [writes_intros]: "leads anything (emitMarker hw kc status)"
  unfolding emitMarker_def by (auto intro!: writes_intros)

lemma quiet_phases [writes_intros]:
  "leads anything (startAuditWindow hw req)" "leads anything (closeAuditWindow hw req win)" "leads anything (startChaos hw req)"
  "leads anything (awaitChaos hw ch)" "leads anything (prepareAgentExecution hw req)" "leads anything (settleRun hw req)"
  unfolding startAuditWindow_def closeAuditWindow_def startChaos_def awaitChaos_def prepareAgentExecution_def settleRun_def
  by (auto simp: Let_def intro!: writes_intros split: option.split prod.split sum.split)

lemma verifyRun_leads [writes_intros]: "leads anything (verifyRun hw req kc srs)"
  unfolding verifyRun_def by (auto intro!: writes_intros leads_weaken [OF leads_jot] split: sum.split)

lemma leads_remember [writes_intros]: "leads anything (remember a v)" "leads anything startTime"
  by (auto simp: leads_def writes_def remember_def startTime_def)

lemma concludeRun_leads [writes_intros]: "leads anything (concludeRun hw req kc snaps win agent srs)"
  unfolding concludeRun_def Let_def by (intro writes_intros leads_weaken [OF checkpoint_leads])

text \<open>
  \<open>begun G kc r d\<close>: either the agent was not started and the phase failed, or it was started once, with the
  kubeconfig \<open>kc\<close>, and the notes before satisfy \<open>G\<close>.
\<close>

definition begun :: "(Note list \<Rightarrow> bool) \<Rightarrow> string \<Rightarrow> bool \<Rightarrow> Note list \<Rightarrow> bool" where
  "begun G kc failed d \<longleftrightarrow> idle d \<and> failed \<or> (\<exists>pre post. d = pre @ AgentRun kc # post \<and> idle pre \<and> idle post \<and> G pre)"

lemma begun_after:
  fixes m :: "'a phase" and f :: "'a \<Rightarrow> 'b phase"
  assumes "leads G m" and "\<And>a. writes (\<lambda>r. begun anything kc (isl r)) (f a)" and "\<And>d d'. G d \<Longrightarrow> G (d @ d')"
  shows "writes (\<lambda>r. begun G kc (isl r)) (andThen m f)"
proof (rule writes_andThen [OF assms(1) [unfolded leads_def]])
  fix a :: 'a and d
  assume d: "idle d \<and> (\<not> isl (Inr a :: (run_failure, 'a) result) \<longrightarrow> G d)"
  have "begun anything kc x d' \<Longrightarrow> begun G kc x (d @ d')" for x d'
  proof -
    assume "begun anything kc x d'"
    then consider "idle d'" x | pre post where "d' = pre @ AgentRun kc # post" "idle pre" "idle post" unfolding begun_def by blast
    then show ?thesis
    proof cases
      case 2
      then have "d @ d' = (d @ pre) @ AgentRun kc # post" "idle (d @ pre)" "G (d @ pre)" using d assms(3) by auto
      then show ?thesis using 2(3) unfolding begun_def by blast
    qed (use d in \<open>auto simp: begun_def\<close>)
  qed
  then show "writes (\<lambda>r d'. begun G kc (isl r) (d @ d')) (f a)" by (intro writes_mono [OF assms(2)])
qed (simp add: begun_def)

lemma writes_recovering:
  assumes "writes (\<lambda>_. P) m" and "\<And>e. leads anything (f e)" and "\<And>a. leads anything (g a)"
  shows "writes (\<lambda>_ d. \<exists>d1 d2. d = d1 @ d2 \<and> P d1 \<and> idle d2) (recovering m f g)"
  unfolding writes_def
proof
  fix st
  obtain r st1 where m: "m st = (r, st1)" by fastforce
  obtain d1 where d1: "hs_Notes st1 = hs_Notes st @ d1" "P d1" using assms(1) m unfolding writes_def by (metis snd_conv)
  obtain d2 where "hs_Notes (snd (recovering m f g st)) = hs_Notes st1 @ d2" "idle d2"
  proof (cases r)
    case (Inl e)
    then show ?thesis using that spec [OF assms(2) [of e, unfolded leads_def writes_def], of st1] m by (auto simp: recovering_def)
  next
    case (Inr a)
    then show ?thesis using that spec [OF assms(3) [of a, unfolded leads_def writes_def], of st1] m by (auto simp: recovering_def)
  qed
  then show "\<exists>d. hs_Notes (snd (recovering m f g st)) = hs_Notes st @ d \<and> (\<exists>d1 d2. d = d1 @ d2 \<and> P d1 \<and> idle d2)"
    using d1 by auto
qed

lemma runAgents_leads: "leads anything (runAgents hw req kc prompt)"
  unfolding runAgents_def by (auto intro!: writes_intros split: option.split sum.split)

lemma executeRunAgent_starts: "writes (\<lambda>_ d. \<exists>post. d = AgentRun kc # post \<and> idle post) (executeRunAgent hw req kc prompt)"
  unfolding executeRunAgent_def
  by (rule writes_andThen [OF writes_jot [where Q = "\<lambda>r d. \<not> isl r \<and> d = [AgentRun kc]"]])
    (auto intro: writes_mono [OF runAgents_leads [unfolded leads_def]])

lemma agentPhase_starts: "writes (\<lambda>_ d. \<exists>pre post. d = pre @ AgentRun kc # post \<and> idle pre \<and> idle post) (agentPhase hw req kc prompt ch)"
proof -
  have "writes (\<lambda>_ d. \<exists>d1 d2. d = d1 @ d2 \<and> (\<exists>post. d1 = AgentRun kc # post \<and> idle post) \<and> idle d2)
    (recovering (executeRunAgent hw req kc prompt)
         (\<lambda>e. andThen (awaitChaos hw ch) (\<lambda>_. failing ''agent_run'' e))
         (\<lambda>r. andThen (remember (fst r) None) (\<lambda>_.
           andThen (awaitChaos hw ch) (\<lambda>cr. case TriggerFault cr of
             Some f \<Rightarrow> failing ''agent_run'' (ChaosFault f)
           | None \<Rightarrow> andThen (recordEvent ''agent_run'' ''completed'') (\<lambda>_. proceed r)))))"
    by (intro writes_recovering executeRunAgent_starts) (auto intro!: writes_intros split: option.split)
  moreover have "\<exists>pre post'. EventNote x y # AgentRun kc # d = pre @ AgentRun kc # post' \<and> idle pre \<and> idle post'" if "idle d" for x y d
    using that by (intro exI [of _ "[EventNote x y]"] exI [of _ d]) simp
  ultimately show ?thesis unfolding agentPhase_def recordEvent_def [of "''agent_run''" "''started''"]
    by (intro writes_andThen [OF writes_jot [where Q = "\<lambda>r d. \<not> isl r \<and> d = [EventNote ''agent_run'' ''started'']"]])
      (auto elim!: writes_mono)
qed

lemma begun_Cons:
  assumes "begun (contract s v) kc x d" and "plain_note n"
  shows "begun (contract s v) kc x (n # d)"
proof (cases "idle d \<and> x")
  case False
  then obtain pre post where "d = pre @ AgentRun kc # post" "idle pre" "idle post" "contract s v pre" using assms(1) unfolding begun_def by blast
  then show ?thesis using assms(2) contract_prefix [of s v pre "[n]"] unfolding begun_def
    by (intro disjI2 exI [of _ "n # pre"] exI [of _ post]) simp
qed (use assms(2) in \<open>simp add: begun_def\<close>)

lemma begun_started:
  assumes "writes (\<lambda>_ d. \<exists>pre post. d = pre @ AgentRun kc # post \<and> idle pre \<and> idle post) m" and "\<And>a. leads anything (f a)"
  shows "writes (\<lambda>r. begun anything kc (isl r)) (andThen m f)"
proof (rule writes_andThen [OF assms(1)])
  fix a d
  assume "\<exists>pre post. d = pre @ AgentRun kc # post \<and> idle pre \<and> idle post"
  then obtain pre post where "d = pre @ AgentRun kc # post" "idle pre" "idle post" by blast
  then have "begun anything kc x (d @ d')" if "idle d'" for x d'
    using that unfolding begun_def by (intro disjI2 exI [of _ pre] exI [of _ "post @ d'"]) simp
  then show "writes (\<lambda>r d'. begun anything kc (isl r) (d @ d')) (f a)"
    by (intro writes_mono [OF assms(2) [unfolded leads_def]]) blast
qed (auto simp: begun_def)

lemma runCase_begun: "writes (\<lambda>r. begun (contract (scenario_of req) vkc) akc (isl r)) (runCase hw req akc vkc)"
proof -
  have c: "writes (\<lambda>r. begun anything akc (isl r)) (andThen (agentPhase hw req akc prompt ch) (\<lambda>(agent, srs). concludeRun hw req vkc snaps win agent srs))"
    for prompt ch snaps win
    by (rule begun_started [OF agentPhase_starts]) (auto intro: concludeRun_leads split: prod.split)
  show ?thesis unfolding runCase_def
    by (intro begun_after [OF establishCase_leads] begun_after [where G = anything, OF quiet_phases(1)] begun_after [where G = anything, OF leads_Event]
        begun_after [where G = anything, OF quiet_phases(5)] begun_after [where G = anything, OF quiet_phases(3)] c)
      (use contract_later [of _ _ _ "[]"] in simp_all)
qed

text \<open>
  The identities of a run: without a profile the run uses the admin kubeconfig; with one, agent and checks use
  the kubeconfigs of the identities that passed their gate, and these are revoked at the end.
\<close>

definition lived :: "Scenario \<Rightarrow> string \<Rightarrow> bool \<Rightarrow> Note list \<Rightarrow> bool" where
  "lived s kc failed d \<longleftrightarrow> idle d \<and> failed \<or>
     (if s_AuthorityProfile s = None then begun (contract s kc) kc failed d
      else (\<exists>a v e d0 d1. d = d0 @ Identified a v # d1 @ [Revoked e] \<and> idle d0 \<and> begun (contract s v) a failed d1))"

lemma revoke_writes: "writes (\<lambda>_ d. \<exists>e. d = [Revoked e]) (revoke hw req b)"
  unfolding revoke_def by (rule writes_andThen [OF writes_lifted [where Q = "\<lambda>r d. d = [] \<and> \<not> isl r"]]) (auto intro: writes_jot)

lemma withIdentities_lived: "writes (\<lambda>r. lived (scenario_of req) (hr_KubeconfigPath req) (isl r)) (withIdentities hw req)"
proof (cases "s_AuthorityProfile (scenario_of req)")
  case None
  then show ?thesis unfolding withIdentities_def
    by (auto intro: writes_mono [OF runCase_begun] simp: lived_def)
next
  case (Some pf)
  have i: "writes (\<lambda>r d. \<exists>e d1. d = Identified a v # d1 @ [Revoked e] \<and> begun (contract (scenario_of req) v) a (isl r) d1)
    (deferred (revoke hw req b) (andThen (jot (Identified a v)) (\<lambda>_. andThen (recordEvent ''identity'' ''completed'') (\<lambda>_. runCase hw req a v))))" for a v b
  proof (rule writes_deferred [OF _ revoke_writes])
    have "writes (\<lambda>r. begun (contract (scenario_of req) v) a (isl r)) (andThen (recordEvent ''identity'' ''completed'') (\<lambda>_. runCase hw req a v))"
      unfolding recordEvent_def
      by (rule writes_andThen [OF writes_jot [where Q = "\<lambda>r d. \<not> isl r \<and> d = [EventNote ''identity'' ''completed'']"]])
        (auto intro!: writes_mono [OF runCase_begun] begun_Cons)
    then show "writes (\<lambda>r d. \<exists>d1. d = Identified a v # d1 \<and> begun (contract (scenario_of req) v) a (isl r) d1)
      (andThen (jot (Identified a v)) (\<lambda>_. andThen (recordEvent ''identity'' ''completed'') (\<lambda>_. runCase hw req a v)))"
      by (intro writes_andThen [OF writes_jot [where Q = "\<lambda>r d. \<not> isl r \<and> d = [Identified a v]"]]) (auto elim: writes_mono)
  qed auto
  let ?L = "\<lambda>d r d'. lived (scenario_of req) (hr_KubeconfigPath req) (isl r) (d @ d')"
  have l: "idle d \<Longrightarrow> d' = Identified a v # d1 @ [Revoked e] \<Longrightarrow> begun (contract (scenario_of req) v) a x d1 \<Longrightarrow>
      lived (scenario_of req) (hr_KubeconfigPath req) x (d @ d')" for d d' a v d1 e x
    unfolding lived_def Some by auto
  have p: "writes (?L d) (case r of None \<Rightarrow> abort StillWaiting | Some (Inl e) \<Rightarrow> failing ''identity'' (IdentityFailed e)
      | Some (Inr b) \<Rightarrow> (case (ib_Agent b, ib_Evidence b) of
          (Some agent, Some evidence) \<Rightarrow> deferred (revoke hw req b)
            (andThen (jot (Identified (id_KubeconfigPath agent) (id_KubeconfigPath evidence))) (\<lambda>_.
              andThen (recordEvent ''identity'' ''completed'') (\<lambda>_. runCase hw req (id_KubeconfigPath agent) (id_KubeconfigPath evidence))))
        | _ \<Rightarrow> abort NilIdentity))" if "idle d" for d r
    using that by (auto split: option.split sum.split intro!: writes_abort writes_mono [OF i] writes_mono [OF leads_failing [of "\<lambda>_. False", unfolded leads_def]] intro: l simp: lived_def [of _ _ True])
  show ?thesis unfolding withIdentities_def Some option.case recordEvent_def [of _ "''started''"]
    by (rule writes_andThen [OF writes_jot [where Q = "\<lambda>r d. \<not> isl r \<and> d = [EventNote ''identity'' ''started'']"]], simp,
        rule writes_andThen [OF writes_lifted [where Q = "\<lambda>r d. \<not> isl r \<and> d = []"]]) (use p [of "[EventNote ''identity'' ''started'']"] in auto)
qed

definition course :: "Scenario \<Rightarrow> string \<Rightarrow> bool \<Rightarrow> Note list \<Rightarrow> bool" where
  "course s kc failed notes \<longleftrightarrow> (\<exists>x d y. notes = x @ d @ y \<and> idle x \<and> idle y \<and> lived s kc failed d)"

lemma course_idle: "idle d \<Longrightarrow> course s kc True d"
  unfolding course_def lived_def by (intro exI [of _ "[]"] exI [of _ d]) simp

lemma course_around:
  assumes "course s kc failed d" and "idle x" and "idle y"
  shows "course s kc failed (x @ d @ y)"
proof -
  obtain x' d' y' where "d = x' @ d' @ y'" "idle x'" "idle y'" "lived s kc failed d'" using assms(1) unfolding course_def by blast
  then show ?thesis using assms(2,3) unfolding course_def by (intro exI [of _ "x @ x'"] exI [of _ d'] exI [of _ "y' @ y"]) simp
qed

lemma course_lived: "lived s kc failed d \<Longrightarrow> course s kc failed d"
  unfolding course_def by (intro exI [of _ "[]"] exI [of _ d]) simp

lemma course_after:
  assumes "leads anything m" and "\<And>a. writes (\<lambda>r. course s kc (isl r)) (f a)"
  shows "writes (\<lambda>r. course s kc (isl r)) (andThen m f)"
  by (rule writes_andThen [OF assms(1) [unfolded leads_def]], rule writes_mono [OF assms(2)])
    (use course_around [of s kc _ _ _ "[]"] course_idle in auto)

lemma prepareEnvironment_leads: "leads anything (prepareEnvironment hw req ns)"
proof -
  have "leads anything (\<lambda>st. case run_state (M (hs_Env st)) (hs_Trace st) of
      ((err, env), tr) \<Rightarrow> (case err of Some e \<Rightarrow> failing p (E e) | None \<Rightarrow> recordEvent p q) (st\<lparr>hs_Trace := tr, hs_Env := env\<rparr>))" for M p q E
    by (auto simp: leads_def writes_def failing_def andThen_def recordEvent_def jot_def abort_def split: prod.split option.split)
  then show ?thesis unfolding prepareEnvironment_def by (intro leads_quiet leads_Event)
qed

lemma runPhases_course: "writes (\<lambda>r. course (scenario_of req) (hr_KubeconfigPath req) (isl r)) (runPhases hw req)"
proof -
  have b: "leads anything (bootstrapPhase hw req)"
    by (auto simp: bootstrapPhase_def intro: leads_proceed leads_weaken [OF phaseStep_leads])
  have w: "writes (\<lambda>r. course (scenario_of req) (hr_KubeconfigPath req) (isl r)) (withIdentities hw req)"
    by (rule writes_mono [OF withIdentities_lived]) (rule course_lived)
  have "writes (\<lambda>r. course (scenario_of req) (hr_KubeconfigPath req) (isl r)) (deferred (dropExtraEnv req)
      (andThen (phaseStep ''isolation'' IsolationFailed m) (\<lambda>_. andThen (bootstrapPhase hw req) (\<lambda>_. withIdentities hw req))))" for m
    by (rule writes_deferred [where R = "\<lambda>d. d = []", OF course_after [OF leads_weaken [OF phaseStep_leads] course_after [OF b w]]])
      (auto simp: writes_def dropExtraEnv_def)
  then show ?thesis unfolding runPhases_def Let_def
    by (auto intro!: course_after [OF prepareEnvironment_leads] writes_mono [OF leads_failing [of "\<lambda>_. False", unfolded leads_def]] simp: course_idle)
qed

section \<open>The contract of a run\<close>

lemma run_keeps_course:
  assumes "HarnessRun hw req class text env tr = (out, err, st)" and "\<not> hr_DryRun req"
  shows "course (scenario_of req) (hr_KubeconfigPath req) (err \<noteq> None) (hs_Notes st)"
proof -
  let ?st0 = "\<lparr>hs_Trace = tr, hs_Notes = [EventNote ''run'' ''started''], hs_Env = env, hs_Start = hw_Now hw tr, hs_Agent = None, hs_Verify = None\<rparr>"
  obtain r st1 where r: "runPhases hw req ?st0 = (r, st1)" by fastforce
  obtain d where d: "hs_Notes st1 = [EventNote ''run'' ''started''] @ d" "course (scenario_of req) (hr_KubeconfigPath req) (isl r) d"
    using runPhases_course [of req hw] r unfolding writes_def by (metis (no_types) RunState.select_convs(2) fst_conv snd_conv)
  show ?thesis
  proof (cases r)
    case (Inl e)
    then have "hs_Notes st = [EventNote ''run'' ''started''] @ d @ [EventNote (CurrentPhase (hs_Notes st1)) ''failed'']" "err = Some e"
      using assms r d(1) by (auto simp: HarnessRun_def Let_def)
    then show ?thesis using course_around [OF d(2), of "[EventNote ''run'' ''started'']" "[EventNote (CurrentPhase (hs_Notes st1)) ''failed'']"] Inl by simp
  next
    case (Inr c)
    then have "hs_Notes st = [EventNote ''run'' ''started''] @ d @ []" "err = None"
      using assms r d(1) by (auto simp: HarnessRun_def Let_def)
    then show ?thesis using course_around [OF d(2), of "[EventNote ''run'' ''started'']" "[]"] Inr by simp
  qed
qed


lemma failed_case_not_pass: "ca_Verdict (buildEvaluationCaseResultPlanned (failedRunCase hw req why details st)) \<noteq> VerdictPass"
  unfolding case_verdict_eq by (simp add: case_faulty_def failedRunCase_def caseInput_def Let_def)

text \<open>A run whose case passed has started its agent under the contract.\<close>

definition earned_start :: "Scenario \<Rightarrow> string \<Rightarrow> Note list \<Rightarrow> bool" where
  "earned_start s kc notes \<longleftrightarrow> (\<exists>akc vkc pre post. notes = pre @ AgentRun akc # post \<and> contract s vkc pre \<and>
     (\<forall>k. AgentRun k \<notin> set pre \<union> set post) \<and>
     (if s_AuthorityProfile s = None then akc = kc \<and> vkc = kc
      else Identified akc vkc \<in> set pre \<and> (\<exists>e. Revoked e \<in> set post)))"

lemma idle_no_start: "idle d \<Longrightarrow> AgentRun k \<notin> set d"
  by (auto simp: list_all_iff)

lemma course_earned:
  assumes "course s kc False notes"
  shows "earned_start s kc notes"
proof -
  obtain x d y where n: "notes = x @ d @ y" "idle x" "idle y" "lived s kc False d" using assms unfolding course_def by blast
  show ?thesis
  proof (cases "s_AuthorityProfile s = None")
    case True
    then obtain pre post where "d = pre @ AgentRun kc # post" "idle pre" "idle post" "contract s kc pre"
      using n(4) unfolding lived_def begun_def by auto
    then show ?thesis using n True idle_no_start contract_prefix [of s kc pre x] unfolding earned_start_def
      by (intro exI [of _ kc] exI [of _ "x @ pre"] exI [of _ "post @ y"]) auto
  next
    case False
    then obtain a v e d0 pre post where "d = d0 @ Identified a v # (pre @ AgentRun a # post) @ [Revoked e]" "idle d0" "idle pre" "idle post" "contract s v pre"
      using n(4) unfolding lived_def begun_def by auto
    then show ?thesis using n False idle_no_start contract_prefix [of s v pre "x @ d0 @ [Identified a v]"] unfolding earned_start_def
      by (intro exI [of _ a] exI [of _ v] exI [of _ "x @ d0 @ Identified a v # pre"] exI [of _ "post @ Revoked e # y"]) auto
  qed
qed


section \<open>A run that passes\<close>

text \<open>A case with one check, which fails while the fault is proven, on a cluster where every command succeeds.\<close>

definition run_scenario :: Scenario where
  "run_scenario = (demo_scenario [] [])\<lparr>s_Checks := [\<lparr>sk_Type = ''command-succeeds'', sk_Namespace = [], sk_Name = ''c'', sk_Condition = ''check''\<rparr>],
     s_Break := demo_break\<lparr>br_Type := ''kubectl'', br_Args := [''delete'', ''pod'', ''web''], br_AllowFailure := False\<rparr>,
     s_Chaos := \<lparr>cc_Mode = [], cc_StopOnAgentDone = True, cc_Steps = []\<rparr>\<rparr>"

definition run_checks :: "Verifier.World" where
  "run_checks = stage_world\<lparr>run_script := (\<lambda>_ env. \<lparr>so_Out = [], so_ExitCode = (if ''EVIDRA_PHASE=preflight_fault'' \<in> set env then 1 else 0), so_ErrText = [], so_CtxErr = False\<rparr>)\<rparr>"

definition run_world :: HarnessWorld where
  "run_world = \<lparr>hw_World = calm, hw_Ops = None, hw_Bootstrapper = True, hw_Ids = demo_ids, hw_Nonce = (\<lambda>tr. nat_text (length tr)), hw_Ready = 9, hw_Fuel = 9,
     hw_Checks = (\<lambda>_. run_checks), hw_Stages = demo_stages, hw_Lister = (\<lambda>_ _ _. Inl []), hw_SetDigest = (\<lambda>_. []), hw_JsonDigest = (\<lambda>_. []),
     hw_Chaos = (\<lambda>_. (chaos_world, 0)), hw_MkdirAll = (\<lambda>_ _. True), hw_Adapter = True,
     hw_Agent = (\<lambda>_ _ _ _. Inr (\<lparr>ar_ExitCode = 0, ar_ToolCalls = [], ar_Metadata = None\<rparr>, [])), hw_StagesJSON = (\<lambda>_. []),
     hw_Unmarshal = (\<lambda>_. None), hw_Marshal = (\<lambda>_. []), hw_Sha = (\<lambda>_. []), hw_Probe = (\<lambda>_ _ _. ([], True)), hw_Rounds = (\<lambda>_. []), hw_Now = (\<lambda>_. 0),
     hw_Lib = demo_lib, hw_Cost = (\<lambda>_. 0), hw_RunID = ''r''\<rparr>"

definition run_request :: HarnessRequest where
  "run_request = \<lparr>hr_Run = \<lparr>rr_ResetNamespacesBeforeCase = True, rr_Scenario = run_scenario, rr_ExtraEnv = [], rr_TargetNamespace = []\<rparr>, hr_DryRun = False,
     hr_KubeconfigPath = ''kc'', hr_ScenariosDir = ''scenarios'', hr_RunsDir = ''runs'', hr_Provider = ''p'',
     hr_Config = \<lparr>ac_Adapter = [], ac_AgentCommand = [], ac_AgentUnconfined = False, ac_AgentImage = [], ac_AgentBundleDir = []\<rparr>, hr_Audit = None\<rparr>"

definition passing_run :: "HarnessRequest \<Rightarrow> RunResult \<times> run_failure option \<times> RunState" where
  "passing_run req = HarnessRun run_world req (\<lambda>_. \<lparr>ec_Deadline = False, ec_Canceled = False, ec_Sandbox = False, ec_Infra = False\<rparr>) (\<lambda>_. []) Map.empty []"

text \<open>What a phase yields in this world, from every state of the run.\<close>

definition gives :: "'a phase \<Rightarrow> 'a \<Rightarrow> bool" where
  "gives m a \<longleftrightarrow> (\<forall>st. hs_Start st = 0 \<longrightarrow> fst (m st) = Inr a \<and> hs_Start (snd (m st)) = 0)"

lemma gives_andThen: "gives m a \<Longrightarrow> gives (f a) b \<Longrightarrow> gives (andThen m f) b"
  by (force simp: gives_def andThen_def split: prod.split sum.split)

lemma gives_basic:
  "gives (proceed a) a" "gives (recordEvent ph sta) ()" "gives startTime 0"
  by (auto simp: gives_def proceed_def recordEvent_def jot_def startTime_def)

lemma gives_jot: "gives (jot n) ()" "gives (remember r v) ()" "gives (dropExtraEnv req) ()"
  by (auto simp: gives_def jot_def remember_def dropExtraEnv_def)

lemma gives_viewing: "(\<And>tr. f tr = a) \<Longrightarrow> gives (viewing f) a"
  by (auto simp: gives_def viewing_def)

lemma gives_lifted: "(\<And>tr. fst (run_state p tr) = a) \<Longrightarrow> gives (lifted p) a"
  by (auto simp: gives_def lifted_def split: prod.split) (metis fst_conv)

lemma gives_deferred: "gives m a \<Longrightarrow> gives c () \<Longrightarrow> gives (deferred c m) a"
  by (force simp: gives_def deferred_def split: prod.split)

lemma gives_recovering: "gives m a \<Longrightarrow> gives (g a) b \<Longrightarrow> gives (recovering m f g) b"
  by (force simp: gives_def recovering_def split: prod.split sum.split)

lemma gives_step: "(\<And>tr. fst (run_state p tr) = None) \<Longrightarrow> gives (phaseStep ph wrap p) ()"
  unfolding phaseStep_def by (rule gives_andThen [OF gives_basic(2) gives_andThen [OF gives_lifted]]) (auto intro: gives_basic)

definition run_verified :: "string \<Rightarrow> VerifyResult" where
  "run_verified ph = (case verifyRunPhase run_checks run_scenario ''kc'' [] False ph of Inr v \<Rightarrow> v)"

definition run_agent :: AgentResult where
  "run_agent = \<lparr>ar_ExitCode = 0, ar_ToolCalls = [], ar_Metadata = None\<rparr>"

definition run_input :: CaseInput where
  "run_input = caseInput run_world run_request run_agent [] (run_verified []) \<lparr>te_Kind = TerminationComplete, te_Phase = [], te_Reason = [], te_Details = []\<rparr> 0 None None"

lemma run_phases_verified:
  "verifyRunPhase run_checks run_scenario ''kc'' [] False ''preflight_baseline'' = Inr (run_verified ''preflight_baseline'')"
  "verifyRunPhase run_checks run_scenario ''kc'' [] False ''preflight_fault'' = Inr (run_verified ''preflight_fault'')"
  "verifyRunPhase run_checks run_scenario ''kc'' [] False [] = Inr (run_verified [])"
  by (simp_all add: run_verified_def verifyRunPhase_def run_scenario_def checksToCheckDefs_def buildChecker_def Let_def)

lemma run_phases_results:
  "vr_Passed (run_verified ''preflight_baseline'')" "\<not> vr_Passed (run_verified ''preflight_fault'')" "vr_Passed (run_verified [])"
  "Errored (Some (run_verified ''preflight_baseline'')) = []" "Errored (Some (run_verified ''preflight_fault'')) = []" "Errored (Some (run_verified [])) = []"
  by code_simp+

lemma run_simps [simp]:
  "hw_World run_world = calm" "hw_Ops run_world = None" "hw_Bootstrapper run_world" "hw_Checks run_world tr = run_checks" "hw_Now run_world tr = 0"
  "hw_Stages run_world = demo_stages" "hw_Adapter run_world" "hw_MkdirAll run_world tr d" "hw_Chaos run_world tr = (chaos_world, 0)"
  "hw_Agent run_world b tr kc pr = Inr (run_agent, [])" "scenario_of run_request = run_scenario" "hr_KubeconfigPath run_request = ''kc''" "hr_Audit run_request = None"
  "\<not> hr_DryRun run_request" "s_Stages run_scenario = []" "s_AuthorityProfile run_scenario = None" "cc_Steps (s_Chaos run_scenario) = []"
  "s_AfterBreak run_scenario = []" "s_Bootstrap run_scenario = []" "rr_ExtraEnv (hr_Run run_request) = []" "cl_Setup (ec_Cloud (s_Environment run_scenario)) = []"
  "rr_ResetNamespacesBeforeCase (hr_Run run_request)" "rr_Scenario (hr_Run run_request) = run_scenario"
  by (simp_all add: run_world_def run_request_def run_scenario_def run_agent_def demo_scenario_def)

lemma gives_preflight:
  assumes "verifyRunPhase run_checks run_scenario ''kc'' [] False ph = Inr v" and "Errored (Some v) = []" and "vr_Passed v = want"
  shows "gives (preflight run_world run_scenario ''kc'' ph want) ()"
  using assms unfolding preflight_def
  by (auto intro!: gives_basic gives_jot(1) gives_andThen [OF gives_basic(2)] gives_andThen [OF gives_viewing [of _ "Inr v"]] gives_andThen [OF gives_jot(1)])

lemma gives_checkpoint: "gives (checkpoint run_world kc name None) None"
  unfolding checkpoint_def by (auto intro!: gives_basic gives_andThen [OF gives_viewing [of _ None]] gives_andThen [OF gives_jot(1)])

lemma calm_break: "fst (run_state (injectSingleStageBreak calm parse c b run_scenario kc) tr) = None"
  by (simp add: injectSingleStageBreak_def applyBreak_def breakCommandArgs_def run_scenario_def demo_break_def perform_def calm_def demo_scenario_def)

lemma calm_execute: "fst (run_state (Execute calm parse c (buildBootstrapPlan run_scenario dir) kc) tr) = None"
  by (simp add: buildBootstrapPlan_def DefaultBootstrapPlan_def buildStepPlan_def rootStep_def CommandArgs_def perform_def calm_def)

lemma calm_rollouts: "fst (run_state (waitForRollouts calm kc (s_Checks run_scenario)) tr) = ()"
  by simp

lemma run_case_given: "gives (runCase run_world run_request ''kc'' ''kc'') run_input"
proof -
  have e: "gives (establishCase run_world run_request ''kc'') None"
    unfolding establishCase_def
    by (simp add: newRunSnapshots_def breakPhase_def)
      (intro gives_andThen [OF gives_preflight [OF run_phases_verified(1)]] gives_andThen [OF gives_checkpoint]
        gives_andThen [OF gives_step] gives_andThen [OF gives_preflight [OF run_phases_verified(2)]] gives_checkpoint,
       simp_all add: run_phases_results calm_break)
  have pa: "gives (prepareAgentExecution run_world run_request) []"
    unfolding prepareAgentExecution_def Let_def
    by (rule gives_andThen [where a = "(True, [])"])
      (auto simp: perform_def calm_def intro!: gives_lifted gives_basic gives_andThen [OF gives_viewing [of _ True]])
  have ag: "gives (agentPhase run_world run_request ''kc'' [] None) ((run_agent, []), [])"
    unfolding agentPhase_def
    by (intro gives_andThen [OF gives_basic(2)] gives_recovering [where a = "((run_agent, []), [])"])
      (auto simp: executeRunAgent_def runAgents_def executeSingleAgent_def backendOf_def Let_def awaitChaos_def TriggerFault_def run_request_def [THEN arg_cong [of _ _ hr_Config]]
         intro!: gives_basic gives_andThen [OF gives_jot(1)] gives_andThen [OF gives_jot(2)] gives_andThen [OF gives_basic(1) [of None]]
           gives_andThen [OF gives_basic(2)] gives_andThen [OF gives_viewing [of _ "Inr (run_agent, [])"]])
  have se: "gives (settleRun run_world run_request) ()"
    unfolding settleRun_def by (intro gives_andThen [OF gives_basic(2)] gives_andThen [OF gives_lifted] gives_basic) simp
  have ve: "gives (verifyRun run_world run_request ''kc'' []) (run_verified [])"
    unfolding verifyRun_def
    by (intro gives_andThen [OF gives_basic(2)] gives_andThen [OF gives_viewing [of _ "Inr (run_verified [])"]])
      (auto simp: run_phases_verified(3) intro!: gives_andThen [OF gives_jot(1)] gives_andThen [OF gives_basic(2)] gives_basic)
  have co: "gives (concludeRun run_world run_request ''kc'' None None (run_agent, []) []) run_input"
    unfolding concludeRun_def Let_def
    by (intro gives_andThen [OF se] gives_andThen [OF ve] gives_andThen [OF gives_jot(2)] gives_andThen [OF gives_checkpoint],
        rule gives_andThen [of _ None], simp add: closeAuditWindow_def gives_basic,
        rule gives_andThen [OF gives_viewing [of _ 0]], simp, intro gives_andThen [OF gives_basic(3)] gives_andThen [OF gives_basic(2)])
      (simp add: run_input_def finalize_def addStageMetadata_def gives_basic)
  have ch: "gives (startChaos run_world run_request) None"
    unfolding startChaos_def by (rule gives_andThen [OF gives_viewing [of _ "(chaos_world, 0)"]]) (auto simp: startRunChaos_def intro: gives_basic)
  have au: "gives (startAuditWindow run_world run_request) None"
    by (simp add: startAuditWindow_def gives_basic)
  show ?thesis unfolding runCase_def
    by (intro gives_andThen [OF e] gives_andThen [OF au] gives_andThen [OF gives_basic(2)] gives_andThen [OF pa] gives_andThen [OF ch] gives_andThen [OF ag]) (simp add: co)
qed

lemma calm_prepare: "fst (run_state (prepareRunEnvironment calm None (hr_Run run_request) ''kc'' ns env) tr) = (None, env)"
  by (simp add: prepareRunEnvironment_def prepareCluster_def kubeconfigExists_def perform_def calm_def)

lemma calm_reset: "fst (run_state (resetScenarioNamespaces calm None (hr_Run run_request) ''kc'' ns) tr) = None"
proof -
  have "isolationNamespaces run_scenario = Inr [''bench'']" by code_simp
  then show ?thesis by (simp add: resetScenarioNamespaces_def run_kctl calm_def deleteNamespace_def)
qed

lemma run_phases_given: "gives (runPhases run_world run_request) run_input"
proof -
  have p: "gives (prepareEnvironment run_world run_request ns) ()" for ns
    using calm_prepare [of ns] unfolding prepareEnvironment_def
    by (intro gives_andThen [OF gives_basic(2)])
      (auto simp: gives_def recordEvent_def jot_def split: prod.split option.split, (metis fst_conv option.distinct(1) prod.inject)+)
  have b: "gives (bootstrapPhase run_world run_request) ()"
    unfolding bootstrapPhase_def by (simp add: gives_step calm_execute)
  have w: "gives (withIdentities run_world run_request) run_input" by (simp add: withIdentities_def run_case_given)
  show ?thesis unfolding runPhases_def Let_def
    by (simp, intro gives_andThen [OF p] gives_deferred gives_jot gives_andThen [OF gives_step] gives_andThen [OF b] w) (simp add: calm_reset)
qed

lemma run_input_passes: "ca_Verdict (buildEvaluationCaseResultPlanned run_input) = VerdictPass"
  by code_simp

lemma passing_run_result: "passing_run run_request =
    (\<lparr>ou_Passed = True, ou_ExitCode = 0, ou_Case = Some (buildEvaluationCaseResultPlanned run_input)\<rparr>, None, snd (snd (passing_run run_request)))"
proof -
  let ?st0 = "\<lparr>hs_Trace = [], hs_Notes = [EventNote ''run'' ''started''], hs_Env = Map.empty, hs_Start = 0, hs_Agent = None, hs_Verify = None\<rparr>"
  have "fst (runPhases run_world run_request ?st0) = Inr run_input" using run_phases_given unfolding gives_def by (metis RunState.select_convs(4))
  then obtain st where "runPhases run_world run_request ?st0 = (Inr run_input, st)" by (metis prod.collapse)
  then show ?thesis by (simp add: passing_run_def HarnessRun_def run_input_def caseInput_def run_phases_results run_agent_def)
qed



section \<open>Deviations\<close>

text \<open>
  A multi-stage scenario whose agent is not a model provider runs no stage and injects no fault; its verification passes without
  a single check.
\<close>

lemma unstaged_scenario_passes:
  assumes "s_Stages (scenario_of req) \<noteq> []" and "\<not> shouldUseProviderEvidenceDir req" and "fst (runAgents hw req kc prompt st) = Inr (a, srs)"
  shows "srs = [] \<and> verifyRunPhase vw (scenario_of req) vkc srs True [] = Inr \<lparr>vr_Passed = True, vr_Checks = []\<rparr> \<and> breakPhase hw req st = (Inr (), st)"
  using assms by (auto simp: runAgents_def andThen_def viewing_def proceed_def abort_def breakPhase_def verifyRunPhase_def split: sum.splits)

text \<open>The faults of the stages are injected with the kubeconfig of the agent, whose identity the audit log then shows.\<close>

lemma stages_break_as_agent:
  "list_ex (\<lambda>x. fst x = Cmd [''kubectl'', ''--kubeconfig'', ''agent'', ''delete'', ''pod'', ''web''])
     (hs_Trace (snd (runAgents run_world
        (run_request\<lparr>hr_Run := (hr_Run run_request)\<lparr>rr_Scenario := run_scenario\<lparr>s_Stages := [demo_stage []]\<rparr>\<rparr>\<rparr>) ''agent'' []
        \<lparr>hs_Trace = [], hs_Notes = [], hs_Env = Map.empty, hs_Start = 0, hs_Agent = None, hs_Verify = None\<rparr>)))"
  by code_simp

end
