(* ===== verification/Spec2Isabelle.thy ===== *)
theory Spec2Isabelle
  imports Trigger_Api Bench_Export Suite Auth Agent_Tools Agent_Sandbox Harness_Run
begin

text \<open>
  \<^bold>\<open>Evidra Bench: verification of the evidence, verdict and job core.\<close>

  Evidra Bench runs an AI agent against a Kubernetes scenario and decides PASS, FAIL, UNSAFE or
  INCOMPLETE. A run goes through these parts of the repository, each with its theory here.

  \<^enum> Scenarios are loaded from YAML files: \<^verbatim>\<open>pkg/scenario/loader.go\<close> resolves their paths and checks
    them (\<open>Go_Path\<close>, \<open>Scenario_Loader\<close>), \<^verbatim>\<open>pkg/suite\<close> groups them into a suite with a digest of its inputs
    (\<open>Suite\<close>).
  \<^enum> A run happens on a cluster. \<^verbatim>\<open>pkg/environment\<close> creates and destroys kind and k3d clusters with audit
    logging (\<open>Cluster_Providers\<close>) and leases them, with the hooks of a profile (\<open>Provisioner\<close>, with the
    recovery in \<^verbatim>\<open>cmd/bench-cli/lease_recovery.go\<close>). \<^verbatim>\<open>pkg/environment/kubectl_ops.go\<close> has the health and namespace
    operations of the providers, with which \<^verbatim>\<open>pkg/harness/case_isolation.go\<close> and \<^verbatim>\<open>run_environment.go\<close> reset the
    namespaces, the variables and the cluster before a case (\<open>Case_Isolation\<close>).
  \<^enum> \<^verbatim>\<open>pkg/environment/bootstrap.go\<close>, \<^verbatim>\<open>addon.go\<close>, \<^verbatim>\<open>pkg/harness/bootstrap.go\<close> and \<^verbatim>\<open>stages.go\<close> set a case up, inject its fault and
    run its stages (\<open>Run_Setup\<close>); \<^verbatim>\<open>pkg/harness/chaos.go\<close> disturbs the cluster beside the agent (\<open>Chaos\<close>).
  \<^enum> \<^verbatim>\<open>pkg/harness/run.go\<close> puts the parts in order: environment, isolation, bootstrap, identities, proof of the healthy
    baseline, fault and its proof, checkpoints, audit window, agent, verification, result of the case, with the handling of
    failures and the deferred revocation (\<open>Harness_Run\<close>, with \<^verbatim>\<open>run_execution.go\<close>, \<^verbatim>\<open>run_verification.go\<close>,
    \<^verbatim>\<open>run_recorder.go\<close> and the dispatch of \<^verbatim>\<open>agent_exec.go\<close>). It calls the models of the other theories.
  \<^enum> A scenario may carry an \<^emph>\<open>authority profile\<close>. \<^verbatim>\<open>pkg/scenario/authority.go\<close> validates it
    (\<open>Authority_Profile\<close>), \<^verbatim>\<open>pkg/authority/plan.go\<close> compiles it to a plan with four consumers: the
    matcher of the engine, the rendered RBAC, the snapshot scope and the prompt text
    (\<open>Authority_Plan\<close>). \<^verbatim>\<open>pkg/environment/identity.go\<close> turns it into service accounts, roles and
    kubeconfigs for the agent and the evidence reader, waits until their tokens are honoured and revokes them
    after the run, which \<^verbatim>\<open>pkg/harness/identities.go\<close> drives (\<open>Agent_Identity\<close>).
  \<^enum> While the agent works, the API server writes audit lines. \<^verbatim>\<open>pkg/audit\<close> parses and deduplicates
    them and cuts the window between two markers (\<open>Audit_Events\<close>), drains the nodes and judges the
    coverage (\<open>Audit_Collector\<close>, with \<^verbatim>\<open>pkg/harness/audit_window.go\<close>) and matches request bodies against
    forbidden field changes (\<open>Audit_Fields\<close>).
  \<^enum> \<^verbatim>\<open>pkg/snapshot\<close> normalises and compares cluster states (\<open>Snapshot_State\<close>);
    \<^verbatim>\<open>pkg/harness/snapshots.go\<close> decides what is captured and what a change means (\<open>Run_Snapshots\<close>).
  \<^enum> \<^verbatim>\<open>pkg/verifier\<close> runs the checks of the scenario (\<open>Verifier\<close>). \<^verbatim>\<open>pkg/bench/timeline_parse.go\<close> and
    \<^verbatim>\<open>pkg/autopsy\<close> explain the agent's tool calls (\<open>Timeline\<close>, \<open>Autopsy\<close>).
  \<^enum> \<^verbatim>\<open>pkg/evaluation\<close> holds the verdict engine (\<open>Evaluation_Types\<close>, \<open>Verdict_Engine\<close>), which
    \<^verbatim>\<open>pkg/harness/engine.go\<close> and \<^verbatim>\<open>evaluation_result.go\<close> feed with the evidence to build the result of a
    case (\<open>Case_Result\<close>); \<^verbatim>\<open>pkg/evaluation/service.go\<close> runs a plan of cases on a leased environment
    (\<open>Evaluation_Service\<close>).
  \<^enum> \<^verbatim>\<open>pkg/agent\<close> is the built-in agent: its loop (\<open>Agent_Loop\<close>) and its two tools, which test shell commands and confine
    written files (\<open>Agent_Tools\<close>). Other agents run in a hardened container, \<^verbatim>\<open>pkg/environment/sandbox.go\<close>, into
    which \<^verbatim>\<open>pkg/harness/agent_sandbox.go\<close> and \<^verbatim>\<open>agent_default_sandbox.go\<close> wrap a bundle or a command (\<open>Agent_Sandbox\<close>).
  \<^enum> \<^verbatim>\<open>pkg/evidrawire\<close> writes and verifies signed hash chains (\<open>Evidence_Chain\<close>) to which
    \<^verbatim>\<open>pkg/benchexport\<close> exports a finished run (\<open>Bench_Export\<close>).
  \<^enum> \<^verbatim>\<open>internal/benchsvc\<close> starts runs over HTTP: trigger jobs with event streams in memory
    (\<open>Trigger_Store\<close>), runners and jobs in PostgreSQL with the janitor (\<open>Job_Queue\<close>), and the handlers
    over both (\<open>Trigger_Api\<close>); \<^verbatim>\<open>internal/auth\<close> authenticates its requests (\<open>Auth\<close>).

  \<^bold>\<open>How code is modelled.\<close> Structs are records whose fields carry a short prefix, tagged strings
  datatypes where the code switches on them, errors the left side of a sum. Strings are byte lists;
  \<open>Go_Prelude\<close> has the string and list functions of the standard library that the code calls and
  \<open>Go_Json\<close> the JSON trees that \<^verbatim>\<open>encoding/json\<close> decodes to and the canonical trees it prints. Go maps are
  maps or association lists; where the iteration order shows, it is a parameter. \<open>int\<close> and \<open>time\<close>
  values are unbounded integers: counters stay far below 64 bits in every path modelled. Mutexes make
  the operations of the trigger store and SQL statements make those of the queue atomic, so concurrent
  histories are sequences of steps (\<open>trigger_step\<close>, \<open>queue_step\<close>, \<open>auth_step\<close>) and \<open>Go_Steps\<close> has their reachable
  states and the locale of invariants. Code that runs commands is a program in the state monad over the
  trace of its operations; a world answers each from the trace so far, and what exists is read off the trace.

  \<^bold>\<open>Parameters.\<close> What lies outside the repository is an argument: the JSON, YAML and base64 codecs,
  hashes, signatures and clocks, \<^verbatim>\<open>path.Match\<close>, the outcomes of \<^verbatim>\<open>kubectl\<close>, \<^verbatim>\<open>docker\<close> and scripts
  (\<open>World\<close>, the rounds of the collector), provisioner, preflights and executor of the service, model
  provider and tools of the loop, dispatcher and executor of the trigger endpoints, the file system as
  seen by the loaders. What a theorem needs of them is a named hypothesis, such as \<open>sound_signer\<close>,
  \<open>sound_codec\<close>, \<open>sound_crypto\<close>, \<open>named_errors\<close> or \<open>no_collisions\<close>, and its witness
  discharges it on concrete functions.

  \<^bold>\<open>Interfaces.\<close> \<open>action_authority\<close> is what the engine relies on in a compiled plan, \<open>event_store\<close> what
  the window relies on in ingestion, \<open>verdict_precedence\<close> the order UNSAFE, INCOMPLETE, FAIL, PASS that
  the classifier, the engine and the case result share, \<open>lifecycle\<close> what the provisioner relies on in a cluster
  provider (kind, k3d and the failing one), \<open>cluster_ops\<close> what the harness relies on in its namespace operations, \<open>invariant_system\<close> the argument by steps; each
  is interpreted on the code's own definitions.

  \<^bold>\<open>What the lemmas show.\<close> The verdict: the engine and the case decide in the documented order,
  unsafe actions are final, PASS needs complete evidence, and in this theory the composition: from audit lines,
  snapshots and checks to PASS (\<open>pass_end_to_end\<close>), from cases to the exit code
  (\<open>exit_zero_means_all_pass\<close>) and to the exported bundle (\<open>exported_success_is_a_pass\<close>). The evidence:
  complete coverage is earned, a window loses no operation, a protected change is reported, secrets
  leave only as digests, chains are tamper evident. The plan: matcher and RBAC agree, grants
  stay inside the declared scope, the manifests of the identities let the API server allow exactly what the matcher
  grants, a teardown revokes all that was applied. The jobs: exclusive and authorised claims, recovery of abandoned
  jobs, no panics on channels, atomic triggers, restoration after a restart. The environment: a released lease
  leaves no cluster, a failed acquisition cleans up, the reset before a case deletes only the disposable namespaces it declares, the audit recipe survives the merge, a chaos schedule is
  carried out or reported and ends with its context. The run: its agent starts once and only under the contract of the
  case, stages stop at a failure, identities are revoked on every path, and PASS needs all of that (\<open>harness_pass_is_earned\<close>). The agent: which commands are accepted
  (\<open>command_accepted_iff\<close>), tools and container stay within their bounds, nothing made for a sandbox is left. The inputs: references and agent inputs stay inside their roots,
  suites load exactly when they are valid, their digest sees edits. Sessions: a request is authenticated by the key or by a cookie issued for it. The lemmas named in the list of findings
  show where the code deviates from its documentation.

  \<^bold>\<open>Bounds and fuel.\<close> \<open>drainLoop\<close> and \<open>PollChecks\<close> consume the list of
  rounds the environment offers and return \<open>None\<close> when it ends first; \<open>collection_terminates\<close> shows that
  one round past the deadline is enough. \<open>waitForResourceChange\<close> and \<open>runCycles\<close> may go on for ever and take fuel;
  \<open>chaos_ends_with_context\<close> shows that the moments until the context is done are enough. So does \<open>authProbe\<close>, for
  which \<open>auth_gate_decides\<close> bounds the probes by the clock. A run that waits for one of these beyond the rounds or the
  fuel of its world ends with the failure \<open>StillWaiting\<close>, under which it never passes. All other loops are structural or have a measure.

  \<^bold>\<open>Not modelled.\<close> Analytics, reports, catalogue and storage of the bench service (SQL
  aggregation and presentation), the wiring of the provider loop, model providers, \<^verbatim>\<open>pkg/orchestrator\<close> and \<^verbatim>\<open>pkg/jobqueue\<close>, model and configuration readers,
  statistics over finished runs, terminal UI, command line and scripts. Of the modelled parts: the event-stream
  loop of \<^verbatim>\<open>handleTriggerStatus\<close>, the sources of the audit collector, capture by kubectl, the artifacts,
  reports and records that a finished run writes, provider resolution of the agent, tool-server metadata.
  These parts call services, render documents or aggregate stored rows; none of them decides a verdict. The run of
  \<open>Harness_Run\<close> takes its agents as answers of its world; \<open>Agent_Loop\<close> and \<open>Agent_Sandbox\<close> model what stands behind them.
\<close>

section \<open>Collected evidence and the verdict\<close>

text \<open>
  What a snapshot pair says of the protected objects of a profile: none of those with a plain key
  changed between the anchor and the state after the agent.
\<close>

definition protected_preserved :: "AuthorityProfile \<Rightarrow> runSnapshots \<Rightarrow> bool" where
  "protected_preserved pf r \<longleftrightarrow> (\<forall>pr k anchor post. pr \<in> set (Protected pf) \<longrightarrow> plain_key k \<longrightarrow>
     (pt_Resource pr, pt_Namespace pr, pt_Name pr) = (snapPlural (k_Kind k), k_Namespace k, k_Name k) \<longrightarrow>
     diffAnchor r = Some anchor \<longrightarrow> map_of (rs_Sets r) ''post-agent'' = Some post \<longrightarrow> \<not> changed anchor post k)"

text \<open>
  Every operation of a store whose first event lies between the two markers is in the window, ends after
  it, or is a stream.
\<close>

definition window_accounts :: "Store \<Rightarrow> Event \<Rightarrow> Event \<Rightarrow> Event list \<Rightarrow> bool" where
  "window_accounts s start end ops \<longleftrightarrow> (\<forall>i\<in>set (Ops s).
     inWindow (EffectiveTimestamp start) (EffectiveTimestamp end) (hd (opGroup s i)) \<longrightarrow>
     (\<exists>e\<in>set ops. AuditID e = i \<and> TerminalStage (Stage e)) \<or>
     (\<exists>e\<in>set (opGroup s i). (TerminalStage (Stage e) \<or> Stage e = StageResponseStarted) \<and>
        EffectiveTimestamp e > EffectiveTimestamp end) \<or>
     streamingOp (opGroup s i))"

lemma collected_window_accounts:
  assumes "Collect u run now req rounds = Some r" and "res_Coverage r = CovComplete"
    and "w_DelegatedOps (res_Window r) = []"
  obtains store where "res_Store r = Some store"
    "window_accounts store (res_StartEvent r) (res_EndEvent r) (w_Ops (res_Window r))"
proof -
  obtain store where s: "res_Store r = Some store" "res_Window r = Window store (res_StartEvent r) (res_EndEvent r)"
    "w_Incomplete (res_Window r) = []"
    using Collect_complete [OF assms(1,2)] by blast
  have "window_accounts store (res_StartEvent r) (res_EndEvent r) (w_Ops (res_Window r))"
    unfolding window_accounts_def
  proof (intro ballI impI)
    fix i
    assume i: "i \<in> set (Ops store)"
      "inWindow (EffectiveTimestamp (res_StartEvent r)) (EffectiveTimestamp (res_EndEvent r)) (hd (opGroup store i))"
    show "(\<exists>e\<in>set (w_Ops (res_Window r)). AuditID e = i \<and> TerminalStage (Stage e)) \<or>
      (\<exists>e\<in>set (opGroup store i). (TerminalStage (Stage e) \<or> Stage e = StageResponseStarted) \<and>
        EffectiveTimestamp e > EffectiveTimestamp (res_EndEvent r)) \<or> streamingOp (opGroup store i)"
      using Window_covers [OF s(3) [unfolded s(2)] i] assms(3) unfolding s(2) [symmetric] by auto
  qed
  with s(1) show ?thesis by (rule that)
qed

lemma clean_snapshot_protects:
  assumes "newRunSnapshots (Some pf) kc = Inr (Some r0)" and "snapshotPlan pf = Some p"
    and "finalize sha dg (Some (r0\<lparr>rs_Sets := sets\<rparr>)) = Some info"
    and "si_Coverage info = CoverageComplete" and "si_Violations info = []"
  shows "protected_preserved pf (r0\<lparr>rs_Sets := sets\<rparr>)"
  unfolding protected_preserved_def
proof (intro allI impI notI)
  fix pr k anchor post
  assume a: "pr \<in> set (Protected pf)" "plain_key k"
    "(pt_Resource pr, pt_Namespace pr, pt_Name pr) = (snapPlural (k_Kind k), k_Namespace k, k_Name k)"
    "diffAnchor (r0\<lparr>rs_Sets := sets\<rparr>) = Some anchor" "map_of (rs_Sets (r0\<lparr>rs_Sets := sets\<rparr>)) ''post-agent'' = Some post"
    "changed anchor post k"
  have "violationOf dg anchor post k \<in> set (si_Violations info)"
    by (rule finalize_lists_protected [OF assms(1,2) refl assms(3) _ a(1,2,3,4) _ a(6)]) (use assms(4) a(5) in simp_all)
  with assms(5) show False by simp
qed



section \<open>Verdicts and the exit code\<close>

text \<open>
  C13: a service whose executor returns case results built by the harness exits with 0 only if every
  case of the plan ran and passed.
\<close>

theorem exit_zero_means_all_pass:
  assumes "ExitCode (fst (Run sha pt sv p)) = 0"
    and "\<forall>exec tr c l. sv_Executor sv = Some exec \<longrightarrow> (\<exists>i. fst (exec tr p c l) = buildEvaluationCaseResultPlanned i)"
  shows "(\<forall>c\<in>set (rt_Cases (fst (Run sha pt sv p))). ca_Verdict c = VerdictPass) \<and>
    length (rt_Cases (fst (Run sha pt sv p))) = length (su_Cases (pl_Suite p))"
proof (cases rule: service_run_cases [of sha pt sv p None False])
  case 1
  with assms(1) show ?thesis by (simp add: Run_def ended_early_def ExitCode_def)
next
  case (2 l exec r tr)
  let ?out = "executeCases sv exec p l (su_Cases (pl_Suite p)) r (tr @ [CallAcquire (Some l)])"
  have run: "Run sha pt sv p = deferredCleanup sv l ?out" using 2(6) by (simp add: Run_def)
  note f = deferredCleanup_fields [of sv l ?out]
  note z = ExitCode_0 [OF assms(1) [unfolded run] f(5)]
  have "ca_Verdict (fst (exec tr' p c l)) \<noteq> VerdictNone" for tr' c
    using assms(2) 2(5) case_result.decided by metis
  then have "\<forall>x\<in>set (rt_Cases (fst ?out)). ca_Verdict x \<noteq> VerdictNone"
    by (rule executeCases_verdicts) (simp add: 2(3))
  with z(3) have "\<forall>c\<in>set (rt_Cases (fst (Run sha pt sv p))). ca_Verdict c = VerdictPass"
    using f(1) by (auto simp: run)
  moreover have "length (rt_Cases (fst (Run sha pt sv p))) = length (su_Cases (pl_Suite p))"
    using executeCases_ran [of "su_Cases (pl_Suite p)" r "tr @ [CallAcquire (Some l)]" sv exec p l] 2(3) z(1) f(1,2)
    unfolding cases_ran_def by (auto simp: run)
  ultimately show ?thesis by blast
next
  case (3 l exec r tr)
  then show ?thesis by simp
qed

theorem exit_zero_means_all_pass_witness:
  "list_all (\<lambda>c. ca_Verdict c = VerdictPass) (rt_Cases (fst (Run (\<lambda>_. ''h'') (\<lambda>_. []) harness_service demo_eval_plan))) \<and>
   length (rt_Cases (fst (Run (\<lambda>_. ''h'') (\<lambda>_. []) harness_service demo_eval_plan))) = length (su_Cases (pl_Suite demo_eval_plan))"
proof -
  have z: "ExitCode (fst (Run (\<lambda>_. ''h'') (\<lambda>_. []) harness_service demo_eval_plan)) = 0" by (rule harness_service_exits)
  have "\<forall>exec tr c l. sv_Executor harness_service = Some exec \<longrightarrow>
      (\<exists>i. fst (exec tr demo_eval_plan c l) = buildEvaluationCaseResultPlanned i)"
    by (auto simp: harness_service_def)
  from exit_zero_means_all_pass [OF z this] show ?thesis by (simp add: list_all_iff)
qed

section \<open>Verdicts on the wire\<close>

text \<open>
  C26: a success that leaves the system is a pass inside it. When the run directory of a
  profiled case carries the verdict the harness computed, a bundle that reports success proves that
  the case had complete audit and snapshot evidence with no violation and passing checks.
\<close>

theorem exported_success_is_a_pass:
  assumes "Export env req d out = Inr (res, out')" and "rd_Run d = Content run"
    and "exportEntries env req d run out = Some (bw, es)" and "sound_codec (xe_Lib env) es"
    and "rb_Verdict run = verdict_text (ca_Verdict (buildEvaluationCaseResultPlanned c))" and "ci_Profile c = Some pf"
    and "readSegmentEntries (xe_Lib env) out' = Inr fs" and "reportVerdict fs = Some (JStr VerdictSuccess)"
  shows "\<exists>w s v. ci_Audit c = Some w \<and> res_Coverage (aw_Result w) = CovComplete \<and>
    ci_Snap c = Some s \<and> si_Coverage s = CoverageComplete \<and> si_Violations s = [] \<and>
    ci_Verify c = Some v \<and> vr_Passed v"
proof -
  have es: "fs = es" using Export_reads [OF assms(1-4)] assms(7) by simp
  obtain sg n cc w0 where "xe_Signer env = Some sg" "countToolCalls d = Some n" "countChecksFile d = Some cc"
    "exportWriter env run sg out = Inr w0" and w: "writeAll (xe_Lib env) (exportAppends env req run n cc) w0 = Inr (bw, es)"
    by (rule exportEntries_Some [OF assms(3)])
  have "fst (mapVerdict (rb_Verdict run) (rb_ExitCode run)) = VerdictSuccess"
    using exported_entries(2) [OF w] assms(8) es by simp
  moreover have "ca_Verdict (buildEvaluationCaseResultPlanned c) \<noteq> VerdictNone" using case_result.decided by metis
  ultimately have "ca_Verdict (buildEvaluationCaseResultPlanned c) = VerdictPass"
    unfolding mapVerdict_success assms(5)
    by (cases "ca_Verdict (buildEvaluationCaseResultPlanned c)") (auto simp: verdict_text_def)
  then show ?thesis by (rule pass_evidence [OF assms(6)]) blast
qed

theorem exported_success_is_a_pass_witness:
  "reportVerdict (demo_exported ''PASS'') = Some (JStr VerdictSuccess) \<and>
   (\<exists>w. ci_Audit (case_input [case_event ''patch'' ''bench'']) = Some w \<and> res_Coverage (aw_Result w) = CovComplete)"
proof -
  let ?c = "case_input [case_event ''patch'' ''bench'']"
  obtain w where e: "exportEntries (demo_export_env ''PASS'') demo_export_req (demo_run_dir ''PASS'') (demo_export_run ''PASS'') demo_dir =
      Some (w, demo_exported ''PASS'')"
    "sound_codec (xe_Lib (demo_export_env ''PASS'')) (demo_exported ''PASS'')" "segmentSize (bw_Lines w) \<le> defaultSegmentMaxBytes"
    by (rule demo_exportEntries)
  obtain res out' where x: "Export (demo_export_env ''PASS'') demo_export_req (demo_run_dir ''PASS'') demo_dir = Inr (res, out')"
    by (rule demo_export_runs)
  have "ca_Verdict (buildEvaluationCaseResultPlanned ?c) = VerdictPass" by (rule case_passes)
  then have v: "rb_Verdict (demo_export_run ''PASS'') = verdict_text (ca_Verdict (buildEvaluationCaseResultPlanned ?c))"
    by (simp add: demo_export_run_def verdict_text_def)
  have p: "ci_Profile ?c = Some demo_profile" by (simp add: case_input_def)
  note r = Export_reads [OF x demo_export_sound(5) e(1,2)]
  obtain sg n cc w0 where "xe_Signer (demo_export_env ''PASS'') = Some sg" "countToolCalls (demo_run_dir ''PASS'') = Some n"
    "countChecksFile (demo_run_dir ''PASS'') = Some cc" "exportWriter (demo_export_env ''PASS'') (demo_export_run ''PASS'') sg demo_dir = Inr w0"
    and wa: "writeAll (xe_Lib (demo_export_env ''PASS'')) (exportAppends (demo_export_env ''PASS'') demo_export_req (demo_export_run ''PASS'') n cc) w0 =
      Inr (w, demo_exported ''PASS'')"
    by (rule exportEntries_Some [OF e(1)])
  have "reportVerdict (demo_exported ''PASS'') = Some (JStr VerdictSuccess)"
    using exported_entries(2) [OF wa] by (simp add: demo_export_run_def mapVerdict_def verdict_text_def)
  with exported_success_is_a_pass [OF x demo_export_sound(5) e(1,2) v p r] show ?thesis by blast
qed

end
